(* ===== verification/Ordered_Map.thy ===== *)
theory Ordered_Map
  imports Prelude
begin

text \<open>
  Rust's \<open>BTreeMap\<close> as the code uses it: a list of entries in ascending key order. \<open>bt_upd\<close> is
  the entry API (\<open>entry(k).or_default()\<close>, \<open>or_insert\<close>, \<open>and_modify\<close>): the new value is a function
  of the old one, if any. The locale \<open>entry_map\<close> is the interface the components rely on, and the
  sorted entry list is its implementation.
\<close>

type_synonym ('k, 'v) btree = "('k \<times> 'v) list"

fun bt_upd :: "'k::linorder \<Rightarrow> ('v option \<Rightarrow> 'v) \<Rightarrow> ('k, 'v) btree \<Rightarrow> ('k, 'v) btree" where
  "bt_upd k f [] = [(k, f None)]"
| "bt_upd k f ((k', v) # m) =
     (if k < k' then (k, f None) # (k', v) # m
      else if k = k' then (k', f (Some v)) # m
      else (k', v) # bt_upd k f m)"

definition bt_insert :: "'k::linorder \<Rightarrow> 'v \<Rightarrow> ('k, 'v) btree \<Rightarrow> ('k, 'v) btree" where
  "bt_insert k v = bt_upd k (\<lambda>_. v)"

definition bt_ok :: "('k::linorder, 'v) btree \<Rightarrow> bool" where
  "bt_ok m \<longleftrightarrow> sorted_wrt (<) (map fst m)"

definition bt_of :: "('k::linorder \<times> 'v) list \<Rightarrow> ('k, 'v) btree" where
  "bt_of xs = fold (\<lambda>(k, v). bt_insert k v) xs []"

lemma set_keys_bt_upd: "fst ` set (bt_upd k f m) = insert k (fst ` set m)"
  by (induction k f m rule: bt_upd.induct) auto

lemma bt_ok_Nil [simp]: "bt_ok []"
  by (simp add: bt_ok_def)

lemma bt_ok_upd [simp]: "bt_ok m \<Longrightarrow> bt_ok (bt_upd k f m)"
proof (induction k f m rule: bt_upd.induct)
  case (1 k f)
  then show ?case by (simp add: bt_ok_def)
next
  case (2 k f k' v m)
  show ?case
  proof (cases "k' < k")
    case True
    have "\<forall>x\<in>fst ` set (bt_upd k f m). k' < x"
      using 2(2) True unfolding set_keys_bt_upd by (auto simp: bt_ok_def)
    moreover have "bt_ok (bt_upd k f m)"
      using 2 True by (simp add: bt_ok_def)
    ultimately show ?thesis
      by (simp add: bt_ok_def True less_not_sym [OF True] less_imp_not_eq2 [OF True])
  next
    case False
    have "\<forall>x\<in>set m. k' < fst x" using 2(2) by (simp add: bt_ok_def)
    then have "k < k' \<Longrightarrow> \<forall>x\<in>set m. k < fst x" by (meson less_trans)
    with False 2(2) show ?thesis by (simp add: bt_ok_def)
  qed
qed

lemma map_of_smaller: "bt_ok ((k', v) # m) \<Longrightarrow> k < k' \<Longrightarrow> map_of m k = None"
  by (auto simp: bt_ok_def map_of_eq_None_iff)

lemma lookup_bt_upd:
  "bt_ok m \<Longrightarrow> map_of (bt_upd k f m) = (map_of m)(k \<mapsto> f (map_of m k))"
proof (induction k f m rule: bt_upd.induct)
  case (1 k f)
  then show ?case by auto
next
  case (2 k f k' v m)
  have ok: "bt_ok m" using 2(2) by (simp add: bt_ok_def)
  consider "k < k'" | "k = k'" | "k' < k" by force
  then show ?case
  proof cases
    case 1
    with map_of_smaller [OF 2(2) 1] show ?thesis by auto
  next
    case 2
    then show ?thesis by auto
  next
    case 3
    with "2.IH" ok show ?thesis by (auto simp: fun_upd_twist)
  qed
qed

lemma distinct_keys_bt: "bt_ok m \<Longrightarrow> distinct (map fst m)"
  unfolding bt_ok_def by (simp add: strict_sorted_iff)

lemma bt_ok_filter [simp]: "bt_ok m \<Longrightarrow> bt_ok (filter P m)"
  unfolding bt_ok_def by (induction m) auto

lemma bt_ok_map_vals [simp]: "bt_ok (map (\<lambda>(k, v). (k, g k v)) m) = bt_ok m"
  unfolding bt_ok_def by (simp add: case_prod_beta comp_def)

section \<open>The interface\<close>

locale entry_map =
  fixes lookup :: "'m \<Rightarrow> 'k \<Rightarrow> 'v option"
    and upd :: "'k \<Rightarrow> ('v option \<Rightarrow> 'v) \<Rightarrow> 'm \<Rightarrow> 'm"
    and empty :: "'m"
    and invar :: "'m \<Rightarrow> bool"
  assumes invar_empty: "invar empty"
    and lookup_empty: "lookup empty k = None"
    and invar_upd: "invar m \<Longrightarrow> invar (upd k f m)"
    and lookup_upd: "invar m \<Longrightarrow> lookup (upd k f m) = (lookup m)(k \<mapsto> f (lookup m k))"
begin

text \<open>
  The clients' loops all run \<open>for x in xs { *map.entry(key(x)) \<dots> }\<close>. What such a loop leaves under
  a key depends only on the elements with that key, in order.
\<close>

definition fold_entries :: "('a \<Rightarrow> 'k) \<Rightarrow> ('a \<Rightarrow> 'v option \<Rightarrow> 'v) \<Rightarrow> 'a list \<Rightarrow> 'm \<Rightarrow> 'm" where
  "fold_entries key f xs m = fold (\<lambda>x. upd (key x) (f x)) xs m"

lemma invar_fold_entries: "invar m \<Longrightarrow> invar (fold_entries key f xs m)"
  unfolding fold_entries_def by (induction xs arbitrary: m) (auto intro: invar_upd)

lemma lookup_fold_entries:
  "invar m \<Longrightarrow> lookup (fold_entries key f xs m) k =
     fold (\<lambda>x v. Some (f x v)) (filter (\<lambda>x. key x = k) xs) (lookup m k)"
proof (induction xs arbitrary: m)
  case Nil
  then show ?case by (simp add: fold_entries_def)
next
  case (Cons x xs)
  have "lookup (fold_entries key f (x # xs) m) k
      = lookup (fold_entries key f xs (upd (key x) (f x) m)) k"
    by (simp add: fold_entries_def)
  also have "\<dots> = fold (\<lambda>x v. Some (f x v)) (filter (\<lambda>x. key x = k) xs)
      (lookup (upd (key x) (f x) m) k)"
    by (rule Cons.IH) (rule invar_upd [OF Cons.prems])
  finally show ?case by (simp add: lookup_upd [OF Cons.prems])
qed

lemma lookup_fold_entries_None:
  assumes "invar m" and "lookup m k = None"
  shows "lookup (fold_entries key f xs m) k = None \<longleftrightarrow> k \<notin> key ` set xs"
proof -
  have "fold (\<lambda>x v. Some (f x v)) ys (Some v) \<noteq> None" for ys v
    by (induction ys arbitrary: v) auto
  then have "fold (\<lambda>x v. Some (f x v)) ys None = None \<longleftrightarrow> ys = []" for ys
    by (cases ys) auto
  then show ?thesis
    using assms by (auto simp: lookup_fold_entries filter_empty_conv)
qed

end

interpretation bt: entry_map map_of bt_upd "[]" bt_ok
  by unfold_locales (auto simp: lookup_bt_upd)

lemmas bt_simps [simp] = bt.invar_fold_entries

lemma bt_insert_ok [simp]: "bt_ok m \<Longrightarrow> bt_ok (bt_insert k v m)"
  by (simp add: bt_insert_def)

lemma lookup_bt_insert [simp]: "bt_ok m \<Longrightarrow> map_of (bt_insert k v m) = (map_of m)(k \<mapsto> v)"
  by (simp add: bt_insert_def lookup_bt_upd)

lemma bt_of_fold: "bt_of xs = bt.fold_entries fst (\<lambda>x _. snd x) xs []"
  by (simp add: bt_of_def bt.fold_entries_def bt_insert_def case_prod_beta')

lemma bt_ok_of [simp]: "bt_ok (bt_of xs)"
  by (simp add: bt_of_fold)

lemma lookup_bt_of_distinct:
  assumes "distinct (map fst xs)"
  shows "map_of (bt_of xs) = map_of xs"
proof
  fix k
  have "fold (\<lambda>x v. Some (snd x)) (filter (\<lambda>x. fst x = k) xs) None = map_of xs k"
    using assms
  proof (induction xs)
    case (Cons x xs)
    show ?case
    proof (cases "fst x = k")
      case True
      then have "filter (\<lambda>x. fst x = k) xs = []"
        using Cons.prems by (auto simp: filter_empty_conv image_iff)
      then show ?thesis using True by simp
    qed (use Cons in auto)
  qed simp
  then show "map_of (bt_of xs) k = map_of xs k"
    by (simp add: bt_of_fold bt.lookup_fold_entries)
qed

end
