(* ===== verification/Json.thy ===== *)
theory Json
  imports Prelude "HOL-Library.Countable"
begin

text \<open>
  JSON values, as \<open>serde_json::Value\<close> presents a response body to the code, with the accessors the
  code calls on them. A number is a nonnegative integer, a negative one, or any other number, kept
  as the bits of its \<open>f64\<close>. An object keeps its members in order, a key at most once.
\<close>

datatype json =
    JNull
  | JBool bool
  | JPosInt u64
  | JNegInt i64
  | JFloat u64
  | JStr string
  | JArr "json list"
  | JObj "(string \<times> json) list"

text \<open>
  The text of JSON is not code of the repository; where a theorem needs it, it is a printer and a parser
  with \<open>parse (print v) = Some v\<close>. That such a pair exists is shown by counting the values.
\<close>

instance json :: countable
  by countable_datatype

definition unary_print :: "json \<Rightarrow> string" where
  "unary_print v = replicate (to_nat v) CHR ''1''"

definition unary_parse :: "string \<Rightarrow> json option" where
  "unary_parse s = Some (from_nat (length s))"

lemma unary_parse_print: "unary_parse (unary_print v) = Some v"
  by (simp add: unary_parse_def unary_print_def)

definition jget :: "json \<Rightarrow> string \<Rightarrow> json option" where
  "jget v key = (case v of JObj ms \<Rightarrow> map_of ms key | _ \<Rightarrow> None)"

definition as_str :: "json \<Rightarrow> string option" where
  "as_str v = (case v of JStr s \<Rightarrow> Some s | _ \<Rightarrow> None)"

definition as_u64 :: "json \<Rightarrow> u64 option" where
  "as_u64 v = (case v of JPosInt n \<Rightarrow> Some n | _ \<Rightarrow> None)"

definition as_bool :: "json \<Rightarrow> bool option" where
  "as_bool v = (case v of JBool b \<Rightarrow> Some b | _ \<Rightarrow> None)"

definition as_array :: "json \<Rightarrow> json list option" where
  "as_array v = (case v of JArr xs \<Rightarrow> Some xs | _ \<Rightarrow> None)"

definition is_object :: "json \<Rightarrow> bool" where
  "is_object v = (case v of JObj _ \<Rightarrow> True | _ \<Rightarrow> False)"

definition is_array :: "json \<Rightarrow> bool" where
  "is_array v = (case v of JArr _ \<Rightarrow> True | _ \<Rightarrow> False)"

definition is_null :: "json \<Rightarrow> bool" where
  "is_null v = (case v of JNull \<Rightarrow> True | _ \<Rightarrow> False)"

lemma json_access_simps [simp]:
  "jget (JObj ms) key = map_of ms key" "jget (JArr xs) key = None" "jget JNull key = None"
  "jget (JStr s) key = None" "jget (JPosInt n) key = None" "jget (JBool b) key = None"
  "jget (JNegInt i) key = None" "jget (JFloat f) key = None"
  "as_str (JStr s) = Some s" "as_str (JObj ms) = None" "as_str (JArr xs) = None" "as_str JNull = None"
  "as_str (JPosInt n) = None" "as_str (JBool b) = None"
  "as_u64 (JPosInt n) = Some n" "as_u64 (JStr s) = None" "as_u64 JNull = None" "as_u64 (JBool b) = None"
  "as_u64 (JNegInt i) = None" "as_u64 (JFloat f) = None"
  "as_bool (JBool b) = Some b" "as_bool (JStr s) = None" "as_bool JNull = None" "as_bool (JPosInt n) = None"
  "as_array (JArr xs) = Some xs" "as_array (JObj ms) = None" "as_array JNull = None" "as_array (JStr s) = None"
  "is_object (JObj ms)" "\<not> is_object (JArr xs)" "\<not> is_object JNull"
  "is_array (JArr xs)" "\<not> is_array (JObj ms)" "\<not> is_array JNull"
  "is_null JNull" "\<not> is_null (JStr s)" "\<not> is_null (JPosInt n)" "\<not> is_null (JBool b)"
  "\<not> is_null (JObj ms)" "\<not> is_null (JArr xs)"
  by (simp_all add: jget_def as_str_def as_u64_def as_bool_def as_array_def is_object_def
      is_array_def is_null_def)

lemma as_u64_SomeD: "as_u64 v = Some n \<Longrightarrow> v = JPosInt n"
  by (cases v) (simp_all add: as_u64_def)

lemma as_str_SomeD: "as_str v = Some s \<Longrightarrow> v = JStr s"
  by (cases v) (simp_all add: as_str_def)

lemma is_array_iff: "is_array v \<longleftrightarrow> (\<exists>xs. v = JArr xs)"
  by (cases v) (simp_all add: is_array_def)

lemma as_array_SomeD: "as_array v = Some xs \<Longrightarrow> v = JArr xs"
  by (cases v) (simp_all add: as_array_def)

text \<open>\<open>Value::pointer\<close> along a path of object keys.\<close>

fun jpointer :: "json \<Rightarrow> string list \<Rightarrow> json option" where
  "jpointer v [] = Some v"
| "jpointer v (k # ks) = Option.bind (jget v k) (\<lambda>w. jpointer w ks)"

text \<open>An object member whose value is absent is left out (\<open>skip_serializing_if\<close>).\<close>

definition opt_member :: "string \<Rightarrow> ('a \<Rightarrow> json) \<Rightarrow> 'a option \<Rightarrow> (string \<times> json) list" where
  "opt_member key f x = (case x of None \<Rightarrow> [] | Some a \<Rightarrow> [(key, f a)])"

lemma opt_member_simps [simp]:
  "opt_member key f None = []" "opt_member key f (Some a) = [(key, f a)]"
  by (simp_all add: opt_member_def)

end
