(* ===== verification/Orders.thy ===== *)
theory Orders
  imports Ordered_Map Json
begin

text \<open>
  The vendor-neutral order contract (\<open>market-domain/src/orders.rs\<close>) and the listing caps
  (\<open>market-domain/src/limits.rs\<close>). A row of an orders response is understood completely, understood
  not to be supported, or ambiguous; the locale \<open>item_constraints\<close> is the trait the decoder asks
  about an item's rank and subtype.
\<close>

section \<open>Listing caps\<close>

definition MAX_PLAN_ITEMS :: nat where "MAX_PLAN_ITEMS = 50"
definition MAX_PER_TRADE :: u32 where "MAX_PER_TRADE = 6"
definition MIN_PLATINUM :: u32 where "MIN_PLATINUM = 5"
definition MAX_PLATINUM :: u32 where "MAX_PLATINUM = 3000"

lemmas limits [simp] = MAX_PLAN_ITEMS_def MAX_PER_TRADE_def MIN_PLATINUM_def MAX_PLATINUM_def

section \<open>Orders\<close>

datatype order_side = Sell | Buy

fun side_str :: "order_side \<Rightarrow> string" where
  "side_str Sell = ''sell''"
| "side_str Buy = ''buy''"

lemma side_str_inject [simp]: "side_str a = side_str b \<longleftrightarrow> a = b"
  by (cases a; cases b) simp_all

text \<open>The derived \<open>Ord\<close>: the declaration order of the constructors.\<close>

instantiation order_side :: linorder
begin

definition less_eq_order_side :: "order_side \<Rightarrow> order_side \<Rightarrow> bool" where
  "less_eq_order_side a b \<longleftrightarrow> a = Sell \<or> b = Buy"

definition less_order_side :: "order_side \<Rightarrow> order_side \<Rightarrow> bool" where
  "less_order_side a b \<longleftrightarrow> a = Sell \<and> b = Buy"

instance
proof
  fix a b c :: order_side
  show "(a < b) = (a \<le> b \<and> \<not> b \<le> a)"
    by (cases a; cases b) (simp_all add: less_eq_order_side_def less_order_side_def)
  show "a \<le> a"
    by (cases a) (simp_all add: less_eq_order_side_def)
  show "a \<le> b \<Longrightarrow> b \<le> c \<Longrightarrow> a \<le> c"
    by (cases a; cases b; cases c) (simp_all add: less_eq_order_side_def)
  show "a \<le> b \<Longrightarrow> b \<le> a \<Longrightarrow> a = b"
    by (cases a; cases b) (simp_all add: less_eq_order_side_def)
  show "a \<le> b \<or> b \<le> a"
    by (cases a; cases b) (simp_all add: less_eq_order_side_def)
qed

end

record normalized_order =
  no_id :: string
  no_item_id :: string
  no_side :: order_side
  no_platinum :: u64
  no_quantity :: u64
  no_per_trade :: "u64 option"
  no_visible :: "bool option"
  no_rank :: "u64 option"
  no_subtype :: "string option"

text \<open>
  The identity the market enforces uniqueness on. Its derived order is lexicographic in the
  declaration order of the fields, which is the order of the tuple \<open>key_tuple\<close>.
\<close>

datatype order_key =
  OrderKey (ok_item_id: string) (ok_side: order_side) (ok_rank: "u64 option") (ok_subtype: "string option")

definition key_tuple :: "order_key \<Rightarrow> string \<times> order_side \<times> u64 option \<times> string option" where
  "key_tuple k = (ok_item_id k, ok_side k, ok_rank k, ok_subtype k)"

lemma key_tuple_inject [simp]: "key_tuple a = key_tuple b \<longleftrightarrow> a = b"
  by (cases a; cases b) (simp add: key_tuple_def)

instantiation order_key :: linorder
begin

definition less_eq_order_key :: "order_key \<Rightarrow> order_key \<Rightarrow> bool" where
  "less_eq_order_key a b \<longleftrightarrow> key_tuple a \<le> key_tuple b"

definition less_order_key :: "order_key \<Rightarrow> order_key \<Rightarrow> bool" where
  "less_order_key a b \<longleftrightarrow> key_tuple a < key_tuple b"

instance
proof
  fix a b c :: order_key
  show "(a < b) = (a \<le> b \<and> \<not> b \<le> a)"
    unfolding less_eq_order_key_def less_order_key_def by (rule less_le_not_le)
  show "a \<le> a"
    unfolding less_eq_order_key_def by (rule order_refl)
  show "a \<le> b \<Longrightarrow> b \<le> c \<Longrightarrow> a \<le> c"
    unfolding less_eq_order_key_def by (rule order_trans)
  show "a \<le> b \<Longrightarrow> b \<le> a \<Longrightarrow> a = b"
    unfolding less_eq_order_key_def by (metis antisym key_tuple_inject)
  show "a \<le> b \<or> b \<le> a"
    unfolding less_eq_order_key_def by (rule linear)
qed

end

definition order_key_of :: "normalized_order \<Rightarrow> order_key" where
  "order_key_of n = OrderKey (no_item_id n) (no_side n) (no_rank n) (no_subtype n)"

record refused_row =
  rr_evidence :: json
  rr_reason :: string

datatype order_row =
    Supported normalized_order
  | Unsupported refused_row
  | Ambiguous refused_row

fun refusal :: "order_row \<Rightarrow> refused_row option" where
  "refusal (Supported _) = None"
| "refusal (Unsupported r) = Some r"
| "refusal (Ambiguous r) = Some r"

fun supported :: "order_row \<Rightarrow> normalized_order option" where
  "supported (Supported n) = Some n"
| "supported _ = None"

lemma supported_eq_Some [simp]: "supported r = Some n \<longleftrightarrow> r = Supported n"
  by (cases r) auto

lemma refusal_None_iff: "refusal r = None \<longleftrightarrow> (\<exists>n. r = Supported n)"
  by (cases r) auto

section \<open>What the catalogue allows\<close>

text \<open>
  \<open>accepts\<close> answers for an item, a rank and a subtype. The law the trait documents: an item the
  catalogue does not know constrains nothing, so that a snapshot that lags the live market cannot
  hide an order.
\<close>

locale item_constraints =
  fixes known :: "string \<Rightarrow> bool"
    and accepts :: "string \<Rightarrow> u64 option \<Rightarrow> string option \<Rightarrow> bool"
  assumes unknown_accepts: "\<not> known item_id \<Longrightarrow> accepts item_id rank subtype"
begin

lemma refused_is_known: "\<not> accepts item_id rank subtype \<Longrightarrow> known item_id"
  using unknown_accepts by blast

end

end
