(* ===== verification/Catalog.thy ===== *)
theory Catalog
  imports Orders
begin

text \<open>
  The item catalogue (\<open>wfm-trading/src/market/catalog.rs\<close>): reading \<open>/v2/items\<close>, the item index, and
  the metadata attached to an order row; and the catalogue as the decoder's \<open>ItemConstraints\<close>
  (\<open>CatalogConstraints\<close> of \<open>wfm-trading/src/orders/listing.rs\<close>).
\<close>

record wfm_catalog_item =
  ci_item_id :: string
  ci_bulk_tradable :: bool
  ci_session_supported :: bool
  ci_display_name :: string
  ci_max_rank :: "u32 option"
  ci_subtypes :: "string list"

type_synonym catalog = "(string, wfm_catalog_item) btree"

definition ends_with :: "string \<Rightarrow> string \<Rightarrow> bool" where
  "ends_with s suf \<longleftrightarrow> length suf \<le> length s \<and> drop (length s - length suf) s = suf"

definition json_str_or :: "json option \<Rightarrow> string \<Rightarrow> string" where
  "json_str_or v d = unwrap_or (Option.bind v as_str) d"

definition null_or_absent :: "json option \<Rightarrow> bool" where
  "null_or_absent v = is_none_or v is_null"

definition supported_tags :: "string list" where
  "supported_tags = [''mod'', ''arcane_enhancement'', ''component'', ''primary'', ''secondary'', ''melee'']"

definition catalog_item_of :: "json \<Rightarrow> string \<Rightarrow> string \<Rightarrow> wfm_catalog_item" where
  "catalog_item_of it ident slug =
     (let max_rank = map_option ucast (Option.bind (jget it ''maxRank'') as_u64);
          subtypes = unwrap_or (map_option (List.map_filter as_str)
                       (Option.bind (jget it ''subtypes'') as_array)) [];
          supported_tag = is_some_and (Option.bind (jget it ''tags'') as_array)
            (\<lambda>tags. list_ex (\<lambda>tag. tag \<in> set supported_tags) (List.map_filter as_str tags));
          set_root = jget it ''setRoot'';
          set_identity = (ends_with slug ''_set'' \<and> max_rank = None
            \<and> Option.bind set_root as_bool = Some True)
      in \<lparr> ci_item_id = ident,
           ci_bulk_tradable = unwrap_or (Option.bind (jget it ''bulkTradable'') as_bool) False,
           ci_session_supported =
             (supported_tag \<or> set_identity) \<and> subtypes = []
             \<and> is_none_or set_root (\<lambda>v. is_null v \<or> as_bool v = Some False \<or> set_identity)
             \<and> is_none_or (jget it ''tradable'') (\<lambda>v. is_null v \<or> as_bool v = Some True)
             \<and> list_all (\<lambda>key. null_or_absent (jget it key))
                 [''maxCharges'', ''maxAmberStars'', ''maxCyanStars''],
           ci_display_name = json_str_or (jpointer it [''i18n'', ''en'', ''name'']) slug,
           ci_max_rank = max_rank,
           ci_subtypes = subtypes \<rparr>)"

definition catalog_step :: "json \<Rightarrow> catalog \<Rightarrow> catalog" where
  "catalog_step it out =
     (let ident = json_str_or (jget it ''id'') ''''; slug = json_str_or (jget it ''slug'') ''''
      in if ident \<noteq> '''' \<and> slug \<noteq> '''' then bt_insert slug (catalog_item_of it ident slug) out
         else out)"

definition parse_wfm_catalog :: "json \<Rightarrow> (string, catalog) result" where
  "parse_wfm_catalog body =
     (case Option.bind (jget body ''data'') as_array of
        None \<Rightarrow> Err ''/v2/items response shape changed (no top-level data array)''
      | Some items \<Rightarrow> Ok (fold catalog_step items []))"

record item_meta =
  im_name :: string
  im_slug :: string

definition index_item_meta :: "catalog \<Rightarrow> (string, item_meta) btree" where
  "index_item_meta cat =
     bt_of (map (\<lambda>(slug, c). (ci_item_id c, \<lparr> im_name = ci_display_name c, im_slug = slug \<rparr>)) cat)"

text \<open>\<open>entry(key).or_insert_with(\<dots>)\<close> on a JSON object's members.\<close>

definition or_insert :: "string \<Rightarrow> json \<Rightarrow> (string \<times> json) list \<Rightarrow> (string \<times> json) list" where
  "or_insert key v ms = (if map_of ms key = None then ms @ [(key, v)] else ms)"

definition set_member :: "string \<Rightarrow> json \<Rightarrow> (string \<times> json) list \<Rightarrow> (string \<times> json) list" where
  "set_member key v ms = map (\<lambda>(k, w). if k = key then (k, v) else (k, w)) ms"

definition attach_item_meta :: "json \<Rightarrow> (string, item_meta) btree \<Rightarrow> json" where
  "attach_item_meta order id_to_item =
     (case (case Option.bind (jget order ''itemId'') as_str of
              Some s \<Rightarrow> Some s | None \<Rightarrow> Option.bind (jget order ''item_id'') as_str) of
        None \<Rightarrow> order
      | Some ident \<Rightarrow> (case map_of id_to_item ident of
          None \<Rightarrow> order
        | Some meta \<Rightarrow> (case order of
            JObj ms \<Rightarrow>
              (let ms1 = or_insert ''item'' (JObj []) ms in
               case map_of ms1 ''item'' of
                 Some (JObj fs) \<Rightarrow>
                   JObj (set_member ''item''
                     (JObj (or_insert ''slug'' (JStr (im_slug meta))
                       (or_insert ''name'' (JStr (im_name meta)) fs))) ms1)
               | _ \<Rightarrow> JObj ms1)
          | _ \<Rightarrow> order)))"

lemma map_of_or_insert:
  "map_of (or_insert key v ms) k =
     (if k = key then Some (unwrap_or (map_of ms key) v) else map_of ms k)"
  by (auto simp: or_insert_def map_add_def split: option.splits)

lemma map_of_set_member:
  "map_of (set_member key v ms) k =
     (if k = key then map_option (\<lambda>_. v) (map_of ms key) else map_of ms k)"
  unfolding set_member_def by (induction ms) auto

lemma attach_item_meta_other:
  "k \<noteq> ''item'' \<Longrightarrow> jget (attach_item_meta order m) k = jget order k"
  by (auto simp: attach_item_meta_def map_of_or_insert map_of_set_member Let_def
      split: option.splits json.splits)

section \<open>Invariants of the catalogue\<close>

definition catalog_ok :: "catalog \<Rightarrow> bool" where
  "catalog_ok cat \<longleftrightarrow> bt_ok cat \<and> (\<forall>(slug, c) \<in> set cat. slug \<noteq> '''' \<and> ci_item_id c \<noteq> '''')"

lemma set_bt_insert_subset: "set (bt_upd k (\<lambda>_. v) m) \<subseteq> insert (k, v) (set m)"
  by (induction k "\<lambda>_::'b option. v" m rule: bt_upd.induct) auto

lemma catalog_item_id [simp]: "ci_item_id (catalog_item_of it ident slug) = ident"
  by (simp add: catalog_item_of_def Let_def)

lemma catalog_step_ok: "catalog_ok out \<Longrightarrow> catalog_ok (catalog_step it out)"
  using set_bt_insert_subset
  by (fastforce simp: catalog_ok_def catalog_step_def Let_def bt_insert_def split: if_splits)

lemma catalog_fold_ok: "catalog_ok out \<Longrightarrow> catalog_ok (fold catalog_step items out)"
  by (induction items arbitrary: out) (auto intro: catalog_step_ok)

lemma parse_wfm_catalog_ok: "parse_wfm_catalog body = Ok cat \<Longrightarrow> catalog_ok cat"
  by (auto simp: parse_wfm_catalog_def catalog_ok_def split: option.splits
      intro!: catalog_fold_ok [unfolded catalog_ok_def])

section \<open>The unlocked account and its constraints\<close>

record unlocked =
  un_jwt :: string
  un_username :: string
  un_platform :: string
  un_catalog :: catalog
  un_id_to_item :: "(string, item_meta) btree"

definition catalog_entry_of :: "unlocked \<Rightarrow> string \<Rightarrow> wfm_catalog_item option" where
  "catalog_entry_of u item_id =
     Option.bind (map_of (un_id_to_item u) item_id) (\<lambda>meta. map_of (un_catalog u) (im_slug meta))"

definition item_allows :: "wfm_catalog_item \<Rightarrow> u64 option \<Rightarrow> string option \<Rightarrow> bool" where
  "item_allows item rank subtype \<longleftrightarrow>
     is_none_or (ci_max_rank item) (\<lambda>max_rank. is_some_and rank (\<lambda>r. r \<le> ucast max_rank))
     \<and> (ci_subtypes item = [] \<or> is_some_and subtype (\<lambda>s. s \<in> set (ci_subtypes item)))"

definition catalog_accepts :: "unlocked \<Rightarrow> string \<Rightarrow> u64 option \<Rightarrow> string option \<Rightarrow> bool" where
  "catalog_accepts u item_id rank subtype =
     is_none_or (catalog_entry_of u item_id) (\<lambda>item. item_allows item rank subtype)"

interpretation cat: item_constraints "\<lambda>i. catalog_entry_of u i \<noteq> None" "catalog_accepts u" for u
  by unfold_locales (simp add: catalog_accepts_def)

end
