(* ===== verification/Order_Decode.thy ===== *)
theory Order_Decode
  imports Catalog
begin

text \<open>
  Decoding an orders response (\<open>wfm-trading/src/orders/decode.rs\<close>) and rendering decoded orders
  back (\<open>orders_body\<close> of \<open>wfm-trading/src/orders/listing.rs\<close>). The compact text of a JSON value and
  Rust's debug quoting of a string are parameters (\<open>to_text\<close> and \<open>debug\<close>): \<open>serde_json\<close> and the
  formatter produce them, and only the length of the text is used.

  The specification is \<open>row_means\<close>, which says what a row that describes an order holds; the decoder
  computes it (\<open>decode_row_means\<close>).
\<close>

definition MAX_EVIDENCE :: nat where "MAX_EVIDENCE = 512"

section \<open>Evidence\<close>

text \<open>A byte that starts a UTF-8 sequence: not of the form \<open>10xxxxxx\<close>.\<close>

definition is_char_boundary :: "string \<Rightarrow> nat \<Rightarrow> bool" where
  "is_char_boundary s i \<longleftrightarrow>
     i = 0 \<or> i = length s \<or>
     (i < length s \<and> \<not> (128 \<le> (of_char (s ! i) :: nat) \<and> (of_char (s ! i) :: nat) < 192))"

text \<open>\<open>while !text.is_char_boundary(end) { end -= 1 }\<close>: 0 is a boundary, so \<open>end\<close> never underflows.\<close>

fun back_to_boundary :: "string \<Rightarrow> nat \<Rightarrow> nat" where
  "back_to_boundary s 0 = 0"
| "back_to_boundary s (Suc e) = (if is_char_boundary s (Suc e) then Suc e else back_to_boundary s e)"

definition evidence :: "(json \<Rightarrow> string) \<Rightarrow> json \<Rightarrow> json" where
  "evidence to_text row =
     (let text = to_text row
      in if length text \<le> MAX_EVIDENCE then row
         else JStr (take (back_to_boundary text MAX_EVIDENCE) text))"

lemma back_to_boundary_le: "back_to_boundary s e \<le> e"
  by (induction e) (simp_all add: le_SucI)

lemma back_to_boundary_boundary: "is_char_boundary s (back_to_boundary s e)"
  by (induction e) (simp_all add: is_char_boundary_def)

lemma back_to_boundary_last:
  "is_char_boundary s i \<Longrightarrow> i \<le> e \<Longrightarrow> i \<le> back_to_boundary s e"
  by (induction e) (auto simp: le_Suc_eq)

section \<open>One row\<close>

definition side_from :: "string \<Rightarrow> order_side option" where
  "side_from bucket =
     (if bucket = ''sell'' then Some Sell else if bucket = ''buy'' then Some Buy else None)"

definition non_empty_str :: "json \<Rightarrow> string \<Rightarrow> string option" where
  "non_empty_str row key = opt_filter (\<lambda>s. s \<noteq> '''') (Option.bind (jget row key) as_str)"

definition positive :: "json \<Rightarrow> string \<Rightarrow> u64 option" where
  "positive row key = opt_filter (\<lambda>n. 0 < n) (Option.bind (jget row key) as_u64)"

text \<open>A field that may be absent or null; anything else has to be read by \<open>f\<close>.\<close>

definition nullable :: "json \<Rightarrow> string \<Rightarrow> (json \<Rightarrow> 'a option) \<Rightarrow> 'a option option" where
  "nullable row key f =
     (case jget row key of
        None \<Rightarrow> Some None
      | Some v \<Rightarrow> if is_null v then Some None else map_option Some (f v))"

definition lot_ok :: "u64 \<Rightarrow> u64 \<Rightarrow> bool" where
  "lot_ok quantity lot \<longleftrightarrow> 1 \<le> lot \<and> lot \<le> ucast MAX_PER_TRADE \<and> quantity mod lot = 0"

datatype side_reading = SideOk order_side | SideBad string | SideConflict string

definition read_side :: "(string \<Rightarrow> string) \<Rightarrow> json \<Rightarrow> order_side option \<Rightarrow> side_reading" where
  "read_side debug row bucket =
     (case (case Option.bind (jget row ''type'') as_str of
              None \<Rightarrow> Ok None
            | Some t \<Rightarrow> if t = ''sell'' then Ok (Some Sell)
                        else if t = ''buy'' then Ok (Some Buy)
                        else Err (''row states an unknown side '' @ debug t)) of
        Err e \<Rightarrow> SideBad e
      | Ok stated \<Rightarrow> (case (stated, bucket) of
          (Some s, Some b) \<Rightarrow>
            if s \<noteq> b then SideConflict (''row is filed under '' @ side_str b @ '' but states '' @ side_str s)
            else SideOk s
        | (Some s, None) \<Rightarrow> SideOk s
        | (None, Some b) \<Rightarrow> SideOk b
        | (None, None) \<Rightarrow> SideBad ''row states no side and sits in no bucket''))"

definition unfilled :: "(json \<Rightarrow> string) \<Rightarrow> json \<Rightarrow> string \<Rightarrow> order_row" where
  "unfilled to_text row reason = Unsupported \<lparr> rr_evidence = evidence to_text row, rr_reason = reason \<rparr>"

definition decode_row ::
  "(json \<Rightarrow> string) \<Rightarrow> (string \<Rightarrow> string) \<Rightarrow> (string \<Rightarrow> u64 option \<Rightarrow> string option \<Rightarrow> bool)
   \<Rightarrow> json \<Rightarrow> order_side option \<Rightarrow> order_row" where
  "decode_row to_text debug accepts row bucket =
     (let bad = unfilled to_text row in
      case non_empty_str row ''id'' of None \<Rightarrow> bad ''row has no order id'' | Some ident \<Rightarrow>
      case non_empty_str row ''itemId'' of None \<Rightarrow> bad ''row has no item id'' | Some item_id \<Rightarrow>
      case read_side debug row bucket of
        SideBad e \<Rightarrow> bad e
      | SideConflict e \<Rightarrow> Ambiguous \<lparr> rr_evidence = evidence to_text row, rr_reason = e \<rparr>
      | SideOk side \<Rightarrow>
      case (positive row ''platinum'', positive row ''quantity'') of
        (Some platinum, Some quantity) \<Rightarrow>
         (case nullable row ''rank'' as_u64 of
            None \<Rightarrow> bad ''row carries a rank that is not a number''
          | Some rank \<Rightarrow>
          case nullable row ''subtype'' (\<lambda>_. non_empty_str row ''subtype'') of
            None \<Rightarrow> bad ''row carries an empty or non-text subtype''
          | Some subtype \<Rightarrow>
            if \<not> accepts item_id rank subtype
            then bad ''row's rank or subtype is not one the catalogue allows for this item''
            else
          case nullable row ''perTrade'' (\<lambda>v. opt_filter (lot_ok quantity) (as_u64 v)) of
            None \<Rightarrow> bad ''row carries an invalid trade lot''
          | Some per_trade \<Rightarrow>
            Supported \<lparr> no_id = ident, no_item_id = item_id, no_side = side, no_platinum = platinum,
                        no_quantity = quantity, no_per_trade = per_trade,
                        no_visible = Option.bind (jget row ''visible'') as_bool,
                        no_rank = rank, no_subtype = subtype \<rparr>)
      | _ \<Rightarrow> bad ''row has no positive platinum or quantity'')"

section \<open>The whole response\<close>

type_synonym decoded_orders = "order_row list"

definition is_buckets :: "json \<Rightarrow> bool" where
  "is_buckets data \<longleftrightarrow>
     is_object data \<and> list_all (\<lambda>bucket. is_some_and (jget data bucket) is_array) [''sell'', ''buy'']"

definition bucket_rows :: "json \<Rightarrow> string \<Rightarrow> (json \<times> order_side option) list" where
  "bucket_rows data bucket =
     map (\<lambda>row. (row, side_from bucket)) (unwrap_or (Option.bind (jget data bucket) as_array) [])"

definition response_rows :: "json \<Rightarrow> (string, (json \<times> order_side option) list) result" where
  "response_rows body =
     (case jget body ''data'' of
        None \<Rightarrow> Err ''Orders response has no data; refusing to assume an empty account.''
      | Some data \<Rightarrow> (case as_array data of
          Some rows \<Rightarrow> Ok (map (\<lambda>row. (row, None)) rows)
        | None \<Rightarrow>
            if is_buckets data then Ok (bucket_rows data ''sell'' @ bucket_rows data ''buy'')
            else Err ''Orders response is neither a row list nor a pair of sell/buy buckets; reconcile current orders before changing listings.''))"

definition decode_order_rows ::
  "(json \<Rightarrow> string) \<Rightarrow> (string \<Rightarrow> string) \<Rightarrow> (string \<Rightarrow> u64 option \<Rightarrow> string option \<Rightarrow> bool)
   \<Rightarrow> json \<Rightarrow> (string, order_row list) result" where
  "decode_order_rows to_text debug accepts body =
     rbind (response_rows body) (\<lambda>rows.
       Ok (map (\<lambda>(row, bucket). decode_row to_text debug accepts row bucket) rows))"

definition first_refusal :: "order_row list \<Rightarrow> refused_row option" where
  "first_refusal orders = first_of (List.map_filter refusal orders)"

definition decode_orders ::
  "(json \<Rightarrow> string) \<Rightarrow> (string \<Rightarrow> string) \<Rightarrow> (string \<Rightarrow> u64 option \<Rightarrow> string option \<Rightarrow> bool)
   \<Rightarrow> json \<Rightarrow> (string, decoded_orders) result" where
  "decode_orders to_text debug accepts body =
     rbind (decode_order_rows to_text debug accepts body) (\<lambda>orders.
       case first_refusal orders of
         Some r \<Rightarrow> Err (''Orders response has a row this build cannot interpret ('' @ rr_reason r
                    @ ''); reconcile current orders before changing listings.'')
       | None \<Rightarrow> Ok orders)"

definition decode_user_orders ::
  "(json \<Rightarrow> string) \<Rightarrow> (string \<Rightarrow> string) \<Rightarrow> unlocked \<Rightarrow> json \<Rightarrow> (string, decoded_orders) result" where
  "decode_user_orders to_text debug u = decode_orders to_text debug (catalog_accepts u)"

definition decode_user_order_rows ::
  "(json \<Rightarrow> string) \<Rightarrow> (string \<Rightarrow> string) \<Rightarrow> unlocked \<Rightarrow> json \<Rightarrow> (string, order_row list) result" where
  "decode_user_order_rows to_text debug u = decode_order_rows to_text debug (catalog_accepts u)"

definition opt_json :: "('a \<Rightarrow> json) \<Rightarrow> 'a option \<Rightarrow> json" where
  "opt_json f x = (case x of None \<Rightarrow> JNull | Some a \<Rightarrow> f a)"

definition order_json :: "normalized_order \<Rightarrow> json" where
  "order_json n = JObj
     [(''id'', JStr (no_id n)), (''itemId'', JStr (no_item_id n)), (''type'', JStr (side_str (no_side n))),
      (''platinum'', JPosInt (no_platinum n)), (''quantity'', JPosInt (no_quantity n)),
      (''rank'', opt_json JPosInt (no_rank n)), (''subtype'', opt_json JStr (no_subtype n)),
      (''perTrade'', opt_json JPosInt (no_per_trade n)), (''visible'', opt_json JBool (no_visible n))]"

definition orders_body :: "decoded_orders \<Rightarrow> unlocked \<Rightarrow> json" where
  "orders_body decoded u =
     JObj [(''data'', JArr (map (\<lambda>n. attach_item_meta (order_json n) (un_id_to_item u))
                         (List.map_filter supported decoded)))]"

section \<open>What a response holds\<close>

text \<open>The specification of a response: a list of rows, each with its own side, or one list of sell and one of buy rows.\<close>

definition response_holds :: "json \<Rightarrow> (json \<times> order_side option) list \<Rightarrow> bool" where
  "response_holds body rows \<longleftrightarrow>
     (\<exists>xs. jget body ''data'' = Some (JArr xs) \<and> rows = map (\<lambda>x. (x, None)) xs)
     \<or> (\<exists>ms sells buys. jget body ''data'' = Some (JObj ms)
          \<and> map_of ms ''sell'' = Some (JArr sells) \<and> map_of ms ''buy'' = Some (JArr buys)
          \<and> rows = map (\<lambda>x. (x, Some Sell)) sells @ map (\<lambda>x. (x, Some Buy)) buys)"

lemma response_rows_iff: "response_rows body = Ok rows \<longleftrightarrow> response_holds body rows"
proof (cases "jget body ''data''")
  case None
  then show ?thesis by (simp add: response_rows_def response_holds_def)
next
  case (Some data)
  show ?thesis
  proof (cases data)
    case (JObj ms)
    have "is_buckets data \<longleftrightarrow> (\<exists>sells buys. map_of ms ''sell'' = Some (JArr sells) \<and> map_of ms ''buy'' = Some (JArr buys))"
      by (auto simp: is_buckets_def JObj is_some_and_def is_array_def is_object_def split: option.splits json.splits)
    then show ?thesis
      using Some by (auto simp: response_rows_def response_holds_def JObj as_array_def bucket_rows_def side_from_def)
  qed (use Some in \<open>auto simp: response_rows_def response_holds_def as_array_def is_buckets_def is_object_def\<close>)
qed

section \<open>What a row means\<close>

text \<open>
  The specification: the order a row describes, field by field, without reference to the decoder's
  order of checks or its messages.
\<close>

definition side_agrees :: "json option \<Rightarrow> order_side option \<Rightarrow> order_side \<Rightarrow> bool" where
  "side_agrees stated bucket side \<longleftrightarrow>
     (case Option.bind stated as_str of
        Some t \<Rightarrow> t = side_str side \<and> is_none_or bucket (\<lambda>b. b = side)
      | None \<Rightarrow> bucket = Some side)"

definition field_means :: "json option \<Rightarrow> ('a \<Rightarrow> json) \<Rightarrow> 'a option \<Rightarrow> bool" where
  "field_means v f x \<longleftrightarrow> (case x of None \<Rightarrow> null_or_absent v | Some a \<Rightarrow> v = Some (f a))"

definition whole_lots :: "u64 \<Rightarrow> u64 \<Rightarrow> bool" where
  "whole_lots quantity lot \<longleftrightarrow> 1 \<le> unat lot \<and> unat lot \<le> 6 \<and> unat lot dvd unat quantity"

lemma lot_ok_whole: "lot_ok quantity lot \<longleftrightarrow> whole_lots quantity lot"
  by (auto simp: lot_ok_def whole_lots_def word_le_nat_alt word_unat_eq_iff unat_mod_distrib mod_eq_0_iff_dvd)

definition well_formed_order :: "normalized_order \<Rightarrow> bool" where
  "well_formed_order n \<longleftrightarrow>
     no_id n \<noteq> '''' \<and> no_item_id n \<noteq> '''' \<and> 0 < no_platinum n \<and> 0 < no_quantity n
     \<and> is_none_or (no_per_trade n) (whole_lots (no_quantity n)) \<and> no_subtype n \<noteq> Some ''''"

definition row_means ::
  "(string \<Rightarrow> u64 option \<Rightarrow> string option \<Rightarrow> bool) \<Rightarrow> json \<Rightarrow> order_side option \<Rightarrow> normalized_order \<Rightarrow> bool" where
  "row_means accepts row bucket n \<longleftrightarrow>
     jget row ''id'' = Some (JStr (no_id n)) \<and> jget row ''itemId'' = Some (JStr (no_item_id n))
     \<and> side_agrees (jget row ''type'') bucket (no_side n)
     \<and> jget row ''platinum'' = Some (JPosInt (no_platinum n))
     \<and> jget row ''quantity'' = Some (JPosInt (no_quantity n))
     \<and> field_means (jget row ''rank'') JPosInt (no_rank n)
     \<and> field_means (jget row ''subtype'') JStr (no_subtype n)
     \<and> field_means (jget row ''perTrade'') JPosInt (no_per_trade n)
     \<and> no_visible n = Option.bind (jget row ''visible'') as_bool
     \<and> accepts (no_item_id n) (no_rank n) (no_subtype n)
     \<and> well_formed_order n"

lemma non_empty_str_iff: "non_empty_str row key = Some s \<longleftrightarrow> jget row key = Some (JStr s) \<and> s \<noteq> ''''"
  by (auto simp: non_empty_str_def bind_eq_Some_conv dest: as_str_SomeD)

lemma positive_iff: "positive row key = Some n \<longleftrightarrow> jget row key = Some (JPosInt n) \<and> 0 < n"
  by (auto simp: positive_def bind_eq_Some_conv dest: as_u64_SomeD)

lemma nullable_iff:
  assumes "\<And>v a. f v = Some a \<longleftrightarrow> v = g a \<and> P a" and "\<And>a. \<not> is_null (g a)"
  shows "nullable row key f = Some x \<longleftrightarrow> field_means (jget row key) g x \<and> is_none_or x P"
  using assms
  by (cases x) (auto simp: nullable_def field_means_def null_or_absent_def split: option.splits if_splits)

lemma as_u64_iff: "as_u64 v = Some n \<longleftrightarrow> v = JPosInt n"
  by (auto dest: as_u64_SomeD)

lemma read_side_iff:
  "read_side debug row bucket = SideOk side \<longleftrightarrow> side_agrees (jget row ''type'') bucket side"
  by (cases side) (auto simp: read_side_def side_agrees_def split: option.splits sum.splits if_splits)

lemma nullable_rank:
  "nullable row ''rank'' as_u64 = Some x \<longleftrightarrow> field_means (jget row ''rank'') JPosInt x"
  using nullable_iff [of as_u64 JPosInt "\<lambda>_. True" row "''rank''" x]
  by (cases x) (simp_all add: as_u64_iff)

lemma nullable_subtype:
  "nullable row ''subtype'' (\<lambda>_. non_empty_str row ''subtype'') = Some x \<longleftrightarrow>
     field_means (jget row ''subtype'') JStr x \<and> x \<noteq> Some ''''"
  by (cases x) (auto simp: nullable_def field_means_def null_or_absent_def non_empty_str_iff
      split: option.splits if_splits)

lemma nullable_lot:
  "nullable row ''perTrade'' (\<lambda>v. opt_filter (lot_ok q) (as_u64 v)) = Some x \<longleftrightarrow>
     field_means (jget row ''perTrade'') JPosInt x \<and> is_none_or x (whole_lots q)"
  by (rule nullable_iff) (auto simp: as_u64_iff lot_ok_whole)

lemmas row_readings = non_empty_str_iff positive_iff read_side_iff nullable_rank nullable_subtype
  nullable_lot

text \<open>The decoder accepts a row exactly when it describes an order, and returns that order.\<close>

lemma decode_row_means:
  "decode_row to_text debug accepts row bucket = Supported n \<longleftrightarrow> row_means accepts row bucket n"
proof
  assume "decode_row to_text debug accepts row bucket = Supported n"
  then show "row_means accepts row bucket n"
    unfolding decode_row_def Let_def unfilled_def
    by (auto simp: row_readings row_means_def well_formed_order_def
        split: option.splits side_reading.splits if_splits)
next
  assume means: "row_means accepts row bucket n"
  then have "non_empty_str row ''id'' = Some (no_id n)"
    and "non_empty_str row ''itemId'' = Some (no_item_id n)"
    and "read_side debug row bucket = SideOk (no_side n)"
    and "positive row ''platinum'' = Some (no_platinum n)"
    and "positive row ''quantity'' = Some (no_quantity n)"
    and "nullable row ''rank'' as_u64 = Some (no_rank n)"
    and "nullable row ''subtype'' (\<lambda>_. non_empty_str row ''subtype'') = Some (no_subtype n)"
    and "nullable row ''perTrade'' (\<lambda>v. opt_filter (lot_ok (no_quantity n)) (as_u64 v)) = Some (no_per_trade n)"
    unfolding row_readings by (auto simp: row_means_def well_formed_order_def)
  with means show "decode_row to_text debug accepts row bucket = Supported n"
    by (simp add: decode_row_def row_means_def)
qed

lemma decode_row_wf:
  "decode_row to_text debug accepts row bucket = Supported n \<Longrightarrow>
     well_formed_order n \<and> accepts (no_item_id n) (no_rank n) (no_subtype n)"
  by (simp add: decode_row_means row_means_def)

lemma first_refusal_None: "first_refusal orders = None \<longleftrightarrow> (\<forall>r\<in>set orders. refusal r = None)"
  by (cases "List.map_filter refusal orders")
    (auto simp: first_refusal_def simp flip: map_filter_eq_Nil)

abbreviation rows_mean ::
  "(string \<Rightarrow> u64 option \<Rightarrow> string option \<Rightarrow> bool) \<Rightarrow> (json \<times> order_side option) list
   \<Rightarrow> normalized_order list \<Rightarrow> bool" where
  "rows_mean accepts \<equiv> list_all2 (\<lambda>r n. row_means accepts (fst r) (snd r) n)"

lemma decode_rows_Supported:
  "map (\<lambda>(row, bucket). decode_row to_text debug accepts row bucket) rows = map Supported ns \<longleftrightarrow>
     rows_mean accepts rows ns"
  by (simp add: map_eq_map_iff case_prod_beta decode_row_means)

lemma all_supported: "(\<forall>r\<in>set orders. refusal r = None) \<longleftrightarrow> (\<exists>ns. orders = map Supported ns)"
proof
  assume "\<forall>r\<in>set orders. refusal r = None"
  then have "map Supported (map (\<lambda>r. the (supported r)) orders) = orders"
    by (auto simp: refusal_None_iff intro!: map_idI)
  then show "\<exists>ns. orders = map Supported ns" by metis
qed auto

lemma decode_orders_Ok:
  "decode_orders to_text debug accepts body = Ok orders \<longleftrightarrow>
     (\<exists>rows ns. response_rows body = Ok rows \<and> orders = map Supported ns \<and> rows_mean accepts rows ns)"
proof -
  have "decode_orders to_text debug accepts body = Ok orders \<longleftrightarrow>
     (\<exists>rows. response_rows body = Ok rows \<and> (\<forall>r\<in>set orders. refusal r = None) \<and>
        map (\<lambda>(row, bucket). decode_row to_text debug accepts row bucket) rows = orders)"
    unfolding first_refusal_None [symmetric]
    by (auto simp: decode_orders_def decode_order_rows_def rbind_Ok_iff split: option.splits)
  also have "\<dots> \<longleftrightarrow> (\<exists>rows ns. response_rows body = Ok rows \<and> orders = map Supported ns \<and>
        map (\<lambda>(row, bucket). decode_row to_text debug accepts row bucket) rows = map Supported ns)"
    unfolding all_supported by auto
  finally show ?thesis by (simp only: decode_rows_Supported)
qed

section \<open>Rendering and reading back\<close>

lemma order_json_fields:
  "jget (attach_item_meta (order_json n) m) ''id'' = Some (JStr (no_id n))"
  "jget (attach_item_meta (order_json n) m) ''itemId'' = Some (JStr (no_item_id n))"
  "jget (attach_item_meta (order_json n) m) ''type'' = Some (JStr (side_str (no_side n)))"
  "jget (attach_item_meta (order_json n) m) ''platinum'' = Some (JPosInt (no_platinum n))"
  "jget (attach_item_meta (order_json n) m) ''quantity'' = Some (JPosInt (no_quantity n))"
  "jget (attach_item_meta (order_json n) m) ''rank'' = Some (opt_json JPosInt (no_rank n))"
  "jget (attach_item_meta (order_json n) m) ''subtype'' = Some (opt_json JStr (no_subtype n))"
  "jget (attach_item_meta (order_json n) m) ''perTrade'' = Some (opt_json JPosInt (no_per_trade n))"
  "jget (attach_item_meta (order_json n) m) ''visible'' = Some (opt_json JBool (no_visible n))"
  by (simp_all add: attach_item_meta_other) (simp_all add: order_json_def)

lemma field_means_opt_json:
  "(\<And>a. \<not> is_null (f a)) \<Longrightarrow> field_means (Some (opt_json f x)) f x"
  by (cases x) (simp_all add: field_means_def opt_json_def null_or_absent_def)

lemma opt_json_bool: "as_bool (opt_json JBool b) = b"
  by (cases b) (simp_all add: opt_json_def)

lemma row_means_order_json:
  assumes "well_formed_order n" and "accepts (no_item_id n) (no_rank n) (no_subtype n)"
  shows "row_means accepts (attach_item_meta (order_json n) m) None n"
  using assms
  by (simp add: row_means_def order_json_fields field_means_opt_json opt_json_bool side_agrees_def)

lemma map_filter_supported [simp]: "List.map_filter supported (map Supported ns) = ns"
  by (induction ns) (simp_all add: map_filter_simps)

lemma decode_orders_body:
  assumes "\<And>n. n \<in> set ns \<Longrightarrow> well_formed_order n \<and> accepts (no_item_id n) (no_rank n) (no_subtype n)"
  shows "decode_orders to_text debug accepts (orders_body (map Supported ns) u) = Ok (map Supported ns)"
proof -
  let ?row = "\<lambda>n. (attach_item_meta (order_json n) (un_id_to_item u), None)"
  have "response_rows (orders_body (map Supported ns) u) = Ok (map ?row ns)"
    by (simp add: response_rows_def orders_body_def comp_def)
  moreover have "rows_mean accepts (map ?row ns) ns"
    using assms by (auto simp: list_all2_conv_all_nth intro: row_means_order_json)
  ultimately show ?thesis
    unfolding decode_orders_Ok by blast
qed

lemma rows_mean_wf:
  "rows_mean accepts rows ns \<Longrightarrow> n \<in> set ns \<Longrightarrow>
     well_formed_order n \<and> accepts (no_item_id n) (no_rank n) (no_subtype n)"
  by (auto simp: in_set_conv_nth list_all2_conv_all_nth row_means_def)

section \<open>Properties\<close>

text \<open>C10: Decoding an orders response succeeds exactly when it is a list of rows, or an object of a sell and a
  buy list, and every row of it (of both lists, the sell rows first) describes an order, on the side of its list; the
  result is those orders, one per row, in that order: a response is read whole or refused, and no row is dropped,
  invented or partly read.\<close>

theorem decode_orders_is_complete:
  "decode_orders to_text debug accepts body = Ok orders \<longleftrightarrow>
     (\<exists>rows ns. response_holds body rows \<and> orders = map Supported ns \<and>
        list_all2 (\<lambda>r n. row_means accepts (fst r) (snd r) n) rows ns)"
  by (simp only: decode_orders_Ok response_rows_iff)

text \<open>Round trip: the orders body the app renders from decoded orders (with the catalogue's item
  metadata attached) decodes to the same orders, whatever the catalogue attached.\<close>

lemma orders_body_roundtrip:
  assumes "decode_orders to_text debug accepts body = Ok orders"
  shows "decode_orders to_text' debug' accepts (orders_body orders u) = Ok orders"
proof -
  obtain rows ns where "orders = map Supported ns" and "rows_mean accepts rows ns"
    using assms unfolding decode_orders_Ok by blast
  then show ?thesis
    by (auto intro: decode_orders_body dest: rows_mean_wf)
qed

definition sample_row :: json where
  "sample_row = JObj [(''id'', JStr ''o1''), (''itemId'', JStr ''i1''), (''platinum'', JPosInt 30),
     (''quantity'', JPosInt 12), (''perTrade'', JPosInt 6), (''rank'', JNull)]"

definition sample_body :: json where
  "sample_body = JObj [(''data'', JObj [(''sell'', JArr [sample_row]), (''buy'', JArr [])])]"

definition sample_order :: normalized_order where
  "sample_order = \<lparr> no_id = ''o1'', no_item_id = ''i1'', no_side = Sell, no_platinum = 30,
     no_quantity = 12, no_per_trade = Some 6, no_visible = None, no_rank = None, no_subtype = None \<rparr>"

definition sample_account :: unlocked where
  "sample_account = \<lparr> un_jwt = ''j'', un_username = ''u'', un_platform = ''pc'', un_catalog = [],
     un_id_to_item = [(''i1'', \<lparr> im_name = ''Item One'', im_slug = ''item_one'' \<rparr>)] \<rparr>"

lemma decode_sample:
  "decode_orders (\<lambda>_. '''') (\<lambda>s. s) (\<lambda>_ _ _. True) sample_body = Ok [Supported sample_order]"
  by code_simp

lemma orders_body_roundtrip_witness:
  "decode_orders (\<lambda>_. '''') (\<lambda>s. s) (\<lambda>_ _ _. True)
     (orders_body [Supported sample_order] sample_account) = Ok [Supported sample_order]"
  by (rule orders_body_roundtrip [OF decode_sample])

text \<open>A refused row keeps bounded evidence: the row itself when its text is at most 512 bytes,
  and otherwise at most 512 bytes of that text, cut at the last character boundary not past 512, so
  the evidence is always valid text.\<close>

lemma evidence_is_bounded:
  "if length (to_text row) \<le> 512 then evidence to_text row = row
   else \<exists>cut. evidence to_text row = JStr (take cut (to_text row)) \<and> cut \<le> 512
        \<and> is_char_boundary (to_text row) cut
        \<and> (\<nexists>i. cut < i \<and> i \<le> 512 \<and> is_char_boundary (to_text row) i)"
proof (cases "length (to_text row) \<le> 512")
  case False
  let ?cut = "back_to_boundary (to_text row) 512"
  have "evidence to_text row = JStr (take ?cut (to_text row))"
    using False by (simp add: evidence_def Let_def MAX_EVIDENCE_def)
  moreover have "\<nexists>i. ?cut < i \<and> i \<le> 512 \<and> is_char_boundary (to_text row) i"
    using back_to_boundary_last leD by blast
  ultimately show ?thesis
    using False back_to_boundary_le back_to_boundary_boundary by auto
qed (simp add: evidence_def Let_def MAX_EVIDENCE_def)

end
