(* ===== verification/Governor.thy ===== *)
theory Governor
  imports Prelude
begin

text \<open>
  The request governor (\<open>wfm-client/src/governor.rs\<close>): one request budget per process. The mutex makes
  each critical section atomic, so each is one function on the state: \<open>enqueue\<close> is the first half of
  \<open>acquire\<close> and \<open>poll\<close> one turn of its loop; between turns other threads run. What the clock, the
  deadline clock and the cancellation tokens read is the record \<open>clock\<close>.

  \<open>gov_step\<close> is the system: any thread takes any step in any order, and the environment moves the
  clock, sets tokens, answers writes. \<open>sy_permits\<close>, \<open>sy_starts\<close> and \<open>sy_contracts\<close> are history the
  theorems speak about: the live permits, and the start times of admitted requests, newest first.
\<close>

section \<open>Constants and data\<close>

definition SPACING_MS :: u64 where "SPACING_MS = 500"
definition CONTRACT_SPACING_MS :: u64 where "CONTRACT_SPACING_MS = 6100"
definition MAX_QUEUE :: nat where "MAX_QUEUE = 128"
definition MAX_CONCURRENT :: nat where "MAX_CONCURRENT = 2"
definition WATCH_INTERVAL_MS :: u64 where "WATCH_INTERVAL_MS = 600000"

lemmas gov_consts = SPACING_MS_def CONTRACT_SPACING_MS_def MAX_QUEUE_def MAX_CONCURRENT_def
  WATCH_INTERVAL_MS_def

datatype kind = Read | Contract | Mutation | Authentication | WebSocket

record clock =
  ck_mono :: u64      \<comment> \<open>\<open>Clock::monotonic_ms\<close>\<close>
  ck_wall :: u64      \<comment> \<open>\<open>Clock::wall_ms\<close>\<close>
  ck_instant :: u64   \<comment> \<open>\<open>Instant::now()\<close>, for a context's deadline\<close>
  ck_cancelled :: "nat list" \<comment> \<open>the cancellation tokens that are set\<close>

record ctx =
  cx_background :: bool
  cx_cancelled :: "nat option"
  cx_expires :: "u64 option"

definition expired :: "clock \<Rightarrow> ctx \<Rightarrow> bool" where
  "expired clk c \<longleftrightarrow>
     is_some_and (cx_cancelled c) (\<lambda>token. token \<in> set (ck_cancelled clk))
     \<or> is_some_and (cx_expires c) (\<lambda>t. t \<le> ck_instant clk)"

record restrictions =
  rs_spacing_ms :: u64
  rs_concurrency :: nat
  rs_contract_spacing_ms :: u64
  rs_watch_interval_ms :: u64
  rs_pause_all :: bool
  rs_pause_background :: bool
  rs_pause_contracts :: bool
  rs_pause_mutations :: bool
  rs_pause_websockets :: bool

definition default_restrictions :: restrictions where
  "default_restrictions = \<lparr> rs_spacing_ms = SPACING_MS, rs_concurrency = MAX_CONCURRENT,
     rs_contract_spacing_ms = CONTRACT_SPACING_MS, rs_watch_interval_ms = WATCH_INTERVAL_MS,
     rs_pause_all = False, rs_pause_background = False, rs_pause_contracts = False,
     rs_pause_mutations = False, rs_pause_websockets = False \<rparr>"

datatype access_error =
    Busy
  | Cooldown u64
  | Paused string
  | Cancelled
  | UncertainMutation
  | InvalidPolicy
  | Persistence
  | Transport
  | InvalidRequest
  | Http u16

fun error_code :: "access_error \<Rightarrow> string" where
  "error_code Busy = ''busy''"
| "error_code (Cooldown _) = ''cooldown''"
| "error_code (Paused _) = ''paused''"
| "error_code Cancelled = ''cancelled''"
| "error_code UncertainMutation = ''uncertain_mutation''"
| "error_code _ = ''wfm''"

fun error_text :: "access_error \<Rightarrow> string" where
  "error_text Busy = ''Market request queue is busy. Try again shortly.''"
| "error_text (Cooldown _) = ''Market access is cooling down. Try again after the cooldown ends.''"
| "error_text (Paused reason) = ''Market access is paused. '' @ reason"
| "error_text Cancelled = ''Market request cancelled before dispatch.''"
| "error_text UncertainMutation =
     ''The order may have changed. Refresh and reconcile orders before resending.''"
| "error_text InvalidPolicy = ''Invalid market access policy.''"
| "error_text Persistence =
     ''Could not persist market access safeguards. Access remains paused.''"
| "error_text Transport = ''Market request failed.''"
| "error_text (Http status) = ''Market returned HTTP '' @ show_word status @ ''.''"
| "error_text InvalidRequest = ''Invalid market request.''"

definition restrictions_ok :: "restrictions \<Rightarrow> bool" where
  "restrictions_ok r \<longleftrightarrow>
     SPACING_MS \<le> rs_spacing_ms r \<and> rs_spacing_ms r \<le> 86400000
     \<and> 1 \<le> rs_concurrency r \<and> rs_concurrency r \<le> MAX_CONCURRENT
     \<and> CONTRACT_SPACING_MS \<le> rs_contract_spacing_ms r \<and> rs_contract_spacing_ms r \<le> 86400000
     \<and> WATCH_INTERVAL_MS \<le> rs_watch_interval_ms r \<and> rs_watch_interval_ms r \<le> 604800000"

definition validate_restrictions :: "restrictions \<Rightarrow> (access_error, unit) result" where
  "validate_restrictions r = (if restrictions_ok r then Ok () else Err InvalidPolicy)"

definition paused :: "restrictions \<Rightarrow> kind \<Rightarrow> bool \<Rightarrow> bool" where
  "paused r k background \<longleftrightarrow>
     rs_pause_all r
     \<or> (background \<and> rs_pause_background r)
     \<or> (k = Contract \<and> rs_pause_contracts r)
     \<or> (k = Mutation \<and> rs_pause_mutations r)
     \<or> (k = WebSocket \<and> rs_pause_websockets r)"

record access_status =
  as_revision :: u64
  as_reason :: string
  as_cooldown_until_ms :: u64
  as_queue_count :: nat
  as_outstanding :: nat
  as_restrictions :: restrictions
  as_requests :: u64
  as_throttles :: u64
  as_cache_hits :: u64
  as_cache_misses :: u64
  as_queue_rejections :: u64

record waiting =
  w_id :: u64
  w_kind :: kind
  w_ctx :: ctx

text \<open>The governor: the guarded \<open>State\<close>, and the generation counter of its \<open>Wake\<close>.\<close>

record governor =
  gv_status :: access_status
  gv_queue :: "waiting list"
  gv_next_id :: u64
  gv_streak :: "8 word"
  gv_last_start :: "u64 option"
  gv_last_contract :: "u64 option"
  gv_throttled :: u32
  gv_persistence :: "string option"
  gv_persistence_failed :: bool
  gv_wake :: u64

definition new_governor :: governor where
  "new_governor = \<lparr> gv_status = \<lparr> as_revision = 0, as_reason = '''', as_cooldown_until_ms = 0,
       as_queue_count = 0, as_outstanding = 0, as_restrictions = default_restrictions,
       as_requests = 0, as_throttles = 0, as_cache_hits = 0, as_cache_misses = 0,
       as_queue_rejections = 0 \<rparr>,
     gv_queue = [], gv_next_id = 0, gv_streak = 0, gv_last_start = None, gv_last_contract = None,
     gv_throttled = 0, gv_persistence = None, gv_persistence_failed = False, gv_wake = 0 \<rparr>"

section \<open>Operations\<close>

definition notify :: "governor \<Rightarrow> governor" where
  "notify g = g\<lparr> gv_wake := gv_wake g + 1 \<rparr>"

definition map_status :: "(access_status \<Rightarrow> access_status) \<Rightarrow> governor \<Rightarrow> governor" where
  "map_status f g = g\<lparr> gv_status := f (gv_status g) \<rparr>"

abbreviation restrictions_of :: "governor \<Rightarrow> restrictions" where
  "restrictions_of g \<equiv> as_restrictions (gv_status g)"

abbreviation outstanding :: "governor \<Rightarrow> nat" where
  "outstanding g \<equiv> as_outstanding (gv_status g)"

definition status :: "governor \<Rightarrow> access_status" where
  "status g =
     (let out = (gv_status g)\<lparr> as_queue_count := length (gv_queue g) \<rparr>
      in if gv_persistence_failed g
         then out\<lparr> as_restrictions := (as_restrictions out)\<lparr> rs_pause_all := True \<rparr>,
                   as_reason := error_text Persistence \<rparr>
         else out)"

definition wait_timeout :: "clock \<Rightarrow> ctx \<Rightarrow> u64 \<Rightarrow> u64" where
  "wait_timeout clk c timeout =
     (let t = (case cx_expires c of None \<Rightarrow> timeout | Some e \<Rightarrow> min timeout (sat_sub e (ck_instant clk)))
      in if cx_cancelled c \<noteq> None then min t 100 else t)"

text \<open>The cooldown file: absent, unreadable, not a number, or a deadline.\<close>

datatype cooldown_file = CdMissing | CdUnreadable | CdGarbage | CdDeadline u64

definition configure_persistence ::
  "string \<Rightarrow> cooldown_file \<Rightarrow> governor \<Rightarrow> governor \<times> (access_error, unit) result" where
  "configure_persistence path file g =
     (let g = notify g in
      case file of
        CdDeadline deadline \<Rightarrow>
          ((map_status (\<lambda>s. s\<lparr> as_cooldown_until_ms := max (as_cooldown_until_ms s) deadline \<rparr>) g)
             \<lparr> gv_persistence := Some path \<rparr>, Ok ())
      | CdMissing \<Rightarrow> (g\<lparr> gv_persistence := Some path \<rparr>, Ok ())
      | _ \<Rightarrow> (g\<lparr> gv_persistence_failed := True \<rparr>, Err Persistence))"

definition apply_policy ::
  "u64 \<Rightarrow> string \<Rightarrow> restrictions \<Rightarrow> governor \<Rightarrow> governor \<times> (access_error, unit) result" where
  "apply_policy revision reason r g =
     (case validate_restrictions r of
        Err e \<Rightarrow> (g, Err e)
      | Ok _ \<Rightarrow>
          if revision < as_revision (gv_status g)
             \<or> (revision = as_revision (gv_status g)
                \<and> (r \<noteq> restrictions_of g \<or> reason \<noteq> as_reason (gv_status g)))
          then (g, Err InvalidPolicy)
          else (notify (map_status (\<lambda>s. s\<lparr> as_revision := revision, as_reason := reason,
                  as_restrictions := r \<rparr>) g), Ok ()))"

definition check_state :: "clock \<Rightarrow> governor \<Rightarrow> kind \<Rightarrow> ctx \<Rightarrow> (access_error, unit) result" where
  "check_state clk g k c =
     (if expired clk c then Err Cancelled
      else if gv_persistence_failed g then Err Persistence
      else if paused (restrictions_of g) k (cx_background c) then Err (Paused (as_reason (gv_status g)))
      else if ck_wall clk < as_cooldown_until_ms (gv_status g)
      then Err (Cooldown (as_cooldown_until_ms (gv_status g)))
      else Ok ())"

text \<open>\<open>acquire\<close> up to its loop: refuse, or take a place in the queue.\<close>

definition enqueue :: "clock \<Rightarrow> kind \<Rightarrow> ctx \<Rightarrow> governor \<Rightarrow> governor \<times> (access_error, u64) result" where
  "enqueue clk k c g =
     (case check_state clk g k c of
        Err e \<Rightarrow> (g, Err e)
      | Ok _ \<Rightarrow>
          if MAX_QUEUE \<le> length (gv_queue g)
          then (notify (map_status (\<lambda>s. s\<lparr> as_queue_rejections := sat_add (as_queue_rejections s) 1 \<rparr>) g),
                Err Busy)
          else (notify (g\<lparr> gv_next_id := gv_next_id g + 1,
                  gv_queue := gv_queue g @ [\<lparr> w_id = gv_next_id g, w_kind = k, w_ctx = c \<rparr>] \<rparr>),
                Ok (gv_next_id g)))"

definition spaced :: "u64 \<Rightarrow> u64 \<Rightarrow> u64 option \<Rightarrow> bool" where
  "spaced now spacing prev \<longleftrightarrow> is_none_or prev (\<lambda>t. spacing \<le> sat_sub now t)"

definition ready :: "clock \<Rightarrow> governor \<Rightarrow> waiting \<Rightarrow> bool" where
  "ready clk g q \<longleftrightarrow>
     \<not> expired clk (w_ctx q)
     \<and> is_ok (check_state clk g (w_kind q) (w_ctx q))
     \<and> (w_kind q \<noteq> Contract
        \<or> spaced (ck_mono clk) (rs_contract_spacing_ms (restrictions_of g)) (gv_last_contract g))"

definition opt_or :: "'a option \<Rightarrow> 'a option \<Rightarrow> 'a option" where
  "opt_or a b = (case a of None \<Rightarrow> b | Some _ \<Rightarrow> a)"

definition selected :: "clock \<Rightarrow> governor \<Rightarrow> u64 option" where
  "selected clk g =
     (let background = find (\<lambda>q. cx_background (w_ctx q)) (filter (ready clk g) (gv_queue g));
          foreground = find (\<lambda>q. \<not> cx_background (w_ctx q)) (filter (ready clk g) (gv_queue g))
      in map_option w_id
           (if 4 \<le> gv_streak g then opt_or background foreground else opt_or foreground background))"

definition leave_queue :: "u64 \<Rightarrow> governor \<Rightarrow> governor" where
  "leave_queue ident g = g\<lparr> gv_queue := filter (\<lambda>q. w_id q \<noteq> ident) (gv_queue g) \<rparr>"

definition may_start :: "clock \<Rightarrow> governor \<Rightarrow> bool" where
  "may_start clk g \<longleftrightarrow>
     outstanding g < rs_concurrency (restrictions_of g)
     \<and> spaced (ck_mono clk) (rs_spacing_ms (restrictions_of g)) (gv_last_start g)"

definition admit :: "clock \<Rightarrow> u64 \<Rightarrow> kind \<Rightarrow> ctx \<Rightarrow> governor \<Rightarrow> governor" where
  "admit clk ident k c g =
     (let now = ck_mono clk;
          g = leave_queue ident g;
          g = g\<lparr> gv_last_start := Some now,
                 gv_last_contract := (if k = Contract then Some now else gv_last_contract g),
                 gv_streak := (if cx_background c then 0 else sat_add (gv_streak g) 1) \<rparr>
      in notify (map_status (\<lambda>s. s\<lparr> as_outstanding := as_outstanding s + 1,
                   as_requests := sat_add (as_requests s) 1 \<rparr>) g))"

definition remaining_ms :: "u64 \<Rightarrow> u64 \<Rightarrow> u64 option \<Rightarrow> u64 \<Rightarrow> u64" where
  "remaining_ms now spacing prev wait =
     (case prev of
        None \<Rightarrow> wait
      | Some t \<Rightarrow> (let left = sat_sub (sat_add t spacing) now
                   in if 0 < left then min wait left else wait))"

definition poll_wait :: "clock \<Rightarrow> kind \<Rightarrow> governor \<Rightarrow> u64" where
  "poll_wait clk k g =
     (let now = ck_mono clk; r = restrictions_of g; wait = 86400000;
          wait = (if outstanding g < rs_concurrency r
                  then remaining_ms now (rs_spacing_ms r) (gv_last_start g) wait else wait)
      in if k = Contract
         then remaining_ms now (rs_contract_spacing_ms r) (gv_last_contract g) wait else wait)"

datatype poll_result = Refused access_error | Admitted | Wait u64

text \<open>One turn of \<open>acquire\<close>'s loop by the thread that waits under \<open>ident\<close>.\<close>

definition poll :: "clock \<Rightarrow> u64 \<Rightarrow> kind \<Rightarrow> ctx \<Rightarrow> governor \<Rightarrow> governor \<times> poll_result" where
  "poll clk ident k c g =
     (case check_state clk g k c of
        Err e \<Rightarrow> (notify (leave_queue ident g), Refused e)
      | Ok _ \<Rightarrow>
          if selected clk g = Some ident \<and> may_start clk g
          then (admit clk ident k c g, Admitted)
          else (g, Wait (poll_wait clk k g)))"

text \<open>Dropping a \<open>Permit\<close>.\<close>

definition release :: "governor \<Rightarrow> governor" where
  "release g = notify (map_status (\<lambda>s. s\<lparr> as_outstanding := as_outstanding s - 1 \<rparr>) g)"

subsection \<open>Throttling\<close>

definition is_ascii_ws :: "char \<Rightarrow> bool" where
  "is_ascii_ws c \<longleftrightarrow> (9 \<le> (of_char c :: nat) \<and> (of_char c :: nat) \<le> 13) \<or> of_char c = (32 :: nat)"

definition trim_ascii :: "string \<Rightarrow> string" where
  "trim_ascii s = rev (dropWhile is_ascii_ws (rev (dropWhile is_ascii_ws s)))"

definition is_digit :: "char \<Rightarrow> bool" where
  "is_digit c \<longleftrightarrow> 48 \<le> (of_char c :: nat) \<and> (of_char c :: nat) \<le> 57"

definition digits_value :: "string \<Rightarrow> nat" where
  "digits_value s = foldl (\<lambda>n c. 10 * n + (of_char c - 48)) 0 s"

definition u64_of_digits :: "string \<Rightarrow> u64 option" where
  "u64_of_digits s = (if digits_value s < 2 ^ 64 then Some (of_nat (digits_value s)) else None)"

text \<open>
  \<open>http_date\<close> stands for \<open>httpdate::parse_http_date\<close>: milliseconds since the epoch, signed. The header is one that
  \<open>HeaderValue::to_str\<close> let through (\<open>transport.rs\<close> reads it so): visible ASCII, blanks and tabs, of which \<open>str::trim\<close> and
  \<open>trim_ascii\<close> remove the same.
\<close>

definition retry_deadline :: "(string \<Rightarrow> int option) \<Rightarrow> string option \<Rightarrow> u64 \<Rightarrow> u64 option" where
  "retry_deadline http_date header now =
     (case header of None \<Rightarrow> None | Some h \<Rightarrow>
       (let v = trim_ascii h in
        if v \<noteq> '''' \<and> list_all is_digit v
        then Some (sat_add now (sat_mul (unwrap_or (u64_of_digits v) (- 1)) 1000))
        else map_option (\<lambda>ms. max (if ms < 0 then 0 else if ms < 2 ^ 64 then of_int ms else - 1) now)
               (http_date v)))"

definition throttle_fallback :: "u32 \<Rightarrow> u64" where
  "throttle_fallback n = min (sat_mul 30000 (push_bit (unat (min n 30)) 1)) 900000"

text \<open>
  \<open>jitter\<close> is what \<open>jitter(1000)\<close> drew, \<open>written\<close> whether the write of the cooldown file succeeded;
  the last component is the file the call leaves, if it wrote one.
\<close>

definition throttled ::
  "(string \<Rightarrow> int option) \<Rightarrow> clock \<Rightarrow> u64 \<Rightarrow> bool \<Rightarrow> string option \<Rightarrow> governor
   \<Rightarrow> governor \<times> (access_error, unit) result \<times> cooldown_file option" where
  "throttled http_date clk jitter written retry_after g =
     (let fallback = throttle_fallback (gv_throttled g);
          now = ck_wall clk;
          deadline = unwrap_or (retry_deadline http_date retry_after now) (sat_add now fallback);
          until = max (as_cooldown_until_ms (gv_status g)) (sat_add deadline jitter);
          g = notify (map_status (\<lambda>s. s\<lparr> as_cooldown_until_ms := until,
                        as_throttles := sat_add (as_throttles s) 1 \<rparr>)
                (g\<lparr> gv_throttled := sat_add (gv_throttled g) 1 \<rparr>))
      in case gv_persistence g of
           None \<Rightarrow> (g, Ok (), None)
         | Some _ \<Rightarrow> if written then (g, Ok (), Some (CdDeadline until))
                     else (g\<lparr> gv_persistence_failed := True \<rparr>, Err Persistence, None))"

definition persistence_failed :: "governor \<Rightarrow> governor" where
  "persistence_failed g = notify (g\<lparr> gv_persistence_failed := True \<rparr>)"

definition cache_observed :: "bool \<Rightarrow> governor \<Rightarrow> governor" where
  "cache_observed hit g = notify (map_status (\<lambda>s.
     if hit then s\<lparr> as_cache_hits := sat_add (as_cache_hits s) 1 \<rparr>
     else s\<lparr> as_cache_misses := sat_add (as_cache_misses s) 1 \<rparr>) g)"

definition successful :: "clock \<Rightarrow> governor \<Rightarrow> governor" where
  "successful clk g =
     (if as_cooldown_until_ms (gv_status g) \<le> ck_wall clk then g\<lparr> gv_throttled := 0 \<rparr> else g)"

end
