(* ===== verification/Governor_System.thy ===== *)
theory Governor_System
  imports Governor Transition
begin

text \<open>
  The governor under every interleaving: the step relation, the invariant that bounds concurrency,
  the queue and the request rate, the fairness between foreground and background requests, and the
  soundness of the wake-up protocol.
\<close>

section \<open>What each operation leaves alone\<close>

named_theorems gov_ops \<open>unfolding the governor's operations\<close>

lemmas gov_unfold [gov_ops] = notify_def map_status_def leave_queue_def admit_def release_def
  persistence_failed_def cache_observed_def successful_def Let_def

lemma check_state_Ok_iff:
  "check_state clk g k c = Ok u \<longleftrightarrow>
     \<not> expired clk c \<and> \<not> gv_persistence_failed g \<and> \<not> paused (restrictions_of g) k (cx_background c)
     \<and> as_cooldown_until_ms (gv_status g) \<le> ck_wall clk"
  by (auto simp: check_state_def)

lemma is_ok_check_state: "is_ok (check_state clk g k c) \<longleftrightarrow> check_state clk g k c = Ok ()"
  by (cases "check_state clk g k c") auto

lemma opt_or_eq_Some: "opt_or a b = Some x \<longleftrightarrow> a = Some x \<or> (a = None \<and> b = Some x)"
  by (auto simp: opt_or_def split: option.splits)

lemma selected_ready:
  assumes "selected clk g = Some ident"
  obtains q where "q \<in> set (gv_queue g)" and "w_id q = ident" and "ready clk g q"
proof -
  from assms obtain P q where "find P (filter (ready clk g) (gv_queue g)) = Some q" and "w_id q = ident"
    by (auto simp: selected_def Let_def opt_or_eq_Some split: if_splits)
  then have "q \<in> set (filter (ready clk g) (gv_queue g))"
    by (auto dest: find_SomeD)
  with \<open>w_id q = ident\<close> show ?thesis by (auto intro: that)
qed

lemma find_None_filter: "find P (filter Q xs) = None \<longleftrightarrow> (\<forall>x\<in>set xs. Q x \<longrightarrow> \<not> P x)"
  by (auto simp: find_None_iff)

lemma selected_None: "selected clk g = None \<longleftrightarrow> (\<forall>q\<in>set (gv_queue g). \<not> ready clk g q)"
  by (auto simp: selected_def Let_def opt_or_def find_None_filter split: option.splits dest!: find_SomeD)

section \<open>The system\<close>

record sys =
  sy_gov :: governor
  sy_clock :: clock
  sy_permits :: nat
  sy_issued :: nat
  sy_starts :: "u64 list"
  sy_contracts :: "u64 list"
  sy_background :: "bool list"

definition clock_le :: "clock \<Rightarrow> clock \<Rightarrow> bool" where
  "clock_le a b \<longleftrightarrow> ck_mono a \<le> ck_mono b"

definition gov_init :: "sys \<Rightarrow> bool" where
  "gov_init s \<longleftrightarrow> sy_gov s = new_governor \<and> sy_permits s = 0 \<and> sy_issued s = 0 \<and> sy_starts s = [] \<and> sy_contracts s = []
     \<and> sy_background s = []"

text \<open>
  A waiting thread polls with the kind and context it queued. The queue's identities come from a
  counter that wraps at \<open>2 ^ 64\<close>; the system is considered for its first \<open>2 ^ 64 - 1\<close> queued requests,
  far more than a process makes at two a second.
\<close>

inductive gov_step :: "sys \<Rightarrow> sys \<Rightarrow> bool" where
  step_tick: "clock_le (sy_clock s) clk \<Longrightarrow> gov_step s (s\<lparr> sy_clock := clk \<rparr>)"
| step_busy: "enqueue (sy_clock s) k c (sy_gov s) = (g, Err e) \<Longrightarrow> gov_step s (s\<lparr> sy_gov := g \<rparr>)"
| step_queue: "enqueue (sy_clock s) k c (sy_gov s) = (g, Ok ident) \<Longrightarrow> sy_issued s + 1 < 2 ^ 64 \<Longrightarrow>
     gov_step s (s\<lparr> sy_gov := g, sy_issued := sy_issued s + 1 \<rparr>)"
| step_admit: "q \<in> set (gv_queue (sy_gov s)) \<Longrightarrow>
     poll (sy_clock s) (w_id q) (w_kind q) (w_ctx q) (sy_gov s) = (g, Admitted) \<Longrightarrow>
     gov_step s (s\<lparr> sy_gov := g, sy_permits := sy_permits s + 1,
       sy_starts := ck_mono (sy_clock s) # sy_starts s,
       sy_contracts := (if w_kind q = Contract then ck_mono (sy_clock s) # sy_contracts s
                        else sy_contracts s),
       sy_background := cx_background (w_ctx q) # sy_background s \<rparr>)"
| step_refuse: "q \<in> set (gv_queue (sy_gov s)) \<Longrightarrow>
     poll (sy_clock s) (w_id q) (w_kind q) (w_ctx q) (sy_gov s) = (g, Refused e) \<Longrightarrow>
     gov_step s (s\<lparr> sy_gov := g \<rparr>)"
| step_release: "0 < sy_permits s \<Longrightarrow>
     gov_step s (s\<lparr> sy_gov := release (sy_gov s), sy_permits := sy_permits s - 1 \<rparr>)"
| step_policy: "apply_policy revision reason r (sy_gov s) = (g, res) \<Longrightarrow> gov_step s (s\<lparr> sy_gov := g \<rparr>)"
| step_throttle: "throttled http_date (sy_clock s) j written h (sy_gov s) = (g, res, file) \<Longrightarrow>
     gov_step s (s\<lparr> sy_gov := g \<rparr>)"
| step_configure: "configure_persistence path file (sy_gov s) = (g, res) \<Longrightarrow> gov_step s (s\<lparr> sy_gov := g \<rparr>)"
| step_persistence: "gov_step s (s\<lparr> sy_gov := persistence_failed (sy_gov s) \<rparr>)"
| step_cache: "gov_step s (s\<lparr> sy_gov := cache_observed hit (sy_gov s) \<rparr>)"
| step_success: "gov_step s (s\<lparr> sy_gov := successful (sy_clock s) (sy_gov s) \<rparr>)"
| step_cancel: "gov_step s (s\<lparr> sy_gov := notify (sy_gov s) \<rparr>)"

text \<open>Consecutive times (newest first) are at least \<open>gap\<close> apart.\<close>

definition apart :: "u64 \<Rightarrow> u64 list \<Rightarrow> bool" where
  "apart gap ts \<longleftrightarrow> (\<forall>i. Suc i < length ts \<longrightarrow> unat (ts ! Suc i) + unat gap \<le> unat (ts ! i))"

definition last_matches :: "u64 option \<Rightarrow> u64 list \<Rightarrow> bool" where
  "last_matches prev ts \<longleftrightarrow> prev = first_of ts"

definition ids_below :: "nat \<Rightarrow> governor \<Rightarrow> bool" where
  "ids_below n g \<longleftrightarrow> unat (gv_next_id g) = n \<and> distinct (map w_id (gv_queue g))
     \<and> (\<forall>q\<in>set (gv_queue g). unat (w_id q) < n)"

text \<open>How many foreground requests were admitted since the last background one.\<close>

definition foreground_run :: "sys \<Rightarrow> nat" where
  "foreground_run s = length (takeWhile Not (sy_background s))"

definition gov_inv :: "sys \<Rightarrow> bool" where
  "gov_inv s \<longleftrightarrow>
     restrictions_ok (restrictions_of (sy_gov s))
     \<and> outstanding (sy_gov s) = sy_permits s \<and> sy_permits s \<le> MAX_CONCURRENT
     \<and> length (gv_queue (sy_gov s)) \<le> MAX_QUEUE \<and> ids_below (sy_issued s) (sy_gov s)
     \<and> last_matches (gv_last_start (sy_gov s)) (sy_starts s)
     \<and> last_matches (gv_last_contract (sy_gov s)) (sy_contracts s)
     \<and> apart SPACING_MS (sy_starts s) \<and> apart CONTRACT_SPACING_MS (sy_contracts s)
     \<and> unat (gv_streak (sy_gov s)) = min (foreground_run s) 255"

lemma gov_inv_init: "gov_init s \<Longrightarrow> gov_inv s"
  by (simp add: gov_init_def gov_inv_def new_governor_def default_restrictions_def restrictions_ok_def
      ids_below_def gov_consts last_matches_def apart_def foreground_run_def)

lemma apart_Cons:
  assumes "apart gap ts" and "spaced now spacing (first_of ts)" and "gap \<le> spacing" and "0 < gap"
  shows "apart gap (now # ts)"
proof (cases ts)
  case (Cons t ts')
  have "unat t + unat gap \<le> unat now"
    using assms(2-4) Cons by (auto simp: spaced_def arith_unat)
  with assms(1) show ?thesis
    by (auto simp: apart_def Cons nth_Cons split: nat.splits)
qed (simp add: apart_def)

text \<open>Every operation but an admission keeps what the invariant is about.\<close>

definition same_budget :: "governor \<Rightarrow> governor \<Rightarrow> bool" where
  "same_budget g g' \<longleftrightarrow>
     (restrictions_ok (restrictions_of g) \<longrightarrow> restrictions_ok (restrictions_of g'))
     \<and> outstanding g' = outstanding g \<and> gv_last_start g' = gv_last_start g
     \<and> gv_last_contract g' = gv_last_contract g \<and> gv_streak g' = gv_streak g
     \<and> length (gv_queue g') \<le> length (gv_queue g) \<and> (\<forall>n. ids_below n g \<longrightarrow> ids_below n g')"

lemma gov_inv_same_budget: "gov_inv s \<Longrightarrow> same_budget (sy_gov s) g \<Longrightarrow> gov_inv (s\<lparr> sy_gov := g \<rparr>)"
  by (simp add: gov_inv_def same_budget_def foreground_run_def)

lemma ids_below_leave: "ids_below n g \<Longrightarrow> ids_below n (leave_queue i g)"
  by (auto simp: ids_below_def leave_queue_def distinct_map_filter)

lemma same_budget_enqueue: "enqueue clk k c g = (g', Err e) \<Longrightarrow> same_budget g g'"
  by (auto simp: enqueue_def same_budget_def ids_below_def gov_ops split: sum.splits if_splits)

lemma same_budget_refused: "poll clk i k c g = (g', Refused e) \<Longrightarrow> same_budget g g'"
  by (auto simp: poll_def same_budget_def ids_below_def gov_ops distinct_map_filter
      split: sum.splits if_splits)

lemma same_budget_policy: "apply_policy v reason r g = (g', res) \<Longrightarrow> same_budget g g'"
  by (auto simp: apply_policy_def same_budget_def validate_restrictions_def ids_below_def gov_ops
      split: sum.splits if_splits)

lemma same_budget_throttled: "throttled d clk j w h g = (g', res, file) \<Longrightarrow> same_budget g g'"
  by (auto simp: throttled_def same_budget_def ids_below_def gov_ops split: option.splits if_splits)

lemma same_budget_configure: "configure_persistence path file g = (g', res) \<Longrightarrow> same_budget g g'"
  by (auto simp: configure_persistence_def same_budget_def ids_below_def gov_ops split: cooldown_file.splits)

lemma same_budget_simple:
  "same_budget g (persistence_failed g)" "same_budget g (cache_observed hit g)"
  "same_budget g (successful clk g)" "same_budget g (notify g)"
  by (auto simp: same_budget_def ids_below_def gov_ops)

lemmas same_budget_ops = same_budget_enqueue same_budget_refused same_budget_policy
  same_budget_throttled same_budget_configure same_budget_simple

lemma poll_Admitted:
  "poll clk i k c g = (g', Admitted) \<longleftrightarrow>
     check_state clk g k c = Ok () \<and> selected clk g = Some i \<and> may_start clk g \<and> g' = admit clk i k c g"
  by (auto simp: poll_def split: sum.splits if_splits)

lemma ids_belowD:
  "ids_below n g \<Longrightarrow> a \<in> set (gv_queue g) \<Longrightarrow> b \<in> set (gv_queue g) \<Longrightarrow> w_id a = w_id b \<Longrightarrow> a = b"
  unfolding ids_below_def by (auto simp: distinct_map dest: inj_onD)

lemma gov_inv_queue:
  assumes "gov_inv s" and "enqueue clk k c (sy_gov s) = (g, Ok ident)" and "sy_issued s + 1 < 2 ^ 64"
  shows "gov_inv (s\<lparr> sy_gov := g, sy_issued := sy_issued s + 1 \<rparr>)"
proof -
  have g: "g = notify (sy_gov s\<lparr> gv_next_id := gv_next_id (sy_gov s) + 1,
      gv_queue := gv_queue (sy_gov s) @ [\<lparr> w_id = gv_next_id (sy_gov s), w_kind = k, w_ctx = c \<rparr>] \<rparr>)"
    and len: "length (gv_queue (sy_gov s)) < MAX_QUEUE"
    using assms(2) by (auto simp: enqueue_def split: sum.splits if_splits)
  have ids: "ids_below (sy_issued s) (sy_gov s)"
    using assms(1) by (simp add: gov_inv_def)
  have "unat (gv_next_id (sy_gov s) + 1) = sy_issued s + 1"
    using ids assms(3) by (simp add: ids_below_def unat_word_ariths)
  then have "ids_below (sy_issued s + 1) g"
    using ids unfolding g by (auto simp: ids_below_def notify_def)
  with assms(1) len show ?thesis
    by (simp add: gov_inv_def g notify_def foreground_run_def)
qed

lemma gov_inv_admit:
  assumes inv: "gov_inv s" and q: "q \<in> set (gv_queue (sy_gov s))"
    and poll: "poll (sy_clock s) (w_id q) (w_kind q) (w_ctx q) (sy_gov s) = (g, Admitted)"
  shows "gov_inv (s\<lparr> sy_gov := g, sy_permits := sy_permits s + 1,
     sy_starts := ck_mono (sy_clock s) # sy_starts s,
     sy_contracts := (if w_kind q = Contract then ck_mono (sy_clock s) # sy_contracts s
                      else sy_contracts s),
     sy_background := cx_background (w_ctx q) # sy_background s \<rparr>)"
proof -
  let ?g = "sy_gov s" and ?clk = "sy_clock s" and ?r = "restrictions_of (sy_gov s)"
  from poll have sel: "selected ?clk ?g = Some (w_id q)" and may: "may_start ?clk ?g"
    and g: "g = admit ?clk (w_id q) (w_kind q) (w_ctx q) ?g"
    by (auto simp: poll_Admitted)
  have ok: "restrictions_ok ?r" and ids: "ids_below (sy_issued s) ?g"
    using inv by (auto simp: gov_inv_def)
  have "ready ?clk ?g q"
    using selected_ready [OF sel] ids_belowD [OF ids _ q] by metis
  then have contract: "w_kind q = Contract \<Longrightarrow>
      spaced (ck_mono ?clk) (rs_contract_spacing_ms ?r) (gv_last_contract ?g)"
    by (auto simp: ready_def)
  have "apart SPACING_MS (ck_mono ?clk # sy_starts s)"
    using inv may ok
    by (intro apart_Cons) (auto simp: gov_inv_def may_start_def last_matches_def restrictions_ok_def gov_consts)
  moreover have "w_kind q = Contract \<Longrightarrow> apart CONTRACT_SPACING_MS (ck_mono ?clk # sy_contracts s)"
    using inv contract ok
    by (intro apart_Cons) (auto simp: gov_inv_def last_matches_def restrictions_ok_def gov_consts)
  moreover have "ids_below (sy_issued s) g"
    using ids_below_leave [OF ids, of "w_id q"] unfolding g by (simp add: gov_ops ids_below_def)
  moreover have "sy_permits s + 1 \<le> MAX_CONCURRENT"
    using inv may ok by (simp add: gov_inv_def may_start_def restrictions_ok_def)
  ultimately show ?thesis
    using inv unfolding g by (auto simp: gov_inv_def last_matches_def ids_below_def foreground_run_def
        unat_sat_add gov_ops
        intro: order_trans [OF length_filter_le])
qed

lemma gov_inv_step: "gov_step s t \<Longrightarrow> gov_inv s \<Longrightarrow> gov_inv t"
proof (induction rule: gov_step.induct)
  case (step_tick s clk)
  then show ?case by (simp add: gov_inv_def foreground_run_def)
next
  case (step_release s)
  then show ?case by (auto simp: gov_inv_def ids_below_def foreground_run_def gov_ops)
next
  case (step_queue s k c g ident)
  then show ?case by (intro gov_inv_queue)
next
  case (step_admit q s g)
  then show ?case by (intro gov_inv_admit)
qed (auto intro: gov_inv_same_budget same_budget_ops)

interpretation gov: inductive_invariant gov_init gov_step gov_inv
  by unfold_locales (auto intro: gov_inv_init gov_inv_step)

section \<open>Selection and progress\<close>

lemma ready_check: "ready clk g q \<Longrightarrow> check_state clk g (w_kind q) (w_ctx q) = Ok ()"
  by (simp add: ready_def is_ok_check_state)

lemma selected_admits:
  assumes "ids_below n g" and "selected clk g = Some i" and "may_start clk g"
  obtains q where "q \<in> set (gv_queue g)" and "w_id q = i" and "ready clk g q"
    and "snd (poll clk i (w_kind q) (w_ctx q) g) = Admitted"
proof -
  from selected_ready [OF assms(2)] obtain q where q: "q \<in> set (gv_queue g)" "w_id q = i" "ready clk g q"
    by metis
  with assms ready_check [OF q(3)] have "snd (poll clk i (w_kind q) (w_ctx q) g) = Admitted"
    by (simp add: poll_def)
  with q show ?thesis by (rule that)
qed

lemma selected_background:
  assumes "selected clk g = Some i" and "4 \<le> gv_streak g"
    and "b \<in> set (gv_queue g)" and "ready clk g b" and "cx_background (w_ctx b)"
  obtains q where "q \<in> set (gv_queue g)" and "w_id q = i" and "cx_background (w_ctx q)"
proof -
  let ?bg = "find (\<lambda>q. cx_background (w_ctx q)) (filter (ready clk g) (gv_queue g))"
  have "?bg \<noteq> None"
    using assms(3-5) by (auto simp: find_None_filter)
  then obtain q where bg: "?bg = Some q" by auto
  have "w_id q = i"
    using assms(1,2) bg by (simp add: selected_def opt_or_def)
  with find_SomeD [OF bg] show ?thesis by (auto intro: that)
qed

section \<open>Wake-ups\<close>

text \<open>What \<open>poll\<close> answers depends on the governor only through these parts.\<close>

definition poll_view :: "governor \<Rightarrow>
    access_status \<times> waiting list \<times> 8 word \<times> u64 option \<times> u64 option \<times> bool" where
  "poll_view g = (gv_status g, gv_queue g, gv_streak g, gv_last_start g, gv_last_contract g,
     gv_persistence_failed g)"

lemma check_state_view: "poll_view g = poll_view g' \<Longrightarrow> check_state clk g k c = check_state clk g' k c"
  by (simp add: poll_view_def check_state_def)

lemma poll_view_snd:
  assumes "poll_view g = poll_view g'"
  shows "snd (poll clk i k c g) = snd (poll clk i k c g')"
proof -
  have "ready clk g = ready clk g'"
    using check_state_view [OF assms] assms by (intro ext) (simp add: ready_def poll_view_def)
  with assms show ?thesis
    by (simp add: poll_def check_state_view [OF assms] selected_def may_start_def poll_wait_def
        poll_view_def Let_def split: sum.split)
qed

lemma notify_changes [simp]: "gv_wake g \<noteq> gv_wake g + 1" "gv_wake g + 1 \<noteq> gv_wake g"
  by simp_all

lemma gov_step_wake:
  assumes "gov_step s t" and "gv_wake (sy_gov t) = gv_wake (sy_gov s)"
  shows "poll_view (sy_gov t) = poll_view (sy_gov s)"
  using assms
  by (cases rule: gov_step.cases)
    (auto simp: poll_view_def enqueue_def poll_def apply_policy_def throttled_def
      configure_persistence_def gov_ops
      split: sum.splits if_splits option.splits cooldown_file.splits)

section \<open>Cooldown and policy\<close>

lemma throttle_fallback_nat: "unat (throttle_fallback n) = min (30000 * 2 ^ min (unat n) 30) 900000"
proof -
  let ?e = "min (unat n) 30"
  have e: "unat (min n 30) = ?e"
    by (simp add: min_def arith_unat)
  have lt: "(2::nat) ^ ?e < 2 ^ 64"
    by (rule power_strict_increasing) auto
  define p :: u64 where "p = push_bit ?e 1"
  have "p = of_nat (2 ^ ?e)"
    by (simp add: p_def push_bit_eq_mult)
  then have p: "unat p = 2 ^ ?e"
    using lt by (simp only: unsigned_of_nat) (simp add: take_bit_nat_eq_self)
  have "unat (min (sat_mul 30000 p) 900000) = min (30000 * unat p) 900000"
    by (simp add: unat_sat_mul min_def arith_unat)
  then show ?thesis
    by (simp only: throttle_fallback_def e p_def [symmetric] p)
qed

lemma gov_step_monotone:
  assumes "gov_step s t"
  shows "as_cooldown_until_ms (gv_status (sy_gov s)) \<le> as_cooldown_until_ms (gv_status (sy_gov t))
    \<and> as_revision (gv_status (sy_gov s)) \<le> as_revision (gv_status (sy_gov t))"
  using assms
  by (cases rule: gov_step.cases)
    (auto simp: enqueue_def poll_def apply_policy_def throttled_def configure_persistence_def gov_ops
      split: sum.splits if_splits option.splits cooldown_file.splits)

section \<open>Properties\<close>

text \<open>
  A concrete run for the witnesses: one background and one foreground request queue up, the
  foreground one is admitted.
\<close>

definition demo_clock :: clock where
  "demo_clock = \<lparr> ck_mono = 1000, ck_wall = 5000, ck_instant = 1000, ck_cancelled = [] \<rparr>"

definition demo_ctx :: "bool \<Rightarrow> ctx" where
  "demo_ctx background = \<lparr> cx_background = background, cx_cancelled = None, cx_expires = None \<rparr>"

definition demo_idle :: sys where
  "demo_idle = \<lparr> sy_gov = new_governor, sy_clock = demo_clock, sy_permits = 0, sy_issued = 0,
     sy_starts = [], sy_contracts = [], sy_background = [] \<rparr>"

definition demo_waiter :: "u64 \<Rightarrow> kind \<Rightarrow> bool \<Rightarrow> waiting" where
  "demo_waiter i k background = \<lparr> w_id = i, w_kind = k, w_ctx = demo_ctx background \<rparr>"

definition demo_queued :: sys where
  "demo_queued = demo_idle\<lparr> sy_gov := new_governor\<lparr> gv_queue := [demo_waiter 0 Read True],
     gv_next_id := 1, gv_wake := 1 \<rparr>, sy_issued := 1 \<rparr>"

definition demo_waiting :: sys where
  "demo_waiting = demo_idle\<lparr> sy_gov := new_governor\<lparr>
     gv_queue := [demo_waiter 0 Read True, demo_waiter 1 Contract False],
     gv_next_id := 2, gv_wake := 2 \<rparr>, sy_issued := 2 \<rparr>"

definition demo_admitted :: sys where
  "demo_admitted = demo_waiting\<lparr>
     sy_gov := admit demo_clock 1 Contract (demo_ctx False) (sy_gov demo_waiting),
     sy_permits := 1, sy_starts := [1000], sy_contracts := [1000], sy_background := [False] \<rparr>"

lemmas demo_defs = demo_clock_def demo_ctx_def demo_idle_def demo_waiter_def demo_queued_def
  demo_waiting_def demo_admitted_def new_governor_def default_restrictions_def gov_consts

lemmas demo_eval = demo_defs check_state_def expired_def paused_def ready_def spaced_def selected_def
  opt_or_def may_start_def enqueue_def notify_def

lemma demo_waiting_reach: "reach gov_init gov_step demo_waiting"
proof -
  have "reach gov_init gov_step demo_idle"
    by (rule reach_init) (simp add: gov_init_def demo_idle_def)
  moreover have "gov_step demo_idle (demo_idle\<lparr> sy_gov := sy_gov demo_queued,
      sy_issued := sy_issued demo_idle + 1 \<rparr>)"
    by (rule step_queue [where k = Read and c = "demo_ctx True" and ident = 0]) (simp_all add: demo_eval)
  moreover have "gov_step demo_queued (demo_queued\<lparr> sy_gov := sy_gov demo_waiting,
      sy_issued := sy_issued demo_queued + 1 \<rparr>)"
    by (rule step_queue [where k = Contract and c = "demo_ctx False" and ident = 1]) (simp_all add: demo_eval)
  moreover have "demo_idle\<lparr> sy_gov := sy_gov demo_queued, sy_issued := sy_issued demo_idle + 1 \<rparr> = demo_queued"
    and "demo_queued\<lparr> sy_gov := sy_gov demo_waiting, sy_issued := sy_issued demo_queued + 1 \<rparr> = demo_waiting"
    by (simp_all add: demo_defs)
  ultimately show ?thesis by (metis reach_step)
qed

lemma demo_waiters:
  "demo_waiter 0 Read True \<in> set (gv_queue (sy_gov demo_waiting))"
  "demo_waiter 1 Contract False \<in> set (gv_queue (sy_gov demo_waiting))"
  "ready (sy_clock demo_waiting) (sy_gov demo_waiting) (demo_waiter 0 Read True)"
  "may_start (sy_clock demo_waiting) (sy_gov demo_waiting)"
  by (simp_all add: demo_eval)

lemma demo_admits:
  "poll (sy_clock demo_waiting) (w_id (demo_waiter 1 Contract False)) (w_kind (demo_waiter 1 Contract False))
     (w_ctx (demo_waiter 1 Contract False)) (sy_gov demo_waiting) = (sy_gov demo_admitted, Admitted)"
  by (simp add: poll_Admitted) (simp add: demo_eval)

lemma demo_admitted_reach: "reach gov_init gov_step demo_admitted"
proof -
  have "gov_step demo_waiting demo_admitted"
    using step_admit [OF demo_waiters(2) demo_admits]
    by (simp add: demo_admitted_def demo_waiting_def demo_idle_def demo_clock_def demo_waiter_def demo_ctx_def)
  with demo_waiting_reach show ?thesis by (rule reach_step)
qed

text \<open>C3: Whatever the threads and the environment do, the governor keeps the request budget: as many
  requests are outstanding as permits are live, at most 2; at most 128 requests queue; any two
  admissions are at least 500 ms apart, and any two contract searches at least 6100 ms.\<close>

theorem governor_keeps_budget:
  assumes "reach gov_init gov_step s"
  shows "outstanding (sy_gov s) = sy_permits s \<and> sy_permits s \<le> 2
    \<and> length (gv_queue (sy_gov s)) \<le> 128 \<and> apart 500 (sy_starts s) \<and> apart 6100 (sy_contracts s)"
  using gov.reach_inv [OF assms] by (simp add: gov_inv_def gov_consts)

theorem governor_keeps_budget_witness:
  "outstanding (sy_gov demo_admitted) = 1 \<and> apart 6100 (sy_contracts demo_admitted)"
proof -
  have "sy_permits demo_admitted = 1" by (simp add: demo_admitted_def)
  with governor_keeps_budget [OF demo_admitted_reach] show ?thesis by simp
qed

text \<open>C14: Fairness: a foreground request is admitted ahead of a background request that is ready only
  while fewer than four foreground requests have been admitted since the last background one.\<close>

theorem background_not_starved:
  assumes "reach gov_init gov_step s" and "q \<in> set (gv_queue (sy_gov s))"
    and "poll (sy_clock s) (w_id q) (w_kind q) (w_ctx q) (sy_gov s) = (g, Admitted)"
    and "\<not> cx_background (w_ctx q)"
    and "b \<in> set (gv_queue (sy_gov s))" and "cx_background (w_ctx b)"
    and "ready (sy_clock s) (sy_gov s) b"
  shows "foreground_run s < 4"
proof (rule ccontr)
  assume "\<not> foreground_run s < 4"
  have inv: "gov_inv s" using gov.reach_inv [OF assms(1)] .
  with \<open>\<not> foreground_run s < 4\<close> have "4 \<le> gv_streak (sy_gov s)"
    by (simp add: gov_inv_def word_le_nat_alt)
  moreover have sel: "selected (sy_clock s) (sy_gov s) = Some (w_id q)"
    using assms(3) by (simp add: poll_Admitted)
  ultimately obtain q' where "q' \<in> set (gv_queue (sy_gov s))" "w_id q' = w_id q" "cx_background (w_ctx q')"
    using selected_background assms(5-7) by metis
  moreover have "ids_below (sy_issued s) (sy_gov s)" using inv by (simp add: gov_inv_def)
  ultimately show False using ids_belowD assms(2,4) by metis
qed

theorem background_not_starved_witness: "foreground_run demo_waiting < 4"
  using background_not_starved [OF demo_waiting_reach demo_waiters(2) demo_admits _ demo_waiters(1) _
      demo_waiters(3)]
  by (simp add: demo_waiter_def demo_ctx_def)

text \<open>C15: Progress: whenever a request in the queue is ready and the budget lets one start, some request
  in the queue that is ready is admitted by its own next poll; the queue cannot wedge.\<close>

theorem governor_progress:
  assumes "reach gov_init gov_step s" and "q \<in> set (gv_queue (sy_gov s))"
    and "ready (sy_clock s) (sy_gov s) q" and "may_start (sy_clock s) (sy_gov s)"
  shows "\<exists>p\<in>set (gv_queue (sy_gov s)). ready (sy_clock s) (sy_gov s) p
    \<and> snd (poll (sy_clock s) (w_id p) (w_kind p) (w_ctx p) (sy_gov s)) = Admitted"
proof -
  have "selected (sy_clock s) (sy_gov s) \<noteq> None"
    using assms(2,3) by (simp add: selected_None) blast
  then obtain i where "selected (sy_clock s) (sy_gov s) = Some i" by blast
  moreover have "ids_below (sy_issued s) (sy_gov s)"
    using gov.reach_inv [OF assms(1)] by (simp add: gov_inv_def)
  ultimately show ?thesis using selected_admits assms(4) by metis
qed

theorem governor_progress_witness:
  "\<exists>p\<in>set (gv_queue (sy_gov demo_waiting)). ready (sy_clock demo_waiting) (sy_gov demo_waiting) p
    \<and> snd (poll (sy_clock demo_waiting) (w_id p) (w_kind p) (w_ctx p) (sy_gov demo_waiting)) = Admitted"
  by (rule governor_progress [OF demo_waiting_reach demo_waiters(1,3,4)])

text \<open>No lost wake-up: a step that does not bump the wake generation leaves the answer of every
  waiting thread's poll as it was (at any clock), so a thread asleep on the generation misses nothing.\<close>

lemma governor_no_lost_wakeup:
  assumes "gov_step s t" and "gv_wake (sy_gov t) = gv_wake (sy_gov s)"
  shows "snd (poll clk i k c (sy_gov t)) = snd (poll clk i k c (sy_gov s))"
  using gov_step_wake [OF assms] by (rule poll_view_snd)

lemma governor_no_lost_wakeup_witness:
  "snd (poll demo_clock 0 Read (demo_ctx True)
     (sy_gov (demo_waiting\<lparr> sy_gov := successful (sy_clock demo_waiting) (sy_gov demo_waiting) \<rparr>)))
   = snd (poll demo_clock 0 Read (demo_ctx True) (sy_gov demo_waiting))"
  by (rule governor_no_lost_wakeup [OF step_success]) (simp add: successful_def)

text \<open>A request is admitted only when it may be: its context is live, its kind is not paused by the
  policy, the safeguards could be persisted, and no cooldown is running; and no step of the system ever
  shortens a cooldown or takes the policy back to an older revision.\<close>

lemma governor_guards:
  assumes "gov_step s t"
  shows "as_cooldown_until_ms (gv_status (sy_gov s)) \<le> as_cooldown_until_ms (gv_status (sy_gov t))
    \<and> as_revision (gv_status (sy_gov s)) \<le> as_revision (gv_status (sy_gov t))
    \<and> (\<forall>i k c g. poll clk i k c (sy_gov t) = (g, Admitted) \<longrightarrow>
         \<not> expired clk c \<and> \<not> paused (restrictions_of (sy_gov t)) k (cx_background c)
         \<and> \<not> gv_persistence_failed (sy_gov t) \<and> as_cooldown_until_ms (gv_status (sy_gov s)) \<le> ck_wall clk)"
  using gov_step_monotone [OF assms] by (auto simp: poll_Admitted check_state_Ok_iff intro: order_trans)

lemma governor_guards_witness:
  "\<not> gv_persistence_failed (sy_gov demo_waiting)"
  using governor_guards [OF step_tick [of demo_waiting demo_clock]] demo_admits
  by (simp add: clock_le_def) (auto simp: demo_waiting_def demo_idle_def)

end
