(* ===== verification/Outcome.thy ===== *)
theory Outcome
  imports Governor
begin

text \<open>
  What happened to a mutation (\<open>wfm-trading/src/orders/outcome.rs\<close>): the four outcomes, their wire
  spellings (declared in \<open>orders/pending.rs\<close>), and the classification of a governor error.
\<close>

definition STATUS_PENDING :: string where "STATUS_PENDING = ''pending''"
definition STATUS_UNCERTAIN :: string where "STATUS_UNCERTAIN = ''uncertain_mutation''"
definition STATUS_OK :: string where "STATUS_OK = ''ok''"
definition STATUS_ERROR :: string where "STATUS_ERROR = ''error''"

lemmas status_defs = STATUS_PENDING_def STATUS_UNCERTAIN_def STATUS_OK_def STATUS_ERROR_def

lemma statuses_differ [simp]:
  "STATUS_PENDING \<noteq> STATUS_UNCERTAIN" "STATUS_UNCERTAIN \<noteq> STATUS_PENDING"
  "STATUS_PENDING \<noteq> STATUS_OK" "STATUS_OK \<noteq> STATUS_PENDING"
  "STATUS_PENDING \<noteq> STATUS_ERROR" "STATUS_ERROR \<noteq> STATUS_PENDING"
  "STATUS_UNCERTAIN \<noteq> STATUS_OK" "STATUS_OK \<noteq> STATUS_UNCERTAIN"
  "STATUS_UNCERTAIN \<noteq> STATUS_ERROR" "STATUS_ERROR \<noteq> STATUS_UNCERTAIN"
  "STATUS_OK \<noteq> STATUS_ERROR" "STATUS_ERROR \<noteq> STATUS_OK"
  by (simp_all add: status_defs)

datatype mutation_outcome = Applied | Rejected | Deferred | Uncertain

fun status_str :: "mutation_outcome \<Rightarrow> string" where
  "status_str Applied = STATUS_OK"
| "status_str Rejected = STATUS_ERROR"
| "status_str Deferred = STATUS_PENDING"
| "status_str Uncertain = STATUS_UNCERTAIN"

fun outcome_of :: "access_error \<Rightarrow> mutation_outcome" where
  "outcome_of UncertainMutation = Uncertain"
| "outcome_of Cancelled = Deferred"
| "outcome_of Busy = Deferred"
| "outcome_of (Cooldown _) = Deferred"
| "outcome_of (Paused _) = Deferred"
| "outcome_of Transport = Deferred"
| "outcome_of Persistence = Deferred"
| "outcome_of InvalidPolicy = Rejected"
| "outcome_of InvalidRequest = Rejected"
| "outcome_of (Http _) = Rejected"

lemma status_str_inj [simp]: "status_str a = status_str b \<longleftrightarrow> a = b"
  by (cases a; cases b) simp_all

lemma outcome_Uncertain_iff [simp]: "outcome_of e = Uncertain \<longleftrightarrow> e = UncertainMutation"
  by (cases e) simp_all

lemma outcome_not_Applied [simp]: "outcome_of e \<noteq> Applied"
  by (cases e) simp_all

lemma status_eq_iff [simp]:
  "status_str o1 = STATUS_OK \<longleftrightarrow> o1 = Applied" "status_str o1 = STATUS_ERROR \<longleftrightarrow> o1 = Rejected"
  "status_str o1 = STATUS_PENDING \<longleftrightarrow> o1 = Deferred" "status_str o1 = STATUS_UNCERTAIN \<longleftrightarrow> o1 = Uncertain"
  by (cases o1; simp)+

end
