(* ===== verification/Transport.thy ===== *)
theory Transport
  imports Outcome Json
begin

text \<open>
  Sending one request (\<open>wfm-client/src/transport.rs\<close>, \<open>send_on\<close>): the retry loop around the governor
  and the network. What other code answers at each attempt (the governor's admission, the network's
  reply, the throttle record and the clock) is the record \<open>attempt\<close>; what the loop does is the list of
  events it makes beside its result. A response that is handed to the caller keeps its permit.
\<close>

record response =
  rp_status :: u16
  rp_retry_after :: "string option"
  rp_body :: "json option"      \<comment> \<open>\<open>None\<close>: the body could not be read as JSON\<close>
  rp_text :: "string option"    \<comment> \<open>\<open>None\<close>: the body could not be read\<close>

definition is_success :: "u16 \<Rightarrow> bool" where
  "is_success s \<longleftrightarrow> 200 \<le> s \<and> s < 300"

definition is_server_error :: "u16 \<Rightarrow> bool" where
  "is_server_error s \<longleftrightarrow> 500 \<le> s \<and> s < 600"

definition is_throttle :: "u16 \<Rightarrow> bool" where
  "is_throttle s \<longleftrightarrow> s = 429 \<or> s = 509"

record attempt =
  at_acquire :: "(access_error, unit) result"     \<comment> \<open>\<open>governor.acquire\<close>\<close>
  at_reply :: "response option"                   \<comment> \<open>\<open>builder.send()\<close>; \<open>None\<close>: a transport error\<close>
  at_throttled :: "(access_error, unit) result"   \<comment> \<open>\<open>governor.throttled\<close>\<close>
  at_deadline :: u64                              \<comment> \<open>\<open>governor.status().cooldown_until_ms\<close>\<close>
  at_unix_ms :: u64

datatype net_event =
    EvInvalidated
  | EvAcquired kind
  | EvSent
  | EvThrottled "string option"
  | EvSucceeded
  | EvReleased
  | EvSlept u64

definition retry_backoff :: "nat \<Rightarrow> u64" where
  "retry_backoff a = 2000 * (of_nat a + 1)"

definition attempts_of :: "kind \<Rightarrow> nat" where
  "attempts_of k = (if k = Read \<or> k = Contract then 3 else if k = Mutation then 2 else 1)"

definition emit :: "net_event list \<Rightarrow> net_event list \<times> 'a \<Rightarrow> net_event list \<times> 'a" where
  "emit evs r = (evs @ fst r, snd r)"

lemma emit_simps [simp]: "fst (emit evs r) = evs @ fst r" "snd (emit evs r) = snd r"
  by (simp_all add: emit_def)

text \<open>
  \<open>cloneable\<close>: whether \<open>try_clone\<close> succeeds on the request; \<open>available\<close>: whether the original is still
  there; \<open>a\<close>: the attempt's index; the last argument: the attempts left.
\<close>

fun send_loop :: "kind \<Rightarrow> bool \<Rightarrow> (nat \<Rightarrow> attempt) \<Rightarrow> bool \<Rightarrow> nat \<Rightarrow> nat
    \<Rightarrow> net_event list \<times> (access_error, response) result" where
  "send_loop k cloneable env available a 0 = ([], Err Transport)"
| "send_loop k cloneable env available a (Suc n) =
     (if \<not> cloneable \<and> \<not> available then ([], Err InvalidRequest)
      else case at_acquire (env a) of
        Err e \<Rightarrow> ([], Err e)
      | Ok _ \<Rightarrow> emit [EvAcquired k, EvSent]
          (case at_reply (env a) of
             None \<Rightarrow>
               if k = Mutation then ([EvReleased], Err UncertainMutation)
               else if n = 0 then ([EvReleased], Err Transport)
               else emit [EvReleased, EvSlept (retry_backoff a)]
                      (send_loop k cloneable env cloneable (Suc a) n)
           | Some r \<Rightarrow>
               if is_throttle (rp_status r) then
                 emit [EvThrottled (rp_retry_after r), EvReleased]
                   (case at_throttled (env a) of
                      Err e \<Rightarrow> ([], Err e)
                    | Ok _ \<Rightarrow>
                        let wait = sat_sub (at_deadline (env a)) (at_unix_ms (env a))
                        in if k = Mutation \<and> rp_status r = 429 \<and> n \<noteq> 0 \<and> wait \<le> 5000
                           then emit [EvSlept wait] (send_loop k cloneable env cloneable (Suc a) n)
                           else ([], Err (Cooldown (at_deadline (env a)))))
               else if k = Mutation \<and> is_server_error (rp_status r)
               then ([EvReleased], Err UncertainMutation)
               else if \<not> is_server_error (rp_status r) \<or> n = 0
               then (if is_success (rp_status r) then [EvSucceeded] else [], Ok r)
               else emit [EvReleased, EvSlept (retry_backoff a)]
                      (send_loop k cloneable env cloneable (Suc a) n)))"

text \<open>The cached reads are dropped before a mutation and again when it is over.\<close>

definition send_on :: "kind \<Rightarrow> bool \<Rightarrow> (nat \<Rightarrow> attempt)
    \<Rightarrow> net_event list \<times> (access_error, response) result" where
  "send_on k cloneable env =
     (let (evs, r) = send_loop k cloneable env True 0 (attempts_of k)
      in if k = Mutation then (EvInvalidated # evs @ [EvInvalidated], r) else (evs, r))"

section \<open>How often a request goes out\<close>

definition sends :: "net_event list \<Rightarrow> nat" where
  "sends evs = length (filter (\<lambda>e. e = EvSent) evs)"

lemma sends_simps [simp]:
  "sends [] = 0" "sends (e # evs) = (if e = EvSent then Suc (sends evs) else sends evs)"
  "sends (evs @ evs') = sends evs + sends evs'"
  by (simp_all add: sends_def)

definition live_permits :: "net_event list \<Rightarrow> int" where
  "live_permits evs = (\<Sum>e\<leftarrow>evs. case e of EvAcquired _ \<Rightarrow> 1 | EvReleased \<Rightarrow> - 1 | _ \<Rightarrow> 0)"

lemma live_permits_simps [simp]:
  "live_permits [] = 0"
  "live_permits (e # evs) = (case e of EvAcquired _ \<Rightarrow> 1 | EvReleased \<Rightarrow> - 1 | _ \<Rightarrow> 0) + live_permits evs"
  "live_permits (evs @ evs') = live_permits evs + live_permits evs'"
  by (simp_all add: live_permits_def)

text \<open>The market refused the request outright: nothing of it was applied.\<close>

definition refused_unapplied :: "attempt \<Rightarrow> bool" where
  "refused_unapplied t \<longleftrightarrow> is_some_and (at_reply t) (\<lambda>r. is_throttle (rp_status r))"

lemma send_loop_sends: "sends (fst (send_loop k cl env av a n)) \<le> n"
  by (induction k cl env av a n rule: send_loop.induct)
    (auto simp: Let_def split: sum.splits option.splits)

lemma send_loop_permits:
  "live_permits (fst (send_loop k cl env av a n)) = (if is_ok (snd (send_loop k cl env av a n)) then 1 else 0)"
  by (induction k cl env av a n rule: send_loop.induct)
    (auto simp: Let_def split: sum.splits option.splits)

text \<open>A mutation goes out again only after the market refused it outright.\<close>

lemma mutation_resend:
  assumes "Suc i < sends (fst (send_loop Mutation cl env av a n))"
  shows "refused_unapplied (env (a + i))"
  using assms
proof (induction n arbitrary: a i av)
  case (Suc n)
  have IH: "refused_unapplied (env (Suc (a + j)))"
    if "Suc j < sends (fst (send_loop Mutation cl env v (Suc a) n))" for j v
    using Suc.IH [OF that] by simp
  from Suc.prems IH show ?case
    by (cases i) (auto simp: Let_def refused_unapplied_def split: sum.splits option.splits if_splits)
qed simp

lemma send_loop_Ok: "snd (send_loop k cl env av a n) = Ok r \<Longrightarrow> 0 < sends (fst (send_loop k cl env av a n))"
  by (cases n) (auto split: sum.splits if_splits)

text \<open>What a mutation's result says of the reply to its last send, attempt \<open>i\<close>.\<close>

definition last_reply :: "(nat \<Rightarrow> attempt) \<Rightarrow> nat \<Rightarrow> (access_error, response) result \<Rightarrow> bool" where
  "last_reply env i r \<longleftrightarrow> (case r of
     Ok r \<Rightarrow> at_reply (env i) = Some r \<and> \<not> is_throttle (rp_status r) \<and> \<not> is_server_error (rp_status r)
   | Err e \<Rightarrow> e = UncertainMutation \<or> refused_unapplied (env i))"

lemma last_reply_Err [simp]: "last_reply env i (Err e) \<longleftrightarrow> e = UncertainMutation \<or> refused_unapplied (env i)"
  by (simp add: last_reply_def)

lemma last_reply_refused: "refused_unapplied (env i) \<Longrightarrow> (\<And>r. res \<noteq> Ok r) \<Longrightarrow> last_reply env i res"
  by (cases res) (auto simp: last_reply_def)

lemma mutation_last:
  assumes "sends (fst (send_loop Mutation cl env av a n)) = Suc m"
  shows "last_reply env (a + m) (snd (send_loop Mutation cl env av a n))"
  using assms
proof (induction n arbitrary: a m av)
  case (Suc n)
  have IH: "last_reply env (Suc (a + j)) (snd (send_loop Mutation cl env v (Suc a) n))"
    if "sends (fst (send_loop Mutation cl env v (Suc a) n)) = Suc j" for j v
    using Suc.IH [OF that] by (simp only: add_Suc)
  have refused: "at_reply (env a) = Some r \<Longrightarrow> is_throttle (rp_status r) \<Longrightarrow> refused_unapplied (env a)" for r
    by (simp add: refused_unapplied_def)
  have unsent: "last_reply env a (snd (send_loop Mutation cl env v b n))"
    if "refused_unapplied (env a)" and "sends (fst (send_loop Mutation cl env v b n)) = 0" for v b
    using that send_loop_Ok [of Mutation cl env v b n] by (cases "snd (send_loop Mutation cl env v b n)") auto
  from Suc.prems IH refused unsent show ?case
    by (cases m) (auto simp: Let_def last_reply_def [of _ _ "Ok r" for r] intro: IH
        split: sum.splits option.splits if_splits)
qed simp

lemma send_on_loop:
  "snd (send_on k cl env) = snd (send_loop k cl env True 0 (attempts_of k))"
  "sends (fst (send_on k cl env)) = sends (fst (send_loop k cl env True 0 (attempts_of k)))"
  "live_permits (fst (send_on k cl env)) = live_permits (fst (send_loop k cl env True 0 (attempts_of k)))"
  by (simp_all add: send_on_def split: prod.split)

section \<open>Properties\<close>

text \<open>C4: A mutation is never blindly resent, and its result never hides a possible effect. It goes out
  at most twice, and a second time only after the market refused the first outright (429 or 509). A
  response handed back answers the last send and is neither a throttle nor a server error; any error
  but \<open>UncertainMutation\<close> means that every send was refused outright, so nothing was applied.\<close>

theorem mutation_never_blindly_resent:
  assumes "send_on Mutation cl env = (evs, res)"
  shows "sends evs \<le> 2 \<and> (\<forall>i. Suc i < sends evs \<longrightarrow> refused_unapplied (env i))
    \<and> (case res of
         Ok r \<Rightarrow> 0 < sends evs \<and> at_reply (env (sends evs - 1)) = Some r
           \<and> \<not> is_throttle (rp_status r) \<and> \<not> is_server_error (rp_status r)
       | Err e \<Rightarrow> e = UncertainMutation \<or> (\<forall>i < sends evs. refused_unapplied (env i)))"
proof -
  let ?l = "send_loop Mutation cl env True 0 (attempts_of Mutation)"
  have res: "res = snd ?l" and n: "sends evs = sends (fst ?l)"
    using send_on_loop(1,2) [of Mutation cl env] assms by simp_all
  have two: "sends evs \<le> 2"
    using send_loop_sends [of Mutation cl env True 0 "attempts_of Mutation"] n by (simp add: attempts_of_def)
  have again: "Suc i < sends evs \<Longrightarrow> refused_unapplied (env i)" for i
    using mutation_resend [of i cl env True 0 "attempts_of Mutation"] n by simp
  have last: "sends evs = Suc m \<Longrightarrow> last_reply env m res" for m
    using mutation_last [of cl env True 0 "attempts_of Mutation" m] n res by simp
  show ?thesis
  proof (cases res)
    case (Inl e)
    have "e = UncertainMutation \<or> refused_unapplied (env i)" if "i < sends evs" for i
      using again [of i] last [of i] that Inl by (cases "Suc i = sends evs") auto
    with two again Inl show ?thesis by auto
  next
    case (Inr r)
    then have "0 < sends evs"
      using send_loop_Ok [of Mutation cl env True 0 "attempts_of Mutation" r] res n by simp
    with two again last [of "sends evs - 1"] Inr show ?thesis by (auto simp: last_reply_def)
  qed
qed

lemma attempts_of_mutation: "attempts_of Mutation = Suc (Suc 0)"
  by (simp add: attempts_of_def)

definition demo_attempts :: "nat \<Rightarrow> attempt" where
  "demo_attempts i = \<lparr> at_acquire = Ok (),
     at_reply = Some \<lparr> rp_status = (if i = 0 then 429 else 200), rp_retry_after = Some ''0'', rp_body = None,
       rp_text = None \<rparr>,
     at_throttled = Ok (), at_deadline = 1000, at_unix_ms = 900 \<rparr>"

lemma demo_send:
  "send_on Mutation True demo_attempts =
     ([EvInvalidated, EvAcquired Mutation, EvSent, EvThrottled (Some ''0''), EvReleased, EvSlept 100,
       EvAcquired Mutation, EvSent, EvSucceeded, EvInvalidated], Ok (the (at_reply (demo_attempts 1))))"
  by (simp add: send_on_def attempts_of_mutation demo_attempts_def is_throttle_def
      is_server_error_def is_success_def Let_def emit_def sat_sub_def)

theorem mutation_never_blindly_resent_witness: "refused_unapplied (demo_attempts 0)"
  using mutation_never_blindly_resent [OF demo_send] by simp

text \<open>Sending keeps the request budget: a request goes out at most three times (reads and contract
  searches), twice (mutations) or once, every permit it takes is given back, and the one exception is
  the permit that a response handed to the caller carries until it is dropped.\<close>

lemma send_keeps_permits:
  "sends (fst (send_on k cl env)) \<le> attempts_of k
   \<and> live_permits (fst (send_on k cl env)) = (if is_ok (snd (send_on k cl env)) then 1 else 0)"
  using send_loop_sends [of k cl env True 0 "attempts_of k"]
    send_loop_permits [of k cl env True 0 "attempts_of k"]
  by (simp add: send_on_loop)


end
