(* ===== verification/Read_Cache.thy ===== *)
theory Read_Cache
  imports Transport Transition
begin

text \<open>
  The shared cache of reads (\<open>read_json_observed\<close> in \<open>wfm-client/src/transport.rs\<close>). Identical reads in
  flight share one request: the first claims an entry and loads it, the others wait for its payload. An
  \<open>Arc<Cached>\<close> is an index into \<open>rc_entries\<close>; the hash map is an association list with distinct keys.
  Each of the three writes that publish a result is a step of its own, so other threads run between.
\<close>

record read_key =
  rk_url :: string
  rk_platform :: string
  rk_account :: "string option"

record observed =
  ob_value :: json
  ob_observed_at :: u64

record cached =
  ca_payload :: "(access_error, observed) result option"
  ca_completed :: "u64 option"

record read_cache =
  rc_slots :: "(read_key \<times> nat) list"
  rc_entries :: "cached list"

definition empty_cache :: read_cache where
  "empty_cache = \<lparr> rc_slots = [], rc_entries = [] \<rparr>"

definition MAX_CACHE :: nat where "MAX_CACHE = 256"

definition stale :: "u64 \<Rightarrow> u64 \<Rightarrow> cached \<Rightarrow> bool" where
  "stale now ttl e \<longleftrightarrow> is_some_and (ca_completed e) (\<lambda>t. ttl \<le> sat_sub now t)"

text \<open>What a finished request becomes: the \<open>load\<close> closure.\<close>

definition load_result :: "u64 \<Rightarrow> (access_error, response) result \<Rightarrow> (access_error, observed) result" where
  "load_result now r = rbind r (\<lambda>r.
     if \<not> is_success (rp_status r) then Err (Http (rp_status r))
     else rbind (ok_or (rp_body r) Transport) (\<lambda>value.
       Ok \<lparr> ob_value = value, ob_observed_at = now \<rparr>))"

definition drop_key :: "read_key \<Rightarrow> (read_key \<times> nat) list \<Rightarrow> (read_key \<times> nat) list" where
  "drop_key key = filter (\<lambda>(k, _). k \<noteq> key)"

text \<open>The lookup under the cache's lock: the entry, and whether this thread has to load it.\<close>

definition claim :: "read_key \<Rightarrow> u64 \<Rightarrow> u64 \<Rightarrow> read_cache
    \<Rightarrow> read_cache \<times> (access_error, nat \<times> bool) result" where
  "claim key now ttl c =
     (let entries = rc_entries c;
          slots = (if is_some_and (map_of (rc_slots c) key) (\<lambda>i. stale now ttl (entries ! i))
                   then drop_key key (rc_slots c) else rc_slots c)
      in case map_of slots key of
           Some i \<Rightarrow> (c\<lparr> rc_slots := slots \<rparr>, Ok (i, False))
         | None \<Rightarrow>
             let slots = (if MAX_CACHE \<le> length slots
                          then filter (\<lambda>(_, i). ca_completed (entries ! i) = None) slots else slots)
             in if MAX_CACHE \<le> length slots then (c\<lparr> rc_slots := slots \<rparr>, Err Busy)
                else (\<lparr> rc_slots = (key, length entries) # slots,
                        rc_entries = entries @ [\<lparr> ca_payload = None, ca_completed = None \<rparr>] \<rparr>,
                      Ok (length entries, True)))"

definition set_payload :: "nat \<Rightarrow> (access_error, observed) result \<Rightarrow> read_cache \<Rightarrow> read_cache" where
  "set_payload i r c = c\<lparr> rc_entries := (rc_entries c)[i := (rc_entries c ! i)\<lparr> ca_payload := Some r \<rparr>] \<rparr>"

definition set_completed :: "nat \<Rightarrow> u64 \<Rightarrow> read_cache \<Rightarrow> read_cache" where
  "set_completed i now c =
     c\<lparr> rc_entries := (rc_entries c)[i := (rc_entries c ! i)\<lparr> ca_completed := Some now \<rparr>] \<rparr>"

text \<open>A failed load leaves the map, unless its key already belongs to another entry.\<close>

definition retire :: "read_key \<Rightarrow> nat \<Rightarrow> read_cache \<Rightarrow> read_cache" where
  "retire key i c =
     (if map_of (rc_slots c) key = Some i then c\<lparr> rc_slots := drop_key key (rc_slots c) \<rparr> else c)"

definition invalidate_reads :: "read_cache \<Rightarrow> read_cache" where
  "invalidate_reads c = c\<lparr> rc_slots := [] \<rparr>"

text \<open>What a waiting thread reads at each turn.\<close>

definition waiter_reads :: "nat \<Rightarrow> read_cache \<Rightarrow> (access_error, observed) result option" where
  "waiter_reads i c = ca_payload (rc_entries c ! i)"

section \<open>The cache under every interleaving\<close>

text \<open>History: \<open>cs_epoch\<close> counts the invalidations, \<open>cs_born\<close> is the epoch each entry was made in.\<close>

record cache_sys =
  cs_cache :: read_cache
  cs_epoch :: nat
  cs_born :: "nat list"

definition cache_init :: "cache_sys \<Rightarrow> bool" where
  "cache_init s \<longleftrightarrow> s = \<lparr> cs_cache = empty_cache, cs_epoch = 0, cs_born = [] \<rparr>"

inductive cache_step :: "cache_sys \<Rightarrow> cache_sys \<Rightarrow> bool" where
  step_claim: "claim key now ttl (cs_cache s) = (c, Ok (i, False)) \<Longrightarrow> cache_step s (s\<lparr> cs_cache := c \<rparr>)"
| step_own: "claim key now ttl (cs_cache s) = (c, Ok (i, True)) \<Longrightarrow>
     cache_step s (s\<lparr> cs_cache := c, cs_born := cs_born s @ [cs_epoch s] \<rparr>)"
| step_full: "claim key now ttl (cs_cache s) = (c, Err e) \<Longrightarrow> cache_step s (s\<lparr> cs_cache := c \<rparr>)"
| step_payload: "i < length (rc_entries (cs_cache s)) \<Longrightarrow>
     cache_step s (s\<lparr> cs_cache := set_payload i r (cs_cache s) \<rparr>)"
| step_completed: "i < length (rc_entries (cs_cache s)) \<Longrightarrow> waiter_reads i (cs_cache s) \<noteq> None \<Longrightarrow>
     cache_step s (s\<lparr> cs_cache := set_completed i now (cs_cache s) \<rparr>)"
| step_retire: "cache_step s (s\<lparr> cs_cache := retire key i (cs_cache s) \<rparr>)"
| step_invalidate: "cache_step s (s\<lparr> cs_cache := invalidate_reads (cs_cache s), cs_epoch := cs_epoch s + 1 \<rparr>)"

definition slots_ok :: "nat \<Rightarrow> nat list \<Rightarrow> (read_key \<times> nat) list \<Rightarrow> bool" where
  "slots_ok epoch born slots \<longleftrightarrow>
     distinct (map fst slots) \<and> length slots \<le> MAX_CACHE
     \<and> (\<forall>(k, i)\<in>set slots. i < length born \<and> born ! i = epoch)"

definition cache_inv :: "cache_sys \<Rightarrow> bool" where
  "cache_inv s \<longleftrightarrow> length (cs_born s) = length (rc_entries (cs_cache s))
     \<and> slots_ok (cs_epoch s) (cs_born s) (rc_slots (cs_cache s))
     \<and> (\<forall>e\<in>set (rc_entries (cs_cache s)). ca_completed e \<noteq> None \<longrightarrow> ca_payload e \<noteq> None)"

lemma slots_ok_filter: "slots_ok ep born slots \<Longrightarrow> slots_ok ep born (filter P slots)"
  by (auto simp: slots_ok_def distinct_map_filter intro: order_trans [OF length_filter_le])

lemma slots_ok_drop: "slots_ok ep born slots \<Longrightarrow> slots_ok ep born (drop_key k slots)"
  by (simp add: drop_key_def slots_ok_filter)

lemma slots_ok_Cons:
  assumes "slots_ok ep born slots" and "map_of slots k = None" and "length slots < MAX_CACHE"
  shows "slots_ok ep (born @ [ep]) ((k, length born) # slots)"
  using assms by (auto simp: slots_ok_def nth_append map_of_eq_None_iff image_iff)

lemma map_of_filter_None: "map_of xs k = None \<Longrightarrow> map_of (filter P xs) k = None"
  by (auto simp: map_of_eq_None_iff image_iff)

text \<open>The three ways a lookup can end.\<close>

lemma claim_cases:
  assumes "claim key now ttl c = (c', res)"
  obtains (hit) i where "res = Ok (i, False)" "map_of (rc_slots c) key = Some i" "c' = c"
      "\<not> stale now ttl (rc_entries c ! i)"
  | (miss) slots P where "res = Ok (length (rc_entries c), True)" "length slots < MAX_CACHE"
      "map_of slots key = None" "slots = filter P (rc_slots c)"
      "c' = \<lparr> rc_slots = (key, length (rc_entries c)) # slots,
             rc_entries = rc_entries c @ [\<lparr> ca_payload = None, ca_completed = None \<rparr>] \<rparr>"
  | (full) P where "res = Err Busy" "c' = c\<lparr> rc_slots := filter P (rc_slots c) \<rparr>"
proof -
  define slots where "slots = (if is_some_and (map_of (rc_slots c) key) (\<lambda>i. stale now ttl (rc_entries c ! i))
      then drop_key key (rc_slots c) else rc_slots c)"
  obtain P where P: "slots = filter P (rc_slots c)"
    unfolding slots_def drop_key_def by (metis filter_True)
  show ?thesis
  proof (cases "map_of slots key")
    case (Some i)
    have "map_of (drop_key key (rc_slots c)) key = None"
      by (auto simp: drop_key_def map_of_eq_None_iff)
    with Some have "\<not> is_some_and (map_of (rc_slots c) key) (\<lambda>i. stale now ttl (rc_entries c ! i))"
      and "slots = rc_slots c"
      by (auto simp: slots_def split: if_splits)
    with Some assms show ?thesis
      by (intro hit [of i]) (auto simp: claim_def Let_def)
  next
    case None
    let ?live = "\<lambda>(_, i). ca_completed (rc_entries c ! i) = None"
    define kept where "kept = (if MAX_CACHE \<le> length slots then filter ?live slots else slots)"
    define Q where "Q = (\<lambda>x. (MAX_CACHE \<le> length slots \<longrightarrow> ?live x) \<and> P x)"
    have Q: "kept = filter Q (rc_slots c)"
      unfolding kept_def Q_def by (simp add: P conj_commute)
    have none: "map_of kept key = None"
      using None by (simp add: kept_def map_of_filter_None)
    have "claim key now ttl c =
       (if MAX_CACHE \<le> length kept then (c\<lparr> rc_slots := kept \<rparr>, Err Busy)
        else (\<lparr> rc_slots = (key, length (rc_entries c)) # kept,
               rc_entries = rc_entries c @ [\<lparr> ca_payload = None, ca_completed = None \<rparr>] \<rparr>,
              Ok (length (rc_entries c), True)))"
      unfolding claim_def Let_def slots_def [symmetric] kept_def [symmetric] by (simp add: None)
    note eq = trans [OF assms [symmetric] this]
    show ?thesis
    proof (cases "MAX_CACHE \<le> length kept")
      case True
      with eq show ?thesis by (intro full [of Q]) (simp_all add: Q)
    next
      case False
      with eq show ?thesis by (intro miss [of kept Q]) (simp_all add: none Q [symmetric])
    qed
  qed
qed

lemma cache_inv_entry:
  assumes "cache_inv s" and "i < length (rc_entries (cs_cache s))"
    and "ca_completed e \<noteq> None \<longrightarrow> ca_payload e \<noteq> None"
  shows "cache_inv (s\<lparr> cs_cache := (cs_cache s)\<lparr> rc_entries := (rc_entries (cs_cache s))[i := e] \<rparr> \<rparr>)"
  using assms by (auto simp: cache_inv_def dest: set_update_subset_insert [THEN subsetD])

lemma cache_inv_init: "cache_init s \<Longrightarrow> cache_inv s"
  by (simp add: cache_init_def cache_inv_def empty_cache_def slots_ok_def)

lemma cache_inv_claim:
  assumes inv: "cache_inv s" and claim: "claim key now ttl (cs_cache s) = (c, res)"
  shows "cache_inv (case res of
      Ok (_, True) \<Rightarrow> s\<lparr> cs_cache := c, cs_born := cs_born s @ [cs_epoch s] \<rparr>
    | _ \<Rightarrow> s\<lparr> cs_cache := c \<rparr>)"
  using claim
proof (cases rule: claim_cases)
  case (hit i)
  with inv show ?thesis by (simp add: cache_inv_def)
next
  case (miss slots P)
  have "slots_ok (cs_epoch s) (cs_born s @ [cs_epoch s]) ((key, length (cs_born s)) # slots)"
    using inv miss(2-4) by (intro slots_ok_Cons) (auto simp: cache_inv_def slots_ok_filter)
  with inv miss show ?thesis by (auto simp: cache_inv_def)
next
  case (full P)
  with inv show ?thesis by (simp add: cache_inv_def slots_ok_filter)
qed

lemma cache_inv_step:
  assumes inv: "cache_inv s" and step: "cache_step s t"
  shows "cache_inv t"
  using step
proof (cases rule: cache_step.cases)
  case (step_payload i r)
  with inv show ?thesis by (simp add: set_payload_def cache_inv_entry)
next
  case (step_completed i now)
  with inv show ?thesis by (simp add: set_completed_def waiter_reads_def cache_inv_entry)
next
  case (step_retire key i)
  with inv show ?thesis by (simp add: retire_def cache_inv_def slots_ok_drop)
next
  case step_invalidate
  with inv show ?thesis by (simp add: invalidate_reads_def cache_inv_def slots_ok_def)
qed (use cache_inv_claim [OF inv] in fastforce)+

interpretation cache: inductive_invariant cache_init cache_step cache_inv
  by unfold_locales (auto intro: cache_inv_init cache_inv_step)

section \<open>Properties\<close>

text \<open>C16: Reads never come from before a mutation. Whatever the threads do, a read that is served by an
  entry another thread owns joins a request that began after the last invalidation (there is one before
  and one after every mutation), and whose result, if it is there, is younger than the read's limit; a
  read that finds none becomes the owner of a new entry; the map never holds more than 256 entries.\<close>

theorem cached_read_is_fresh:
  assumes "reach cache_init cache_step s" and "claim key now ttl (cs_cache s) = (c, Ok (i, owner))"
  shows "length (rc_slots (cs_cache s)) \<le> 256 \<and>
    (if owner then i = length (rc_entries (cs_cache s)) \<and> map_of (rc_slots c) key = Some i
     else cs_born s ! i = cs_epoch s \<and> \<not> stale now ttl (rc_entries (cs_cache s) ! i))"
proof -
  have inv: "cache_inv s" using cache.reach_inv [OF assms(1)] .
  from assms(2) show ?thesis
  proof (cases rule: claim_cases)
    case (hit j)
    then have "(key, i) \<in> set (rc_slots (cs_cache s))" by (auto dest: map_of_SomeD)
    with hit inv show ?thesis by (auto simp: cache_inv_def slots_ok_def MAX_CACHE_def)
  qed (use inv in \<open>auto simp: cache_inv_def slots_ok_def MAX_CACHE_def\<close>)
qed

definition demo_key :: read_key where
  "demo_key = \<lparr> rk_url = ''u'', rk_platform = ''pc'', rk_account = None \<rparr>"

definition demo_loading :: cache_sys where
  "demo_loading = \<lparr> cs_cache = \<lparr> rc_slots = [(demo_key, 0)],
     rc_entries = [\<lparr> ca_payload = None, ca_completed = None \<rparr>] \<rparr>, cs_epoch = 0, cs_born = [0] \<rparr>"

lemma demo_loading_reach: "reach cache_init cache_step demo_loading"
proof -
  let ?s = "\<lparr> cs_cache = empty_cache, cs_epoch = 0, cs_born = [] \<rparr>"
  have "claim demo_key 0 5 (cs_cache ?s) = (cs_cache demo_loading, Ok (0, True))"
    by (simp add: claim_def empty_cache_def demo_loading_def MAX_CACHE_def)
  from step_own [OF this] have "cache_step ?s demo_loading"
    by (simp add: demo_loading_def)
  moreover have "reach cache_init cache_step ?s"
    by (rule reach_init) (simp add: cache_init_def)
  ultimately show ?thesis by (auto intro: reach_step)
qed

theorem cached_read_is_fresh_witness: "cs_born demo_loading ! 0 = cs_epoch demo_loading"
proof -
  have "claim demo_key 3 5 (cs_cache demo_loading) = (cs_cache demo_loading, Ok (0, False))"
    by (simp add: claim_def demo_loading_def stale_def)
  from cached_read_is_fresh [OF demo_loading_reach this] show ?thesis by simp
qed

end
