(* ===== verification/Policy.thy ===== *)
theory Policy
  imports Governor_System
begin

text \<open>
  Signed restrictions (\<open>wfm-client/src/policy.rs\<close>): a policy is verified before it is parsed, bounded
  before it is used and on disk before it is active. Serde, base64 and Minisign are not code of the
  repository; \<open>crypto\<close> holds what the code calls of them, and nothing is assumed about it. Bytes are
  lists of characters. The store's governor is the process's own, as \<open>start\<close> sets it up.
\<close>

definition MAX_POLICY_BYTES :: nat where "MAX_POLICY_BYTES = 65536"

datatype component = Desktop | Scraper

record envelope =
  ev_payload :: string
  ev_signature :: string

record policy =
  po_schema :: u32
  po_revision :: u64
  po_issued_at_ms :: u64
  po_reason :: string
  po_desktop :: restrictions
  po_scraper :: restrictions

record ('k, 's) crypto =
  cy_envelope :: "string \<Rightarrow> envelope option"      \<comment> \<open>\<open>serde_json::from_slice::<Envelope>\<close>\<close>
  cy_base64 :: "string \<Rightarrow> string option"
  cy_signature :: "string \<Rightarrow> 's option"
  cy_key :: "string \<Rightarrow> 'k option"               \<comment> \<open>\<open>PublicKey::from_base64(key.trim())\<close>\<close>
  cy_verify :: "'k \<Rightarrow> string \<Rightarrow> 's \<Rightarrow> bool"
  cy_policy :: "string \<Rightarrow> policy option"          \<comment> \<open>\<open>serde_json::from_slice::<Policy>\<close>\<close>

definition verify_envelope ::
  "('k, 's) crypto \<Rightarrow> string \<Rightarrow> string \<Rightarrow> nat \<Rightarrow> (access_error, envelope \<times> string) result" where
  "verify_envelope cy raw key max_bytes =
     (if max_bytes < length raw then Err InvalidPolicy
      else rbind (ok_or (cy_envelope cy raw) InvalidPolicy) (\<lambda>envelope.
           rbind (ok_or (cy_base64 cy (ev_payload envelope)) InvalidPolicy) (\<lambda>payload.
           rbind (ok_or (cy_signature cy (ev_signature envelope)) InvalidPolicy) (\<lambda>signature.
           rbind (ok_or (cy_key cy key) InvalidPolicy) (\<lambda>k.
             if cy_verify cy k payload signature then Ok (envelope, payload) else Err InvalidPolicy)))))"

text \<open>\<open>chars().any(char::is_control)\<close> on UTF-8: the C0 controls, DEL, and the C1 controls, two bytes each.\<close>

fun has_control :: "string \<Rightarrow> bool" where
  "has_control [] = False"
| "has_control (c # cs) =
     ((of_char c :: nat) < 32 \<or> of_char c = (127 :: nat)
      \<or> (of_char c = (194 :: nat) \<and>
         (case cs of [] \<Rightarrow> False | d # _ \<Rightarrow> 128 \<le> (of_char d :: nat) \<and> (of_char d :: nat) < 160))
      \<or> has_control cs)"

definition policy_bounded :: "policy \<Rightarrow> bool" where
  "policy_bounded p \<longleftrightarrow>
     \<not> (po_schema p \<noteq> 1 \<or> po_revision p = 0 \<or> 9007199254740991 < po_revision p
        \<or> po_issued_at_ms p = 0 \<or> 253402300799999 < po_issued_at_ms p
        \<or> 500 < length (po_reason p) \<or> has_control (po_reason p))"

definition verify :: "('k, 's) crypto \<Rightarrow> string \<Rightarrow> string \<Rightarrow> (access_error, envelope \<times> policy) result" where
  "verify cy raw key =
     rbind (verify_envelope cy raw key MAX_POLICY_BYTES) (\<lambda>(envelope, payload).
     rbind (ok_or (cy_policy cy payload) InvalidPolicy) (\<lambda>policy.
       if \<not> policy_bounded policy then Err InvalidPolicy
       else rbind (validate_restrictions (po_desktop policy)) (\<lambda>_.
            rbind (validate_restrictions (po_scraper policy)) (\<lambda>_. Ok (envelope, policy)))))"

fun verify_any :: "('k, 's) crypto \<Rightarrow> string \<Rightarrow> string list \<Rightarrow> (envelope \<times> policy) option" where
  "verify_any cy raw [] = None"
| "verify_any cy raw (k # ks) =
     (case verify cy raw k of Ok v \<Rightarrow> Some v | Err _ \<Rightarrow> verify_any cy raw ks)"

definition verify_cached ::
  "('k, 's) crypto \<Rightarrow> string \<Rightarrow> string \<Rightarrow> string list \<Rightarrow> (access_error, envelope \<times> policy) result" where
  "verify_cached cy raw key previous =
     (case verify cy raw key of Ok v \<Rightarrow> Ok v | Err e \<Rightarrow> ok_or (verify_any cy raw previous) e)"

section \<open>The store\<close>

datatype policy_file = PfMissing | PfUnreadable | PfBytes string

record policy_store =
  pt_key :: string
  pt_previous :: "string list"
  pt_component :: component
  pt_file :: policy_file
  pt_current :: "(envelope \<times> policy) option"
  pt_gov :: governor

definition restrictions_for :: "component \<Rightarrow> policy \<Rightarrow> restrictions" where
  "restrictions_for c p = (case c of Desktop \<Rightarrow> po_desktop p | Scraper \<Rightarrow> po_scraper p)"

definition activate :: "policy \<Rightarrow> policy_store \<Rightarrow> policy_store \<times> (access_error, unit) result" where
  "activate p st =
     (let (g, r) = apply_policy (po_revision p) (po_reason p) (restrictions_for (pt_component st) p) (pt_gov st)
      in (st\<lparr> pt_gov := g \<rparr>, r))"

definition load_policy :: "('k, 's) crypto \<Rightarrow> string \<Rightarrow> string list \<Rightarrow> component \<Rightarrow> policy_file \<Rightarrow> governor
    \<Rightarrow> (access_error, policy_store) result" where
  "load_policy cy key previous component file g =
     (let st = \<lparr> pt_key = key, pt_previous = previous, pt_component = component, pt_file = file,
                 pt_current = None, pt_gov = g \<rparr>
      in case file of
           PfBytes raw \<Rightarrow>
             rbind (verify_cached cy raw key previous) (\<lambda>(envelope, policy).
               let (st, r) = activate policy st
               in rbind r (\<lambda>_. Ok (st\<lparr> pt_current := Some (envelope, policy) \<rparr>)))
         | PfMissing \<Rightarrow> Ok st
         | PfUnreadable \<Rightarrow> Err Persistence)"

text \<open>
  \<open>atomic_write\<close> writes a temporary file, syncs it, renames it over the target and syncs the
  directory: it either succeeds, or fails before the rename, or fails after it.
\<close>

datatype write_end = Written | NotWritten | WrittenUnsynced

definition atomic_write :: "write_end \<Rightarrow> string \<Rightarrow> policy_file \<Rightarrow> policy_file \<times> bool" where
  "atomic_write w raw file =
     (case w of Written \<Rightarrow> (PfBytes raw, True) | NotWritten \<Rightarrow> (file, False)
      | WrittenUnsynced \<Rightarrow> (PfBytes raw, False))"

definition accept_new ::
  "write_end \<Rightarrow> string \<Rightarrow> envelope \<Rightarrow> policy \<Rightarrow> policy_store \<Rightarrow> policy_store \<times> (access_error, unit) result" where
  "accept_new w raw envelope policy st =
     (let (file, ok) = atomic_write w raw (pt_file st);
          st = st\<lparr> pt_file := file \<rparr>
      in if \<not> ok then (st\<lparr> pt_gov := persistence_failed (pt_gov st) \<rparr>, Err Persistence)
         else let (st, r) = activate policy st
              in case r of Err e \<Rightarrow> (st, Err e)
                 | Ok _ \<Rightarrow> (st\<lparr> pt_current := Some (envelope, policy) \<rparr>, Ok ()))"

definition accept :: "('k, 's) crypto \<Rightarrow> write_end \<Rightarrow> string \<Rightarrow> policy_store
    \<Rightarrow> policy_store \<times> (access_error, unit) result" where
  "accept cy w raw st =
     (case verify cy raw (pt_key st) of
        Err e \<Rightarrow> (st, Err e)
      | Ok (envelope, policy) \<Rightarrow>
          (case pt_current st of
             Some (prior_envelope, prior) \<Rightarrow>
               if po_revision policy < po_revision prior
                  \<or> (po_revision policy = po_revision prior
                     \<and> ev_payload envelope \<noteq> ev_payload prior_envelope)
               then (st, Err InvalidPolicy)
               else if po_revision policy = po_revision prior then (st, Ok ())
               else accept_new w raw envelope policy st
           | None \<Rightarrow> accept_new w raw envelope policy st))"

record policy_reply =
  pr_status :: u16
  pr_length :: "u64 option"
  pr_etag :: "string option"
  pr_body :: "string option"     \<comment> \<open>\<open>None\<close>: reading it failed\<close>

definition fetch :: "('k, 's) crypto \<Rightarrow> write_end \<Rightarrow> policy_reply option \<Rightarrow> string option \<Rightarrow> policy_store
    \<Rightarrow> policy_store \<times> string option \<times> (access_error, unit) result" where
  "fetch cy w reply etag st =
     (case reply of
        None \<Rightarrow> (st, etag, Err Transport)
      | Some r \<Rightarrow>
          if pr_status r = 304 \<and> pt_current st \<noteq> None then (st, etag, Ok ())
          else if \<not> (200 \<le> pr_status r \<and> pr_status r < 300)
                  \<or> is_some_and (pr_length r) (\<lambda>n. of_nat MAX_POLICY_BYTES < n)
          then (st, etag, Err InvalidPolicy)
          else case pr_body r of
            None \<Rightarrow> (st, etag, Err Transport)
          | Some body \<Rightarrow>
              let (st, res) = accept cy w (take (MAX_POLICY_BYTES + 1) body) st
              in case res of Err e \<Rightarrow> (st, etag, Err e)
                 | Ok _ \<Rightarrow> (st, opt_filter (\<lambda>t. length t \<le> 512) (pr_etag r), Ok ()))"

section \<open>What a verified policy is\<close>

lemma verify_Ok:
  "verify cy raw key = Ok (e, p) \<Longrightarrow>
     policy_bounded p \<and> restrictions_ok (po_desktop p) \<and> restrictions_ok (po_scraper p)
     \<and> length raw \<le> MAX_POLICY_BYTES"
  by (auto simp: verify_def verify_envelope_def rbind_Ok_iff validate_restrictions_def split: if_splits)

lemma verify_any_Some: "verify_any cy raw ks = Some v \<Longrightarrow> \<exists>k. verify cy raw k = Ok v"
  by (induction ks) (auto split: sum.splits)

lemma verify_cached_Ok: "verify_cached cy raw key ks = Ok v \<Longrightarrow> \<exists>k. verify cy raw k = Ok v"
  by (auto simp: verify_cached_def ok_or_def dest: verify_any_Some split: sum.splits option.splits)

lemma verify_cached_self: "verify cy raw key = Ok v \<Longrightarrow> verify_cached cy raw key ks = Ok v"
  by (simp add: verify_cached_def)

definition policy_ok :: "policy \<Rightarrow> bool" where
  "policy_ok p \<longleftrightarrow> policy_bounded p \<and> restrictions_ok (po_desktop p) \<and> restrictions_ok (po_scraper p)"

lemma verify_policy_ok: "verify cy raw key = Ok (e, p) \<Longrightarrow> policy_ok p"
  by (auto simp: policy_ok_def dest: verify_Ok)

lemma verify_cached_policy_ok: "verify_cached cy raw key ks = Ok (e, p) \<Longrightarrow> policy_ok p"
  by (auto dest: verify_cached_Ok verify_policy_ok)

lemma policy_ok_restrictions [simp]: "policy_ok p \<Longrightarrow> restrictions_ok (restrictions_for c p)"
  by (cases c) (simp_all add: policy_ok_def restrictions_for_def)

lemma policy_ok_revision: "policy_ok p \<Longrightarrow> 0 < po_revision p"
  by (simp add: policy_ok_def policy_bounded_def word_neq_0_conv)

text \<open>The governor runs under this policy.\<close>

definition governed_by :: "policy_store \<Rightarrow> policy \<Rightarrow> bool" where
  "governed_by st p \<longleftrightarrow> as_revision (gv_status (pt_gov st)) = po_revision p
     \<and> as_reason (gv_status (pt_gov st)) = po_reason p
     \<and> restrictions_of (pt_gov st) = restrictions_for (pt_component st) p"

lemma activate_newer:
  assumes "policy_ok p" and "as_revision (gv_status (pt_gov st)) < po_revision p"
  shows "\<exists>g. activate p st = (st\<lparr> pt_gov := g \<rparr>, Ok ()) \<and> governed_by (st\<lparr> pt_gov := g \<rparr>) p"
  using assms by (auto simp: activate_def apply_policy_def validate_restrictions_def governed_by_def
      notify_def map_status_def)

section \<open>The store under every answer of the network and the disk\<close>

text \<open>The store is up to date: the governor and the file agree with the current policy, or are ahead.\<close>

definition store_inv :: "('k, 's) crypto \<Rightarrow> policy_store \<Rightarrow> bool" where
  "store_inv cy st \<longleftrightarrow>
     (case pt_current st of
        None \<Rightarrow> as_revision (gv_status (pt_gov st)) = 0
      | Some (e, p) \<Rightarrow> policy_ok p \<and> governed_by st p
          \<and> (\<exists>raw e' p'. pt_file st = PfBytes raw
               \<and> verify_cached cy raw (pt_key st) (pt_previous st) = Ok (e', p')
               \<and> po_revision p \<le> po_revision p' \<and> (po_revision p' = po_revision p \<longrightarrow> p' = p)))"

definition store_init :: "('k, 's) crypto \<Rightarrow> policy_store \<Rightarrow> bool" where
  "store_init cy st \<longleftrightarrow> (\<exists>key previous component file. file \<noteq> PfUnreadable \<and>
     load_policy cy key previous component file new_governor = Ok st)"

inductive store_step :: "('k, 's) crypto \<Rightarrow> policy_store \<Rightarrow> policy_store \<Rightarrow> bool" for cy where
  step_fetch: "fetch cy w reply etag st = (st', etag', res) \<Longrightarrow> store_step cy st st'"

lemma store_inv_init: "store_init cy st \<Longrightarrow> store_inv cy st"
proof -
  assume "store_init cy st"
  then obtain key previous component pf where
    l: "load_policy cy key previous component pf new_governor = Ok st"
    by (auto simp: store_init_def)
  show ?thesis
  proof (cases pf)
    case (PfBytes raw)
    let ?st = "\<lparr> pt_key = key, pt_previous = previous, pt_component = component, pt_file = pf,
       pt_current = None, pt_gov = new_governor \<rparr>"
    from l PfBytes obtain e p where v: "verify_cached cy raw key previous = Ok (e, p)"
      by (auto simp: load_policy_def rbind_Ok_iff)
    then have ok: "policy_ok p" by (rule verify_cached_policy_ok)
    then have "as_revision (gv_status (pt_gov ?st)) < po_revision p"
      using policy_ok_revision by (simp add: new_governor_def)
    from activate_newer [OF ok this] obtain g where
      "activate p ?st = (?st\<lparr> pt_gov := g \<rparr>, Ok ())" and "governed_by (?st\<lparr> pt_gov := g \<rparr>) p"
      by blast
    with l PfBytes v ok show ?thesis
      by (auto simp: load_policy_def store_inv_def governed_by_def)
  qed (use l in \<open>auto simp: load_policy_def store_inv_def new_governor_def\<close>)
qed

lemma store_inv_new:
  assumes inv: "store_inv cy st" and v: "verify cy raw (pt_key st) = Ok (e, p)"
    and newer: "\<And>e' p'. pt_current st = Some (e', p') \<Longrightarrow> po_revision p' < po_revision p"
  shows "store_inv cy (fst (accept_new w raw e p st))"
proof -
  have ok: "policy_ok p" using v by (rule verify_policy_ok)
  have rev: "as_revision (gv_status (pt_gov st)) < po_revision p"
    using inv newer policy_ok_revision [OF ok]
    by (auto simp: store_inv_def governed_by_def split: option.splits)
  obtain g where "activate p (st\<lparr> pt_file := PfBytes raw \<rparr>) = (st\<lparr> pt_file := PfBytes raw, pt_gov := g \<rparr>, Ok ())"
    and "governed_by (st\<lparr> pt_file := PfBytes raw, pt_gov := g \<rparr>) p"
    using activate_newer [OF ok, of "st\<lparr> pt_file := PfBytes raw \<rparr>"] rev by auto
  moreover note verify_cached_self [OF v, of "pt_previous st"]
  ultimately show ?thesis
    using inv ok newer
    by (cases w) (fastforce simp: accept_new_def atomic_write_def store_inv_def governed_by_def
        persistence_failed_def notify_def Let_def split: option.splits)+
qed

lemma store_inv_accept: "store_inv cy st \<Longrightarrow> store_inv cy (fst (accept cy w raw st))"
  using store_inv_new [of cy st raw]
  by (auto simp: accept_def split: sum.splits option.splits)

lemma store_inv_step: "store_inv cy st \<Longrightarrow> store_step cy st st' \<Longrightarrow> store_inv cy st'"
proof (erule store_step.cases)
  fix w reply etag s s' etag' res
  assume "store_inv cy st" and "st = s" and "st' = s'" and "fetch cy w reply etag s = (s', etag', res)"
  then show "store_inv cy st'"
    using store_inv_accept [of cy s w]
    by (auto simp: fetch_def Let_def split: option.splits if_splits prod.splits sum.splits) (metis fst_conv)+
qed

interpretation store: inductive_invariant "store_init cy" "store_step cy" "store_inv cy" for cy
  by unfold_locales (auto intro: store_inv_init store_inv_step)

section \<open>Properties\<close>

lemma accept_changes:
  assumes "accept cy w raw st = (st', res)"
  shows "pt_current st' = pt_current st \<or>
    (\<exists>e p. pt_current st' = Some (e, p) \<and> verify cy raw (pt_key st) = Ok (e, p) \<and> pt_file st' = PfBytes raw
       \<and> (\<forall>e0 p0. pt_current st = Some (e0, p0) \<longrightarrow> po_revision p0 < po_revision p))"
  using assms
  by (auto simp: accept_def accept_new_def atomic_write_def activate_def Let_def
      split: sum.splits option.splits if_splits write_end.splits prod.splits)

text \<open>The network can only move the policy forward. A fetch either leaves the policy in use as it
  was, or replaces it by one that verifies under the current key (never under a retired one), has a
  greater revision than the one it replaces, and is on disk already.\<close>

lemma fetched_policy_moves_forward:
  assumes "fetch cy w reply etag st = (st', etag', res)"
  shows "pt_current st' = pt_current st \<or>
    (\<exists>raw e p. pt_current st' = Some (e, p) \<and> verify cy raw (pt_key st) = Ok (e, p) \<and> pt_file st' = PfBytes raw
       \<and> (\<forall>e0 p0. pt_current st = Some (e0, p0) \<longrightarrow> po_revision p0 < po_revision p))"
  using assms accept_changes [of cy w _ st]
  by (auto simp: fetch_def Let_def split: option.splits if_splits prod.splits sum.splits) blast+

text \<open>A stand-in verifier for the witnesses: the revision is the length of the payload.\<close>

definition demo_policy :: "u64 \<Rightarrow> policy" where
  "demo_policy revision = \<lparr> po_schema = 1, po_revision = revision, po_issued_at_ms = 1, po_reason = ''calm'',
     po_desktop = default_restrictions, po_scraper = default_restrictions \<rparr>"

definition demo_crypto :: "(string, string) crypto" where
  "demo_crypto = \<lparr> cy_envelope = (\<lambda>raw. Some \<lparr> ev_payload = raw, ev_signature = ''s'' \<rparr>),
     cy_base64 = Some, cy_signature = Some, cy_key = Some,
     cy_verify = (\<lambda>key payload sig. key = ''k''),
     cy_policy = (\<lambda>payload. Some (demo_policy (of_nat (length payload)))) \<rparr>"

definition demo_store :: policy_store where
  "demo_store = \<lparr> pt_key = ''k'', pt_previous = [], pt_component = Desktop, pt_file = PfMissing,
     pt_current = None, pt_gov = new_governor \<rparr>"

definition demo_reply :: policy_reply where
  "demo_reply = \<lparr> pr_status = 200, pr_length = None, pr_etag = Some ''t'', pr_body = Some ''xyz'' \<rparr>"

lemmas demo_policy_eval = demo_store_def demo_crypto_def demo_reply_def demo_policy_def fetch_def accept_def
  accept_new_def atomic_write_def verify_def verify_envelope_def policy_bounded_def validate_restrictions_def
  restrictions_ok_def default_restrictions_def gov_consts MAX_POLICY_BYTES_def activate_def apply_policy_def
  restrictions_for_def new_governor_def notify_def map_status_def

lemma demo_fetch:
  "\<exists>st' etag'. fetch demo_crypto Written (Some demo_reply) None demo_store = (st', etag', Ok ())
     \<and> pt_current st' = Some (\<lparr> ev_payload = ''xyz'', ev_signature = ''s'' \<rparr>, demo_policy 3)"
  by (simp add: demo_policy_eval)

lemma fetched_policy_moves_forward_witness:
  "\<exists>raw e p. verify demo_crypto raw (pt_key demo_store) = Ok (e, p) \<and> p = demo_policy 3"
proof -
  obtain st' etag' where f: "fetch demo_crypto Written (Some demo_reply) None demo_store = (st', etag', Ok ())"
    and c: "pt_current st' = Some (\<lparr> ev_payload = ''xyz'', ev_signature = ''s'' \<rparr>, demo_policy 3)"
    using demo_fetch by blast
  have "pt_current demo_store = None" by (simp add: demo_store_def)
  with fetched_policy_moves_forward [OF f] c show ?thesis by auto
qed

text \<open>The policy in use is enforced and survives a restart. In every reachable state of the store,
  the policy in use is within its bounds, the governor runs under exactly its restrictions, and loading
  the file on disk into a fresh governor succeeds with a policy that is no older: the same one, or a
  newer one whose write was reported as failed.\<close>

lemma policy_survives_restart:
  assumes "reach (store_init cy) (store_step cy) st" and "pt_current st = Some (e, p)"
  shows "policy_bounded p \<and> restrictions_ok (restrictions_for (pt_component st) p) \<and> governed_by st p
    \<and> (\<exists>st' e' p'. load_policy cy (pt_key st) (pt_previous st) (pt_component st) (pt_file st) new_governor = Ok st'
         \<and> pt_current st' = Some (e', p') \<and> governed_by st' p' \<and> po_revision p \<le> po_revision p'
         \<and> (po_revision p' = po_revision p \<longrightarrow> p' = p))"
proof -
  have "store_inv cy st" using store.reach_inv [OF assms(1)] .
  with assms(2) obtain raw e' p' where ok: "policy_ok p" "governed_by st p" and disk: "pt_file st = PfBytes raw"
    and v: "verify_cached cy raw (pt_key st) (pt_previous st) = Ok (e', p')"
    and p': "po_revision p \<le> po_revision p'" "po_revision p' = po_revision p \<longrightarrow> p' = p"
    by (auto simp: store_inv_def)
  let ?st = "\<lparr> pt_key = pt_key st, pt_previous = pt_previous st, pt_component = pt_component st,
     pt_file = pt_file st, pt_current = None, pt_gov = new_governor \<rparr>"
  have "policy_ok p'" using v by (rule verify_cached_policy_ok)
  then obtain g where "activate p' ?st = (?st\<lparr> pt_gov := g \<rparr>, Ok ())" "governed_by (?st\<lparr> pt_gov := g \<rparr>) p'"
    using activate_newer [of p' ?st] policy_ok_revision [of p'] by (auto simp: new_governor_def)
  with ok disk v p' show ?thesis
    by (simp add: load_policy_def policy_ok_def) (simp add: governed_by_def policy_ok_def restrictions_for_def
        split: component.splits)
qed

lemma policy_survives_restart_witness:
  "\<exists>st. pt_current st = Some (\<lparr> ev_payload = ''xyz'', ev_signature = ''s'' \<rparr>, demo_policy 3)
     \<and> governed_by st (demo_policy 3)"
proof -
  obtain st' etag' where f: "fetch demo_crypto Written (Some demo_reply) None demo_store = (st', etag', Ok ())"
    and c: "pt_current st' = Some (\<lparr> ev_payload = ''xyz'', ev_signature = ''s'' \<rparr>, demo_policy 3)"
    using demo_fetch by blast
  have "load_policy demo_crypto ''k'' [] Desktop PfMissing new_governor = Ok demo_store"
    by (simp add: load_policy_def demo_store_def)
  then have "store_init demo_crypto demo_store"
    unfolding store_init_def by (metis policy_file.distinct(1))
  then have "reach (store_init demo_crypto) (store_step demo_crypto) st'"
    using step_fetch [OF f] by (blast intro: reach_step reach_init)
  from policy_survives_restart [OF this c] c show ?thesis by blast
qed

end
