(* ===== verification/Listing.thy ===== *)
theory Listing
  imports Order_Decode Transport
begin

text \<open>
  The order service (\<open>wfm-trading/src/orders/listing.rs\<close>): reading the account's orders, changing one,
  changing the visibility of many, deleting one. \<open>'w\<close> is the world a call runs in: sending a mutation
  takes it to the next state and yields what \<open>send_governed\<close> returns. Formatting that the standard library or
  another crate does is in \<open>fmt\<close>.
\<close>

record fmt =
  fm_debug :: "string \<Rightarrow> string"    \<comment> \<open>\<open>{:?}\<close> of a string\<close>
  fm_json :: "json \<Rightarrow> string"       \<comment> \<open>\<open>Value::to_string\<close>\<close>
  fm_status :: "u16 \<Rightarrow> string"      \<comment> \<open>\<open>StatusCode\<close>'s \<open>Display\<close>\<close>

datatype mutation =
    PostOrder json
  | PatchOrder string json
  | DeleteOrder string

type_synonym 'w send = "mutation \<Rightarrow> 'w \<Rightarrow> (access_error, response) result \<times> 'w"

record per_order_result =
  po_order_id :: string
  po_status :: string
  po_message :: "string option"

text \<open>\<open>body.get("error").map(|v| v.to_string()).unwrap_or_else(\<dots>)\<close>.\<close>

definition error_member :: "fmt \<Rightarrow> json \<Rightarrow> string \<Rightarrow> string" where
  "error_member fm body other = unwrap_or (map_option (fm_json fm) (jget body ''error'')) other"

definition patch_one_order :: "fmt \<Rightarrow> 'w send \<Rightarrow> string \<Rightarrow> json \<Rightarrow> 'w \<Rightarrow> per_order_result \<times> 'w" where
  "patch_one_order fm send ident body w =
     (let (resp, w) = send (PatchOrder ident body) w in
      (case resp of
         Ok r \<Rightarrow>
           if is_success (rp_status r)
           then \<lparr> po_order_id = ident, po_status = STATUS_OK, po_message = None \<rparr>
           else \<lparr> po_order_id = ident, po_status = STATUS_ERROR,
                  po_message = Some (''HTTP '' @ fm_status fm (rp_status r) @ '': ''
                    @ error_member fm (unwrap_or (rp_body r) JNull) ''(no message)'') \<rparr>
       | Err e \<Rightarrow>
           \<lparr> po_order_id = ident, po_status = status_str (outcome_of e), po_message = Some (error_text e) \<rparr>,
       w))"

fun patch_all :: "fmt \<Rightarrow> 'w send \<Rightarrow> json \<Rightarrow> string list \<Rightarrow> 'w \<Rightarrow> per_order_result list \<times> 'w" where
  "patch_all fm send body [] w = ([], w)"
| "patch_all fm send body (i # is) w =
     (let (r, w) = patch_one_order fm send i body w; (rs, w) = patch_all fm send body is w in (r # rs, w))"

text \<open>\<open>client_error\<close>: why the HTTP client could not be built, if it could not.\<close>

definition bulk_set_visibility ::
  "fmt \<Rightarrow> 'w send \<Rightarrow> string option \<Rightarrow> string list \<Rightarrow> bool \<Rightarrow> 'w \<Rightarrow> per_order_result list \<times> 'w" where
  "bulk_set_visibility fm send client_error order_ids visible w =
     (case client_error of
        Some e \<Rightarrow> (map (\<lambda>i. \<lparr> po_order_id = i, po_status = STATUS_ERROR, po_message = Some (''client: '' @ e) \<rparr>)
                    order_ids, w)
      | None \<Rightarrow> patch_all fm send (JObj [(''visible'', JBool visible)]) order_ids w)"

record update_request =
  up_platinum :: "u32 option"
  up_quantity :: "u32 option"
  up_visible :: "bool option"
  up_rank :: "u32 option"

definition update_body :: "update_request \<Rightarrow> (string \<times> json) list" where
  "update_body upd =
     opt_member ''platinum'' (\<lambda>v. JPosInt (ucast v)) (up_platinum upd)
     @ opt_member ''quantity'' (\<lambda>v. JPosInt (ucast v)) (up_quantity upd)
     @ opt_member ''visible'' JBool (up_visible upd)
     @ opt_member ''rank'' (\<lambda>v. JPosInt (ucast v)) (up_rank upd)"

definition update_order ::
  "fmt \<Rightarrow> 'w send \<Rightarrow> string option \<Rightarrow> string \<Rightarrow> update_request \<Rightarrow> 'w
   \<Rightarrow> (string, per_order_result) result \<times> 'w" where
  "update_order fm send client_error ident upd w =
     (case client_error of
        Some e \<Rightarrow> (Err e, w)
      | None \<Rightarrow>
          if update_body upd = [] then (Err ''update body has no fields to patch'', w)
          else let (r, w) = patch_one_order fm send ident (JObj (update_body upd)) w in (Ok r, w))"

definition delete_order ::
  "fmt \<Rightarrow> 'w send \<Rightarrow> string option \<Rightarrow> string \<Rightarrow> 'w \<Rightarrow> (string, unit) result \<times> 'w" where
  "delete_order fm send client_error ident w =
     (case client_error of
        Some e \<Rightarrow> (Err e, w)
      | None \<Rightarrow>
          let (resp, w) = send (DeleteOrder ident) w in
          (case resp of
             Err _ \<Rightarrow> Err ''DELETE request failed''
           | Ok r \<Rightarrow>
               if is_success (rp_status r) then Ok ()
               else let body = unwrap_or (rp_text r) ''''; cut = back_to_boundary body (min (length body) 300)
                    in Err (''WFM HTTP '' @ fm_status fm (rp_status r) @ '': '' @ take cut body),
           w))"

text \<open>
  Reading the account's orders: \<open>fetch\<close> is the governed, fresh read of the response body. A plan decodes
  what \<open>list_user_orders\<close> has already decoded and rendered.
\<close>

definition list_user_orders :: "fmt \<Rightarrow> unlocked \<Rightarrow> (string, json) result \<Rightarrow> (string, json) result" where
  "list_user_orders fm u fetched =
     rbind fetched (\<lambda>body. rbind (decode_user_orders (fm_json fm) (fm_debug fm) u body) (\<lambda>decoded.
       Ok (orders_body decoded u)))"

definition read_current_orders :: "fmt \<Rightarrow> unlocked \<Rightarrow> (string, json) result \<Rightarrow> (string, decoded_orders) result" where
  "read_current_orders fm u fetched =
     rbind (list_user_orders fm u fetched) (decode_user_orders (fm_json fm) (fm_debug fm) u)"

lemma patch_one_order_status:
  "patch_one_order fm send i body w = (r, w') \<Longrightarrow>
     po_order_id r = i \<and> (po_status r = STATUS_OK \<longleftrightarrow> (\<exists>x. fst (send (PatchOrder i body) w) = Ok x \<and> is_success (rp_status x)))"
  by (auto simp: patch_one_order_def split: sum.splits prod.splits if_splits)

lemma read_current_orders_once:
  "read_current_orders fm u fetched = rbind fetched (decode_user_orders (fm_json fm) (fm_debug fm) u)"
proof (cases "rbind fetched (decode_user_orders (fm_json fm) (fm_debug fm) u)")
  case (Inl e)
  then show ?thesis
    by (auto simp: read_current_orders_def list_user_orders_def rbind_def split: sum.splits)
next
  case (Inr orders)
  then obtain body where body: "fetched = Ok body" "decode_user_orders (fm_json fm) (fm_debug fm) u body = Ok orders"
    by (auto simp: rbind_Ok_iff)
  then obtain rows ns where "orders = map Supported ns" and "rows_mean (catalog_accepts u) rows ns"
    unfolding decode_user_orders_def decode_orders_Ok by blast
  then have "decode_user_orders (fm_json fm) (fm_debug fm) u (orders_body orders u) = Ok orders"
    unfolding decode_user_orders_def by (auto intro: decode_orders_body dest: rows_mean_wf)
  with body show ?thesis
    by (simp add: read_current_orders_def list_user_orders_def)
qed

section \<open>Properties\<close>

text \<open>Changing many orders answers for each of them: one result per order, in the order asked, each
  naming its order, whatever the network does.\<close>

lemma bulk_visibility_answers_each:
  "map po_order_id (fst (bulk_set_visibility fm send client_error order_ids visible w)) = order_ids"
proof -
  have "map po_order_id (fst (patch_all fm send body is w)) = is" for body "is" w
    by (induction fm send body "is" w rule: patch_all.induct)
      (auto simp: split_def patch_one_order_def Let_def split: sum.splits prod.splits)
  then show ?thesis
    by (auto simp: bulk_set_visibility_def comp_def split: option.splits)
qed

text \<open>The orders a plan reconciles against are the market's: reading them through
  \<open>list_user_orders\<close>, which renders what it decoded, and decoding that again is the same as decoding the
  market's response once, errors included.\<close>

lemma current_orders_are_the_markets:
  "read_current_orders fm u fetched = rbind fetched (decode_user_orders (fm_json fm) (fm_debug fm) u)"
  by (rule read_current_orders_once)

end
