(* ===== verification/Pending.thy ===== *)
theory Pending
  imports Outcome Json
begin

text \<open>
  The crash-recovery journal of a listing batch (\<open>wfm-trading/src/orders/pending.rs\<close>): the saved plan,
  its JSON encoding as serde derives it, and the file that holds it. \<open>PlanItem\<close>, \<open>SessionConstraint\<close> and
  \<open>ReviewedOrder\<close> of \<open>orders/plan.rs\<close> are part of the saved plan; a \<open>PendingItem\<close> is a \<open>PlanItem\<close> with its
  progress, so the conversion between the two is the record's own truncation.

  A file holds bytes. \<open>disk\<close> is the journal's file: what a read finds now, and what a power loss at
  this moment may leave. The directory is synced only where the source compiles it (\<open>cfg(unix)\<close>, the field
  \<open>dk_unix\<close>): elsewhere a power loss can bring an older journal back. The text of JSON is not the repository's: \<open>to_vec\<close> and \<open>from_slice\<close> are
  parameters, with the one law \<open>from_slice (to_vec v) = Some v\<close>.
\<close>

section \<open>Data\<close>

record session_constraint =
  sc_snapshot_id :: s64
  sc_utc_day :: s64
  sc_budget :: u32

datatype reviewed_order =
    NewOrder
  | ExistingOrder (ro_id: string) (ro_platinum: u64) (ro_quantity: u64) (ro_per_trade: "u64 option")
      (ro_visible: bool)

record plan_item =
  it_inventory_snapshot_id :: "s64 option"
  it_slug :: string
  it_platinum :: u32
  it_quantity :: u32
  it_per_trade :: "u32 option"
  it_session :: "session_constraint option"
  it_reviewed_order :: "reviewed_order option"
  it_order_type :: string
  it_visible :: bool
  it_rank :: "u32 option"
  it_subtype :: "string option"
  it_reference_low_sell :: "u32 option"

record pending_item = plan_item +
  pi_status :: string
  pi_message :: "string option"
  pi_order_id :: "string option"
  pi_action :: "string option"

record pending_plan =
  pp_plan_id :: string
  pp_started_at :: string
  pp_items :: "pending_item list"

definition is_finished :: "pending_plan \<Rightarrow> bool" where
  "is_finished plan \<longleftrightarrow> list_all (\<lambda>item. pi_status item = STATUS_OK \<or> pi_status item = STATUS_ERROR) (pp_items plan)"

section \<open>The encoding\<close>

definition opt_json_of :: "('a \<Rightarrow> json) \<Rightarrow> 'a option \<Rightarrow> json" where
  "opt_json_of f x = (case x of None \<Rightarrow> JNull | Some a \<Rightarrow> f a)"

lemma opt_json_of_simps [simp]: "opt_json_of f None = JNull" "opt_json_of f (Some a) = f a"
  by (simp_all add: opt_json_of_def)

definition json_of_u32 :: "u32 \<Rightarrow> json" where
  "json_of_u32 n = JPosInt (ucast n)"

definition json_of_i64 :: "s64 \<Rightarrow> json" where
  "json_of_i64 i = (if 0 \<le> sint i then JPosInt i else JNegInt (sint i))"

definition session_json :: "session_constraint \<Rightarrow> json" where
  "session_json s = JObj [(''snapshot_id'', json_of_i64 (sc_snapshot_id s)),
     (''utc_day'', json_of_i64 (sc_utc_day s)), (''budget'', json_of_u32 (sc_budget s))]"

fun reviewed_json :: "reviewed_order \<Rightarrow> json" where
  "reviewed_json NewOrder = JObj [(''state'', JStr ''new'')]"
| "reviewed_json (ExistingOrder i p q t v) =
     JObj [(''state'', JStr ''existing''), (''id'', JStr i), (''platinum'', JPosInt p), (''quantity'', JPosInt q),
       (''per_trade'', opt_json_of JPosInt t), (''visible'', JBool v)]"

definition item_members :: "pending_item \<Rightarrow> (string \<times> json) list" where
  "item_members i =
     opt_member ''inventory_snapshot_id'' json_of_i64 (it_inventory_snapshot_id i)
     @ [(''slug'', JStr (it_slug i)), (''platinum'', json_of_u32 (it_platinum i)),
        (''quantity'', json_of_u32 (it_quantity i))]
     @ opt_member ''per_trade'' json_of_u32 (it_per_trade i)
     @ opt_member ''session'' session_json (it_session i)
     @ opt_member ''reviewed_order'' reviewed_json (it_reviewed_order i)
     @ [(''order_type'', JStr (it_order_type i)), (''visible'', JBool (it_visible i)),
        (''rank'', opt_json_of json_of_u32 (it_rank i)), (''subtype'', opt_json_of JStr (it_subtype i)),
        (''reference_low_sell'', opt_json_of json_of_u32 (it_reference_low_sell i)),
        (''status'', JStr (pi_status i)), (''message'', opt_json_of JStr (pi_message i)),
        (''order_id'', opt_json_of JStr (pi_order_id i)), (''action'', opt_json_of JStr (pi_action i))]"

definition item_json :: "pending_item \<Rightarrow> json" where
  "item_json i = JObj (item_members i)"

definition plan_json :: "pending_plan \<Rightarrow> json" where
  "plan_json p = JObj [(''plan_id'', JStr (pp_plan_id p)), (''started_at'', JStr (pp_started_at p)),
     (''items'', JArr (map item_json (pp_items p)))]"

section \<open>The decoding\<close>

text \<open>
  A derived \<open>Deserialize\<close>: a required field has to be there, an \<open>Option\<close> field is \<open>None\<close> when it is absent
  or null, an unknown field is ignored and a known one must not appear twice. (Serde would also take a
  struct from an array of its fields, which the code never writes.)
\<close>

definition fields_once :: "string list \<Rightarrow> (string \<times> json) list \<Rightarrow> bool" where
  "fields_once known ms \<longleftrightarrow> distinct (filter (\<lambda>k. k \<in> set known) (map fst ms))"

definition req_field :: "(json \<Rightarrow> 'a option) \<Rightarrow> (string \<times> json) list \<Rightarrow> string \<Rightarrow> 'a option" where
  "req_field f ms key = Option.bind (map_of ms key) f"

definition opt_field :: "(json \<Rightarrow> 'a option) \<Rightarrow> (string \<times> json) list \<Rightarrow> string \<Rightarrow> 'a option option" where
  "opt_field f ms key =
     (case map_of ms key of None \<Rightarrow> Some None
      | Some v \<Rightarrow> if is_null v then Some None else map_option Some (f v))"

definition u32_of_json :: "json \<Rightarrow> u32 option" where
  "u32_of_json v = Option.bind (as_u64 v) u32_of_u64"

definition i64_of_json :: "json \<Rightarrow> s64 option" where
  "i64_of_json v = (case v of
     JPosInt n \<Rightarrow> if uint n < 2 ^ 63 then Some n else None
   | JNegInt i \<Rightarrow> Some (of_int i)
   | _ \<Rightarrow> None)"

definition members :: "json \<Rightarrow> (string \<times> json) list option" where
  "members v = (case v of JObj ms \<Rightarrow> Some ms | _ \<Rightarrow> None)"

definition session_of_json :: "json \<Rightarrow> session_constraint option" where
  "session_of_json v = do {
     ms \<leftarrow> members v;
     snapshot_id \<leftarrow> req_field i64_of_json ms ''snapshot_id'';
     utc_day \<leftarrow> req_field i64_of_json ms ''utc_day'';
     budget \<leftarrow> req_field u32_of_json ms ''budget'';
     if fields_once [''snapshot_id'', ''utc_day'', ''budget''] ms
     then Some \<lparr> sc_snapshot_id = snapshot_id, sc_utc_day = utc_day, sc_budget = budget \<rparr> else None }"

definition reviewed_of_json :: "json \<Rightarrow> reviewed_order option" where
  "reviewed_of_json v = do {
     ms \<leftarrow> members v;
     state \<leftarrow> req_field as_str ms ''state'';
     if \<not> fields_once [''state''] ms then None
     else if state = ''new'' then Some NewOrder
     else if state = ''existing'' then do {
       i \<leftarrow> req_field as_str ms ''id'';
       p \<leftarrow> req_field as_u64 ms ''platinum'';
       q \<leftarrow> req_field as_u64 ms ''quantity'';
       t \<leftarrow> opt_field as_u64 ms ''per_trade'';
       v \<leftarrow> req_field as_bool ms ''visible'';
       if fields_once [''id'', ''platinum'', ''quantity'', ''per_trade'', ''visible''] ms
       then Some (ExistingOrder i p q t v) else None }
     else None }"

definition item_fields :: "string list" where
  "item_fields = [''inventory_snapshot_id'', ''slug'', ''platinum'', ''quantity'', ''per_trade'', ''session'',
     ''reviewed_order'', ''order_type'', ''visible'', ''rank'', ''subtype'', ''reference_low_sell'', ''status'',
     ''message'', ''order_id'', ''action'']"

definition item_of_json :: "json \<Rightarrow> pending_item option" where
  "item_of_json v = do {
     ms \<leftarrow> members v;
     snapshot \<leftarrow> opt_field i64_of_json ms ''inventory_snapshot_id'';
     slug \<leftarrow> req_field as_str ms ''slug'';
     platinum \<leftarrow> req_field u32_of_json ms ''platinum'';
     quantity \<leftarrow> req_field u32_of_json ms ''quantity'';
     per_trade \<leftarrow> opt_field u32_of_json ms ''per_trade'';
     session \<leftarrow> opt_field session_of_json ms ''session'';
     reviewed \<leftarrow> opt_field reviewed_of_json ms ''reviewed_order'';
     order_type \<leftarrow> req_field as_str ms ''order_type'';
     visible \<leftarrow> req_field as_bool ms ''visible'';
     rank \<leftarrow> opt_field u32_of_json ms ''rank'';
     subtype \<leftarrow> opt_field as_str ms ''subtype'';
     low \<leftarrow> opt_field u32_of_json ms ''reference_low_sell'';
     status \<leftarrow> req_field as_str ms ''status'';
     message \<leftarrow> opt_field as_str ms ''message'';
     order_id \<leftarrow> opt_field as_str ms ''order_id'';
     action \<leftarrow> opt_field as_str ms ''action'';
     if fields_once item_fields ms
     then Some \<lparr> it_inventory_snapshot_id = snapshot, it_slug = slug, it_platinum = platinum,
       it_quantity = quantity, it_per_trade = per_trade, it_session = session, it_reviewed_order = reviewed,
       it_order_type = order_type, it_visible = visible, it_rank = rank, it_subtype = subtype,
       it_reference_low_sell = low, pi_status = status, pi_message = message, pi_order_id = order_id,
       pi_action = action \<rparr>
     else None }"

fun all_some :: "'a option list \<Rightarrow> 'a list option" where
  "all_some [] = Some []"
| "all_some (x # xs) = do { a \<leftarrow> x; as \<leftarrow> all_some xs; Some (a # as) }"

definition plan_of_json :: "json \<Rightarrow> pending_plan option" where
  "plan_of_json v = do {
     ms \<leftarrow> members v;
     plan_id \<leftarrow> req_field as_str ms ''plan_id'';
     started_at \<leftarrow> req_field as_str ms ''started_at'';
     items \<leftarrow> req_field (\<lambda>w. do { xs \<leftarrow> as_array w; all_some (map item_of_json xs) }) ms ''items'';
     if fields_once [''plan_id'', ''started_at'', ''items''] ms
     then Some \<lparr> pp_plan_id = plan_id, pp_started_at = started_at, pp_items = items \<rparr> else None }"

section \<open>The round trip\<close>

lemma u32_json [simp]: "u32_of_json (json_of_u32 n) = Some n" "\<not> is_null (json_of_u32 n)"
proof -
  have "unat n < 2 ^ 32" using unsigned_less [of n] by simp
  then show "u32_of_json (json_of_u32 n) = Some n" "\<not> is_null (json_of_u32 n)"
    by (simp_all add: u32_of_json_def json_of_u32_def u32_of_u64_def unsigned_ucast_eq take_bit_nat_eq_self
        take_bit_word_eq_self)
qed

lemma i64_json [simp]: "i64_of_json (json_of_i64 i) = Some i" "\<not> is_null (json_of_i64 i)"
proof -
  have "0 \<le> sint i \<Longrightarrow> uint i < 2 ^ 63" by (rule sint_nonneg_uint)
  then show "i64_of_json (json_of_i64 i) = Some i" "\<not> is_null (json_of_i64 i)"
    by (auto simp: i64_of_json_def json_of_i64_def is_null_def)
qed

lemma session_json_back [simp]:
  "session_of_json (session_json s) = Some s" "\<not> is_null (session_json s)"
  by (simp_all add: session_of_json_def session_json_def members_def req_field_def fields_once_def)

lemma reviewed_json_back [simp]:
  "reviewed_of_json (reviewed_json r) = Some r" "\<not> is_null (reviewed_json r)"
  by (cases r; simp add: reviewed_of_json_def members_def req_field_def opt_field_def fields_once_def
      opt_json_of_def split: option.splits)+

lemma opt_field_json [simp]:
  assumes "map_of ms key = Some (opt_json_of f x)" and "\<And>a. \<not> is_null (f a)"
    and "\<And>a. x = Some a \<Longrightarrow> g (f a) = Some a"
  shows "opt_field g ms key = Some x"
  using assms by (cases x) (simp_all add: opt_field_def)

lemma opt_field_member:
  assumes "map_of ms key = map_option f x" and "\<And>a. \<not> is_null (f a)"
    and "\<And>a. x = Some a \<Longrightarrow> g (f a) = Some a"
  shows "opt_field g ms key = Some x"
  using assms by (cases x) (simp_all add: opt_field_def)

lemma map_of_opt_member: "map_of (opt_member k f x @ ms) key =
    (if key = k \<and> x \<noteq> None then map_option f x else map_of ms key)"
  by (cases x) simp_all

lemma distinct_keys_opt_member:
  "map fst (opt_member k f x @ ms) = (if x = None then [] else [k]) @ map fst ms"
  by (cases x) simp_all

lemma item_members_once: "fields_once item_fields (item_members i)"
  by (simp add: item_members_def fields_once_def item_fields_def distinct_keys_opt_member del: map_append)

lemma item_members_fields:
  "map_of (item_members i) ''inventory_snapshot_id'' = map_option json_of_i64 (it_inventory_snapshot_id i)"
  "map_of (item_members i) ''slug'' = Some (JStr (it_slug i))"
  "map_of (item_members i) ''platinum'' = Some (json_of_u32 (it_platinum i))"
  "map_of (item_members i) ''quantity'' = Some (json_of_u32 (it_quantity i))"
  "map_of (item_members i) ''per_trade'' = map_option json_of_u32 (it_per_trade i)"
  "map_of (item_members i) ''session'' = map_option session_json (it_session i)"
  "map_of (item_members i) ''reviewed_order'' = map_option reviewed_json (it_reviewed_order i)"
  "map_of (item_members i) ''order_type'' = Some (JStr (it_order_type i))"
  "map_of (item_members i) ''visible'' = Some (JBool (it_visible i))"
  "map_of (item_members i) ''rank'' = Some (opt_json_of json_of_u32 (it_rank i))"
  "map_of (item_members i) ''subtype'' = Some (opt_json_of JStr (it_subtype i))"
  "map_of (item_members i) ''reference_low_sell'' = Some (opt_json_of json_of_u32 (it_reference_low_sell i))"
  "map_of (item_members i) ''status'' = Some (JStr (pi_status i))"
  "map_of (item_members i) ''message'' = Some (opt_json_of JStr (pi_message i))"
  "map_of (item_members i) ''order_id'' = Some (opt_json_of JStr (pi_order_id i))"
  "map_of (item_members i) ''action'' = Some (opt_json_of JStr (pi_action i))"
  unfolding item_members_def by (simp_all add: map_of_opt_member del: map_of_append)

lemma item_json_back [simp]: "item_of_json (item_json i) = Some i"
proof -
  define ms where "ms = item_members i"
  note fields = item_members_fields [of i, folded ms_def]
  have "opt_field i64_of_json ms ''inventory_snapshot_id'' = Some (it_inventory_snapshot_id i)"
    by (rule opt_field_member [OF fields(1)]) auto
  moreover have "opt_field u32_of_json ms ''per_trade'' = Some (it_per_trade i)"
    by (rule opt_field_member [OF fields(5)]) auto
  moreover have "opt_field session_of_json ms ''session'' = Some (it_session i)"
    by (rule opt_field_member [OF fields(6)]) auto
  moreover have "opt_field reviewed_of_json ms ''reviewed_order'' = Some (it_reviewed_order i)"
    by (rule opt_field_member [OF fields(7)]) auto
  ultimately show ?thesis
    using item_members_once [of i]
    by (simp add: item_of_json_def item_json_def members_def req_field_def fields(2-4,8-) flip: ms_def)
qed

lemma all_some_map: "(\<And>x. x \<in> set xs \<Longrightarrow> f (g x) = Some x) \<Longrightarrow> all_some (map f (map g xs)) = Some xs"
  by (induction xs) auto

lemma plan_json_back: "plan_of_json (plan_json p) = Some p"
  by (simp add: plan_of_json_def plan_json_def members_def req_field_def fields_once_def all_some_map del: map_map)

section \<open>The journal's file\<close>

record disk =
  dk_now :: "string option"            \<comment> \<open>the bytes of the journal, if it exists\<close>
  dk_crash :: "string option list"     \<comment> \<open>what may be there after a power loss\<close>
  dk_unix :: bool                      \<comment> \<open>built for Unix\<close>

text \<open>Where a write of the journal stops. The text is that of the operating system's error.\<close>

datatype write_fault =
    NoFault
  | FailTmp string         \<comment> \<open>creating or filling the temporary file\<close>
  | FailOpen string        \<comment> \<open>opening it again to sync it\<close>
  | FailSync
  | FailRename string
  | FailDirOpen string     \<comment> \<open>opening the directory, after the rename\<close>
  | FailDirSync

text \<open>
  Up to the rename the journal is untouched. After it a read finds the new bytes, and until the
  directory is synced a power loss may bring the old ones back. The sync of the directory is under \<open>cfg(unix)\<close>.
\<close>

definition renamed :: "string \<Rightarrow> disk \<Rightarrow> disk" where
  "renamed bytes d = d\<lparr> dk_now := Some bytes, dk_crash := Some bytes # dk_crash d \<rparr>"

definition dir_synced :: "disk \<Rightarrow> disk" where
  "dir_synced d = d\<lparr> dk_crash := [dk_now d] \<rparr>"

definition write_pending_atomic :: "(json \<Rightarrow> string) \<Rightarrow> write_fault \<Rightarrow> pending_plan \<Rightarrow> disk
    \<Rightarrow> disk \<times> (string, unit) result" where
  "write_pending_atomic to_vec fault plan d =
     (let bytes = to_vec (plan_json plan) in
      case fault of
        FailTmp e \<Rightarrow> (d, Err e)
      | FailOpen e \<Rightarrow> (d, Err e)
      | FailSync \<Rightarrow> (d, Err ''syncing pending-plan contents'')
      | FailRename e \<Rightarrow> (d, Err e)
      | FailDirOpen e \<Rightarrow> (renamed bytes d, if dk_unix d then Err e else Ok ())
      | FailDirSync \<Rightarrow> (renamed bytes d, if dk_unix d then Err ''syncing pending-plan directory'' else Ok ())
      | NoFault \<Rightarrow> (if dk_unix d then dir_synced (renamed bytes d) else renamed bytes d, Ok ()))"

datatype pending_store_error = Unreadable string | Undeletable string

definition store_error_text :: "pending_store_error \<Rightarrow> string" where
  "store_error_text e = (case e of
     Unreadable detail \<Rightarrow> ''the saved batch could not be read: '' @ detail
   | Undeletable detail \<Rightarrow> ''the saved batch could not be removed: '' @ detail)"

datatype journal_state = Absent | Finished | Unfinished | UnreadableJournal string

definition plan_of_bytes :: "(string \<Rightarrow> json option) \<Rightarrow> string \<Rightarrow> pending_plan option" where
  "plan_of_bytes from_slice bytes = Option.bind (from_slice bytes) plan_of_json"

text \<open>\<open>read_error\<close>: what \<open>fs::read\<close> fails with although the file is there, if it does.\<close>

definition load_pending :: "(string \<Rightarrow> json option) \<Rightarrow> string option \<Rightarrow> disk
    \<Rightarrow> (pending_store_error, pending_plan option) result" where
  "load_pending from_slice read_error d =
     (case dk_now d of
        None \<Rightarrow> Ok None
      | Some bytes \<Rightarrow> (case read_error of
          Some e \<Rightarrow> Err (Unreadable e)
        | None \<Rightarrow> (case plan_of_bytes from_slice bytes of
            Some plan \<Rightarrow> Ok (Some plan)
          | None \<Rightarrow> Err (Unreadable ''not a readable batch''))))"

definition journal_state :: "(string \<Rightarrow> json option) \<Rightarrow> string option \<Rightarrow> disk \<Rightarrow> journal_state" where
  "journal_state from_slice read_error d =
     (case load_pending from_slice read_error d of
        Ok None \<Rightarrow> Absent
      | Ok (Some plan) \<Rightarrow> if is_finished plan then Finished else Unfinished
      | Err e \<Rightarrow> UnreadableJournal (store_error_text e))"

definition clear_pending :: "string option \<Rightarrow> disk \<Rightarrow> disk \<times> (pending_store_error, unit) result" where
  "clear_pending remove_error d =
     (if dk_now d = None then (d, Ok ())
      else case remove_error of
        Some e \<Rightarrow> (d, Err (Undeletable e))
      | None \<Rightarrow> (d\<lparr> dk_now := None, dk_crash := None # dk_crash d \<rparr>, Ok ()))"

definition clear_finished_pending :: "(string \<Rightarrow> json option) \<Rightarrow> string option \<Rightarrow> string option
    \<Rightarrow> pending_plan \<Rightarrow> disk \<Rightarrow> disk \<times> (pending_store_error, unit) result" where
  "clear_finished_pending from_slice read_error remove_error plan d =
     (if \<not> is_finished plan then (d, Ok ())
      else case load_pending from_slice read_error d of
        Err e \<Rightarrow> (d, Err e)
      | Ok None \<Rightarrow> (d, Ok ())
      | Ok (Some saved) \<Rightarrow>
          if pp_plan_id saved = pp_plan_id plan \<and> is_finished saved
          then clear_pending remove_error d else (d, Ok ()))"

lemma plan_of_bytes_json:
  "from_slice (to_vec (plan_json p)) = Some (plan_json p) \<Longrightarrow>
     plan_of_bytes from_slice (to_vec (plan_json p)) = Some p"
  by (simp add: plan_of_bytes_def plan_json_back)

lemma write_pending_Ok:
  "write_pending_atomic to_vec f p d = (d', Ok ()) \<longleftrightarrow>
     (f = NoFault \<or> \<not> dk_unix d \<and> f \<in> insert FailDirSync (range FailDirOpen))
     \<and> d' = d\<lparr> dk_now := Some (to_vec (plan_json p)),
               dk_crash := Some (to_vec (plan_json p)) # (if dk_unix d then [] else dk_crash d) \<rparr>"
  by (auto simp: write_pending_atomic_def renamed_def dir_synced_def Let_def split: write_fault.splits if_splits)

lemma write_pending_platform: "write_pending_atomic to_vec f p d = (d', r) \<Longrightarrow> dk_unix d' = dk_unix d"
  by (auto simp: write_pending_atomic_def renamed_def dir_synced_def Let_def split: write_fault.splits if_splits)

text \<open>
  What a read may find after a crash: of the process alone what is there now, and on Unix, where the power may fail
  too, what that leaves.
\<close>

definition crash_leaves :: "disk \<Rightarrow> string option list" where
  "crash_leaves d = dk_now d # (if dk_unix d then dk_crash d else [])"

lemma write_pending_crash:
  "write_pending_atomic to_vec f p d = (d', r) \<Longrightarrow>
     set (crash_leaves d') \<subseteq> insert (Some (to_vec (plan_json p))) (set (crash_leaves d))"
  by (auto simp: write_pending_atomic_def renamed_def dir_synced_def crash_leaves_def Let_def
      split: write_fault.splits if_splits)

section \<open>Properties\<close>

text \<open>C21: A journal that was written without error is read back exactly: every field of every item, the optional
  ones included, survives the encoding. It is read back at once and after a crash of the process on every platform, and
  after a power loss on Unix, where the directory is synced; elsewhere a power loss leaves it or something that was
  possible before the write, and never a part of it.\<close>

theorem written_journal_reads_back:
  assumes "\<And>v. from_slice (to_vec v) = Some v"
    and "write_pending_atomic to_vec fault p d = (d', Ok ())"
  shows "load_pending from_slice None d' = Ok (Some p)
    \<and> (\<forall>content\<in>set (crash_leaves d'). load_pending from_slice None (d'\<lparr> dk_now := content \<rparr>) = Ok (Some p))
    \<and> (\<forall>content\<in>set (dk_crash d'). content \<in> set (dk_crash d) \<and> \<not> dk_unix d
         \<or> load_pending from_slice None (d'\<lparr> dk_now := content \<rparr>) = Ok (Some p))"
  using assms plan_of_bytes_json [of from_slice to_vec p]
  by (auto simp: write_pending_Ok load_pending_def crash_leaves_def)

definition demo_item :: "string \<Rightarrow> string \<Rightarrow> pending_item" where
  "demo_item slug st = \<lparr> it_inventory_snapshot_id = Some 7, it_slug = slug, it_platinum = 20, it_quantity = 2,
     it_per_trade = None, it_session = Some \<lparr> sc_snapshot_id = - 3, sc_utc_day = 20000, sc_budget = 8 \<rparr>,
     it_reviewed_order = Some (ExistingOrder ''o'' 20 2 None True), it_order_type = ''sell'',
     it_visible = False, it_rank = Some 0, it_subtype = None, it_reference_low_sell = Some 18,
     pi_status = st, pi_message = None, pi_order_id = Some ''o'', pi_action = None \<rparr>"

definition demo_plan :: pending_plan where
  "demo_plan = \<lparr> pp_plan_id = ''abc'', pp_started_at = ''t'',
     pp_items = [demo_item ''x'' STATUS_OK, demo_item ''y'' STATUS_PENDING] \<rparr>"

definition demo_disk :: disk where
  "demo_disk = \<lparr> dk_now = None, dk_crash = [None], dk_unix = True \<rparr>"

lemma demo_write:
  "write_pending_atomic unary_print NoFault demo_plan demo_disk =
     (\<lparr> dk_now = Some (unary_print (plan_json demo_plan)), dk_crash = [Some (unary_print (plan_json demo_plan))],
        dk_unix = True \<rparr>, Ok ())"
  by (simp add: write_pending_Ok demo_disk_def)

theorem written_journal_reads_back_witness:
  "load_pending unary_parse None (fst (write_pending_atomic unary_print NoFault demo_plan demo_disk))
     = Ok (Some demo_plan)"
  using written_journal_reads_back [OF unary_parse_print demo_write]
  by (simp add: demo_write)

text \<open>Writing the journal is atomic whatever fails: the bytes a read finds are the old ones or the new
  ones, and so is what a power loss leaves; after a success on Unix only the new ones, and an error before the
  rename leaves the journal untouched.\<close>

lemma journal_write_is_atomic:
  assumes "write_pending_atomic to_vec fault plan d = (d', res)"
  shows "dk_now d' \<in> {dk_now d, Some (to_vec (plan_json plan))}
    \<and> set (dk_crash d') \<subseteq> insert (Some (to_vec (plan_json plan))) (set (dk_crash d))
    \<and> (if is_ok res then dk_now d' = Some (to_vec (plan_json plan)) \<and> (dk_unix d \<longrightarrow> dk_crash d' = [dk_now d'])
       else fault \<in> {FailDirSync} \<union> range FailDirOpen \<or> d' = d)"
  using assms
  by (auto simp: write_pending_atomic_def renamed_def dir_synced_def Let_def split: write_fault.splits if_splits)

lemma journal_write_is_atomic_witness:
  "set (dk_crash (fst (write_pending_atomic unary_print FailDirSync demo_plan demo_disk)))
     \<subseteq> {Some (unary_print (plan_json demo_plan)), None}"
  using journal_write_is_atomic [of unary_print FailDirSync demo_plan demo_disk]
  by (simp add: write_pending_atomic_def renamed_def demo_disk_def Let_def)

text \<open>Clean-up never loses an unresolved outcome. After \<open>clear_finished_pending\<close> the journal is as it
  was, unless the record on disk itself could be read, belongs to this very batch and has only confirmed
  outcomes; what the caller believes in memory is not enough.\<close>

lemma clearing_keeps_unresolved_records:
  "dk_now (fst (clear_finished_pending from_slice read_error remove_error plan d)) = dk_now d
   \<or> (\<exists>bytes saved. dk_now d = Some bytes \<and> plan_of_bytes from_slice bytes = Some saved
        \<and> pp_plan_id saved = pp_plan_id plan \<and> list_all (\<lambda>item. pi_status item = STATUS_OK \<or> pi_status item = STATUS_ERROR) (pp_items saved))"
  by (auto simp: clear_finished_pending_def load_pending_def clear_pending_def is_finished_def
      split: option.splits)

end
