(* ===== verification/Plan.thy ===== *)
theory Plan
  imports Listing Pending
begin

text \<open>
  One item of a bulk-listing plan (\<open>wfm-trading/src/orders/plan.rs\<close>): lots, the index of existing orders,
  the order an item would occupy, the bodies sent to the market, and \<open>execute_one\<close>, which checks an item,
  reconciles it against the account's orders and creates or updates one order. The loop over a whole plan
  is in \<open>Plan_Run\<close>.
\<close>

section \<open>Data\<close>

definition SLUG_MISMATCH_GUARD_MULTIPLIER :: u32 where "SLUG_MISMATCH_GUARD_MULTIPLIER = 3"

datatype plan_error = Invalid string | MarketError string

fun plan_error_text :: "plan_error \<Rightarrow> string" where
  "plan_error_text (Invalid message) = message"
| "plan_error_text (MarketError text) = text"

fun is_market_error :: "plan_error \<Rightarrow> bool" where
  "is_market_error (MarketError _) = True"
| "is_market_error (Invalid _) = False"

record item_result =
  ir_slug :: string
  ir_status :: string
  ir_message :: "string option"
  ir_order_id :: "string option"
  ir_action :: "string option"

record plan_response =
  pn_plan_id :: string
  pn_results :: "item_result list"
  pn_durability_error :: "string option"

record existing_order =
  eo_id :: string
  eo_platinum :: u64
  eo_quantity :: u64
  eo_per_trade :: "u64 option"
  eo_visible :: "bool option"
  eo_ambiguous :: bool

text \<open>The two characters of the messages that are not ASCII, as their UTF-8 bytes.\<close>

definition times_sign :: string where "times_sign = map char_of [195, 151 :: nat]"
definition en_dash :: string where "en_dash = map char_of [226, 128, 147 :: nat]"

section \<open>Lots\<close>

text \<open>The loop over \<open>(1..=start).rev()\<close>.\<close>

fun divisor_down :: "u32 \<Rightarrow> nat \<Rightarrow> u32" where
  "divisor_down q 0 = 1"
| "divisor_down q (Suc d) = (if q mod of_nat (Suc d) = 0 then of_nat (Suc d) else divisor_down q d)"

definition per_trade_for :: "u32 \<Rightarrow> u32" where
  "per_trade_for q = (if q = 0 then 1 else divisor_down q (unat (min q MAX_PER_TRADE)))"

definition validate_lot :: "u32 \<Rightarrow> u32 option \<Rightarrow> bool \<Rightarrow> (string, unit) result" where
  "validate_lot quantity per_trade bulk_tradable =
     (if quantity = 0 then Err ''quantity must be > 0''
      else case per_trade of
        None \<Rightarrow> Ok ()
      | Some lot \<Rightarrow>
          if lot = 0 \<or> MAX_PER_TRADE < lot \<or> quantity mod lot \<noteq> 0
          then Err (''units per trade must be 1'' @ en_dash @ show_word MAX_PER_TRADE @ '' and divide quantity'')
          else if \<not> bulk_tradable \<and> lot \<noteq> 1
          then Err ''this item does not support bulk trading; use one unit per trade''
          else Ok ())"

section \<open>Existing orders\<close>

definition index_one_order ::
  "normalized_order \<Rightarrow> (order_key, existing_order) btree \<Rightarrow> (order_key, existing_order) btree" where
  "index_one_order order out = bt_upd (order_key_of order) (\<lambda>prior. case prior of
     Some p \<Rightarrow> p\<lparr> eo_ambiguous := True \<rparr>
   | None \<Rightarrow> \<lparr> eo_id = no_id order, eo_platinum = no_platinum order, eo_quantity = no_quantity order,
       eo_per_trade = no_per_trade order, eo_visible = no_visible order, eo_ambiguous = False \<rparr>) out"

definition index_existing_orders :: "decoded_orders \<Rightarrow> (order_key, existing_order) btree" where
  "index_existing_orders decoded = fold (\<lambda>row out. case row of
     Supported order \<Rightarrow> index_one_order order out | _ \<Rightarrow> out) decoded []"

text \<open>
  The subtype both \<open>plan_item_key\<close> and \<open>build_order_body\<close> settle on: the item's, if the catalogue lists it,
  and otherwise the first one listed.
\<close>

definition chosen_subtype :: "('a plan_item_scheme) \<Rightarrow> wfm_catalog_item \<Rightarrow> string" where
  "chosen_subtype item cat =
     unwrap_or (opt_filter (\<lambda>s. s \<in> set (ci_subtypes cat)) (it_subtype item))
       (unwrap_or (first_of (ci_subtypes cat)) '''')"

definition plan_item_key :: "('a plan_item_scheme) \<Rightarrow> wfm_catalog_item \<Rightarrow> order_key" where
  "plan_item_key item cat = OrderKey (ci_item_id cat)
     (if it_order_type item = ''buy'' then Buy else Sell)
     (map_option (\<lambda>_. ucast (unwrap_or (it_rank item) 0)) (ci_max_rank cat))
     (if ci_subtypes cat = [] then None else Some (chosen_subtype item cat))"

definition review_matches :: "reviewed_order \<Rightarrow> existing_order option \<Rightarrow> bool" where
  "review_matches reviewed prior =
     (case (reviewed, prior) of
        (NewOrder, None) \<Rightarrow> True
      | (ExistingOrder ident platinum quantity per_trade visible, Some p) \<Rightarrow>
          \<not> eo_ambiguous p \<and> ident = eo_id p \<and> platinum = eo_platinum p \<and> quantity = eo_quantity p
          \<and> per_trade = eo_per_trade p \<and> Some visible = eo_visible p
      | _ \<Rightarrow> False)"

section \<open>Bodies\<close>

definition build_order_patch :: "('a plan_item_scheme) \<Rightarrow> wfm_catalog_item \<Rightarrow> u32 \<Rightarrow> json" where
  "build_order_patch item cat lot = JObj (
     [(''platinum'', json_of_u32 (sat_mul (it_platinum item) lot)), (''quantity'', json_of_u32 (it_quantity item))]
     @ (if ci_bulk_tradable cat then opt_member ''perTrade'' json_of_u32 (it_per_trade item) else []))"

definition item_lot :: "('a plan_item_scheme) \<Rightarrow> wfm_catalog_item \<Rightarrow> u32" where
  "item_lot item cat =
     (if ci_bulk_tradable cat then unwrap_or (it_per_trade item) (per_trade_for (it_quantity item)) else 1)"

definition build_order_body :: "('a plan_item_scheme) \<Rightarrow> wfm_catalog_item \<Rightarrow> json" where
  "build_order_body item cat = JObj (
     [(''itemId'', JStr (ci_item_id cat)), (''type'', JStr (it_order_type item)),
      (''platinum'', json_of_u32 (sat_mul (it_platinum item) (item_lot item cat))),
      (''quantity'', json_of_u32 (it_quantity item)), (''visible'', JBool (it_visible item))]
     @ (if ci_bulk_tradable cat
        then [(''perTrade'', json_of_u32 (unwrap_or (it_per_trade item) (per_trade_for (it_quantity item))))] else [])
     @ (if ci_max_rank cat \<noteq> None then [(''rank'', json_of_u32 (unwrap_or (it_rank item) 0))] else [])
     @ (if ci_subtypes cat \<noteq> [] then [(''subtype'', JStr (chosen_subtype item cat))] else []))"

section \<open>Executing one item\<close>

definition item_answer :: "('a plan_item_scheme) \<Rightarrow> string \<Rightarrow> string \<Rightarrow> item_result" where
  "item_answer item st message = \<lparr> ir_slug = it_slug item, ir_status = st, ir_message = Some message,
     ir_order_id = None, ir_action = None \<rparr>"

abbreviation mk_err :: "('a plan_item_scheme) \<Rightarrow> string \<Rightarrow> item_result" where
  "mk_err item message \<equiv> item_answer item STATUS_ERROR message"

text \<open>The caps, the catalogue entry and the lot: everything \<open>execute_one\<close> checks before it reads the orders.\<close>

definition check_item :: "fmt \<Rightarrow> unlocked \<Rightarrow> ('a plan_item_scheme) \<Rightarrow> (string, wfm_catalog_item) result" where
  "check_item fm u item =
     (let price = show_word (it_platinum item) @ ''p'' in
      if it_platinum item < MIN_PLATINUM
      then Err (''price '' @ price @ '' < min '' @ show_word MIN_PLATINUM @ ''p'')
      else if MAX_PLATINUM < it_platinum item
      then Err (''price '' @ price @ '' > max '' @ show_word MAX_PLATINUM @ ''p'')
      else if is_some_and (it_reference_low_sell item) (\<lambda>low. 0 < low
              \<and> it_platinum item * SLUG_MISMATCH_GUARD_MULTIPLIER < low)
      then Err (''ref low_sell '' @ show_word (the (it_reference_low_sell item)) @ ''p is more than ''
             @ show_word SLUG_MISMATCH_GUARD_MULTIPLIER @ times_sign @ '' our '' @ price
             @ ''; likely a slug mismatch - refusing'')
      else if it_order_type item \<noteq> ''sell'' \<and> it_order_type item \<noteq> ''buy''
      then Err (''order_type '' @ fm_debug fm (it_order_type item) @ '' not in (sell, buy)'')
      else if it_quantity item = 0 then Err ''quantity must be > 0''
      else case map_of (un_catalog u) (it_slug item) of
        None \<Rightarrow> Err (''slug '' @ fm_debug fm (it_slug item) @ '' not in WFM catalog'')
      | Some cat \<Rightarrow> rbind (validate_lot (it_quantity item) (it_per_trade item) (ci_bulk_tradable cat)) (\<lambda>_. Ok cat))"

definition lot_total_error :: string where
  "lot_total_error = ''Lot total exceeds '' @ show_word MAX_PLATINUM @ ''p; reduce price or units per trade.''"

text \<open>An order with the item's identity exists: change its price and quantity.\<close>

definition existing_lot :: "('a plan_item_scheme) \<Rightarrow> wfm_catalog_item \<Rightarrow> existing_order \<Rightarrow> (string, u32) result" where
  "existing_lot item cat prior =
     (if ci_bulk_tradable cat
      then case it_per_trade item of
             Some lot \<Rightarrow> Ok lot
           | None \<Rightarrow> ok_or (u32_of_u64 (unwrap_or (eo_per_trade prior) 1)) ''Existing order has an invalid lot size.''
      else Ok 1)"

definition update_existing :: "fmt \<Rightarrow> 'w send \<Rightarrow> ('a plan_item_scheme) \<Rightarrow> wfm_catalog_item \<Rightarrow> existing_order
    \<Rightarrow> 'w \<Rightarrow> item_result \<times> 'w" where
  "update_existing fm send item cat prior w =
     (if eo_ambiguous prior
      then (mk_err item ''More than one existing order matches this item; resolve it in My orders.'', w)
      else case existing_lot item cat prior of
        Err message \<Rightarrow> (mk_err item message, w)
      | Ok lot \<Rightarrow> (case validate_lot (it_quantity item) (Some lot) (ci_bulk_tradable cat) of
          Err message \<Rightarrow> (mk_err item message, w)
        | Ok _ \<Rightarrow>
            if MAX_PLATINUM < sat_mul (it_platinum item) lot then (mk_err item lot_total_error, w)
            else let (r, w) = patch_one_order fm send (eo_id prior) (build_order_patch item cat lot) w in
              (if po_status r = STATUS_OK
               then \<lparr> ir_slug = it_slug item, ir_status = STATUS_OK,
                      ir_message = Some (''updated existing order (was '' @ show_word (eo_platinum prior) @ ''p ''
                        @ times_sign @ '' '' @ show_word (eo_quantity prior) @ '')''),
                      ir_order_id = Some (eo_id prior), ir_action = Some ''updated'' \<rparr>
               else \<lparr> ir_slug = it_slug item, ir_status = po_status r, ir_message = po_message r,
                      ir_order_id = Some (eo_id prior), ir_action = None \<rparr>, w)))"

text \<open>What the response to a creation says.\<close>

definition created_answer :: "fmt \<Rightarrow> ('a plan_item_scheme) \<Rightarrow> (access_error, response) result \<Rightarrow> item_result" where
  "created_answer fm item resp =
     (case resp of
        Err e \<Rightarrow> item_answer item (status_str (outcome_of e)) (error_text e)
      | Ok r \<Rightarrow>
          if rp_body r = None \<and> is_success (rp_status r)
          then item_answer item (status_str Uncertain)
                 ''The listing may have been applied, but its response could not be read. Resume to reconcile.''
          else let body = unwrap_or (rp_body r) JNull in
            if \<not> is_success (rp_status r)
            then mk_err item (''WFM HTTP '' @ fm_status fm (rp_status r) @ '': ''
                   @ error_member fm body ''(no error message)'')
            else case Option.bind (opt_or (jpointer body [''data'', ''id''])
                                    (jpointer body [''payload'', ''order'', ''id''])) as_str of
              None \<Rightarrow> item_answer item (status_str Uncertain)
                ''The listing response had no order identity. Resume to reconcile before another send.''
            | Some order_id \<Rightarrow> \<lparr> ir_slug = it_slug item, ir_status = STATUS_OK, ir_message = None,
                ir_order_id = Some order_id, ir_action = Some ''created'' \<rparr>)"

definition create_order :: "fmt \<Rightarrow> 'w send \<Rightarrow> ('a plan_item_scheme) \<Rightarrow> wfm_catalog_item \<Rightarrow> 'w
    \<Rightarrow> item_result \<times> 'w" where
  "create_order fm send item cat w =
     (if MAX_PLATINUM < sat_mul (it_platinum item) (item_lot item cat) then (mk_err item lot_total_error, w)
      else let (resp, w) = send (PostOrder (build_order_body item cat)) w in (created_answer fm item resp, w))"

type_synonym 'w validate = "'w \<Rightarrow> (plan_error, unit) result \<times> 'w"
type_synonym 'w read_orders = "'w \<Rightarrow> (string, decoded_orders) result \<times> 'w"

definition execute_one :: "fmt \<Rightarrow> unlocked \<Rightarrow> 'w read_orders \<Rightarrow> 'w validate \<Rightarrow> 'w send
    \<Rightarrow> ('a plan_item_scheme) \<Rightarrow> 'w \<Rightarrow> item_result \<times> 'w" where
  "execute_one fm u read_orders validate send item w =
     (case check_item fm u item of
        Err message \<Rightarrow> (mk_err item message, w)
      | Ok cat \<Rightarrow>
          let (decoded, w) = read_orders w in
          case decoded of
            Err e \<Rightarrow> (item_answer item STATUS_PENDING (''Could not revalidate current orders: '' @ e), w)
          | Ok orders \<Rightarrow>
              let prior = map_of (index_existing_orders orders) (plan_item_key item cat) in
              if is_some_and (it_reviewed_order item) (\<lambda>reviewed. \<not> review_matches reviewed prior)
              then (mk_err item ''Order state changed or is ambiguous. Review the batch again before posting.'', w)
              else let (valid, w) = validate w in
                case valid of
                  Err e \<Rightarrow> (item_answer item (if is_market_error e then STATUS_PENDING else STATUS_ERROR)
                              (plan_error_text e), w)
                | Ok _ \<Rightarrow> (case prior of
                    Some p \<Rightarrow> update_existing fm send item cat p w
                  | None \<Rightarrow> create_order fm send item cat w))"

section \<open>Lots: lemmas\<close>

lemma word_mod_eq_0_iff: "q mod d = 0 \<longleftrightarrow> unat d dvd unat q" for q d :: "'a::len word"
proof -
  have "q mod d = 0 \<longleftrightarrow> unat (q mod d) = 0"
    by (simp only: unsigned_eq_0_iff)
  then show ?thesis
    by (simp only: unat_mod_distrib dvd_eq_mod_eq_0)
qed

lemma word_mod_zero_iff:
  "0 < d \<Longrightarrow> d < 2 ^ 32 \<Longrightarrow> q mod of_nat d = 0 \<longleftrightarrow> d dvd unat q" for q :: u32
  by (simp add: word_mod_eq_0_iff unsigned_of_nat take_bit_nat_eq_self)

lemma unat_of_small: "d < 2 ^ 32 \<Longrightarrow> unat (of_nat d :: u32) = d"
  by (simp add: unsigned_of_nat take_bit_nat_eq_self)

lemma divisor_down_spec:
  assumes "n < 2 ^ 32"
  shows "unat (divisor_down q n) dvd unat q \<and> 1 \<le> unat (divisor_down q n) \<and> unat (divisor_down q n) \<le> max 1 n
    \<and> (\<forall>e. e dvd unat q \<longrightarrow> e \<le> n \<longrightarrow> e \<le> unat (divisor_down q n))"
  using assms
proof (induction n)
  case (Suc d)
  show ?case
  proof (cases "Suc d dvd unat q")
    case True
    have eq: "divisor_down q (Suc d) = of_nat (Suc d)"
      using True Suc.prems word_mod_zero_iff [of "Suc d" q] by (simp del: of_nat_Suc)
    show ?thesis
      unfolding eq unat_of_small [OF Suc.prems] using True by simp
  next
    case False
    then have "divisor_down q (Suc d) = divisor_down q d"
      using Suc.prems word_mod_zero_iff [of "Suc d" q] by (simp del: of_nat_Suc)
    with False Suc show ?thesis by (auto simp: le_Suc_eq)
  qed
qed simp

lemma per_trade_for_spec:
  assumes "0 < q"
  shows "unat (per_trade_for q) dvd unat q \<and> 1 \<le> unat (per_trade_for q) \<and> unat (per_trade_for q) \<le> 6
    \<and> (\<forall>e. e dvd unat q \<longrightarrow> e \<le> 6 \<longrightarrow> e \<le> unat (per_trade_for q))"
proof -
  let ?n = "unat (min q MAX_PER_TRADE)"
  have n: "?n = min (unat q) 6" by (simp add: min_def word_le_nat_alt)
  have pos: "0 < unat q" using assms by (simp add: word_less_nat_alt)
  have eq: "per_trade_for q = divisor_down q (min (unat q) 6)"
    unfolding per_trade_for_def n using assms by simp
  have "min (unat q) 6 < 2 ^ 32" by simp
  from divisor_down_spec [OF this, of q] pos show ?thesis
    unfolding eq by (auto simp: dvd_imp_le)
qed

lemma validate_lot_Ok:
  "validate_lot q (Some lot) bulk = Ok u \<longleftrightarrow>
     0 < q \<and> 0 < lot \<and> lot \<le> 6 \<and> q mod lot = 0 \<and> (bulk \<or> lot = 1)"
  unfolding word_gt_0 by (auto simp: validate_lot_def)

lemma validate_lot_quantity: "validate_lot q x bulk = Ok u \<Longrightarrow> 0 < q"
  by (auto simp: validate_lot_def word_neq_0_conv split: if_splits)

lemma check_item_Ok:
  assumes "check_item fm u item = Ok cat"
  shows "map_of (un_catalog u) (it_slug item) = Some cat \<and> 5 \<le> it_platinum item \<and> it_platinum item \<le> 3000
    \<and> it_order_type item \<in> {''sell'', ''buy''} \<and> 0 < it_quantity item
    \<and> validate_lot (it_quantity item) (it_per_trade item) (ci_bulk_tradable cat) = Ok ()
    \<and> is_none_or (it_reference_low_sell item) (\<lambda>low. unat low \<le> 3 * unat (it_platinum item))"
proof -
  have small: "it_platinum item \<le> 3000 \<Longrightarrow> unat (it_platinum item * 3) = 3 * unat (it_platinum item)"
    by (simp add: word_le_nat_alt unat_word_ariths)
  from assms show ?thesis
    by (auto simp: check_item_def Let_def rbind_Ok_iff SLUG_MISMATCH_GUARD_MULTIPLIER_def is_none_or_def
        word_neq_0_conv not_less small word_less_nat_alt word_le_nat_alt
        split: if_splits option.splits)
qed

text \<open>The lot an accepted item is created with divides its quantity and is at most six.\<close>

lemma item_lot_ok:
  assumes "check_item fm u item = Ok cat"
  shows "validate_lot (it_quantity item) (Some (item_lot item cat)) (ci_bulk_tradable cat) = Ok ()"
proof -
  note ok = check_item_Ok [OF assms]
  have "per_trade_for (it_quantity item) \<le> 6" "0 < per_trade_for (it_quantity item)"
    and dvd: "unat (per_trade_for (it_quantity item)) dvd unat (it_quantity item)"
    using per_trade_for_spec [of "it_quantity item"] ok by (auto simp: word_le_nat_alt word_less_nat_alt)
  moreover have "it_quantity item mod per_trade_for (it_quantity item) = 0"
    using dvd by (simp only: word_mod_eq_0_iff)
  ultimately show ?thesis
    using ok by (cases "it_per_trade item") (auto simp: item_lot_def validate_lot_Ok)
qed

section \<open>The index of existing orders: lemmas\<close>

lemma index_one_order_ok: "bt_ok out \<Longrightarrow> bt_ok (index_one_order n out)"
  by (simp add: index_one_order_def)

lemma index_existing_orders_fold:
  "index_existing_orders decoded = fold index_one_order (List.map_filter supported decoded) []"
proof -
  have "fold (\<lambda>row out. case row of Supported n \<Rightarrow> index_one_order n out | _ \<Rightarrow> out) decoded out
      = fold index_one_order (List.map_filter supported decoded) out" for out
    by (induction decoded arbitrary: out) (auto simp: map_filter_simps split: order_row.splits)
  then show ?thesis by (simp add: index_existing_orders_def)
qed

definition existing_of :: "normalized_order \<Rightarrow> existing_order" where
  "existing_of n = \<lparr> eo_id = no_id n, eo_platinum = no_platinum n, eo_quantity = no_quantity n,
     eo_per_trade = no_per_trade n, eo_visible = no_visible n, eo_ambiguous = False \<rparr>"

lemma lookup_index_one_order:
  "bt_ok out \<Longrightarrow> map_of (index_one_order n out) k =
     (if k = order_key_of n
      then Some (case map_of out k of Some p \<Rightarrow> p\<lparr> eo_ambiguous := True \<rparr> | None \<Rightarrow> existing_of n)
      else map_of out k)"
  by (auto simp: index_one_order_def lookup_bt_upd existing_of_def split: option.splits)

text \<open>What the index holds under a key: nothing, the one order with that key, or a mark that there are more.\<close>

lemma lookup_index:
  "map_of (fold index_one_order ns []) k =
     (case filter (\<lambda>n. order_key_of n = k) ns of
        [] \<Rightarrow> None
      | [n] \<Rightarrow> Some (existing_of n)
      | n # _ \<Rightarrow> Some ((existing_of n)\<lparr> eo_ambiguous := True \<rparr>))"
proof -
  have ok: "bt_ok (fold index_one_order ns [])" for ns
    by (induction ns rule: rev_induct) (auto intro: index_one_order_ok)
  show ?thesis
  proof (induction ns rule: rev_induct)
    case (snoc n ns)
    then show ?case
      by (cases "filter (\<lambda>n. order_key_of n = k) ns")
        (auto simp: lookup_index_one_order [OF ok] existing_of_def split: list.splits)
  qed simp
qed

lemma lookup_existing:
  "map_of (index_existing_orders decoded) k =
     (case filter (\<lambda>n. order_key_of n = k) (List.map_filter supported decoded) of
        [] \<Rightarrow> None
      | [n] \<Rightarrow> Some (existing_of n)
      | n # _ \<Rightarrow> Some ((existing_of n)\<lparr> eo_ambiguous := True \<rparr>))"
  by (simp add: index_existing_orders_fold lookup_index)

section \<open>What an item sends\<close>

text \<open>The world with the mutations sent so far, and calls that send none.\<close>

type_synonym 'w traced = "'w \<times> mutation list"

definition traced_send :: "'w send \<Rightarrow> 'w traced send" where
  "traced_send send m w = (let (r, w') = send m (fst w) in (r, (w', snd w @ [m])))"

definition untraced :: "('w \<Rightarrow> 'a \<times> 'w) \<Rightarrow> 'w traced \<Rightarrow> 'a \<times> 'w traced" where
  "untraced f w = (let (r, w') = f (fst w) in (r, (w', snd w)))"

text \<open>The specification of a status: what became of the mutation, from the answer to it.\<close>

definition fate :: "mutation \<Rightarrow> (access_error, response) result \<Rightarrow> mutation_outcome" where
  "fate m resp = (case resp of
     Err e \<Rightarrow> outcome_of e
   | Ok r \<Rightarrow>
       if \<not> is_success (rp_status r) then Rejected
       else case m of
         PostOrder _ \<Rightarrow>
           if is_some_and (rp_body r) (\<lambda>body. Option.bind (opt_or (jpointer body [''data'', ''id''])
                (jpointer body [''payload'', ''order'', ''id''])) as_str \<noteq> None)
           then Applied else Uncertain
       | _ \<Rightarrow> Applied)"

text \<open>A lot the market takes for the item.\<close>

definition lot_divides :: "('a plan_item_scheme) \<Rightarrow> wfm_catalog_item \<Rightarrow> u32 \<Rightarrow> bool" where
  "lot_divides item cat lot \<longleftrightarrow> 1 \<le> unat lot \<and> unat lot \<le> 6 \<and> unat lot dvd unat (it_quantity item)
     \<and> (ci_bulk_tradable cat \<or> lot = 1)"

text \<open>The specification of a change, in the terms of the item and the catalogue's entry: what is checked of the item alone.\<close>

definition item_checked :: "unlocked \<Rightarrow> ('a plan_item_scheme) \<Rightarrow> wfm_catalog_item \<Rightarrow> bool" where
  "item_checked u item cat \<longleftrightarrow> map_of (un_catalog u) (it_slug item) = Some cat
     \<and> 5 \<le> unat (it_platinum item) \<and> unat (it_platinum item) \<le> 3000 \<and> 0 < unat (it_quantity item)
     \<and> it_order_type item \<in> {''sell'', ''buy''}
     \<and> (\<forall>low. it_reference_low_sell item = Some low \<longrightarrow> unat low \<le> 3 * unat (it_platinum item))
     \<and> (\<forall>lot. it_per_trade item = Some lot \<longrightarrow> lot_divides item cat lot)"

text \<open>The orders that have the item's identity, and what the review must have seen of them.\<close>

definition same_orders :: "('a plan_item_scheme) \<Rightarrow> wfm_catalog_item \<Rightarrow> decoded_orders \<Rightarrow> normalized_order list" where
  "same_orders item cat orders = filter (\<lambda>n. order_key_of n = plan_item_key item cat) (List.map_filter supported orders)"

definition review_holds :: "reviewed_order option \<Rightarrow> normalized_order list \<Rightarrow> bool" where
  "review_holds reviewed same = (case reviewed of
     None \<Rightarrow> True
   | Some NewOrder \<Rightarrow> same = []
   | Some (ExistingOrder ident platinum quantity per_trade visible) \<Rightarrow> \<exists>n. same = [n] \<and> no_id n = ident
       \<and> no_platinum n = platinum \<and> no_quantity n = quantity \<and> no_per_trade n = per_trade \<and> no_visible n = Some visible)"

text \<open>The mutation an item sends, against the orders that were read: its body has the total of a lot and the quantity.\<close>

definition body_says :: "('a plan_item_scheme) \<Rightarrow> u32 \<Rightarrow> json \<Rightarrow> bool" where
  "body_says item lot body \<longleftrightarrow>
     jget body ''platinum'' = Some (JPosInt (of_nat (unat (it_platinum item) * unat lot)))
     \<and> jget body ''quantity'' = Some (JPosInt (of_nat (unat (it_quantity item))))"

definition kept_lot :: "('a plan_item_scheme) \<Rightarrow> wfm_catalog_item \<Rightarrow> normalized_order \<Rightarrow> nat" where
  "kept_lot item cat n =
     (if ci_bulk_tradable cat
      then case it_per_trade item of Some lot \<Rightarrow> unat lot | None \<Rightarrow> (case no_per_trade n of Some lot \<Rightarrow> unat lot | None \<Rightarrow> 1)
      else 1)"

definition item_mutation :: "('a plan_item_scheme) \<Rightarrow> wfm_catalog_item \<Rightarrow> decoded_orders \<Rightarrow> mutation \<Rightarrow> bool" where
  "item_mutation item cat orders m \<longleftrightarrow>
     (case same_orders item cat orders of
        [] \<Rightarrow> m = PostOrder (build_order_body item cat) \<and> body_says item (item_lot item cat) (build_order_body item cat)
          \<and> lot_divides item cat (item_lot item cat) \<and> unat (it_platinum item) * unat (item_lot item cat) \<le> 3000
      | [n] \<Rightarrow> \<exists>lot. m = PatchOrder (no_id n) (build_order_patch item cat lot) \<and> unat lot = kept_lot item cat n
          \<and> lot_divides item cat lot \<and> body_says item lot (build_order_patch item cat lot)
          \<and> unat (it_platinum item) * unat lot \<le> 3000
      | _ \<Rightarrow> False)"

lemma sat_mul_cap: "3000 < sat_mul a b \<longleftrightarrow> 3000 < unat a * unat b" for a b :: u32
  by (auto simp: arith_unat)

lemma lot_divides_valid:
  "0 < unat (it_quantity item) \<Longrightarrow>
     validate_lot (it_quantity item) (Some lot) (ci_bulk_tradable cat) = Ok () \<longleftrightarrow> lot_divides item cat lot"
  by (auto simp: validate_lot_Ok lot_divides_def word_mod_eq_0_iff word_le_nat_alt word_less_nat_alt)

lemma check_item_iff: "check_item fm u item = Ok cat \<longleftrightarrow> item_checked u item cat"
proof -
  let ?p = "it_platinum item" and ?q = "it_quantity item"
  have small: "unat (?p * 3) = 3 * unat ?p" if "unat ?p \<le> 3000"
    using that by (simp add: unat_word_ariths)
  have lot: "validate_lot ?q (it_per_trade item) bulk = Ok () \<longleftrightarrow>
      is_none_or (it_per_trade item) (\<lambda>lot. validate_lot ?q (Some lot) bulk = Ok ())" if "0 < unat ?q" for bulk
    using that by (cases "it_per_trade item") (auto simp: validate_lot_def)
  show ?thesis
  proof (cases "5 \<le> unat ?p \<and> unat ?p \<le> 3000 \<and> 0 < unat ?q \<and> it_order_type item \<in> {''sell'', ''buy''}")
    case False
    then show ?thesis
      by (auto simp: check_item_def Let_def item_checked_def word_less_nat_alt unat_gt_0)
  next
    case True
    then have q: "?q \<noteq> 0" by auto
    show ?thesis
    proof (cases "map_of (un_catalog u) (it_slug item)")
      case None
      then show ?thesis by (auto simp: check_item_def Let_def item_checked_def)
    next
      case (Some c)
      have "validate_lot ?q (it_per_trade item) (ci_bulk_tradable c) = Ok () \<longleftrightarrow>
          (\<forall>lot. it_per_trade item = Some lot \<longrightarrow> lot_divides item c lot)"
        using True lot lot_divides_valid [of item _ c] by (cases "it_per_trade item") auto
      then show ?thesis
        using True Some q small
        by (cases "it_reference_low_sell item")
          (auto simp: check_item_def Let_def item_checked_def rbind_Ok_iff SLUG_MISMATCH_GUARD_MULTIPLIER_def
            word_less_nat_alt not_less)
    qed
  qed
qed

lemma sent_total: "unat a * unat b \<le> 3000 \<Longrightarrow> (ucast (sat_mul a b) :: u64) = of_nat (unat a * unat b)" for a b :: u32
  by (rule iffD2 [OF word_unat_eq_iff])
    (simp add: unat_u64_of_u32 unat_sat_mul unsigned_of_nat take_bit_nat_eq_self del: of_nat_mult)

lemma u64_of_u32_nat: "(ucast a :: u64) = of_nat (unat a)" for a :: u32
  by simp

lemma body_says_built:
  assumes "unat (it_platinum item) * unat lot \<le> 3000"
  shows "body_says item lot (build_order_patch item cat lot)"
    and "lot = item_lot item cat \<Longrightarrow> body_says item lot (build_order_body item cat)"
  using sent_total [OF assms]
  by (simp_all add: body_says_def build_order_patch_def build_order_body_def json_of_u32_def u64_of_u32_nat
      del: of_nat_mult of_nat_unat)

lemma created_fate: "ir_status (created_answer fm item resp) = status_str (fate (PostOrder body) resp)"
  by (auto simp: created_answer_def fate_def item_answer_def Let_def
      split: sum.splits option.splits)

lemma patch_fate:
  "po_status (fst (patch_one_order fm send i body w)) = status_str (fate (PatchOrder i body) (fst (send (PatchOrder i body) w)))"
  by (auto simp: patch_one_order_def fate_def split: sum.splits prod.splits)

text \<open>What a step of the execution sends: exactly the mutations \<open>P\<close> allows, at most one; and what its status is.\<close>

definition sends_only :: "(mutation \<Rightarrow> bool) \<Rightarrow> 'w send \<Rightarrow> 'w \<Rightarrow> item_result \<Rightarrow> mutation list \<Rightarrow> bool" where
  "sends_only P send w res log \<longleftrightarrow> (\<forall>m. log = [m] \<longleftrightarrow> P m) \<and> length log \<le> 1
     \<and> (log = [] \<longrightarrow> ir_status res \<in> {STATUS_ERROR, STATUS_PENDING})
     \<and> (\<forall>m. log = [m] \<longrightarrow> ir_status res = status_str (fate m (fst (send m w))))"

lemma sends_nothing: "\<forall>m. \<not> P m \<Longrightarrow> ir_status res \<in> {STATUS_ERROR, STATUS_PENDING} \<Longrightarrow> sends_only P send w res []"
  by (simp add: sends_only_def)

lemma sends_one:
  "P m \<Longrightarrow> \<forall>m'. P m' \<longrightarrow> m' = m \<Longrightarrow> ir_status res = status_str (fate m (fst (send m w))) \<Longrightarrow> sends_only P send w res [m]"
proof -
  assume a: "P m" "\<forall>m'. P m' \<longrightarrow> m' = m" "ir_status res = status_str (fate m (fst (send m w)))"
  have "[m] = [m'] \<longleftrightarrow> P m'" for m' using a(1,2) by blast
  moreover have "ir_status res = status_str (fate m' (fst (send m' w)))" if "[m] = [m']" for m'
    using that a(3) by simp
  ultimately show ?thesis unfolding sends_only_def by simp
qed

lemma update_existing_sends:
  assumes "update_existing fm (traced_send send) item cat (existing_of n) (w, []) = (res, (w', log))"
    and "0 < unat (it_quantity item)" and "same_orders item cat orders = [n]"
  shows "sends_only (item_mutation item cat orders) send w res log"
proof -
  have m: "item_mutation item cat orders m \<longleftrightarrow> (\<exists>lot. m = PatchOrder (no_id n) (build_order_patch item cat lot)
      \<and> unat lot = kept_lot item cat n \<and> lot_divides item cat lot \<and> unat (it_platinum item) * unat lot \<le> 3000)" for m
    using assms(3) body_says_built by (auto simp: item_mutation_def)
  have fields: "eo_id (existing_of n) = no_id n" "\<not> eo_ambiguous (existing_of n)" "eo_per_trade (existing_of n) = no_per_trade n"
    by (simp_all add: existing_of_def)
  show ?thesis
  proof (cases "existing_lot item cat (existing_of n)")
    case (Inl e)
    then have big: "ci_bulk_tradable cat" "it_per_trade item = None" "u32_of_u64 (unwrap_or (no_per_trade n) 1) = None"
      by (auto simp: existing_lot_def fields ok_or_def split: if_splits option.splits)
    have "unat lot \<noteq> kept_lot item cat n" for lot :: u32
      using big unsigned_less [where 'a = nat, of lot] by (auto simp: kept_lot_def u32_of_u64_def split: option.splits if_splits)
    then have "\<not> item_mutation item cat orders m'" for m' using m by blast
    moreover have "log = []" "ir_status res = STATUS_ERROR"
      using assms(1) Inl by (auto simp: update_existing_def fields item_answer_def)
    ultimately show ?thesis by (auto intro!: sends_nothing)
  next
    case (Inr lot)
    have lot: "unat lot = kept_lot item cat n"
      using Inr by (auto simp: existing_lot_def kept_lot_def fields ok_or_def dest!: u32_of_u64_SomeD split: if_splits option.splits)
    have uniq: "lot' = lot" if "unat lot' = kept_lot item cat n" for lot' :: u32
      using that lot by (simp add: word_unat_eq_iff)
    show ?thesis
    proof (cases "lot_divides item cat lot \<and> unat (it_platinum item) * unat lot \<le> 3000")
      case True
      let ?m = "PatchOrder (no_id n) (build_order_patch item cat lot)"
      have "log = [?m]"
        and s: "ir_status res = po_status (fst (patch_one_order fm send (no_id n) (build_order_patch item cat lot) w))"
        using assms(1,2) Inr True lot_divides_valid [of item lot cat]
        by (auto simp: update_existing_def fields patch_one_order_def traced_send_def sat_mul_cap not_less
            split: sum.splits prod.splits if_splits)
      moreover have "item_mutation item cat orders ?m" using True lot m by blast
      moreover have "\<forall>m'. item_mutation item cat orders m' \<longrightarrow> m' = ?m" using uniq m by blast
      moreover have "ir_status res = status_str (fate ?m (fst (send ?m w)))" unfolding s by (rule patch_fate)
      ultimately show ?thesis by (metis sends_one)
    next
      case False
      have "log = []" "ir_status res = STATUS_ERROR"
        using assms(1,2) Inr False lot_divides_valid [of item lot cat]
        by (auto simp: update_existing_def fields item_answer_def sat_mul_cap split: sum.splits if_splits)
      moreover have "\<not> item_mutation item cat orders m'" for m' using False uniq m by blast
      ultimately show ?thesis by (simp add: sends_nothing)
    qed
  qed
qed

lemma create_order_sends:
  assumes "create_order fm (traced_send send) item cat (w, []) = (res, (w', log))" and "same_orders item cat orders = []"
    and "item_checked u item cat"
  shows "sends_only (item_mutation item cat orders) send w res log"
proof -
  have "validate_lot (it_quantity item) (Some (item_lot item cat)) (ci_bulk_tradable cat) = Ok ()"
    using item_lot_ok check_item_iff assms(3) by blast
  then have "lot_divides item cat (item_lot item cat)"
    using assms(3) by (simp add: lot_divides_valid item_checked_def)
  then have m: "item_mutation item cat orders m \<longleftrightarrow> m = PostOrder (build_order_body item cat)
      \<and> unat (it_platinum item) * unat (item_lot item cat) \<le> 3000" for m
    using assms(2) body_says_built(2) [OF _ refl, of item cat] by (auto simp: item_mutation_def)
  show ?thesis
  proof (cases "unat (it_platinum item) * unat (item_lot item cat) \<le> 3000")
    case True
    have "log = [PostOrder (build_order_body item cat)]"
      and "res = created_answer fm item (fst (send (PostOrder (build_order_body item cat)) w))"
      using assms(1) True by (auto simp: create_order_def traced_send_def sat_mul_cap split: prod.splits)
    moreover have "\<forall>m'. item_mutation item cat orders m' \<longrightarrow> m' = PostOrder (build_order_body item cat)" using m by blast
    ultimately show ?thesis using True m created_fate [of fm item] by (metis sends_one)
  next
    case False
    then show ?thesis using assms(1) m
      by (auto simp: create_order_def item_answer_def sat_mul_cap intro!: sends_nothing)
  qed
qed

text \<open>Everything that must hold for an item to be sent.\<close>

definition may_change :: "unlocked \<Rightarrow> 'w read_orders \<Rightarrow> 'w validate \<Rightarrow> ('a plan_item_scheme) \<Rightarrow> 'w \<Rightarrow> mutation \<Rightarrow> bool" where
  "may_change u read validate item w m \<longleftrightarrow>
     (\<exists>cat orders. item_checked u item cat \<and> fst (read w) = Ok orders \<and> fst (validate (snd (read w))) = Ok ()
        \<and> review_holds (it_reviewed_order item) (same_orders item cat orders) \<and> item_mutation item cat orders m)"

lemma lookup_same:
  "map_of (index_existing_orders orders) (plan_item_key item cat) =
     (case same_orders item cat orders of
        [] \<Rightarrow> None | [n] \<Rightarrow> Some (existing_of n) | n # _ \<Rightarrow> Some ((existing_of n)\<lparr> eo_ambiguous := True \<rparr>))"
  by (simp add: lookup_existing same_orders_def)

lemma review_holds_iff:
  "is_none_or reviewed (\<lambda>r. review_matches r (map_of (index_existing_orders orders) (plan_item_key item cat)))
     \<longleftrightarrow> review_holds reviewed (same_orders item cat orders)"
  by (auto simp: lookup_same review_holds_def review_matches_def existing_of_def is_none_or_def
      split: option.splits reviewed_order.splits list.splits)

lemma execute_one_sends:
  assumes "execute_one fm u (untraced read) (untraced validate) (traced_send send) item (w, []) = (res, (w', log))"
  shows "sends_only (may_change u read validate item w) send (snd (validate (snd (read w)))) res log"
proof (cases "\<exists>cat orders. item_checked u item cat \<and> fst (read w) = Ok orders \<and> fst (validate (snd (read w))) = Ok ()
    \<and> review_holds (it_reviewed_order item) (same_orders item cat orders)")
  case True
  then obtain cat orders where t: "item_checked u item cat" "fst (read w) = Ok orders" "fst (validate (snd (read w))) = Ok ()"
      "review_holds (it_reviewed_order item) (same_orders item cat orders)" by blast
  let ?w = "snd (validate (snd (read w)))"
  have may: "may_change u read validate item w m \<longleftrightarrow> item_mutation item cat orders m" for m
    using t by (auto simp: may_change_def item_checked_def)
  have q: "0 < unat (it_quantity item)" using t(1) by (simp add: item_checked_def)
  have run: "(case map_of (index_existing_orders orders) (plan_item_key item cat) of
        Some p \<Rightarrow> update_existing fm (traced_send send) item cat p (?w, [])
      | None \<Rightarrow> create_order fm (traced_send send) item cat (?w, [])) = (res, (w', log))"
    using assms t review_holds_iff [of "it_reviewed_order item" orders item cat]
    by (auto simp: execute_one_def check_item_iff [symmetric, where fm = fm] untraced_def Let_def is_none_or_def is_some_and_def
        split: prod.splits option.splits)
  consider "same_orders item cat orders = []" | n where "same_orders item cat orders = [n]"
    | n n' ns where "same_orders item cat orders = n # n' # ns" by (metis neq_Nil_conv)
  then have "sends_only (item_mutation item cat orders) send ?w res log"
  proof cases
    case 1
    then show ?thesis using run t(1) by (intro create_order_sends) (auto simp: lookup_same)
  next
    case 2
    then show ?thesis using run q by (intro update_existing_sends) (auto simp: lookup_same)
  next
    case 3
    then have "log = []" "ir_status res = STATUS_ERROR"
      using run by (auto simp: lookup_same update_existing_def item_answer_def)
    then show ?thesis using 3 by (auto simp: item_mutation_def intro!: sends_nothing)
  qed
  then show ?thesis by (simp add: sends_only_def may)
next
  case False
  then have none: "\<not> may_change u read validate item w m" for m by (auto simp: may_change_def)
  have "log = [] \<and> ir_status res \<in> {STATUS_ERROR, STATUS_PENDING}"
  proof (cases "check_item fm u item")
    case (Inl e)
    then show ?thesis using assms by (auto simp: execute_one_def item_answer_def)
  next
    case (Inr cat)
    then have "item_checked u item cat" by (simp add: check_item_iff)
    then show ?thesis
      using assms False Inr review_holds_iff [of "it_reviewed_order item" _ item cat]
      by (auto simp: execute_one_def item_answer_def untraced_def Let_def is_none_or_def is_some_and_def
          split: prod.splits sum.splits if_splits option.splits)
  qed
  then show ?thesis using none by (auto intro!: sends_nothing)
qed

section \<open>Properties\<close>

text \<open>The lot a bulk listing is given by default is the largest number of units, up to six, that
  divides its quantity.\<close>

lemma default_lot_is_largest_divisor:
  assumes "0 < quantity"
  shows "unat (per_trade_for quantity) dvd unat quantity \<and> 1 \<le> unat (per_trade_for quantity)
    \<and> unat (per_trade_for quantity) \<le> 6
    \<and> (\<forall>lot. lot dvd unat quantity \<longrightarrow> lot \<le> 6 \<longrightarrow> lot \<le> unat (per_trade_for quantity))"
  using per_trade_for_spec [OF assms] .

lemma default_lot_is_largest_divisor_witness: "unat (per_trade_for 27) dvd 27 \<and> 3 \<le> unat (per_trade_for 27)"
proof -
  have "(3::nat) dvd unat (27::u32)" by simp
  with default_lot_is_largest_divisor [of 27] show ?thesis by simp
qed

text \<open>C6: The planned identity is the created one: if the market stores the order body that is sent for a
  checked item under some id, and the catalogue allows its rank and subtype, then the row the market
  returns decodes to an order with exactly the key the plan looked existing orders up by, the planned
  quantity and visibility, and a lot total of price times lot. A second run of the plan therefore finds the order
  instead of creating a duplicate.\<close>

theorem created_order_has_planned_key:
  assumes "check_item fm u item = Ok cat" and "ci_item_id cat \<noteq> ''''" and "'''' \<notin> set (ci_subtypes cat)"
    and "unat (it_platinum item) * unat (item_lot item cat) \<le> 3000"
    and "accepts (ci_item_id cat) (ok_rank (plan_item_key item cat)) (ok_subtype (plan_item_key item cat))"
    and "build_order_body item cat = JObj ms" and "order_id \<noteq> ''''"
  shows "\<exists>n. decode_row to_text debug accepts (JObj ((''id'', JStr order_id) # ms)) None = Supported n
    \<and> order_key_of n = plan_item_key item cat \<and> no_id n = order_id
    \<and> unat (no_quantity n) = unat (it_quantity item) \<and> no_visible n = Some (it_visible item)
    \<and> unat (no_platinum n) = unat (it_platinum item) * unat (item_lot item cat)"
proof -
  let ?lot = "item_lot item cat" and ?key = "plan_item_key item cat"
  let ?p = "ucast (sat_mul (it_platinum item) ?lot) :: u64" and ?q = "ucast (it_quantity item) :: u64"
  let ?n = "\<lparr> no_id = order_id, no_item_id = ci_item_id cat, no_side = ok_side ?key, no_platinum = ?p,
     no_quantity = ?q, no_per_trade = (if ci_bulk_tradable cat then Some (ucast ?lot) else None),
     no_visible = Some (it_visible item), no_rank = ok_rank ?key, no_subtype = ok_subtype ?key \<rparr>"
  note ok = check_item_Ok [OF assms(1)] and lot = item_lot_ok [OF assms(1)]
  have up: "unat (ucast w :: u64) = unat w" for w :: u32
    by (rule unat_u64_of_u32)
  have total: "unat ?p = unat (it_platinum item) * unat ?lot"
    unfolding up using assms(4) by (simp add: unat_sat_mul)
  have pos: "0 < it_quantity item" "0 < ?lot" "0 < it_platinum item"
    using ok lot by (auto simp: validate_lot_Ok word_le_nat_alt word_less_nat_alt)
  have "lot_ok ?q (ucast ?lot)"
    using lot pos(2) by (simp add: lot_ok_def validate_lot_Ok word_mod_eq_0_iff word_le_nat_alt word_less_nat_alt up)
  then have "whole_lots ?q (ucast ?lot)" by (simp only: lot_ok_whole)
  moreover have "0 < ?p" "0 < ?q"
    using pos total by (simp_all add: word_less_nat_alt up)
  moreover have "ok_subtype ?key \<noteq> Some ''''"
    using assms(3) by (cases "ci_subtypes cat")
      (auto simp: plan_item_key_def chosen_subtype_def unwrap_or_def opt_filter_def split: option.splits)
  ultimately have "well_formed_order ?n"
    using assms(2,7) by (simp add: well_formed_order_def plan_item_key_def)
  moreover have "side_agrees (Some (JStr (it_order_type item))) None (ok_side ?key)"
    using ok by (auto simp: side_agrees_def plan_item_key_def)
  ultimately have "row_means accepts (JObj ((''id'', JStr order_id) # ms)) None ?n"
    using assms(5,6) unfolding build_order_body_def
    by (auto simp: row_means_def field_means_def null_or_absent_def json_of_u32_def item_lot_def plan_item_key_def)
  then have "decode_row to_text debug accepts (JObj ((''id'', JStr order_id) # ms)) None = Supported ?n"
    by (simp only: decode_row_means)
  then show ?thesis
    by (intro exI [of _ ?n] conjI) (use total up in \<open>simp_all add: order_key_of_def plan_item_key_def\<close>)
qed

definition demo_catalog_item :: wfm_catalog_item where
  "demo_catalog_item = \<lparr> ci_item_id = ''i1'', ci_bulk_tradable = True, ci_session_supported = False,
     ci_display_name = ''X'', ci_max_rank = Some 5, ci_subtypes = [''intact'', ''radiant''] \<rparr>"

definition demo_unlocked :: unlocked where
  "demo_unlocked = \<lparr> un_jwt = ''j'', un_username = ''u'', un_platform = ''pc'',
     un_catalog = [(''x'', demo_catalog_item)], un_id_to_item = [] \<rparr>"

definition demo_plan_item :: plan_item where
  "demo_plan_item = \<lparr> it_inventory_snapshot_id = None, it_slug = ''x'', it_platinum = 20, it_quantity = 12,
     it_per_trade = None, it_session = None, it_reviewed_order = None, it_order_type = ''sell'',
     it_visible = True, it_rank = None, it_subtype = None, it_reference_low_sell = None \<rparr>"

definition demo_fmt :: fmt where
  "demo_fmt = \<lparr> fm_debug = (\<lambda>s. s), fm_json = (\<lambda>_. ''''), fm_status = (\<lambda>s. show_word s) \<rparr>"

lemma demo_lot: "per_trade_for 12 = 6"
  using divisor_down.simps(2) [of 12 5] by (simp add: per_trade_for_def)

lemma demo_check: "check_item demo_fmt demo_unlocked demo_plan_item = Ok demo_catalog_item"
  by (simp add: check_item_def demo_unlocked_def demo_plan_item_def validate_lot_def)

theorem created_order_has_planned_key_witness:
  "\<exists>ms n. build_order_body demo_plan_item demo_catalog_item = JObj ms
     \<and> decode_row (\<lambda>_. '''') (\<lambda>s. s) (\<lambda>_ _ _. True) (JObj ((''id'', JStr ''o9'') # ms)) None = Supported n
     \<and> order_key_of n = plan_item_key demo_plan_item demo_catalog_item"
proof -
  obtain ms where ms: "build_order_body demo_plan_item demo_catalog_item = JObj ms"
    by (simp add: build_order_body_def)
  have "unat (it_platinum demo_plan_item) * unat (item_lot demo_plan_item demo_catalog_item) \<le> 3000"
    by (simp add: item_lot_def demo_plan_item_def demo_catalog_item_def demo_lot)
  from created_order_has_planned_key [OF demo_check _ _ this _ ms, where order_id = "''o9''"
      and accepts = "\<lambda>_ _ _. True"] ms
  show ?thesis by (simp add: demo_catalog_item_def) blast
qed

text \<open>C5: An item makes at most one change to the market, exactly the one it was checked for, and exactly when it was.
  Whatever the orders read, the validation and the market answer: a mutation is sent if and only if the item passed
  every check (its catalogue entry, price, quantity, side and reference, a lot of one to six that divides the quantity),
  the orders could be read, the review still holds of the orders with its key, the batch's validation said yes, and
  the lot's total is within the cap; it then creates the order (when no order has its key) or updates the one order that has
  it (never one of several), with that total and quantity, and the status is what the answer to it means. Otherwise
  nothing is sent and the status is an error or pending.\<close>

theorem execute_one_changes_one_order:
  assumes "execute_one fm u (untraced read) (untraced validate) (traced_send send) item (w, []) = (res, (w', log))"
  shows "(\<forall>m. log = [m] \<longleftrightarrow> may_change u read validate item w m) \<and> length log \<le> 1
    \<and> (log = [] \<longrightarrow> ir_status res \<in> {STATUS_ERROR, STATUS_PENDING})
    \<and> (\<forall>m. log = [m] \<longrightarrow> ir_status res = status_str (fate m (fst (send m (snd (validate (snd (read w))))))))"
  using execute_one_sends [OF assms] by (simp add: sends_only_def)

definition demo_created :: "unit send" where
  "demo_created m w = (Ok \<lparr> rp_status = 200, rp_retry_after = None,
     rp_body = Some (JObj [(''data'', JObj [(''id'', JStr ''o9'')])]), rp_text = None \<rparr>, w)"

lemma demo_fields:
  "it_reviewed_order demo_plan_item = None" "it_platinum demo_plan_item = 20"
  "item_lot demo_plan_item demo_catalog_item = 6"
  by (simp_all add: item_lot_def demo_plan_item_def demo_catalog_item_def demo_lot)

lemma demo_execute:
  "\<exists>res. execute_one demo_fmt demo_unlocked (untraced (\<lambda>w. (Ok [], w))) (untraced (\<lambda>w. (Ok (), w)))
     (traced_send demo_created) demo_plan_item ((), []) =
       (res, ((), [PostOrder (build_order_body demo_plan_item demo_catalog_item)]))"
  by (simp add: execute_one_def demo_check untraced_def index_existing_orders_def create_order_def
      demo_fields traced_send_def demo_created_def sat_mul_def)

theorem execute_one_changes_one_order_witness:
  "may_change demo_unlocked (\<lambda>w. (Ok [], w)) (\<lambda>w. (Ok (), w)) demo_plan_item ()
     (PostOrder (build_order_body demo_plan_item demo_catalog_item))"
proof -
  obtain res where "execute_one demo_fmt demo_unlocked (untraced (\<lambda>w. (Ok [], w))) (untraced (\<lambda>w. (Ok (), w)))
     (traced_send demo_created) demo_plan_item ((), []) =
       (res, ((), [PostOrder (build_order_body demo_plan_item demo_catalog_item)]))"
    using demo_execute by blast
  from execute_one_changes_one_order [OF this] show ?thesis by auto
qed

end
