(* ===== verification/Plan_Run.thy ===== *)
theory Plan_Run
  imports Plan "HOL-Library.Sublist"
begin

text \<open>
  Running a whole plan (\<open>run_pending_with_store\<close> and \<open>execute_plan_with\<close> in \<open>wfm-trading/src/orders/plan.rs\<close>):
  the loop that saves the plan before and after every item, and its safety across crashes.

  The four closures are functions on a world \<open>'w\<close>. Beside its result the loop yields its trace: each write
  of the journal, start and end of an item, with the world right after it, so that a crash at any
  point is a crash in one of the trace's worlds. The locales state what the loop relies on: \<open>plan_store\<close>
  what a write promises, \<open>plan_runner\<close> that nothing else touches the journal.
\<close>

section \<open>The loop\<close>

datatype run_event =
    EvSaved pending_plan
  | EvExec nat pending_plan
  | EvDone nat item_result

type_synonym 'w trace = "('w \<times> run_event) list"

definition result_of_item :: "pending_item \<Rightarrow> item_result" where
  "result_of_item i = \<lparr> ir_slug = it_slug i, ir_status = pi_status i, ir_message = pi_message i,
     ir_order_id = pi_order_id i, ir_action = pi_action i \<rparr>"

definition plan_results :: "pending_plan \<Rightarrow> plan_response" where
  "plan_results p = \<lparr> pn_plan_id = pp_plan_id p, pn_results = map result_of_item (pp_items p),
     pn_durability_error = None \<rparr>"

definition durability_failure :: "pending_plan \<Rightarrow> string \<Rightarrow> plan_response" where
  "durability_failure p message = (plan_results p)\<lparr> pn_durability_error := Some message \<rparr>"

definition batch_error :: "string \<Rightarrow> string \<Rightarrow> plan_response" where
  "batch_error plan_id message = \<lparr> pn_plan_id = plan_id,
     pn_results = [\<lparr> ir_slug = ''<batch>'', ir_status = STATUS_ERROR, ir_message = Some message,
                     ir_order_id = None, ir_action = None \<rparr>],
     pn_durability_error = None \<rparr>"

definition validation_failure :: "pending_plan \<Rightarrow> plan_error \<Rightarrow> plan_response" where
  "validation_failure p e =
     (let message = plan_error_text e in
      if is_market_error e \<or> list_ex (\<lambda>i. pi_status i = STATUS_OK \<or> pi_status i = STATUS_ERROR) (pp_items p)
      then \<lparr> pn_plan_id = pp_plan_id p,
             pn_results = map (\<lambda>i. if pi_status i = STATUS_PENDING
                                   then (result_of_item i)\<lparr> ir_message := Some message \<rparr> else result_of_item i)
                            (pp_items p),
             pn_durability_error = None \<rparr>
      else batch_error (pp_plan_id p) message)"

definition set_item :: "nat \<Rightarrow> (pending_item \<Rightarrow> pending_item) \<Rightarrow> pending_plan \<Rightarrow> pending_plan" where
  "set_item i f p = p\<lparr> pp_items := (pp_items p)[i := f (pp_items p ! i)] \<rparr>"

definition stopped_message :: string where
  "stopped_message = ''The app stopped while handling this listing. Check My Orders before listing it again.''"

definition mark_uncertain :: "pending_item \<Rightarrow> pending_item" where
  "mark_uncertain i = i\<lparr> pi_status := STATUS_UNCERTAIN, pi_message := Some stopped_message \<rparr>"

definition take_result :: "item_result \<Rightarrow> pending_item \<Rightarrow> pending_item" where
  "take_result r i = i\<lparr> pi_status := ir_status r, pi_message := ir_message r, pi_order_id := ir_order_id r,
     pi_action := ir_action r \<rparr>"

type_synonym 'w check = "'w \<Rightarrow> (access_error, unit) result \<times> 'w"
type_synonym 'w execute = "plan_item \<Rightarrow> 'w \<Rightarrow> item_result \<times> 'w"
type_synonym 'w persist = "pending_plan \<Rightarrow> 'w \<Rightarrow> (string, unit) result \<times> 'w"
type_synonym 'w run = "plan_response \<times> pending_plan \<times> 'w \<times> 'w trace"

definition trace_first :: "'w trace \<Rightarrow> 'w run \<Rightarrow> 'w run" where
  "trace_first tr r = (fst r, fst (snd r), fst (snd (snd r)), tr @ snd (snd (snd r)))"

text \<open>What follows the item at index \<open>i\<close> once it is saved as uncertain: \<open>rest\<close> is the rest of the loop.\<close>

definition run_item :: "'w execute \<Rightarrow> 'w persist \<Rightarrow> nat \<Rightarrow> pending_plan \<Rightarrow> (pending_plan \<Rightarrow> 'w \<Rightarrow> 'w run) \<Rightarrow> 'w
    \<Rightarrow> 'w run" where
  "run_item execute persist i p rest w =
     (let p1 = set_item i mark_uncertain p; (saved, w1) = persist p1 w in
      case saved of
        Err e \<Rightarrow> (durability_failure p (''Could not save the listing before sending it: '' @ e), p, w1, [(w1, EvSaved p1)])
      | Ok _ \<Rightarrow>
          let (r, w2) = execute (plan_item.truncate (pp_items p ! i)) w1;
              p2 = set_item i (take_result r) p1;
              (saved, w3) = persist p2 w2;
              tr = [(w1, EvSaved p1), (w1, EvExec i p1), (w2, EvDone i r), (w3, EvSaved p2)]
          in case saved of
               Err e \<Rightarrow> (durability_failure p2 (''Could not save the confirmed listing result: '' @ e
                          @ ''. Check My Orders before resuming or listing it again.''), p2, w3, tr)
             | Ok _ \<Rightarrow>
                 if ir_status r = STATUS_PENDING \<or> ir_status r = STATUS_UNCERTAIN
                 then (plan_results p2, p2, w3, tr)
                 else trace_first tr (rest p2 w3))"

fun run_from :: "'w validate \<Rightarrow> 'w check \<Rightarrow> 'w execute \<Rightarrow> 'w persist \<Rightarrow> nat list \<Rightarrow> pending_plan \<Rightarrow> 'w \<Rightarrow> 'w run" where
  "run_from validate check execute persist [] p w = (plan_results p, p, w, [])"
| "run_from validate check execute persist (i # is) p w =
     (let (valid, w) = validate w in
      case valid of
        Err e \<Rightarrow> (validation_failure p e, p, w, [])
      | Ok _ \<Rightarrow>
          if \<not> i < length (pp_items p) \<or> pi_status (pp_items p ! i) \<noteq> STATUS_PENDING
          then run_from validate check execute persist is p w
          else let (allowed, w) = check w in
            case allowed of
              Err e \<Rightarrow> (validation_failure p (MarketError (error_text e)), p, w, [])
            | Ok _ \<Rightarrow> run_item execute persist i p (run_from validate check execute persist is) w)"

definition run_pending :: "'w validate \<Rightarrow> 'w check \<Rightarrow> 'w execute \<Rightarrow> 'w persist \<Rightarrow> pending_plan \<Rightarrow> 'w \<Rightarrow> 'w run" where
  "run_pending validate check execute persist p w =
     (let (valid, w) = validate w in
      case valid of
        Err e \<Rightarrow> (validation_failure p e, p, w, [])
      | Ok _ \<Rightarrow> run_from validate check execute persist [0..<length (pp_items p)] p w)"

section \<open>Starting a plan\<close>

definition seed_plan :: "string \<Rightarrow> string \<Rightarrow> plan_item list \<Rightarrow> pending_plan" where
  "seed_plan plan_id now items = \<lparr> pp_plan_id = plan_id, pp_started_at = now,
     pp_items = map (\<lambda>p. plan_item.extend p \<lparr> pi_status = STATUS_PENDING, pi_message = None, pi_order_id = None,
                                   pi_action = None \<rparr>) items \<rparr>"

definition execute_plan :: "'w validate \<Rightarrow> 'w check \<Rightarrow> 'w execute \<Rightarrow> 'w persist \<Rightarrow> ('w \<Rightarrow> journal_state)
    \<Rightarrow> string \<Rightarrow> string \<Rightarrow> plan_item list \<Rightarrow> 'w \<Rightarrow> plan_response \<times> 'w \<times> 'w trace" where
  "execute_plan validate check execute persist journal plan_id now items w =
     (if items = [] then (\<lparr> pn_plan_id = plan_id, pn_results = [], pn_durability_error = None \<rparr>, w, [])
      else if MAX_PLAN_ITEMS < length items
      then (batch_error plan_id (''Batch has '' @ show_nat (length items) @ '' items; the cap is ''
              @ show_nat MAX_PLAN_ITEMS @ ''.''), w, [])
      else case journal w of
        Unfinished \<Rightarrow> (batch_error plan_id
          ''An unfinished batch is saved. Resume or discard it before sending another.'', w, [])
      | UnreadableJournal detail \<Rightarrow> (batch_error plan_id
          (''The saved batch could not be read, so a new one cannot safely replace it. '' @ detail), w, [])
      | Finished \<Rightarrow> (batch_error plan_id
          ''A completed batch is still saved. Retry saving or discard its record before sending another.'', w, [])
      | Absent \<Rightarrow>
          let pending = seed_plan plan_id now items; (saved, w) = persist pending w in
          case saved of
            Err e \<Rightarrow> (validation_failure pending (Invalid (''Could not persist this batch before posting: '' @ e)),
                      w, [(w, EvSaved pending)])
          | Ok _ \<Rightarrow>
              let (resp, p, w', tr) = run_pending validate check execute persist pending w
              in (resp, w', (w, EvSaved pending) # tr))"

text \<open>Plan runs are serialised by a flag: \<open>PlanGuard::acquire\<close> and its \<open>Drop\<close>.\<close>

definition guard_acquire :: "bool \<Rightarrow> bool \<times> bool" where
  "guard_acquire running = (True, \<not> running)"

definition guard_drop :: "bool \<Rightarrow> bool" where
  "guard_drop running = False"

section \<open>What the trace says of an item\<close>

definition started :: "run_event list \<Rightarrow> nat \<Rightarrow> bool" where
  "started evs j \<longleftrightarrow> (\<exists>p. EvExec j p \<in> set evs)"

definition came_back_pending :: "run_event list \<Rightarrow> nat \<Rightarrow> bool" where
  "came_back_pending evs j \<longleftrightarrow> (\<exists>r. EvDone j r \<in> set evs \<and> ir_status r = STATUS_PENDING)"

definition status_at :: "pending_plan \<Rightarrow> nat \<Rightarrow> string" where
  "status_at p j = pi_status (pp_items p ! j)"

definition resumable :: "pending_plan \<Rightarrow> nat \<Rightarrow> bool" where
  "resumable p j \<longleftrightarrow> j < length (pp_items p) \<and> status_at p j = STATUS_PENDING"

text \<open>A run that resumes from \<open>p\<close> executes no item again unless its execution said it was never sent.\<close>

definition crash_safe :: "run_event list \<Rightarrow> pending_plan \<Rightarrow> bool" where
  "crash_safe evs p \<longleftrightarrow> (\<forall>j. resumable p j \<longrightarrow> started evs j \<longrightarrow> came_back_pending evs j)"

fun safe_from :: "('w \<Rightarrow> pending_plan option set) \<Rightarrow> run_event list \<Rightarrow> 'w trace \<Rightarrow> bool" where
  "safe_from saved h [] = True"
| "safe_from saved h ((w, e) # tr) =
     ((\<forall>q. Some q \<in> saved w \<longrightarrow> crash_safe (h @ [e]) q) \<and> safe_from saved (h @ [e]) tr)"

lemma started_simps [simp]:
  "\<not> started [] j" "started (evs @ [EvSaved p]) j = started evs j" "started (evs @ [EvDone i r]) j = started evs j"
  "started (evs @ [EvExec i p]) j \<longleftrightarrow> j = i \<or> started evs j"
  by (auto simp: started_def)

lemma came_back_simps [simp]:
  "\<not> came_back_pending [] j" "came_back_pending (evs @ [EvSaved p]) j = came_back_pending evs j"
  "came_back_pending (evs @ [EvExec i p]) j = came_back_pending evs j"
  "came_back_pending (evs @ [EvDone i r]) j \<longleftrightarrow> (j = i \<and> ir_status r = STATUS_PENDING) \<or> came_back_pending evs j"
  by (auto simp: came_back_pending_def)

lemma crash_safe_simps [simp]:
  "crash_safe [] q" "crash_safe (evs @ [EvSaved p]) q = crash_safe evs q"
  by (simp_all add: crash_safe_def)

lemma crash_safe_exec: "crash_safe evs q \<Longrightarrow> \<not> resumable q i \<Longrightarrow> crash_safe (evs @ [EvExec i p]) q"
  by (auto simp: crash_safe_def)

lemma crash_safe_done: "crash_safe evs q \<Longrightarrow> crash_safe (evs @ [EvDone i r]) q"
  by (auto simp: crash_safe_def)

lemma length_set_item [simp]: "length (pp_items (set_item i f p)) = length (pp_items p)"
  by (simp add: set_item_def)

lemma status_set_item:
  "i < length (pp_items p) \<Longrightarrow> status_at (set_item i f p) j = (if j = i then pi_status (f (pp_items p ! i)) else status_at p j)"
  by (simp add: status_at_def set_item_def nth_list_update)

lemma mark_status [simp]: "pi_status (mark_uncertain i) = STATUS_UNCERTAIN" "pi_status (take_result r i) = ir_status r"
  by (simp_all add: mark_uncertain_def take_result_def)

lemma safe_from_append:
  "safe_from saved h (tr @ tr') \<longleftrightarrow> safe_from saved h tr \<and> safe_from saved (h @ map snd tr) tr'"
  by (induction saved h tr rule: safe_from.induct) auto

lemma safe_from_nth:
  assumes "safe_from saved h tr" and "k < length tr" and "Some q \<in> saved (fst (tr ! k))"
  shows "crash_safe (h @ map snd (take (Suc k) tr)) q"
  using assms
proof (induction saved h tr arbitrary: k rule: safe_from.induct)
  case (2 saved h w e tr)
  then show ?case by (cases k) auto
qed simp

text \<open>The items a trace starts, in order.\<close>

definition starts_of :: "'w trace \<Rightarrow> nat list" where
  "starts_of tr = List.map_filter (\<lambda>(w, e). case e of EvExec i _ \<Rightarrow> Some i | _ \<Rightarrow> None) tr"

lemma starts_of_simps [simp]:
  "starts_of [] = []" "starts_of ((w, EvSaved p) # tr) = starts_of tr" "starts_of ((w, EvDone i r) # tr) = starts_of tr"
  "starts_of ((w, EvExec i p) # tr) = i # starts_of tr"
  by (simp_all add: starts_of_def map_filter_simps)

declare run_from.simps(2) [simp del]

section \<open>Interfaces\<close>

text \<open>
  What a write of the journal promises. \<open>saved w\<close> holds every plan that a crash in the world \<open>w\<close> may
  leave on disk: after a success exactly the plan written, after a failure nothing that was not possible
  before, apart from the plan itself.
\<close>

locale plan_store =
  fixes persist :: "'w persist"
    and saved :: "'w \<Rightarrow> pending_plan option set"
  assumes persist_Ok: "persist p w = (Ok u, w') \<Longrightarrow> saved w' = {Some p}"
    and persist_Err: "persist p w = (Err e, w') \<Longrightarrow> saved w' \<subseteq> insert (Some p) (saved w)"
begin

lemma persist_saved: "persist p w = (r, w') \<Longrightarrow> saved w' \<subseteq> insert (Some p) (saved w)"
  by (cases r) (auto dest: persist_Ok persist_Err)

end

locale plan_runner = plan_store persist saved
  for persist :: "'w persist" and saved :: "'w \<Rightarrow> pending_plan option set" +
  fixes validate :: "'w validate"
    and check :: "'w check"
    and execute :: "'w execute"
  assumes validate_saved: "saved (snd (validate w)) = saved w"
    and check_saved: "saved (snd (check w)) = saved w"
    and execute_saved: "saved (snd (execute item w)) = saved w"
begin

definition run_ok :: "run_event list \<Rightarrow> nat list \<Rightarrow> pending_plan \<Rightarrow> 'w \<Rightarrow> bool" where
  "run_ok h is p w \<longleftrightarrow> distinct is \<and> (\<forall>j\<in>set is. \<not> started h j) \<and> crash_safe h p
     \<and> (\<forall>q. Some q \<in> saved w \<longrightarrow> crash_safe h q)"

lemma run_ok_tl: "run_ok h (i # is) p w \<Longrightarrow> saved w' = saved w \<Longrightarrow> run_ok h is p w'"
  by (simp add: run_ok_def)

lemma run_item_safe:
  assumes ok: "run_ok h (i # is) p w" and i: "resumable p i"
    and rest: "\<And>h' p' w'. run_ok h' is p' w' \<Longrightarrow> safe_from saved h' (snd (snd (snd (rest p' w'))))"
  shows "safe_from saved h (snd (snd (snd (run_item execute persist i p rest w))))"
proof -
  let ?p1 = "set_item i mark_uncertain p"
  obtain s w1 where 1: "persist ?p1 w = (s, w1)" by (cases "persist ?p1 w")
  have len: "i < length (pp_items p)" using i by (simp add: resumable_def)
  have p1: "crash_safe h ?p1" "\<not> resumable ?p1 i"
    using ok len by (auto simp: run_ok_def crash_safe_def resumable_def status_set_item)
  have w1: "\<And>q. Some q \<in> saved w1 \<Longrightarrow> crash_safe h q"
    using persist_saved [OF 1] p1(1) ok by (auto simp: run_ok_def)
  show ?thesis
  proof (cases s)
    case (Inl e)
    with 1 w1 show ?thesis by (simp add: run_item_def)
  next
    case (Inr u)
    then have s1: "saved w1 = {Some ?p1}" using 1 persist_Ok by simp
    obtain r w2 where 2: "execute (plan_item.truncate (pp_items p ! i)) w1 = (r, w2)"
      by (cases "execute (plan_item.truncate (pp_items p ! i)) w1")
    have s2: "saved w2 = {Some ?p1}"
      using execute_saved [of "plan_item.truncate (pp_items p ! i)" w1] 2 s1 by simp
    let ?p2 = "set_item i (take_result r) ?p1"
    obtain t w3 where 3: "persist ?p2 w2 = (t, w3)" by (cases "persist ?p2 w2")
    let ?h = "h @ [EvSaved ?p1, EvExec i ?p1, EvDone i r, EvSaved ?p2]"
    have e1: "crash_safe (h @ [EvSaved ?p1, EvExec i ?p1]) ?p1"
      using crash_safe_exec [of "h @ [EvSaved ?p1]" ?p1 i ?p1] p1 by simp
    then have e2: "crash_safe (h @ [EvSaved ?p1, EvExec i ?p1, EvDone i r]) ?p1"
      using crash_safe_done [of "h @ [EvSaved ?p1, EvExec i ?p1]" ?p1 i r] by simp
    then have e3: "crash_safe ?h ?p1" using crash_safe_simps(2) [of "h @ [EvSaved ?p1, EvExec i ?p1, EvDone i r]"] by simp
    have p2: "crash_safe ?h ?p2"
      unfolding crash_safe_def
    proof (intro allI impI)
      fix j assume "resumable ?p2 j" and st: "started ?h j"
      show "came_back_pending ?h j"
      proof (cases "j = i")
        case True
        with \<open>resumable ?p2 j\<close> len have "ir_status r = STATUS_PENDING"
          by (simp add: resumable_def status_set_item)
        with True show ?thesis by (auto simp: came_back_pending_def)
      next
        case False
        with \<open>resumable ?p2 j\<close> len have "resumable ?p1 j"
          by (simp add: resumable_def status_set_item)
        with e3 st show ?thesis by (simp add: crash_safe_def)
      qed
    qed
    have trace: "safe_from saved h [(w1, EvSaved ?p1), (w1, EvExec i ?p1), (w2, EvDone i r), (w3, EvSaved ?p2)]"
      using w1 s1 s2 p1 e1 e2 e3 p2 persist_saved [OF 3] by auto
    show ?thesis
    proof (cases "is_ok t \<and> ir_status r \<noteq> STATUS_PENDING \<and> ir_status r \<noteq> STATUS_UNCERTAIN")
      case True
      then have "saved w3 = {Some ?p2}" using 3 persist_Ok by (cases t) auto
      then have "run_ok ?h is ?p2 w3"
        using ok p2 by (auto simp: run_ok_def started_def)
      from rest [OF this] trace 1 2 3 Inr True show ?thesis
        by (cases t) (simp_all add: run_item_def trace_first_def safe_from_append Let_def)
    next
      case False
      with trace 1 2 3 Inr show ?thesis
        by (cases t) (auto simp: run_item_def Let_def)
    qed
  qed
qed

lemma run_from_safe:
  "run_ok h is p w \<Longrightarrow> safe_from saved h (snd (snd (snd (run_from validate check execute persist is p w))))"
proof (induction "is" arbitrary: h p w)
  case (Cons i "is")
  obtain v w1 where v: "validate w = (v, w1)" by (cases "validate w")
  obtain a w2 where a: "check w1 = (a, w2)" by (cases "check w1")
  have s: "saved w1 = saved w" "saved w2 = saved w"
    using validate_saved [of w] check_saved [of w1] v a by simp_all
  have ok2: "run_ok h (i # is) p w2" using Cons.prems s by (simp add: run_ok_def)
  have "resumable p i \<Longrightarrow>
      safe_from saved h (snd (snd (snd (run_item execute persist i p (run_from validate check execute persist is) w2))))"
    by (rule run_item_safe [OF ok2 _ Cons.IH])
  with Cons.IH [OF run_ok_tl [OF Cons.prems s(1)]] v a show ?case
    by (auto simp: run_from.simps(2) resumable_def status_at_def split: sum.splits)
qed simp

lemma run_pending_safe: "safe_from saved [] (snd (snd (snd (run_pending validate check execute persist p w))))"
proof -
  obtain v w1 where "validate w = (v, w1)" by (cases "validate w")
  moreover have "run_ok [] [0..<length (pp_items p)] p w1" by (simp add: run_ok_def)
  ultimately show ?thesis
    using run_from_safe by (auto simp: run_pending_def split: sum.splits)
qed

text \<open>The three ways a run of one item ends.\<close>

lemma run_item_cases:
  obtains (unsaved) e w1 where "persist (set_item i mark_uncertain p) w = (Err e, w1)"
      "run_item execute persist i p rest w = (durability_failure p (''Could not save the listing before sending it: '' @ e),
         p, w1, [(w1, EvSaved (set_item i mark_uncertain p))])"
  | (stopped) p1 w1 r w2 p2 w3 resp where "p1 = set_item i mark_uncertain p" "persist p1 w = (Ok (), w1)"
      "p2 = set_item i (take_result r) p1" "saved w3 \<subseteq> {Some p1, Some p2}"
      "pn_durability_error resp = None \<Longrightarrow> saved w3 = {Some p2}"
      "run_item execute persist i p rest w =
         (resp, p2, w3, [(w1, EvSaved p1), (w1, EvExec i p1), (w2, EvDone i r), (w3, EvSaved p2)])"
  | (continued) p1 w1 r w2 p2 w3 where "p1 = set_item i mark_uncertain p" "persist p1 w = (Ok (), w1)"
      "p2 = set_item i (take_result r) p1" "saved w3 = {Some p2}"
      "ir_status r \<noteq> STATUS_PENDING" "ir_status r \<noteq> STATUS_UNCERTAIN"
      "run_item execute persist i p rest w = trace_first
         [(w1, EvSaved p1), (w1, EvExec i p1), (w2, EvDone i r), (w3, EvSaved p2)] (rest p2 w3)"
proof -
  let ?p1 = "set_item i mark_uncertain p" and ?item = "plan_item.truncate (pp_items p ! i)"
  obtain s w1 where 1: "persist ?p1 w = (s, w1)" by (cases "persist ?p1 w")
  show ?thesis
  proof (cases s)
    case (Inl e)
    with 1 show ?thesis by (intro unsaved) (simp_all add: run_item_def)
  next
    case (Inr u)
    obtain r w2 where 2: "execute ?item w1 = (r, w2)" by (cases "execute ?item w1")
    have s2: "saved w2 = {Some ?p1}"
      using execute_saved [of ?item w1] 2 1 Inr persist_Ok by simp
    let ?p2 = "set_item i (take_result r) ?p1"
    obtain t w3 where 3: "persist ?p2 w2 = (t, w3)" by (cases "persist ?p2 w2")
    have s3: "saved w3 \<subseteq> {Some ?p1, Some ?p2}" using persist_saved [OF 3] s2 by auto
    note run = 1 2 3 Inr
    show ?thesis
    proof (cases t)
      case (Inl e)
      with run s3 show ?thesis
        by (intro stopped [where ?w3.0 = w3 and ?p1.0 = ?p1 and r = r and ?w1.0 = w1])
          (simp_all add: run_item_def Let_def durability_failure_def)
    next
      case (Inr u')
      then have s3': "saved w3 = {Some ?p2}" using 3 persist_Ok by simp
      show ?thesis
      proof (cases "ir_status r = STATUS_PENDING \<or> ir_status r = STATUS_UNCERTAIN")
        case True
        with run Inr s3 s3' show ?thesis
          by (intro stopped [where ?w3.0 = w3 and ?p1.0 = ?p1 and r = r and ?w1.0 = w1]) (simp_all add: run_item_def Let_def)
      next
        case False
        with run Inr s3' show ?thesis
          by (intro continued [where ?w3.0 = w3 and ?p1.0 = ?p1 and r = r and ?w1.0 = w1]) (simp_all add: run_item_def Let_def)
      qed
    qed
  qed
qed

text \<open>One turn of the loop, for facts about its outcome that the hooks cannot break.\<close>

lemma run_from_Cons:
  obtains (invalid) e w' where "validate w = (Err e, w')" "saved w' = saved w"
      "run_from validate check execute persist (i # is) p w = (validation_failure p e, p, w', [])"
  | (skip) w' where "saved w' = saved w" "\<not> resumable p i"
      "run_from validate check execute persist (i # is) p w = run_from validate check execute persist is p w'"
  | (refused) e w' where "saved w' = saved w" "resumable p i"
      "run_from validate check execute persist (i # is) p w = (validation_failure p (MarketError e), p, w', [])"
  | (item) w' where "saved w' = saved w" "resumable p i"
      "run_from validate check execute persist (i # is) p w
         = run_item execute persist i p (run_from validate check execute persist is) w'"
proof -
  obtain v w1 where v: "validate w = (v, w1)" by (cases "validate w")
  obtain a w2 where a: "check w1 = (a, w2)" by (cases "check w1")
  have s: "saved w1 = saved w" "saved w2 = saved w"
    using validate_saved [of w] check_saved [of w1] v a by simp_all
  show ?thesis
  proof (cases v)
    case (Inl e)
    with v s show ?thesis by (intro invalid) (simp_all add: run_from.simps(2))
  next
    case (Inr u)
    show ?thesis
    proof (cases "resumable p i")
      case False
      with v Inr s show ?thesis by (intro skip) (auto simp: run_from.simps(2) resumable_def status_at_def)
    next
      case True
      then have "i < length (pp_items p)" "pi_status (pp_items p ! i) = STATUS_PENDING"
        by (simp_all add: resumable_def status_at_def)
      with v a Inr s True show ?thesis by (cases a) (auto simp: run_from.simps(2) intro: refused item)
    qed
  qed
qed

lemma run_from_records:
  "(w', EvExec i q) \<in> set (snd (snd (snd (run_from validate check execute persist is p w)))) \<Longrightarrow>
     saved w' = {Some q} \<and> i < length (pp_items q) \<and> status_at q i = STATUS_UNCERTAIN"
proof (induction "is" arbitrary: p w)
  case (Cons k "is")
  show ?case
  proof (cases rule: run_from_Cons [of w k "is" p])
    case (item v)
    have k: "k < length (pp_items p)" using item(2) by (simp add: resumable_def)
    show ?thesis
      using Cons item k persist_Ok
      by (cases rule: run_item_cases [of k p v "run_from validate check execute persist is"])
        (auto simp: status_set_item trace_first_def)
  qed (use Cons in auto)
qed simp

lemma run_from_starts:
  "distinct is \<Longrightarrow>
     subseq (starts_of (snd (snd (snd (run_from validate check execute persist is p w))))) (filter (resumable p) is)"
proof (induction "is" arbitrary: p w)
  case (Cons k "is")
  show ?case
  proof (cases rule: run_from_Cons [of w k "is" p])
    case (item v)
    have k: "k < length (pp_items p)" using item(2) by (simp add: resumable_def)
    show ?thesis
    proof (cases rule: run_item_cases [of k p v "run_from validate check execute persist is"])
      case (continued p1 w1 r w2 p2 w3)
      have "filter (resumable p2) is = filter (resumable p) is"
        using Cons.prems k continued(1,3) by (intro filter_cong) (auto simp: resumable_def status_set_item)
      with Cons.IH [of p2 w3] Cons.prems have
        "subseq (starts_of (snd (snd (snd (run_from validate check execute persist is p2 w3))))) (filter (resumable p) is)"
        by simp
      then show ?thesis
        using item(2) by (simp add: item(3) continued(7) trace_first_def)
    qed (use item in auto)
  qed (use Cons in auto)
qed simp

lemma run_from_durable:
  assumes "saved w \<subseteq> {Some p}"
    and "run_from validate check execute persist is p w = (resp, p', w', tr)" and "pn_durability_error resp = None"
  shows "saved w' \<subseteq> {Some p'}"
  using assms
proof (induction "is" arbitrary: p w tr)
  case (Cons k "is")
  show ?case
  proof (cases rule: run_from_Cons [of w k "is" p])
    case (item v)
    show ?thesis
    proof (cases rule: run_item_cases [of k p v "run_from validate check execute persist is"])
      case (continued p1 w1 r w2 p2 w3)
      obtain tr' where "run_from validate check execute persist is p2 w3 = (resp, p', w', tr')"
        using Cons.prems(2) item(3) continued(7) by (auto simp: trace_first_def prod_eq_iff)
      then show ?thesis
        by (rule Cons.IH [rotated]) (use Cons.prems(3) continued(4) in auto)
    qed (use Cons.prems item in \<open>auto simp: durability_failure_def\<close>)
  next
    case (skip v)
    then have "run_from validate check execute persist is p v = (resp, p', w', tr)"
      using Cons.prems(2) by simp
    then show ?thesis
      by (rule Cons.IH [rotated]) (use Cons.prems skip(1) in auto)
  qed (use Cons.prems in auto)
qed simp

lemma run_pending_Ok:
  obtains (invalid) e w' where "validate w = (Err e, w')" "saved w' = saved w"
      "run_pending validate check execute persist p w = (validation_failure p e, p, w', [])"
  | (valid) w' where "saved w' = saved w" "run_pending validate check execute persist p w
      = run_from validate check execute persist [0..<length (pp_items p)] p w'"
proof -
  obtain v w1 where v: "validate w = (v, w1)" by (cases "validate w")
  then have "saved w1 = saved w" using validate_saved [of w] by simp
  with v show ?thesis by (cases v) (auto simp: run_pending_def intro: invalid valid)
qed

lemma run_pending_records:
  "(w', EvExec i q) \<in> set (snd (snd (snd (run_pending validate check execute persist p w)))) \<Longrightarrow>
     saved w' = {Some q} \<and> i < length (pp_items q) \<and> status_at q i = STATUS_UNCERTAIN"
  by (cases rule: run_pending_Ok [of w p]) (auto dest: run_from_records)

lemma run_pending_starts:
  "subseq (starts_of (snd (snd (snd (run_pending validate check execute persist p w)))))
     (filter (resumable p) [0..<length (pp_items p)])"
  by (cases rule: run_pending_Ok [of w p]) (auto intro: run_from_starts)

lemma run_pending_durable:
  assumes "saved w \<subseteq> {Some p}"
    and "run_pending validate check execute persist p w = (resp, p', w', tr)" and "pn_durability_error resp = None"
  shows "saved w' \<subseteq> {Some p'}"
proof (cases rule: run_pending_Ok [of w p])
  case (valid v)
  then have "run_from validate check execute persist [0..<length (pp_items p)] p v = (resp, p', w', tr)"
    using assms(2) by simp
  then show ?thesis
    by (rule run_from_durable [rotated]) (use assms valid(1) in auto)
qed (use assms in auto)

end

section \<open>The journal on disk\<close>

text \<open>
  The world of a real run: the journal's file, what each further write of it will meet, and the rest
  (the network, the clock, the inventory), which the other closures move.
\<close>

record 'e world =
  wo_disk :: disk
  wo_faults :: "write_fault list"
  wo_rest :: 'e

definition on_rest :: "('e \<Rightarrow> 'a \<times> 'e) \<Rightarrow> 'e world \<Rightarrow> 'a \<times> 'e world" where
  "on_rest f w = (let (a, e) = f (wo_rest w) in (a, w\<lparr> wo_rest := e \<rparr>))"

definition persist_journal :: "(json \<Rightarrow> string) \<Rightarrow> 'e world persist" where
  "persist_journal to_vec p w =
     (let fault = (case wo_faults w of [] \<Rightarrow> NoFault | f # _ \<Rightarrow> f);
          (d, r) = write_pending_atomic to_vec fault p (wo_disk w)
      in (r, w\<lparr> wo_disk := d, wo_faults := tl (wo_faults w) \<rparr>))"

definition journal_plans :: "(string \<Rightarrow> json option) \<Rightarrow> 'e world \<Rightarrow> pending_plan option set" where
  "journal_plans from_slice w =
     (\<lambda>content. Option.bind content (plan_of_bytes from_slice)) ` set (crash_leaves (wo_disk w))"

lemma persist_journal_store:
  assumes "\<And>v. from_slice (to_vec v) = Some v"
  shows "plan_store (persist_journal to_vec) (journal_plans from_slice)"
proof
  fix p u e and w w' :: "'e world"
  have reads: "plan_of_bytes from_slice (to_vec (plan_json p)) = Some p"
    using assms by (intro plan_of_bytes_json)
  let ?f = "case wo_faults w of [] \<Rightarrow> NoFault | f # _ \<Rightarrow> f"
  obtain d r where d: "write_pending_atomic to_vec ?f p (wo_disk w) = (d, r)"
    by (cases "write_pending_atomic to_vec ?f p (wo_disk w)")
  show "journal_plans from_slice w' = {Some p}" if "persist_journal to_vec p w = (Ok u, w')"
  proof -
    from that d have w': "wo_disk w' = d" and r: "r = Ok u" by (auto simp: persist_journal_def)
    from d r have "set (crash_leaves d) = {Some (to_vec (plan_json p))}" by (auto simp: write_pending_Ok crash_leaves_def)
    with w' reads show ?thesis by (simp add: journal_plans_def)
  qed
  have crash: "set (crash_leaves d) \<subseteq> insert (Some (to_vec (plan_json p))) (set (crash_leaves (wo_disk w)))"
    using write_pending_crash [OF d] .
  show "journal_plans from_slice w' \<subseteq> insert (Some p) (journal_plans from_slice w)"
    if "persist_journal to_vec p w = (Err e, w')"
  proof -
    have "wo_disk w' = d" using that d by (auto simp: persist_journal_def)
    with image_mono [OF crash, of "\<lambda>content. Option.bind content (plan_of_bytes from_slice)"] reads
    show ?thesis by (simp add: journal_plans_def)
  qed
qed

lemma journal_on_rest [simp]: "journal_plans from_slice (snd (on_rest f w)) = journal_plans from_slice w"
  by (simp add: on_rest_def journal_plans_def split: prod.splits)

lemma persist_journal_runner:
  assumes "\<And>v. from_slice (to_vec v) = Some v"
  shows "plan_runner (persist_journal to_vec) (journal_plans from_slice) (on_rest validate) (on_rest check)
    (\<lambda>item. on_rest (execute item))"
  using persist_journal_store [of from_slice to_vec, OF assms]
  by (intro plan_runner.intro plan_runner_axioms.intro) simp_all

interpretation journal: plan_runner "persist_journal unary_print" "journal_plans unary_parse"
    "on_rest validate" "on_rest check" "\<lambda>item. on_rest (execute item)"
  for validate :: "'e validate" and check :: "'e check" and execute :: "'e execute"
  by (rule persist_journal_runner) (rule unary_parse_print)

section \<open>Properties\<close>

text \<open>C1: No crash can make an item be sent twice. Whatever the validations, the governor, the market and
  the disk do during a run, take any moment of it and any plan that a crash at that moment may leave on
  disk (a crash of the process, and on Unix, where the journal's directory is synced, a loss of power): an item that this plan would resume (it is saved as pending) has either not been started by the
  run, or its execution ended with the answer that it was never sent. \<open>to_vec\<close> and \<open>from_slice\<close> print and parse
  JSON, with the parser undoing the printer.\<close>

theorem crash_never_resends:
  assumes "\<And>v. from_slice (to_vec v) = Some v"
    and "run_pending (on_rest validate) (on_rest check) (\<lambda>item. on_rest (execute item)) (persist_journal to_vec) p w
      = (resp, p', w', tr)"
    and "k < length tr" and "Some q \<in> journal_plans from_slice (fst (tr ! k))" and "resumable q j"
    and "started (map snd (take (Suc k) tr)) j"
  shows "came_back_pending (map snd (take (Suc k) tr)) j"
proof -
  have "safe_from (journal_plans from_slice) [] tr"
    using plan_runner.run_pending_safe [OF persist_journal_runner, of from_slice to_vec validate check execute p w,
        OF assms(1)] assms(2) by simp
  from safe_from_nth [OF this assms(3,4)] assms(5,6) show ?thesis
    by (simp add: crash_safe_def)
qed

definition demo_world :: "unit world" where
  "demo_world = \<lparr> wo_disk = demo_disk, wo_faults = [], wo_rest = () \<rparr>"

definition demo_validate :: "unit validate" where "demo_validate w = (Ok (), w)"
definition demo_check_ok :: "unit check" where "demo_check_ok w = (Ok (), w)"

text \<open>Every send comes back pending.\<close>

definition demo_defer :: "unit execute" where
  "demo_defer item w = (\<lparr> ir_slug = it_slug item, ir_status = STATUS_PENDING, ir_message = None,
     ir_order_id = None, ir_action = None \<rparr>, w)"

definition demo_one :: pending_plan where
  "demo_one = demo_plan\<lparr> pp_items := [demo_item ''y'' STATUS_PENDING] \<rparr>"

lemmas demo_eval_run = run_pending_def run_from.simps(2) run_item_def on_rest_def demo_validate_def demo_check_ok_def
  demo_defer_def persist_journal_def demo_world_def demo_disk_def write_pending_atomic_def renamed_def dir_synced_def
  crash_leaves_def Let_def demo_one_def demo_plan_def demo_item_def set_item_def mark_uncertain_def take_result_def resumable_def
  status_at_def

lemma demo_plan_back: "plan_of_bytes unary_parse (unary_print (plan_json p)) = Some p"
  by (intro plan_of_bytes_json unary_parse_print)

lemma demo_run:
  "\<exists>resp p' w' w1 w2 w3 p1 r p2. run_pending (on_rest demo_validate) (on_rest demo_check_ok) (\<lambda>item. on_rest (demo_defer item))
     (persist_journal unary_print) demo_one demo_world
   = (resp, p', w', [(w1, EvSaved p1), (w1, EvExec 0 p1), (w2, EvDone 0 r), (w3, EvSaved p2)])
     \<and> resumable p2 0 \<and> Some p2 \<in> journal_plans unary_parse w3 \<and> Some p1 \<in> journal_plans unary_parse w1
     \<and> status_at p1 0 = STATUS_UNCERTAIN"
  by (simp add: demo_eval_run journal_plans_def demo_plan_back)

theorem crash_never_resends_witness:
  "\<exists>evs. came_back_pending evs 0 \<and> started evs 0"
proof -
  obtain resp p' w' w1 w2 w3 p1 r p2 where
    run: "run_pending (on_rest demo_validate) (on_rest demo_check_ok) (\<lambda>item. on_rest (demo_defer item))
       (persist_journal unary_print) demo_one demo_world
     = (resp, p', w', [(w1, EvSaved p1), (w1, EvExec 0 p1), (w2, EvDone 0 r), (w3, EvSaved p2)])"
    and q: "resumable p2 0" "Some p2 \<in> journal_plans unary_parse w3"
    using demo_run by blast
  have st: "started [EvSaved p1, EvExec 0 p1, EvDone 0 r, EvSaved p2] 0" by (auto simp: started_def)
  from crash_never_resends [OF unary_parse_print run, of 3 p2 0] q st
  show ?thesis by (auto simp: numeral_eq_Suc)
qed

text \<open>A run only starts items the plan holds as pending, each at most once and in the plan's order; and
  when an item starts, the journal on disk has already been saved with that item marked uncertain: a
  crash at that moment can leave nothing else.\<close>

lemma run_saves_before_sending:
  assumes "\<And>v. from_slice (to_vec v) = Some v"
    and "run_pending (on_rest validate) (on_rest check) (\<lambda>item. on_rest (execute item)) (persist_journal to_vec) p w
      = (resp, p', w', tr)"
  shows "subseq (starts_of tr) (filter (resumable p) [0..<length (pp_items p)])
    \<and> (\<forall>v i q. (v, EvExec i q) \<in> set tr \<longrightarrow>
         journal_plans from_slice v = {Some q} \<and> i < length (pp_items q) \<and> status_at q i = STATUS_UNCERTAIN)"
  using plan_runner.run_pending_starts [OF persist_journal_runner, of from_slice to_vec validate check execute p w,
      OF assms(1)]
    plan_runner.run_pending_records [OF persist_journal_runner, of from_slice to_vec _ _ _ validate check execute p w,
      OF assms(1)]
  unfolding assms(2) by auto

lemma run_saves_before_sending_witness:
  "\<exists>w p. journal_plans unary_parse (w :: unit world) = {Some p} \<and> status_at p 0 = STATUS_UNCERTAIN"
proof -
  obtain resp p' w' w1 w2 w3 p1 r p2 where
    run: "run_pending (on_rest demo_validate) (on_rest demo_check_ok) (\<lambda>item. on_rest (demo_defer item))
       (persist_journal unary_print) demo_one demo_world
     = (resp, p', w', [(w1, EvSaved p1), (w1, EvExec 0 p1), (w2, EvDone 0 r), (w3, EvSaved p2)])"
    using demo_run by blast
  from run_saves_before_sending [OF unary_parse_print run] show ?thesis by auto
qed

text \<open>A response without a durability error tells what is on disk: if before the run a crash could leave
  nothing but the plan that was run, then after it a crash can leave nothing but the plan whose rows the run
  ended with.\<close>

lemma run_response_is_durable:
  assumes "\<And>v. from_slice (to_vec v) = Some v"
    and "run_pending (on_rest validate) (on_rest check) (\<lambda>item. on_rest (execute item)) (persist_journal to_vec) p w
      = (resp, p', w', tr)"
    and "journal_plans from_slice w \<subseteq> {Some p}" and "pn_durability_error resp = None"
  shows "journal_plans from_slice w' \<subseteq> {Some p'}"
  by (rule plan_runner.run_pending_durable [OF persist_journal_runner, OF assms(1) assms(3) assms(2) assms(4)])

lemma run_response_is_durable_witness:
  "\<exists>p' w'. journal_plans unary_parse (w' :: unit world) \<subseteq> {Some p'} \<and> resumable p' 0"
proof -
  let ?w = "demo_world\<lparr> wo_disk := \<lparr> dk_now = Some (unary_print (plan_json demo_one)), dk_crash = [], dk_unix = True \<rparr> \<rparr>"
  let ?r = "run_pending (on_rest demo_validate) (on_rest demo_check_ok) (\<lambda>item. on_rest (demo_defer item))
     (persist_journal unary_print) demo_one ?w"
  have "pn_durability_error (fst ?r) = None" and "resumable (fst (snd ?r)) 0"
    by (simp_all add: demo_eval_run plan_results_def)
  moreover have "journal_plans unary_parse ?w \<subseteq> {Some demo_one}"
    by (simp add: journal_plans_def crash_leaves_def demo_plan_back)
  ultimately show ?thesis
    using run_response_is_durable [OF unary_parse_print, of demo_validate demo_check_ok demo_defer demo_one ?w]
    by (cases ?r) auto
qed

text \<open>A saved batch is never replaced: starting a plan while any record is on disk (unfinished,
  finished or unreadable) changes nothing, sends nothing and answers with one error row.\<close>

lemma saved_batch_is_never_replaced:
  assumes "journal w \<noteq> Absent" and "items \<noteq> []"
    and "execute_plan validate check execute persist journal plan_id now items w = (resp, w', tr)"
  shows "w' = w \<and> tr = [] \<and> map ir_status (pn_results resp) = [STATUS_ERROR]"
  using assms by (auto simp: execute_plan_def batch_error_def split: if_splits journal_state.splits)

lemma saved_batch_is_never_replaced_witness:
  "\<exists>resp. execute_plan (on_rest demo_validate) (on_rest demo_check_ok) (\<lambda>item. on_rest (demo_defer item))
     (persist_journal unary_print) (\<lambda>_. Finished) ''p'' ''t'' [demo_plan_item] demo_world = (resp, demo_world, [])
     \<and> map ir_status (pn_results resp) = [STATUS_ERROR]"
proof -
  let ?r = "execute_plan (on_rest demo_validate) (on_rest demo_check_ok) (\<lambda>item. on_rest (demo_defer item))
     (persist_journal unary_print) (\<lambda>_. Finished) ''p'' ''t'' [demo_plan_item] demo_world"
  obtain resp w' tr where r: "?r = (resp, w', tr)" by (cases ?r)
  from saved_batch_is_never_replaced [OF _ _ r] show ?thesis by (simp add: r)
qed

end
