(* ===== verification/Text.thy ===== *)
theory Text
  imports Prelude
begin

text \<open>
  Rust strings where characters matter: a \<open>str\<close> is the list of its scalar values, and bytes read from a
  file become one through UTF-8 decoding. The functions are those of the standard library that the code
  calls, on that representation.
\<close>

type_synonym ustr = "int list"
type_synonym bytes = "8 word list"

definition tx :: "string \<Rightarrow> ustr" where
  "tx s = map of_char s"

section \<open>UTF-8\<close>

text \<open>\<open>std::str::from_utf8\<close>: one character and the rest, by the number of its bytes.\<close>

definition cont :: "int \<Rightarrow> bool" where
  "cont b \<longleftrightarrow> 128 \<le> b \<and> b < 192"

fun utf8_step :: "int list \<Rightarrow> (int \<times> int list) option" where
  "utf8_step [] = None"
| "utf8_step (a # bs) =
     (if a < 128 then Some (a, bs)
      else (case bs of [] \<Rightarrow> None | b # cs \<Rightarrow>
        if \<not> cont b then None
        else if 194 \<le> a \<and> a < 224 then Some ((a - 192) * 64 + (b - 128), cs)
        else (case cs of [] \<Rightarrow> None | c # ds \<Rightarrow>
          if \<not> cont c then None
          else if 224 \<le> a \<and> a < 240
          then (let n = (a - 224) * 4096 + (b - 128) * 64 + (c - 128)
                in if 2048 \<le> n \<and> \<not> (55296 \<le> n \<and> n < 57344) then Some (n, ds) else None)
          else (case ds of [] \<Rightarrow> None | d # es \<Rightarrow>
            if \<not> cont d then None
            else if 240 \<le> a \<and> a < 245
            then (let n = (a - 240) * 262144 + (b - 128) * 4096 + (c - 128) * 64 + (d - 128)
                  in if 65536 \<le> n \<and> n < 1114112 then Some (n, es) else None)
            else None))))"

lemma utf8_step_shorter: "utf8_step bs = Some (c, rest) \<Longrightarrow> length rest < length bs"
  by (cases bs) (auto simp: Let_def split: if_splits list.splits)

function utf8_chars :: "int list \<Rightarrow> ustr option" where
  "utf8_chars bs =
     (if bs = [] then Some []
      else case utf8_step bs of
        None \<Rightarrow> None
      | Some (c, rest) \<Rightarrow> map_option (\<lambda>cs. c # cs) (utf8_chars rest))"
  by pat_completeness auto
termination
  by (relation "measure length") (auto dest: utf8_step_shorter)

declare utf8_chars.simps [simp del]

definition from_utf8 :: "bytes \<Rightarrow> ustr option" where
  "from_utf8 bs = utf8_chars (map uint bs)"

section \<open>White space\<close>

definition is_whitespace :: "int \<Rightarrow> bool" where
  "is_whitespace c \<longleftrightarrow> (9 \<le> c \<and> c \<le> 13) \<or> c \<in> {32, 133, 160, 5760, 8232, 8233, 8239, 8287, 12288}
     \<or> (8192 \<le> c \<and> c \<le> 8202)"

definition trim_start :: "ustr \<Rightarrow> ustr" where
  "trim_start = dropWhile is_whitespace"

definition trim_end_where :: "(int \<Rightarrow> bool) \<Rightarrow> ustr \<Rightarrow> ustr" where
  "trim_end_where P s = rev (dropWhile P (rev s))"

definition trim :: "ustr \<Rightarrow> ustr" where
  "trim s = trim_end_where is_whitespace (trim_start s)"

definition first_word :: "ustr \<Rightarrow> ustr option" where
  "first_word s = (case takeWhile (\<lambda>c. \<not> is_whitespace c) (trim_start s) of [] \<Rightarrow> None | w \<Rightarrow> Some w)"

text \<open>\<open>char::is_control\<close>: the general category Cc.\<close>

definition is_control :: "int \<Rightarrow> bool" where
  "is_control c \<longleftrightarrow> c < 32 \<or> (127 \<le> c \<and> c < 160)"

section \<open>Searching and splitting\<close>

fun starts_with :: "ustr \<Rightarrow> ustr \<Rightarrow> bool" where
  "starts_with [] s \<longleftrightarrow> True"
| "starts_with (p # ps) [] \<longleftrightarrow> False"
| "starts_with (p # ps) (c # s) \<longleftrightarrow> p = c \<and> starts_with ps s"

fun find_text :: "ustr \<Rightarrow> ustr \<Rightarrow> nat option" where
  "find_text p [] = (if p = [] then Some 0 else None)"
| "find_text p (c # s) = (if starts_with p (c # s) then Some 0 else map_option Suc (find_text p s))"

definition contains :: "ustr \<Rightarrow> ustr \<Rightarrow> bool" where
  "contains p s \<longleftrightarrow> find_text p s \<noteq> None"

definition strip_prefix :: "ustr \<Rightarrow> ustr \<Rightarrow> ustr option" where
  "strip_prefix p s = (if starts_with p s then Some (drop (length p) s) else None)"

fun rfind_text :: "ustr \<Rightarrow> ustr \<Rightarrow> nat option" where
  "rfind_text p [] = (if p = [] then Some 0 else None)"
| "rfind_text p (c # s) =
     (case rfind_text p s of Some i \<Rightarrow> Some (Suc i)
      | None \<Rightarrow> if starts_with p (c # s) then Some 0 else None)"

definition rsplit_once :: "ustr \<Rightarrow> ustr \<Rightarrow> (ustr \<times> ustr) option" where
  "rsplit_once p s = map_option (\<lambda>i. (take i s, drop (i + length p) s)) (rfind_text p s)"

text \<open>\<open>splitn(2, ' ')\<close>: the part before the first space and the part after it.\<close>

definition split_space :: "ustr \<Rightarrow> ustr \<times> ustr" where
  "split_space s = (takeWhile (\<lambda>c. c \<noteq> 32) s, drop 1 (dropWhile (\<lambda>c. c \<noteq> 32) s))"

text \<open>\<open>split_inclusive\<close> at a delimiter: every piece but the last ends with one.\<close>

fun split_after :: "'a \<Rightarrow> 'a list \<Rightarrow> 'a list list" where
  "split_after d [] = []"
| "split_after d (x # xs) =
     (if x = d then [x] # split_after d xs
      else case split_after d xs of [] \<Rightarrow> [[x]] | l # ls \<Rightarrow> (x # l) # ls)"

definition strip_line_end :: "ustr \<Rightarrow> ustr" where
  "strip_line_end l =
     (if l \<noteq> [] \<and> last l = 10
      then (let l' = butlast l in if l' \<noteq> [] \<and> last l' = 13 then butlast l' else l')
      else l)"

definition lines_of :: "ustr \<Rightarrow> ustr list" where
  "lines_of s = map strip_line_end (split_after 10 s)"

fun join_lines :: "ustr list \<Rightarrow> ustr" where
  "join_lines [] = []"
| "join_lines [l] = l"
| "join_lines (l # ls) = l @ 10 # join_lines ls"

section \<open>Numbers\<close>

definition digit :: "int \<Rightarrow> bool" where
  "digit c \<longleftrightarrow> 48 \<le> c \<and> c \<le> 57"

definition decimal_value :: "ustr \<Rightarrow> int" where
  "decimal_value = foldl (\<lambda>n c. 10 * n + (c - 48)) 0"

text \<open>\<open>parse::<i64>\<close>.\<close>

definition parse_i64 :: "ustr \<Rightarrow> i64 option" where
  "parse_i64 s =
     (let (neg, ds) = (case s of c # cs \<Rightarrow> if c = 45 then (True, cs) else if c = 43 then (False, cs) else (False, s)
                       | [] \<Rightarrow> (False, []));
          n = (if neg then - decimal_value ds else decimal_value ds)
      in if ds \<noteq> [] \<and> list_all digit ds \<and> i64_range n then Some n else None)"

lemma parse_i64_range: "parse_i64 s = Some n \<Longrightarrow> i64_range n"
  by (auto simp: parse_i64_def Let_def split: if_splits list.splits prod.splits)

text \<open>Whether \<open>parse::<f64>\<close> succeeds: a sign, then a decimal with an optional exponent, or a name.\<close>

definition strip_sign :: "ustr \<Rightarrow> ustr" where
  "strip_sign s = (case s of c # cs \<Rightarrow> if c = 43 \<or> c = 45 then cs else s | [] \<Rightarrow> [])"

definition lower_ascii :: "ustr \<Rightarrow> ustr" where
  "lower_ascii = map (\<lambda>c. if 65 \<le> c \<and> c \<le> 90 then c + 32 else c)"

definition is_f64 :: "ustr \<Rightarrow> bool" where
  "is_f64 s \<longleftrightarrow>
     (let s = strip_sign s;
          whole = takeWhile digit s; r = dropWhile digit s;
          (frac, r) = (case r of c # cs \<Rightarrow> if c = 46 then (takeWhile digit cs, dropWhile digit cs) else ([], r)
                       | [] \<Rightarrow> ([], []));
          exponent_ok = (case r of [] \<Rightarrow> True
                         | c # cs \<Rightarrow> (c = 101 \<or> c = 69) \<and> strip_sign cs \<noteq> [] \<and> list_all digit (strip_sign cs))
      in lower_ascii s \<in> {tx ''inf'', tx ''infinity'', tx ''nan''}
         \<or> ((whole \<noteq> [] \<or> frac \<noteq> []) \<and> exponent_ok))"

text \<open>\<open>split_whitespace\<close>, \<open>strip_suffix\<close>, \<open>parse::<u64>\<close>.\<close>

fun words_from :: "ustr \<Rightarrow> ustr \<Rightarrow> ustr list" where
  "words_from cur [] = (if cur = [] then [] else [rev cur])"
| "words_from cur (c # s) =
     (if \<not> is_whitespace c then words_from (c # cur) s
      else if cur = [] then words_from [] s else rev cur # words_from [] s)"

definition split_whitespace :: "ustr \<Rightarrow> ustr list" where
  "split_whitespace = words_from []"

definition strip_suffix :: "ustr \<Rightarrow> ustr \<Rightarrow> ustr option" where
  "strip_suffix p s = map_option rev (strip_prefix (rev p) (rev s))"

definition parse_u64 :: "ustr \<Rightarrow> u64 option" where
  "parse_u64 s =
     (let ds = (case s of c # cs \<Rightarrow> if c = 43 then cs else s | [] \<Rightarrow> [])
      in if ds \<noteq> [] \<and> list_all digit ds \<and> decimal_value ds < 2 ^ 64 then Some (word_of_int (decimal_value ds)) else None)"

definition is_ascii_uppercase :: "int \<Rightarrow> bool" where
  "is_ascii_uppercase c \<longleftrightarrow> 65 \<le> c \<and> c \<le> 90"

text \<open>The characters of a string kept as its bytes, and \<open>Display\<close> for \<open>i64\<close>.\<close>

definition chars_of :: "string \<Rightarrow> ustr" where
  "chars_of s = (case from_utf8 (map of_char s) of Some cs \<Rightarrow> cs | None \<Rightarrow> [])"

definition show_i64 :: "i64 \<Rightarrow> ustr" where
  "show_i64 i = (if i < 0 then tx ''-'' @ tx (show_nat (nat (- i))) else tx (show_nat (nat i)))"

fun join_with :: "ustr \<Rightarrow> ustr list \<Rightarrow> ustr" where
  "join_with d [] = []"
| "join_with d [l] = l"
| "join_with d (l # ls) = l @ d @ join_with d ls"

text \<open>\<open>str::len\<close>: the bytes of the UTF-8 encoding.\<close>

definition char_len :: "int \<Rightarrow> nat" where
  "char_len c = (if c < 128 then 1 else if c < 2048 then 2 else if c < 65536 then 3 else 4)"

definition byte_len :: "ustr \<Rightarrow> nat" where
  "byte_len s = sum_list (map char_len s)"

section \<open>Occurrences\<close>

lemma starts_with_iff: "starts_with p s \<longleftrightarrow> (\<exists>t. s = p @ t)"
  by (induction p s rule: starts_with.induct) auto

lemma find_text_Some: "find_text p s = Some i \<Longrightarrow> \<exists>t. s = take i s @ p @ t"
proof (induction s arbitrary: i)
  case (Cons c s)
  show ?case
  proof (cases "starts_with p (c # s)")
    case True
    with Cons.prems show ?thesis by (auto simp: starts_with_iff)
  next
    case False
    with Cons.prems obtain j where "find_text p s = Some j" "i = Suc j" by auto
    with Cons.IH [of j] show ?thesis by auto
  qed
qed (simp split: if_splits)

lemma find_text_first: "find_text p s = Some i \<Longrightarrow> s = u @ p @ v \<Longrightarrow> i \<le> length u"
proof (induction s arbitrary: i u)
  case (Cons c s)
  show ?case
  proof (cases "starts_with p (c # s)")
    case True
    then have "find_text p (c # s) = Some 0" by simp
    with Cons.prems(1) show ?thesis by simp
  next
    case False
    with Cons.prems(1) obtain j where j: "find_text p s = Some j" "i = Suc j" by auto
    have "u \<noteq> []" using False Cons.prems(2) by (auto simp: starts_with_iff)
    then obtain u' where "u = c # u'" "s = u' @ p @ v" using Cons.prems(2) by (cases u) auto
    with Cons.IH [OF j(1)] j(2) show ?thesis by simp
  qed
qed (simp split: if_splits)

lemma find_text_None: "find_text p s = None \<Longrightarrow> s \<noteq> u @ p @ v"
proof (induction s arbitrary: u)
  case (Cons c s)
  then show ?case by (cases u) (auto simp: starts_with_iff split: if_splits)
qed (simp split: if_splits)

text \<open>\<open>split_once\<close> and \<open>ends_with\<close>.\<close>

definition split_once :: "ustr \<Rightarrow> ustr \<Rightarrow> (ustr \<times> ustr) option" where
  "split_once p s = map_option (\<lambda>i. (take i s, drop (i + length p) s)) (find_text p s)"

definition ends_with :: "ustr \<Rightarrow> ustr \<Rightarrow> bool" where
  "ends_with p s \<longleftrightarrow> starts_with (rev p) (rev s)"

text \<open>
  \<open>String::from_utf8_lossy\<close>: an invalid sequence becomes U+FFFD, once for each longest part that starts a valid one.
\<close>

definition second_ok :: "int \<Rightarrow> int \<Rightarrow> bool" where
  "second_ok a b \<longleftrightarrow>
     (if a = 224 then 160 \<le> b \<and> b < 192 else if a = 237 then 128 \<le> b \<and> b < 160
      else if a = 240 then 144 \<le> b \<and> b < 192 else if a = 244 then 128 \<le> b \<and> b < 144 else cont b)"

fun invalid_part :: "int list \<Rightarrow> nat" where
  "invalid_part (a # b # c # bs) =
     (if 224 \<le> a \<and> a < 245 \<and> second_ok a b then (if 240 \<le> a \<and> cont c then 3 else 2) else 1)"
| "invalid_part [a, b] = (if 224 \<le> a \<and> a < 245 \<and> second_ok a b then 2 else 1)"
| "invalid_part bs = 1"

lemma invalid_part_pos: "0 < invalid_part bs"
  by (cases bs rule: invalid_part.cases) auto

function utf8_lossy :: "int list \<Rightarrow> ustr" where
  "utf8_lossy bs =
     (if bs = [] then []
      else case utf8_step bs of
        None \<Rightarrow> 65533 # utf8_lossy (drop (invalid_part bs) bs)
      | Some (c, rest) \<Rightarrow> c # utf8_lossy rest)"
  by pat_completeness auto
termination
  by (relation "measure length") (auto simp: invalid_part_pos dest: utf8_step_shorter)

declare utf8_lossy.simps [simp del]

definition from_utf8_lossy :: "bytes \<Rightarrow> ustr" where
  "from_utf8_lossy bs = utf8_lossy (map uint bs)"

text \<open>\<open>u64::from_str_radix(s, 16)\<close>.\<close>

definition hex_digit :: "int \<Rightarrow> int option" where
  "hex_digit c =
     (if digit c then Some (c - 48) else if 65 \<le> c \<and> c \<le> 70 then Some (c - 55)
      else if 97 \<le> c \<and> c \<le> 102 then Some (c - 87) else None)"

definition is_hexdigit :: "int \<Rightarrow> bool" where
  "is_hexdigit c \<longleftrightarrow> hex_digit c \<noteq> None"

definition parse_hex :: "ustr \<Rightarrow> (string, nat) result" where
  "parse_hex s =
     (let ds = (case s of c # cs \<Rightarrow> if c = 43 then cs else s | [] \<Rightarrow> []) in
      if s = [] then Err ''cannot parse integer from empty string''
      else if ds = [] \<or> \<not> list_all is_hexdigit ds then Err ''invalid digit found in string''
      else let n = foldl (\<lambda>n c. 16 * n + unwrap_or (hex_digit c) 0) 0 ds
           in if n < 2 ^ 64 then Ok (nat n) else Err ''number too large to fit in target type'')"

section \<open>Lines of a byte stream\<close>

lemma concat_split_after: "concat (split_after d xs) = xs"
  by (induction xs) (auto split: list.split)

lemma split_after_append: "xs = [] \<or> last xs = d \<Longrightarrow> split_after d (xs @ ys) = split_after d xs @ split_after d ys"
proof (induction xs)
  case (Cons x xs)
  show ?case
  proof (cases "xs = []")
    case True
    with Cons show ?thesis by simp
  next
    case False
    with Cons have eq: "split_after d (xs @ ys) = split_after d xs @ split_after d ys" by simp
    have "split_after d xs \<noteq> []" using False concat_split_after [of d xs] by force
    with eq show ?thesis by (cases "split_after d xs") auto
  qed
qed simp

end
