(* ===== verification/Trade_Log.thy ===== *)
theory Trade_Log
  imports Text
begin

text \<open>
  Completed trades in the game's log (\<open>services/game_log/eelog.rs\<close>, \<open>contracts/trading.rs\<close>): the text of a
  trade dialog, and the machine that turns log lines into confirmed trades. Lines and names are lists of
  characters (\<open>ustr\<close>); quantities and platinum are \<open>i64\<close> values whose addition wraps.
\<close>

section \<open>Data\<close>

record trade_item =
  ti_name :: ustr
  ti_qty :: i64
  ti_direction :: ustr

record trade_event =
  te_partner :: ustr
  te_kind :: ustr
  te_plat :: i64
  te_items :: "trade_item list"
  te_log_stamp :: "ustr option"

record log_position =
  lp_session :: string
  lp_start :: u64
  lp_end :: u64
  lp_observed_after :: i64

definition DIALOG_START :: ustr where "DIALOG_START = tx ''Are you sure you want to accept this trade?''"
definition TRADE_SUCCESS :: ustr where "TRADE_SUCCESS = tx ''The trade was successful!''"
definition DIALOG_TIMEOUT_MS :: u64 where "DIALOG_TIMEOUT_MS = 120000"

section \<open>Lines\<close>

definition is_glyph :: "int \<Rightarrow> bool" where
  "is_glyph c \<longleftrightarrow> (57344 \<le> c \<and> c \<le> 63743) \<or> (983040 \<le> c \<and> c \<le> 1048573)"

definition strip_glyphs :: "ustr \<Rightarrow> ustr" where
  "strip_glyphs s = trim (filter (\<lambda>c. \<not> is_glyph c) s)"

definition is_framework_line :: "ustr \<Rightarrow> bool" where
  "is_framework_line line =
     (let (stamp, rest) = split_space (trim_start line)
      in is_f64 stamp \<and> (contains (tx ''[Info]'') rest \<or> contains (tx ''[Error]'') rest
                          \<or> contains (tx ''[Warning]'') rest))"

definition arg_tails :: "ustr list" where
  "arg_tails = map tx ['', leftItem='', '' leftItem='', '', rightItem='', '' rightItem='', '', title='', '' title='']"

definition strip_arg_tail :: "ustr \<Rightarrow> ustr" where
  "strip_arg_tail line =
     take (fold (\<lambda>key cut. case find_text key line of Some i \<Rightarrow> min cut i | None \<Rightarrow> cut) arg_tails (length line)) line"

section \<open>A side of the dialog\<close>

definition add_item :: "ustr \<Rightarrow> ustr \<Rightarrow> i64 \<Rightarrow> trade_item list \<Rightarrow> trade_item list" where
  "add_item direction name qty items =
     (if \<exists>i\<in>set items. ti_name i = name
      then (let k = length (takeWhile (\<lambda>i. ti_name i \<noteq> name) items)
            in items[k := (items ! k)\<lparr> ti_qty := i64_wrap (ti_qty (items ! k) + qty) \<rparr>])
      else items @ [\<lparr> ti_name = name, ti_qty = qty, ti_direction = direction \<rparr>])"

text \<open>\<open>"Platinum"\<close> or \<open>"Platinum x N"\<close>.\<close>

definition platinum_line :: "ustr \<Rightarrow> i64 option" where
  "platinum_line cleaned =
     (case strip_prefix (tx ''Platinum'') cleaned of
        None \<Rightarrow> None
      | Some rest \<Rightarrow>
          if trim rest = [] then Some 1
          else Option.bind (strip_prefix (tx ''x'') (trim rest)) (\<lambda>n. parse_i64 (trim n)))"

definition item_line :: "ustr \<Rightarrow> ustr \<times> i64" where
  "item_line cleaned =
     (case rsplit_once (tx '' x '') cleaned of
        Some (n, q) \<Rightarrow> (case parse_i64 (trim q) of Some k \<Rightarrow> (trim n, k) | None \<Rightarrow> (cleaned, 1))
      | None \<Rightarrow> (cleaned, 1))"

definition block_end :: "ustr \<Rightarrow> bool" where
  "block_end line \<longleftrightarrow> starts_with (tx ''leftItem='') line \<or> starts_with (tx ''rightItem='') line
     \<or> starts_with (tx ''title='') line"

definition clean_line :: "ustr \<Rightarrow> ustr" where
  "clean_line line = strip_glyphs (trim_end_where (\<lambda>c. c = 13) (strip_arg_tail line))"

fun parse_lines :: "ustr \<Rightarrow> ustr list \<Rightarrow> trade_item list \<Rightarrow> i64 \<Rightarrow> trade_item list \<times> i64" where
  "parse_lines direction [] items plat = (items, plat)"
| "parse_lines direction (raw # rest) items plat =
     (let line = trim raw; cleaned = clean_line line in
      if line = [] then parse_lines direction rest items plat
      else if block_end line then (items, plat)
      else if is_framework_line line \<or> cleaned = [] then parse_lines direction rest items plat
      else case platinum_line cleaned of
        Some n \<Rightarrow> parse_lines direction rest items (i64_wrap (plat + n))
      | None \<Rightarrow> (let (name, qty) = item_line cleaned
                 in parse_lines direction rest (add_item direction name qty items) plat))"

definition parse_item_block :: "ustr \<Rightarrow> ustr \<Rightarrow> trade_item list \<times> i64" where
  "parse_item_block block direction = parse_lines direction (lines_of block) [] 0"

section \<open>The dialog\<close>

definition trade_kind :: "i64 \<Rightarrow> i64 \<Rightarrow> ustr" where
  "trade_kind gained spent =
     (if 0 < gained \<and> spent = 0 then tx ''sale''
      else if 0 < spent \<and> gained = 0 then tx ''purchase'' else tx ''trade'')"

definition parse_trade_dialog :: "ustr list \<Rightarrow> trade_event option" where
  "parse_trade_dialog lines =
     (let whole = join_lines lines in
      Option.bind (find_text (tx ''You are offering:'') whole) (\<lambda>start.
      let desc = drop start whole in
      Option.bind (find_text (tx ''and will receive from'') desc) (\<lambda>divider.
      let rest = drop (divider + length (tx ''and will receive from'')) desc in
      Option.bind (find_text (tx ''the following:'') rest) (\<lambda>following.
      let offering = drop (length (tx ''You are offering:'')) (take divider desc);
          receiving = drop (following + length (tx ''the following:'')) rest;
          (given, spent) = parse_item_block offering (tx ''given'');
          (received, gained) = parse_item_block receiving (tx ''received'');
          stamp = Option.bind (first_of lines) first_word
      in Some \<lparr> te_partner = strip_glyphs (trim (take following rest)), te_kind = trade_kind gained spent,
                te_plat = max gained spent, te_items = given @ received,
                te_log_stamp = opt_filter is_f64 stamp \<rparr>))))"

section \<open>The machine\<close>

record machine =
  tm_buffer :: "ustr list option"
  tm_sealed :: bool
  tm_started_ms :: u64

definition new_machine :: machine where
  "new_machine = \<lparr> tm_buffer = None, tm_sealed = False, tm_started_ms = 0 \<rparr>"

text \<open>The first half of \<open>feed\<close>: the dialog's buffer.\<close>

definition buffer_line :: "ustr \<Rightarrow> u64 \<Rightarrow> machine \<Rightarrow> machine" where
  "buffer_line line now m =
     (if contains DIALOG_START line
      then \<lparr> tm_buffer = Some [line], tm_sealed = contains (tx ''leftItem='') line \<or> contains (tx ''rightItem='') line,
             tm_started_ms = now \<rparr>
      else case tm_buffer m of
        None \<Rightarrow> m
      | Some buf \<Rightarrow>
          if DIALOG_TIMEOUT_MS < sat_sub now (tm_started_ms m)
          then m\<lparr> tm_buffer := None, tm_sealed := False \<rparr>
          else if is_framework_line line then m\<lparr> tm_sealed := True \<rparr>
          else if \<not> tm_sealed m then m\<lparr> tm_buffer := Some (buf @ [line]) \<rparr>
          else m)"

definition feed :: "ustr \<Rightarrow> u64 \<Rightarrow> machine \<Rightarrow> machine \<times> trade_event option" where
  "feed line now m =
     (let m = buffer_line line now m in
      if contains TRADE_SUCCESS line
      then case tm_buffer m of
             Some buf \<Rightarrow> (m\<lparr> tm_buffer := None, tm_sealed := False \<rparr>, parse_trade_dialog buf)
           | None \<Rightarrow> (m, None)
      else (m, None))"

section \<open>Lemmas\<close>

lemma first_index:
  assumes "\<exists>x\<in>set xs. P x"
  shows "length (takeWhile (\<lambda>x. \<not> P x) xs) < length xs \<and> P (xs ! length (takeWhile (\<lambda>x. \<not> P x) xs))"
  using assms by (induction xs) auto

lemma add_item_names:
  "distinct (map ti_name items) \<Longrightarrow> distinct (map ti_name (add_item d name q items))
     \<and> set (map ti_name (add_item d name q items)) = insert name (set (map ti_name items))"
proof (cases "\<exists>i\<in>set items. ti_name i = name")
  case True
  let ?k = "length (takeWhile (\<lambda>i. ti_name i \<noteq> name) items)"
  have k: "?k < length items" "ti_name (items ! ?k) = name"
    using first_index [OF True] by simp_all
  then have "map ti_name (add_item d name q items) = (map ti_name items)[?k := map ti_name items ! ?k]"
    using True by (simp add: add_item_def Let_def map_update)
  then have eq: "map ti_name (add_item d name q items) = map ti_name items" by simp
  have "name \<in> set (map ti_name items)" using True by auto
  then have "insert name (set (map ti_name items)) = set (map ti_name items)" by (rule insert_absorb)
  moreover assume "distinct (map ti_name items)"
  ultimately show ?thesis by (simp add: eq del: set_map)
qed (auto simp: add_item_def)

definition well_read :: "ustr \<Rightarrow> trade_item list \<Rightarrow> bool" where
  "well_read direction items \<longleftrightarrow> distinct (map ti_name items)
     \<and> (\<forall>i\<in>set items. ti_direction i = direction \<and> i64_range (ti_qty i))"

lemma item_line_range: "item_line s = (n, q) \<Longrightarrow> i64_range q"
  by (auto simp: item_line_def i64_range_def dest!: parse_i64_range split: option.splits)

lemma well_read_add_item: "well_read d items \<Longrightarrow> i64_range q \<Longrightarrow> well_read d (add_item d name q items)"
proof -
  assume wr: "well_read d items" and q: "i64_range q"
  have "\<forall>i\<in>set (add_item d name q items). ti_direction i = d \<and> i64_range (ti_qty i)"
  proof (cases "\<exists>i\<in>set items. ti_name i = name")
    case True
    let ?k = "length (takeWhile (\<lambda>i. ti_name i \<noteq> name) items)"
    have "?k < length items" using first_index [OF True] by simp
    then have mem: "items ! ?k \<in> set items" by simp
    have all: "\<And>i. i \<in> set items \<Longrightarrow> ti_direction i = d \<and> i64_range (ti_qty i)"
      using wr by (simp add: well_read_def)
    have "set (add_item d name q items)
        \<subseteq> insert ((items ! ?k)\<lparr> ti_qty := i64_wrap (ti_qty (items ! ?k) + q) \<rparr>) (set items)"
      using True set_update_subset_insert by (simp add: add_item_def Let_def)
    moreover have "ti_direction (items ! ?k) = d" using all [OF mem] by simp
    ultimately show ?thesis using all by (fastforce simp: i64_wrap_range)
  next
    case False
    with wr q show ?thesis by (auto simp: add_item_def well_read_def)
  qed
  with add_item_names wr show ?thesis by (auto simp: well_read_def)
qed

lemma parse_lines_well_read:
  "well_read d items \<Longrightarrow> i64_range plat \<Longrightarrow>
     well_read d (fst (parse_lines d ls items plat)) \<and> i64_range (snd (parse_lines d ls items plat))"
proof (induction d ls items plat rule: parse_lines.induct)
  case (2 d raw rest items plat)
  obtain n q where il: "item_line (clean_line (trim raw)) = (n, q)"
    by (cases "item_line (clean_line (trim raw))")
  have added: "well_read d (add_item d n q items)"
    by (rule well_read_add_item [OF "2.prems"(1) item_line_range [OF il]])
  let ?line = "trim raw" and ?cleaned = "clean_line (trim raw)"
  consider "?line = []" | "?line \<noteq> []" "block_end ?line"
    | "?line \<noteq> []" "\<not> block_end ?line" "is_framework_line ?line \<or> ?cleaned = []"
    | "?line \<noteq> []" "\<not> block_end ?line" "\<not> (is_framework_line ?line \<or> ?cleaned = [])"
    by blast
  then show ?case
  proof cases
    case 1
    then show ?thesis using "2.IH"(1) [OF refl refl] "2.prems" by simp
  next
    case 2
    with "2.prems" show ?thesis by simp
  next
    case 3
    then show ?thesis using "2.IH"(2) [OF refl refl] "2.prems" by simp
  next
    case 4
    show ?thesis
    proof (cases "platinum_line ?cleaned")
      case None
      then show ?thesis using "2.IH"(3) [OF refl refl 4 None il [symmetric] refl] 4 il added "2.prems" by simp
    next
      case (Some n)
      then show ?thesis using "2.IH"(4) [OF refl refl 4 Some] 4 "2.prems" by (simp add: i64_wrap_range)
    qed
  qed
qed simp

lemma parse_item_block_well_read:
  "parse_item_block block d = (items, plat) \<Longrightarrow> well_read d items \<and> i64_range plat"
  using parse_lines_well_read [of d "[]" 0 "lines_of block"]
  by (simp add: parse_item_block_def well_read_def i64_range_def)

section \<open>The machine against the log's history\<close>

text \<open>
  What the machine should hold after a history of lines: the last dialog opened, if no success line
  came since and every line since came within the time-out of its opening. The lines of that dialog are
  those up to the framework's next line, or its one line where the arguments are glued to it.
\<close>

type_synonym history = "(ustr \<times> u64) list"

definition machine_after :: "history \<Rightarrow> machine" where
  "machine_after h = fold (\<lambda>(l, t) m. fst (feed l t m)) h new_machine"

definition self_contained :: "ustr \<Rightarrow> bool" where
  "self_contained l \<longleftrightarrow> contains (tx ''leftItem='') l \<or> contains (tx ''rightItem='') l"

definition within :: "u64 \<Rightarrow> ustr \<times> u64 \<Rightarrow> bool" where
  "within t0 e \<longleftrightarrow> \<not> contains DIALOG_START (fst e) \<and> sat_sub (snd e) t0 \<le> DIALOG_TIMEOUT_MS"

definition opened :: "history \<Rightarrow> ustr \<Rightarrow> u64 \<Rightarrow> history \<Rightarrow> bool" where
  "opened h l0 t0 since \<longleftrightarrow>
     (\<exists>before. h = before @ (l0, t0) # since) \<and> contains DIALOG_START l0 \<and> \<not> contains TRADE_SUCCESS l0
     \<and> list_all (within t0) since \<and> list_all (\<lambda>e. \<not> contains TRADE_SUCCESS (fst e)) since"

definition dialog_text :: "ustr \<Rightarrow> history \<Rightarrow> ustr list" where
  "dialog_text l0 since =
     l0 # (if self_contained l0 then [] else takeWhile (\<lambda>l. \<not> is_framework_line l) (map fst since))"

lemma opened_snoc:
  "opened (h @ [(l, t)]) l0 t0 since \<longleftrightarrow>
     \<not> contains TRADE_SUCCESS l \<and>
     (if contains DIALOG_START l then l0 = l \<and> t0 = t \<and> since = []
      else sat_sub t t0 \<le> DIALOG_TIMEOUT_MS \<and> (\<exists>s. since = s @ [(l, t)] \<and> opened h l0 t0 s))"
proof (cases since rule: rev_cases)
  case Nil
  then show ?thesis by (auto simp: opened_def)
next
  case (snoc s e)
  then show ?thesis by (cases e) (auto simp: opened_def within_def)
qed

lemma opened_Nil [simp]: "\<not> opened [] l0 t0 since"
  by (simp add: opened_def)

lemma opened_unique: "opened h l0 t0 s \<Longrightarrow> opened h l1 t1 s' \<Longrightarrow> l1 = l0 \<and> t1 = t0 \<and> s' = s"
proof (induction h arbitrary: s s' rule: rev_induct)
  case (snoc e h)
  then show ?case by (cases e) (auto simp: opened_snoc split: if_splits)
qed simp

definition tracks :: "history \<Rightarrow> machine \<Rightarrow> bool" where
  "tracks h m \<longleftrightarrow>
     (case tm_buffer m of
        None \<Rightarrow> \<forall>l0 t0 since. \<not> opened h l0 t0 since
      | Some buf \<Rightarrow> \<exists>l0 t0 since. opened h l0 t0 since \<and> buf = dialog_text l0 since \<and> tm_started_ms m = t0
          \<and> tm_sealed m = (self_contained l0 \<or> list_ex (\<lambda>e. is_framework_line (fst e)) since))"

text \<open>The buffer after the line itself has been taken in, before a success line empties it.\<close>

definition dialog_at :: "history \<Rightarrow> ustr \<Rightarrow> u64 \<Rightarrow> ustr list \<Rightarrow> bool" where
  "dialog_at h line now buf \<longleftrightarrow>
     (if contains DIALOG_START line then buf = [line]
      else \<exists>l0 t0 since. opened h l0 t0 since \<and> within t0 (line, now)
             \<and> buf = dialog_text l0 (since @ [(line, now)]))"

lemma takeWhile_snoc:
  "takeWhile P (xs @ [x]) = (if list_all P xs then (if P x then xs @ [x] else xs) else takeWhile P xs)"
  by (induction xs) auto

lemma dialog_text_snoc:
  "dialog_text l0 (since @ [(line, now)]) =
     (if self_contained l0 \<or> list_ex (\<lambda>e. is_framework_line (fst e)) since \<or> is_framework_line line
      then dialog_text l0 since else dialog_text l0 since @ [line])"
proof -
  have none: "list_all (\<lambda>l. \<not> is_framework_line l) (map fst since) \<longleftrightarrow> \<not> list_ex (\<lambda>e. is_framework_line (fst e)) since"
    by (auto simp: list_all_iff list_ex_iff)
  have all: "list_all P xs \<Longrightarrow> takeWhile P xs = xs" for P and xs :: "ustr list"
    by (induction xs) auto
  show ?thesis
    by (cases "list_ex (\<lambda>e. is_framework_line (fst e)) since") (simp_all add: dialog_text_def takeWhile_snoc none all)
qed

lemma buffer_line_tracks:
  assumes "tracks h m"
  shows "tm_buffer (buffer_line line now m) = Some buf \<longleftrightarrow> dialog_at h line now buf"
proof (cases "contains DIALOG_START line")
  case False
  show ?thesis
  proof (cases "tm_buffer m")
    case None
    with assms False show ?thesis by (auto simp: tracks_def buffer_line_def dialog_at_def)
  next
    case (Some b)
    then obtain l0 t0 since where o: "opened h l0 t0 since" and b: "b = dialog_text l0 since"
      and m: "tm_started_ms m = t0" "tm_sealed m = (self_contained l0 \<or> list_ex (\<lambda>e. is_framework_line (fst e)) since)"
      using assms by (auto simp: tracks_def)
    have "opened h l1 t1 s \<longleftrightarrow> l1 = l0 \<and> t1 = t0 \<and> s = since" for l1 t1 s
      using o opened_unique [OF o] by blast
    then have "dialog_at h line now buf \<longleftrightarrow> within t0 (line, now) \<and> buf = dialog_text l0 (since @ [(line, now)])"
      using False by (simp add: dialog_at_def)
    also have "\<dots> \<longleftrightarrow> tm_buffer (buffer_line line now m) = Some buf"
      using False Some b m by (auto simp: buffer_line_def within_def dialog_text_snoc not_less)
    finally show ?thesis ..
  qed
qed (auto simp: buffer_line_def dialog_at_def)

lemma feed_tracks:
  assumes "tracks h m" shows "tracks (h @ [(line, now)]) (fst (feed line now m))"
proof (cases "contains DIALOG_START line")
  case True
  then show ?thesis
    by (auto simp: tracks_def feed_def buffer_line_def opened_snoc Let_def dialog_text_def self_contained_def)
next
  case start: False
  show ?thesis
  proof (cases "contains TRADE_SUCCESS line")
    case True
    have "\<not> opened (h @ [(line, now)]) l0 t0 s" for l0 t0 s
      using True by (simp add: opened_snoc)
    moreover have "tm_buffer (fst (feed line now m)) = None"
      using True by (auto simp: feed_def Let_def split: option.split)
    ultimately show ?thesis by (simp add: tracks_def)
  next
    case no_success: False
    then have fed: "fst (feed line now m) = buffer_line line now m" by (simp add: feed_def Let_def)
    show ?thesis
    proof (cases "tm_buffer m")
      case None
      with assms start no_success show ?thesis
        by (auto simp: fed tracks_def buffer_line_def opened_snoc)
    next
      case (Some b)
      then obtain l0 t0 since where o: "opened h l0 t0 since" and b: "b = dialog_text l0 since"
        and m: "tm_started_ms m = t0" "tm_sealed m = (self_contained l0 \<or> list_ex (\<lambda>e. is_framework_line (fst e)) since)"
        using assms by (auto simp: tracks_def)
      have only: "opened h l1 t1 s \<longleftrightarrow> l1 = l0 \<and> t1 = t0 \<and> s = since" for l1 t1 s
        using o opened_unique [OF o] by blast
      have after: "opened (h @ [(line, now)]) l1 t1 s \<longleftrightarrow>
          \<not> DIALOG_TIMEOUT_MS < sat_sub now t0 \<and> l1 = l0 \<and> t1 = t0 \<and> s = since @ [(line, now)]" for l1 t1 s
        using start no_success by (auto simp: opened_snoc only not_less)
      show ?thesis
        using start Some b m by (simp add: fed tracks_def buffer_line_def after dialog_text_snoc)
    qed
  qed
qed

lemma machine_after_tracks: "tracks h (machine_after h)"
proof (induction h rule: rev_induct)
  case Nil
  show ?case by (simp add: tracks_def machine_after_def new_machine_def)
next
  case (snoc e h)
  then show ?case using feed_tracks [of h "machine_after h" "fst e" "snd e"]
    by (simp add: machine_after_def case_prod_beta)
qed

text \<open>C22: A trade is confirmed exactly when the log says so: after any history of lines, feeding a line yields a
  trade if and only if the line reports success and a dialog is open, opened by its start line with no start
  or success line since and every line since within the time-out, and the trade is what the lines of that
  dialog, up to the first framework line, parse to.\<close>

theorem trade_confirmed_iff:
  "snd (feed line now (machine_after h)) = Some t \<longleftrightarrow>
     contains TRADE_SUCCESS line \<and> (\<exists>buf. dialog_at h line now buf \<and> parse_trade_dialog buf = Some t)"
proof -
  have "snd (feed line now m) = Some t \<longleftrightarrow> contains TRADE_SUCCESS line
      \<and> (\<exists>buf. tm_buffer (buffer_line line now m) = Some buf \<and> parse_trade_dialog buf = Some t)" for m
    by (simp add: feed_def Let_def split: option.split)
  then show ?thesis by (simp only: buffer_line_tracks [OF machine_after_tracks])
qed

text \<open>What is read from a trade dialog is in order: the items given come before those received, each name
  appears once a side with its quantities added within \<open>i64\<close>, the kind follows from the
  platinum on the two sides, and the platinum recorded is the larger of the two.\<close>

lemma trade_dialog_well_read:
  assumes "parse_trade_dialog lines = Some t"
  shows "\<exists>given received spent gained. te_items t = given @ received
    \<and> well_read (tx ''given'') given \<and> well_read (tx ''received'') received
    \<and> te_plat t = max gained spent \<and> te_kind t = trade_kind gained spent \<and> i64_range (te_plat t)"
proof -
  let ?text = "join_lines lines"
  obtain start divider following where
    "find_text (tx ''You are offering:'') ?text = Some start"
    "find_text (tx ''and will receive from'') (drop start ?text) = Some divider"
    "find_text (tx ''the following:'')
       (drop (divider + length (tx ''and will receive from'')) (drop start ?text)) = Some following"
    using assms unfolding parse_trade_dialog_def Let_def by (auto simp: bind_eq_Some_conv)
  note found = this
  obtain given spent where g: "parse_item_block (drop (length (tx ''You are offering:'')) (take divider (drop start ?text)))
      (tx ''given'') = (given, spent)" by fastforce
  obtain received gained where r: "parse_item_block (drop (following + length (tx ''the following:''))
      (drop (divider + length (tx ''and will receive from'')) (drop start ?text))) (tx ''received'') = (received, gained)"
    by fastforce
  have "te_items t = given @ received \<and> te_plat t = max gained spent \<and> te_kind t = trade_kind gained spent"
    using assms unfolding parse_trade_dialog_def Let_def found bind.bind_lunit g r by auto
  then show ?thesis
    using parse_item_block_well_read [OF g] parse_item_block_well_read [OF r] by (auto simp: max_def)
qed

definition demo_dialog :: "ustr list" where
  "demo_dialog = map tx
     [''10.0 Sys [Info]: Are you sure you want to accept this trade?'', ''You are offering:'', ''Flow'',
      ''Lith x 3'', ''Flow'', ''and will receive from Tenno the following:'', ''Platinum x 45'']"

lemma demo_dialog_read:
  "parse_trade_dialog demo_dialog = Some \<lparr> te_partner = tx ''Tenno'', te_kind = tx ''sale'', te_plat = 45,
     te_items = [\<lparr> ti_name = tx ''Flow'', ti_qty = 2, ti_direction = tx ''given'' \<rparr>,
                 \<lparr> ti_name = tx ''Lith'', ti_qty = 3, ti_direction = tx ''given'' \<rparr>],
     te_log_stamp = Some (tx ''10.0'') \<rparr>"
  by code_simp

lemma trade_dialog_well_read_witness:
  "\<exists>given received spent gained.
     [\<lparr> ti_name = tx ''Flow'', ti_qty = 2, ti_direction = tx ''given'' \<rparr>,
      \<lparr> ti_name = tx ''Lith'', ti_qty = 3, ti_direction = tx ''given'' \<rparr>] = given @ received
     \<and> well_read (tx ''given'') given \<and> well_read (tx ''received'') received
     \<and> 45 = max gained spent \<and> tx ''sale'' = trade_kind gained spent \<and> i64_range 45"
  using trade_dialog_well_read [OF demo_dialog_read] by simp

end
