(* ===== verification/Log_Tail.thy ===== *)
theory Log_Tail
  imports Trade_Log
begin

text \<open>
  The log tailer (\<open>services/game_log/eelog.rs\<close>, \<open>tail_with_ticks\<close>): one poll of the loop is \<open>tail_poll\<close>, and
  the loop is a fold over the ticks. What the file system answers in a poll is the input \<open>tick\<close>; the four
  callbacks are the list of calls made, and the one that answers, \<open>on_trade\<close>, is a parameter with a state
  of its own (the ledger). The lossy decoding and the fingerprint of the log's first bytes are parameters.
\<close>

section \<open>State\<close>

datatype gap_kind = Io | Unrecognized | Rotated

definition is_unread :: "gap_kind \<Rightarrow> bool" where
  "is_unread k \<longleftrightarrow> k \<noteq> Rotated"

definition explanation :: "gap_kind \<Rightarrow> string option" where
  "explanation k =
     (case k of Io \<Rightarrow> Some ''the game log could not be read''
      | Unrecognized \<Rightarrow> Some ''a completed trade in the game log could not be read''
      | Rotated \<Rightarrow> None)"

datatype callback = OnLine ustr | OnTrade trade_event log_position bool | OnGap gap_kind | OnReadable

record 'w tailer =
  tl_machine :: machine
  tl_fallback :: string
  tl_offset :: u64
  tl_session :: string
  tl_remainder :: bytes
  tl_line_offset :: u64
  tl_dialog_start :: u64
  tl_observed_after :: i64
  tl_dialog_observed_after :: i64
  tl_held :: "(trade_event \<times> log_position) list"
  tl_unreadable :: bool
  tl_ledger :: 'w
  tl_calls :: "callback list"

type_synonym 'w on_trade = "'w \<Rightarrow> trade_event \<Rightarrow> log_position \<Rightarrow> bool \<times> 'w"

text \<open>An open file as one poll sees it: the lengths its two \<open>metadata\<close> calls give, the first 4096 bytes,
  whether a seek succeeds and what a read from there returns.\<close>

record file_view =
  fv_len :: "u64 option"
  fv_prefix :: "bytes option"
  fv_len_again :: "u64 option"
  fv_seek :: "u64 \<Rightarrow> bool"
  fv_read :: "u64 \<Rightarrow> bytes option"

record tick =
  tk_now_ms :: u64
  tk_now :: i64
  tk_token :: string
  tk_file :: "file_view option"

section \<open>The position of a log\<close>

definition header_line :: "ustr \<Rightarrow> bool" where
  "header_line line \<longleftrightarrow> contains (tx ''Sys [Diag]: Current time:'') line \<and> contains (tx ''[UTC:'') line"

definition file_position :: "(bytes \<Rightarrow> ustr) \<Rightarrow> (bytes \<Rightarrow> string) \<Rightarrow> i64 \<Rightarrow> file_view \<Rightarrow> log_position option" where
  "file_position lossy fingerprint now fv =
     Option.bind (fv_len fv) (\<lambda>len.
       if len < 4096 then None
       else Option.bind (fv_prefix fv) (\<lambda>prefix.
         if \<not> list_ex header_line (lines_of (lossy prefix)) then None
         else Some \<lparr> lp_session = fingerprint prefix, lp_start = len, lp_end = len, lp_observed_after = now \<rparr>))"

section \<open>Callbacks\<close>

definition call :: "callback \<Rightarrow> 'w tailer \<Rightarrow> 'w tailer" where
  "call c s = s\<lparr> tl_calls := tl_calls s @ [c] \<rparr>"

definition offer :: "'w on_trade \<Rightarrow> trade_event \<Rightarrow> log_position \<Rightarrow> 'w tailer \<Rightarrow> bool \<times> 'w tailer" where
  "offer accept t p s =
     (let (ok, w) = accept (tl_ledger s) t p in (ok, call (OnTrade t p ok) (s\<lparr> tl_ledger := w \<rparr>)))"

definition fail_io :: "'w tailer \<Rightarrow> 'w tailer" where
  "fail_io s = (call (OnGap Io) s)\<lparr> tl_unreadable := True \<rparr>"

definition recovered :: "bool \<Rightarrow> 'w tailer \<Rightarrow> 'w tailer" where
  "recovered identified s =
     (if identified \<and> tl_unreadable s then call OnReadable (s\<lparr> tl_unreadable := False \<rparr>) else s)"

fun retry_held :: "'w on_trade \<Rightarrow> (trade_event \<times> log_position) list \<Rightarrow> 'w tailer \<Rightarrow> 'w tailer" where
  "retry_held accept [] s = s\<lparr> tl_held := [] \<rparr>"
| "retry_held accept ((t, p) # hs) s =
     (let (ok, s') = offer accept t p s
      in if ok then retry_held accept hs s' else s'\<lparr> tl_held := (t, p) # hs \<rparr>)"

section \<open>Lines\<close>

definition NL :: "8 word" where "NL = 10"

definition complete_part :: "bytes \<Rightarrow> bytes" where
  "complete_part b = rev (dropWhile (\<lambda>x. x \<noteq> NL) (rev b))"

definition partial_part :: "bytes \<Rightarrow> bytes" where
  "partial_part b = rev (takeWhile (\<lambda>x. x \<noteq> NL) (rev b))"

definition confirmed :: "'w on_trade \<Rightarrow> trade_event \<Rightarrow> log_position \<Rightarrow> 'w tailer \<Rightarrow> 'w tailer" where
  "confirmed accept t p s =
     (if tl_held s \<noteq> [] then s\<lparr> tl_held := tl_held s @ [(t, p)] \<rparr>
      else let (ok, s') = offer accept t p s
           in if ok then s' else s'\<lparr> tl_held := tl_held s' @ [(t, p)] \<rparr>)"

text \<open>A line is counted, a dialog it opens is placed, and the line is passed on.\<close>

definition line_read :: "bytes \<Rightarrow> 'w tailer \<Rightarrow> 'w tailer" where
  "line_read raw s = s\<lparr> tl_line_offset := tl_line_offset s + of_nat (length raw) \<rparr>"

definition line_seen :: "u64 \<Rightarrow> ustr \<Rightarrow> 'w tailer \<Rightarrow> 'w tailer" where
  "line_seen beginning line s =
     call (OnLine line)
       (if contains DIALOG_START line
        then s\<lparr> tl_dialog_start := beginning, tl_dialog_observed_after := tl_observed_after s \<rparr>
        else s)"

definition trade_position :: "string \<Rightarrow> 'w tailer \<Rightarrow> log_position" where
  "trade_position session s =
     \<lparr> lp_session = session, lp_start = tl_dialog_start s, lp_end = tl_line_offset s,
       lp_observed_after = tl_dialog_observed_after s \<rparr>"

definition line_fed :: "'w on_trade \<Rightarrow> string \<Rightarrow> u64 \<Rightarrow> ustr \<Rightarrow> 'w tailer \<Rightarrow> 'w tailer" where
  "line_fed accept session now_ms line s =
     (let (m, found) = feed line now_ms (tl_machine s); s = s\<lparr> tl_machine := m \<rparr>
      in case found of
           Some t \<Rightarrow> confirmed accept t (trade_position session s) s
         | None \<Rightarrow> if contains TRADE_SUCCESS line then call (OnGap Unrecognized) s else s)"

definition take_line :: "'w on_trade \<Rightarrow> string \<Rightarrow> u64 \<Rightarrow> bytes \<Rightarrow> 'w tailer \<Rightarrow> 'w tailer" where
  "take_line accept session now_ms raw s =
     (case from_utf8 raw of
        None \<Rightarrow> (call (OnGap Io) (line_read raw s))\<lparr> tl_machine := new_machine \<rparr>
      | Some decoded \<Rightarrow>
          let line = trim_end_where (\<lambda>c. c = 13 \<or> c = 10) decoded
          in line_fed accept session now_ms line (line_seen (tl_line_offset s) line (line_read raw s)))"

definition bytes_read :: "bytes \<Rightarrow> 'w tailer \<Rightarrow> 'w tailer" where
  "bytes_read buf s =
     s\<lparr> tl_offset := tl_offset s + of_nat (length buf), tl_remainder := partial_part (tl_remainder s @ buf) \<rparr>"

definition bound_partial :: "'w tailer \<Rightarrow> 'w tailer" where
  "bound_partial s =
     (if 262144 < length (tl_remainder s)
      then (call (OnGap Io) s)\<lparr> tl_remainder := [], tl_line_offset := tl_offset s, tl_machine := new_machine \<rparr>
      else s)"

definition ingest :: "'w on_trade \<Rightarrow> string \<Rightarrow> u64 \<Rightarrow> bytes \<Rightarrow> 'w tailer \<Rightarrow> 'w tailer" where
  "ingest accept session now_ms buf s =
     bound_partial
       (fold (take_line accept session now_ms) (split_after NL (complete_part (tl_remainder s @ buf)))
         (bytes_read buf s))"

section \<open>A poll\<close>

definition rotate_log :: "'w tailer \<Rightarrow> 'w tailer" where
  "rotate_log s =
     (call (OnGap Rotated) s)\<lparr> tl_offset := 0, tl_line_offset := 0, tl_remainder := [], tl_machine := new_machine \<rparr>"

definition must_rotate :: "log_position \<Rightarrow> 'w tailer \<Rightarrow> bool" where
  "must_rotate position s \<longleftrightarrow>
     lp_end position < tl_offset s
     \<or> (tl_session s \<noteq> lp_session position
        \<and> \<not> (tl_session s = tl_fallback s \<and> lp_session position \<noteq> tl_fallback s))"

definition positioned :: "log_position \<Rightarrow> 'w tailer \<Rightarrow> 'w tailer" where
  "positioned position s =
     (if must_rotate position s then rotate_log s else s)\<lparr> tl_session := lp_session position \<rparr>"

text \<open>The time bound moves only when everything up to the file's end has been read and no line is partial.\<close>

definition observe :: "bool \<Rightarrow> i64 \<Rightarrow> 'w tailer \<Rightarrow> 'w tailer" where
  "observe at_end now s = (if at_end \<and> tl_remainder s = [] then s\<lparr> tl_observed_after := now \<rparr> else s)"

definition read_bytes :: "'w on_trade \<Rightarrow> tick \<Rightarrow> bool \<Rightarrow> log_position \<Rightarrow> bytes \<Rightarrow> 'w tailer \<Rightarrow> 'w tailer" where
  "read_bytes accept tick identified position data s =
     (let s = ingest accept (lp_session position) (tk_now_ms tick) (take 1048576 data) (recovered identified s)
      in observe (lp_end position \<le> tl_offset s) (tk_now tick) s)"

definition read_from :: "'w on_trade \<Rightarrow> tick \<Rightarrow> file_view \<Rightarrow> bool \<Rightarrow> log_position \<Rightarrow> 'w tailer \<Rightarrow> 'w tailer" where
  "read_from accept tick fv identified position s =
     (let s = positioned position s
      in if lp_end position = tl_offset s then recovered identified (observe True (tk_now tick) s)
         else if \<not> fv_seek fv (tl_offset s) then fail_io s
         else case fv_read fv (tl_offset s) of
           None \<Rightarrow> fail_io s
         | Some data \<Rightarrow> read_bytes accept tick identified position data s)"

definition tail_poll :: "(bytes \<Rightarrow> ustr) \<Rightarrow> (bytes \<Rightarrow> string) \<Rightarrow> 'w on_trade \<Rightarrow> tick \<Rightarrow> 'w tailer \<Rightarrow> 'w tailer" where
  "tail_poll lossy fingerprint accept tick s =
     (let s = retry_held accept (tl_held s) s
      in case tk_file tick of
           None \<Rightarrow> fail_io s
         | Some fv \<Rightarrow>
             case file_position lossy fingerprint (tk_now tick) fv of
               Some position \<Rightarrow> read_from accept tick fv True position s
             | None \<Rightarrow>
                 let s = fail_io s
                 in case fv_len_again fv of
                      None \<Rightarrow> s
                    | Some len \<Rightarrow>
                        let s = (if len < tl_offset s then s\<lparr> tl_fallback := tk_token tick \<rparr> else s)
                        in read_from accept tick fv False
                             \<lparr> lp_session = tl_fallback s, lp_start = len, lp_end = len,
                               lp_observed_after = tk_now tick \<rparr> s)"

definition tail_start :: "log_position option \<Rightarrow> string \<Rightarrow> u64 option \<Rightarrow> i64 \<Rightarrow> 'w \<Rightarrow> 'w tailer" where
  "tail_start initial token len now w =
     (let offset = (case len of Some l \<Rightarrow> l | None \<Rightarrow> 0)
      in \<lparr> tl_machine = new_machine, tl_fallback = token, tl_offset = offset,
           tl_session = (case initial of Some p \<Rightarrow> lp_session p | None \<Rightarrow> token), tl_remainder = [],
           tl_line_offset = offset, tl_dialog_start = offset, tl_observed_after = now,
           tl_dialog_observed_after = now, tl_held = [], tl_unreadable = False, tl_ledger = w, tl_calls = [] \<rparr>)"

definition tail_with_ticks ::
  "(bytes \<Rightarrow> ustr) \<Rightarrow> (bytes \<Rightarrow> string) \<Rightarrow> 'w on_trade \<Rightarrow> tick list \<Rightarrow> 'w tailer \<Rightarrow> 'w tailer" where
  "tail_with_ticks lossy fingerprint accept ticks s = fold (tail_poll lossy fingerprint accept) ticks s"

section \<open>What the ledger's answers change\<close>

fun accepted :: "callback list \<Rightarrow> (trade_event \<times> log_position) list" where
  "accepted [] = []"
| "accepted (OnTrade t p ok # cs) = (if ok then (t, p) # accepted cs else accepted cs)"
| "accepted (c # cs) = accepted cs"

fun is_offer :: "callback \<Rightarrow> bool" where
  "is_offer (OnTrade t p ok) = True"
| "is_offer c = False"

definition other_calls :: "callback list \<Rightarrow> callback list" where
  "other_calls = filter (\<lambda>c. \<not> is_offer c)"

definition accept_all :: "unit on_trade" where
  "accept_all w t p = (True, w)"

lemma accepted_append [simp]: "accepted (cs @ ds) = accepted cs @ accepted ds"
  by (induction cs rule: accepted.induct) auto

lemma accepted_other [simp]: "\<not> is_offer c \<Longrightarrow> accepted [c] = []"
  by (cases c) auto

text \<open>A tailer and one whose ledger accepts everything, fed the same: the second has no trade waiting.\<close>

definition twin :: "'w tailer \<Rightarrow> unit tailer \<Rightarrow> bool" where
  "twin s r \<longleftrightarrow>
     tl_machine s = tl_machine r \<and> tl_fallback s = tl_fallback r \<and> tl_offset s = tl_offset r
     \<and> tl_session s = tl_session r \<and> tl_remainder s = tl_remainder r \<and> tl_line_offset s = tl_line_offset r
     \<and> tl_dialog_start s = tl_dialog_start r \<and> tl_observed_after s = tl_observed_after r
     \<and> tl_dialog_observed_after s = tl_dialog_observed_after r \<and> tl_unreadable s = tl_unreadable r
     \<and> tl_held r = [] \<and> accepted (tl_calls s) @ tl_held s = accepted (tl_calls r)
     \<and> other_calls (tl_calls s) = other_calls (tl_calls r)"

named_theorems tail_step \<open>the tailer's small state changes, unfolded\<close>
declare call_def [tail_step] fail_io_def [tail_step] recovered_def [tail_step] offer_def [tail_step]
  rotate_log_def [tail_step]

lemma twin_retry:
  "twin (s\<lparr> tl_held := hs \<rparr>) r \<Longrightarrow> twin (retry_held accept hs s) r"
proof (induction accept hs s arbitrary: r rule: retry_held.induct)
  case (2 accept t p hs s)
  obtain ok w where a: "accept (tl_ledger s) t p = (ok, w)" by (cases "accept (tl_ledger s) t p")
  let ?s = "call (OnTrade t p ok) (s\<lparr> tl_ledger := w \<rparr>)"
  have o: "offer accept t p s = (ok, ?s)" by (simp add: offer_def a)
  show ?case
  proof (cases ok)
    case True
    have "twin (?s\<lparr> tl_held := hs \<rparr>) r"
      using 2(2) True by (simp add: twin_def call_def other_calls_def)
    then show ?thesis using 2(1) o True by simp
  next
    case False
    then show ?thesis using 2(2) o by (simp add: twin_def call_def other_calls_def)
  qed
qed simp

lemma retry_nothing: "tl_held r = [] \<Longrightarrow> retry_held accept (tl_held r) r = r"
  by simp

lemma twin_confirmed:
  assumes "twin s r" shows "twin (confirmed accept t p s) (confirmed accept_all t p r)"
proof -
  obtain ok w where a: "accept (tl_ledger s) t p = (ok, w)" by (cases "accept (tl_ledger s) t p")
  have "tl_held r = []" using assms by (simp add: twin_def)
  then show ?thesis
    using assms by (cases ok; cases "tl_held s") (simp_all add: confirmed_def twin_def tail_step a accept_all_def other_calls_def)
qed

lemma twin_call: "twin s r \<Longrightarrow> \<not> is_offer c \<Longrightarrow> twin (call c s) (call c r)"
  by (simp add: twin_def call_def other_calls_def)


lemma twin_line_fed:
  assumes "twin s r"
  shows "twin (line_fed accept session now line s) (line_fed accept_all session now line r)"
proof -
  obtain m found where f: "feed line now (tl_machine s) = (m, found)"
    by (cases "feed line now (tl_machine s)")
  with assms have g: "feed line now (tl_machine r) = (m, found)" by (simp add: twin_def)
  have next_one: "twin (s\<lparr> tl_machine := m \<rparr>) (r\<lparr> tl_machine := m \<rparr>)"
    using assms by (simp add: twin_def)
  then have pos: "trade_position session (r\<lparr> tl_machine := m \<rparr>) = trade_position session (s\<lparr> tl_machine := m \<rparr>)"
    by (simp add: trade_position_def twin_def)
  show ?thesis
    using next_one twin_confirmed [OF next_one] twin_call [OF next_one, of "OnGap Unrecognized"]
    by (cases found) (simp_all add: line_fed_def Let_def f g pos)
qed

lemma twin_take_line:
  assumes "twin s r"
  shows "twin (take_line accept session now raw s) (take_line accept_all session now raw r)"
proof -
  have eq: "tl_line_offset r = tl_line_offset s" using assms by (simp add: twin_def)
  have seen: "twin (line_seen (tl_line_offset s) line (line_read raw s)) (line_seen (tl_line_offset s) line (line_read raw r))" for line
    using assms by (simp add: twin_def line_seen_def line_read_def call_def other_calls_def)
  have bad: "twin ((call (OnGap Io) (line_read raw s))\<lparr> tl_machine := new_machine \<rparr>)
      ((call (OnGap Io) (line_read raw r))\<lparr> tl_machine := new_machine \<rparr>)"
    using assms by (simp add: twin_def line_read_def call_def other_calls_def)
  show ?thesis
    using bad twin_line_fed [OF seen] unfolding take_line_def
    by (cases "from_utf8 raw") (simp_all add: eq Let_def)
qed

lemma twin_lines:
  "twin s r \<Longrightarrow> twin (fold (take_line accept session now) ls s) (fold (take_line accept_all session now) ls r)"
  by (induction ls arbitrary: s r) (simp_all add: twin_take_line)

lemma twin_ingest:
  assumes "twin s r" shows "twin (ingest accept session now buf s) (ingest accept_all session now buf r)"
proof -
  have "twin (bytes_read buf s) (bytes_read buf r)" using assms by (simp add: twin_def bytes_read_def)
  moreover have "twin (bound_partial a) (bound_partial b)" if "twin a b" for a :: "'a tailer" and b
    using that by (simp add: twin_def bound_partial_def call_def other_calls_def)
  moreover have "tl_remainder r = tl_remainder s" using assms by (simp add: twin_def)
  ultimately show ?thesis by (simp add: ingest_def twin_lines)
qed

lemma twin_recovered: "twin s r \<Longrightarrow> twin (recovered i s) (recovered i r)"
  by (simp add: twin_def tail_step other_calls_def)

lemma twin_fail: "twin s r \<Longrightarrow> twin (fail_io s) (fail_io r)"
  by (simp add: twin_def tail_step other_calls_def)

lemma twin_observe: "twin s r \<Longrightarrow> twin (observe b now s) (observe b now r)"
  by (simp add: twin_def observe_def)

lemma twin_positioned: "twin s r \<Longrightarrow> twin (positioned position s) (positioned position r)"
  by (simp add: positioned_def must_rotate_def twin_def tail_step other_calls_def)

lemma twin_offset: "twin s r \<Longrightarrow> tl_offset r = tl_offset s \<and> tl_fallback r = tl_fallback s"
  by (simp add: twin_def)

lemma twin_read_bytes:
  assumes "twin s r"
  shows "twin (read_bytes accept tick i position data s) (read_bytes accept_all tick i position data r)"
proof -
  let ?s = "ingest accept (lp_session position) (tk_now_ms tick) (take 1048576 data) (recovered i s)"
  let ?r = "ingest accept_all (lp_session position) (tk_now_ms tick) (take 1048576 data) (recovered i r)"
  have t: "twin ?s ?r" by (intro twin_ingest twin_recovered assms)
  have "tl_offset ?r = tl_offset ?s" using twin_offset [OF t] by simp
  with twin_observe [OF t] show ?thesis by (simp only: read_bytes_def Let_def)
qed

lemma twin_read_from:
  assumes "twin s r"
  shows "twin (read_from accept tick fv i position s) (read_from accept_all tick fv i position r)"
  using twin_positioned [OF assms, of position] twin_offset [OF twin_positioned [OF assms, of position]]
  by (simp add: read_from_def Let_def twin_recovered twin_observe twin_fail twin_read_bytes split: option.split)

lemma twin_token:
  "twin s r \<Longrightarrow> twin (if len < tl_offset s then s\<lparr> tl_fallback := t \<rparr> else s)
     (if len < tl_offset r then r\<lparr> tl_fallback := t \<rparr> else r)"
  by (simp add: twin_def)

lemma twin_poll:
  assumes "twin s r"
  shows "twin (tail_poll lossy fingerprint accept tick s) (tail_poll lossy fingerprint accept_all tick r)"
proof -
  let ?s = "retry_held accept (tl_held s) s"
  have one: "twin ?s r" using assms by (intro twin_retry) simp
  have "tl_held r = []" using assms by (simp add: twin_def)
  then have r: "retry_held accept_all (tl_held r) r = r" by simp
  have token: "twin (if len < tl_offset (fail_io ?s) then (fail_io ?s)\<lparr> tl_fallback := t \<rparr> else fail_io ?s)
      (if len < tl_offset (fail_io r) then (fail_io r)\<lparr> tl_fallback := t \<rparr> else fail_io r)" for len t
    by (rule twin_token [OF twin_fail [OF one]])
  show ?thesis
    using one token twin_offset [OF token] twin_fail [OF one] twin_offset [OF twin_fail [OF one]]
    by (simp add: tail_poll_def Let_def r twin_read_from split del: if_split split: option.split)
qed

lemma waiting_trades:
  "let s = tail_with_ticks lossy fingerprint accept ticks (tail_start initial token len now w);
       r = tail_with_ticks lossy fingerprint accept_all ticks (tail_start initial token len now ())
   in accepted (tl_calls s) @ tl_held s = accepted (tl_calls r)
      \<and> other_calls (tl_calls s) = other_calls (tl_calls r)"
proof -
  have step: "twin (fold (tail_poll lossy fingerprint accept) ticks s) (fold (tail_poll lossy fingerprint accept_all) ticks r)"
    if "twin s r" for s :: "'a tailer" and r
    using that by (induction ticks arbitrary: s r) (simp_all add: twin_poll)
  have "twin (tail_start initial token len now w) (tail_start initial token len now ())"
    by (simp add: twin_def tail_start_def Let_def)
  then have "twin (tail_with_ticks lossy fingerprint accept ticks (tail_start initial token len now w))
      (tail_with_ticks lossy fingerprint accept_all ticks (tail_start initial token len now ()))"
    unfolding tail_with_ticks_def by (rule step)
  then show ?thesis by (simp add: twin_def Let_def)
qed

text \<open>C23: A ledger that refuses trades loses, repeats and reorders none: the trades it has accepted followed by
  those waiting are exactly the trades a ledger that accepts everything would have been given, in the same
  order; and the lines passed on, the gaps and the recoveries reported are the same whatever the ledger
  answers.\<close>

theorem held_trades_are_not_lost:
  "let s = tail_with_ticks lossy fingerprint accept ticks (tail_start initial token len now w);
       r = tail_with_ticks lossy fingerprint accept_all ticks (tail_start initial token len now ())
   in accepted (tl_calls s) @ tl_held s = accepted (tl_calls r)
      \<and> other_calls (tl_calls s) = other_calls (tl_calls r)"
  by (rule waiting_trades)

section \<open>Invariants of the loop\<close>

text \<open>
  What a property of the waiting trades, the ledger, the calls made and the unreadable flag has to satisfy to
  hold throughout a run: the bookkeeping of bytes and lines does not touch any of the four.
\<close>

locale tail_invariant =
  fixes accept :: "'w on_trade"
    and inv :: "'w tailer \<Rightarrow> bool"
  assumes inv_frame: "tl_held r = tl_held s \<Longrightarrow> tl_ledger r = tl_ledger s \<Longrightarrow> tl_calls r = tl_calls s
      \<Longrightarrow> tl_unreadable r = tl_unreadable s \<Longrightarrow> inv s \<Longrightarrow> inv r"
    and inv_call: "inv s \<Longrightarrow> \<not> is_offer c \<Longrightarrow> c \<noteq> OnReadable \<Longrightarrow> inv (call c s)"
    and inv_fail: "inv s \<Longrightarrow> inv (fail_io s)"
    and inv_recovered: "inv s \<Longrightarrow> inv (recovered identified s)"
    and inv_retry: "inv s \<Longrightarrow> inv (retry_held accept (tl_held s) s)"
    and inv_confirmed: "inv s \<Longrightarrow> inv (confirmed accept t p s)"
begin

lemma inv_take_line:
  assumes "inv s" shows "inv (take_line accept session now raw s)"
proof -
  have read: "inv (line_read raw s)" by (rule inv_frame [OF _ _ _ _ assms]) (simp_all add: line_read_def)
  have seen: "inv (line_seen b line (line_read raw s))" for b line
    unfolding line_seen_def by (rule inv_call [OF inv_frame [OF _ _ _ _ read]]) simp_all
  have fed: "inv (line_fed accept session now line r)" if r: "inv r" for line r
  proof -
    have "inv (r\<lparr> tl_machine := m \<rparr>)" for m by (rule inv_frame [OF _ _ _ _ r]) simp_all
    then show ?thesis by (simp add: line_fed_def Let_def case_prod_beta inv_confirmed inv_call split: option.split)
  qed
  have "inv ((call (OnGap Io) (line_read raw s))\<lparr> tl_machine := new_machine \<rparr>)"
    by (rule inv_frame [OF _ _ _ _ inv_call [OF read, of "OnGap Io"]]) simp_all
  then show ?thesis by (simp add: take_line_def Let_def fed seen split: option.split)
qed

lemma inv_ingest:
  assumes "inv s" shows "inv (ingest accept session now buf s)"
proof -
  have lines: "inv (fold (take_line accept session now) ls r)" if "inv r" for ls r
    using that by (induction ls arbitrary: r) (simp_all add: inv_take_line)
  have bound: "inv (bound_partial r)" if "inv r" for r
    using that inv_frame [OF _ _ _ _ inv_call [OF that, of "OnGap Io"]] by (simp add: bound_partial_def)
  have "inv (bytes_read buf s)" by (rule inv_frame [OF _ _ _ _ assms]) (simp_all add: bytes_read_def)
  then show ?thesis unfolding ingest_def by (intro bound lines)
qed

lemma inv_read_from:
  assumes "inv s" shows "inv (read_from accept tick fv identified position s)"
proof -
  have rotated: "inv (rotate_log s)"
    unfolding rotate_log_def by (rule inv_frame [OF _ _ _ _ inv_call [OF assms, of "OnGap Rotated"]]) simp_all
  have pos: "inv (positioned position s)"
    unfolding positioned_def
    by (rule inv_frame [where s = "if must_rotate position s then rotate_log s else s"]) (use assms rotated in simp_all)
  have obs: "inv (observe b now r)" if r: "inv r" for b now r
    unfolding observe_def by (rule inv_frame [OF _ _ _ _ r]) simp_all
  show ?thesis
    by (simp add: read_from_def read_bytes_def Let_def pos obs inv_recovered inv_ingest inv_fail split: option.split)
qed

lemma inv_poll:
  assumes "inv s" shows "inv (tail_poll lossy fingerprint accept tick s)"
proof -
  have r: "inv (retry_held accept (tl_held s) s)" by (rule inv_retry [OF assms])
  have f: "inv (fail_io (retry_held accept (tl_held s) s))" by (rule inv_fail [OF r])
  have "inv ((fail_io (retry_held accept (tl_held s) s))\<lparr> tl_fallback := t \<rparr>)" for t
    by (rule inv_frame [OF _ _ _ _ f]) simp_all
  with f r show ?thesis by (simp add: tail_poll_def Let_def inv_read_from split: option.split)
qed

lemma inv_run: "inv s \<Longrightarrow> inv (tail_with_ticks lossy fingerprint accept ticks s)"
  unfolding tail_with_ticks_def by (induction ticks arbitrary: s) (simp_all add: inv_poll)

end

section \<open>Bytes\<close>

lemma take_line_frame [simp]:
  "tl_offset (take_line accept session now raw s) = tl_offset s"
  "tl_remainder (take_line accept session now raw s) = tl_remainder s"
  "tl_unreadable (take_line accept session now raw s) = tl_unreadable s"
  "tl_line_offset (take_line accept session now raw s) = tl_line_offset s + of_nat (length raw)"
proof -
  have c: "tl_offset (confirmed accept t p r) = tl_offset r" "tl_remainder (confirmed accept t p r) = tl_remainder r"
    "tl_unreadable (confirmed accept t p r) = tl_unreadable r"
    "tl_line_offset (confirmed accept t p r) = tl_line_offset r" for t p and r :: "'a tailer"
    by (simp_all add: confirmed_def tail_step case_prod_beta)
  have f: "tl_offset (line_fed accept session now line r) = tl_offset r"
    "tl_remainder (line_fed accept session now line r) = tl_remainder r"
    "tl_unreadable (line_fed accept session now line r) = tl_unreadable r"
    "tl_line_offset (line_fed accept session now line r) = tl_line_offset r" for line and r :: "'a tailer"
    by (simp_all add: line_fed_def Let_def c call_def case_prod_beta split: option.split)
  show "tl_offset (take_line accept session now raw s) = tl_offset s"
    "tl_remainder (take_line accept session now raw s) = tl_remainder s"
    "tl_unreadable (take_line accept session now raw s) = tl_unreadable s"
    "tl_line_offset (take_line accept session now raw s) = tl_line_offset s + of_nat (length raw)"
    by (simp_all add: take_line_def Let_def f line_seen_def line_read_def call_def split: option.split)
qed

lemma take_lines_frame [simp]:
  "tl_offset (fold (take_line accept session now) ls s) = tl_offset s"
  "tl_remainder (fold (take_line accept session now) ls s) = tl_remainder s"
  "tl_unreadable (fold (take_line accept session now) ls s) = tl_unreadable s"
  "tl_line_offset (fold (take_line accept session now) ls s) = tl_line_offset s + of_nat (length (concat ls))"
  by (induction ls arbitrary: s) simp_all

lemma complete_partial: "complete_part b @ partial_part b = b"
proof -
  have "rev (takeWhile (\<lambda>x. x \<noteq> NL) (rev b) @ dropWhile (\<lambda>x. x \<noteq> NL) (rev b)) = b" by simp
  then show ?thesis by (simp only: complete_part_def partial_part_def rev_append)
qed

lemma partial_no_newline: "NL \<notin> set (partial_part b)"
  by (auto simp: partial_part_def dest: set_takeWhileD)

lemma complete_ends: "complete_part b = [] \<or> last (complete_part b) = NL"
  using hd_dropWhile [of "\<lambda>x. x \<noteq> NL" "rev b"] by (auto simp: complete_part_def last_rev)

lemma complete_append: "complete_part (a @ b) = complete_part a @ complete_part (partial_part a @ b)"
proof (cases "NL \<in> set b")
  case True
  then have "dropWhile (\<lambda>x. x \<noteq> NL) (rev b @ r) = dropWhile (\<lambda>x. x \<noteq> NL) (rev b) @ r" for r
    by (intro dropWhile_append1) auto
  then show ?thesis using complete_partial [of a] by (simp add: complete_part_def)
next
  case False
  then have "dropWhile (\<lambda>x. x \<noteq> NL) (rev b @ r) = dropWhile (\<lambda>x. x \<noteq> NL) r" for r
    by (intro dropWhile_append2) auto
  moreover have "complete_part (partial_part a) = []"
    using partial_no_newline [of a] by (auto simp: complete_part_def)
  ultimately show ?thesis by (simp add: complete_part_def)
qed

lemma partial_append: "partial_part (a @ b) = partial_part (partial_part a @ b)"
proof -
  have "complete_part a @ complete_part (partial_part a @ b) @ partial_part (a @ b) = a @ b"
    using complete_partial [of "a @ b"] by (simp add: complete_append [of a b])
  also have "\<dots> = complete_part a @ partial_part a @ b" using complete_partial [of a] by simp
  finally have "complete_part (partial_part a @ b) @ partial_part (a @ b) = partial_part a @ b" by simp
  also have "\<dots> = complete_part (partial_part a @ b) @ partial_part (partial_part a @ b)"
    by (rule complete_partial [symmetric])
  finally show ?thesis by (simp only: same_append_eq)
qed

text \<open>Every byte read is in a line that was counted or in the partial line.\<close>

definition accounted :: "'w tailer \<Rightarrow> bool" where
  "accounted s \<longleftrightarrow> tl_line_offset s + of_nat (length (tl_remainder s)) = tl_offset s
     \<and> NL \<notin> set (tl_remainder s) \<and> length (tl_remainder s) \<le> 262144"

lemma ingest_accounted: "accounted s \<Longrightarrow> accounted (ingest accept session now buf s)"
proof -
  assume a: "accounted s"
  let ?b = "tl_remainder s @ buf"
  let ?s = "fold (take_line accept session now) (split_after NL (complete_part ?b)) (bytes_read buf s)"
  have "length (complete_part ?b) + length (partial_part ?b) = length (tl_remainder s) + length buf"
    using arg_cong [OF complete_partial [of ?b], of length] by simp
  then have n: "of_nat (length (complete_part ?b)) + of_nat (length (partial_part ?b))
      = (of_nat (length (tl_remainder s)) + of_nat (length buf) :: u64)"
    by (metis of_nat_add)
  have "tl_line_offset ?s + of_nat (length (tl_remainder ?s))
      = tl_line_offset s + (of_nat (length (complete_part ?b)) + of_nat (length (partial_part ?b)))"
    by (simp add: concat_split_after bytes_read_def)
  also have "\<dots> = tl_offset ?s" using a n by (simp add: bytes_read_def accounted_def algebra_simps)
  finally have "tl_line_offset ?s + of_nat (length (tl_remainder ?s)) = tl_offset ?s" .
  moreover have "NL \<notin> set (tl_remainder ?s)" using partial_no_newline by (simp add: bytes_read_def)
  ultimately show "accounted (ingest accept session now buf s)"
    by (simp add: ingest_def bound_partial_def accounted_def call_def not_less)
qed

lemma accounted_frames:
  "accounted (fail_io s) = accounted s" "accounted (recovered i s) = accounted s"
  "accounted (observe b now s) = accounted s" "accounted (s\<lparr> tl_fallback := f \<rparr>) = accounted s"
  by (simp_all add: accounted_def tail_step observe_def)

lemma positioned_accounted: "accounted s \<Longrightarrow> accounted (positioned p s)"
  by (simp add: accounted_def positioned_def tail_step)

lemma read_from_accounted: "accounted s \<Longrightarrow> accounted (read_from accept tick fv i p s)"
  using positioned_accounted [of s p]
  by (simp add: read_from_def read_bytes_def Let_def accounted_frames ingest_accounted split: option.split)

lemma retry_held_frame: "\<exists>hs w cs. retry_held accept held s = s\<lparr> tl_held := hs, tl_ledger := w, tl_calls := cs \<rparr>"
proof (induction accept held s rule: retry_held.induct)
  case (1 accept s)
  show ?case by (rule exI [of _ "[]"], rule exI [of _ "tl_ledger s"], rule exI [of _ "tl_calls s"]) simp
next
  case (2 accept t p hs s)
  obtain ok w where a: "accept (tl_ledger s) t p = (ok, w)" by (cases "accept (tl_ledger s) t p")
  let ?s = "s\<lparr> tl_ledger := w, tl_calls := tl_calls s @ [OnTrade t p ok] \<rparr>"
  have o: "offer accept t p s = (ok, ?s)" by (simp add: offer_def a call_def)
  show ?case
  proof (cases ok)
    case True
    with 2 o obtain hs' w' cs where "retry_held accept ((t, p) # hs) s = ?s\<lparr> tl_held := hs', tl_ledger := w', tl_calls := cs \<rparr>"
      by fastforce
    then show ?thesis by (intro exI [of _ hs'] exI [of _ w'] exI [of _ cs]) simp
  next
    case False
    with o show ?thesis
      by (intro exI [of _ "(t, p) # hs"] exI [of _ w] exI [of _ "tl_calls ?s"]) simp
  qed
qed

lemma retry_held_accounted: "accounted (retry_held accept held s) = accounted s"
  using retry_held_frame [of accept held s] by (auto simp: accounted_def)

lemma poll_accounted: "accounted s \<Longrightarrow> accounted (tail_poll lossy fingerprint accept tick s)"
  by (simp add: tail_poll_def Let_def accounted_frames retry_held_accounted read_from_accounted split: option.split)

text \<open>The tailer accounts for every byte: at any moment the offset of the next line plus the bytes of the
  partial line kept is the offset read up to, the partial line has no line end, and it is at most 256 KiB
  long.\<close>

lemma tail_accounts_for_bytes:
  "accounted (tail_with_ticks lossy fingerprint accept ticks (tail_start initial token len now w))"
proof -
  have "accounted (tail_start initial token len now w)" by (simp add: accounted_def tail_start_def Let_def)
  then show ?thesis unfolding tail_with_ticks_def
    by (induction ticks rule: rev_induct) (simp_all add: poll_accounted)
qed

section \<open>How the bytes arrive does not matter\<close>

definition placed :: "u64 \<Rightarrow> bytes \<Rightarrow> 'w tailer \<Rightarrow> 'w tailer" where
  "placed off r s = s\<lparr> tl_offset := off, tl_remainder := r \<rparr>"

lemma confirmed_placed: "confirmed accept t p (placed off r s) = placed off r (confirmed accept t p s)"
  by (simp add: confirmed_def placed_def tail_step case_prod_beta)

lemma line_fed_placed: "line_fed accept session now line (placed off r s) = placed off r (line_fed accept session now line s)"
proof -
  obtain m found where f: "feed line now (tl_machine s) = (m, found)"
    by (cases "feed line now (tl_machine s)")
  have m: "(placed off r s)\<lparr> tl_machine := m \<rparr> = placed off r (s\<lparr> tl_machine := m \<rparr>)"
    "tl_machine (placed off r s) = tl_machine s"
    "trade_position session (placed off r s') = trade_position session s'"
    "call c (placed off r s') = placed off r (call c s')" for s' :: "'a tailer" and c
    by (simp_all add: placed_def trade_position_def call_def)
  show ?thesis by (simp add: line_fed_def m f Let_def confirmed_placed split: option.split)
qed

lemma take_line_placed: "take_line accept session now raw (placed off r s) = placed off r (take_line accept session now raw s)"
proof -
  have seen: "line_seen b line (line_read raw (placed off r s)) = placed off r (line_seen b line (line_read raw s))" for b line
    by (simp add: line_seen_def line_read_def placed_def call_def)
  have bad: "(call (OnGap Io) (line_read raw (placed off r s)))\<lparr> tl_machine := new_machine \<rparr>
      = placed off r ((call (OnGap Io) (line_read raw s))\<lparr> tl_machine := new_machine \<rparr>)"
    by (simp add: line_read_def placed_def call_def)
  have o: "tl_line_offset (placed off r s) = tl_line_offset s" by (simp add: placed_def)
  show ?thesis by (simp add: take_line_def Let_def seen bad o line_fed_placed split: option.split)
qed

lemma take_lines_placed:
  "fold (take_line accept session now) ls (placed off r s) = placed off r (fold (take_line accept session now) ls s)"
  by (induction ls arbitrary: s) (simp_all add: take_line_placed)

lemma bytes_read_placed:
  "bytes_read b s = placed (tl_offset s + of_nat (length b)) (partial_part (tl_remainder s @ b)) s"
  by (simp add: bytes_read_def placed_def)

lemma ingest_two_chunks:
  assumes "length (partial_part (tl_remainder s @ a)) \<le> 262144"
  shows "ingest accept session now (a @ b) s = ingest accept session now b (ingest accept session now a s)"
proof -
  let ?rem = "tl_remainder s"
  let ?first = "split_after NL (complete_part (?rem @ a))"
  let ?second = "split_after NL (complete_part (partial_part (?rem @ a) @ b))"
  let ?s = "fold (take_line accept session now) ?first s"
  have first: "ingest accept session now a s = placed (tl_offset s + of_nat (length a)) (partial_part (?rem @ a)) ?s"
    unfolding ingest_def bytes_read_placed take_lines_placed
    using assms by (simp add: bound_partial_def placed_def)
  have lines: "split_after NL (complete_part (?rem @ a @ b)) = ?first @ ?second"
    using split_after_append [OF complete_ends, of "?rem @ a"] complete_append [of "?rem @ a" b] by simp
  have part: "partial_part (?rem @ a @ b) = partial_part (partial_part (?rem @ a) @ b)"
    using partial_append [of "?rem @ a" b] by simp
  have twice: "bytes_read b (placed off r t) = placed (off + of_nat (length b)) (partial_part (r @ b)) t"
    for off r and t :: "'a tailer"
    by (simp add: bytes_read_def placed_def)
  have "ingest accept session now (a @ b) s
      = bound_partial (placed (tl_offset s + of_nat (length (a @ b))) (partial_part (partial_part (?rem @ a) @ b))
          (fold (take_line accept session now) ?second ?s))"
    by (simp add: ingest_def bytes_read_placed take_lines_placed lines part)
  moreover have "ingest accept session now b (placed (tl_offset s + of_nat (length a)) (partial_part (?rem @ a)) ?s)
      = bound_partial (placed (tl_offset s + of_nat (length a) + of_nat (length b))
          (partial_part (partial_part (?rem @ a) @ b)) (fold (take_line accept session now) ?second ?s))"
    by (simp add: ingest_def twice take_lines_placed) (simp add: placed_def)
  ultimately show ?thesis by (simp add: first algebra_simps)
qed

text \<open>C40: How the bytes are divided does not matter to what is read from them: feeding the tailer any number of chunks one after
  the other, for one session and at one clock reading, leaves it in the same state (lines passed on, trades confirmed or held,
  byte positions, partial line and warnings) as feeding it all the bytes at once, as long as no partial line between two chunks
  is too long to keep. It speaks of \<open>ingest\<close> alone: the poll around it moves the time bound \<open>tl_observed_after\<close> between reads,
  and reads later chunks by a later clock, so times may differ when the bytes arrive in different polls.\<close>

theorem chunking_is_irrelevant:
  assumes "\<And>n. length (partial_part (tl_remainder s @ a @ concat (take n chunks))) \<le> 262144"
  shows "ingest accept session now (a @ concat chunks) s = fold (ingest accept session now) (a # chunks) s"
  using assms
proof (induction chunks rule: rev_induct)
  case (snoc b chunks)
  have "length (partial_part (tl_remainder s @ a @ concat (take n chunks))) \<le> 262144" for n
    using snoc.prems [of "min n (length chunks)"] by (cases "n \<le> length chunks") auto
  then have "ingest accept session now (a @ concat chunks) s = fold (ingest accept session now) (a # chunks) s"
    by (rule snoc.IH)
  moreover have "length (partial_part (tl_remainder s @ (a @ concat chunks))) \<le> 262144"
    using snoc.prems [of "length chunks"] by simp
  ultimately show ?case using ingest_two_chunks [of s "a @ concat chunks" accept session now b] by simp
qed simp

theorem chunking_is_irrelevant_witness:
  "ingest accept_all ''s'' 5 ([65] @ concat [[66, 10], [67], [10]]) (tail_start None ''t'' (Some 7) 0 ())
     = fold (ingest accept_all ''s'' 5) [[65], [66, 10], [67], [10]] (tail_start None ''t'' (Some 7) 0 ())"
proof (rule chunking_is_irrelevant)
  fix n
  have part: "length (partial_part b) \<le> length b" for b
    using length_takeWhile_le [of "\<lambda>x. x \<noteq> NL" "rev b"] by (simp add: partial_part_def)
  have "length (concat (take n xs)) \<le> length (concat xs)" for xs :: "bytes list"
    using arg_cong [OF append_take_drop_id [of n xs], of "\<lambda>ys. length (concat ys)"] by (simp del: append_take_drop_id)
  from this [of "[[66, 10], [67], [10]]"] part [of "[65] @ concat (take n [[66, 10], [67], [10]])"]
  show "length (partial_part (tl_remainder (tail_start None ''t'' (Some 7) 0 ()) @ [65] @ concat (take n [[66, 10], [67], [10]]))) \<le> 262144"
    by (simp add: tail_start_def Let_def del: take_Suc_Cons)
qed

section \<open>Warnings\<close>

text \<open>Replaying the calls: whether a read failure stands, and whether every recovery withdrew one.\<close>

fun watch :: "callback \<Rightarrow> bool \<times> bool \<Rightarrow> bool \<times> bool" where
  "watch (OnGap Io) (failed, ok) = (True, ok)"
| "watch OnReadable (failed, ok) = (False, ok \<and> failed)"
| "watch c s = s"

definition watched :: "callback list \<Rightarrow> bool \<times> bool" where
  "watched cs = fold watch cs (False, True)"

definition warns :: "'w tailer \<Rightarrow> bool" where
  "warns s \<longleftrightarrow> snd (watched (tl_calls s)) \<and> (tl_unreadable s \<longrightarrow> fst (watched (tl_calls s)))"

lemma watch_other: "c \<noteq> OnReadable \<Longrightarrow> snd (watch c p) = snd p \<and> (fst p \<longrightarrow> fst (watch c p))"
  by (cases "(c, p)" rule: watch.cases) auto

lemma warns_call: "warns s \<Longrightarrow> c \<noteq> OnReadable \<Longrightarrow> warns (call c s)"
  using watch_other [of c "watched (tl_calls s)"] by (auto simp: warns_def call_def watched_def)

lemma warns_frame:
  "tl_calls r = tl_calls s \<Longrightarrow> tl_unreadable r = tl_unreadable s \<Longrightarrow> warns s \<Longrightarrow> warns r"
  by (simp add: warns_def)

lemma warns_offer: "warns s \<Longrightarrow> warns (snd (offer accept t p s))"
  unfolding offer_def case_prod_beta Let_def snd_conv
  by (rule warns_call) (auto intro: warns_frame [where s = s])

lemma warns_retry: "warns s \<Longrightarrow> warns (retry_held accept hs s)"
proof (induction accept hs s rule: retry_held.induct)
  case (2 accept t p hs s)
  obtain ok s' where o: "offer accept t p s = (ok, s')" by (cases "offer accept t p s")
  have w: "warns s'" using warns_offer [OF "2.prems", of accept t p] o by simp
  show ?case
    using "2.IH" [OF o [symmetric] refl] w by (auto simp: o intro: warns_frame [OF _ _ w])
qed (auto intro: warns_frame)

interpretation warned: tail_invariant accept warns for accept
proof
  show "warns (fail_io s)" if "warns s" for s :: "'a tailer"
    using that by (cases "watched (tl_calls s)") (simp add: warns_def fail_io_def call_def watched_def)
  show "warns (recovered i s)" if "warns s" for i and s :: "'a tailer"
    using that by (cases "watched (tl_calls s)") (simp add: warns_def recovered_def call_def watched_def)
  show "warns (confirmed accept t p s)" if "warns s" for t p and s :: "'a tailer"
    using that warns_offer [OF that, of accept t p]
    by (auto simp: confirmed_def case_prod_beta Let_def
        intro: warns_frame [where s = "snd (offer accept t p s)"] warns_frame [where s = s])
qed (auto intro: warns_call warns_retry simp: warns_frame)

text \<open>The tailer reports the log readable again only when a read failure has been reported since the last
  such report.\<close>

lemma recovery_withdraws_a_warning:
  "snd (watched (tl_calls (tail_with_ticks lossy fingerprint accept ticks (tail_start initial token len now w))))"
proof -
  have "warns (tail_start initial token len now w)" by (simp add: warns_def watched_def tail_start_def Let_def)
  from warned.inv_run [OF this] show ?thesis by (simp add: warns_def)
qed

lemma gap_explained_iff_unread: "explanation k \<noteq> None \<longleftrightarrow> is_unread k"
  by (cases k) (simp_all add: explanation_def is_unread_def)

end
