(* ===== verification/Recording.thy ===== *)
theory Recording
  imports Log_Tail
begin

text \<open>
  Whether completed trades are being recorded (\<open>services/game_log/recording.rs\<close>), and the callbacks with
  which \<open>start_tailer\<close> (\<open>services/trading/trades.rs\<close>) keeps it: each call of the tailer changes the poll's
  outcome and publishes it. The ledger's reason for its \<open>n\<close>-th answer is a parameter.
\<close>

datatype recording_stop = LedgerStop string | LogStop string
datatype recording_state = Off | Recording | Paused recording_stop

record poll_outcome =
  po_log_error :: "string option"
  po_ledger_error :: "string option"

definition no_outcome :: poll_outcome where
  "no_outcome = \<lparr> po_log_error = None, po_ledger_error = None \<rparr>"

definition stop_of :: "poll_outcome \<Rightarrow> recording_stop option" where
  "stop_of out =
     (case po_ledger_error out of Some e \<Rightarrow> Some (LedgerStop e) | None \<Rightarrow> map_option LogStop (po_log_error out))"

definition trade_accepted :: "poll_outcome \<Rightarrow> poll_outcome" where
  "trade_accepted out = out\<lparr> po_ledger_error := None, po_log_error := None \<rparr>"

text \<open>The recorder: its state, and the events sent, one for each change.\<close>

record recorder =
  rc_state :: recording_state
  rc_events :: "recording_state list"

definition new_recorder :: recorder where
  "new_recorder = \<lparr> rc_state = Off, rc_events = [] \<rparr>"

definition recorder_set :: "recording_state \<Rightarrow> recorder \<Rightarrow> bool \<times> recorder" where
  "recorder_set next_state r = (if rc_state r = next_state then (False, r) else (True, r\<lparr> rc_state := next_state \<rparr>))"

definition set_stop :: "recording_stop option \<Rightarrow> recorder \<Rightarrow> bool \<times> recorder" where
  "set_stop stop = recorder_set (case stop of Some s \<Rightarrow> Paused s | None \<Rightarrow> Recording)"

definition observe_outcome :: "poll_outcome \<Rightarrow> recorder \<Rightarrow> recording_state option \<times> recorder" where
  "observe_outcome out r =
     (let (changed, r) = set_stop (stop_of out) r in (if changed then Some (rc_state r) else None, r))"

definition announce_recording :: "poll_outcome \<Rightarrow> recorder \<Rightarrow> recorder" where
  "announce_recording out r =
     (let (news, r) = observe_outcome out r
      in case news of Some s \<Rightarrow> r\<lparr> rc_events := rc_events r @ [s] \<rparr> | None \<Rightarrow> r)"

text \<open>What the callbacks of \<open>start_tailer\<close> do with the outcome.\<close>

fun outcome_after :: "string \<Rightarrow> callback \<Rightarrow> poll_outcome \<Rightarrow> poll_outcome" where
  "outcome_after err (OnTrade t p ok) out =
     (if ok then trade_accepted out else out\<lparr> po_ledger_error := Some err \<rparr>)"
| "outcome_after err (OnGap k) out =
     out\<lparr> po_log_error := (if is_unread k then explanation k else None) \<rparr>"
| "outcome_after err OnReadable out = out\<lparr> po_log_error := None \<rparr>"
| "outcome_after err (OnLine l) out = out"

definition publish_call :: "string \<Rightarrow> callback \<Rightarrow> poll_outcome \<times> recorder \<Rightarrow> poll_outcome \<times> recorder" where
  "publish_call err c s =
     (let (out, r) = s; out = outcome_after err c out
      in (out, case c of OnLine _ \<Rightarrow> r | _ \<Rightarrow> announce_recording out r))"

fun publish_calls :: "(nat \<Rightarrow> string) \<Rightarrow> callback list \<Rightarrow> poll_outcome \<times> recorder" where
  "publish_calls errs cs =
     fold (\<lambda>(i, c). publish_call (errs i) c) (enumerate 0 cs) (no_outcome, new_recorder)"

declare publish_calls.simps [simp del]

section \<open>The state shown and the state of the ledger\<close>

lemma publish_snoc: "publish_calls errs (cs @ [c]) = publish_call (errs (length cs)) c (publish_calls errs cs)"
  by (simp add: publish_calls.simps enumerate_append_eq)

lemma announced_state:
  "rc_state (announce_recording out r) = (case stop_of out of Some s \<Rightarrow> Paused s | None \<Rightarrow> Recording)"
  by (auto simp: announce_recording_def observe_outcome_def set_stop_def recorder_set_def split: option.splits)

lemma announce_events:
  "rc_events (announce_recording out r) =
     (if rc_state (announce_recording out r) = rc_state r then rc_events r
      else rc_events r @ [rc_state (announce_recording out r)])"
  by (auto simp: announce_recording_def observe_outcome_def set_stop_def recorder_set_def split: option.splits)

definition ledger_paused :: "recording_state \<Rightarrow> bool" where
  "ledger_paused s \<longleftrightarrow> (case s of Paused (LedgerStop _) \<Rightarrow> True | _ \<Rightarrow> False)"

text \<open>Whether the last answer of the ledger was a refusal.\<close>

fun last_refused :: "callback \<Rightarrow> bool \<Rightarrow> bool" where
  "last_refused (OnTrade t p ok) b = (\<not> ok)"
| "last_refused c b = b"

lemma published_outcome:
  "(po_ledger_error (fst (publish_calls errs cs)) \<noteq> None \<longleftrightarrow> fold last_refused cs False)
   \<and> (ledger_paused (rc_state (snd (publish_calls errs cs))) \<longleftrightarrow> fold last_refused cs False)"
proof (induction cs rule: rev_induct)
  case Nil
  show ?case by (simp add: publish_calls.simps no_outcome_def new_recorder_def ledger_paused_def)
next
  case (snoc c cs)
  obtain out r where p: "publish_calls errs cs = (out, r)" by (cases "publish_calls errs cs")
  show ?case
    using snoc by (cases c) (auto simp: publish_snoc p publish_call_def Let_def announced_state stop_of_def
        trade_accepted_def ledger_paused_def split: option.splits)
qed

lemma held_retry:
  "(tl_held (retry_held accept hs s) \<noteq> [] \<longleftrightarrow> fold last_refused (tl_calls (retry_held accept hs s)) False)"
  if "hs = [] \<longrightarrow> \<not> fold last_refused (tl_calls s) False"
  using that
proof (induction accept hs s rule: retry_held.induct)
  case (2 accept t p hs s)
  obtain ok s' where o: "offer accept t p s = (ok, s')" by (cases "offer accept t p s")
  then have c: "tl_calls s' = tl_calls s @ [OnTrade t p ok]"
    by (auto simp: offer_def call_def split: prod.splits)
  show ?case
  proof (cases ok)
    case True
    then show ?thesis using 2 o c by simp
  next
    case False
    then show ?thesis using o c by simp
  qed
qed simp

text \<open>A trade waits exactly when the ledger's last answer was a refusal.\<close>

definition waits_iff_refused :: "'w tailer \<Rightarrow> bool" where
  "waits_iff_refused s \<longleftrightarrow> (tl_held s \<noteq> [] \<longleftrightarrow> fold last_refused (tl_calls s) False)"

interpretation refused: tail_invariant accept waits_iff_refused for accept
proof
  show "waits_iff_refused (call c s)" if "waits_iff_refused s" "\<not> is_offer c" for c and s :: "'a tailer"
    using that by (cases c) (simp_all add: waits_iff_refused_def call_def)
  show "waits_iff_refused (fail_io s)" if "waits_iff_refused s" for s :: "'a tailer"
    using that by (simp add: waits_iff_refused_def fail_io_def call_def)
  show "waits_iff_refused (recovered i s)" if "waits_iff_refused s" for i and s :: "'a tailer"
    using that by (simp add: waits_iff_refused_def recovered_def call_def)
  show "waits_iff_refused (retry_held accept (tl_held s) s)" if "waits_iff_refused s" for s :: "'a tailer"
    unfolding waits_iff_refused_def by (rule held_retry) (use that waits_iff_refused_def in blast)
  show "waits_iff_refused (confirmed accept t p s)" if "waits_iff_refused s" for t p and s :: "'a tailer"
    using that by (cases "accept (tl_ledger s) t p") (auto simp: waits_iff_refused_def confirmed_def offer_def call_def)
qed (simp add: waits_iff_refused_def)

text \<open>The recording state shown is paused for the ledger exactly when a trade is waiting to be recorded,
  whatever the log, the ledger and the clock do.\<close>

lemma paused_exactly_when_a_trade_waits:
  "let s = tail_with_ticks lossy fingerprint accept ticks (tail_start initial token len now w)
   in ledger_paused (rc_state (snd (publish_calls errs (tl_calls s)))) \<longleftrightarrow> tl_held s \<noteq> []"
proof -
  have "waits_iff_refused (tail_start initial token len now w)" by (simp add: waits_iff_refused_def tail_start_def Let_def)
  from refused.inv_run [OF this] show ?thesis using published_outcome by (simp add: waits_iff_refused_def Let_def)
qed

text \<open>One event is sent for each change of the recording state and none otherwise: no event repeats the one
  before it, and the last is the state shown.\<close>

lemma recording_events_are_changes:
  "let r = snd (publish_calls errs cs)
   in distinct_adj (Off # rc_events r) \<and> last (Off # rc_events r) = rc_state r"
proof (induction cs rule: rev_induct)
  case Nil
  show ?case by (simp add: publish_calls.simps new_recorder_def)
next
  case (snoc c cs)
  obtain out r where p: "publish_calls errs cs = (out, r)" by (cases "publish_calls errs cs")
  have prev: "distinct_adj (Off # rc_events r)" "last (Off # rc_events r) = rc_state r"
    using snoc p by (simp_all add: Let_def)
  have step: "distinct_adj (Off # rc_events r') \<and> last (Off # rc_events r') = rc_state r'"
    if "r' = announce_recording o' r" for o' r'
  proof (cases "rc_state r' = rc_state r")
    case True
    then have "rc_events r' = rc_events r" using announce_events [of o' r] that by simp
    then show ?thesis using prev True by simp
  next
    case False
    then have ev: "Off # rc_events r' = (Off # rc_events r) @ [rc_state r']"
      using announce_events [of o' r] that by simp
    have "distinct_adj ((Off # rc_events r) @ [rc_state r'])"
      using prev False by (subst distinct_adj_append_iff) auto
    then show ?thesis unfolding ev by simp
  qed
  show ?case using prev p step [OF refl] by (cases c) (simp_all add: publish_snoc publish_call_def Let_def)
qed

end
