(* ===== verification/Allowance.thy ===== *)
theory Allowance
  imports Trade_Log Json
begin

text \<open>
  The trade allowance (\<open>contracts/trading.rs\<close>): what a scan of the game reads as the day's remaining trades,
  how the trades the log confirms are subtracted from it, and when the figure stops being certain. Times
  are \<open>i64\<close> Unix seconds; a day is their Euclidean quotient by 86400.
\<close>

section \<open>Data\<close>

datatype confidence = Scanned | Tracked | Estimated | Unknown

record allowance_view =
  av_remaining :: "u32 option"
  av_mastery_rank :: "u32 option"
  av_observed_at :: "i64 option"
  av_utc_day :: i64
  av_snapshot_id :: "i64 option"
  av_confidence :: confidence
  av_reason :: "string option"
  av_monitoring :: bool

record observation =
  ob_account_key :: string
  ob_run_id :: string
  ob_remaining :: "u32 option"
  ob_mastery_rank :: "u32 option"
  ob_observed_at :: i64
  ob_utc_day :: i64
  ob_snapshot_id :: i64
  ob_confidence :: confidence
  ob_reason :: "string option"
  ob_before :: "log_position option"
  ob_after :: "log_position option"
  ob_monitoring :: bool

definition day_of :: "i64 \<Rightarrow> i64" where
  "day_of t = t div 86400"

section \<open>Operations\<close>

definition estimate_of :: "u32 option \<Rightarrow> confidence" where
  "estimate_of remaining = (if remaining \<noteq> None then Estimated else Unknown)"

definition mark_unsure :: "string \<Rightarrow> observation \<Rightarrow> observation" where
  "mark_unsure reason ob =
     ob\<lparr> ob_confidence := estimate_of (ob_remaining ob), ob_reason := Some reason, ob_monitoring := False \<rparr>"

definition integer_field :: "json \<Rightarrow> string \<Rightarrow> u32 option" where
  "integer_field raw key =
     Option.bind (Option.bind (jget raw key) as_u64) (\<lambda>n. if n < 4294967296 then Some (ucast n) else None)"

definition log_watched :: "log_position option \<Rightarrow> log_position option \<Rightarrow> bool" where
  "log_watched before after =
     (case (before, after) of
        (Some a, Some b) \<Rightarrow> lp_session a = lp_session b \<and> lp_end a \<le> lp_end b
      | _ \<Rightarrow> False)"

definition scanned ::
  "string \<Rightarrow> i64 \<Rightarrow> json \<Rightarrow> log_position option \<Rightarrow> log_position option \<Rightarrow> i64 \<Rightarrow> i64 \<Rightarrow> observation" where
  "scanned account_key snapshot_id raw before after started_at observed_at =
     (let mastery_rank = integer_field raw ''PlayerLevel'';
          remaining = integer_field raw ''TradesRemaining'';
          monitoring = log_watched before after;
          result =
            \<lparr> ob_account_key = account_key, ob_run_id = '''',
              ob_remaining = (case remaining of Some n \<Rightarrow> Some n | None \<Rightarrow> mastery_rank),
              ob_mastery_rank = mastery_rank, ob_observed_at = observed_at, ob_utc_day = day_of observed_at,
              ob_snapshot_id = snapshot_id,
              ob_confidence = (if remaining \<noteq> None then Scanned else estimate_of mastery_rank),
              ob_reason = (if remaining = None
                           then Some ''Scan did not contain a usable remaining-trade count.'' else None),
              ob_before = before, ob_after = after, ob_monitoring = monitoring \<rparr>
      in if day_of started_at \<noteq> ob_utc_day result
         then mark_unsure ''Scan crossed the UTC reset; scan again to confirm.''
                (result\<lparr> ob_remaining := mastery_rank \<rparr>)
         else if \<not> monitoring \<and> remaining \<noteq> None
         then result\<lparr> ob_reason := Some ''Remaining count is from the scan; log monitoring is unavailable.'' \<rparr>
         else if \<not> monitoring \<and> mastery_rank \<noteq> None
         then result\<lparr> ob_reason := Some ''Remaining count was missing; using mastery as an estimate without log monitoring.'' \<rparr>
         else result)"

definition rollover :: "i64 \<Rightarrow> observation \<Rightarrow> observation" where
  "rollover now ob =
     (let day = day_of now in
      if ob_utc_day ob < day
      then ob\<lparr> ob_utc_day := day, ob_remaining := ob_mastery_rank ob,
               ob_confidence := estimate_of (ob_mastery_rank ob),
               ob_reason := Some ''UTC reset: mastery-based estimate; scan to confirm the account allowance.'' \<rparr>
      else if day < ob_utc_day ob then mark_unsure ''System clock moved backwards; scan again to confirm.'' ob
      else ob)"

definition spend_one :: "observation \<Rightarrow> observation" where
  "spend_one ob =
     ob\<lparr> ob_remaining := map_option (\<lambda>n. sat_sub n 1) (ob_remaining ob),
         ob_confidence := (if ob_confidence ob = Scanned then Tracked else ob_confidence ob) \<rparr>"

definition reconcile :: "log_position \<Rightarrow> i64 \<Rightarrow> observation \<Rightarrow> observation" where
  "reconcile position now ob =
     (let ob = rollover now ob in
      case (ob_before ob, ob_after ob) of
        (Some before, Some after) \<Rightarrow>
          if lp_session position \<noteq> lp_session after
          then mark_unsure ''Game log changed; scan again to confirm the account and allowance.'' ob
          else if lp_end position \<le> lp_end before then ob
          else if \<not> ob_monitoring ob then ob
          else if lp_start position < lp_end after \<or> lp_observed_after position < ob_observed_at ob
          then mark_unsure ''A trade overlapped the scan; remaining count needs confirmation.'' ob
          else if day_of (lp_observed_after position) \<noteq> ob_utc_day ob
          then mark_unsure ''A trade crossed the UTC reset; scan again to confirm.'' ob
          else spend_one ob
      | _ \<Rightarrow> ob)"

definition view :: "string \<Rightarrow> i64 \<Rightarrow> observation \<Rightarrow> allowance_view" where
  "view run_id now ob =
     (let current = rollover now ob;
          current = (if ob_run_id current \<noteq> run_id
                     then mark_unsure ''Monitoring restarted; scan again to confirm the account and remaining trades.'' current
                     else current)
      in \<lparr> av_remaining = ob_remaining current, av_mastery_rank = ob_mastery_rank current,
           av_observed_at = Some (ob_observed_at current), av_utc_day = ob_utc_day current,
           av_snapshot_id = Some (ob_snapshot_id current), av_confidence = ob_confidence current,
           av_reason = ob_reason current, av_monitoring = ob_monitoring current \<rparr>)"

definition unknown_view :: "i64 \<Rightarrow> allowance_view" where
  "unknown_view now =
     \<lparr> av_remaining = None, av_mastery_rank = None, av_observed_at = None, av_utc_day = day_of now,
       av_snapshot_id = None, av_confidence = Unknown,
       av_reason = Some ''Scan the game to read its remaining trade allowance.'', av_monitoring = False \<rparr>"

section \<open>When a figure is certain\<close>

definition certified :: "confidence \<Rightarrow> bool" where
  "certified c \<longleftrightarrow> c = Scanned \<or> c = Tracked"

lemma not_certified [simp]: "\<not> certified (estimate_of r)"
  by (simp add: certified_def estimate_of_def)

lemma rollover_certified:
  "certified (ob_confidence (rollover now ob)) \<longleftrightarrow> certified (ob_confidence ob) \<and> day_of now = ob_utc_day ob"
  by (auto simp: rollover_def mark_unsure_def Let_def)

lemma rollover_same: "day_of now = ob_utc_day ob \<Longrightarrow> rollover now ob = ob"
  by (simp add: rollover_def)

definition after_trades :: "(log_position \<times> i64) list \<Rightarrow> observation \<Rightarrow> observation" where
  "after_trades ts ob = fold (\<lambda>(p, now). reconcile p now) ts ob"

text \<open>A trade of this session, after the scan had read the log, on the scan's day.\<close>

definition after_scan :: "observation \<Rightarrow> log_position \<Rightarrow> bool" where
  "after_scan ob p \<longleftrightarrow> (case ob_after ob of None \<Rightarrow> False | Some a \<Rightarrow>
     lp_session p = lp_session a \<and> lp_end a \<le> lp_start p \<and> ob_observed_at ob \<le> lp_observed_after p
     \<and> day_of (lp_observed_after p) = ob_utc_day ob)"

definition before_scan :: "observation \<Rightarrow> log_position \<Rightarrow> bool" where
  "before_scan ob p \<longleftrightarrow> (case ob_before ob of None \<Rightarrow> False | Some b \<Rightarrow> lp_end p \<le> lp_end b)"

lemma spend_one_simps [simp]:
  "ob_before (spend_one ob) = ob_before ob" "ob_after (spend_one ob) = ob_after ob"
  "ob_observed_at (spend_one ob) = ob_observed_at ob" "ob_utc_day (spend_one ob) = ob_utc_day ob"
  "ob_monitoring (spend_one ob) = ob_monitoring ob"
  "ob_remaining (spend_one ob) = map_option (\<lambda>n. sat_sub n 1) (ob_remaining ob)"
  "certified (ob_confidence (spend_one ob)) = certified (ob_confidence ob)"
  by (simp_all add: spend_one_def certified_def)

lemma unsure_frame [simp]:
  "ob_before (mark_unsure r ob) = ob_before ob" "ob_after (mark_unsure r ob) = ob_after ob"
  "ob_observed_at (mark_unsure r ob) = ob_observed_at ob"
  by (simp_all add: mark_unsure_def)

lemma rollover_frame [simp]:
  "ob_before (rollover now ob) = ob_before ob" "ob_after (rollover now ob) = ob_after ob"
  "ob_observed_at (rollover now ob) = ob_observed_at ob"
  by (simp_all add: rollover_def Let_def)

lemma reconcile_frame:
  "ob_before (reconcile p now ob) = ob_before ob" "ob_after (reconcile p now ob) = ob_after ob"
  "ob_observed_at (reconcile p now ob) = ob_observed_at ob"
  by (simp_all add: reconcile_def Let_def split: option.split)

lemma reconcile_today:
  assumes "day_of now = ob_utc_day ob" and "ob_before ob = Some b" and "ob_after ob = Some a"
  shows "reconcile p now ob =
     (if lp_session p \<noteq> lp_session a
      then mark_unsure ''Game log changed; scan again to confirm the account and allowance.'' ob
      else if lp_end p \<le> lp_end b then ob else if \<not> ob_monitoring ob then ob
      else if lp_start p < lp_end a \<or> lp_observed_after p < ob_observed_at ob
      then mark_unsure ''A trade overlapped the scan; remaining count needs confirmation.'' ob
      else if day_of (lp_observed_after p) \<noteq> ob_utc_day ob
      then mark_unsure ''A trade crossed the UTC reset; scan again to confirm.'' ob else spend_one ob)"
  unfolding reconcile_def Let_def rollover_same [OF assms(1)] assms(2,3) by simp

lemma unsure_not_certified [simp]: "\<not> certified (ob_confidence (mark_unsure r ob))"
  by (simp add: mark_unsure_def)

lemma reconcile_certified:
  assumes c: "certified (ob_confidence (reconcile p now ob))" and m: "ob_monitoring (reconcile p now ob)"
    and ba: "ob_before ob = Some b" "ob_after ob = Some a"
  shows "certified (ob_confidence ob) \<and> ob_monitoring ob \<and> ob_utc_day (reconcile p now ob) = ob_utc_day ob
    \<and> day_of now = ob_utc_day ob
    \<and> (if before_scan ob p then reconcile p now ob = ob
       else after_scan ob p \<and> ob_remaining (reconcile p now ob) = map_option (\<lambda>n. sat_sub n 1) (ob_remaining ob))"
proof -
  have "reconcile p now ob = rollover now ob \<or> (\<exists>r. reconcile p now ob = mark_unsure r (rollover now ob))
      \<or> reconcile p now ob = spend_one (rollover now ob)"
    by (auto simp: reconcile_def Let_def split: option.split)
  then have "certified (ob_confidence (rollover now ob))" using c by auto
  then have ob: "certified (ob_confidence ob)" and day: "day_of now = ob_utc_day ob"
    by (simp_all add: rollover_certified)
  note eq = reconcile_today [OF day ba, of p]
  have s: "lp_session p = lp_session a" using c eq by (auto split: if_splits)
  show ?thesis
  proof (cases "lp_end p \<le> lp_end b")
    case True
    then have "reconcile p now ob = ob" using eq s by simp
    with True show ?thesis using ob day m ba by (simp add: before_scan_def)
  next
    case False
    have mon: "ob_monitoring ob" using m eq s False by (auto split: if_splits)
    have no: "\<not> (lp_start p < lp_end a \<or> lp_observed_after p < ob_observed_at ob)"
      using c eq s False mon by (auto split: if_splits)
    have d: "day_of (lp_observed_after p) = ob_utc_day ob"
      using c eq s False mon no by (auto split: if_splits)
    have "reconcile p now ob = spend_one ob" using eq s False mon no d by simp
    with False s no d mon show ?thesis using ob day ba
      by (simp add: before_scan_def after_scan_def not_less)
  qed
qed

lemma certified_exact:
  assumes "ob_before ob = Some b" and "ob_after ob = Some a"
    and "certified (ob_confidence (after_trades ts ob))" and "ob_monitoring (after_trades ts ob)"
  shows "map_option unat (ob_remaining (after_trades ts ob))
      = map_option (\<lambda>n. unat n - length (filter (\<lambda>(p, _). \<not> before_scan ob p) ts)) (ob_remaining ob)
    \<and> list_all (\<lambda>(p, now). (before_scan ob p \<or> after_scan ob p) \<and> day_of now = ob_utc_day ob) ts"
  using assms
proof (induction ts rule: rev_induct)
  case Nil
  then show ?case by (simp add: after_trades_def option.map_ident)
next
  case (snoc e ts)
  obtain p now where e: "e = (p, now)" by (cases e)
  let ?o = "after_trades ts ob"
  have step: "after_trades (ts @ [e]) ob = reconcile p now ?o" by (simp add: after_trades_def e)
  have frame: "ob_before ?o = ob_before ob" "ob_after ?o = ob_after ob" "ob_observed_at ?o = ob_observed_at ob"
    unfolding after_trades_def by (induction ts rule: rev_induct) (auto simp: reconcile_frame)
  have days: "certified (ob_confidence (after_trades us ob)) \<Longrightarrow> ob_monitoring (after_trades us ob)
      \<Longrightarrow> ob_utc_day (after_trades us ob) = ob_utc_day ob" for us
  proof (induction us rule: rev_induct)
    case (snoc x us)
    have "ob_before (after_trades us ob) = Some b" "ob_after (after_trades us ob) = Some a"
      using assms(1,2) unfolding after_trades_def by (induction us rule: rev_induct) (auto simp: reconcile_frame)
    with snoc reconcile_certified [of "fst x" "snd x" "after_trades us ob" b a] show ?case
      by (simp add: after_trades_def case_prod_beta)
  qed (simp add: after_trades_def)
  have c: "certified (ob_confidence ?o) \<and> ob_monitoring ?o \<and> day_of now = ob_utc_day ?o
      \<and> (if before_scan ?o p then reconcile p now ?o = ?o
         else after_scan ?o p \<and> ob_remaining (reconcile p now ?o) = map_option (\<lambda>n. sat_sub n 1) (ob_remaining ?o))"
    using reconcile_certified [of p now ?o b a] snoc.prems frame unfolding step by simp
  then have "ob_utc_day ?o = ob_utc_day ob" using days by blast
  then have scans: "before_scan ?o p = before_scan ob p" "after_scan ?o p = after_scan ob p"
    using frame assms(1,2) by (simp_all add: before_scan_def after_scan_def)
  have "unat (sat_sub n 1) = unat n - 1" for n :: u32 by (simp add: arith_unat)
  then show ?case
    using snoc.IH [OF assms(1,2)] c scans \<open>ob_utc_day ?o = ob_utc_day ob\<close> unfolding step unfolding e
    by (cases "before_scan ob p"; cases "ob_remaining ob"; cases "ob_remaining ?o") auto
qed

text \<open>While a scanned or tracked allowance is still monitored, it is the scanned count less one for each trade
  the log completed after the scan began to read it, never below zero, however many trades were reported and
  replayed; and every one of those trades belongs to the scanned session and day and lies wholly after the
  scan.\<close>

lemma certified_allowance_is_exact:
  assumes "ob_before ob = Some b" and "ob_after ob = Some a"
    and "certified (ob_confidence (after_trades ts ob))" and "ob_monitoring (after_trades ts ob)"
  shows "map_option unat (ob_remaining (after_trades ts ob))
      = map_option (\<lambda>n. unat n - length (filter (\<lambda>(p, _). \<not> before_scan ob p) ts)) (ob_remaining ob)
    \<and> list_all (\<lambda>(p, now). (before_scan ob p \<or> after_scan ob p) \<and> day_of now = ob_utc_day ob) ts"
  by (rule certified_exact [OF assms])

definition demo_pos :: "u64 \<Rightarrow> u64 \<Rightarrow> i64 \<Rightarrow> log_position" where
  "demo_pos s e t = \<lparr> lp_session = ''s'', lp_start = s, lp_end = e, lp_observed_after = t \<rparr>"

definition demo_scan :: observation where
  "demo_scan = scanned ''account'' 1 (JObj [(''TradesRemaining'', JPosInt 8)])
     (Some (demo_pos 100 100 100)) (Some (demo_pos 200 200 102)) 100 102"

lemma demo_scan_simps:
  "ob_before demo_scan = Some (demo_pos 100 100 100)" "ob_after demo_scan = Some (demo_pos 200 200 102)"
  "ob_remaining demo_scan = Some 8" "ob_confidence demo_scan = Scanned" "ob_monitoring demo_scan"
  "ob_utc_day demo_scan = 0" "ob_observed_at demo_scan = 102" "ob_run_id demo_scan = ''''"
  by (simp_all add: demo_scan_def scanned_def integer_field_def log_watched_def demo_pos_def day_of_def Let_def)

definition demo_trades :: "(log_position \<times> i64) list" where
  "demo_trades = [(demo_pos 80 100 90, 110), (demo_pos 201 230 103, 110), (demo_pos 240 260 111, 120)]"

lemma demo_trades_spent: "after_trades demo_trades demo_scan = spend_one (spend_one demo_scan)"
proof -
  have today: "day_of 110 = 0" "day_of 120 = 0" "day_of 103 = 0" "day_of 111 = 0" by (simp_all add: day_of_def)
  have "reconcile (demo_pos 80 100 90) 110 demo_scan = demo_scan"
    using reconcile_today [OF _ demo_scan_simps(1,2), of 110 "demo_pos 80 100 90"]
    by (simp add: today demo_scan_simps) (simp add: demo_pos_def)
  moreover have "reconcile (demo_pos 201 230 103) 110 demo_scan = spend_one demo_scan"
    using reconcile_today [OF _ demo_scan_simps(1,2), of 110 "demo_pos 201 230 103"]
    by (simp add: today demo_scan_simps) (simp add: demo_pos_def today)
  moreover have "reconcile (demo_pos 240 260 111) 120 (spend_one demo_scan) = spend_one (spend_one demo_scan)"
    using reconcile_today [of 120 "spend_one demo_scan" "demo_pos 100 100 100" "demo_pos 200 200 102" "demo_pos 240 260 111"]
    by (simp add: today demo_scan_simps) (simp add: demo_pos_def today)
  ultimately show ?thesis by (simp add: after_trades_def demo_trades_def)
qed

lemma certified_allowance_is_exact_witness:
  "map_option unat (ob_remaining (after_trades demo_trades demo_scan)) = Some 6"
proof -
  have "certified (ob_confidence (after_trades demo_trades demo_scan)) \<and> ob_monitoring (after_trades demo_trades demo_scan)"
    by (simp add: demo_trades_spent demo_scan_simps) (simp add: certified_def)
  then have "map_option unat (ob_remaining (after_trades demo_trades demo_scan))
      = map_option (\<lambda>n. unat n - length (filter (\<lambda>(p, _). \<not> before_scan demo_scan p) demo_trades)) (ob_remaining demo_scan)"
    using certified_allowance_is_exact [OF demo_scan_simps(1,2), of demo_trades] by blast
  then show ?thesis by (simp add: demo_trades_def before_scan_def demo_scan_simps) (simp add: demo_pos_def)
qed

text \<open>A scan is certain exactly when its response has a usable remaining-trade count and it did not cross the
  UTC reset; then that count is the one kept, and otherwise the mastery rank is (a missing or malformed
  count is never zero).\<close>

lemma scan_is_read_not_guessed:
  "(ob_confidence (scanned account snap raw before after started observed) = Scanned
     \<longleftrightarrow> integer_field raw ''TradesRemaining'' \<noteq> None \<and> day_of started = day_of observed)
   \<and> ob_remaining (scanned account snap raw before after started observed) =
       (if integer_field raw ''TradesRemaining'' \<noteq> None \<and> day_of started = day_of observed
        then integer_field raw ''TradesRemaining'' else integer_field raw ''PlayerLevel'')"
  by (auto simp: scanned_def mark_unsure_def estimate_of_def Let_def split: option.splits)

text \<open>A view is certain only for the run and the day of its observation, and it shows that observation
  unchanged.\<close>

lemma certified_view_is_current:
  assumes "certified (av_confidence (view run_id now ob))"
  shows "ob_run_id ob = run_id \<and> day_of now = ob_utc_day ob \<and> av_utc_day (view run_id now ob) = ob_utc_day ob
    \<and> av_remaining (view run_id now ob) = ob_remaining ob \<and> av_confidence (view run_id now ob) = ob_confidence ob
    \<and> av_monitoring (view run_id now ob) = ob_monitoring ob"
proof -
  have "ob_run_id (rollover now ob) = ob_run_id ob"
    by (simp add: rollover_def mark_unsure_def Let_def)
  moreover have run: "ob_run_id (rollover now ob) = run_id" and c: "certified (ob_confidence (rollover now ob))"
    using assms by (auto simp: view_def mark_unsure_def Let_def split: if_splits)
  ultimately show ?thesis
    using rollover_same [of now ob] by (simp add: rollover_certified view_def Let_def)
qed

lemma certified_view_is_current_witness:
  "av_remaining (view '''' 500 demo_scan) = Some 8"
proof -
  have "certified (av_confidence (view '''' 500 demo_scan))"
    by (simp add: view_def rollover_def demo_scan_simps day_of_def certified_def Let_def)
  from certified_view_is_current [OF this] show ?thesis by (simp add: demo_scan_simps)
qed

end
