(* ===== verification/Ledger.thy ===== *)
theory Ledger
  imports Allowance
begin

text \<open>
  The trade ledger of the local store (\<open>persistence/trades.rs\<close>, \<open>persistence/mod.rs\<close>): the tables \<open>trade\<close>,
  \<open>trade_log_event\<close> and \<open>trade_allowance\<close> as lists in insertion order, and the queries and transactions over
  them. Which statement of a transaction fails is the parameter \<open>faults\<close>; a transaction that does not
  commit leaves the tables as they were. A row's JSON is the value it encodes.
\<close>

section \<open>Tables\<close>

record trade_row =
  tr_id :: i64
  tr_at :: i64
  tr_partner :: ustr
  tr_kind :: ustr
  tr_plat :: i64
  tr_items :: "trade_item list"
  tr_log_stamp :: "ustr option"
  tr_wfm_closed :: bool

record log_event_row =
  le_session :: string
  le_end :: i64
  le_position :: log_position
  le_trade_id :: i64

record ledger =
  lg_trades :: "trade_row list"
  lg_events :: "log_event_row list"
  lg_allowance :: "observation option"
  lg_snapshots :: "i64 list"
  lg_run_id :: string

datatype db_step = Begin | FindDuplicate | InsertTrade | InsertEvent | ReadAllowance | ReadEvents | WriteAllowance | Commit | Query

type_synonym faults = "db_step \<Rightarrow> string option"

definition run_step :: "faults \<Rightarrow> db_step \<Rightarrow> (string, unit) result" where
  "run_step faults st = (case faults st of Some e \<Rightarrow> Err e | None \<Rightarrow> Ok ())"

text \<open>An unsigned offset is bound as SQLite's signed integer, or refused.\<close>

definition bind_offset :: "u64 \<Rightarrow> (string, i64) result" where
  "bind_offset n = ok_or (i64_of_u64 n) ''out of range integral type conversion attempted''"

text \<open>\<open>conn.transaction()\<close> to \<open>tx.commit()\<close>: an error rolls back.\<close>

definition transaction :: "faults \<Rightarrow> (ledger \<Rightarrow> (string, 'a \<times> ledger) result) \<Rightarrow> ledger \<Rightarrow> (string, 'a) result \<times> ledger" where
  "transaction faults body db =
     (case rbind (run_step faults Begin) (\<lambda>_. body db) of
        Err e \<Rightarrow> (Err e, db)
      | Ok (a, db') \<Rightarrow> (case run_step faults Commit of Err e \<Rightarrow> (Err e, db) | Ok _ \<Rightarrow> (Ok a, db')))"

section \<open>Statements\<close>

definition read_allowance :: "faults \<Rightarrow> ledger \<Rightarrow> (string, observation option) result" where
  "read_allowance faults db = rbind (run_step faults ReadAllowance) (\<lambda>_. Ok (lg_allowance db))"

definition write_allowance :: "faults \<Rightarrow> observation \<Rightarrow> ledger \<Rightarrow> (string, ledger) result" where
  "write_allowance faults ob db = rbind (run_step faults WriteAllowance) (\<lambda>_. Ok (db\<lparr> lg_allowance := Some ob \<rparr>))"

definition recorded :: "string \<Rightarrow> i64 \<Rightarrow> ledger \<Rightarrow> bool" where
  "recorded session end_offset db \<longleftrightarrow> (\<exists>e\<in>set (lg_events db). le_session e = session \<and> le_end e = end_offset)"

definition kind_allowed :: "ustr \<Rightarrow> bool" where
  "kind_allowed k \<longleftrightarrow> k \<in> {tx ''sale'', tx ''purchase'', tx ''trade''}"

definition max_id :: "ledger \<Rightarrow> i64" where
  "max_id db = foldl max 0 (map tr_id (lg_trades db))"

definition insert_trade_row :: "faults \<Rightarrow> trade_event \<Rightarrow> i64 \<Rightarrow> ledger \<Rightarrow> (string, i64 \<times> ledger) result" where
  "insert_trade_row faults t at db =
     rbind (run_step faults InsertTrade) (\<lambda>_.
       if \<not> kind_allowed (te_kind t) then Err ''CHECK constraint failed''
       else let row = \<lparr> tr_id = max_id db + 1, tr_at = at, tr_partner = te_partner t, tr_kind = te_kind t,
                        tr_plat = te_plat t, tr_items = te_items t, tr_log_stamp = te_log_stamp t,
                        tr_wfm_closed = False \<rparr>
            in Ok (tr_id row, db\<lparr> lg_trades := lg_trades db @ [row] \<rparr>))"

definition insert_event_row :: "faults \<Rightarrow> log_position \<Rightarrow> i64 \<Rightarrow> i64 \<Rightarrow> ledger \<Rightarrow> (string, ledger) result" where
  "insert_event_row faults p end_offset trade_id db =
     rbind (run_step faults InsertEvent) (\<lambda>_.
       if recorded (lp_session p) end_offset db then Err ''UNIQUE constraint failed''
       else Ok (db\<lparr> lg_events := lg_events db
              @ [\<lparr> le_session = lp_session p, le_end = end_offset, le_position = p, le_trade_id = trade_id \<rparr>] \<rparr>))"

definition advance_allowance :: "faults \<Rightarrow> log_position \<Rightarrow> i64 \<Rightarrow> ledger \<Rightarrow> (string, ledger) result" where
  "advance_allowance faults p at db =
     rbind (read_allowance faults db) (\<lambda>found.
       case found of
         None \<Rightarrow> Ok db
       | Some ob \<Rightarrow>
           write_allowance faults
             (if ob_run_id ob = lg_run_id db then reconcile p at ob
              else mark_unsure ''Monitoring restarted; scan again to confirm the account and remaining trades.'' ob) db)"

section \<open>Operations\<close>

definition insert_trade ::
  "faults \<Rightarrow> trade_event \<Rightarrow> i64 \<Rightarrow> log_position \<Rightarrow> ledger \<Rightarrow> (string, i64 option) result \<times> ledger" where
  "insert_trade faults t at p =
     transaction faults (\<lambda>db.
       rbind (run_step faults FindDuplicate) (\<lambda>_. rbind (bind_offset (lp_end p)) (\<lambda>end_offset.
         if recorded (lp_session p) end_offset db then Ok (None, db)
         else rbind (insert_trade_row faults t at db) (\<lambda>(row, db1).
                rbind (insert_event_row faults p end_offset row db1) (\<lambda>db2.
                  rbind (advance_allowance faults p at db2) (\<lambda>db3. Ok (Some row, db3)))))))"

definition later_events :: "string \<Rightarrow> i64 \<Rightarrow> ledger \<Rightarrow> log_event_row list" where
  "later_events session end_offset db =
     sort_key le_end (filter (\<lambda>e. le_session e = session \<and> end_offset < le_end e) (lg_events db))"

definition save_allowance :: "faults \<Rightarrow> observation \<Rightarrow> ledger \<Rightarrow> (string, unit) result \<times> ledger" where
  "save_allowance faults ob =
     transaction faults (\<lambda>db.
       let ob = ob\<lparr> ob_run_id := lg_run_id db \<rparr>
       in rbind (case ob_before ob of
                   None \<Rightarrow> Ok ob
                 | Some before \<Rightarrow>
                     rbind (run_step faults ReadEvents) (\<lambda>_. rbind (bind_offset (lp_end before)) (\<lambda>end_offset.
                       Ok (fold (\<lambda>e o'. reconcile (le_position e) (ob_observed_at o') o')
                             (later_events (lp_session before) end_offset db) ob))))
            (\<lambda>ob. rbind (write_allowance faults ob db) (\<lambda>db. Ok ((), db))))"

definition trade_allowance :: "faults \<Rightarrow> i64 \<Rightarrow> ledger \<Rightarrow> (string, allowance_view) result" where
  "trade_allowance faults now db =
     rbind (read_allowance faults db) (\<lambda>found.
       Ok (case found of Some ob \<Rightarrow> view (lg_run_id db) now ob | None \<Rightarrow> unknown_view now))"

definition latest_snapshot :: "ledger \<Rightarrow> i64 option" where
  "latest_snapshot db = (if lg_snapshots db = [] then None else Some (Max (set (lg_snapshots db))))"

definition session_allowance :: "faults \<Rightarrow> i64 \<Rightarrow> i64 \<Rightarrow> i64 \<Rightarrow> ledger \<Rightarrow> (string, allowance_view) result" where
  "session_allowance faults snapshot_id utc_day now db =
     rbind (read_allowance faults db) (\<lambda>found.
       rbind (ok_or found ''Scan the game before submitting a Trade Session batch.'') (\<lambda>ob.
       rbind (run_step faults Query) (\<lambda>_.
         if ob_run_id ob \<noteq> lg_run_id db \<or> ob_snapshot_id ob \<noteq> snapshot_id \<or> latest_snapshot db \<noteq> Some snapshot_id
         then Err ''Inventory or account changed, or monitoring restarted. Scan and review a new batch.''
         else let v = view (lg_run_id db) now ob
              in if av_utc_day v \<noteq> utc_day \<or> utc_day \<noteq> day_of now
                 then Err ''The UTC allowance day changed. Review a new batch.'' else Ok v)))"

definition allowance_gap :: "faults \<Rightarrow> ledger \<Rightarrow> (string, bool) result \<times> ledger" where
  "allowance_gap faults db =
     (case read_allowance faults db of
        Err e \<Rightarrow> (Err e, db)
      | Ok None \<Rightarrow> (Ok False, db)
      | Ok (Some ob) \<Rightarrow>
          if \<not> ob_monitoring ob then (Ok False, db)
          else case write_allowance faults
                 (mark_unsure ''Log monitoring was interrupted; scan again to confirm remaining trades.'' ob) db of
                 Err e \<Rightarrow> (Err e, db)
               | Ok db \<Rightarrow> (Ok True, db))"

definition clear_allowance :: "faults \<Rightarrow> ledger \<Rightarrow> (string, unit) result \<times> ledger" where
  "clear_allowance faults db =
     (case run_step faults Query of Err e \<Rightarrow> (Err e, db) | Ok _ \<Rightarrow> (Ok (), db\<lparr> lg_allowance := None \<rparr>))"

definition traded_names_since_scan :: "(ustr \<Rightarrow> ustr) \<Rightarrow> faults \<Rightarrow> ledger \<Rightarrow> (string, ustr set) result" where
  "traded_names_since_scan lower faults db =
     rbind (read_allowance faults db) (\<lambda>found.
       case found of
         None \<Rightarrow> Ok {}
       | Some ob \<Rightarrow>
           let session = (case ob_before ob of Some p \<Rightarrow> lp_session p | None \<Rightarrow> '''');
               end_at = (case ob_before ob of Some p \<Rightarrow> lp_end p | None \<Rightarrow> 0)
           in rbind (run_step faults Query) (\<lambda>_. rbind (bind_offset end_at) (\<lambda>end_offset.
                Ok (set (concat (List.map_filter (\<lambda>(e, t).
                  if le_trade_id e = tr_id t
                     \<and> (le_session e = session \<and> end_offset < le_end e
                        \<or> le_session e \<noteq> session \<and> ob_observed_at ob \<le> tr_at t)
                  then Some (map (\<lambda>i. lower (ti_name i)) (filter (\<lambda>i. ti_direction i = tx ''given'' \<and> 0 < ti_qty i) (tr_items t)))
                  else None) (List.product (lg_events db) (lg_trades db))))))))"

definition mark_trade_wfm_closed :: "faults \<Rightarrow> i64 \<Rightarrow> ledger \<Rightarrow> (string, unit) result \<times> ledger" where
  "mark_trade_wfm_closed faults ident db =
     (case run_step faults Query of
        Err e \<Rightarrow> (Err e, db)
      | Ok _ \<Rightarrow> (Ok (), db\<lparr> lg_trades := map (\<lambda>t. if tr_id t = ident then t\<lparr> tr_wfm_closed := True \<rparr> else t) (lg_trades db) \<rparr>))"

text \<open>\<open>LIMIT\<close>: a negative limit is none.\<close>

definition sql_limit :: "i64 \<Rightarrow> 'a list \<Rightarrow> 'a list" where
  "sql_limit n xs = (if n < 0 then xs else take (nat n) xs)"

definition list_trades :: "faults \<Rightarrow> i64 \<Rightarrow> ledger \<Rightarrow> (string, trade_row list) result" where
  "list_trades faults lim db =
     rbind (run_step faults Query) (\<lambda>_. Ok (sql_limit lim (sort_key (\<lambda>t. (- tr_at t, - tr_id t)) (lg_trades db))))"

definition trades_after :: "faults \<Rightarrow> i64 \<Rightarrow> i64 \<Rightarrow> ledger \<Rightarrow> (string, trade_row list) result" where
  "trades_after faults ident lim db =
     rbind (run_step faults Query) (\<lambda>_. Ok (sql_limit lim (sort_key tr_id (filter (\<lambda>t. ident < tr_id t) (lg_trades db)))))"

definition last_trade_id :: "faults \<Rightarrow> ledger \<Rightarrow> (string, i64) result" where
  "last_trade_id faults db = rbind (run_step faults Query) (\<lambda>_. Ok (max_id db))"

section \<open>One row of each table for each trade\<close>

definition empty_ledger :: "string \<Rightarrow> ledger" where
  "empty_ledger run_id = \<lparr> lg_trades = [], lg_events = [], lg_allowance = None, lg_snapshots = [], lg_run_id = run_id \<rparr>"

definition event_ok :: "log_event_row \<Rightarrow> bool" where
  "event_ok e \<longleftrightarrow> le_session e = lp_session (le_position e) \<and> bind_offset (lp_end (le_position e)) = Ok (le_end e)"

definition event_key :: "log_event_row \<Rightarrow> string \<times> i64" where
  "event_key e = (le_session e, le_end e)"

text \<open>The ids ascend; each trade has one log event and no two events are of one place in a log.\<close>

definition ledger_ok :: "ledger \<Rightarrow> bool" where
  "ledger_ok db \<longleftrightarrow>
     sorted_wrt (<) (0 # map tr_id (lg_trades db))
     \<and> map le_trade_id (lg_events db) = map tr_id (lg_trades db)
     \<and> distinct (map event_key (lg_events db)) \<and> list_all event_ok (lg_events db)
     \<and> list_all (\<lambda>t. kind_allowed (tr_kind t)) (lg_trades db)"

lemma foldl_max: "sorted_wrt (<) (a # xs) \<Longrightarrow> foldl max a xs = last (a # xs)" for a :: "'a::linorder"
  by (induction xs arbitrary: a) (auto simp: max_def)

lemma max_id_last: "ledger_ok db \<Longrightarrow> max_id db = last (0 # map tr_id (lg_trades db))"
  by (simp only: max_id_def ledger_ok_def foldl_max)

lemma sorted_snoc: "sorted_wrt (<) xs \<Longrightarrow> xs \<noteq> [] \<Longrightarrow> last xs < x \<Longrightarrow> sorted_wrt (<) (xs @ [x])" for x :: "'a::linorder"
proof -
  assume s: "sorted_wrt (<) xs" and "xs \<noteq> []" and l: "last xs < x"
  then obtain ys y where xs: "xs = ys @ [y]" by (cases xs rule: rev_cases) auto
  with s l show ?thesis by (force simp: sorted_wrt_append)
qed

definition trade_of_row :: "trade_row \<Rightarrow> trade_event" where
  "trade_of_row r = \<lparr> te_partner = tr_partner r, te_kind = tr_kind r, te_plat = tr_plat r, te_items = tr_items r,
     te_log_stamp = tr_log_stamp r \<rparr>"

definition new_row :: "trade_event \<Rightarrow> i64 \<Rightarrow> ledger \<Rightarrow> trade_row" where
  "new_row t at db = \<lparr> tr_id = max_id db + 1, tr_at = at, tr_partner = te_partner t, tr_kind = te_kind t,
     tr_plat = te_plat t, tr_items = te_items t, tr_log_stamp = te_log_stamp t, tr_wfm_closed = False \<rparr>"

definition new_event :: "log_position \<Rightarrow> i64 \<Rightarrow> i64 \<Rightarrow> log_event_row" where
  "new_event p end_offset ident =
     \<lparr> le_session = lp_session p, le_end = end_offset, le_position = p, le_trade_id = ident \<rparr>"

definition next_allowance :: "log_position \<Rightarrow> i64 \<Rightarrow> ledger \<Rightarrow> observation option" where
  "next_allowance p at db =
     map_option (\<lambda>ob. if ob_run_id ob = lg_run_id db then reconcile p at ob
       else mark_unsure ''Monitoring restarted; scan again to confirm the account and remaining trades.'' ob) (lg_allowance db)"

text \<open>What a call of \<open>insert_trade\<close> can do.\<close>

lemma insert_trade_outcome:
  obtains (failed) e where "insert_trade faults t at p db = (Err e, db)"
  | (known) n where "bind_offset (lp_end p) = Ok n" "recorded (lp_session p) n db" "insert_trade faults t at p db = (Ok None, db)"
  | (stored) n where "bind_offset (lp_end p) = Ok n" "\<not> recorded (lp_session p) n db" "kind_allowed (te_kind t)"
      "insert_trade faults t at p db = (Ok (Some (max_id db + 1)),
         db\<lparr> lg_trades := lg_trades db @ [new_row t at db],
             lg_events := lg_events db @ [new_event p n (max_id db + 1)],
             lg_allowance := next_allowance p at db \<rparr>)"
proof (cases "insert_trade faults t at p db")
  case (Pair r db')
  show ?thesis
  proof (cases r)
    case (Inl e)
    then have "db' = db" using Pair by (auto simp: insert_trade_def transaction_def split: sum.splits)
    with Pair Inl show ?thesis using failed by blast
  next
    case (Inr found)
    then obtain n where n: "bind_offset (lp_end p) = Ok n"
      using Pair by (auto simp: insert_trade_def transaction_def rbind_Ok_iff split: sum.splits)
    have steps: "run_step faults Begin = Ok ()" "run_step faults FindDuplicate = Ok ()" "run_step faults Commit = Ok ()"
      using Pair Inr by (auto simp: insert_trade_def transaction_def rbind_Ok_iff split: sum.splits)
    show ?thesis
    proof (cases "recorded (lp_session p) n db")
      case True
      then have "insert_trade faults t at p db = (Ok None, db)"
        by (simp add: insert_trade_def transaction_def steps n)
      with n True show ?thesis using known by blast
    next
      case False
      have more: "run_step faults InsertTrade = Ok ()" "run_step faults InsertEvent = Ok ()" "kind_allowed (te_kind t)"
        "run_step faults ReadAllowance = Ok ()" "lg_allowance db \<noteq> None \<longrightarrow> run_step faults WriteAllowance = Ok ()"
        using Pair Inr False n steps
        by (auto simp: insert_trade_def transaction_def rbind_Ok_iff insert_trade_row_def insert_event_row_def
            advance_allowance_def read_allowance_def write_allowance_def recorded_def split: sum.splits if_splits)
      have "insert_trade faults t at p db = (Ok (Some (max_id db + 1)),
         db\<lparr> lg_trades := lg_trades db @ [new_row t at db],
             lg_events := lg_events db @ [new_event p n (max_id db + 1)],
             lg_allowance := next_allowance p at db \<rparr>)"
        using False more(5)
        by (cases "lg_allowance db")
          (simp_all add: insert_trade_def transaction_def steps n more insert_trade_row_def insert_event_row_def
            advance_allowance_def read_allowance_def write_allowance_def recorded_def new_row_def new_event_def
            next_allowance_def Let_def)
      with n False more show ?thesis using stored by blast
    qed
  qed
qed

lemma ledger_ok_stored:
  assumes "ledger_ok db" and "bind_offset (lp_end p) = Ok n" and "\<not> recorded (lp_session p) n db" and "kind_allowed (te_kind t)"
  shows "ledger_ok (db\<lparr> lg_trades := lg_trades db @ [new_row t at db],
    lg_events := lg_events db @ [new_event p n (max_id db + 1)], lg_allowance := a \<rparr>)"
proof -
  have "sorted_wrt (<) ((0 # map tr_id (lg_trades db)) @ [max_id db + 1])"
    using assms(1) max_id_last [OF assms(1)] by (intro sorted_snoc) (simp_all add: ledger_ok_def)
  moreover have "(lp_session p, n) \<notin> event_key ` set (lg_events db)"
    using assms(3) by (auto simp: recorded_def event_key_def)
  ultimately show ?thesis
    using assms by (simp add: ledger_ok_def new_row_def new_event_def event_key_def event_ok_def)
qed

section \<open>Sequences of operations\<close>

datatype ledger_op =
    Insert faults trade_event i64 log_position
  | Save faults observation
  | Gap faults
  | Clear faults
  | Close faults i64
  | Snapshot i64

fun apply_op :: "ledger_op \<Rightarrow> ledger \<Rightarrow> ledger" where
  "apply_op (Insert faults t at p) db = snd (insert_trade faults t at p db)"
| "apply_op (Save faults ob) db = snd (save_allowance faults ob db)"
| "apply_op (Gap faults) db = snd (allowance_gap faults db)"
| "apply_op (Clear faults) db = snd (clear_allowance faults db)"
| "apply_op (Close faults ident) db = snd (mark_trade_wfm_closed faults ident db)"
| "apply_op (Snapshot ident) db = db\<lparr> lg_snapshots := lg_snapshots db @ [ident] \<rparr>"

lemma save_outcome: "snd (save_allowance faults ob db) = db \<or> (\<exists>a. snd (save_allowance faults ob db) = db\<lparr> lg_allowance := a \<rparr>)"
  by (auto simp: save_allowance_def transaction_def write_allowance_def rbind_Ok_iff Let_def split: sum.split)

lemma gap_outcome:
  "snd (allowance_gap faults db) = db
   \<or> (\<exists>ob r. lg_allowance db = Some ob \<and> snd (allowance_gap faults db) = db\<lparr> lg_allowance := Some (mark_unsure r ob) \<rparr>)"
  by (auto simp: allowance_gap_def read_allowance_def write_allowance_def rbind_def split: sum.splits option.splits)

lemma close_rows:
  "map tr_id (lg_trades (snd (mark_trade_wfm_closed faults ident db))) = map tr_id (lg_trades db)"
  "map tr_kind (lg_trades (snd (mark_trade_wfm_closed faults ident db))) = map tr_kind (lg_trades db)"
  "map trade_of_row (lg_trades (snd (mark_trade_wfm_closed faults ident db))) = map trade_of_row (lg_trades db)"
  "lg_events (snd (mark_trade_wfm_closed faults ident db)) = lg_events db"
  "lg_allowance (snd (mark_trade_wfm_closed faults ident db)) = lg_allowance db"
  "lg_run_id (snd (mark_trade_wfm_closed faults ident db)) = lg_run_id db"
  by (auto simp: mark_trade_wfm_closed_def trade_of_row_def split: sum.split)

lemma ledger_ok_rows:
  "map tr_id (lg_trades db') = map tr_id (lg_trades db) \<Longrightarrow> map tr_kind (lg_trades db') = map tr_kind (lg_trades db)
     \<Longrightarrow> lg_events db' = lg_events db \<Longrightarrow> ledger_ok db' = ledger_ok db"
proof -
  assume eq: "map tr_id (lg_trades db') = map tr_id (lg_trades db)" "lg_events db' = lg_events db"
    and k: "map tr_kind (lg_trades db') = map tr_kind (lg_trades db)"
  have all: "list_all (\<lambda>t. kind_allowed (tr_kind t)) ts = list_all kind_allowed (map tr_kind ts)" for ts
    by (simp add: list.pred_map comp_def)
  show ?thesis by (simp only: ledger_ok_def eq all k)
qed

lemma ledger_ok_insert: "ledger_ok db \<Longrightarrow> ledger_ok (snd (insert_trade faults t at p db))"
  by (rule insert_trade_outcome [of faults t at p db]) (simp_all add: ledger_ok_stored)

lemma ledger_ok_op: "ledger_ok db \<Longrightarrow> ledger_ok (apply_op op db)"
proof (cases op)
  case (Insert faults t at p)
  then show "ledger_ok db \<Longrightarrow> ?thesis" by (simp add: ledger_ok_insert)
next
  case (Save faults ob)
  then show "ledger_ok db \<Longrightarrow> ?thesis" using save_outcome [of faults ob db] by (auto simp: ledger_ok_def)
next
  case (Gap faults)
  then show "ledger_ok db \<Longrightarrow> ?thesis" using gap_outcome [of faults db] by (auto simp: ledger_ok_def)
next
  case (Close faults ident)
  then show "ledger_ok db \<Longrightarrow> ?thesis" using ledger_ok_rows close_rows by (metis apply_op.simps(5))
qed (auto simp: ledger_ok_def clear_allowance_def split: sum.split)

lemma ledger_ok_run: "ledger_ok db \<Longrightarrow> ledger_ok (fold apply_op ops db)"
  by (induction ops arbitrary: db) (simp_all add: ledger_ok_op)

lemma ledger_ok_empty: "ledger_ok (empty_ledger run_id)"
  by (simp add: ledger_ok_def empty_ledger_def)

text \<open>C38: Whatever operations run on the ledger and whichever of their statements fail, its tables keep their
  shape: trade ids ascend, every trade has exactly one log event and every event its trade, no two events are of
  the same place in the same log, each event's columns are those of its position, and the kinds are those the
  schema allows.\<close>

theorem ledger_keeps_its_shape: "ledger_ok (fold apply_op ops (empty_ledger run_id))"
  by (rule ledger_ok_run [OF ledger_ok_empty])

section \<open>The allowance and the ledger\<close>

definition trades_since :: "log_position \<Rightarrow> ledger \<Rightarrow> nat" where
  "trades_since b db =
     length (filter (\<lambda>e. le_session e = lp_session b \<and> uint (lp_end b) < le_end e) (lg_events db))"

lemma bind_offset_Ok: "bind_offset n = Ok i \<longleftrightarrow> i = uint n \<and> uint n < 2 ^ 63"
  by (auto simp: bind_offset_def i64_of_u64_def)

text \<open>The stored figure is the scanned one less the ledger's trades since the scan, while it is certain.\<close>

definition agrees :: "observation \<Rightarrow> log_position \<Rightarrow> log_position \<Rightarrow> ledger \<Rightarrow> bool" where
  "agrees scan b a db \<longleftrightarrow>
     (\<exists>ob. lg_allowance db = Some ob \<and> ob_before ob = Some b \<and> ob_after ob = Some a
       \<and> (certified (ob_confidence ob) \<and> ob_monitoring ob \<longrightarrow> lp_session a = lp_session b
            \<and> map_option unat (ob_remaining ob) = map_option (\<lambda>n. unat n - trades_since b db) (ob_remaining scan)))"

lemma unsure_monitoring [simp]: "\<not> ob_monitoring (mark_unsure r ob)"
  by (simp add: mark_unsure_def)

lemma agrees_unsure:
  "agrees scan b a db \<Longrightarrow> lg_allowance db = Some ob \<Longrightarrow> agrees scan b a (db\<lparr> lg_allowance := Some (mark_unsure r ob) \<rparr>)"
  by (simp add: agrees_def)

lemma agrees_stored:
  assumes ag: "agrees scan b a db" and n: "bind_offset (lp_end p) = Ok n" and ok: "ledger_ok db"
  shows "agrees scan b a (db\<lparr> lg_trades := ts, lg_events := lg_events db @ [new_event p n i], lg_allowance := next_allowance p at db \<rparr>)"
    (is "agrees scan b a ?db")
proof -
  obtain ob where ob: "lg_allowance db = Some ob" "ob_before ob = Some b" "ob_after ob = Some a"
    and eq: "certified (ob_confidence ob) \<and> ob_monitoring ob \<longrightarrow> lp_session a = lp_session b
      \<and> map_option unat (ob_remaining ob) = map_option (\<lambda>n. unat n - trades_since b db) (ob_remaining scan)"
    using ag by (auto simp: agrees_def)
  show ?thesis
  proof (cases "ob_run_id ob = lg_run_id db")
    case False
    then show ?thesis using ob by (simp add: agrees_def next_allowance_def)
  next
    case True
    let ?new = "reconcile p at ob"
    have frame: "lg_allowance ?db = Some ?new" "ob_before ?new = Some b" "ob_after ?new = Some a"
      using ob True by (simp_all add: next_allowance_def reconcile_frame)
    have count: "trades_since b ?db = trades_since b db
        + (if lp_session p = lp_session b \<and> uint (lp_end b) < n then 1 else 0)"
      by (simp add: trades_since_def new_event_def)
    have "lp_session a = lp_session b
        \<and> map_option unat (ob_remaining ?new) = map_option (\<lambda>n. unat n - trades_since b ?db) (ob_remaining scan)"
      if c: "certified (ob_confidence ?new)" "ob_monitoring ?new"
    proof -
      note r = reconcile_certified [OF c ob(2,3)]
      have s: "lp_session a = lp_session b"
        and rem: "map_option unat (ob_remaining ob) = map_option (\<lambda>n. unat n - trades_since b db) (ob_remaining scan)"
        using r eq by auto
      show ?thesis
      proof (cases "before_scan ob p")
        case True
        then have "\<not> uint (lp_end b) < n" using n ob
          by (simp add: before_scan_def bind_offset_Ok word_le_def not_less)
        with True r rem s count show ?thesis by simp
      next
        case False
        then have "lp_session p = lp_session b \<and> uint (lp_end b) < n" using r s n ob
          by (simp add: before_scan_def after_scan_def bind_offset_Ok word_le_def not_le)
        then have "trades_since b ?db = trades_since b db + 1" using count by simp
        moreover have "ob_remaining ?new = map_option (\<lambda>n. sat_sub n 1) (ob_remaining ob)" using r False by simp
        moreover have "unat (sat_sub m 1) = unat m - 1" for m :: u32 by (simp add: arith_unat)
        ultimately show ?thesis using rem s by (cases "ob_remaining ob"; cases "ob_remaining scan") auto
      qed
    qed
    with frame show ?thesis by (auto simp: agrees_def)
  qed
qed

fun keeps_scan :: "ledger_op \<Rightarrow> bool" where
  "keeps_scan (Save faults ob) = False"
| "keeps_scan (Clear faults) = False"
| "keeps_scan op = True"

lemma agrees_frame:
  "lg_allowance db' = lg_allowance db \<Longrightarrow> lg_events db' = lg_events db \<Longrightarrow> agrees scan b a db' = agrees scan b a db"
  by (simp add: agrees_def trades_since_def)

lemma agrees_op:
  assumes "agrees scan b a db" and "ledger_ok db" and "keeps_scan op"
  shows "agrees scan b a (apply_op op db)"
proof (cases op)
  case (Insert faults t at p)
  then show ?thesis
    using assms agrees_stored [OF assms(1) _ assms(2)]
    by (auto intro: insert_trade_outcome [of faults t at p db])
next
  case (Gap faults)
  then show ?thesis using assms gap_outcome [of faults db] agrees_unsure by auto
next
  case (Close faults ident)
  then show ?thesis using assms close_rows agrees_frame by (metis apply_op.simps(5))
next
  case (Snapshot ident)
  then show ?thesis using assms by (simp add: agrees_def trades_since_def)
qed (use assms in simp_all)

lemma agrees_ops:
  "agrees scan b a db \<Longrightarrow> ledger_ok db \<Longrightarrow> list_all keeps_scan ops \<Longrightarrow> agrees scan b a (fold apply_op ops db)"
  by (induction ops arbitrary: db) (simp_all add: agrees_op ledger_ok_op)

definition replayed :: "string \<Rightarrow> log_event_row list \<Rightarrow> observation \<Rightarrow> observation" where
  "replayed run_id es scan =
     fold (\<lambda>e o'. reconcile (le_position e) (ob_observed_at o') o') es (scan\<lparr> ob_run_id := run_id \<rparr>)"

lemma replayed_trades:
  "replayed run_id es scan = after_trades (map (\<lambda>e. (le_position e, ob_observed_at scan)) es) (scan\<lparr> ob_run_id := run_id \<rparr>)"
proof -
  have "fold (\<lambda>e o'. reconcile (le_position e) (ob_observed_at o') o') es ob
      = fold (\<lambda>(p, now). reconcile p now) (map (\<lambda>e. (le_position e, ob_observed_at ob)) es) ob" for ob
    by (induction es arbitrary: ob) (simp_all add: reconcile_frame)
  then show ?thesis by (simp add: replayed_def after_trades_def)
qed

lemma after_trades_frame:
  "ob_before (after_trades ts ob) = ob_before ob" "ob_after (after_trades ts ob) = ob_after ob"
  unfolding after_trades_def by (induction ts arbitrary: ob) (auto simp: reconcile_frame)

lemma scanned_frame:
  "ob_before (scanned acct snap raw before after started observed) = before"
  "ob_after (scanned acct snap raw before after started observed) = after"
  "ob_monitoring (scanned acct snap raw before after started observed) \<Longrightarrow> log_watched before after"
  by (auto simp: scanned_def mark_unsure_def Let_def split: if_splits)

lemma reconcile_keeps_unmonitored: "\<not> ob_monitoring ob \<Longrightarrow> \<not> ob_monitoring (reconcile p now ob)"
  by (auto simp: reconcile_def rollover_def mark_unsure_def spend_one_def Let_def split: option.splits)

lemma after_trades_monitoring: "ob_monitoring (after_trades ts ob) \<Longrightarrow> ob_monitoring ob"
  unfolding after_trades_def
proof (induction ts arbitrary: ob)
  case (Cons x ts)
  then show ?case using reconcile_keeps_unmonitored [of ob "fst x" "snd x"] by (auto simp: case_prod_beta)
qed simp

lemma save_agrees:
  assumes saved: "save_allowance faults (scanned acct snap raw (Some b) (Some a) started observed) db = (Ok (), db')"
    and ok: "ledger_ok db"
  shows "agrees (scanned acct snap raw (Some b) (Some a) started observed) b a db' \<and> ledger_ok db'"
proof -
  let ?scan = "scanned acct snap raw (Some b) (Some a) started observed"
  have n: "bind_offset (lp_end b) = Ok (uint (lp_end b))"
    using saved by (auto simp: save_allowance_def transaction_def rbind_Ok_iff scanned_frame bind_offset_Ok Let_def
        split: sum.splits)
  define es where "es = later_events (lp_session b) (uint (lp_end b)) db"
  define ob where "ob = replayed (lg_run_id db) es ?scan"
  have db': "db' = db\<lparr> lg_allowance := Some ob \<rparr>"
    using saved n by (auto simp: save_allowance_def transaction_def rbind_Ok_iff scanned_frame write_allowance_def
        ob_def replayed_def es_def Let_def split: sum.splits)
  have ob_eq: "ob = after_trades (map (\<lambda>e. (le_position e, ob_observed_at ?scan)) es) (?scan\<lparr> ob_run_id := lg_run_id db \<rparr>)"
    (is "ob = after_trades ?ts ?scan'") by (simp add: ob_def replayed_trades)
  have frame: "ob_before ob = Some b" "ob_after ob = Some a"
    by (simp_all add: ob_eq after_trades_frame scanned_frame)
  have "lp_session a = lp_session b \<and> map_option unat (ob_remaining ob) = map_option (\<lambda>n. unat n - trades_since b db') (ob_remaining ?scan)"
    if c: "certified (ob_confidence ob)" "ob_monitoring ob"
  proof -
    have "ob_monitoring ?scan" using after_trades_monitoring [of ?ts ?scan'] c(2) ob_eq by simp
    then have s: "lp_session a = lp_session b" using scanned_frame(3) by (fastforce simp: log_watched_def)
    have exact: "map_option unat (ob_remaining ob)
        = map_option (\<lambda>n. unat n - length (filter (\<lambda>(p, _). \<not> before_scan ?scan' p) ?ts)) (ob_remaining ?scan')"
      using certified_exact [of ?scan' b a ?ts] c ob_eq by (simp add: scanned_frame)
    have "\<not> before_scan ?scan' (le_position e)" if e: "e \<in> set es" for e
    proof -
      have "e \<in> set (lg_events db)" "uint (lp_end b) < le_end e" using e by (simp_all add: es_def later_events_def)
      then have "bind_offset (lp_end (le_position e)) = Ok (le_end e)" "uint (lp_end b) < le_end e"
        using ok by (auto simp: ledger_ok_def list_all_iff event_ok_def)
      then show ?thesis by (simp add: before_scan_def scanned_frame bind_offset_Ok word_le_def)
    qed
    then have "filter (\<lambda>(p, _). \<not> before_scan ?scan' p) ?ts = ?ts" by (auto simp: filter_id_conv)
    moreover have "length es = trades_since b db'"
      by (simp add: es_def later_events_def trades_since_def db')
    ultimately show ?thesis using exact s by simp
  qed
  with frame have "agrees ?scan b a db'" by (simp add: agrees_def db')
  moreover have "ledger_ok db'" using ok by (simp add: db' ledger_ok_def)
  ultimately show ?thesis by simp
qed

text \<open>C37: The allowance shown and the ledger agree: once a scan has been saved (over whatever trades the ledger
  already has), however many trades are then inserted, refused or replayed, while the stored figure is certain and
  monitored it is the scanned count less the number of the ledger's trades of the scan's log past the place the scan
  began, each counted once.\<close>

theorem allowance_agrees_with_ledger:
  assumes "save_allowance faults (scanned acct snap raw (Some b) (Some a) started observed) (fold apply_op earlier (empty_ledger run_id)) = (Ok (), db1)"
    and "list_all keeps_scan ops"
    and "lg_allowance (fold apply_op ops db1) = Some ob" and "certified (ob_confidence ob)" and "ob_monitoring ob"
  shows "map_option unat (ob_remaining ob) =
    map_option (\<lambda>n. unat n - trades_since b (fold apply_op ops db1))
      (ob_remaining (scanned acct snap raw (Some b) (Some a) started observed))"
proof -
  have ag: "agrees (scanned acct snap raw (Some b) (Some a) started observed) b a db1 \<and> ledger_ok db1"
    using save_agrees [OF assms(1) ledger_ok_run [OF ledger_ok_empty]] .
  then have "agrees (scanned acct snap raw (Some b) (Some a) started observed) b a (fold apply_op ops db1)"
    using agrees_ops assms(2) by blast
  then show ?thesis using assms(3-5) by (auto simp: agrees_def)
qed

definition demo_event :: trade_event where
  "demo_event = \<lparr> te_partner = [], te_kind = tx ''sale'', te_plat = 10, te_items = [], te_log_stamp = None \<rparr>"

definition no_fault :: faults where
  "no_fault st = None"

definition demo_saved :: ledger where
  "demo_saved = (empty_ledger '''')\<lparr> lg_allowance := Some demo_scan \<rparr>"

lemma demo_save: "save_allowance no_fault demo_scan (empty_ledger '''') = (Ok (), demo_saved)"
proof -
  have "demo_scan\<lparr> ob_run_id := '''' \<rparr> = demo_scan" using demo_scan_simps(8) by (cases demo_scan) simp
  then show ?thesis
    by (simp add: save_allowance_def transaction_def run_step_def no_fault_def write_allowance_def demo_scan_simps
        later_events_def demo_saved_def empty_ledger_def bind_offset_def i64_of_u64_def demo_pos_def Let_def)
qed

definition demo_ops :: "ledger_op list" where
  "demo_ops = [Insert no_fault demo_event 110 (demo_pos 201 230 103), Insert no_fault demo_event 115 (demo_pos 201 230 103)]"

lemma demo_spend: "reconcile (demo_pos 201 230 103) 110 demo_scan = spend_one demo_scan"
  using reconcile_today [OF _ demo_scan_simps(1,2), of 110 "demo_pos 201 230 103"]
  by (simp add: demo_scan_simps day_of_def) (simp add: demo_pos_def day_of_def)

lemma demo_run_id: "ob_run_id (spend_one ob) = ob_run_id ob"
  by (simp add: spend_one_def)

lemma demo_inserted:
  "fold apply_op demo_ops demo_saved = demo_saved\<lparr> lg_trades := [new_row demo_event 110 demo_saved],
     lg_events := [new_event (demo_pos 201 230 103) 230 1], lg_allowance := Some (spend_one demo_scan) \<rparr>"
  by (simp add: demo_ops_def insert_trade_def transaction_def run_step_def no_fault_def insert_trade_row_def
      insert_event_row_def advance_allowance_def read_allowance_def write_allowance_def demo_saved_def empty_ledger_def
      bind_offset_def i64_of_u64_def demo_event_def kind_allowed_def recorded_def max_id_def new_row_def new_event_def
      demo_scan_simps demo_spend Let_def) (simp add: demo_pos_def)

theorem allowance_agrees_with_ledger_witness:
  "map_option unat (ob_remaining (spend_one demo_scan)) = Some 7"
proof -
  have saved: "save_allowance no_fault (scanned ''account'' 1 (JObj [(''TradesRemaining'', JPosInt 8)])
      (Some (demo_pos 100 100 100)) (Some (demo_pos 200 200 102)) 100 102) (fold apply_op [] (empty_ledger ''''))
      = (Ok (), demo_saved)"
    using demo_save by (simp add: demo_scan_def)
  have "map_option unat (ob_remaining (spend_one demo_scan)) =
      map_option (\<lambda>n. unat n - trades_since (demo_pos 100 100 100) (fold apply_op demo_ops demo_saved)) (ob_remaining demo_scan)"
    unfolding demo_scan_def
    by (rule allowance_agrees_with_ledger [OF saved])
      (simp_all add: demo_ops_def [symmetric] demo_scan_def [symmetric] demo_inserted demo_scan_simps,
        simp_all add: demo_ops_def certified_def demo_scan_simps)
  also have "trades_since (demo_pos 100 100 100) (fold apply_op demo_ops demo_saved) = 1"
    by (simp add: demo_inserted trades_since_def new_event_def demo_pos_def)
  finally show ?thesis by (simp add: demo_scan_simps)
qed

end
