(* ===== verification/Auto_Close.thy ===== *)
theory Auto_Close
  imports Listing Trade_Log
begin

text \<open>
  What follows a confirmed trade (\<open>services/trading/trades.rs\<close>): the ledger records it once, a sale adjusts
  the matching sell orders, and the user is told what was changed and what is left to review. Lower-casing
  is a parameter; the database's answers, the account's claim and the read of the orders are inputs.
\<close>

section \<open>Identities\<close>

datatype tier = Ranked | Subtyped

record own_sell_order =
  os_id :: string
  os_slug :: string
  os_rank :: "u64 option"
  os_quantity :: i64

type_synonym identity = "string \<times> u64 option"

definition name_to_slug :: "(ustr \<Rightarrow> ustr) \<Rightarrow> unlocked \<Rightarrow> (ustr, string) btree" where
  "name_to_slug lower u = bt_of (map (\<lambda>(slug, c). (lower (chars_of (ci_display_name c)), slug)) (un_catalog u))"

definition tier_of :: "wfm_catalog_item \<Rightarrow> tier option" where
  "tier_of item = (if ci_subtypes item \<noteq> [] then Some Subtyped else map_option (\<lambda>_. Ranked) (ci_max_rank item))"

definition tiered_slugs :: "unlocked \<Rightarrow> (string, tier) btree" where
  "tiered_slugs u = bt_of (List.map_filter (\<lambda>(slug, item). map_option (Pair slug) (tier_of item)) (un_catalog u))"

definition tag_rank :: "ustr \<Rightarrow> u64 option" where
  "tag_rank tag =
     (case rev (split_whitespace tag) of
        rank # word # rarity \<Rightarrow>
          Option.bind (parse_u64 rank) (\<lambda>r.
            if word = tx ''RANK'' \<and> rarity \<noteq> [] \<and> list_all (list_all is_ascii_uppercase) rarity then Some r else None)
      | _ \<Rightarrow> None)"

definition split_rank :: "ustr \<Rightarrow> ustr \<times> u64 option" where
  "split_rank name =
     (let name = trim name
      in case Option.bind (strip_suffix (tx '')'') name) (\<lambda>rest.
                Option.bind (rsplit_once (tx '' ('') rest) (\<lambda>(base, tag).
                  map_option (Pair (trim_end_where is_whitespace base)) (tag_rank tag))) of
           Some (base, rank) \<Rightarrow> (base, Some rank)
         | None \<Rightarrow> (name, None))"

definition sold_identity ::
  "(ustr \<Rightarrow> ustr) \<Rightarrow> (ustr, string) btree \<Rightarrow> (string, tier) btree \<Rightarrow> ustr \<Rightarrow> (string, identity) result" where
  "sold_identity lower names tiers name =
     (let (base, rank) = split_rank name
      in rbind (ok_or (map_of names (lower base)) ''item could not be resolved'') (\<lambda>slug.
           case map_of tiers slug of
             None \<Rightarrow> Ok (slug, None)
           | Some Ranked \<Rightarrow> ok_or (map_option (\<lambda>r. (slug, Some r)) rank) ''rank is unknown''
           | Some Subtyped \<Rightarrow> Err ''refinement or variant is unknown''))"

section \<open>The account's sell orders\<close>

definition own_sell_order_of :: "unlocked \<Rightarrow> order_row \<Rightarrow> own_sell_order option" where
  "own_sell_order_of u row =
     (case row of
        Supported n \<Rightarrow>
          if no_side n \<noteq> Sell then None
          else Option.bind (map_of (un_id_to_item u) (no_item_id n)) (\<lambda>meta.
            Option.bind (i64_of_u64 (no_quantity n)) (\<lambda>quantity.
              Some \<lparr> os_id = no_id n, os_slug = im_slug meta, os_rank = no_rank n, os_quantity = quantity \<rparr>))
      | _ \<Rightarrow> None)"

definition own_sell_orders :: "fmt \<Rightarrow> unlocked \<Rightarrow> json \<Rightarrow> own_sell_order list" where
  "own_sell_orders fm u body =
     (case decode_user_order_rows (fm_json fm) (fm_debug fm) u body of
        Err _ \<Rightarrow> []
      | Ok rows \<Rightarrow> List.map_filter (own_sell_order_of u) rows)"

section \<open>The adjustments\<close>

definition identity_of :: "own_sell_order \<Rightarrow> identity" where
  "identity_of ord = (os_slug ord, os_rank ord)"

definition sold_items ::
  "(ustr \<Rightarrow> ustr) \<Rightarrow> (ustr, string) btree \<Rightarrow> (string, tier) btree \<Rightarrow> trade_item list \<Rightarrow> (identity \<times> i64) list" where
  "sold_items lower names tiers items =
     List.map_filter (\<lambda>i.
       if ti_direction i \<noteq> tx ''given'' then None
       else case sold_identity lower names tiers (ti_name i) of Err _ \<Rightarrow> None | Ok ident \<Rightarrow> Some (ident, ti_qty i)) items"

definition sold_by_identity :: "(identity \<times> i64) list \<Rightarrow> (identity, i64) btree" where
  "sold_by_identity sold = fold (\<lambda>(ident, qty). bt_upd ident (\<lambda>v. i64_wrap (unwrap_or v 0 + qty))) sold []"

definition unique_orders :: "own_sell_order list \<Rightarrow> (identity, own_sell_order option) btree" where
  "unique_orders orders =
     fold (\<lambda>ord. bt_upd (identity_of ord) (\<lambda>v. case v of None \<Rightarrow> Some ord | Some _ \<Rightarrow> None)) orders []"

definition plan_adjustments ::
  "(ustr \<Rightarrow> ustr) \<Rightarrow> trade_event \<Rightarrow> (ustr, string) btree \<Rightarrow> own_sell_order list \<Rightarrow> (string, tier) btree
   \<Rightarrow> (own_sell_order \<times> i64) list" where
  "plan_adjustments lower trade names orders tiers =
     (if te_kind trade \<noteq> tx ''sale'' then []
      else List.map_filter (\<lambda>(ident, sold).
             case map_of (unique_orders orders) ident of
               Some (Some ord) \<Rightarrow> Some (ord, max (i64_wrap (os_quantity ord - sold)) 0)
             | _ \<Rightarrow> None)
             (sold_by_identity (sold_items lower names tiers (te_items trade))))"

definition follow_up_line :: "trade_item \<Rightarrow> string \<Rightarrow> ustr" where
  "follow_up_line i reason = ti_name i @ tx '': '' @ tx reason @ tx ''; review My Orders.''"

definition follow_up_reason ::
  "(ustr \<Rightarrow> ustr) \<Rightarrow> (ustr, string) btree \<Rightarrow> own_sell_order list \<Rightarrow> (string, tier) btree \<Rightarrow> trade_item \<Rightarrow> string option" where
  "follow_up_reason lower names orders tiers i =
     (case sold_identity lower names tiers (ti_name i) of
        Err reason \<Rightarrow> Some reason
      | Ok ident \<Rightarrow> if 1 < length (filter (\<lambda>ord. identity_of ord = ident) orders)
                   then Some ''multiple matching sell orders'' else None)"

definition adjustment_follow_up ::
  "(ustr \<Rightarrow> ustr) \<Rightarrow> trade_event \<Rightarrow> (ustr, string) btree \<Rightarrow> own_sell_order list \<Rightarrow> (string, tier) btree \<Rightarrow> ustr list" where
  "adjustment_follow_up lower trade names orders tiers =
     List.map_filter (\<lambda>i. map_option (follow_up_line i) (follow_up_reason lower names orders tiers i))
       (filter (\<lambda>i. ti_direction i = tx ''given'') (te_items trade))"

definition mutation_accepted :: "string \<Rightarrow> bool" where
  "mutation_accepted st \<longleftrightarrow> st = ''ok''"

definition unavailable_adjustment_follow_up :: "string \<Rightarrow> ustr" where
  "unavailable_adjustment_follow_up code =
     tx (if code = ''busy'' then ''Another order change blocked the automatic adjustment for this sale. Review My Orders after it finishes; the sold listing was not adjusted.''
         else if code = ''needs_login'' \<or> code = ''needs_unlock'' then ''Sign in or unlock your market login to review sell orders.''
         else ''Could not adjust the sold listing automatically. Review My Orders.'')"

section \<open>Handling a trade\<close>

datatype ledger_outcome = Recorded | AlreadyKnown | Failed string

text \<open>One adjustment: a delete when nothing is left, otherwise an update of the quantity.\<close>

definition send_adjustment ::
  "fmt \<Rightarrow> 'w send \<Rightarrow> string option \<Rightarrow> own_sell_order \<Rightarrow> i64 \<Rightarrow> 'w \<Rightarrow> (string, bool) result \<times> 'w" where
  "send_adjustment fm send client_error ord new_qty w =
     (if new_qty = 0
      then (let (r, w) = delete_order fm send client_error (os_id ord) w
            in (case r of Err e \<Rightarrow> Err e | Ok _ \<Rightarrow> Ok True, w))
      else (let (r, w) = update_order fm send client_error (os_id ord)
                  \<lparr> up_platinum = None, up_quantity = Some (word_of_int new_qty), up_visible = None, up_rank = None \<rparr> w
            in (case r of Err e \<Rightarrow> Err e | Ok a \<Rightarrow> Ok (mutation_accepted (po_status a)), w)))"

record adjusting =
  aj_adjusted :: "(ustr \<times> i64) list"
  aj_follow_up :: "ustr list"

definition adjusted_name :: "(ustr \<Rightarrow> ustr) \<Rightarrow> (ustr, string) btree \<Rightarrow> trade_event \<Rightarrow> own_sell_order \<Rightarrow> ustr" where
  "adjusted_name lower names trade ord =
     (case find (\<lambda>i. map_of names (lower (fst (split_rank (ti_name i)))) = Some (os_slug ord)) (te_items trade) of
        Some i \<Rightarrow> ti_name i | None \<Rightarrow> chars_of (os_slug ord))"

definition adjust_one ::
  "fmt \<Rightarrow> 'w send \<Rightarrow> string option \<Rightarrow> (own_sell_order \<Rightarrow> ustr) \<Rightarrow> own_sell_order \<times> i64 \<Rightarrow> adjusting \<times> 'w \<Rightarrow> adjusting \<times> 'w" where
  "adjust_one fm send client_error name_of planned s =
     (let (ord, new_qty) = planned; (a, w) = s; (r, w) = send_adjustment fm send client_error ord new_qty w
      in (case r of
            Ok False \<Rightarrow> a\<lparr> aj_follow_up := aj_follow_up a
              @ [chars_of (os_slug ord) @ tx '': listing update was not confirmed; review My Orders.''] \<rparr>
          | Ok True \<Rightarrow> a\<lparr> aj_adjusted := aj_adjusted a @ [(name_of ord, new_qty)] \<rparr>
          | Err _ \<Rightarrow> a\<lparr> aj_follow_up := aj_follow_up a
              @ [chars_of (os_slug ord) @ tx '': listing update failed; review My Orders.''] \<rparr>, w))"

definition adjust_listings ::
  "(ustr \<Rightarrow> ustr) \<Rightarrow> fmt \<Rightarrow> 'w send \<Rightarrow> string option \<Rightarrow> ('w \<Rightarrow> (string, json) result \<times> 'w) \<Rightarrow> unlocked \<Rightarrow> trade_event
   \<Rightarrow> 'w \<Rightarrow> adjusting \<times> 'w" where
  "adjust_listings lower fm send client_error read_rows u trade w =
     (let (rows, w) = read_rows w
      in case rows of
           Err _ \<Rightarrow> (\<lparr> aj_adjusted = [], aj_follow_up = [tx ''Could not check sell orders. Review My Orders.''] \<rparr>, w)
         | Ok body \<Rightarrow>
             let orders = own_sell_orders fm u body; names = name_to_slug lower u; tiers = tiered_slugs u
             in fold (adjust_one fm send client_error (adjusted_name lower names trade))
                  (plan_adjustments lower trade names orders tiers)
                  (\<lparr> aj_adjusted = [], aj_follow_up = adjustment_follow_up lower trade names orders tiers \<rparr>, w))"

definition adjustment_for ::
  "(ustr \<Rightarrow> ustr) \<Rightarrow> fmt \<Rightarrow> 'w send \<Rightarrow> string option \<Rightarrow> ('w \<Rightarrow> (string, json) result \<times> 'w) \<Rightarrow> string option
   \<Rightarrow> (string, unlocked) result \<Rightarrow> trade_event \<Rightarrow> 'w \<Rightarrow> adjusting \<times> 'w" where
  "adjustment_for lower fm send client_error read_rows setting claim trade w =
     (let auto_close_on = is_none_or setting (\<lambda>v. v \<noteq> ''off'')
      in if te_kind trade \<noteq> tx ''sale'' then (\<lparr> aj_adjusted = [], aj_follow_up = [] \<rparr>, w)
         else if \<not> auto_close_on
         then (\<lparr> aj_adjusted = [], aj_follow_up = [tx ''Automatic listing adjustment is off. Review your sell orders.''] \<rparr>, w)
         else case claim of
           Err code \<Rightarrow> (\<lparr> aj_adjusted = [], aj_follow_up = [unavailable_adjustment_follow_up code] \<rparr>, w)
         | Ok u \<Rightarrow> adjust_listings lower fm send client_error read_rows u trade w)"

text \<open>What the user is told.\<close>

record trade_notice =
  tn_title :: ustr
  tn_body :: ustr
  tn_target :: string

definition notice_of :: "trade_event \<Rightarrow> adjusting \<Rightarrow> trade_notice" where
  "notice_of trade a =
     (let what = map (\<lambda>i. if 1 < ti_qty i then ti_name i @ [32, 215] @ show_i64 (ti_qty i) else ti_name i)
            (filter (\<lambda>i. ti_direction i = (if te_kind trade = tx ''purchase'' then tx ''received'' else tx ''given''))
              (te_items trade));
          n = length (aj_adjusted a)
      in \<lparr> tn_title = (if te_kind trade = tx ''sale'' then tx ''Sold for '' @ show_i64 (te_plat trade) @ tx ''p''
                       else if te_kind trade = tx ''purchase'' then tx ''Bought for '' @ show_i64 (te_plat trade) @ tx ''p''
                       else tx ''Trade completed''),
           tn_body = join_with (tx '', '') what @ tx '' - with '' @ te_partner trade
             @ (if n = 0 then [] else [32, 183, 32] @ tx (show_nat n) @ tx '' WFM listing''
                  @ (if n = 1 then [] else tx ''s'') @ tx '' updated'')
             @ (if aj_follow_up a = [] then [] else [32, 183, 32] @ join_with (tx '' '') (aj_follow_up a)),
           tn_target = (if aj_follow_up a = [] then ''ledger'' else ''orders'') \<rparr>)"

record handled =
  hd_outcome :: ledger_outcome
  hd_adjusted :: "(ustr \<times> i64) list"
  hd_closed :: "i64 option"
  hd_notice :: "trade_notice option"

definition handle_trade ::
  "(ustr \<Rightarrow> ustr) \<Rightarrow> fmt \<Rightarrow> 'w send \<Rightarrow> string option \<Rightarrow> ('w \<Rightarrow> (string, json) result \<times> 'w) \<Rightarrow> string option
   \<Rightarrow> (string, unlocked) result \<Rightarrow> (string, i64 option) result \<Rightarrow> trade_event \<Rightarrow> 'w \<Rightarrow> handled \<times> 'w" where
  "handle_trade lower fm send client_error read_rows setting claim inserted trade w =
     (case inserted of
        Err e \<Rightarrow> (\<lparr> hd_outcome = Failed e, hd_adjusted = [], hd_closed = None, hd_notice = None \<rparr>, w)
      | Ok None \<Rightarrow> (\<lparr> hd_outcome = AlreadyKnown, hd_adjusted = [], hd_closed = None, hd_notice = None \<rparr>, w)
      | Ok (Some row) \<Rightarrow>
          let (a, w) = adjustment_for lower fm send client_error read_rows setting claim trade w
          in (\<lparr> hd_outcome = Recorded, hd_adjusted = aj_adjusted a,
                hd_closed = (if aj_adjusted a \<noteq> [] then Some row else None),
                hd_notice = Some (notice_of trade a) \<rparr>, w))"

section \<open>The maps the adjustments are read from\<close>

lemma sold_by_identity_fold: "sold_by_identity sold = bt.fold_entries fst (\<lambda>x v. i64_wrap (unwrap_or v 0 + snd x)) sold []"
  by (simp add: sold_by_identity_def bt.fold_entries_def case_prod_beta')

lemma unique_orders_fold:
  "unique_orders orders = bt.fold_entries identity_of (\<lambda>ord v. case v of None \<Rightarrow> Some ord | Some _ \<Rightarrow> None) orders []"
  by (simp add: unique_orders_def bt.fold_entries_def)

definition with_identity :: "identity \<Rightarrow> own_sell_order list \<Rightarrow> own_sell_order list" where
  "with_identity ident orders = filter (\<lambda>ord. identity_of ord = ident) orders"

text \<open>What was sold of an identity: the quantities of its lines, added up in \<open>i64\<close>.\<close>

definition sold_of :: "identity \<Rightarrow> (identity \<times> i64) list \<Rightarrow> i64" where
  "sold_of ident sold = foldl (\<lambda>n x. i64_wrap (n + snd x)) 0 (filter (\<lambda>x. fst x = ident) sold)"

lemma lookup_unique_orders:
  "map_of (unique_orders orders) ident =
     (case with_identity ident orders of [] \<Rightarrow> None | [ord] \<Rightarrow> Some (Some ord) | _ \<Rightarrow> Some None)"
proof -
  let ?f = "\<lambda>ord v. Some (case v of None \<Rightarrow> Some ord | Some _ \<Rightarrow> None)"
  have clash: "fold ?f os (Some v) = Some None" if "os \<noteq> [] \<or> v = None" for os :: "own_sell_order list" and v
    using that by (induction os arbitrary: v) auto
  show ?thesis
  proof (cases "with_identity ident orders")
    case Nil
    then show ?thesis by (simp add: unique_orders_fold bt.lookup_fold_entries with_identity_def)
  next
    case (Cons ord rest)
    then have "map_of (unique_orders orders) ident = fold ?f rest (Some (Some ord))"
      by (simp add: unique_orders_fold bt.lookup_fold_entries with_identity_def)
    with Cons show ?thesis using clash by (cases rest) auto
  qed
qed

lemma lookup_sold:
  "map_of (sold_by_identity sold) ident =
     (if ident \<in> fst ` set sold then Some (sold_of ident sold) else None)"
proof -
  let ?f = "\<lambda>x v. Some (i64_wrap (unwrap_or v 0 + snd x))"
  have run: "fold ?f xs (Some n) = Some (foldl (\<lambda>n x. i64_wrap (n + snd x)) n xs)" for xs :: "(identity \<times> i64) list" and n
    by (induction xs arbitrary: n) auto
  have look: "map_of (sold_by_identity sold) ident = fold ?f (filter (\<lambda>x. fst x = ident) sold) None"
    by (simp add: sold_by_identity_fold bt.lookup_fold_entries)
  show ?thesis
  proof (cases "filter (\<lambda>x. fst x = ident) sold")
    case Nil
    then have "ident \<notin> fst ` set sold" by (force simp: filter_empty_conv)
    then show ?thesis using look Nil by simp
  next
    case (Cons x xs)
    then have "x \<in> set (filter (\<lambda>x. fst x = ident) sold)" by simp
    then have "ident \<in> fst ` set sold" by force
    then show ?thesis using look Cons run by (simp add: sold_of_def)
  qed
qed

lemma sold_entries: "(ident, n) \<in> set (sold_by_identity sold) \<longleftrightarrow> ident \<in> fst ` set sold \<and> n = sold_of ident sold"
proof -
  have "bt_ok (sold_by_identity sold)" by (simp add: sold_by_identity_fold)
  then have "(ident, n) \<in> set (sold_by_identity sold) \<longleftrightarrow> map_of (sold_by_identity sold) ident = Some n"
    by (simp add: distinct_keys_bt)
  then show ?thesis by (auto simp: lookup_sold)
qed

lemma set_map_filter: "y \<in> set (List.map_filter f xs) \<longleftrightarrow> (\<exists>x\<in>set xs. f x = Some y)"
  by (induction xs) (auto simp: map_filter_simps split: option.splits)

lemma plan_adjustments_iff:
  "(ord, new_qty) \<in> set (plan_adjustments lower trade names orders tiers) \<longleftrightarrow>
     te_kind trade = tx ''sale''
     \<and> (\<exists>ident. ident \<in> fst ` set (sold_items lower names tiers (te_items trade))
          \<and> with_identity ident orders = [ord]
          \<and> new_qty = max (i64_wrap (os_quantity ord - sold_of ident (sold_items lower names tiers (te_items trade)))) 0)"
proof (cases "te_kind trade = tx ''sale''")
  case True
  let ?sold = "sold_items lower names tiers (te_items trade)"
  have "(ord, new_qty) \<in> set (plan_adjustments lower trade names orders tiers) \<longleftrightarrow>
      (\<exists>ident n. (ident, n) \<in> set (sold_by_identity ?sold) \<and> map_of (unique_orders orders) ident = Some (Some ord)
         \<and> new_qty = max (i64_wrap (os_quantity ord - n)) 0)"
    using True by (force simp: plan_adjustments_def set_map_filter split: option.splits)
  moreover have "map_of (unique_orders orders) ident = Some (Some ord) \<longleftrightarrow> with_identity ident orders = [ord]" for ident
    by (auto simp: lookup_unique_orders split: list.splits)
  ultimately show ?thesis using True by (auto simp: sold_entries)
qed (simp add: plan_adjustments_def)

text \<open>
  The specification: the quantities given away of an item, in the lines of the trade. A line names the item by a name the catalogue
  knows; an item with ranks is told by the rank in its name, one with variants cannot be told.
\<close>

definition names_item ::
  "(ustr \<Rightarrow> ustr) \<Rightarrow> (ustr, string) btree \<Rightarrow> (string, tier) btree \<Rightarrow> string \<Rightarrow> u64 option \<Rightarrow> ustr \<Rightarrow> bool" where
  "names_item lower names tiers slug rank name \<longleftrightarrow>
     (\<exists>base tag. split_rank name = (base, tag) \<and> map_of names (lower base) = Some slug
        \<and> (map_of tiers slug = None \<and> rank = None \<or> map_of tiers slug = Some Ranked \<and> tag \<noteq> None \<and> rank = tag))"

definition given_away ::
  "(ustr \<Rightarrow> ustr) \<Rightarrow> (ustr, string) btree \<Rightarrow> (string, tier) btree \<Rightarrow> trade_event \<Rightarrow> string \<Rightarrow> u64 option \<Rightarrow> i64 list" where
  "given_away lower names tiers trade slug rank =
     map ti_qty (filter (\<lambda>i. ti_direction i = tx ''given'' \<and> names_item lower names tiers slug rank (ti_name i)) (te_items trade))"

lemma sold_identity_iff: "sold_identity lower names tiers name = Ok (slug, rank) \<longleftrightarrow> names_item lower names tiers slug rank name"
  by (cases "split_rank name")
    (auto simp: sold_identity_def names_item_def rbind_Ok_iff ok_or_def split: option.splits tier.splits)

lemma given_away_sold:
  "map snd (filter (\<lambda>x. fst x = (slug, rank)) (sold_items lower names tiers (te_items trade))) = given_away lower names tiers trade slug rank"
proof -
  have "map snd (filter (\<lambda>x. fst x = (slug, rank)) (sold_items lower names tiers is)) =
      map ti_qty (filter (\<lambda>i. ti_direction i = tx ''given'' \<and> names_item lower names tiers slug rank (ti_name i)) is)" for "is"
    by (induction "is")
      (auto simp: sold_items_def map_filter_simps simp flip: sold_identity_iff split: sum.splits)
  then show ?thesis by (simp add: given_away_def)
qed

lemma i64_wrap_sum: "foldl (\<lambda>n x. i64_wrap (n + snd x)) (i64_wrap n) xs = i64_wrap (n + sum_list (map snd xs))"
proof (induction xs arbitrary: n)
  case (Cons x xs)
  have "i64_wrap (i64_wrap n + snd x) = i64_wrap (n + snd x)"
    unfolding i64_wrap_def by (simp add: mod_simps algebra_simps)
  then show ?case using Cons [of "n + snd x"] by (simp add: algebra_simps)
qed simp

lemma sold_of_given:
  "i64_wrap (q - sold_of (slug, rank) (sold_items lower names tiers (te_items trade)))
     = i64_wrap (q - sum_list (given_away lower names tiers trade slug rank))"
proof -
  have "sold_of (slug, rank) (sold_items lower names tiers (te_items trade)) = i64_wrap (sum_list (given_away lower names tiers trade slug rank))"
    using i64_wrap_sum [of 0] by (simp add: sold_of_def i64_range_def flip: given_away_sold)
  moreover have "i64_wrap (q - i64_wrap n) = i64_wrap (q - n)" for n
    unfolding i64_wrap_def by (simp add: mod_simps algebra_simps)
  ultimately show ?thesis by simp
qed

lemma adjusted_iff:
  "(ord, new_qty) \<in> set (plan_adjustments lower trade names orders tiers) \<longleftrightarrow>
     te_kind trade = tx ''sale''
     \<and> (\<exists>slug rank. given_away lower names tiers trade slug rank \<noteq> []
          \<and> filter (\<lambda>o'. os_slug o' = slug \<and> os_rank o' = rank) orders = [ord]
          \<and> new_qty = max (i64_wrap (os_quantity ord - sum_list (given_away lower names tiers trade slug rank))) 0)"
proof -
  have "(slug, rank) \<in> fst ` set (sold_items lower names tiers (te_items trade))
      \<longleftrightarrow> given_away lower names tiers trade slug rank \<noteq> []" for slug rank
    unfolding given_away_sold [symmetric] by (force simp: filter_empty_conv)
  moreover have "with_identity (slug, rank) orders = filter (\<lambda>o'. os_slug o' = slug \<and> os_rank o' = rank) orders" for slug rank
    by (simp add: with_identity_def identity_of_def)
  ultimately show ?thesis unfolding plan_adjustments_iff split_paired_Ex by (simp only: sold_of_given)
qed

lemma given_away_bounds:
  assumes "\<forall>i\<in>set (te_items trade). ti_direction i = tx ''given'' \<longrightarrow> 0 \<le> ti_qty i"
  shows "0 \<le> sum_list (given_away lower names tiers trade slug rank)
    \<and> sum_list (given_away lower names tiers trade slug rank)
      \<le> sum_list (map ti_qty (filter (\<lambda>i. ti_direction i = tx ''given'') (te_items trade)))"
proof -
  have "0 \<le> sum_list (map ti_qty (filter (\<lambda>i. ti_direction i = tx ''given'' \<and> P i) is))
      \<and> sum_list (map ti_qty (filter (\<lambda>i. ti_direction i = tx ''given'' \<and> P i) is))
        \<le> sum_list (map ti_qty (filter (\<lambda>i. ti_direction i = tx ''given'') is))"
    if "\<forall>i\<in>set is. ti_direction i = tx ''given'' \<longrightarrow> 0 \<le> ti_qty i" for "is" P
    using that by (induction "is") auto
  from this [OF assms] show ?thesis by (simp add: given_away_def)
qed

text \<open>C39: A sale adjusts exactly the sell orders it should: an order is given a new quantity if and only if the
  trade is a sale, some line of it gives away the item of the order's slug and rank (a received item never counts), no other
  order of the account has them, and the new quantity is the old one less the sum of all that the trade gives away of the item,
  in \<open>i64\<close>, not below zero. As long as no line gives a negative quantity and they add up within \<open>i64\<close>, the listing is
  never raised (a negative one raises it, see \<open>negative_stack_raises_listing\<close>).\<close>

theorem plan_adjustments_exact:
  "((ord, new_qty) \<in> set (plan_adjustments lower trade names orders tiers) \<longleftrightarrow>
     te_kind trade = tx ''sale''
     \<and> (\<exists>slug rank. given_away lower names tiers trade slug rank \<noteq> []
          \<and> filter (\<lambda>o'. os_slug o' = slug \<and> os_rank o' = rank) orders = [ord]
          \<and> new_qty = max (i64_wrap (os_quantity ord - sum_list (given_away lower names tiers trade slug rank))) 0))
   \<and> ((ord, new_qty) \<in> set (plan_adjustments lower trade names orders tiers)
       \<and> (\<forall>i\<in>set (te_items trade). ti_direction i = tx ''given'' \<longrightarrow> 0 \<le> ti_qty i)
       \<and> sum_list (map ti_qty (filter (\<lambda>i. ti_direction i = tx ''given'') (te_items trade))) < 2 ^ 63
       \<and> 0 \<le> os_quantity ord \<and> os_quantity ord < 2 ^ 63
       \<longrightarrow> 0 \<le> new_qty \<and> new_qty \<le> os_quantity ord)"
proof (intro conjI impI adjusted_iff; (elim conjE))
  assume p: "(ord, new_qty) \<in> set (plan_adjustments lower trade names orders tiers)"
    and pos: "\<forall>i\<in>set (te_items trade). ti_direction i = tx ''given'' \<longrightarrow> 0 \<le> ti_qty i"
    and small: "sum_list (map ti_qty (filter (\<lambda>i. ti_direction i = tx ''given'') (te_items trade))) < 2 ^ 63"
    and q: "0 \<le> os_quantity ord" "os_quantity ord < 2 ^ 63"
  obtain slug rank where n: "new_qty = max (i64_wrap (os_quantity ord - sum_list (given_away lower names tiers trade slug rank))) 0"
    using p unfolding adjusted_iff by blast
  have sum: "0 \<le> sum_list (given_away lower names tiers trade slug rank)"
    "sum_list (given_away lower names tiers trade slug rank) < 2 ^ 63"
    using given_away_bounds [OF pos, of lower names tiers slug rank] small by linarith+
  then have "i64_range (os_quantity ord - sum_list (given_away lower names tiers trade slug rank))"
    unfolding i64_range_def using q by linarith
  then have "0 \<le> new_qty \<and> new_qty \<le> os_quantity ord" using n q sum(1) by simp
  then show "0 \<le> new_qty" "new_qty \<le> os_quantity ord" by simp_all
qed

lemma with_identity_singleton: "with_identity ident orders = [ord] \<Longrightarrow> identity_of ord = ident"
proof -
  assume "with_identity ident orders = [ord]"
  then have "ord \<in> set (with_identity ident orders)" by simp
  then show ?thesis by (simp add: with_identity_def)
qed

lemma plan_adjustments_distinct:
  "distinct (map (identity_of \<circ> fst) (plan_adjustments lower trade names orders tiers))"
proof -
  define sold where "sold = sold_by_identity (sold_items lower names tiers (te_items trade))"
  let ?f = "\<lambda>(ident, n). case map_of (unique_orders orders) ident of
      Some (Some ord) \<Rightarrow> Some (ord, max (i64_wrap (os_quantity ord - n)) 0) | _ \<Rightarrow> None"
  have id: "identity_of (fst y) = fst x" if "?f x = Some y" for x y
    using that by (auto simp: lookup_unique_orders split: option.splits list.splits prod.splits dest: with_identity_singleton)
  have sub: "set (map (identity_of \<circ> fst) (List.map_filter ?f xs)) \<subseteq> set (map fst xs)" for xs
    using id by (force simp: set_map_filter)
  have "distinct (map fst sold)"
    unfolding sold_def by (intro distinct_keys_bt) (simp add: sold_by_identity_fold)
  then have "distinct (map (identity_of \<circ> fst) (List.map_filter ?f sold))"
  proof (induction sold)
    case (Cons x xs)
    show ?case
    proof (cases "?f x")
      case None
      with Cons show ?thesis by (simp add: map_filter_simps)
    next
      case (Some y)
      have "identity_of (fst y) \<notin> set (map (identity_of \<circ> fst) (List.map_filter ?f xs))"
        using id [OF Some] sub [of xs] Cons.prems by auto
      with Cons Some show ?thesis by (simp add: map_filter_simps)
    qed
  qed (simp add: map_filter_simps)
  then show ?thesis by (simp add: plan_adjustments_def sold_def)
qed

section \<open>Every item is adjusted or reported\<close>

definition reported :: "trade_item \<Rightarrow> ustr list \<Rightarrow> bool" where
  "reported i follow_up \<longleftrightarrow> list_ex (\<lambda>l. take (length (ti_name i @ tx '': '')) l = ti_name i @ tx '': '') follow_up"

text \<open>
  An item given away in a sale is reported for review; or it is the one that no sell order names; or one sell
  order names it and that order is adjusted.
\<close>

definition settled ::
  "(ustr \<Rightarrow> ustr) \<Rightarrow> trade_event \<Rightarrow> (ustr, string) btree \<Rightarrow> own_sell_order list \<Rightarrow> (string, tier) btree \<Rightarrow> trade_item \<Rightarrow> bool" where
  "settled lower trade names orders tiers i \<longleftrightarrow>
     (case sold_identity lower names tiers (ti_name i) of
        Err _ \<Rightarrow> reported i (adjustment_follow_up lower trade names orders tiers)
      | Ok ident \<Rightarrow>
          (case with_identity ident orders of
             [] \<Rightarrow> True
           | [ord] \<Rightarrow> list_ex (\<lambda>(o', _). o' = ord) (plan_adjustments lower trade names orders tiers)
           | _ \<Rightarrow> reported i (adjustment_follow_up lower trade names orders tiers)))"

lemma follow_up_reported:
  assumes "i \<in> set (te_items trade)" and "ti_direction i = tx ''given''"
    and "follow_up_reason lower names orders tiers i = Some reason"
  shows "reported i (adjustment_follow_up lower trade names orders tiers)"
proof -
  have "follow_up_line i reason \<in> set (adjustment_follow_up lower trade names orders tiers)"
    using assms by (force simp: adjustment_follow_up_def set_map_filter)
  moreover have "take (length (ti_name i @ tx '': '')) (follow_up_line i reason) = ti_name i @ tx '': ''"
    by (simp add: follow_up_line_def)
  ultimately show ?thesis by (auto simp: reported_def list_ex_iff)
qed

lemma sold_itemsI:
  "i \<in> set items \<Longrightarrow> ti_direction i = tx ''given'' \<Longrightarrow> sold_identity lower names tiers (ti_name i) = Ok ident
     \<Longrightarrow> ident \<in> fst ` set (sold_items lower names tiers items)"
  by (force simp: sold_items_def set_map_filter)

text \<open>No item of a sale is silently skipped: for each item given away, the item is reported for review when
  its identity cannot be told or several orders have it, and the order is adjusted when exactly one has it.\<close>

lemma sold_items_settled:
  assumes "te_kind trade = tx ''sale''"
  shows "list_all (settled lower trade names orders tiers) (filter (\<lambda>i. ti_direction i = tx ''given'') (te_items trade))"
proof -
  have "settled lower trade names orders tiers i" if i: "i \<in> set (te_items trade)" "ti_direction i = tx ''given''" for i
  proof (cases "sold_identity lower names tiers (ti_name i)")
    case (Inl reason)
    then have "follow_up_reason lower names orders tiers i = Some reason" by (simp add: follow_up_reason_def)
    from follow_up_reported [OF i this] Inl show ?thesis by (simp add: settled_def)
  next
    case (Inr ident)
    show ?thesis
    proof (cases "with_identity ident orders")
      case Nil
      with Inr show ?thesis by (simp add: settled_def)
    next
      case (Cons ord rest)
      show ?thesis
      proof (cases rest)
        case Nil
        then have "\<exists>q. (ord, q) \<in> set (plan_adjustments lower trade names orders tiers)"
          using plan_adjustments_iff [of ord] assms Cons sold_itemsI [OF i Inr] by blast
        with Inr Cons Nil show ?thesis by (force simp: settled_def list_ex_iff)
      next
        case (Cons o2 more)
        with \<open>with_identity ident orders = ord # rest\<close> Inr
        have "follow_up_reason lower names orders tiers i = Some ''multiple matching sell orders''"
          by (simp add: follow_up_reason_def with_identity_def)
        from follow_up_reported [OF i this] show ?thesis
          using Inr \<open>with_identity ident orders = ord # rest\<close> Cons by (simp add: settled_def)
      qed
    qed
  qed
  then show ?thesis by (simp add: list_all_iff)
qed

section \<open>What is sent\<close>

text \<open>A world that records the requests sent through it.\<close>

definition logged :: "'w send \<Rightarrow> ('w \<times> mutation list) send" where
  "logged send m w = (let (r, w') = send m (fst w) in (r, (w', snd w @ [m])))"

definition request_of :: "own_sell_order \<times> i64 \<Rightarrow> mutation" where
  "request_of planned =
     (let (ord, q) = planned
      in if q = 0 then DeleteOrder (os_id ord)
         else PatchOrder (os_id ord) (JObj [(''quantity'', JPosInt (ucast (word_of_int q :: u32)))]))"

lemma send_adjustment_logs:
  "snd (snd (send_adjustment fm (logged send) None ord q w)) = snd w @ [request_of (ord, q)]"
  by (simp add: send_adjustment_def delete_order_def update_order_def update_body_def patch_one_order_def
      request_of_def logged_def Let_def case_prod_beta)

lemma adjust_all_logs:
  "snd (snd (fold (adjust_one fm (logged send) None name_of) ps (a, w))) = snd w @ map request_of ps"
proof (induction ps arbitrary: a w)
  case (Cons p ps)
  obtain ord q where p: "p = (ord, q)" by (cases p)
  obtain a' w' where s: "adjust_one fm (logged send) None name_of p (a, w) = (a', w')"
    by (cases "adjust_one fm (logged send) None name_of p (a, w)")
  then have "snd w' = snd w @ [request_of p]"
    using send_adjustment_logs [of fm send ord q w] by (auto simp: adjust_one_def p Let_def split: prod.splits)
  then show ?case using s Cons [of a' w'] by simp
qed simp

text \<open>What a trade should change at the market: nothing, or what its plan says.\<close>

definition expected_requests ::
  "(ustr \<Rightarrow> ustr) \<Rightarrow> fmt \<Rightarrow> (string, json) result \<Rightarrow> string option \<Rightarrow> (string, unlocked) result
   \<Rightarrow> (string, i64 option) result \<Rightarrow> trade_event \<Rightarrow> mutation list" where
  "expected_requests lower fm rows setting claim inserted trade =
     (case (inserted, claim, rows) of
        (Ok (Some _), Ok u, Ok body) \<Rightarrow>
          if is_none_or setting (\<lambda>v. v \<noteq> ''off'')
          then map request_of (plan_adjustments lower trade (name_to_slug lower u) (own_sell_orders fm u body) (tiered_slugs u))
          else []
      | _ \<Rightarrow> [])"

text \<open>A trade changes the market as planned and no further: the requests sent are those of the adjustment
  plan, in its order, one for each; and none are sent for a trade already recorded or not recorded, with the
  setting off, without the account, or when the orders cannot be read.\<close>

lemma trade_sends_its_plan:
  "snd (snd (handle_trade lower fm (logged send) None (\<lambda>(v, ms). (fst (read v), (snd (read v), ms))) setting claim inserted trade (w, [])))
   = expected_requests lower fm (fst (read w)) setting claim inserted trade"
proof -
  have "snd (snd (adjust_listings lower fm (logged send) None (\<lambda>(v, ms). (fst (read v), (snd (read v), ms))) u trade (w, [])))
      = (case fst (read w) of Err _ \<Rightarrow> []
         | Ok body \<Rightarrow> map request_of (plan_adjustments lower trade (name_to_slug lower u) (own_sell_orders fm u body) (tiered_slugs u)))" for u
    by (simp add: adjust_listings_def Let_def adjust_all_logs split: sum.split)
  moreover have "plan_adjustments lower trade names orders tiers = []" if "te_kind trade \<noteq> tx ''sale''" for names orders tiers
    using that by (simp add: plan_adjustments_def)
  ultimately show ?thesis
    by (cases inserted; cases claim; cases "fst (read w)")
      (auto simp: handle_trade_def expected_requests_def adjustment_for_def Let_def case_prod_beta split: option.split sum.split)
qed

section \<open>Confirmations\<close>

lemma mutation_accepted_ok: "mutation_accepted st \<longleftrightarrow> st = STATUS_OK"
  by (simp add: mutation_accepted_def STATUS_OK_def)

text \<open>An adjustment is reported as made only on confirmation: exactly when the market answered its one request
  with a success.\<close>

lemma adjusted_is_confirmed:
  "fst (send_adjustment fm send client_error ord q w) = Ok True \<longleftrightarrow>
     client_error = None \<and> (\<exists>r. fst (send (request_of (ord, q)) w) = Ok r \<and> is_success (rp_status r))"
  by (cases client_error; cases "send (request_of (ord, q)) w"; cases "fst (send (request_of (ord, q)) w)")
    (auto simp: send_adjustment_def delete_order_def update_order_def update_body_def patch_one_order_def
      request_of_def mutation_accepted_ok Let_def split: if_splits)


text \<open>
  The module's note says that an adjustment only decreases a listing. The dialog's parser accepts a negative
  stack, and subtracting it raises the quantity.
\<close>

definition demo_names :: "(ustr, string) btree" where
  "demo_names = [(tx ''Flow'', ''flow'')]"

definition demo_order :: own_sell_order where
  "demo_order = \<lparr> os_id = ''a'', os_slug = ''flow'', os_rank = None, os_quantity = 5 \<rparr>"

definition demo_sale :: "i64 \<Rightarrow> trade_event" where
  "demo_sale n = \<lparr> te_partner = [], te_kind = tx ''sale'', te_plat = 10,
     te_items = [\<lparr> ti_name = tx ''Flow'', ti_qty = n, ti_direction = tx ''given'' \<rparr>], te_log_stamp = None \<rparr>"

lemma demo_identity: "sold_identity id demo_names [] (tx ''Flow'') = Ok (''flow'', None)"
  by code_simp

lemma negative_stack_raises_listing:
  "item_line (tx ''Flow x -3'') = (tx ''Flow'', - 3)
   \<and> plan_adjustments id (demo_sale (- 3)) demo_names [demo_order] [] = [(demo_order, 8)]"
proof -
  have "item_line (tx ''Flow x -3'') = (tx ''Flow'', - 3)" by code_simp
  moreover have "plan_adjustments id (demo_sale (- 3)) demo_names [demo_order] [] = [(demo_order, 8)]"
    by (simp add: plan_adjustments_def demo_sale_def sold_items_def demo_identity map_filter_simps sold_by_identity_def
        unique_orders_def identity_of_def demo_order_def i64_wrap_def)
  ultimately show ?thesis ..
qed

theorem plan_adjustments_exact_witness:
  "plan_adjustments id (demo_sale 2) demo_names [demo_order] [] = [(demo_order, 3)]
   \<and> given_away id demo_names [] (demo_sale 2) ''flow'' None = [2] \<and> (3 :: i64) \<le> os_quantity demo_order"
proof -
  have "plan_adjustments id (demo_sale 2) demo_names [demo_order] [] = [(demo_order, 3)]"
    by (simp add: plan_adjustments_def demo_sale_def sold_items_def demo_identity map_filter_simps sold_by_identity_def
        unique_orders_def identity_of_def demo_order_def i64_wrap_def)
  moreover have "given_away id demo_names [] (demo_sale 2) ''flow'' None = [2]"
    using demo_identity by (simp add: given_away_def demo_sale_def sold_identity_iff)
  ultimately show ?thesis
    using plan_adjustments_exact [of demo_order 3 id "demo_sale 2" demo_names "[demo_order]" "[]"]
    by (simp add: demo_sale_def demo_order_def)
qed

lemma sold_items_settled_witness:
  "list_all (settled id (demo_sale 2) demo_names [demo_order] []) (te_items (demo_sale 2))"
  using sold_items_settled [of "demo_sale 2" id demo_names "[demo_order]" "[]"] by (simp add: demo_sale_def)

end
