(* ===== verification/Trade_Pipeline.thy ===== *)
theory Trade_Pipeline
  imports Recording Ledger Auto_Close
begin

text \<open>
  The tailer, the ledger and the adjustment of sold listings together, as \<open>start_tailer\<close>
  (\<open>services/trading/trades.rs\<close>) joins them: the tailer's \<open>on_trade\<close> is \<open>handle_trade\<close> over the store's
  \<open>insert_trade\<close>. Each call finds its own faults, clock, setting and claim of the account in \<open>pl_env\<close>.
\<close>

record 'm pipeline =
  pl_db :: ledger
  pl_env :: "(faults \<times> i64 \<times> string option \<times> (string, unlocked) result) list"
  pl_market :: 'm
  pl_outputs :: "handled list"

definition acknowledged :: "ledger_outcome \<Rightarrow> bool" where
  "acknowledged out = (case out of Failed _ \<Rightarrow> False | _ \<Rightarrow> True)"

definition closed_in :: "faults \<Rightarrow> i64 option \<Rightarrow> ledger \<Rightarrow> ledger" where
  "closed_in faults closed db = (case closed of Some ident \<Rightarrow> snd (mark_trade_wfm_closed faults ident db) | None \<Rightarrow> db)"

definition pipeline_on_trade ::
  "(ustr \<Rightarrow> ustr) \<Rightarrow> fmt \<Rightarrow> 'm send \<Rightarrow> string option \<Rightarrow> ('m \<Rightarrow> (string, json) result \<times> 'm) \<Rightarrow> 'm pipeline on_trade" where
  "pipeline_on_trade lower fm send client_error read_rows s t p =
     (case pl_env s of
        [] \<Rightarrow> (False, s)
      | (faults, at, setting, claim) # env \<Rightarrow>
          let (inserted, db) = insert_trade faults t at p (pl_db s);
              (h, m) = handle_trade lower fm send client_error read_rows setting claim inserted t (pl_market s)
          in (acknowledged (hd_outcome h),
              \<lparr> pl_db = closed_in faults (hd_closed h) db, pl_env = env, pl_market = m, pl_outputs = pl_outputs s @ [h] \<rparr>))"

section \<open>What the ledger should hold\<close>

definition ledger_rows :: "ledger \<Rightarrow> (trade_event \<times> log_position) list" where
  "ledger_rows db = zip (map trade_of_row (lg_trades db)) (map le_position (lg_events db))"

definition ledger_keys :: "ledger \<Rightarrow> (string \<times> i64) set" where
  "ledger_keys db = event_key ` set (lg_events db)"

definition place_of :: "log_position \<Rightarrow> string \<times> i64" where
  "place_of p = (lp_session p, uint (lp_end p))"

text \<open>The trades of a list whose place in the log has not been seen, first occurrences only.\<close>

fun fresh_trades :: "(string \<times> i64) set \<Rightarrow> (trade_event \<times> log_position) list \<Rightarrow> (trade_event \<times> log_position) list" where
  "fresh_trades known [] = []"
| "fresh_trades known ((t, p) # xs) =
     (if place_of p \<in> known then fresh_trades known xs
      else (t, p) # fresh_trades (insert (place_of p) known) xs)"

definition places :: "(trade_event \<times> log_position) list \<Rightarrow> (string \<times> i64) set" where
  "places xs = (place_of \<circ> snd) ` set xs"

lemma fresh_snoc:
  "fresh_trades known (xs @ [(t, p)]) =
     fresh_trades known xs @ (if place_of p \<in> known \<union> places xs then [] else [(t, p)])"
proof (induction known xs rule: fresh_trades.induct)
  case (2 known t p xs)
  then show ?case by (auto simp: places_def)
qed (simp add: places_def)

lemma ledger_lengths: "ledger_ok db \<Longrightarrow> length (lg_trades db) = length (lg_events db)"
  by (metis ledger_ok_def length_map)

lemma closed_in_same:
  "ledger_rows (closed_in faults c db) = ledger_rows db" "ledger_keys (closed_in faults c db) = ledger_keys db"
  "ledger_ok (closed_in faults c db) = ledger_ok db"
  using ledger_ok_rows [OF close_rows(1,2,4)]
  by (simp_all add: closed_in_def ledger_rows_def ledger_keys_def close_rows split: option.split)

lemma handled_outcome:
  "hd_outcome (fst (handle_trade lower fm send client_error read_rows setting claim inserted t m)) =
     (case inserted of Err e \<Rightarrow> Failed e | Ok None \<Rightarrow> AlreadyKnown | Ok (Some _) \<Rightarrow> Recorded)"
  by (simp add: handle_trade_def case_prod_beta Let_def split: sum.split option.split)

text \<open>One call: refused and nothing stored, or acknowledged and stored if its place is new.\<close>

lemma pipeline_call:
  assumes ok: "ledger_ok (pl_db s)" and call: "pipeline_on_trade lower fm send client_error read_rows s t p = (ack, s')"
  shows "ledger_ok (pl_db s')
    \<and> ledger_rows (pl_db s') = ledger_rows (pl_db s) @ (if ack \<and> place_of p \<notin> ledger_keys (pl_db s) then [(t, p)] else [])
    \<and> ledger_keys (pl_db s') = (if ack then insert (place_of p) (ledger_keys (pl_db s)) else ledger_keys (pl_db s))
    \<and> length (filter (\<lambda>h. hd_outcome h = Recorded) (pl_outputs s')) = length (filter (\<lambda>h. hd_outcome h = Recorded) (pl_outputs s))
        + (if ack \<and> place_of p \<notin> ledger_keys (pl_db s) then 1 else 0)"
proof (cases "pl_env s")
  case Nil
  with call ok show ?thesis by (simp add: pipeline_on_trade_def)
next
  case (Cons x env)
  obtain faults at setting claim where x: "x = (faults, at, setting, claim)" by (cases x)
  obtain inserted db where ins: "insert_trade faults t at p (pl_db s) = (inserted, db)"
    by (cases "insert_trade faults t at p (pl_db s)")
  obtain h m where hd: "handle_trade lower fm send client_error read_rows setting claim inserted t (pl_market s) = (h, m)"
    by (cases "handle_trade lower fm send client_error read_rows setting claim inserted t (pl_market s)")
  have out: "hd_outcome h = (case inserted of Err e \<Rightarrow> Failed e | Ok None \<Rightarrow> AlreadyKnown | Ok (Some _) \<Rightarrow> Recorded)"
    using handled_outcome hd by (metis fst_conv)
  have s': "s' = \<lparr> pl_db = closed_in faults (hd_closed h) db, pl_env = env, pl_market = m, pl_outputs = pl_outputs s @ [h] \<rparr>"
    "ack = acknowledged (hd_outcome h)"
    using call by (simp_all add: pipeline_on_trade_def Cons x ins hd)
  have known: "recorded (lp_session p) n (pl_db s) \<longleftrightarrow> (lp_session p, n) \<in> ledger_keys (pl_db s)" for n
    by (force simp: recorded_def ledger_keys_def event_key_def)
  show ?thesis
  proof (rule insert_trade_outcome [of faults t at p "pl_db s"])
    fix e assume "insert_trade faults t at p (pl_db s) = (Err e, pl_db s)"
    then show ?thesis using ins out s' ok by (simp add: closed_in_same acknowledged_def)
  next
    fix n assume n: "bind_offset (lp_end p) = Ok n" "recorded (lp_session p) n (pl_db s)"
      and "insert_trade faults t at p (pl_db s) = (Ok None, pl_db s)"
    then have "place_of p \<in> ledger_keys (pl_db s)" using known by (simp add: place_of_def bind_offset_Ok)
    then show ?thesis
      using \<open>insert_trade faults t at p (pl_db s) = (Ok None, pl_db s)\<close> ins out s' ok
      by (simp add: closed_in_same acknowledged_def insert_absorb)
  next
    fix n assume n: "bind_offset (lp_end p) = Ok n" "\<not> recorded (lp_session p) n (pl_db s)" "kind_allowed (te_kind t)"
      and st: "insert_trade faults t at p (pl_db s) = (Ok (Some (max_id (pl_db s) + 1)),
         (pl_db s)\<lparr> lg_trades := lg_trades (pl_db s) @ [new_row t at (pl_db s)],
             lg_events := lg_events (pl_db s) @ [new_event p n (max_id (pl_db s) + 1)],
             lg_allowance := next_allowance p at (pl_db s) \<rparr>)"
    have pn: "place_of p = (lp_session p, n)" using n(1) by (simp add: place_of_def bind_offset_Ok)
    have "place_of p \<notin> ledger_keys (pl_db s)" using n(2) known pn by simp
    moreover have "ledger_ok db" using ledger_ok_stored [OF ok n] st ins by simp
    moreover have "ledger_rows db = ledger_rows (pl_db s) @ [(t, p)]"
      using st ins ledger_lengths [OF ok]
      by (auto simp: ledger_rows_def new_row_def new_event_def trade_of_row_def)
    moreover have "ledger_keys db = insert (place_of p) (ledger_keys (pl_db s))"
      using st ins pn by (auto simp: ledger_keys_def new_event_def event_key_def)
    ultimately show ?thesis using st ins out s' by (simp add: closed_in_same acknowledged_def)
  qed
qed

section \<open>Along a run\<close>

definition synced :: "ledger \<Rightarrow> nat \<Rightarrow> 'm pipeline tailer \<Rightarrow> bool" where
  "synced db0 n0 s \<longleftrightarrow>
     ledger_ok (pl_db (tl_ledger s))
     \<and> ledger_rows (pl_db (tl_ledger s)) = ledger_rows db0 @ fresh_trades (ledger_keys db0) (accepted (tl_calls s))
     \<and> ledger_keys (pl_db (tl_ledger s)) = ledger_keys db0 \<union> places (accepted (tl_calls s))
     \<and> length (filter (\<lambda>h. hd_outcome h = Recorded) (pl_outputs (tl_ledger s)))
         = n0 + length (fresh_trades (ledger_keys db0) (accepted (tl_calls s)))"

lemma synced_offer:
  assumes "synced db0 n0 s"
  shows "synced db0 n0 (snd (offer (pipeline_on_trade lower fm send client_error read_rows) t p s))"
proof -
  obtain ack w where c: "pipeline_on_trade lower fm send client_error read_rows (tl_ledger s) t p = (ack, w)"
    by (cases "pipeline_on_trade lower fm send client_error read_rows (tl_ledger s) t p")
  have ok: "ledger_ok (pl_db (tl_ledger s))" using assms by (simp add: synced_def)
  have keys: "ledger_keys (pl_db (tl_ledger s)) = ledger_keys db0 \<union> places (accepted (tl_calls s))"
    using assms by (simp add: synced_def)
  note pc = pipeline_call [OF ok c]
  show ?thesis
  proof (cases ack)
    case True
    have "places (accepted (tl_calls s) @ [(t, p)]) = insert (place_of p) (places (accepted (tl_calls s)))"
      by (simp add: places_def)
    with True show ?thesis
      using pc assms keys unfolding synced_def
      by (auto simp: offer_def c call_def fresh_snoc)
  next
    case False
    with pc assms show ?thesis by (simp add: synced_def offer_def c call_def)
  qed
qed

lemma synced_frame:
  "tl_ledger r = tl_ledger s \<Longrightarrow> accepted (tl_calls r) = accepted (tl_calls s) \<Longrightarrow> synced db0 n0 s \<Longrightarrow> synced db0 n0 r"
  by (simp add: synced_def)

lemma synced_retry:
  "synced db0 n0 s \<Longrightarrow> synced db0 n0 (retry_held (pipeline_on_trade lower fm send client_error read_rows) hs s)"
proof (induction hs arbitrary: s)
  case Nil
  then show ?case by (auto intro: synced_frame)
next
  case (Cons h hs)
  obtain t p where h: "h = (t, p)" by (cases h)
  obtain ok s' where o: "offer (pipeline_on_trade lower fm send client_error read_rows) t p s = (ok, s')"
    by (cases "offer (pipeline_on_trade lower fm send client_error read_rows) t p s")
  have w: "synced db0 n0 s'"
    using synced_offer [OF Cons.prems, of lower fm send client_error read_rows t p] o by simp
  show ?case using Cons.IH [OF w] w by (auto simp: h o intro: synced_frame [OF _ _ w])
qed

interpretation in_sync: tail_invariant "pipeline_on_trade lower fm send client_error read_rows" "synced db0 n0"
  for lower fm send client_error read_rows db0 n0
proof
  show "synced db0 n0 (confirmed (pipeline_on_trade lower fm send client_error read_rows) t p s)"
    if "synced db0 n0 s" for t p and s :: "'a pipeline tailer"
    using that synced_offer [OF that, of lower fm send client_error read_rows t p]
    by (auto simp: confirmed_def case_prod_beta Let_def
        intro: synced_frame [where s = "snd (offer (pipeline_on_trade lower fm send client_error read_rows) t p s)"]
          synced_frame [where s = s])
qed (auto simp: call_def fail_io_def recovered_def intro: synced_frame synced_retry)

section \<open>What each trade leads to\<close>

text \<open>
  The specification of what follows a call. A trade newly recorded is attended to: for a sale, with the setting on, the account
  at hand and its orders read, the requests of the adjustment plan are sent, each once, and the user is told; any other call
  sends nothing and says nothing. The market is the state \<open>'v\<close> the requests act on, and a log of them.
\<close>

definition noted :: "('v \<Rightarrow> 'r \<times> 'v) \<Rightarrow> 'v \<times> mutation list \<Rightarrow> 'r \<times> 'v \<times> mutation list" where
  "noted read = (\<lambda>(v, ms). (fst (read v), (snd (read v), ms)))"

definition wants_adjusting :: "string option \<Rightarrow> (string, unlocked) result \<Rightarrow> trade_event \<Rightarrow> bool" where
  "wants_adjusting setting claim t \<longleftrightarrow> te_kind t = tx ''sale'' \<and> setting \<noteq> Some ''off'' \<and> (\<exists>u. claim = Ok u)"

definition sale_requests ::
  "(ustr \<Rightarrow> ustr) \<Rightarrow> fmt \<Rightarrow> (string, json) result \<Rightarrow> string option \<Rightarrow> (string, unlocked) result \<Rightarrow> trade_event \<Rightarrow> mutation list" where
  "sale_requests lower fm rows setting claim t =
     (if wants_adjusting setting claim t
      then (case (claim, rows) of
              (Ok u, Ok body) \<Rightarrow>
                map request_of (plan_adjustments lower t (name_to_slug lower u) (own_sell_orders fm u body) (tiered_slugs u))
            | _ \<Rightarrow> [])
      else [])"

text \<open>Sending requests one after the other: how many the market confirmed, and the market after them.\<close>

fun sent_all :: "'v send \<Rightarrow> mutation list \<Rightarrow> 'v \<Rightarrow> nat \<times> 'v" where
  "sent_all send [] v = (0, v)"
| "sent_all send (r # rs) v =
     (let (resp, v) = send r v; (n, v) = sent_all send rs v
      in ((case resp of Ok a \<Rightarrow> if is_success (rp_status a) then n + 1 else n | Err _ \<Rightarrow> n), v))"

record attended =
  at_trade :: "trade_event \<times> log_position"
  at_requests :: "mutation list"
  at_confirmed :: nat

definition attend ::
  "(ustr \<Rightarrow> ustr) \<Rightarrow> fmt \<Rightarrow> 'v send \<Rightarrow> ('v \<Rightarrow> (string, json) result \<times> 'v) \<Rightarrow> string option \<Rightarrow> (string, unlocked) result
   \<Rightarrow> trade_event \<times> log_position \<Rightarrow> 'v \<Rightarrow> attended \<times> 'v" where
  "attend lower fm send read setting claim tp v =
     (let rs = sale_requests lower fm (fst (read v)) setting claim (fst tp);
          (n, v) = sent_all send rs (if wants_adjusting setting claim (fst tp) then snd (read v) else v)
      in (\<lparr> at_trade = tp, at_requests = rs, at_confirmed = n \<rparr>, v))"

text \<open>The calls of a run, in order, each with its own faults, clock, setting and claim: only an acknowledged trade at a new place is
  attended to.\<close>

type_synonym call_env = "faults \<times> i64 \<times> string option \<times> (string, unlocked) result"

definition attend_call ::
  "(ustr \<Rightarrow> ustr) \<Rightarrow> fmt \<Rightarrow> 'v send \<Rightarrow> ('v \<Rightarrow> (string, json) result \<times> 'v) \<Rightarrow> trade_event \<times> log_position \<times> bool
   \<Rightarrow> (string \<times> i64) set \<times> call_env list \<times> 'v \<times> attended list \<Rightarrow> (string \<times> i64) set \<times> call_env list \<times> 'v \<times> attended list" where
  "attend_call lower fm send read offered s =
     (case (offered, s) of
        ((t, p, ack), (known, env, v, as)) \<Rightarrow>
          (case env of
             [] \<Rightarrow> s
           | (faults, at, setting, claim) # env \<Rightarrow>
               if ack \<and> place_of p \<notin> known
               then (let (a, v) = attend lower fm send read setting claim (t, p) v
                     in (insert (place_of p) known, env, v, as @ [a]))
               else (known, env, v, as)))"

fun offers :: "callback list \<Rightarrow> (trade_event \<times> log_position \<times> bool) list" where
  "offers [] = []"
| "offers (OnTrade t p ok # cs) = (t, p, ok) # offers cs"
| "offers (c # cs) = offers cs"

text \<open>The user is told of a trade attended to, and of as many listings as the market confirmed.\<close>

definition announced :: "attended \<Rightarrow> handled \<Rightarrow> bool" where
  "announced a h \<longleftrightarrow> length (hd_adjusted h) = at_confirmed a
     \<and> (\<exists>follow_up. hd_notice h = Some (notice_of (fst (at_trade a)) \<lparr> aj_adjusted = hd_adjusted h, aj_follow_up = follow_up \<rparr>))"

definition silent :: "handled \<Rightarrow> bool" where
  "silent h \<longleftrightarrow> hd_adjusted h = [] \<and> hd_closed h = None \<and> hd_notice h = None"

lemma adjust_all_sent:
  "fold (adjust_one fm (logged send) None name_of) ps (a, v, ms) = (a', v', ms') \<Longrightarrow>
     ms' = ms @ map request_of ps
     \<and> (length (aj_adjusted a'), v') = (let (n, v') = sent_all send (map request_of ps) v in (length (aj_adjusted a) + n, v'))"
proof (induction ps arbitrary: a v ms)
  case (Cons p ps)
  obtain ord q where p: "p = (ord, q)" by (cases p)
  obtain resp v1 where r: "send (request_of p) v = (resp, v1)" by (cases "send (request_of p) v")
  obtain a1 w1 where s: "adjust_one fm (logged send) None name_of p (a, v, ms) = (a1, w1)"
    by (cases "adjust_one fm (logged send) None name_of p (a, v, ms)")
  have w1: "w1 = (v1, ms @ [request_of p])"
    and n1: "length (aj_adjusted a1) = length (aj_adjusted a)
      + (case resp of Ok r \<Rightarrow> if is_success (rp_status r) then 1 else 0 | Err _ \<Rightarrow> 0)"
    using s r
    by (auto simp: adjust_one_def p send_adjustment_def delete_order_def update_order_def update_body_def patch_one_order_def
        request_of_def logged_def mutation_accepted_ok Let_def split: sum.splits if_splits prod.splits)
  obtain n v2 where rest: "sent_all send (map request_of ps) v1 = (n, v2)" by (cases "sent_all send (map request_of ps) v1")
  have "fold (adjust_one fm (logged send) None name_of) ps (a1, v1, ms @ [request_of p]) = (a', v', ms')"
    using Cons.prems s w1 by simp
  from Cons.IH [OF this] rest n1 show ?case by (auto simp: r Let_def split: sum.split)
qed simp

lemma handled_call:
  assumes "handle_trade lower fm (logged send) None (noted read) setting claim inserted t (v, ms) = (h, v', ms')"
  shows "case inserted of
      Ok (Some row) \<Rightarrow> (let (a, v1) = attend lower fm send read setting claim (t, p) v
        in v' = v1 \<and> ms' = ms @ at_requests a \<and> announced a h)
    | _ \<Rightarrow> v' = v \<and> ms' = ms \<and> silent h"
proof (cases "\<exists>row. inserted = Ok (Some row)")
  case False
  then show ?thesis using assms by (auto simp: handle_trade_def silent_def split: sum.splits option.splits)
next
  case True
  then obtain row where row: "inserted = Ok (Some row)" by blast
  obtain a v1 ms1 where adj: "adjustment_for lower fm (logged send) None (noted read) setting claim t (v, ms) = (a, v1, ms1)"
    by (cases "adjustment_for lower fm (logged send) None (noted read) setting claim t (v, ms)") auto
  have h: "v' = v1" "ms' = ms1" "hd_adjusted h = aj_adjusted a" "hd_notice h = Some (notice_of t a)"
    using assms by (auto simp: handle_trade_def row adj)
  have on: "is_none_or setting (\<lambda>x. x \<noteq> ''off'') \<longleftrightarrow> setting \<noteq> Some ''off''" by (cases setting) auto
  have "let (b, v2) = attend lower fm send read setting claim (t, p) v
      in v1 = v2 \<and> ms1 = ms @ at_requests b \<and> length (aj_adjusted a) = at_confirmed b \<and> at_trade b = (t, p)"
  proof (cases "wants_adjusting setting claim t")
    case False
    then show ?thesis using adj
      by (auto simp: adjustment_for_def attend_def sale_requests_def wants_adjusting_def on Let_def split: if_splits sum.splits)
  next
    case True
    then obtain u where u: "claim = Ok u" "te_kind t = tx ''sale''" "setting \<noteq> Some ''off''" by (auto simp: wants_adjusting_def)
    then have adj': "adjust_listings lower fm (logged send) None (noted read) u t (v, ms) = (a, v1, ms1)"
      using adj by (simp add: adjustment_for_def on Let_def)
    show ?thesis
    proof (cases "fst (read v)")
      case (Inl e)
      then show ?thesis using adj' True by (auto simp: adjust_listings_def noted_def attend_def sale_requests_def u Let_def)
    next
      case (Inr body)
      let ?ps = "plan_adjustments lower t (name_to_slug lower u) (own_sell_orders fm u body) (tiered_slugs u)"
      let ?a0 = "\<lparr> aj_adjusted = [], aj_follow_up = adjustment_follow_up lower t (name_to_slug lower u) (own_sell_orders fm u body) (tiered_slugs u) \<rparr>"
      have "fold (adjust_one fm (logged send) None (adjusted_name lower (name_to_slug lower u) t)) ?ps (?a0, snd (read v), ms)
          = (a, v1, ms1)"
        using adj' Inr by (simp add: adjust_listings_def noted_def Let_def)
      from adjust_all_sent [OF this] True show ?thesis
        by (auto simp: attend_def sale_requests_def u Inr Let_def split: prod.splits)
    qed
  qed
  then show ?thesis using h by (cases a) (auto simp: row announced_def Let_def split: prod.splits)
qed

lemma attended_call:
  assumes ok: "ledger_ok (pl_db s)"
    and call: "pipeline_on_trade lower fm (logged send) None (noted read) s t p = (ack, s')"
  shows "\<exists>new hs. attend_call lower fm send read (t, p, ack) (ledger_keys (pl_db s), pl_env s, fst (pl_market s), as)
      = (ledger_keys (pl_db s'), pl_env s', fst (pl_market s'), as @ new)
    \<and> ledger_rows (pl_db s') = ledger_rows (pl_db s) @ map at_trade new
    \<and> snd (pl_market s') = snd (pl_market s) @ concat (map at_requests new)
    \<and> pl_outputs s' = pl_outputs s @ hs
    \<and> list_all2 announced new (filter (\<lambda>h. hd_outcome h = Recorded) hs)
    \<and> list_all silent (filter (\<lambda>h. hd_outcome h \<noteq> Recorded) hs)"
proof (cases "pl_env s")
  case Nil
  then have "ack = False" "s' = s" using call by (simp_all add: pipeline_on_trade_def)
  then show ?thesis using Nil by (intro exI [of _ "[]"]) (simp add: attend_call_def)
next
  case (Cons x env)
  obtain faults at setting claim where x: "x = (faults, at, setting, claim)" by (cases x)
  obtain inserted db where ins: "insert_trade faults t at p (pl_db s) = (inserted, db)"
    by (cases "insert_trade faults t at p (pl_db s)")
  obtain v ms where m: "pl_market s = (v, ms)" by (cases "pl_market s")
  obtain h v' ms' where hd: "handle_trade lower fm (logged send) None (noted read) setting claim inserted t (v, ms) = (h, v', ms')"
    by (cases "handle_trade lower fm (logged send) None (noted read) setting claim inserted t (v, ms)") auto
  have out: "hd_outcome h = (case inserted of Err e \<Rightarrow> Failed e | Ok None \<Rightarrow> AlreadyKnown | Ok (Some _) \<Rightarrow> Recorded)"
    using handled_outcome hd by (metis fst_conv)
  have s': "s' = \<lparr> pl_db = closed_in faults (hd_closed h) db, pl_env = env, pl_market = (v', ms'), pl_outputs = pl_outputs s @ [h] \<rparr>"
    "ack = acknowledged (hd_outcome h)"
    using call by (simp_all add: pipeline_on_trade_def Cons x ins m hd)
  note pc = pipeline_call [OF ok call] and hc = handled_call [OF hd, of p]
  show ?thesis
  proof (cases "\<exists>row. inserted = Ok (Some row)")
    case False
    then have "hd_outcome h \<noteq> Recorded" "v' = v" "ms' = ms" "silent h" using out hc by (auto split: sum.splits option.splits)
    moreover have "\<not> (ack \<and> place_of p \<notin> ledger_keys (pl_db s))"
      using pc calculation(1) by (auto simp: s'(1) split: if_splits)
    ultimately show ?thesis using pc Cons x
      by (intro exI [of _ "[]"] exI [of _ "[h]"]) (auto simp: attend_call_def s'(1) m insert_absorb)
  next
    case True
    then obtain row where row: "inserted = Ok (Some row)" by blast
    obtain a v1 where a: "attend lower fm send read setting claim (t, p) v = (a, v1)"
      by (cases "attend lower fm send read setting claim (t, p) v")
    have h: "hd_outcome h = Recorded" "v' = v1" "ms' = ms @ at_requests a" "announced a h"
      using out hc by (auto simp: row a)
    then have new: "ack \<and> place_of p \<notin> ledger_keys (pl_db s)" using pc by (auto simp: s'(1) split: if_splits)
    moreover have "at_trade a = (t, p)" using a by (auto simp: attend_def Let_def split: prod.splits)
    ultimately show ?thesis using pc Cons x h a
      by (intro exI [of _ "[a]"] exI [of _ "[h]"]) (auto simp: attend_call_def s'(1) m)
  qed
qed

lemma offers_append [simp]: "offers (cs @ ds) = offers cs @ offers ds"
  by (induction cs rule: offers.induct) auto

lemma offers_other [simp]: "\<not> is_offer c \<Longrightarrow> offers [c] = []"
  by (cases c) auto

definition told ::
  "(ustr \<Rightarrow> ustr) \<Rightarrow> fmt \<Rightarrow> 'v send \<Rightarrow> ('v \<Rightarrow> (string, json) result \<times> 'v) \<Rightarrow> ledger \<Rightarrow> call_env list \<Rightarrow> 'v
   \<Rightarrow> ('v \<times> mutation list) pipeline tailer \<Rightarrow> bool" where
  "told lower fm send read db0 env0 v0 s \<longleftrightarrow>
     ledger_ok (pl_db (tl_ledger s))
     \<and> (\<exists>as. fold (attend_call lower fm send read) (offers (tl_calls s)) (ledger_keys db0, env0, v0, [])
            = (ledger_keys (pl_db (tl_ledger s)), pl_env (tl_ledger s), fst (pl_market (tl_ledger s)), as)
          \<and> ledger_rows (pl_db (tl_ledger s)) = ledger_rows db0 @ map at_trade as
          \<and> snd (pl_market (tl_ledger s)) = concat (map at_requests as)
          \<and> list_all2 announced as (filter (\<lambda>h. hd_outcome h = Recorded) (pl_outputs (tl_ledger s)))
          \<and> list_all silent (filter (\<lambda>h. hd_outcome h \<noteq> Recorded) (pl_outputs (tl_ledger s))))"

lemma told_offer:
  assumes "told lower fm send read db0 env0 v0 s"
  shows "told lower fm send read db0 env0 v0 (snd (offer (pipeline_on_trade lower fm (logged send) None (noted read)) t p s))"
proof -
  obtain ack w where c: "pipeline_on_trade lower fm (logged send) None (noted read) (tl_ledger s) t p = (ack, w)"
    by (cases "pipeline_on_trade lower fm (logged send) None (noted read) (tl_ledger s) t p")
  have ok: "ledger_ok (pl_db (tl_ledger s))" using assms by (simp add: told_def)
  obtain as where as: "fold (attend_call lower fm send read) (offers (tl_calls s)) (ledger_keys db0, env0, v0, [])
        = (ledger_keys (pl_db (tl_ledger s)), pl_env (tl_ledger s), fst (pl_market (tl_ledger s)), as)"
    and rows: "ledger_rows (pl_db (tl_ledger s)) = ledger_rows db0 @ map at_trade as"
    and log: "snd (pl_market (tl_ledger s)) = concat (map at_requests as)"
    and said: "list_all2 announced as (filter (\<lambda>h. hd_outcome h = Recorded) (pl_outputs (tl_ledger s)))"
    and unsaid: "list_all silent (filter (\<lambda>h. hd_outcome h \<noteq> Recorded) (pl_outputs (tl_ledger s)))"
    using assms by (auto simp: told_def)
  from attended_call [OF ok c, of as] obtain new hs where
      n: "attend_call lower fm send read (t, p, ack) (ledger_keys (pl_db (tl_ledger s)), pl_env (tl_ledger s), fst (pl_market (tl_ledger s)), as)
        = (ledger_keys (pl_db w), pl_env w, fst (pl_market w), as @ new)"
    and "ledger_rows (pl_db w) = ledger_rows (pl_db (tl_ledger s)) @ map at_trade new"
      "snd (pl_market w) = snd (pl_market (tl_ledger s)) @ concat (map at_requests new)"
      "pl_outputs w = pl_outputs (tl_ledger s) @ hs"
      "list_all2 announced new (filter (\<lambda>h. hd_outcome h = Recorded) hs)"
      "list_all silent (filter (\<lambda>h. hd_outcome h \<noteq> Recorded) hs)"
    by blast
  moreover have "ledger_ok (pl_db w)" using pipeline_call [OF ok c] by blast
  ultimately show ?thesis
    unfolding told_def using as rows log said unsaid
    by (auto simp: offer_def c call_def list_all2_appendI intro!: exI [of _ "as @ new"])
qed

lemma told_frame:
  "tl_ledger r = tl_ledger s \<Longrightarrow> offers (tl_calls r) = offers (tl_calls s) \<Longrightarrow> told lower fm send read db0 env0 v0 s
   \<Longrightarrow> told lower fm send read db0 env0 v0 r"
  by (simp add: told_def)

lemma told_retry:
  "told lower fm send read db0 env0 v0 s
   \<Longrightarrow> told lower fm send read db0 env0 v0 (retry_held (pipeline_on_trade lower fm (logged send) None (noted read)) hs s)"
proof (induction hs arbitrary: s)
  case Nil
  then show ?case by (auto intro: told_frame)
next
  case (Cons h hs)
  obtain t p where h: "h = (t, p)" by (cases h)
  obtain ok s' where o: "offer (pipeline_on_trade lower fm (logged send) None (noted read)) t p s = (ok, s')"
    by (cases "offer (pipeline_on_trade lower fm (logged send) None (noted read)) t p s")
  have w: "told lower fm send read db0 env0 v0 s'" using told_offer [OF Cons.prems, of t p] o by simp
  show ?case using Cons.IH [OF w] w by (auto simp: h o intro: told_frame [OF _ _ w])
qed

interpretation attending: tail_invariant "pipeline_on_trade lower fm (logged send) None (noted read)" "told lower fm send read db0 env0 v0"
  for lower fm and send :: "'v send" and read db0 env0 v0
proof
  show "told lower fm send read db0 env0 v0 (confirmed (pipeline_on_trade lower fm (logged send) None (noted read)) t p s)"
    if "told lower fm send read db0 env0 v0 s" for t p and s :: "('v \<times> mutation list) pipeline tailer"
    using that told_offer [OF that, of t p]
    by (auto simp: confirmed_def case_prod_beta Let_def
        intro: told_frame [where s = "snd (offer (pipeline_on_trade lower fm (logged send) None (noted read)) t p s)"]
          told_frame [where s = s])
qed (auto simp: call_def fail_io_def recovered_def intro: told_frame told_retry)

text \<open>C36: The ledger records the trades the log confirms, and each is acted on once: whatever the database, the account and the
  market do along the way, the trades acknowledged so far followed by those waiting are exactly the trades the tailer
  confirms, in order; the ledger holds what it held before and then each acknowledged trade whose place in the log it did not
  know, once; for each of these, and for nothing else, the requests of its adjustment plan were sent to the market, once and in
  order (none for a purchase, with the setting off, without the account or its orders), and the user was told once, of as many
  listings as the market confirmed. A trade that was known or could not be stored sends nothing and says nothing.\<close>

theorem ledger_records_confirmed_trades:
  "let db0 = fold apply_op ops (empty_ledger run_id);
       s = tail_with_ticks lossy fingerprint (pipeline_on_trade lower fm (logged send) None (noted read)) ticks
             (tail_start initial token len now \<lparr> pl_db = db0, pl_env = env, pl_market = (v, []), pl_outputs = [] \<rparr>);
       r = tail_with_ticks lossy fingerprint accept_all ticks (tail_start initial token len now ());
       (known, env', v', as) = fold (attend_call lower fm send read) (offers (tl_calls s)) (ledger_keys db0, env, v, []);
       outputs = pl_outputs (tl_ledger s)
   in \<exists>done_trades. done_trades @ tl_held s = accepted (tl_calls r)
      \<and> map at_trade as = fresh_trades (ledger_keys db0) done_trades
      \<and> ledger_rows (pl_db (tl_ledger s)) = ledger_rows db0 @ map at_trade as
      \<and> pl_market (tl_ledger s) = (v', concat (map at_requests as))
      \<and> list_all2 announced as (filter (\<lambda>h. hd_outcome h = Recorded) outputs)
      \<and> list_all silent (filter (\<lambda>h. hd_outcome h \<noteq> Recorded) outputs)"
proof -
  let ?db0 = "fold apply_op ops (empty_ledger run_id)"
  let ?start = "tail_start initial token len now \<lparr> pl_db = ?db0, pl_env = env, pl_market = (v, []), pl_outputs = [] \<rparr>"
  let ?s = "tail_with_ticks lossy fingerprint (pipeline_on_trade lower fm (logged send) None (noted read)) ticks ?start"
  have "synced ?db0 0 ?start"
    using ledger_ok_run [OF ledger_ok_empty] by (simp add: synced_def tail_start_def places_def Let_def)
  then have "synced ?db0 0 ?s" by (rule in_sync.inv_run)
  then have rows: "ledger_rows (pl_db (tl_ledger ?s)) = ledger_rows ?db0 @ fresh_trades (ledger_keys ?db0) (accepted (tl_calls ?s))"
    by (simp add: synced_def)
  have "told lower fm send read ?db0 env v ?start"
    using ledger_ok_run [OF ledger_ok_empty] by (simp add: told_def tail_start_def Let_def)
  then have "told lower fm send read ?db0 env v ?s" by (rule attending.inv_run)
  then obtain as where as: "fold (attend_call lower fm send read) (offers (tl_calls ?s)) (ledger_keys ?db0, env, v, [])
        = (ledger_keys (pl_db (tl_ledger ?s)), pl_env (tl_ledger ?s), fst (pl_market (tl_ledger ?s)), as)"
      "ledger_rows (pl_db (tl_ledger ?s)) = ledger_rows ?db0 @ map at_trade as"
      "snd (pl_market (tl_ledger ?s)) = concat (map at_requests as)"
      "list_all2 announced as (filter (\<lambda>h. hd_outcome h = Recorded) (pl_outputs (tl_ledger ?s)))"
      "list_all silent (filter (\<lambda>h. hd_outcome h \<noteq> Recorded) (pl_outputs (tl_ledger ?s)))"
    unfolding told_def by blast
  have "pl_market (tl_ledger ?s) = (fst (pl_market (tl_ledger ?s)), concat (map at_requests as))" using as(3) by (metis prod.collapse)
  moreover have "accepted (tl_calls ?s) @ tl_held ?s
      = accepted (tl_calls (tail_with_ticks lossy fingerprint accept_all ticks (tail_start initial token len now ())))"
    by (rule waiting_trades [unfolded Let_def, THEN conjunct1])
  moreover have "map at_trade as = fresh_trades (ledger_keys ?db0) (accepted (tl_calls ?s))" using rows as(2) by simp
  ultimately show ?thesis unfolding Let_def as(1) prod.case
    using as(2,4,5) by blast
qed

end
