(* ===== verification/Auto_Scan.thy ===== *)
theory Auto_Scan
  imports Prelude
begin

text \<open>
  Automatic scanning (\<open>services/inventory/auto_scan.rs\<close>): the settings and their status, the pure decision of
  a tick, and the loop around it. An \<open>Instant\<close> is milliseconds of a monotonic clock. A pass of the loop gets
  from its environment the game's process, how the scan ended and how long the pass slept and scanned; what
  other threads do to the shared state between passes and while a scan runs is a list of its operations.
\<close>

section \<open>Settings and status\<close>

definition TICK :: nat where "TICK = 30000"
definition FIRST_SCAN_DELAY :: nat where "FIRST_SCAN_DELAY = 60000"
definition PROMPT_RETRY :: nat where "PROMPT_RETRY = 90000"
definition PROMPT_ATTEMPTS :: u32 where "PROMPT_ATTEMPTS = 6"
definition CADENCE_CHOICES :: "u32 list" where "CADENCE_CHOICES = [15, 30, 60]"
definition DEFAULT_CADENCE_MINUTES :: u32 where "DEFAULT_CADENCE_MINUTES = 30"

record scan_settings =
  as_enabled :: bool
  as_cadence_minutes :: u32
  as_adopt_automatically :: bool

definition default_settings :: scan_settings where
  "default_settings = \<lparr> as_enabled = False, as_cadence_minutes = DEFAULT_CADENCE_MINUTES, as_adopt_automatically = True \<rparr>"

definition sanitized :: "scan_settings \<Rightarrow> scan_settings" where
  "sanitized s = s\<lparr> as_cadence_minutes :=
     unwrap_or (min_by (\<lambda>choice. abs_diff choice (as_cadence_minutes s)) CADENCE_CHOICES) DEFAULT_CADENCE_MINUTES \<rparr>"

record scan_status =
  ss_enabled :: bool
  ss_cadence_minutes :: u32
  ss_adopt_automatically :: bool
  ss_held :: bool
  ss_game_running :: bool
  ss_last_scan_at :: "i64 option"
  ss_last_error :: "string option"
  ss_next_check_at :: "i64 option"

definition status_from_settings :: "scan_settings \<Rightarrow> scan_status" where
  "status_from_settings s =
     \<lparr> ss_enabled = as_enabled s, ss_cadence_minutes = as_cadence_minutes s,
       ss_adopt_automatically = as_adopt_automatically s, ss_held = False, ss_game_running = False,
       ss_last_scan_at = None, ss_last_error = None, ss_next_check_at = None \<rparr>"

definition mirror_settings :: "scan_settings \<Rightarrow> scan_status \<Rightarrow> scan_status" where
  "mirror_settings s st =
     st\<lparr> ss_enabled := as_enabled s, ss_cadence_minutes := as_cadence_minutes s,
         ss_adopt_automatically := as_adopt_automatically s \<rparr>"

record scan_state =
  sc_settings :: scan_settings
  sc_status :: scan_status
  sc_held :: bool

definition new_state :: "scan_settings \<Rightarrow> scan_state" where
  "new_state s =
     (let s = sanitized s in \<lparr> sc_settings = s, sc_status = status_from_settings s, sc_held = False \<rparr>)"

definition update_status :: "(scan_status \<Rightarrow> scan_status) \<Rightarrow> scan_state \<Rightarrow> scan_state" where
  "update_status f st = st\<lparr> sc_status := f (sc_status st) \<rparr>"

definition set_settings :: "scan_settings \<Rightarrow> scan_state \<Rightarrow> scan_state" where
  "set_settings s st =
     (let s = sanitized s
      in update_status (\<lambda>x. (mirror_settings s x)\<lparr> ss_last_error := None \<rparr>) (st\<lparr> sc_settings := s \<rparr>))"

definition set_held :: "bool \<Rightarrow> scan_state \<Rightarrow> scan_state" where
  "set_held held st = update_status (\<lambda>x. x\<lparr> ss_held := held \<rparr>) (st\<lparr> sc_held := held \<rparr>)"

text \<open>Storage: the raw text is parsed by \<open>parse\<close>, or absent, or unreadable.\<close>

definition load_settings :: "(string \<Rightarrow> scan_settings option) \<Rightarrow> (string, string option) result \<Rightarrow> scan_settings" where
  "load_settings parse stored =
     sanitized (unwrap_or (case stored of Ok (Some raw) \<Rightarrow> parse raw | _ \<Rightarrow> None) default_settings)"

definition save_settings ::
  "(scan_settings \<Rightarrow> string) \<Rightarrow> (string \<Rightarrow> (string, unit) result) \<Rightarrow> scan_settings \<Rightarrow> (string, scan_settings) result" where
  "save_settings print store s = (let s = sanitized s in rbind (store (print s)) (\<lambda>_. Ok s))"

section \<open>The decision\<close>

record run =
  rn_pid :: u32
  rn_detected_at :: nat
  rn_attempts :: u32
  rn_succeeded :: bool

record scan_tick =
  sk_enabled :: bool
  sk_held :: bool
  sk_cadence :: nat
  sk_pid :: "u32 option"
  sk_run :: "run option"
  sk_last_attempt_at :: "nat option"
  sk_now :: nat

datatype decision = Off | Held | NoGame | Wait nat | Scan

definition wait_or_scan :: "nat \<Rightarrow> nat \<Rightarrow> decision" where
  "wait_or_scan due now = (if due \<le> now then Scan else Wait due)"

definition decide :: "scan_tick \<Rightarrow> decision" where
  "decide t =
     (if \<not> sk_enabled t then Off
      else if sk_held t then Held
      else case sk_pid t of
        None \<Rightarrow> NoGame
      | Some pid \<Rightarrow>
          (case opt_filter (\<lambda>r. rn_pid r = pid) (sk_run t) of
             None \<Rightarrow> wait_or_scan (sk_now t + FIRST_SCAN_DELAY) (sk_now t)
           | Some run \<Rightarrow>
               if \<not> rn_succeeded run \<and> rn_attempts run < PROMPT_ATTEMPTS
               then (let settled = rn_detected_at run + FIRST_SCAN_DELAY
                     in wait_or_scan (case sk_last_attempt_at t of
                          Some at \<Rightarrow> max settled (at + PROMPT_RETRY) | None \<Rightarrow> settled) (sk_now t))
               else (case sk_last_attempt_at t of
                       Some at \<Rightarrow> wait_or_scan (at + sk_cadence t) (sk_now t)
                     | None \<Rightarrow> Scan)))"

definition tick_at :: "scan_settings \<Rightarrow> bool \<Rightarrow> u32 option \<Rightarrow> run option \<Rightarrow> nat option \<Rightarrow> nat \<Rightarrow> scan_tick" where
  "tick_at s held pid run last_attempt_at now =
     \<lparr> sk_enabled = as_enabled s, sk_held = held, sk_cadence = unat (as_cadence_minutes s) * 60 * 1000, sk_pid = pid,
       sk_run = run, sk_last_attempt_at = last_attempt_at, sk_now = now \<rparr>"

section \<open>The loop\<close>

datatype scan_end = Aborted | Recorded | Failed string

datatype state_op = SetSettings scan_settings | SetHeld bool

fun apply_state_op :: "state_op \<Rightarrow> scan_state \<Rightarrow> scan_state" where
  "apply_state_op (SetSettings s) st = set_settings s st"
| "apply_state_op (SetHeld held) st = set_held held st"

record pass_env =
  pe_between :: "state_op list"
  pe_overslept :: nat
  pe_pid :: "u32 option"
  pe_in_progress :: bool
  pe_end :: scan_end
  pe_took :: nat
  pe_during :: "state_op list"
  pe_scan_unix :: i64
  pe_unix :: i64

record scan_loop =
  ln_clock :: nat
  ln_run :: "run option"
  ln_last_attempt_at :: "nat option"
  ln_logged_error :: "string option"
  ln_state :: scan_state
  ln_begun :: nat  \<comment> \<open>the scans begun\<close>
  ln_log :: "(nat \<times> run) list"  \<comment> \<open>the attempts made, each with the run as it was before\<close>

definition start_loop :: "scan_state \<Rightarrow> scan_loop" where
  "start_loop st = \<lparr> ln_clock = 0, ln_run = None, ln_last_attempt_at = None, ln_logged_error = None, ln_state = st,
     ln_begun = 0, ln_log = [] \<rparr>"

definition sighted :: "u32 option \<Rightarrow> nat \<Rightarrow> run option \<Rightarrow> run option" where
  "sighted pid now run =
     (case pid of
        None \<Rightarrow> run
      | Some p \<Rightarrow> if is_none_or run (\<lambda>r. rn_pid r \<noteq> p)
                  then Some \<lparr> rn_pid = p, rn_detected_at = now, rn_attempts = 0, rn_succeeded = False \<rparr> else run)"

text \<open>An attempt: what the loop's variables and the state are after it, by how the scan ended.\<close>

definition attempt :: "pass_env \<Rightarrow> scan_settings \<Rightarrow> nat \<Rightarrow> scan_loop \<Rightarrow> scan_loop" where
  "attempt env settings now l =
     (let counted = map_option (\<lambda>r. r\<lparr> rn_attempts := rn_attempts r + 1 \<rparr>) (ln_run l);
          st = fold apply_state_op (pe_during env) (ln_state l);
          l = l\<lparr> ln_begun := ln_begun l + 1 \<rparr>
      in case pe_end env of
           Aborted \<Rightarrow> l\<lparr> ln_run := map_option (\<lambda>r. r\<lparr> rn_attempts := sat_sub (rn_attempts r) 1 \<rparr>) counted, ln_state := st \<rparr>
         | Recorded \<Rightarrow>
             l\<lparr> ln_run := map_option (\<lambda>r. r\<lparr> rn_succeeded := True \<rparr>) counted, ln_last_attempt_at := Some now,
                ln_logged_error := None,
                ln_state := update_status (\<lambda>x. x\<lparr> ss_last_scan_at := Some (pe_scan_unix env), ss_last_error := None \<rparr>) st,
                ln_log := ln_log l @ map (Pair now) (case ln_run l of Some r \<Rightarrow> [r] | None \<Rightarrow> []) \<rparr>
         | Failed error \<Rightarrow>
             l\<lparr> ln_run := counted, ln_last_attempt_at := Some now, ln_logged_error := Some error,
                ln_state := (if sc_settings st = settings
                             then update_status (\<lambda>x. x\<lparr> ss_last_error := Some error \<rparr>) st else st),
                ln_log := ln_log l @ map (Pair now) (case ln_run l of Some r \<Rightarrow> [r] | None \<Rightarrow> []) \<rparr>)"

definition wait_until :: "decision \<Rightarrow> nat option" where
  "wait_until d = (case d of Wait at \<Rightarrow> Some at | _ \<Rightarrow> None)"

definition report :: "pass_env \<Rightarrow> nat \<Rightarrow> nat option \<Rightarrow> scan_state \<Rightarrow> scan_state" where
  "report env after due st =
     update_status (\<lambda>x. (mirror_settings (sc_settings st) x)\<lparr> ss_game_running := pe_pid env \<noteq> None,
       ss_next_check_at := map_option (\<lambda>at. pe_unix env + int ((at - after) div 1000)) due \<rparr>) st"

definition loop_pass :: "pass_env \<Rightarrow> scan_loop \<Rightarrow> scan_loop" where
  "loop_pass env l =
     (let now = ln_clock l + TICK + pe_overslept env;
          st = fold apply_state_op (pe_between env) (ln_state l);
          settings = sc_settings st;
          l = l\<lparr> ln_state := st, ln_run := sighted (pe_pid env) now (ln_run l), ln_clock := now \<rparr>;
          decision = decide (tick_at settings (sc_held (ln_state l)) (pe_pid env) (ln_run l) (ln_last_attempt_at l) now);
          (due, l) =
            (if decision \<noteq> Scan then (wait_until decision, l)
             else if pe_in_progress env then (Some (now + TICK), l)
             else let l = (attempt env settings now l)\<lparr> ln_clock := now + pe_took env \<rparr>
                  in (wait_until (decide (tick_at settings (sc_held (ln_state l)) (pe_pid env) (ln_run l)
                                    (ln_last_attempt_at l) (ln_clock l))), l))
      in l\<lparr> ln_state := report env (ln_clock l) due (ln_state l) \<rparr>)"

definition run_loop :: "pass_env list \<Rightarrow> scan_loop \<Rightarrow> scan_loop" where
  "run_loop envs l = fold loop_pass envs l"


section \<open>Attempts are spaced\<close>

definition sane :: "scan_settings \<Rightarrow> bool" where
  "sane s \<longleftrightarrow> as_cadence_minutes s \<in> set CADENCE_CHOICES"

lemma sanitized_sane: "sane (sanitized s)"
proof -
  have "min_by (\<lambda>choice. abs_diff choice (as_cadence_minutes s)) CADENCE_CHOICES \<noteq> None"
    by (simp only: min_by_None CADENCE_CHOICES_def) simp
  then show ?thesis by (auto simp: sane_def sanitized_def dest: min_by_mem)
qed

lemma sane_cadence: "sane s \<Longrightarrow> 15 \<le> unat (as_cadence_minutes s) \<and> unat (as_cadence_minutes s) \<le> 60"
  by (auto simp: sane_def CADENCE_CHOICES_def)

lemma state_ops_sane: "sane (sc_settings st) \<Longrightarrow> sane (sc_settings (fold apply_state_op ops st))"
proof (induction ops arbitrary: st)
  case (Cons a ops)
  then show ?case
    by (cases a) (simp_all add: set_settings_def set_held_def update_status_def Let_def sanitized_sane)
qed simp

text \<open>How long after the last attempt one may follow, by the run it is made in.\<close>

definition spacing :: "run \<Rightarrow> nat" where
  "spacing r = (if \<not> rn_succeeded r \<and> rn_attempts r < PROMPT_ATTEMPTS then PROMPT_RETRY else 15 * 60 * 1000)"

definition after_gap :: "nat \<times> run \<Rightarrow> nat \<times> run \<Rightarrow> bool" where
  "after_gap earlier later \<longleftrightarrow> fst earlier + spacing (snd later) \<le> fst later"

fun paced :: "(nat \<times> run) list \<Rightarrow> bool" where
  "paced [] \<longleftrightarrow> True"
| "paced (x # xs) \<longleftrightarrow> (case xs of [] \<Rightarrow> True | y # ys \<Rightarrow> after_gap x y) \<and> paced xs"

lemma paced_snoc:
  "paced (xs @ [(t, r)]) \<longleftrightarrow> paced xs \<and> (xs = [] \<or> fst (last xs) + spacing r \<le> t)"
proof (induction xs)
  case (Cons x xs)
  then show ?case by (cases xs) (auto simp: after_gap_def)
qed simp

definition last_attempt :: "(nat \<times> run) list \<Rightarrow> nat option" where
  "last_attempt log = (if log = [] then None else Some (fst (last log)))"

definition settled_in :: "nat \<times> run \<Rightarrow> bool" where
  "settled_in e \<longleftrightarrow> rn_detected_at (snd e) + FIRST_SCAN_DELAY \<le> fst e"

definition loop_ok :: "scan_loop \<Rightarrow> bool" where
  "loop_ok l \<longleftrightarrow>
     sane (sc_settings (ln_state l)) \<and> paced (ln_log l) \<and> list_all settled_in (ln_log l)
     \<and> ln_last_attempt_at l = last_attempt (ln_log l)
     \<and> (case ln_last_attempt_at l of Some at \<Rightarrow> at \<le> ln_clock l | None \<Rightarrow> True)
     \<and> (case ln_run l of None \<Rightarrow> True | Some r \<Rightarrow> rn_detected_at r \<le> ln_clock l \<and>
          (0 < rn_attempts r \<or> rn_succeeded r \<longrightarrow>
             (case ln_last_attempt_at l of Some at \<Rightarrow> rn_detected_at r + FIRST_SCAN_DELAY \<le> at | None \<Rightarrow> False)))"

lemma decide_Scan:
  assumes "decide (tick_at s held pid run prev now) = Scan"
  shows "as_enabled s \<and> \<not> held \<and> (\<exists>p r. pid = Some p \<and> run = Some r \<and> rn_pid r = p
    \<and> (if \<not> rn_succeeded r \<and> rn_attempts r < PROMPT_ATTEMPTS
       then rn_detected_at r + FIRST_SCAN_DELAY \<le> now \<and> (\<forall>at. prev = Some at \<longrightarrow> at + PROMPT_RETRY \<le> now)
       else \<forall>at. prev = Some at \<longrightarrow> at + unat (as_cadence_minutes s) * 60 * 1000 \<le> now))"
  using assms
  by (auto simp: decide_def tick_at_def wait_or_scan_def FIRST_SCAN_DELAY_def Let_def
      split: if_splits option.splits)

lemma sighted_ok:
  assumes "loop_ok l" and "ln_clock l \<le> now" and "sane (sc_settings st)"
  shows "loop_ok (l\<lparr> ln_state := st, ln_run := sighted pid now (ln_run l), ln_clock := now \<rparr>)"
  using assms unfolding loop_ok_def sighted_def
  by (auto split: option.splits)

lemma attempt_ok:
  assumes ok: "loop_ok l" and now: "ln_clock l = now" and took: "now \<le> t"
    and scan: "decide (tick_at settings held pid (ln_run l) (ln_last_attempt_at l) now) = Scan" and sane: "sane settings"
  shows "loop_ok ((attempt env settings now l)\<lparr> ln_clock := t \<rparr>)"
proof -
  obtain r where r: "ln_run l = Some r"
    and due: "if \<not> rn_succeeded r \<and> rn_attempts r < PROMPT_ATTEMPTS
       then rn_detected_at r + FIRST_SCAN_DELAY \<le> now \<and> (\<forall>at. ln_last_attempt_at l = Some at \<longrightarrow> at + PROMPT_RETRY \<le> now)
       else \<forall>at. ln_last_attempt_at l = Some at \<longrightarrow> at + unat (as_cadence_minutes settings) * 60 * 1000 \<le> now"
    using decide_Scan [OF scan] by blast
  have st: "sane (sc_settings (fold apply_state_op (pe_during env) (ln_state l)))"
    using ok by (intro state_ops_sane) (simp add: loop_ok_def)
  have lastlog: "ln_last_attempt_at l = last_attempt (ln_log l)" using ok by (simp add: loop_ok_def)
  have gap: "ln_log l = [] \<or> fst (last (ln_log l)) + spacing r \<le> now"
  proof (cases "ln_log l = []")
    case False
    then have at: "ln_last_attempt_at l = Some (fst (last (ln_log l)))" using lastlog by (simp add: last_attempt_def)
    have "15 * 60 * 1000 \<le> unat (as_cadence_minutes settings) * 60 * 1000" using sane_cadence [OF sane] by simp
    with at due show ?thesis by (auto simp: spacing_def split: if_splits)
  qed simp
  have old: "\<not> (\<not> rn_succeeded r \<and> rn_attempts r < PROMPT_ATTEMPTS) \<Longrightarrow> 0 < rn_attempts r \<or> rn_succeeded r"
    by (auto simp: PROMPT_ATTEMPTS_def word_less_nat_alt)
  have settled: "rn_detected_at r + FIRST_SCAN_DELAY \<le> now"
  proof (cases "\<not> rn_succeeded r \<and> rn_attempts r < PROMPT_ATTEMPTS")
    case False
    then show ?thesis using ok r old [OF False] now by (auto simp: loop_ok_def split: option.splits)
  qed (use due in simp)
  have paced: "paced (ln_log l @ [(now, r)])" using ok gap by (simp add: paced_snoc loop_ok_def)
  have sat: "rn_attempts r + 1 = 0 \<or> sat_sub (rn_attempts r + 1) 1 = rn_attempts r"
  proof (cases "rn_attempts r + 1 = 0")
    case False
    then have "1 \<le> rn_attempts r + 1" by (simp add: word_le_nat_alt Suc_le_eq unat_gt_0)
    then show ?thesis by (simp add: sat_sub_def)
  qed simp
  show ?thesis
  proof (cases "pe_end env")
    case Aborted
    have "0 < sat_sub (rn_attempts r + 1) 1 \<Longrightarrow> 0 < rn_attempts r" using sat by (auto simp: sat_sub_def)
    then show ?thesis using ok r st now took Aborted
      by (auto simp: loop_ok_def attempt_def Let_def split: option.splits)
  next
    case Recorded
    then show ?thesis using ok r st now took paced settled
      by (simp add: loop_ok_def attempt_def Let_def last_attempt_def settled_in_def update_status_def)
  next
    case (Failed e)
    then show ?thesis using ok r st now took paced settled sane
      by (simp add: loop_ok_def attempt_def Let_def last_attempt_def settled_in_def update_status_def)
  qed
qed

lemma report_ok: "loop_ok (l\<lparr> ln_state := report env after due st \<rparr>) = loop_ok (l\<lparr> ln_state := st \<rparr>)"
  by (cases "ln_run l"; cases "ln_last_attempt_at l") (simp_all add: loop_ok_def report_def update_status_def)

lemma loop_pass_ok:
  assumes "loop_ok l" shows "loop_ok (loop_pass env l)"
proof -
  define now where "now = ln_clock l + TICK + pe_overslept env"
  define st where "st = fold apply_state_op (pe_between env) (ln_state l)"
  define l1 where "l1 = l\<lparr> ln_state := st, ln_run := sighted (pe_pid env) now (ln_run l), ln_clock := now \<rparr>"
  define d where "d = decide (tick_at (sc_settings st) (sc_held st) (pe_pid env) (ln_run l1) (ln_last_attempt_at l1) now)"
  have sane: "sane (sc_settings st)" unfolding st_def using assms by (intro state_ops_sane) (simp add: loop_ok_def)
  have l1: "loop_ok l1" unfolding l1_def by (rule sighted_ok [OF assms _ sane]) (simp add: now_def)
  have same: "ln_clock l1 = now" "ln_state l1 = st" by (simp_all add: l1_def)
  have rep: "loop_ok (m\<lparr> ln_state := report env after due (ln_state m) \<rparr>)" if "loop_ok m" for m after due
    using that report_ok [where l = m] by simp
  have eq: "loop_pass env l =
      (let (due, m) = (if d \<noteq> Scan then (wait_until d, l1)
         else if pe_in_progress env then (Some (now + TICK), l1)
         else let m = (attempt env (sc_settings st) now l1)\<lparr> ln_clock := now + pe_took env \<rparr>
              in (wait_until (decide (tick_at (sc_settings st) (sc_held (ln_state m)) (pe_pid env) (ln_run m)
                    (ln_last_attempt_at m) (ln_clock m))), m))
       in m\<lparr> ln_state := report env (ln_clock m) due (ln_state m) \<rparr>)"
    unfolding loop_pass_def d_def l1_def st_def now_def Let_def by simp
  show ?thesis
  proof (cases "d = Scan \<and> \<not> pe_in_progress env")
    case True
    have "loop_ok ((attempt env (sc_settings st) now l1)\<lparr> ln_clock := now + pe_took env \<rparr>)"
      by (rule attempt_ok [OF l1 same(1) _ _ sane]) (use True in \<open>auto simp: d_def\<close>)
    from rep [OF this] show ?thesis using True by (simp add: eq Let_def)
  next
    case False
    then show ?thesis using rep [OF l1] by (auto simp: eq Let_def)
  qed
qed

lemma run_loop_ok: "loop_ok l \<Longrightarrow> loop_ok (run_loop envs l)"
  unfolding run_loop_def by (induction envs arbitrary: l) (simp_all add: loop_pass_ok)

lemma start_ok: "loop_ok (start_loop (new_state s))"
  by (simp add: loop_ok_def start_loop_def new_state_def sanitized_sane last_attempt_def Let_def)

text \<open>The game is not walked too often or too early, whatever the settings stored, the game, the clock and the
  other threads do: two attempts are at least 90 seconds apart, and at least a quarter of an hour once a run of
  the game has been scanned or has had its six prompt attempts; and no attempt is made within a minute of the run
  being seen.\<close>

lemma attempts_are_spaced:
  "let log = ln_log (run_loop envs (start_loop (new_state s))) in paced log \<and> list_all settled_in log"
  using run_loop_ok [OF start_ok] by (simp add: loop_ok_def Let_def)


section \<open>A running game is scanned\<close>

definition quiet :: "u32 \<Rightarrow> pass_env \<Rightarrow> bool" where
  "quiet p env \<longleftrightarrow> pe_between env = [] \<and> pe_pid env = Some p \<and> \<not> pe_in_progress env"

definition awaiting :: "u32 \<Rightarrow> scan_loop \<Rightarrow> bool" where
  "awaiting p l \<longleftrightarrow> as_enabled (sc_settings (ln_state l)) \<and> \<not> sc_held (ln_state l)
     \<and> (\<exists>r. ln_run l = Some r \<and> rn_pid r = p)"

lemma decide_due:
  assumes "awaiting p l" and "sane (sc_settings (ln_state l))" and "ln_run l = Some r"
    and "rn_detected_at r + FIRST_SCAN_DELAY \<le> now" and "\<forall>at. ln_last_attempt_at l = Some at \<longrightarrow> at + 3600000 \<le> now"
  shows "decide (tick_at (sc_settings (ln_state l)) (sc_held (ln_state l)) (Some p) (ln_run l) (ln_last_attempt_at l) now) = Scan"
proof -
  have "unat (as_cadence_minutes (sc_settings (ln_state l))) * 60 * 1000 \<le> 3600000"
    using sane_cadence [OF assms(2)] by simp
  then show ?thesis using assms
    by (auto simp: decide_def tick_at_def wait_or_scan_def awaiting_def PROMPT_RETRY_def Let_def split: option.split)
qed

text \<open>A pass that begins no scan only moves the clock and reports.\<close>

lemma quiet_pass:
  assumes q: "quiet p env" and none: "ln_begun (loop_pass env l) = ln_begun l"
  shows "ln_last_attempt_at (loop_pass env l) = ln_last_attempt_at l
    \<and> ln_run (loop_pass env l) = sighted (Some p) (ln_clock l + TICK + pe_overslept env) (ln_run l)
    \<and> ln_clock (loop_pass env l) = ln_clock l + TICK + pe_overslept env
    \<and> sc_settings (ln_state (loop_pass env l)) = sc_settings (ln_state l)
    \<and> sc_held (ln_state (loop_pass env l)) = sc_held (ln_state l)
    \<and> decide (tick_at (sc_settings (ln_state l)) (sc_held (ln_state l)) (Some p)
        (sighted (Some p) (ln_clock l + TICK + pe_overslept env) (ln_run l)) (ln_last_attempt_at l)
        (ln_clock l + TICK + pe_overslept env)) \<noteq> Scan"
proof -
  have begun: "ln_begun (attempt env s n m) = Suc (ln_begun m)" for s n and m :: scan_loop
    by (simp add: attempt_def Let_def split: scan_end.split)
  define now where "now = ln_clock l + TICK + pe_overslept env"
  define d where "d = decide (tick_at (sc_settings (ln_state l)) (sc_held (ln_state l)) (Some p)
        (sighted (Some p) now (ln_run l)) (ln_last_attempt_at l) now)"
  have "d \<noteq> Scan"
  proof
    assume "d = Scan"
    then have "ln_begun (loop_pass env l) = Suc (ln_begun l)"
      using q by (simp add: loop_pass_def quiet_def d_def now_def Let_def begun)
    with none show False by simp
  qed
  then show ?thesis
    using q by (simp add: loop_pass_def quiet_def d_def now_def Let_def report_def update_status_def)
qed

lemma begun_mono: "ln_begun l \<le> ln_begun (loop_pass env l)"
  by (simp add: loop_pass_def attempt_def Let_def split: scan_end.split)

lemma run_loop_mono: "ln_begun l \<le> ln_begun (run_loop envs l)"
  unfolding run_loop_def
proof (induction envs arbitrary: l)
  case (Cons env envs)
  then show ?case using begun_mono [of l env] Cons [of "loop_pass env l"] by (simp add: order_trans)
qed simp

lemma quiet_passes:
  assumes "list_all (quiet p) envs" and "ln_begun (run_loop envs l) = ln_begun l" and "awaiting p l" and "loop_ok l"
  shows "ln_last_attempt_at (run_loop envs l) = ln_last_attempt_at l \<and> ln_run (run_loop envs l) = ln_run l
    \<and> ln_clock l + length envs * TICK \<le> ln_clock (run_loop envs l) \<and> awaiting p (run_loop envs l)"
  using assms
proof (induction envs arbitrary: l)
  case (Cons env envs)
  let ?m = "loop_pass env l"
  have split: "run_loop (env # envs) l = run_loop envs ?m" by (simp add: run_loop_def)
  have none: "ln_begun ?m = ln_begun l"
    using Cons.prems(2) begun_mono [of l env] run_loop_mono [of ?m envs] unfolding split by linarith
  have q: "quiet p env" using Cons.prems(1) by simp
  note qp = quiet_pass [OF q none]
  have run: "ln_run ?m = ln_run l" using qp Cons.prems(3) by (auto simp: sighted_def awaiting_def)
  have aw: "awaiting p ?m" using qp run Cons.prems(3) by (simp add: awaiting_def)
  show ?case
    using Cons.IH [of ?m] Cons.prems none aw run qp loop_pass_ok [OF Cons.prems(4), of env] unfolding split by auto
qed (simp add: run_loop_def)

lemma begun_within:
  assumes ok: "loop_ok l" and len: "length envs = 122" and q: "list_all (quiet p) envs"
    and on: "as_enabled (sc_settings (ln_state l))" "\<not> sc_held (ln_state l)"
  shows "ln_begun l < ln_begun (run_loop envs l)"
proof (rule ccontr)
  assume "\<not> ln_begun l < ln_begun (run_loop envs l)"
  then have none: "ln_begun (run_loop envs l) = ln_begun l" using run_loop_mono [of l envs] by simp
  obtain e mid z where envs: "envs = e # mid @ [z]" and lm: "length mid = 120"
  proof -
    obtain e rest where er: "envs = e # rest" using len by (cases envs) auto
    then have "rest \<noteq> []" using len by auto
    then obtain mid z where "rest = mid @ [z]" using rev_exhaust by blast
    with er len that show ?thesis by simp
  qed
  let ?m = "loop_pass e l"
  let ?k = "run_loop mid ?m"
  have split: "run_loop envs l = loop_pass z ?k" by (simp add: run_loop_def envs)
  have n1: "ln_begun ?m = ln_begun l" and n2: "ln_begun ?k = ln_begun ?m" and n3: "ln_begun (loop_pass z ?k) = ln_begun ?k"
    using none begun_mono [of l e] run_loop_mono [of ?m mid] begun_mono [of ?k z] unfolding split by linarith+
  have qs: "quiet p e" "list_all (quiet p) mid" "quiet p z" using q envs by simp_all
  note first = quiet_pass [OF qs(1) n1]
  have ok1: "loop_ok ?m" using loop_pass_ok [OF ok] .
  have aw: "awaiting p ?m"
    using first on by (auto simp: awaiting_def sighted_def is_none_or_def split: option.splits)
  obtain r where r: "ln_run ?m = Some r" using aw by (auto simp: awaiting_def)
  note middle = quiet_passes [OF qs(2) n2 aw ok1]
  note final = quiet_pass [OF qs(3) n3]
  let ?now = "ln_clock ?k + TICK + pe_overslept z"
  have okk: "loop_ok ?k" by (rule run_loop_ok [OF ok1])
  have late: "ln_clock ?m + 120 * TICK + TICK \<le> ?now" using middle lm by simp
  have det: "rn_detected_at r \<le> ln_clock ?m" using ok1 r by (simp add: loop_ok_def)
  have at: "\<forall>at. ln_last_attempt_at ?m = Some at \<longrightarrow> at \<le> ln_clock ?m" using ok1 by (auto simp: loop_ok_def)
  have rk: "ln_run ?k = Some r" using middle r by simp
  have sight: "sighted (Some p) ?now (ln_run ?k) = ln_run ?k"
    using middle aw by (auto simp: sighted_def awaiting_def)
  have "decide (tick_at (sc_settings (ln_state ?k)) (sc_held (ln_state ?k)) (Some p) (ln_run ?k) (ln_last_attempt_at ?k) ?now) = Scan"
  proof (rule decide_due [OF _ _ rk])
    show "awaiting p ?k" using middle by simp
    show "sane (sc_settings (ln_state ?k))" using okk by (simp add: loop_ok_def)
    show "rn_detected_at r + FIRST_SCAN_DELAY \<le> ?now" using det late by (simp add: FIRST_SCAN_DELAY_def TICK_def)
    show "\<forall>at. ln_last_attempt_at ?k = Some at \<longrightarrow> at + 3600000 \<le> ?now"
    proof (intro allI impI)
      fix a assume "ln_last_attempt_at ?k = Some a"
      then have "a \<le> ln_clock ?m" using at middle by simp
      then show "a + 3600000 \<le> ?now" using late by (simp add: TICK_def)
    qed
  qed
  with final sight show False by simp
qed

text \<open>A running game is scanned: in any reachable state with the feature on and not held, however long ago and
  however badly earlier attempts went, 122 passes that find the game running and the scanner free begin a scan.\<close>

lemma running_game_is_scanned:
  assumes "l = run_loop earlier (start_loop (new_state s))"
    and "as_enabled (sc_settings (ln_state l))" and "\<not> sc_held (ln_state l)"
    and "length envs = 122" and "list_all (quiet p) envs"
  shows "ln_begun l < ln_begun (run_loop envs l)"
  using begun_within [OF _ assms(4,5,2,3)] run_loop_ok [OF start_ok] assms(1) by simp

definition demo_pass :: pass_env where
  "demo_pass = \<lparr> pe_between = [], pe_overslept = 0, pe_pid = Some 7, pe_in_progress = False, pe_end = Failed ''no login'',
     pe_took = 5, pe_during = [], pe_scan_unix = 0, pe_unix = 0 \<rparr>"

lemma running_game_is_scanned_witness:
  "0 < ln_begun (run_loop (replicate 122 demo_pass) (start_loop (new_state (default_settings\<lparr> as_enabled := True \<rparr>))))"
proof -
  let ?l = "start_loop (new_state (default_settings\<lparr> as_enabled := True \<rparr>))"
  have "ln_begun ?l < ln_begun (run_loop (replicate 122 demo_pass) ?l)"
    by (rule running_game_is_scanned [of ?l "[]" "default_settings\<lparr> as_enabled := True \<rparr>" _ 7])
      (simp_all add: run_loop_def start_loop_def new_state_def sanitized_def demo_pass_def quiet_def list_all_iff Let_def)
  then show ?thesis by (simp add: start_loop_def)
qed

end
