(* ===== verification/Presence.thy ===== *)
theory Presence
  imports Json Text
begin

text \<open>
  The user's status on warframe.market: the messages of its socket and what is read from it
  (\<open>wfm-trading/src/presence/mod.rs\<close>), and the app's decisions about it (\<open>Brain\<close>, \<open>GameWatch\<close> and the settings
  of \<open>services/wfm/presence.rs\<close>). An \<open>Instant\<close> is milliseconds of a monotonic clock. The socket and the parser
  of a frame's text are outside; the loop around the decisions is in the theory \<open>Presence_Loop\<close>.
\<close>

section \<open>The wire\<close>

definition MIN_DURATION_SECS :: u32 where "MIN_DURATION_SECS = 60"
definition MAX_DURATION_SECS :: u32 where "MAX_DURATION_SECS = 21600"

datatype presence = Online | Ingame | Invisible

fun wire :: "presence \<Rightarrow> string" where
  "wire Online = ''online''"
| "wire Ingame = ''ingame''"
| "wire Invisible = ''invisible''"

definition parse_presence :: "string \<Rightarrow> presence option" where
  "parse_presence s =
     (if s = ''online'' then Some Online
      else if s = ''ingame'' then Some Ingame
      else if s = ''invisible'' \<or> s = ''offline'' then Some Invisible
      else None)"

record rich_status =
  rh_status :: presence
  rh_set_at :: "string option"
  rh_until :: "string option"
  rh_revision :: "u64 option"

datatype presence_event =
    SignedIn string
  | SignInRefused string string
  | StatusSet string rich_status
  | StatusRefused string string
  | StatusChanged rich_status
  | Protected "string option" string
  | OtherEvent

definition sign_in_message :: "string \<Rightarrow> string \<Rightarrow> json" where
  "sign_in_message ident token =
     JObj [(''route'', JStr ''@wfm|cmd/auth/signIn''), (''id'', JStr ident), (''payload'', JObj [(''token'', JStr token)])]"

text \<open>\<open>Ord::clamp\<close>.\<close>

definition clamp :: "u32 \<Rightarrow> u32 \<Rightarrow> u32 \<Rightarrow> u32" where
  "clamp low high x = (if x < low then low else if high < x then high else x)"

definition set_status_message :: "string \<Rightarrow> presence \<Rightarrow> u32 option \<Rightarrow> json" where
  "set_status_message ident status duration =
     JObj [(''route'', JStr ''@wfm|cmd/status/set''), (''id'', JStr ident),
       (''payload'', JObj [(''status'', JStr (wire status)),
          (''duration'', case duration of
             None \<Rightarrow> JNull | Some secs \<Rightarrow> JPosInt (ucast (clamp MIN_DURATION_SECS MAX_DURATION_SECS secs)))])]"

definition rich_status_of :: "json option \<Rightarrow> json option \<Rightarrow> rich_status option" where
  "rich_status_of payload meta =
     Option.bind payload (\<lambda>p.
     Option.bind (jget p ''status'') (\<lambda>s. Option.bind (as_str s) (\<lambda>s. Option.bind (parse_presence s) (\<lambda>status.
       Some \<lparr> rh_status = status,
          rh_set_at = Option.bind (jget p ''statusSetAt'') as_str,
          rh_until = Option.bind (jget p ''statusUntil'') as_str,
          rh_revision = Option.bind meta (\<lambda>m. Option.bind (jget m ''revision'') as_u64) \<rparr>))))"

text \<open>\<open>join(\", \")\<close>.\<close>

fun comma_joined :: "string list \<Rightarrow> string" where
  "comma_joined [] = ''''"
| "comma_joined [s] = s"
| "comma_joined (s # ss) = s @ '', '' @ comma_joined ss"

definition reason_of :: "json option \<Rightarrow> string" where
  "reason_of payload =
     (case payload of
        Some (JStr code) \<Rightarrow> code
      | Some (JObj members) \<Rightarrow>
          comma_joined (map (\<lambda>(field, code). field @ '': '' @ unwrap_or (as_str code) ''invalid'') members)
      | _ \<Rightarrow> ''unknown'')"

definition set_answer :: "string \<Rightarrow> rich_status option \<Rightarrow> presence_event" where
  "set_answer ident read = (case read of Some status \<Rightarrow> StatusSet ident status | None \<Rightarrow> OtherEvent)"

definition changed_report :: "rich_status option \<Rightarrow> presence_event" where
  "changed_report read = (case read of Some status \<Rightarrow> StatusChanged status | None \<Rightarrow> OtherEvent)"

definition parse_presence_event :: "(string \<Rightarrow> json option) \<Rightarrow> string \<Rightarrow> presence_event" where
  "parse_presence_event parse frame =
     (case parse frame of
        None \<Rightarrow> OtherEvent
      | Some v \<Rightarrow>
          let route = unwrap_or (Option.bind (jget v ''route'') as_str) '''';
              ident = Option.bind (jget v ''id'') as_str;
              payload = jget v ''payload'';
              status = rich_status_of payload (jget v ''meta'')
          in if route = ''@wfm|event/status/set'' then changed_report status
             else if route = ''@wfm|protect/error'' then Protected ident (reason_of payload)
             else case ident of
               None \<Rightarrow> OtherEvent
             | Some i \<Rightarrow>
                 if route = ''@wfm|cmd/auth/signIn:ok'' then SignedIn i
                 else if route = ''@wfm|cmd/auth/signIn:error'' then SignInRefused i (reason_of payload)
                 else if route = ''@wfm|cmd/status/set:ok'' then set_answer i status
                 else if route = ''@wfm|cmd/status/set:error'' then StatusRefused i (reason_of payload)
                 else OtherEvent)"

section \<open>Settings\<close>

datatype presence_choice = ChooseOnline | ChooseIngame | ChooseInvisible

fun presence_of :: "presence_choice \<Rightarrow> presence" where
  "presence_of ChooseOnline = Online"
| "presence_of ChooseIngame = Ingame"
| "presence_of ChooseInvisible = Invisible"

fun choice_of :: "presence \<Rightarrow> presence_choice" where
  "choice_of Online = ChooseOnline"
| "choice_of Ingame = ChooseIngame"
| "choice_of Invisible = ChooseInvisible"

fun choice_label :: "presence_choice \<Rightarrow> string" where
  "choice_label ChooseOnline = ''Online''"
| "choice_label ChooseIngame = ''Online in game''"
| "choice_label ChooseInvisible = ''Invisible''"

definition KEEP_FOR_CHOICES :: "u32 list" where "KEEP_FOR_CHOICES = [30, 60, 120, 240]"
definition MANAGED_DURATION_SECS :: u32 where "MANAGED_DURATION_SECS = 600"
definition RENEW_EVERY :: nat where "RENEW_EVERY = 300000"

record presence_settings =
  pt_follow_game :: bool
  pt_when_closed :: presence_choice
  pt_keep_for_minutes :: "u32 option"

definition default_presence_settings :: presence_settings where
  "default_presence_settings = \<lparr> pt_follow_game = False, pt_when_closed = ChooseInvisible, pt_keep_for_minutes = None \<rparr>"

definition sanitized_presence :: "presence_settings \<Rightarrow> presence_settings" where
  "sanitized_presence s =
     \<lparr> pt_follow_game = pt_follow_game s,
       pt_when_closed = (case pt_when_closed s of ChooseIngame \<Rightarrow> ChooseInvisible | other \<Rightarrow> other),
       pt_keep_for_minutes = map_option (\<lambda>minutes.
         unwrap_or (min_by (\<lambda>choice. abs_diff choice minutes) KEEP_FOR_CHOICES) 60) (pt_keep_for_minutes s) \<rparr>"

definition load_presence_settings ::
  "(string \<Rightarrow> presence_settings option) \<Rightarrow> (string, string option) result \<Rightarrow> presence_settings" where
  "load_presence_settings parse stored =
     sanitized_presence
       (unwrap_or (case stored of Ok (Some raw) \<Rightarrow> parse raw | _ \<Rightarrow> None) default_presence_settings)"

definition save_presence_settings ::
  "(presence_settings \<Rightarrow> string) \<Rightarrow> (string \<Rightarrow> (string, unit) result) \<Rightarrow> presence_settings
   \<Rightarrow> (string, presence_settings) result" where
  "save_presence_settings print store s =
     (let s = sanitized_presence s in rbind (store (print s)) (\<lambda>_. Ok s))"

section \<open>Decisions\<close>

record status_change =
  sg_status :: presence
  sg_duration :: "u32 option"

record brain =
  br_settings :: presence_settings
  br_game_running :: bool
  br_follow_paused :: bool
  br_maintained :: "presence option"
  br_last_sent :: "nat option"

definition new_brain :: "presence_settings \<Rightarrow> brain" where
  "new_brain s = \<lparr> br_settings = s, br_game_running = False, br_follow_paused = False, br_maintained = None,
     br_last_sent = None \<rparr>"

definition following :: "brain \<Rightarrow> bool" where
  "following b \<longleftrightarrow> pt_follow_game (br_settings b) \<and> \<not> br_follow_paused b"

definition maintain :: "presence \<Rightarrow> nat \<Rightarrow> brain \<Rightarrow> status_change \<times> brain" where
  "maintain status now b =
     (\<lparr> sg_status = status, sg_duration = Some MANAGED_DURATION_SECS \<rparr>,
      b\<lparr> br_maintained := Some status, br_last_sent := Some now \<rparr>)"

definition let_go :: "presence \<Rightarrow> u32 option \<Rightarrow> brain \<Rightarrow> status_change \<times> brain" where
  "let_go status duration b =
     (\<lparr> sg_status = status, sg_duration = duration \<rparr>, b\<lparr> br_maintained := None, br_last_sent := None \<rparr>)"

text \<open>\<open>cond.then(|| ...)\<close> of a decision that sends and changes the brain.\<close>

definition send_when :: "bool \<Rightarrow> (brain \<Rightarrow> status_change \<times> brain) \<Rightarrow> brain \<Rightarrow> status_change option \<times> brain" where
  "send_when cond f b = (if cond then (case f b of (c, b) \<Rightarrow> (Some c, b)) else (None, b))"

definition brain_game :: "bool \<Rightarrow> nat \<Rightarrow> brain \<Rightarrow> status_change option \<times> brain" where
  "brain_game running now b =
     (if running = br_game_running b then (None, b)
      else let b = b\<lparr> br_game_running := running \<rparr>
           in if running
              then (let b = b\<lparr> br_follow_paused := False \<rparr> in send_when (following b) (maintain Ingame now) b)
              else send_when (following b)
                     (case pt_when_closed (br_settings b) of
                        ChooseOnline \<Rightarrow> maintain Online now
                      | _ \<Rightarrow> let_go Invisible None) b)"

definition manual :: "presence_choice \<Rightarrow> nat \<Rightarrow> brain \<Rightarrow> status_change \<times> brain" where
  "manual choice now b =
     (let b = (if pt_follow_game (br_settings b) then b\<lparr> br_follow_paused := True \<rparr> else b)
      in case choice of
           ChooseInvisible \<Rightarrow> let_go Invisible None b
         | _ \<Rightarrow> (case pt_keep_for_minutes (br_settings b) of
                   None \<Rightarrow> maintain (presence_of choice) now b
                 | Some minutes \<Rightarrow> let_go (presence_of choice) (Some (sat_mul minutes 60)) b))"

definition follow_now :: "nat \<Rightarrow> brain \<Rightarrow> status_change option \<times> brain" where
  "follow_now now b =
     (let b = b\<lparr> br_follow_paused := False \<rparr>
      in send_when (pt_follow_game (br_settings b) \<and> br_game_running b) (maintain Ingame now) b)"

definition settings_changed :: "presence_settings \<Rightarrow> nat \<Rightarrow> brain \<Rightarrow> status_change option \<times> brain" where
  "settings_changed s now b =
     (let was_following = following b;
          b = b\<lparr> br_settings := s \<rparr>;
          b = (if \<not> pt_follow_game s then b\<lparr> br_follow_paused := False \<rparr> else b)
      in send_when (\<not> was_following \<and> following b \<and> br_game_running b) (maintain Ingame now) b)"

definition stop_keeping :: "brain \<Rightarrow> brain" where
  "stop_keeping b = b\<lparr> br_maintained := None, br_last_sent := None \<rparr>"

definition external_change :: "brain \<Rightarrow> brain" where
  "external_change b =
     (let b = stop_keeping b in if pt_follow_game (br_settings b) then b\<lparr> br_follow_paused := True \<rparr> else b)"

definition change_refused :: "brain \<Rightarrow> brain" where
  "change_refused b = stop_keeping b"

definition due :: "nat \<Rightarrow> brain \<Rightarrow> status_change option \<times> brain" where
  "due now b =
     (case br_maintained b of
        None \<Rightarrow> (None, b)
      | Some status \<Rightarrow> send_when (is_none_or (br_last_sent b) (\<lambda>at. RENEW_EVERY \<le> now - at)) (maintain status now) b)"

definition reconnected :: "nat \<Rightarrow> brain \<Rightarrow> status_change option \<times> brain" where
  "reconnected now b =
     (case br_maintained b of None \<Rightarrow> (None, b) | Some status \<Rightarrow> send_when True (maintain status now) b)"

definition leaving :: "brain \<Rightarrow> status_change option \<times> brain" where
  "leaving b = send_when (br_maintained b \<noteq> None) (let_go Invisible None) b"

section \<open>Which game session is live\<close>

record game_watch =
  gw_ended_pid :: "u32 option"

definition watch_running :: "u32 option \<Rightarrow> game_watch \<Rightarrow> bool \<times> game_watch" where
  "watch_running pid g =
     (case pid of None \<Rightarrow> (False, g\<lparr> gw_ended_pid := None \<rparr>) | Some p \<Rightarrow> (gw_ended_pid g \<noteq> Some p, g))"

definition watch_ended :: "u32 option \<Rightarrow> game_watch \<Rightarrow> game_watch" where
  "watch_ended pid g = g\<lparr> gw_ended_pid := pid \<rparr>"

definition watch_logged_in :: "game_watch \<Rightarrow> game_watch" where
  "watch_logged_in g = g\<lparr> gw_ended_pid := None \<rparr>"

definition LOGGED_IN :: ustr where "LOGGED_IN = tx ''Sys [Info]: Logged in ''"
definition SHUTDOWN :: "ustr list" where "SHUTDOWN = [tx ''Main Shutdown Initiated'', tx ''Exiting main loop'']"

definition session_line :: "ustr \<Rightarrow> bool option" where
  "session_line line =
     (if contains LOGGED_IN line then Some True
      else if list_ex (\<lambda>marker. contains marker line) SHUTDOWN then Some False
      else None)"

end
