(* ===== verification/Command_Error.thy ===== *)
theory Command_Error
  imports Prelude
begin

text \<open>
  The typed error a desktop command returns to the webview (\<open>contracts/command_error.rs\<close>): a code and a message.
\<close>

datatype cmd_error = CmdError string string

fun cmd_code :: "cmd_error \<Rightarrow> string" where
  "cmd_code (CmdError code message) = code"

definition needs_login :: cmd_error where
  "needs_login = CmdError ''needs_login'' ''Log in to warframe.market to create or edit listings.''"

definition needs_unlock :: cmd_error where
  "needs_unlock = CmdError ''needs_unlock'' ''Enter your passphrase to unlock warframe.market listing.''"

definition bad_passphrase :: cmd_error where
  "bad_passphrase = CmdError ''bad_passphrase'' ''Wrong passphrase, or the login file was modified.''"

definition internal_error :: "string \<Rightarrow> cmd_error" where
  "internal_error message = CmdError ''internal'' message"

end
