(* ===== verification/Presence_Loop.thy ===== *)
theory Presence_Loop
  imports Presence Command_Error "HOL-Library.Multiset"
begin

text \<open>
  The thread that keeps the status channel (\<open>run\<close>, \<open>connected\<close> and the methods of \<open>Loop\<close> in
  \<open>services/wfm/presence.rs\<close>, with \<open>PresenceSocket\<close> of \<open>wfm-trading/src/presence/mod.rs\<close>). What the channel of
  commands, the process list, the session, the governor, the socket and the clock answer in one turn of a
  loop is a record; what the thread sends, answers and shows is the list \<open>lp_out\<close>. \<open>lp_asked\<close> and \<open>lp_prompts\<close>
  are history: the reply channels of the status commands taken, and how many times the user asked for
  something or a game session began.
\<close>

section \<open>State\<close>

definition GAME_CHECK :: nat where "GAME_CHECK = 15000"
definition REPLY_TIMEOUT :: nat where "REPLY_TIMEOUT = 10000"
definition BACKOFF_MIN :: nat where "BACKOFF_MIN = 15000"
definition BACKOFF_MAX :: nat where "BACKOFF_MAX = 15 * 60 * 1000"

datatype command =
    SetStatus presence_choice nat
  | FollowNow
  | NewSettings presence_settings
  | GameLine bool
  | Quit nat

datatype presence_problem = NotVerified | RefusedByServer | PausedAccess | Unreachable

record presence_status =
  pz_signed_in :: bool
  pz_connected :: bool
  pz_status :: "presence_choice option"
  pz_status_until :: "string option"
  pz_status_set_at :: "string option"
  pz_managed :: bool
  pz_following :: bool
  pz_follow_paused :: bool
  pz_game_running :: bool
  pz_problem :: "presence_problem option"
  pz_detail :: "string option"
  pz_settings :: presence_settings

definition new_presence_status :: "presence_settings \<Rightarrow> presence_status" where
  "new_presence_status s =
     \<lparr> pz_signed_in = False, pz_connected = False, pz_status = None, pz_status_until = None, pz_status_set_at = None,
       pz_managed = False, pz_following = False, pz_follow_paused = False, pz_game_running = False,
       pz_problem = None, pz_detail = None, pz_settings = s \<rparr>"

definition initial_status :: "presence_settings \<Rightarrow> presence_status" where
  "initial_status s = (new_presence_status s)\<lparr> pz_following := pt_follow_game s \<rparr>"

definition tray_label :: "presence_status \<Rightarrow> string" where
  "tray_label s =
     (if \<not> pz_signed_in s then ''Status: unlock TennoWorth to change''
      else if pz_problem s = Some NotVerified then ''Status: refused, account not verified''
      else case pz_status s of
        Some status \<Rightarrow>
          if pz_follow_paused s then ''Status: '' @ choice_label status @ [CHR 0x20, CHR 0xC2, CHR 0xB7] @ '' set by hand''
          else ''Status: '' @ choice_label status
      | None \<Rightarrow> ''Status: connecting'' @ [CHR 0xE2, CHR 0x80, CHR 0xA6])"

definition tray_view :: "presence_status \<Rightarrow> string \<times> presence_choice option \<times> bool \<times> bool \<times> bool" where
  "tray_view s = (tray_label s, pz_status s, pz_following s, pt_follow_game (pz_settings s), pz_connected s)"

datatype loop_out =
    Shown presence_status
  | TrayChanged
  | Answered nat "(cmd_error, unit) result"
  | Sent string nat status_change
  | Finished nat

record loop =
  lp_brain :: brain
  lp_game :: game_watch
  lp_last_game_check :: "nat option"
  lp_pending :: "(string \<times> nat \<times> nat option) list"
  lp_own_revision :: u64
  lp_quitting :: "nat option"
  lp_status :: presence_status
  lp_out :: "loop_out list"
  lp_asked :: "nat list"
  lp_prompts :: nat

definition emit_out :: "loop_out list \<Rightarrow> loop \<Rightarrow> loop" where
  "emit_out os lp = lp\<lparr> lp_out := lp_out lp @ os \<rparr>"

definition answer :: "nat option \<Rightarrow> (cmd_error, unit) result \<Rightarrow> loop \<Rightarrow> loop" where
  "answer reply res lp = (case reply of None \<Rightarrow> lp | Some r \<Rightarrow> emit_out [Answered r res] lp)"

definition publish :: "(presence_status \<Rightarrow> presence_status) \<Rightarrow> loop \<Rightarrow> loop" where
  "publish update lp =
     (let before = lp_status lp; b = lp_brain lp;
          after = (update before)\<lparr> pz_managed := br_maintained b \<noteq> None, pz_following := following b,
            pz_follow_paused := pt_follow_game (br_settings b) \<and> br_follow_paused b,
            pz_game_running := br_game_running b \<rparr>
      in emit_out ((if after \<noteq> before then [Shown after] else [])
                   @ (if tray_view after \<noteq> tray_view before then [TrayChanged] else [])) (lp\<lparr> lp_status := after \<rparr>))"

section \<open>Commands and the game\<close>

text \<open>A decision of the brain inside the loop.\<close>

definition decided :: "(brain \<Rightarrow> status_change option \<times> brain) \<Rightarrow> loop \<Rightarrow> status_change option \<times> loop" where
  "decided f lp = (let (c, b) = f (lp_brain lp) in (c, lp\<lparr> lp_brain := b \<rparr>))"

definition new_session :: "bool \<Rightarrow> loop \<Rightarrow> bool" where
  "new_session running lp \<longleftrightarrow> running \<and> \<not> br_game_running (lp_brain lp)"

definition game_is :: "bool \<Rightarrow> nat \<Rightarrow> loop \<Rightarrow> status_change option \<times> loop" where
  "game_is running now lp =
     decided (brain_game running now)
       (lp\<lparr> lp_prompts := lp_prompts lp + (if new_session running lp then 1 else 0) \<rparr>)"

definition check_game :: "nat \<Rightarrow> u32 option \<Rightarrow> loop \<Rightarrow> status_change option \<times> loop" where
  "check_game now pid lp =
     (if is_some_and (lp_last_game_check lp) (\<lambda>at. now - at < GAME_CHECK) then (None, lp)
      else let (running, g) = watch_running pid (lp_game lp)
           in game_is running now (lp\<lparr> lp_last_game_check := Some now, lp_game := g \<rparr>))"

definition game_line :: "bool \<Rightarrow> u32 option \<Rightarrow> nat \<Rightarrow> loop \<Rightarrow> status_change option \<times> loop" where
  "game_line started pid now lp =
     (let g = (if started then watch_logged_in (lp_game lp) else watch_ended pid (lp_game lp));
          (running, g) = watch_running pid g
      in game_is running now (lp\<lparr> lp_last_game_check := Some now, lp_game := g \<rparr>))"

type_synonym send_queue = "(status_change \<times> nat option) list"

definition queued :: "nat option \<Rightarrow> status_change option \<Rightarrow> send_queue" where
  "queued reply c = (case c of None \<Rightarrow> [] | Some c \<Rightarrow> [(c, reply)])"

definition prompted :: "loop \<Rightarrow> loop" where
  "prompted lp = lp\<lparr> lp_prompts := lp_prompts lp + 1 \<rparr>"

fun handle :: "nat \<Rightarrow> command \<times> u32 option \<Rightarrow> loop \<times> send_queue \<Rightarrow> loop \<times> send_queue" where
  "handle now (SetStatus choice reply, pid) (lp, q) =
     (let (c, b) = manual choice now (lp_brain lp)
      in (prompted lp\<lparr> lp_brain := b, lp_asked := lp_asked lp @ [reply] \<rparr>, q @ [(c, Some reply)]))"
| "handle now (FollowNow, pid) (lp, q) =
     (let (c, lp) = decided (follow_now now) (prompted lp) in (lp, q @ queued None c))"
| "handle now (NewSettings s, pid) (lp, q) =
     (let (c, lp) = decided (settings_changed s now) (prompted lp)
      in (publish (\<lambda>x. x\<lparr> pz_settings := s \<rparr>) lp, q @ queued None c))"
| "handle now (GameLine started, pid) (lp, q) =
     (let (c, lp) = game_line started pid now lp in (lp, q @ queued None c))"
| "handle now (Quit done, pid) (lp, q) =
     (let (c, lp) = decided leaving lp in (lp\<lparr> lp_quitting := Some done \<rparr>, q @ queued None c))"

section \<open>Events of the socket\<close>

text \<open>\<open>str::contains\<close> on the code's ASCII pattern.\<close>

definition detail_problem :: "string \<Rightarrow> presence_problem" where
  "detail_problem reason = (if contains (tx ''NotVerified'') (tx reason) then NotVerified else RefusedByServer)"

definition refusal_error :: "string \<Rightarrow> cmd_error" where
  "refusal_error reason =
     (case detail_problem reason of
        NotVerified \<Rightarrow> CmdError ''presence_not_verified''
          ''warframe.market refused the change: this account is not verified. Verify it on warframe.market, then try again.''
      | _ \<Rightarrow> CmdError ''presence_refused'' (''warframe.market refused the change ('' @ reason @ '').''))"

definition unavailable :: "string \<Rightarrow> (cmd_error, unit) result" where
  "unavailable message = Err (CmdError ''presence_unavailable'' message)"

definition apply_rich :: "rich_status \<Rightarrow> presence_status \<Rightarrow> presence_status" where
  "apply_rich rich s =
     s\<lparr> pz_status := Some (choice_of (rh_status rich)), pz_status_until := rh_until rich, pz_status_set_at := rh_set_at rich \<rparr>"

fun remove_first :: "('a \<Rightarrow> bool) \<Rightarrow> 'a list \<Rightarrow> 'a list" where
  "remove_first P [] = []"
| "remove_first P (x # xs) = (if P x then xs else x # remove_first P xs)"

definition reply_of :: "string \<times> nat \<times> nat option \<Rightarrow> nat option" where
  "reply_of entry = snd (snd entry)"

text \<open>The first pending command of this id leaves the list; the result is its reply channel, if it has one.\<close>

definition take_pending :: "string \<Rightarrow> loop \<Rightarrow> nat option \<times> loop" where
  "take_pending ident lp =
     (Option.bind (find (\<lambda>e. fst e = ident) (lp_pending lp)) reply_of,
      lp\<lparr> lp_pending := remove_first (\<lambda>e. fst e = ident) (lp_pending lp) \<rparr>)"

definition refused :: "string option \<Rightarrow> string \<Rightarrow> loop \<Rightarrow> loop" where
  "refused ident reason lp =
     (let lp = lp\<lparr> lp_brain := change_refused (lp_brain lp) \<rparr>;
          (reply, lp) = (case ident of None \<Rightarrow> (None, lp) | Some i \<Rightarrow> take_pending i lp)
      in publish (\<lambda>s. s\<lparr> pz_problem := Some (detail_problem reason), pz_detail := Some reason \<rparr>)
           (answer reply (Err (refusal_error reason)) lp))"

definition raise_revision :: "u64 option \<Rightarrow> loop \<Rightarrow> loop" where
  "raise_revision seen lp =
     (case seen of None \<Rightarrow> lp | Some r \<Rightarrow> lp\<lparr> lp_own_revision := max (lp_own_revision lp) r \<rparr>)"

fun on_event :: "presence_event \<Rightarrow> loop \<Rightarrow> loop" where
  "on_event (StatusSet ident status) lp =
     (let lp = raise_revision (rh_revision status) lp;
          (reply, lp) = take_pending ident lp
      in publish (\<lambda>s. (apply_rich status s)\<lparr> pz_problem := None, pz_detail := None \<rparr>) (answer reply (Ok ()) lp))"
| "on_event (StatusRefused ident reason) lp = refused (Some ident) reason lp"
| "on_event (Protected ident reason) lp = refused ident reason lp"
| "on_event (StatusChanged status) lp =
     (if \<not> is_none_or (rh_revision status) (\<lambda>r. lp_own_revision lp < r) then lp
      else let lp = (case rh_revision status of None \<Rightarrow> lp | Some r \<Rightarrow> lp\<lparr> lp_own_revision := r \<rparr>);
               lp = lp\<lparr> lp_brain := external_change (lp_brain lp) \<rparr>
           in publish (apply_rich status) lp)"
| "on_event (SignedIn ident) lp = lp"
| "on_event (SignInRefused ident reason) lp = lp"
| "on_event OtherEvent lp = lp"

definition dropped_message :: string where
  "dropped_message = ''The status channel dropped before warframe.market answered. Your status may not have changed.''"

definition timeout_error :: cmd_error where
  "timeout_error = CmdError ''presence_timeout''
     ''warframe.market did not answer in time. Your status may not have changed.''"

definition fail_pending :: "loop \<Rightarrow> loop" where
  "fail_pending lp =
     fold (\<lambda>e. answer (reply_of e) (unavailable dropped_message)) (lp_pending lp) (lp\<lparr> lp_pending := [] \<rparr>)"

definition still_waits :: "nat \<Rightarrow> string \<times> nat \<times> nat option \<Rightarrow> bool" where
  "still_waits now e \<longleftrightarrow> now - fst (snd e) < REPLY_TIMEOUT"

definition expire_pending :: "nat \<Rightarrow> loop \<Rightarrow> loop" where
  "expire_pending now lp =
     fold (\<lambda>e. answer (reply_of e) (Err timeout_error)) (filter (\<lambda>e. \<not> still_waits now e) (lp_pending lp))
       (lp\<lparr> lp_pending := filter (still_waits now) (lp_pending lp) \<rparr>)"

section \<open>The socket\<close>

text \<open>What a read of the socket gives, and what becomes of a status sent to it.\<close>

datatype socket_read = Quiet | Got presence_event | Gone

datatype send_end = NotAllowed | SendFailed | Taken

definition socket_id :: "u64 \<Rightarrow> string" where
  "socket_id n = ''tw-'' @ show_word n"

text \<open>\<open>PresenceSocket::connect\<close> after its sign-in message went out: the reads it gets before its deadline.\<close>

datatype sign_in_error = SignInDenied string | SignInUnavailable

fun await_sign_in :: "string \<Rightarrow> bool \<Rightarrow> socket_read list \<Rightarrow> (sign_in_error, rich_status option) result" where
  "await_sign_in ident signed_in [] = (if signed_in then Ok None else Err SignInUnavailable)"
| "await_sign_in ident signed_in (p # ps) =
     (case p of
        Gone \<Rightarrow> Err SignInUnavailable
      | Quiet \<Rightarrow> await_sign_in ident signed_in ps
      | Got event \<Rightarrow>
          (case event of
             SignedIn r \<Rightarrow> await_sign_in ident (signed_in \<or> r = ident) ps
           | SignInRefused r reason \<Rightarrow>
               if r = ident then Err (SignInDenied reason) else await_sign_in ident signed_in ps
           | Protected _ reason \<Rightarrow> Err (SignInDenied reason)
           | StatusChanged status \<Rightarrow> if signed_in then Ok (Some status) else await_sign_in ident signed_in ps
           | _ \<Rightarrow> await_sign_in ident signed_in ps))"

section \<open>Connected\<close>

record turn =
  tn_now :: nat
  tn_commands :: "(command \<times> u32 option) list"
  tn_pid :: "u32 option"
  tn_signed_out :: bool
  tn_paused :: bool
  tn_sends :: "nat \<Rightarrow> send_end"
  tn_poll :: socket_read
  tn_last_polls :: "socket_read list"
  tn_after :: nat

datatype ended = QuitEnd | SignedOutEnd | DroppedEnd

text \<open>What a send that did not go out leaves behind.\<close>

definition send_failed :: "turn \<Rightarrow> nat option \<Rightarrow> loop \<Rightarrow> loop" where
  "send_failed t reply lp =
     (let lp = answer reply (unavailable ''The status channel is not available right now.'')
                 (lp\<lparr> lp_brain := change_refused (lp_brain lp) \<rparr>)
      in if tn_paused t then publish (\<lambda>s. s\<lparr> pz_problem := Some PausedAccess \<rparr>) lp else lp)"

text \<open>\<open>for (send, reply) in queued.drain(..)\<close>; the number is the last id the socket gave out.\<close>

fun send_all :: "turn \<Rightarrow> nat \<Rightarrow> send_queue \<Rightarrow> loop \<times> u64 \<Rightarrow> loop \<times> u64" where
  "send_all t i [] (lp, n) = (lp, n)"
| "send_all t i ((c, reply) # q) (lp, n) =
     (case tn_sends t i of
        Taken \<Rightarrow>
          let ident = socket_id (n + 1)
          in send_all t (Suc i) q
               (emit_out [Sent ident (tn_now t) c] (lp\<lparr> lp_pending := lp_pending lp @ [(ident, tn_now t, reply)] \<rparr>), n + 1)
      | SendFailed \<Rightarrow> send_all t (Suc i) q (send_failed t reply lp, n + 1)
      | NotAllowed \<Rightarrow> send_all t (Suc i) q (send_failed t reply lp, n))"

text \<open>The wait for the last answers: quitting stops at the first quiet read, signing out does not.\<close>

fun last_words :: "bool \<Rightarrow> socket_read list \<Rightarrow> loop \<Rightarrow> loop" where
  "last_words patient [] lp = lp"
| "last_words patient (p # ps) lp =
     (if lp_pending lp = [] then lp
      else case p of
        Got event \<Rightarrow> last_words patient ps (on_event event lp)
      | Quiet \<Rightarrow> if patient then last_words patient ps lp else lp
      | Gone \<Rightarrow> lp)"

text \<open>What a turn decides: its commands, the game, the renewal, and letting go when signed out.\<close>

definition and_then :: "(loop \<Rightarrow> status_change option \<times> loop) \<Rightarrow> loop \<times> send_queue \<Rightarrow> loop \<times> send_queue" where
  "and_then f s = (case s of (lp, q) \<Rightarrow> let (c, lp) = f lp in (lp, q @ queued None c))"

definition decisions :: "turn \<Rightarrow> loop \<times> send_queue \<Rightarrow> loop \<times> send_queue" where
  "decisions t s =
     (let s = fold (handle (tn_now t)) (tn_commands t) s;
          s = and_then (check_game (tn_now t) (tn_pid t)) s;
          s = and_then (decided (due (tn_now t))) s
      in if tn_signed_out t then and_then (decided leaving) s else s)"

definition after_poll :: "turn \<Rightarrow> loop \<Rightarrow> loop \<times> ended option" where
  "after_poll t lp =
     (case tn_poll t of
        Gone \<Rightarrow> (fail_pending lp, Some DroppedEnd)
      | Got event \<Rightarrow> (expire_pending (tn_after t) (on_event event lp), None)
      | Quiet \<Rightarrow> (expire_pending (tn_after t) lp, None))"

definition closing :: "turn \<Rightarrow> loop \<Rightarrow> loop \<times> ended option" where
  "closing t lp =
     (case lp_quitting lp of
        Some done \<Rightarrow>
          (emit_out [Finished done] (last_words False (tn_last_polls t) (lp\<lparr> lp_quitting := None \<rparr>)), Some QuitEnd)
      | None \<Rightarrow>
          if tn_signed_out t then (last_words True (tn_last_polls t) lp, Some SignedOutEnd)
          else if tn_paused t
          then (publish (\<lambda>s. s\<lparr> pz_problem := Some PausedAccess \<rparr>) lp, Some SignedOutEnd)
          else after_poll t lp)"

definition connected_turn :: "turn \<Rightarrow> send_queue \<Rightarrow> loop \<times> u64 \<Rightarrow> (loop \<times> u64) \<times> ended option" where
  "connected_turn t q s =
     (let (lp, n) = s;
          (lp, q) = decisions t (lp, q);
          (lp, n) = send_all t 0 q (lp, n);
          (lp, stop) = closing t (publish id lp)
      in ((lp, n), stop))"

fun connected_turns :: "turn list \<Rightarrow> send_queue \<Rightarrow> loop \<times> u64 \<Rightarrow> (loop \<times> u64) \<times> ended option" where
  "connected_turns [] q s = (s, None)"
| "connected_turns (t # ts) q s =
     (case connected_turn t q s of
        (s, None) \<Rightarrow> connected_turns ts [] s
      | (s, Some e) \<Rightarrow> (s, Some e))"

text \<open>The sign-in took the socket's first id.\<close>

definition first_sends :: "nat \<Rightarrow> u32 option \<Rightarrow> loop \<Rightarrow> loop \<times> send_queue" where
  "first_sends now pid lp = and_then (check_game now pid) (and_then (decided (reconnected now)) (lp, []))"

definition connected :: "nat \<Rightarrow> u32 option \<Rightarrow> turn list \<Rightarrow> loop \<Rightarrow> (loop \<times> u64) \<times> ended option" where
  "connected now pid turns lp =
     (let (lp, q) = first_sends now pid lp in connected_turns turns q (lp, 1))"

section \<open>The outer loop\<close>

datatype received = Received command "u32 option" | TimedOut | Disconnected

record pass =
  ps_now :: nat
  ps_received :: received
  ps_pid :: "u32 option"
  ps_unlocked :: bool
  ps_generation :: u64
  ps_paused :: bool
  ps_try_at :: nat
  ps_connected_at :: nat
  ps_opened :: bool
  ps_sign_in :: "socket_read list"
  ps_start :: nat
  ps_start_pid :: "u32 option"
  ps_turns :: "turn list"
  ps_ended_at :: nat
  ps_jitter :: nat

record runner =
  rr_loop :: loop
  rr_backoff :: nat
  rr_retry_at :: "nat option"
  rr_refused_generation :: "u64 option"

datatype progress = Goes | Ends | Connected_still

definition new_runner :: "presence_settings \<Rightarrow> runner" where
  "new_runner s =
     \<lparr> rr_loop = \<lparr> lp_brain = new_brain s, lp_game = \<lparr> gw_ended_pid = None \<rparr>, lp_last_game_check = None, lp_pending = [],
          lp_own_revision = 0, lp_quitting = None,
          lp_status = initial_status s, lp_out = [], lp_asked = [],
          lp_prompts = 0 \<rparr>,
       rr_backoff = BACKOFF_MIN, rr_retry_at = None, rr_refused_generation = None \<rparr>"

text \<open>A turn without a socket: a command is answered, and what it would send goes nowhere.\<close>

definition turned_away :: "send_queue \<Rightarrow> loop \<Rightarrow> loop" where
  "turned_away q lp = fold (\<lambda>e. answer (snd e) (unavailable ''The status channel is not connected.'')) q lp"

definition offline_turn :: "pass \<Rightarrow> loop \<Rightarrow> loop" where
  "offline_turn p lp =
     (let (lp, q) = (case ps_received p of Received c pid \<Rightarrow> handle (ps_now p) (c, pid) (lp, []) | _ \<Rightarrow> (lp, []));
          lp = snd (check_game (ps_now p) (ps_pid p) lp)
      in turned_away q lp)"

definition offline_status :: "pass \<Rightarrow> presence_status \<Rightarrow> presence_status" where
  "offline_status p s =
     (let s = s\<lparr> pz_signed_in := ps_unlocked p, pz_connected := False \<rparr>
      in if \<not> ps_unlocked p
         then s\<lparr> pz_status := None, pz_status_until := None, pz_status_set_at := None, pz_problem := None, pz_detail := None \<rparr>
         else if ps_paused p then s\<lparr> pz_problem := Some PausedAccess \<rparr> else s)"

definition signed_in_status :: "rich_status option \<Rightarrow> presence_status \<Rightarrow> presence_status" where
  "signed_in_status current s =
     (let s = s\<lparr> pz_connected := True, pz_problem := None, pz_detail := None \<rparr>
      in case current of None \<Rightarrow> s | Some c \<Rightarrow> apply_rich c s)"

definition signed_in_loop :: "rich_status option \<Rightarrow> loop \<Rightarrow> loop" where
  "signed_in_loop current lp =
     raise_revision (Option.bind current rh_revision) (publish (signed_in_status current) lp)"

definition backed_off :: "nat \<Rightarrow> pass \<Rightarrow> runner \<Rightarrow> runner" where
  "backed_off at p r =
     r\<lparr> rr_loop := publish (\<lambda>s. s\<lparr> pz_problem := Some Unreachable \<rparr>) (rr_loop r),
        rr_retry_at := Some (at + rr_backoff r + ps_jitter p),
        rr_backoff := min (rr_backoff r * 2) BACKOFF_MAX \<rparr>"

definition disconnected :: "pass \<Rightarrow> ended option \<Rightarrow> loop \<Rightarrow> runner \<Rightarrow> runner \<times> progress" where
  "disconnected p stop lp r =
     (let closed = r\<lparr> rr_loop := publish (\<lambda>s. s\<lparr> pz_connected := False \<rparr>) lp \<rparr>
      in case stop of
           None \<Rightarrow> (r\<lparr> rr_loop := lp \<rparr>, Connected_still)
         | Some QuitEnd \<Rightarrow> (closed, Ends)
         | Some SignedOutEnd \<Rightarrow> (closed, Goes)
         | Some DroppedEnd \<Rightarrow>
             (backed_off (ps_ended_at p) p
                (if 300000 < ps_ended_at p - ps_connected_at p then closed\<lparr> rr_backoff := BACKOFF_MIN \<rparr> else closed), Goes))"

definition connect :: "pass \<Rightarrow> (sign_in_error, rich_status option) result" where
  "connect p = (if ps_opened p then await_sign_in (socket_id 1) False (ps_sign_in p) else Err SignInUnavailable)"

definition try_connection :: "pass \<Rightarrow> runner \<Rightarrow> runner \<times> progress" where
  "try_connection p r =
     (case connect p of
        Ok current \<Rightarrow>
          let r = r\<lparr> rr_backoff := BACKOFF_MIN, rr_retry_at := None, rr_loop := signed_in_loop current (rr_loop r) \<rparr>;
              ((lp, _), stop) = connected (ps_start p) (ps_start_pid p) (ps_turns p) (rr_loop r)
          in disconnected p stop lp r
      | Err (SignInDenied reason) \<Rightarrow>
          (r\<lparr> rr_refused_generation := Some (ps_generation p),
              rr_loop := publish (\<lambda>s. s\<lparr> pz_problem := Some (detail_problem reason), pz_detail := Some reason \<rparr>) (rr_loop r) \<rparr>,
           Goes)
      | Err SignInUnavailable \<Rightarrow> (backed_off (ps_ended_at p) p r, Goes))"

definition run_pass :: "pass \<Rightarrow> runner \<Rightarrow> runner \<times> progress" where
  "run_pass p r =
     (if ps_received p = Disconnected then (r, Ends)
      else let lp = offline_turn p (rr_loop r)
           in case lp_quitting lp of
                Some done \<Rightarrow> (r\<lparr> rr_loop := emit_out [Finished done] (lp\<lparr> lp_quitting := None \<rparr>) \<rparr>, Ends)
              | None \<Rightarrow>
                  let r = r\<lparr> rr_loop := publish (offline_status p) lp \<rparr>
                  in if \<not> ps_unlocked p \<or> ps_paused p \<or> rr_refused_generation r = Some (ps_generation p)
                        \<or> is_some_and (rr_retry_at r) (\<lambda>at. ps_try_at p < at)
                     then (r, Goes)
                     else try_connection p r)"

fun run_passes :: "pass list \<Rightarrow> runner \<Rightarrow> runner" where
  "run_passes [] r = r"
| "run_passes (p # ps) r =
     (case run_pass p r of (r, Goes) \<Rightarrow> run_passes ps r | (r, _) \<Rightarrow> r)"


section \<open>The shared state\<close>

text \<open>
  \<open>PresenceState::set\<close>: whether the thread took the command, and what it answered before the wait ran out, are
  inputs. \<open>PresenceState::game_line\<close>: the command a log line becomes.
\<close>

definition set_presence :: "presence_status \<Rightarrow> bool \<Rightarrow> (cmd_error, unit) result option \<Rightarrow> (cmd_error, unit) result" where
  "set_presence status taken reply =
     (if \<not> pz_signed_in status
      then Err (CmdError ''needs_unlock'' ''Enter your passphrase to unlock warframe.market listing.'')
      else if \<not> pz_connected status
      then unavailable ''The status channel is not connected yet. Try again in a moment.''
      else if \<not> taken then unavailable ''Status changes are not available in this session.''
      else case reply of Some res \<Rightarrow> res | None \<Rightarrow> Err timeout_error)"

definition game_line_command :: "ustr \<Rightarrow> command option" where
  "game_line_command line = map_option GameLine (session_line line)"


end
