(* ===== verification/Presence_Facts.thy ===== *)
theory Presence_Facts
  imports Presence_Loop
begin

text \<open>
  What holds of the status channel whatever the user, the game, the socket and the clock do: every status
  command is answered exactly once unless it still waits, nothing is sent whose duration could outlast its
  purpose, a change made elsewhere silences the app until the user or a new game session speaks, and what
  the app keeps up is renewed in time. The locale \<open>kept_decisions\<close> is what a property of the decisions
  must satisfy to hold of the whole thread.
\<close>

section \<open>What the thread sends and answers\<close>

fun sent_of :: "loop_out \<Rightarrow> status_change list" where
  "sent_of (Sent ident at c) = [c]"
| "sent_of _ = []"

fun answered_of :: "loop_out \<Rightarrow> nat list" where
  "answered_of (Answered r res) = [r]"
| "answered_of _ = []"

definition sent :: "loop \<Rightarrow> status_change list" where
  "sent lp = concat (map sent_of (lp_out lp))"

definition answered :: "loop \<Rightarrow> nat list" where
  "answered lp = concat (map answered_of (lp_out lp))"

definition replies :: "nat option list \<Rightarrow> nat list" where
  "replies rs = concat (map (\<lambda>r. case r of None \<Rightarrow> [] | Some x \<Rightarrow> [x]) rs)"

lemma replies_simps [simp]:
  "replies [] = []" "replies (None # rs) = replies rs" "replies (Some r # rs) = r # replies rs"
  "replies (xs @ ys) = replies xs @ replies ys"
  by (simp_all add: replies_def)

definition waiting_replies :: "loop \<Rightarrow> nat list" where
  "waiting_replies lp = replies (map reply_of (lp_pending lp))"

lemma loop_emit_simps [simp]:
  "lp_brain (emit_out os lp) = lp_brain lp" "lp_pending (emit_out os lp) = lp_pending lp"
  "lp_asked (emit_out os lp) = lp_asked lp" "lp_prompts (emit_out os lp) = lp_prompts lp"
  "lp_quitting (emit_out os lp) = lp_quitting lp" "lp_out (emit_out os lp) = lp_out lp @ os"
  "sent (emit_out os lp) = sent lp @ concat (map sent_of os)"
  "answered (emit_out os lp) = answered lp @ concat (map answered_of os)"
  by (simp_all add: emit_out_def sent_def answered_def)

lemma answer_simps [simp]:
  "lp_brain (answer reply res lp) = lp_brain lp" "lp_pending (answer reply res lp) = lp_pending lp"
  "lp_asked (answer reply res lp) = lp_asked lp" "lp_prompts (answer reply res lp) = lp_prompts lp"
  "lp_quitting (answer reply res lp) = lp_quitting lp"
  "sent (answer reply res lp) = sent lp" "answered (answer reply res lp) = answered lp @ replies [reply]"
  by (simp_all add: answer_def split: option.splits)

lemma publish_simps [simp]:
  "lp_brain (publish f lp) = lp_brain lp" "lp_pending (publish f lp) = lp_pending lp"
  "lp_asked (publish f lp) = lp_asked lp" "lp_prompts (publish f lp) = lp_prompts lp"
  "lp_quitting (publish f lp) = lp_quitting lp"
  "sent (publish f lp) = sent lp" "answered (publish f lp) = answered lp"
  by (simp_all add: publish_def Let_def emit_out_def sent_def answered_def)

text \<open>Updating a field keeps the rest.\<close>

lemma field_simps_lp [simp]:
  "sent (lp_brain_update f lp) = sent lp" "answered (lp_brain_update f lp) = answered lp"
  "sent (lp_pending_update f' lp) = sent lp" "answered (lp_pending_update f' lp) = answered lp"
  "sent (lp_quitting_update g lp) = sent lp" "answered (lp_quitting_update g lp) = answered lp"
  "sent (lp_own_revision_update h lp) = sent lp" "answered (lp_own_revision_update h lp) = answered lp"
  "sent (lp_game_update i lp) = sent lp" "answered (lp_game_update i lp) = answered lp"
  "sent (lp_last_game_check_update j lp) = sent lp" "answered (lp_last_game_check_update j lp) = answered lp"
  "sent (lp_asked_update k lp) = sent lp" "answered (lp_asked_update k lp) = answered lp"
  "sent (lp_prompts_update m lp) = sent lp" "answered (lp_prompts_update m lp) = answered lp"
  by (simp_all add: sent_def answered_def)

section \<open>Every command is answered once\<close>

definition all_accounted :: "loop \<Rightarrow> send_queue \<Rightarrow> bool" where
  "all_accounted lp q \<longleftrightarrow> mset (lp_asked lp) = mset (answered lp) + mset (waiting_replies lp) + mset (replies (map snd q))"

lemma queued_replies [simp]: "replies (map snd (queued None c)) = []"
  by (simp add: queued_def split: option.splits)

lemma decided_simps [simp]:
  "lp_pending (snd (decided f lp)) = lp_pending lp" "lp_asked (snd (decided f lp)) = lp_asked lp"
  "answered (snd (decided f lp)) = answered lp" "sent (snd (decided f lp)) = sent lp"
  "lp_prompts (snd (decided f lp)) = lp_prompts lp" "lp_quitting (snd (decided f lp)) = lp_quitting lp"
  "fst (decided f lp) = fst (f (lp_brain lp))" "lp_brain (snd (decided f lp)) = snd (f (lp_brain lp))"
  by (simp_all add: decided_def split: prod.splits)

definition quiet_step :: "(loop \<Rightarrow> status_change option \<times> loop) \<Rightarrow> bool" where
  "quiet_step f \<longleftrightarrow> (\<forall>lp. lp_pending (snd (f lp)) = lp_pending lp \<and> lp_asked (snd (f lp)) = lp_asked lp
     \<and> answered (snd (f lp)) = answered lp \<and> sent (snd (f lp)) = sent lp)"

lemma quiet_decided: "quiet_step (decided f)"
  by (simp add: quiet_step_def)

lemma quiet_game_is: "quiet_step (game_is running now)"
  by (simp add: quiet_step_def game_is_def)

lemma quiet_check_game: "quiet_step (check_game now pid)"
  using quiet_game_is by (simp add: quiet_step_def check_game_def split: prod.splits)

lemma quiet_game_line: "quiet_step (game_line started pid now)"
  using quiet_game_is by (simp add: quiet_step_def game_line_def Let_def split: prod.splits)

lemma accounted_quiet:
  "quiet_step f \<Longrightarrow> all_accounted lp q \<Longrightarrow> f lp = (c, lp') \<Longrightarrow> all_accounted lp' (q @ queued None c)"
  by (auto simp: quiet_step_def all_accounted_def waiting_replies_def dest: spec [of _ lp])

lemma accounted_and_then: "quiet_step f \<Longrightarrow> all_accounted (fst s) (snd s) \<Longrightarrow> case_prod all_accounted (and_then f s)"
  by (auto simp: and_then_def Let_def dest: accounted_quiet split: prod.splits)

lemma accounted_handle:
  assumes ok: "all_accounted lp q"
  shows "case_prod all_accounted (handle now c (lp, q))"
proof (cases c)
  case (Pair cmd pid)
  have ok': "all_accounted (prompted lp) q"
    using ok by (simp add: all_accounted_def prompted_def waiting_replies_def)
  show ?thesis
  proof (cases cmd)
    case (SetStatus choice reply)
    then show ?thesis
      using ok Pair by (simp add: all_accounted_def waiting_replies_def prompted_def split: prod.splits)
  next
    case FollowNow
    then show ?thesis
      using Pair accounted_quiet [OF quiet_decided ok'] by (auto split: prod.splits)
  next
    case (NewSettings s)
    then show ?thesis
      using Pair accounted_quiet [OF quiet_decided ok']
      by (auto simp: all_accounted_def waiting_replies_def split: prod.splits)
  next
    case (GameLine started)
    then show ?thesis
      using Pair accounted_quiet [OF quiet_game_line ok] by (auto split: prod.splits)
  next
    case (Quit d)
    then show ?thesis
      using Pair accounted_quiet [OF quiet_decided ok]
      by (auto simp: all_accounted_def waiting_replies_def split: prod.splits)
  qed
qed

lemma remove_first_replies:
  "mset (replies (map reply_of es)) =
   mset (replies [Option.bind (find P es) reply_of]) + mset (replies (map reply_of (remove_first P es)))"
proof (induction es)
  case (Cons e es)
  then show ?case by (cases "reply_of e") auto
qed simp

lemma answer_all_simps [simp]:
  "lp_brain (fold (\<lambda>e. answer (f e) res) es lp) = lp_brain lp"
  "lp_pending (fold (\<lambda>e. answer (f e) res) es lp) = lp_pending lp"
  "lp_asked (fold (\<lambda>e. answer (f e) res) es lp) = lp_asked lp"
  "lp_prompts (fold (\<lambda>e. answer (f e) res) es lp) = lp_prompts lp"
  "lp_quitting (fold (\<lambda>e. answer (f e) res) es lp) = lp_quitting lp"
  "sent (fold (\<lambda>e. answer (f e) res) es lp) = sent lp"
  "answered (fold (\<lambda>e. answer (f e) res) es lp) = answered lp @ replies (map f es)"
proof (induction es arbitrary: lp)
  case (Cons e es)
  case 7
  have "replies (map f (e # es)) = replies [f e] @ replies (map f es)" by (cases "f e") simp_all
  then show ?case using Cons(7) [of "answer (f e) res lp"] by simp
qed simp_all

lemma take_pending_simps [simp]:
  "lp_brain (snd (take_pending i lp)) = lp_brain lp" "lp_asked (snd (take_pending i lp)) = lp_asked lp"
  "lp_prompts (snd (take_pending i lp)) = lp_prompts lp" "lp_quitting (snd (take_pending i lp)) = lp_quitting lp"
  "sent (snd (take_pending i lp)) = sent lp" "answered (snd (take_pending i lp)) = answered lp"
  by (simp_all add: take_pending_def)

lemma accounted_taken:
  "all_accounted lp q \<Longrightarrow> take_pending i lp = (reply, lp') \<Longrightarrow> all_accounted (answer reply res lp') q"
  using remove_first_replies [of "lp_pending lp" "\<lambda>e. fst e = i"]
  by (auto simp: all_accounted_def waiting_replies_def take_pending_def)

lemma accounted_frame [simp]:
  "all_accounted (publish f lp) q = all_accounted lp q"
  "all_accounted (lp_brain_update g lp) q = all_accounted lp q"
  "all_accounted (lp_own_revision_update h lp) q = all_accounted lp q"
  "all_accounted (lp_quitting_update k lp) q = all_accounted lp q"
  "all_accounted (emit_out [Finished d] lp) q = all_accounted lp q"
  by (simp_all add: all_accounted_def waiting_replies_def)

lemma accounted_raise [simp]: "all_accounted (raise_revision r lp) q = all_accounted lp q"
  by (simp add: raise_revision_def split: option.split)

lemma accounted_refused: "all_accounted lp q \<Longrightarrow> all_accounted (refused ident reason lp) q"
proof (cases ident)
  case None
  assume "all_accounted lp q"
  then show ?thesis using None by (simp add: refused_def answer_def)
next
  case (Some i)
  assume "all_accounted lp q"
  then have "all_accounted (lp\<lparr> lp_brain := change_refused (lp_brain lp) \<rparr>) q" by simp
  from accounted_taken [OF this] show ?thesis
    using Some by (auto simp: refused_def Let_def split: prod.splits)
qed

lemma accounted_event: "all_accounted lp q \<Longrightarrow> all_accounted (on_event event lp) q"
proof (cases event)
  case (StatusSet i status)
  assume "all_accounted lp q"
  then have "all_accounted (raise_revision (rh_revision status) lp) q" by simp
  from accounted_taken [OF this] show ?thesis
    using StatusSet by (auto simp: Let_def split: prod.splits)
qed (auto simp: accounted_refused Let_def split: option.splits)

lemma accounted_answer_all:
  assumes "all_accounted lp q" and "mset (lp_pending lp) = mset es + mset kept"
  shows "all_accounted (fold (\<lambda>e. answer (reply_of e) res) es (lp\<lparr> lp_pending := kept \<rparr>)) q"
proof -
  have "mset (replies (map reply_of xs)) = (\<Sum>e\<in>#mset xs. mset (replies [reply_of e]))" for xs
  proof (induction xs)
    case (Cons x xs)
    then show ?case by (cases "reply_of x") simp_all
  qed simp
  with assms show ?thesis by (simp add: all_accounted_def waiting_replies_def)
qed

lemma accounted_fail: "all_accounted lp q \<Longrightarrow> all_accounted (fail_pending lp) q"
  unfolding fail_pending_def by (rule accounted_answer_all) auto

lemma accounted_expire: "all_accounted lp q \<Longrightarrow> all_accounted (expire_pending now lp) q"
  unfolding expire_pending_def by (rule accounted_answer_all) (auto simp: mset_filter multiset_partition)

lemma accounted_send_failed: "all_accounted lp ((c, reply) # q) \<Longrightarrow> all_accounted (send_failed t reply lp) q"
  by (cases reply) (auto simp: send_failed_def Let_def all_accounted_def waiting_replies_def)

lemma accounted_send_all:
  "all_accounted lp q \<Longrightarrow> send_all t i q (lp, n) = (lp', n') \<Longrightarrow> all_accounted lp' []"
proof (induction q arbitrary: i lp n)
  case (Cons x q)
  obtain c reply where x: "x = (c, reply)" by (cases x)
  have failed: "all_accounted (send_failed t reply lp) q" by (rule accounted_send_failed) (use Cons(2) x in simp)
  show ?case
  proof (cases "tn_sends t i")
    case Taken
    let ?lp = "emit_out [Sent (socket_id (n + 1)) (tn_now t) c]
      (lp\<lparr> lp_pending := lp_pending lp @ [(socket_id (n + 1), tn_now t, reply)] \<rparr>)"
    have "all_accounted ?lp q"
      using Cons(2) x by (cases reply) (simp_all add: all_accounted_def waiting_replies_def reply_of_def)
    from Cons(1) [OF this] show ?thesis using Cons(3) Taken x by (simp add: Let_def)
  qed (use Cons(3) Cons(1) [OF failed] x in simp_all)
qed simp

lemma accounted_turned_away: "all_accounted lp q \<Longrightarrow> all_accounted (turned_away q lp) []"
  by (simp add: turned_away_def all_accounted_def waiting_replies_def)

section \<open>Invariants of the thread\<close>

text \<open>
  What a relation between the thread's state and the changes it has yet to send must satisfy to hold as long
  as the thread runs. \<open>C\<close> is what is known of the commands.
\<close>

locale thread_invariant =
  fixes I :: "loop \<Rightarrow> send_queue \<Rightarrow> bool"
    and C :: "command \<Rightarrow> bool"
  assumes handles: "C (fst c) \<Longrightarrow> I lp q \<Longrightarrow> case_prod I (handle now c (lp, q))"
    and checks: "I lp q \<Longrightarrow> case_prod I (and_then (check_game now pid) (lp, q))"
    and renews: "I lp q \<Longrightarrow> case_prod I (and_then (decided (due now)) (lp, q))"
    and reconnects: "I lp q \<Longrightarrow> case_prod I (and_then (decided (reconnected now)) (lp, q))"
    and leaves: "I lp q \<Longrightarrow> case_prod I (and_then (decided leaving) (lp, q))"
    and sends: "I lp q \<Longrightarrow> I (fst (send_all t i q (lp, n))) []"
    and forgets: "I lp q \<Longrightarrow> replies (map snd q) = [] \<Longrightarrow> I lp []"
    and turns_away: "I lp q \<Longrightarrow> I (turned_away q lp) []"
    and events: "I lp [] \<Longrightarrow> I (on_event event lp) []"
    and fails: "I lp [] \<Longrightarrow> I (fail_pending lp) []"
    and expires: "I lp [] \<Longrightarrow> I (expire_pending now lp) []"
    and shows_more: "I lp q \<Longrightarrow> I (publish f lp) q"
    and revises: "I lp q \<Longrightarrow> I (raise_revision r lp) q"
    and quits: "I lp q \<Longrightarrow> I (lp\<lparr> lp_quitting := d \<rparr>) q"
    and finishes: "I lp q \<Longrightarrow> I (emit_out [Finished d'] lp) q"
begin

lemma closing_keeps: "I lp [] \<Longrightarrow> I (fst (closing t lp)) []"
proof -
  have words: "I lp [] \<Longrightarrow> I (last_words patient ps lp) []" for patient ps lp
    by (induction patient ps lp rule: last_words.induct) (auto simp: events split: socket_read.split)
  show "I lp [] \<Longrightarrow> I (fst (closing t lp)) []"
    by (auto simp: closing_def after_poll_def words events fails expires shows_more quits finishes
        split: option.splits socket_read.splits)
qed

lemma decisions_keep:
  assumes "list_all (\<lambda>c. C (fst c)) (tn_commands t)" and "I lp q"
  shows "case_prod I (decisions t (lp, q))"
proof -
  have commands: "list_all (\<lambda>c. C (fst c)) cs \<Longrightarrow> I lp q \<Longrightarrow> case_prod I (fold (handle (tn_now t)) cs (lp, q))" for cs lp q
  proof (induction cs arbitrary: lp q)
    case (Cons c cs)
    obtain lp1 q1 where h: "handle (tn_now t) c (lp, q) = (lp1, q1)" by fastforce
    then show ?case using Cons handles [of c lp q "tn_now t"] by simp
  qed simp
  obtain lp1 q1 where c: "fold (handle (tn_now t)) (tn_commands t) (lp, q) = (lp1, q1)" by fastforce
  obtain lp2 q2 where g: "and_then (check_game (tn_now t) (tn_pid t)) (lp1, q1) = (lp2, q2)" by fastforce
  obtain lp3 q3 where d: "and_then (decided (due (tn_now t))) (lp2, q2) = (lp3, q3)" by fastforce
  have "I lp1 q1" using commands [OF assms] c by simp
  then have "I lp2 q2" using checks [of lp1 q1 "tn_now t" "tn_pid t"] g by simp
  then have "I lp3 q3" using renews [of lp2 q2 "tn_now t"] d by simp
  then show ?thesis using c g d leaves [of lp3 q3] by (simp add: decisions_def Let_def)
qed

lemma turn_keeps:
  assumes "list_all (\<lambda>c. C (fst c)) (tn_commands t)" and "I lp q"
  shows "I (fst (fst (connected_turn t q (lp, n)))) []"
proof -
  obtain lp1 q1 where d: "decisions t (lp, q) = (lp1, q1)" by fastforce
  obtain lp2 n2 where s: "send_all t 0 q1 (lp1, n) = (lp2, n2)" by fastforce
  have "I lp2 []" using decisions_keep [OF assms] d sends [of lp1 q1 t 0 n] s by simp
  then show ?thesis
    using closing_keeps [OF shows_more, of lp2 t id] d s
    by (cases "closing t (publish id lp2)") (simp add: connected_turn_def)
qed

lemma turns_keep:
  "list_all (\<lambda>t. list_all (\<lambda>c. C (fst c)) (tn_commands t)) ts \<Longrightarrow> I lp q \<Longrightarrow>
   I (fst (fst (connected_turns ts q (lp, n)))) (if ts = [] then q else [])"
proof (induction ts arbitrary: q lp n)
  case (Cons t ts)
  obtain lp1 n1 stop where t: "connected_turn t q (lp, n) = ((lp1, n1), stop)" by (metis prod.collapse)
  have ok: "I lp1 []" using turn_keeps [of t lp q n] Cons t by simp
  show ?case
  proof (cases stop)
    case None
    then show ?thesis using Cons(1) [OF _ ok] Cons(2) t by (simp split: if_splits)
  qed (use t ok in simp)
qed simp

lemma connected_keeps:
  assumes "list_all (\<lambda>t. list_all (\<lambda>c. C (fst c)) (tn_commands t)) ts" and "I lp []"
  shows "I (fst (fst (connected now pid ts lp))) []"
proof -
  obtain lp1 q1 where r: "and_then (decided (reconnected now)) (lp, []) = (lp1, q1)" by fastforce
  obtain lp2 q2 where g: "and_then (check_game now pid) (lp1, q1) = (lp2, q2)" by fastforce
  have "I lp1 q1" using reconnects [OF assms(2), of now] r by simp
  then have i2: "I lp2 q2" using checks [of lp1 q1 now pid] g by simp
  have "replies (map snd q2) = []"
    using r g by (auto simp: and_then_def Let_def split: prod.splits)
  with turns_keep [OF assms(1) i2, of 1] i2 show ?thesis
    using r g forgets [of lp2 q2] by (auto simp: connected_def first_sends_def Let_def split: if_splits)
qed

definition pass_ok :: "pass \<Rightarrow> bool" where
  "pass_ok p \<longleftrightarrow> list_all (\<lambda>t. list_all (\<lambda>c. C (fst c)) (tn_commands t)) (ps_turns p)
     \<and> (case ps_received p of Received c pid \<Rightarrow> C c | _ \<Rightarrow> True)"

lemma offline_keeps:
  assumes "pass_ok p" and "I lp []"
  shows "I (offline_turn p lp) []"
proof -
  obtain lp1 q1 where h: "(case ps_received p of Received c pid \<Rightarrow> handle (ps_now p) (c, pid) (lp, []) | _ \<Rightarrow> (lp, [])) = (lp1, q1)"
    by fastforce
  have i1: "I lp1 q1"
  proof (cases "ps_received p")
    case (Received c pid)
    then show ?thesis using handles [of "(c, pid)" lp "[]" "ps_now p"] assms h by (simp add: pass_ok_def)
  qed (use assms(2) h in simp_all)
  obtain c lp2 where g: "check_game (ps_now p) (ps_pid p) lp1 = (c, lp2)" by fastforce
  have "I lp2 (q1 @ queued None c)" using checks [OF i1, of "ps_now p" "ps_pid p"] g by (simp add: and_then_def)
  from turns_away [OF this] have "I (turned_away q1 lp2) []"
    by (simp add: turned_away_def queued_def answer_def split: option.splits)
  moreover have "offline_turn p lp = turned_away q1 lp2"
    using h g by (simp add: offline_turn_def)
  ultimately show ?thesis by simp
qed

lemma pass_keeps:
  assumes "pass_ok p" and "I (rr_loop r) []"
  shows "I (rr_loop (fst (run_pass p r))) []"
proof -
  note off = offline_keeps [OF assms]
  have signed: "I lp [] \<Longrightarrow> I (signed_in_loop c lp) []" for c lp
    by (simp add: signed_in_loop_def revises shows_more)
  have conn: "I (rr_loop r') [] \<Longrightarrow> I (rr_loop (fst (try_connection p r'))) []" for r'
  proof (cases "connect p")
    case (Inr current)
    assume "I (rr_loop r') []"
    from connected_keeps [OF _ signed [OF this, of current], of "ps_turns p" "ps_start p" "ps_start_pid p"] assms(1)
    show ?thesis using Inr
      by (auto simp: try_connection_def pass_ok_def disconnected_def backed_off_def Let_def shows_more
          split: prod.splits option.splits ended.splits)
  next
    case (Inl e)
    assume "I (rr_loop r') []"
    with Inl show ?thesis
      by (cases e) (simp_all add: try_connection_def backed_off_def shows_more)
  qed
  show ?thesis
    using assms(2) off conn by (auto simp: run_pass_def Let_def finishes quits shows_more split: option.split)
qed

lemma passes_keep: "list_all pass_ok ps \<Longrightarrow> I (rr_loop r) [] \<Longrightarrow> I (rr_loop (run_passes ps r)) []"
proof (induction ps arbitrary: r)
  case (Cons p ps)
  obtain r1 g where p: "run_pass p r = (r1, g)" by fastforce
  have "I (rr_loop r1) []" using pass_keeps [of p r] Cons p by simp
  then show ?case using Cons p by (cases g) simp_all
qed simp

end

lemma accounted_send: "all_accounted lp q \<Longrightarrow> all_accounted (fst (send_all t i q (lp, n))) []"
  by (cases "send_all t i q (lp, n)") (simp add: accounted_send_all)

interpretation replies: thread_invariant all_accounted "\<lambda>c. True"
proof unfold_locales
  fix lp q
  assume ok: "all_accounted lp q"
  show "case_prod all_accounted (handle now c (lp, q))" for now c by (rule accounted_handle [OF ok])
  show "case_prod all_accounted (and_then (check_game now pid) (lp, q))" for now pid
    by (rule accounted_and_then [OF quiet_check_game]) (simp add: ok)
  show "case_prod all_accounted (and_then (decided (due now)) (lp, q))"
    "case_prod all_accounted (and_then (decided (reconnected now)) (lp, q))"
    "case_prod all_accounted (and_then (decided leaving) (lp, q))" for now
    by (rule accounted_and_then [OF quiet_decided], simp add: ok)+
  show "replies (map snd q) = [] \<Longrightarrow> all_accounted lp []" using ok by (simp add: all_accounted_def)
qed (simp_all add: accounted_send accounted_turned_away accounted_event accounted_fail accounted_expire)

lemma accounted_start: "all_accounted (rr_loop (new_runner s)) []"
  by (simp add: all_accounted_def new_runner_def answered_def waiting_replies_def)

text \<open>C35: Every request for a status is answered exactly once, unless it still waits: whatever connects, drops, is
  refused, times out, signs out or quits, the reply channels answered so far and those of the sends still
  pending are together exactly those of the requests taken.\<close>

theorem requests_are_answered_once:
  "let lp = rr_loop (run_passes ps (new_runner s))
   in mset (lp_asked lp) = mset (answered lp) + mset (replies (map reply_of (lp_pending lp)))"
proof -
  have "list_all replies.pass_ok ps" by (simp add: list_all_iff replies.pass_ok_def split: received.split)
  from replies.passes_keep [OF this accounted_start] show ?thesis
    by (simp add: all_accounted_def waiting_replies_def Let_def)
qed

section \<open>What the decisions keep, the thread keeps\<close>

definition keeps :: "(brain \<Rightarrow> bool) \<Rightarrow> (status_change \<Rightarrow> bool) \<Rightarrow> status_change option \<times> brain \<Rightarrow> bool" where
  "keeps P Q x \<longleftrightarrow> P (snd x) \<and> pred_option Q (fst x)"

text \<open>
  \<open>P\<close> holds of the brain and \<open>Q\<close> of every change it sends. When not \<open>free\<close>, nothing is known of what it
  does when the user asks or a game session begins.
\<close>

locale kept_decisions =
  fixes P :: "brain \<Rightarrow> bool" and Q :: "status_change \<Rightarrow> bool" and C :: "command \<Rightarrow> bool"
    and free :: bool and base :: loop
  assumes picked: "free \<Longrightarrow> P b \<Longrightarrow> P (snd (manual choice now b)) \<and> Q (fst (manual choice now b))"
    and resumed: "free \<Longrightarrow> P b \<Longrightarrow> keeps P Q (follow_now now b)"
    and reset: "free \<Longrightarrow> C (NewSettings s) \<Longrightarrow> P b \<Longrightarrow> keeps P Q (settings_changed s now b)"
    and played: "free \<or> \<not> (running \<and> \<not> br_game_running b) \<Longrightarrow> P b \<Longrightarrow> keeps P Q (brain_game running now b)"
    and renewed: "P b \<Longrightarrow> keeps P Q (due now b)"
    and returned: "P b \<Longrightarrow> keeps P Q (reconnected now b)"
    and left: "P b \<Longrightarrow> keeps P Q (leaving b)"
    and elsewhere: "P b \<Longrightarrow> P (external_change b)"
    and stopped: "P b \<Longrightarrow> P (stop_keeping b)"
begin

definition held :: "loop \<Rightarrow> send_queue \<Rightarrow> bool" where
  "held lp q \<longleftrightarrow> lp_prompts base \<le> lp_prompts lp
     \<and> (free \<or> lp_prompts lp = lp_prompts base \<longrightarrow>
        P (lp_brain lp) \<and> (\<exists>new. sent lp = sent base @ new \<and> list_all Q new) \<and> list_all (\<lambda>e. Q (fst e)) q)"

lemma held_frame [simp]:
  "held (publish f lp) q = held lp q" "held (answer reply res lp) q = held lp q"
  "held (lp_pending_update g lp) q = held lp q" "held (lp_own_revision_update h lp) q = held lp q"
  "held (lp_quitting_update k lp) q = held lp q" "held (lp_game_update i lp) q = held lp q"
  "held (lp_last_game_check_update j lp) q = held lp q" "held (lp_asked_update l lp) q = held lp q"
  "held (emit_out [Finished d] lp) q = held lp q"
  "held (raise_revision r lp) q = held lp q" "held (snd (take_pending n lp)) q = held lp q"
  "held (fold (\<lambda>e. answer (f' e) res) es lp) q = held lp q"
  by (simp_all add: held_def raise_revision_def split: option.split)

lemma unprompted: "\<not> free \<Longrightarrow> lp_prompts base < lp_prompts lp \<Longrightarrow> held lp q"
  unfolding held_def by simp

lemma held_brain: "(P (lp_brain lp) \<Longrightarrow> P b) \<Longrightarrow> held lp q \<Longrightarrow> held (lp\<lparr> lp_brain := b \<rparr>) q"
  by (auto simp: held_def)

lemma held_event: "held lp q \<Longrightarrow> held (on_event event lp) q"
proof -
  have refuse: "held lp q \<Longrightarrow> held (refused ident reason lp) q" for ident reason
    using held_brain [of lp "change_refused (lp_brain lp)" q] stopped
    by (simp add: refused_def change_refused_def Let_def case_prod_beta split: option.split)
  have outside: "held lp q \<Longrightarrow> held (lp\<lparr> lp_brain := external_change (lp_brain lp) \<rparr>) q" for lp
    by (rule held_brain [OF elsewhere])
  show "held lp q \<Longrightarrow> held (on_event event lp) q"
    by (cases event) (auto simp: refuse outside Let_def case_prod_beta split: option.split)
qed

lemma held_decided:
  assumes "P (lp_brain lp) \<Longrightarrow> keeps P Q (f (lp_brain lp))" and "held lp q"
  shows "case_prod held (and_then (decided f) (lp, q))"
  using assms by (auto simp: held_def and_then_def decided_def keeps_def queued_def Let_def pred_option_def
      split: prod.splits option.splits)

lemma held_game_is:
  assumes "held lp q"
  shows "case_prod held (and_then (game_is running now) (lp, q))"
proof (cases "new_session running lp \<and> \<not> free")
  case True
  obtain c b where g: "brain_game running now (lp_brain lp) = (c, b)" by fastforce
  have "lp_prompts base < lp_prompts lp + 1" using assms by (simp add: held_def)
  then have "held (lp\<lparr> lp_prompts := lp_prompts lp + 1, lp_brain := b \<rparr>) (q @ queued None c)"
    using True by (intro unprompted) simp_all
  then show ?thesis using True g by (simp only: and_then_def game_is_def decided_def Let_def split: prod.split) simp
next
  case False
  let ?lp = "lp\<lparr> lp_prompts := lp_prompts lp + (if new_session running lp then 1 else 0) \<rparr>"
  have "held ?lp q" using assms False by (auto simp: held_def new_session_def)
  moreover have "P (lp_brain ?lp) \<Longrightarrow> keeps P Q (brain_game running now (lp_brain ?lp))"
    using False by (intro played) (auto simp: new_session_def)
  ultimately have "case_prod held (and_then (decided (brain_game running now)) (?lp, q))" by (intro held_decided)
  then show ?thesis by (simp add: and_then_def game_is_def)
qed

lemma held_check_game:
  assumes "held lp q"
  shows "case_prod held (and_then (check_game now pid) (lp, q))"
proof (cases "is_some_and (lp_last_game_check lp) (\<lambda>at. now - at < GAME_CHECK)")
  case True
  then show ?thesis using assms by (simp add: and_then_def check_game_def queued_def)
next
  case False
  obtain running g where w: "watch_running pid (lp_game lp) = (running, g)" by fastforce
  have "held (lp\<lparr> lp_last_game_check := Some now, lp_game := g \<rparr>) q" using assms by simp
  from held_game_is [OF this, of running now] show ?thesis
    using False w by (simp add: and_then_def check_game_def)
qed

lemma held_handle:
  assumes "C (fst c)" and "held lp q"
  shows "case_prod held (handle now c (lp, q))"
proof -
  obtain cmd pid where c: "c = (cmd, pid)" by (cases c)
  have unfree: "\<not> free \<Longrightarrow> lp_prompts lp < lp_prompts lp' \<Longrightarrow> held lp' q'" for lp' q'
    using assms(2) unprompted [of lp' q'] unfolding held_def by linarith
  have more: "free \<Longrightarrow> held (prompted lp) q" using assms(2) unfolding held_def prompted_def by simp
  show ?thesis
  proof (cases cmd)
    case (SetStatus choice reply)
    obtain x b where m: "manual choice now (lp_brain lp) = (x, b)" by fastforce
    show ?thesis
    proof (cases free)
      case True
      then have "P (lp_brain lp)" using assms(2) unfolding held_def by simp
      from picked [OF True this, of choice now] show ?thesis
        using more [OF True] True c SetStatus m unfolding held_def by (simp add: prompted_def)
    qed (use c SetStatus m unfree in \<open>simp add: prompted_def\<close>)
  next
    case FollowNow
    show ?thesis
    proof (cases free)
      case True
      then have "case_prod held (and_then (decided (follow_now now)) (prompted lp, q))"
        by (intro held_decided resumed more)
      then show ?thesis
        using c FollowNow by (simp add: and_then_def)
    qed (use c FollowNow unfree in \<open>simp add: prompted_def decided_def split: prod.split\<close>)
  next
    case (NewSettings s)
    show ?thesis
    proof (cases free)
      case True
      have "C (NewSettings s)" using assms(1) c NewSettings by simp
      then have "case_prod held (and_then (decided (settings_changed s now)) (prompted lp, q))"
        by (intro held_decided reset True more)
      then show ?thesis
        using c NewSettings by (auto simp: and_then_def split: prod.splits)
    qed (use c NewSettings unfree in \<open>simp add: prompted_def decided_def split: prod.split\<close>)
  next
    case (GameLine started)
    obtain running g where
      w: "watch_running pid (if started then watch_logged_in (lp_game lp) else watch_ended pid (lp_game lp)) = (running, g)"
      by fastforce
    have "held (lp\<lparr> lp_last_game_check := Some now, lp_game := g \<rparr>) q" using assms(2) by simp
    from held_game_is [OF this, of running now] show ?thesis
      using c GameLine w by (simp add: and_then_def game_line_def)
  next
    case (Quit d)
    then show ?thesis
      using c held_decided [of lp leaving q, OF left assms(2)] by (auto simp: and_then_def split: prod.splits)
  qed
qed

lemma held_failed: "held lp q \<Longrightarrow> held (send_failed t reply lp) q"
  using held_brain [of lp "change_refused (lp_brain lp)" q] stopped
  by (simp add: send_failed_def change_refused_def Let_def)

lemma held_send_all: "held lp q \<Longrightarrow> held (fst (send_all t i q (lp, n))) []"
proof (induction q arbitrary: i lp n)
  case (Cons x q)
  obtain c reply where x: "x = (c, reply)" by (cases x)
  have tl: "held lp q" using Cons(2) by (auto simp: held_def)
  show ?case
  proof (cases "tn_sends t i")
    case Taken
    have "held (emit_out [Sent ident at c] (lp\<lparr> lp_pending := ps \<rparr>)) q" for ident at ps
      using Cons(2) x by (auto simp: held_def)
    with Cons(1) Taken x show ?thesis by (simp add: Let_def)
  qed (use Cons(1) [OF held_failed [OF tl]] x in simp_all)
qed simp

end


sublocale kept_decisions \<subseteq> thread_invariant held C
proof unfold_locales
  fix lp q
  assume ok: "held lp q"
  show "C (fst c) \<Longrightarrow> case_prod held (handle now c (lp, q))" for c now by (rule held_handle [OF _ ok])
  show "case_prod held (and_then (check_game now pid) (lp, q))" for now pid by (rule held_check_game [OF ok])
  show "case_prod held (and_then (decided (due now)) (lp, q))" for now by (rule held_decided [OF renewed ok])
  show "case_prod held (and_then (decided (reconnected now)) (lp, q))" for now by (rule held_decided [OF returned ok])
  show "case_prod held (and_then (decided leaving) (lp, q))" by (rule held_decided [OF left ok])
  show "held lp []" using ok unfolding held_def by simp
  then show "held (turned_away q lp) []" by (simp add: turned_away_def)
qed (simp_all add: held_send_all held_event fail_pending_def expire_pending_def)

section \<open>Every status sent ends by itself, or ends the others\<close>

definition sane_presence :: "presence_settings \<Rightarrow> bool" where
  "sane_presence s \<longleftrightarrow> pt_when_closed s \<noteq> ChooseIngame \<and> is_none_or (pt_keep_for_minutes s) (\<lambda>m. m \<in> set KEEP_FOR_CHOICES)"

lemma sanitized_presence_sane: "sane_presence (sanitized_presence s)"
proof (cases "pt_keep_for_minutes s")
  case None
  then show ?thesis by (simp add: sane_presence_def sanitized_presence_def split: presence_choice.split)
next
  case (Some m)
  obtain c where c: "min_by (\<lambda>choice. abs_diff choice m) KEEP_FOR_CHOICES = Some c"
    using min_by_None [of "\<lambda>choice. abs_diff choice m" KEEP_FOR_CHOICES] by (auto simp: KEEP_FOR_CHOICES_def)
  from min_by_mem [OF this] show ?thesis
    using Some c by (simp add: sane_presence_def sanitized_presence_def split: presence_choice.split)
qed

text \<open>Settings reach the thread from storage or through \<open>save_presence_settings\<close>, both of which sanitize them.\<close>

fun saved_command :: "command \<Rightarrow> bool" where
  "saved_command (NewSettings s) \<longleftrightarrow> sanitized_presence s = s"
| "saved_command _ \<longleftrightarrow> True"

definition saved_pass :: "pass \<Rightarrow> bool" where
  "saved_pass p \<longleftrightarrow> list_all (\<lambda>t. list_all (\<lambda>c. saved_command (fst c)) (tn_commands t)) (ps_turns p)
     \<and> (case ps_received p of Received c pid \<Rightarrow> saved_command c | _ \<Rightarrow> True)"

text \<open>Invisible without a duration, or another status for at most four hours, which the server takes as it is.\<close>

definition lapses :: "status_change \<Rightarrow> bool" where
  "lapses c \<longleftrightarrow>
     (case sg_duration c of
        None \<Rightarrow> sg_status c = Invisible
      | Some d \<Rightarrow> sg_status c \<noteq> Invisible \<and> d \<le> 14400 \<and> clamp MIN_DURATION_SECS MAX_DURATION_SECS d = d)"

definition sane_brain :: "brain \<Rightarrow> bool" where
  "sane_brain b \<longleftrightarrow> sane_presence (br_settings b) \<and> br_maintained b \<noteq> Some Invisible"

lemmas brain_defs = brain_game_def manual_def follow_now_def settings_changed_def external_change_def stop_keeping_def
  due_def reconnected_def leaving_def send_when_def maintain_def let_go_def following_def

lemma managed_lapses: "s \<noteq> Invisible \<Longrightarrow> lapses \<lparr> sg_status = s, sg_duration = Some MANAGED_DURATION_SECS \<rparr>"
  by (simp add: lapses_def MANAGED_DURATION_SECS_def clamp_def MIN_DURATION_SECS_def MAX_DURATION_SECS_def)

lemma invisible_lapses: "lapses \<lparr> sg_status = Invisible, sg_duration = None \<rparr>"
  by (simp add: lapses_def)

lemma timed_lapses:
  "m \<in> set KEEP_FOR_CHOICES \<Longrightarrow> s \<noteq> Invisible \<Longrightarrow> lapses \<lparr> sg_status = s, sg_duration = Some (sat_mul m 60) \<rparr>"
  by (auto simp: KEEP_FOR_CHOICES_def lapses_def clamp_def MIN_DURATION_SECS_def MAX_DURATION_SECS_def sat_mul_def)

lemma manual_sane:
  assumes "sane_brain b"
  shows "sane_brain (snd (manual choice now b)) \<and> lapses (fst (manual choice now b))"
proof (cases "choice = ChooseInvisible")
  case True
  then show ?thesis using assms by (simp add: manual_def let_go_def sane_brain_def invisible_lapses Let_def)
next
  case False
  then have vis: "presence_of choice \<noteq> Invisible" by (cases choice) simp_all
  show ?thesis
  proof (cases "pt_keep_for_minutes (br_settings b)")
    case None
    then show ?thesis
      using assms False vis
      by (cases choice) (simp_all add: manual_def maintain_def sane_brain_def managed_lapses Let_def)
  next
    case (Some m)
    then have "m \<in> set KEEP_FOR_CHOICES" using assms by (simp add: sane_brain_def sane_presence_def)
    from timed_lapses [OF this vis] show ?thesis
      using assms False Some vis by (cases choice) (simp_all add: manual_def let_go_def sane_brain_def Let_def)
  qed
qed

interpretation durations: kept_decisions sane_brain lapses saved_command True base for base :: loop
proof unfold_locales
  fix b now
  assume b: "sane_brain b"
  show "sane_brain (snd (manual choice now b)) \<and> lapses (fst (manual choice now b))" for choice
    by (rule manual_sane [OF b])
  show "keeps sane_brain lapses (settings_changed s now b)" if "saved_command (NewSettings s)" for s
    using b that sanitized_presence_sane [of s]
    by (simp add: keeps_def brain_defs sane_brain_def managed_lapses Let_def)
  show "keeps sane_brain lapses (brain_game running now b)" for running
    using b by (auto simp: keeps_def brain_defs sane_brain_def managed_lapses invisible_lapses Let_def
        split: presence_choice.split)
qed (auto simp: keeps_def brain_defs sane_brain_def managed_lapses invisible_lapses Let_def split: option.splits)

text \<open>Whatever the app keeps up or sets lapses by itself: as long as settings reach the thread only through
  storage and saving, every status it ever sends is either Invisible without a duration or another status
  for at most four hours, and the server's bounds never change the duration it asked for.\<close>

lemma sent_statuses_lapse:
  assumes "list_all saved_pass ps"
  shows "list_all lapses (sent (rr_loop (run_passes ps (new_runner (load_presence_settings parse stored)))))"
proof -
  let ?r = "new_runner (load_presence_settings parse stored)"
  have "durations.pass_ok p = saved_pass p" for p by (simp add: durations.pass_ok_def saved_pass_def)
  then have ok: "list_all durations.pass_ok ps" using assms by (simp add: list_all_iff)
  have "sane_brain (lp_brain (rr_loop ?r))"
    by (simp add: new_runner_def new_brain_def sane_brain_def load_presence_settings_def sanitized_presence_sane)
  then have "durations.held (rr_loop ?r) (rr_loop ?r) []" by (simp add: durations.held_def)
  from durations.passes_keep [OF ok this]
  obtain new where "sent (rr_loop (run_passes ps ?r)) = sent (rr_loop ?r) @ new" "list_all lapses new"
    by (auto simp: durations.held_def)
  then show ?thesis by (simp add: new_runner_def sent_def)
qed


definition demo_turn :: turn where
  "demo_turn = \<lparr> tn_now = 1000, tn_commands = [(SetStatus ChooseOnline 7, None)], tn_pid = None, tn_signed_out = False,
     tn_paused = False, tn_sends = (\<lambda>_. Taken), tn_poll = Quiet, tn_last_polls = [], tn_after = 1100 \<rparr>"

definition idle_pass :: pass where
  "idle_pass = \<lparr> ps_now = 0, ps_received = TimedOut, ps_pid = None, ps_unlocked = False, ps_generation = 1, ps_paused = False,
     ps_try_at = 500, ps_connected_at = 500, ps_opened = True, ps_sign_in = [Got (SignedIn ''tw-1'')], ps_start = 600,
     ps_start_pid = None, ps_turns = [demo_turn], ps_ended_at = 2000, ps_jitter = 0 \<rparr>"

lemma sent_statuses_lapse_witness:
  "list_all lapses (sent (rr_loop (run_passes [idle_pass, idle_pass\<lparr> ps_unlocked := True \<rparr>]
     (new_runner (load_presence_settings (\<lambda>_. None) (Ok None))))))"
  by (rule sent_statuses_lapse) (simp add: saved_pass_def idle_pass_def demo_turn_def)

section \<open>A change made elsewhere wins\<close>

definition on_hold :: "brain \<Rightarrow> bool" where
  "on_hold b \<longleftrightarrow> br_maintained b = None \<and> (pt_follow_game (br_settings b) \<longrightarrow> br_follow_paused b)"

interpretation silence: kept_decisions on_hold "\<lambda>_. False" "\<lambda>_. True" False base for base :: loop
  by unfold_locales (auto simp: keeps_def brain_defs on_hold_def Let_def)

lemma list_all_False [simp]: "list_all (\<lambda>_. False) xs \<longleftrightarrow> xs = []"
  by (cases xs) simp_all

lemma hush:
  assumes "silence.held base (rr_loop r) []"
  shows "lp_prompts (rr_loop (run_passes ps r)) = lp_prompts base \<Longrightarrow>
    sent (rr_loop (run_passes ps r)) = sent base \<and> on_hold (lp_brain (rr_loop (run_passes ps r)))"
proof -
  have "list_all silence.pass_ok ps" by (simp add: list_all_iff silence.pass_ok_def split: received.split)
  from silence.passes_keep [OF this assms]
  show "lp_prompts (rr_loop (run_passes ps r)) = lp_prompts base \<Longrightarrow> ?thesis"
    by (simp add: silence.held_def)
qed

text \<open>Not so a change made while there was no socket: the status that the sign-in reports, however new, leaves what the app
  keeps up as it was, and the first thing sent on the new socket is that status again.\<close>

lemma status_at_sign_in_is_overridden:
  assumes "br_maintained (lp_brain lp) = Some kept"
  shows "let (lp', q) = first_sends now pid (signed_in_loop (Some status) lp)
    in q \<noteq> [] \<and> hd q = (\<lparr> sg_status = kept, sg_duration = Some MANAGED_DURATION_SECS \<rparr>, None)
       \<and> br_maintained (lp_brain (signed_in_loop (Some status) lp)) = Some kept"
  using assms
  by (simp add: first_sends_def and_then_def decided_def reconnected_def send_when_def maintain_def signed_in_loop_def
      raise_revision_def publish_def queued_def Let_def split: prod.splits option.splits)

text \<open>C34: A change made elsewhere that the open socket reports wins: once the server reports there a status newer than anything
  the app caused, the app keeps nothing up, and through every later turn, reconnection, renewal, game exit and sign-out it
  sends nothing at all until the user asks for something or a new game session begins. (A change that is first seen in the answer
  to a sign-in does not: see \<open>status_at_sign_in_is_overridden\<close>.)\<close>

theorem change_elsewhere_wins:
  assumes "is_none_or (rh_revision status) (\<lambda>r. lp_own_revision lp < r)"
    and "rr_loop r = fst (fst (connected_turns ts [] (expire_pending now (on_event (StatusChanged status) lp), n)))"
    and "lp_prompts (rr_loop (run_passes ps r)) = lp_prompts lp"
  shows "br_maintained (lp_brain (rr_loop (run_passes ps r))) = None \<and> sent (rr_loop (run_passes ps r)) = sent lp"
proof -
  let ?start = "expire_pending now (on_event (StatusChanged status) lp)"
  have "lp_prompts (on_event (StatusChanged status) lp) = lp_prompts lp"
    and same: "sent (on_event (StatusChanged status) lp) = sent lp"
    and "lp_brain (on_event (StatusChanged status) lp) = external_change (lp_brain lp)"
    using assms(1) by (simp_all add: Let_def split: option.split)
  then have "silence.held lp ?start []"
    by (simp add: silence.held_def expire_pending_def on_hold_def brain_defs Let_def)
  moreover have "list_all (\<lambda>t. list_all (\<lambda>c. True) (tn_commands t)) ts" by (simp add: list_all_iff)
  ultimately have "silence.held lp (rr_loop r) []"
    using silence.turns_keep [of ts lp ?start "[]" n] assms(2) by (simp split: if_splits)
  from hush [OF this assms(3)] show ?thesis by (simp add: on_hold_def)
qed

definition demo_status :: rich_status where
  "demo_status = \<lparr> rh_status = Invisible, rh_set_at = None, rh_until = None, rh_revision = Some 5 \<rparr>"

definition keeping :: runner where
  "keeping = (let r = new_runner (default_presence_settings\<lparr> pt_follow_game := True \<rparr>);
                  (c, lp) = game_is True 100 (rr_loop r)
              in r\<lparr> rr_loop := lp \<rparr>)"

theorem change_elsewhere_wins_witness:
  "br_maintained (lp_brain (rr_loop keeping)) = Some Ingame
   \<and> br_maintained (lp_brain (rr_loop (run_passes [idle_pass]
       (keeping\<lparr> rr_loop := expire_pending 200 (on_event (StatusChanged demo_status) (rr_loop keeping)) \<rparr>)))) = None"
proof -
  let ?r = "keeping\<lparr> rr_loop := expire_pending 200 (on_event (StatusChanged demo_status) (rr_loop keeping)) \<rparr>"
  have "br_maintained (lp_brain (rr_loop (run_passes [idle_pass] ?r))) = None
    \<and> sent (rr_loop (run_passes [idle_pass] ?r)) = sent (rr_loop keeping)"
    by (rule change_elsewhere_wins [of demo_status "rr_loop keeping" ?r "[]" 200 1])
      (simp_all add: demo_status_def keeping_def new_runner_def new_brain_def game_is_def decided_def brain_defs
        default_presence_settings_def new_session_def brain_game_def idle_pass_def run_pass_def offline_turn_def
        check_game_def watch_running_def turned_away_def expire_pending_def publish_def emit_out_def queued_def Let_def)
  then show ?thesis
    by (simp add: keeping_def new_runner_def new_brain_def game_is_def decided_def brain_defs
        default_presence_settings_def new_session_def brain_game_def Let_def)
qed


section \<open>What the app keeps up is renewed in time\<close>

definition managed :: "presence \<Rightarrow> status_change" where
  "managed s = \<lparr> sg_status = s, sg_duration = Some MANAGED_DURATION_SECS \<rparr>"

text \<open>A decision at \<open>now\<close> keeps what was kept up, drops it, or keeps a status up from now and sends it.\<close>

definition timely :: "nat \<Rightarrow> brain \<Rightarrow> status_change option \<times> brain \<Rightarrow> bool" where
  "timely now b x \<longleftrightarrow> br_maintained (snd x) = None
     \<or> br_maintained (snd x) = br_maintained b \<and> br_last_sent (snd x) = br_last_sent b
     \<or> (\<exists>s. br_maintained (snd x) = Some s \<and> br_last_sent (snd x) = Some now \<and> fst x = Some (managed s))"

lemma timely_decisions:
  "timely now b (follow_now now b)" "timely now b (settings_changed s now b)" "timely now b (brain_game running now b)"
  "timely now b (due now b)" "timely now b (reconnected now b)" "timely now b (leaving b)"
  "timely now b (map_prod Some id (manual choice now b))"
  by (auto simp: timely_def managed_def brain_defs Let_def split: option.split presence_choice.split)

text \<open>What is kept up was sent no earlier than the brain thinks, or is about to be.\<close>

definition sent_since :: "nat \<Rightarrow> status_change \<Rightarrow> loop \<Rightarrow> bool" where
  "sent_since t c lp \<longleftrightarrow> (\<exists>ident t'. Sent ident t' c \<in> set (lp_out lp) \<and> t \<le> t')"

definition backed :: "nat \<Rightarrow> loop \<Rightarrow> send_queue \<Rightarrow> bool" where
  "backed now lp q \<longleftrightarrow>
     (case br_maintained (lp_brain lp) of
        None \<Rightarrow> True
      | Some s \<Rightarrow> \<exists>t. br_last_sent (lp_brain lp) = Some t \<and> t \<le> now
          \<and> (list_ex (\<lambda>e. fst e = managed s) q \<or> sent_since t (managed s) lp))"

lemma sent_since_frame [simp]:
  "sent_since t c (lp_brain_update f lp) = sent_since t c lp" "sent_since t c (lp_pending_update g lp) = sent_since t c lp"
  "sent_since t c (lp_quitting_update h lp) = sent_since t c lp" "sent_since t c (lp_game_update i lp) = sent_since t c lp"
  "sent_since t c (lp_last_game_check_update j lp) = sent_since t c lp"
  "sent_since t c (lp_asked_update k lp) = sent_since t c lp" "sent_since t c (lp_prompts_update m lp) = sent_since t c lp"
  "sent_since t c (lp_own_revision_update r lp) = sent_since t c lp" "sent_since t c (lp_status_update v lp) = sent_since t c lp"
  by (simp_all add: sent_since_def)

lemma sent_since_emit: "sent_since t c lp \<Longrightarrow> sent_since t c (emit_out os lp)"
  by (auto simp: sent_since_def)

lemma backed_emit: "backed now lp q \<Longrightarrow> backed now (emit_out os lp) q"
  by (auto simp: backed_def sent_since_emit split: option.splits)

lemma backed_answer: "backed now lp q \<Longrightarrow> backed now (answer reply res lp) q"
  by (auto simp: answer_def backed_emit split: option.split)

lemma backed_publish: "backed now lp q \<Longrightarrow> backed now (publish f lp) q"
proof -
  assume "backed now lp q"
  then have "backed now (lp\<lparr> lp_status := x \<rparr>) q" for x by (simp add: backed_def cong: option.case_cong)
  then show ?thesis by (simp add: publish_def Let_def backed_emit)
qed

lemma backed_field [simp]:
  "backed now (lp_pending_update g lp) q = backed now lp q" "backed now (lp_quitting_update h lp) q = backed now lp q"
  "backed now (lp_game_update i lp) q = backed now lp q" "backed now (lp_last_game_check_update j lp) q = backed now lp q"
  "backed now (lp_asked_update k lp) q = backed now lp q" "backed now (lp_prompts_update m lp) q = backed now lp q"
  "backed now (lp_own_revision_update r lp) q = backed now lp q"
  by (simp_all add: backed_def cong: option.case_cong)

lemma backed_stop: "br_maintained b = None \<Longrightarrow> backed now (lp\<lparr> lp_brain := b \<rparr>) q"
  by (simp add: backed_def)

lemma backed_decided:
  assumes "timely now (lp_brain lp) x" and "backed now lp q"
  shows "backed now (lp\<lparr> lp_brain := snd x \<rparr>) (q @ (case fst x of None \<Rightarrow> [] | Some c \<Rightarrow> [(c, reply)]))"
  using assms by (auto simp: timely_def backed_def split: option.splits)

lemma backed_and_then:
  assumes "\<And>b. timely now b (f b)" and "backed now lp q"
  shows "case_prod (backed now) (and_then (decided f) (lp, q))"
proof -
  obtain c b where f: "f (lp_brain lp) = (c, b)" by fastforce
  from backed_decided [OF assms(1) assms(2), of None] show ?thesis
    by (simp add: and_then_def decided_def queued_def f)
qed

lemma backed_game_is:
  assumes "backed now lp q"
  shows "case_prod (backed now) (and_then (game_is running now) (lp, q))"
proof -
  have "case_prod (backed now) (and_then (decided (brain_game running now)) (lp\<lparr> lp_prompts := k \<rparr>, q))" for k
    by (rule backed_and_then) (use assms timely_decisions in simp_all)
  then show ?thesis by (simp add: and_then_def game_is_def)
qed

lemma backed_check_game:
  assumes "backed now lp q"
  shows "case_prod (backed now) (and_then (check_game now pid) (lp, q))"
proof (cases "is_some_and (lp_last_game_check lp) (\<lambda>at. now - at < GAME_CHECK)")
  case True
  then show ?thesis using assms by (simp add: and_then_def check_game_def queued_def)
next
  case False
  obtain running g where w: "watch_running pid (lp_game lp) = (running, g)" by fastforce
  have "case_prod (backed now) (and_then (game_is running now) (lp\<lparr> lp_last_game_check := Some now, lp_game := g \<rparr>, q))"
    by (rule backed_game_is) (use assms in simp)
  then show ?thesis using False w by (simp add: and_then_def check_game_def)
qed

lemma backed_handle:
  assumes "backed now lp q"
  shows "case_prod (backed now) (handle now c (lp, q))"
proof -
  obtain cmd pid where c: "c = (cmd, pid)" by (cases c)
  have more: "backed now (prompted lp) q" using assms by (simp add: prompted_def)
  show ?thesis
  proof (cases cmd)
    case (SetStatus choice reply)
    obtain x b where m: "manual choice now (lp_brain lp) = (x, b)" by fastforce
    have "timely now (lp_brain lp) (Some x, b)" using timely_decisions(7) [of now "lp_brain lp" choice] m by simp
    from backed_decided [OF this assms, of "Some reply"] show ?thesis
      using c SetStatus m by (simp add: prompted_def backed_def cong: option.case_cong)
  next
    case FollowNow
    have "case_prod (backed now) (and_then (decided (follow_now now)) (prompted lp, q))"
      by (rule backed_and_then) (simp_all add: timely_decisions more)
    then show ?thesis using c FollowNow by (simp add: and_then_def)
  next
    case (NewSettings s)
    have "case_prod (backed now) (and_then (decided (settings_changed s now)) (prompted lp, q))"
      by (rule backed_and_then) (simp_all add: timely_decisions more)
    then show ?thesis
      using c NewSettings by (auto simp: and_then_def backed_publish split: prod.splits)
  next
    case (GameLine started)
    obtain running g where
      w: "watch_running pid (if started then watch_logged_in (lp_game lp) else watch_ended pid (lp_game lp)) = (running, g)"
      by fastforce
    have "case_prod (backed now) (and_then (game_is running now) (lp\<lparr> lp_last_game_check := Some now, lp_game := g \<rparr>, q))"
      by (rule backed_game_is) (use assms in simp)
    then show ?thesis using c GameLine w by (simp add: and_then_def game_line_def)
  next
    case (Quit d)
    have "case_prod (backed now) (and_then (decided leaving) (lp, q))"
      by (rule backed_and_then) (simp_all add: timely_decisions assms)
    then show ?thesis using c Quit by (auto simp: and_then_def split: prod.splits)
  qed
qed


definition fresh :: "nat \<Rightarrow> loop \<Rightarrow> bool" where
  "fresh now lp \<longleftrightarrow> br_maintained (lp_brain lp) = None
     \<or> is_some_and (br_last_sent (lp_brain lp)) (\<lambda>t. now - t < RENEW_EVERY)"

lemma fresh_brain: "lp_brain lp' = lp_brain lp \<Longrightarrow> fresh now lp' = fresh now lp"
  by (simp add: fresh_def)

lemma due_fresh: "backed now lp q \<Longrightarrow> and_then (decided (due now)) (lp, q) = (lp', q') \<Longrightarrow> fresh now lp'"
  by (auto simp: and_then_def decided_def due_def send_when_def maintain_def fresh_def backed_def RENEW_EVERY_def Let_def
      split: prod.splits option.splits if_splits)

lemma leaving_fresh: "fresh now lp \<Longrightarrow> and_then (decided leaving) (lp, q) = (lp', q') \<Longrightarrow> fresh now lp'"
  by (auto simp: and_then_def decided_def leaving_def send_when_def let_go_def fresh_def Let_def split: prod.splits if_splits)

lemma stop_current: "br_maintained b = None \<Longrightarrow> backed now (lp\<lparr> lp_brain := b \<rparr>) q \<and> fresh now (lp\<lparr> lp_brain := b \<rparr>)"
  by (simp add: backed_stop fresh_def)

lemma failed_current: "backed now (send_failed t reply lp) q \<and> fresh now (send_failed t reply lp)"
proof -
  have "br_maintained (change_refused (lp_brain lp)) = None" by (simp add: change_refused_def stop_keeping_def)
  from stop_current [OF this, of now lp q] show ?thesis
    by (simp add: send_failed_def Let_def backed_publish backed_answer fresh_def)
qed

lemma send_all_current:
  "backed (tn_now t) lp q \<Longrightarrow> fresh (tn_now t) lp \<Longrightarrow> send_all t i q (lp, n) = (lp', n') \<Longrightarrow>
   backed (tn_now t) lp' [] \<and> fresh (tn_now t) lp'"
proof (induction q arbitrary: i lp n)
  case (Cons x q)
  obtain c reply where x: "x = (c, reply)" by (cases x)
  show ?case
  proof (cases "tn_sends t i")
    case Taken
    let ?lp = "emit_out [Sent (socket_id (n + 1)) (tn_now t) c]
      (lp\<lparr> lp_pending := lp_pending lp @ [(socket_id (n + 1), tn_now t, reply)] \<rparr>)"
    have "backed (tn_now t) ?lp q"
      using Cons(2) x by (auto simp: backed_def sent_since_def split: option.splits)
    moreover have "fresh (tn_now t) ?lp" using Cons(3) by (simp add: fresh_def)
    ultimately show ?thesis using Cons(1) [of ?lp "Suc i" "n + 1"] Cons(4) Taken x by (simp add: Let_def)
  qed (use Cons(1) [OF conjunct1 [OF failed_current] conjunct2 [OF failed_current]] Cons(4) x in simp_all)
qed simp

definition current :: "nat \<Rightarrow> loop \<Rightarrow> bool" where
  "current now lp \<longleftrightarrow> backed now lp [] \<and> fresh now lp"

lemma current_emit: "current now lp \<Longrightarrow> current now (emit_out os lp)"
  by (simp add: current_def backed_emit fresh_def)

lemma current_answer: "current now lp \<Longrightarrow> current now (answer reply res lp)"
  by (simp add: current_def backed_answer fresh_def)

lemma current_publish: "current now lp \<Longrightarrow> current now (publish f lp)"
  by (simp add: current_def backed_publish fresh_def)

lemma current_field [simp]:
  "current now (lp_pending_update g lp) = current now lp" "current now (lp_quitting_update h lp) = current now lp"
  "current now (lp_own_revision_update r lp) = current now lp"
  by (simp_all add: current_def fresh_def)

lemma current_stop: "br_maintained b = None \<Longrightarrow> current now (lp\<lparr> lp_brain := b \<rparr>)"
  using stop_current by (simp add: current_def)

lemma current_answers: "current now lp \<Longrightarrow> current now (fold (\<lambda>e. answer (f e) res) es lp)"
  by (induction es arbitrary: lp) (simp_all add: current_answer)

lemma current_event: "current now lp \<Longrightarrow> current now (on_event event lp)"
proof -
  assume ok: "current now lp"
  have refuse: "current now (refused ident reason lp)" for ident reason
    by (simp add: refused_def take_pending_def change_refused_def stop_keeping_def current_publish current_answer
        current_stop Let_def case_prod_beta split: option.split)
  have revise: "current now (raise_revision r lp)" for r using ok by (simp add: raise_revision_def split: option.split)
  have outside: "current now (lp'\<lparr> lp_brain := external_change b \<rparr>)" for lp' b
    by (rule current_stop) (simp add: external_change_def stop_keeping_def Let_def)
  show ?thesis
    using ok by (cases event) (auto simp: refuse outside revise take_pending_def current_publish current_answer Let_def)
qed

lemma current_closing: "current now lp \<Longrightarrow> current now (fst (closing t lp))"
proof -
  have words: "current now lp \<Longrightarrow> current now (last_words patient ps lp)" for patient ps lp
    by (induction patient ps lp rule: last_words.induct) (auto simp: current_event split: socket_read.split)
  show "current now lp \<Longrightarrow> current now (fst (closing t lp))"
    by (auto simp: closing_def after_poll_def words current_event fail_pending_def expire_pending_def current_answers
        current_publish current_emit split: option.splits socket_read.splits)
qed

lemma turn_current:
  assumes "backed now lp q" and "now \<le> tn_now t" and "connected_turn t q (lp, n) = ((lp', n'), stop)"
  shows "current (tn_now t) lp'"
proof -
  let ?now = "tn_now t"
  have start: "backed ?now lp q" using assms(1,2) by (auto simp: backed_def split: option.splits)
  have commands: "backed ?now lp q \<Longrightarrow> case_prod (backed ?now) (fold (handle ?now) cs (lp, q))" for cs lp q
  proof (induction cs arbitrary: lp q)
    case (Cons c cs)
    obtain lp1 q1 where h: "handle ?now c (lp, q) = (lp1, q1)" by fastforce
    then show ?case using Cons backed_handle [OF Cons(2), of c] by simp
  qed simp
  obtain lp1 q1 where c: "fold (handle ?now) (tn_commands t) (lp, q) = (lp1, q1)" by fastforce
  obtain lp2 q2 where g: "and_then (check_game ?now (tn_pid t)) (lp1, q1) = (lp2, q2)" by fastforce
  obtain lp3 q3 where d: "and_then (decided (due ?now)) (lp2, q2) = (lp3, q3)" by fastforce
  obtain lp4 q4 where l: "decisions t (lp, q) = (lp4, q4)" by fastforce
  obtain lp5 n5 where s: "send_all t 0 q4 (lp4, n) = (lp5, n5)" by fastforce
  have b1: "backed ?now lp1 q1" using commands [OF start, of "tn_commands t"] c by simp
  then have b2: "backed ?now lp2 q2" using backed_check_game [OF b1, of "tn_pid t"] g by simp
  then have b3: "backed ?now lp3 q3" using backed_and_then [of ?now "due ?now", OF timely_decisions(4) b2] d by simp
  have f3: "fresh ?now lp3" by (rule due_fresh [OF b2 d])
  have "backed ?now lp4 q4 \<and> fresh ?now lp4"
    using c g d l b3 f3 backed_and_then [of ?now leaving, OF timely_decisions(6) b3] leaving_fresh [OF f3]
    by (auto simp: decisions_def Let_def split: if_splits)
  with send_all_current [OF _ _ s] have "current ?now (publish id lp5)" by (simp add: current_def current_publish [unfolded current_def])
  from current_closing [OF this, of t] show ?thesis
    using assms(3) l s by (cases "closing t (publish id lp5)") (auto simp: connected_turn_def)
qed


lemma turns_current:
  "backed now lp q \<Longrightarrow> sorted (now # map tn_now ts) \<Longrightarrow> ts \<noteq> [] \<Longrightarrow>
   connected_turns ts q (lp, n) = ((lp', n'), None) \<Longrightarrow> current (tn_now (last ts)) lp'"
proof (induction ts arbitrary: now lp q n)
  case (Cons t ts)
  obtain lp1 n1 stop where t: "connected_turn t q (lp, n) = ((lp1, n1), stop)" by (metis prod.collapse)
  have ok: "current (tn_now t) lp1" using turn_current [OF Cons(2) _ t] Cons(3) by simp
  have go: "stop = None" using Cons(5) t by (cases stop) simp_all
  show ?case
  proof (cases "ts = []")
    case True
    then show ?thesis using ok Cons(5) t go by simp
  next
    case False
    have "sorted (tn_now t # map tn_now ts)" using Cons(3) by simp
    from Cons(1) [of "tn_now t" lp1 "[]" n1, OF _ this False] ok Cons(5) t go False show ?thesis
      by (simp add: current_def)
  qed
qed simp

text \<open>What the app keeps up stays up: while the channel is connected and the clock does not run back, after every
  turn the status the app keeps up was sent with its ten-minute duration less than five minutes before, so
  it never lapses as long as the next turn begins within five minutes.\<close>

lemma kept_status_is_renewed:
  assumes "connected now pid ts lp = ((lp', n), None)" and "ts \<noteq> []" and "sorted (now # map tn_now ts)"
    and "br_maintained (lp_brain lp') = Some s"
  shows "\<exists>ident t. Sent ident t \<lparr> sg_status = s, sg_duration = Some 600 \<rparr> \<in> set (lp_out lp')
    \<and> tn_now (last ts) < t + 300000"
proof -
  obtain lp1 q1 where r: "and_then (decided (reconnected now)) (lp, []) = (lp1, q1)" by fastforce
  obtain lp2 q2 where g: "and_then (check_game now pid) (lp1, q1) = (lp2, q2)" by fastforce
  have "backed now lp1 q1"
    using r by (auto simp: and_then_def decided_def reconnected_def send_when_def maintain_def backed_def managed_def
        queued_def split: option.splits)
  then have "backed now lp2 q2" using backed_check_game [of now lp1 q1 pid] g by simp
  moreover have "connected_turns ts q2 (lp2, 1) = ((lp', n), None)"
    using assms(1) r g by (simp add: connected_def first_sends_def)
  ultimately have "current (tn_now (last ts)) lp'" using turns_current [OF _ assms(3,2)] by blast
  then obtain t ident t' where "Sent ident t' (managed s) \<in> set (lp_out lp')" and "t \<le> t'"
    and "tn_now (last ts) - t < RENEW_EVERY"
    using assms(4) by (auto simp: current_def backed_def fresh_def sent_since_def)
  then have "Sent ident t' (managed s) \<in> set (lp_out lp') \<and> tn_now (last ts) < t' + 300000"
    by (simp add: RENEW_EVERY_def)
  then show ?thesis by (auto simp: managed_def MANAGED_DURATION_SECS_def)
qed

definition quiet_turn :: turn where
  "quiet_turn = demo_turn\<lparr> tn_commands := [], tn_pid := Some 9 \<rparr>"

lemma demo_connected:
  "snd (connected 150 (Some 9) [quiet_turn] (rr_loop keeping)) = None"
  "br_maintained (lp_brain (fst (fst (connected 150 (Some 9) [quiet_turn] (rr_loop keeping))))) = Some Ingame"
  by (simp_all add: quiet_turn_def demo_turn_def keeping_def new_runner_def new_brain_def game_is_def decided_def brain_defs
      default_presence_settings_def new_session_def brain_game_def connected_def first_sends_def and_then_def
      check_game_def watch_running_def connected_turn_def decisions_def queued_def closing_def after_poll_def
      expire_pending_def RENEW_EVERY_def Let_def)

lemma kept_status_is_renewed_witness:
  "\<exists>ident t. Sent ident t \<lparr> sg_status = Ingame, sg_duration = Some 600 \<rparr>
       \<in> set (lp_out (fst (fst (connected 150 (Some 9) [quiet_turn] (rr_loop keeping)))))
     \<and> tn_now (last [quiet_turn]) < t + 300000"
proof -
  obtain lp n stop where c: "connected 150 (Some 9) [quiet_turn] (rr_loop keeping) = ((lp, n), stop)"
    by (metis prod.collapse)
  with demo_connected have "stop = None" and m: "br_maintained (lp_brain lp) = Some Ingame" by simp_all
  have "sorted (150 # map tn_now [quiet_turn])" by (simp add: quiet_turn_def demo_turn_def)
  from kept_status_is_renewed [OF c [unfolded \<open>stop = None\<close>] _ this m] show ?thesis using c by simp
qed

section \<open>Two ways a turn goes wrong\<close>

text \<open>
  The shape of two flaws. A command still pending when the access policy closes the socket stays pending, and the
  next socket counts its ids from one again: the answer to a new command is then given to the old one. And
  a turn that takes \<open>Quit\<close> still looks for the game, so a session it sees begin is announced after the
  Invisible that was to be the last word.
\<close>

lemma stale_pending_takes_the_answer:
  assumes "lp_pending lp = [(socket_id 2, at, Some old)]"
  shows "lp_pending (fst (send_all demo_turn 0 [(c, Some new)] (lp, 1))) =
      [(socket_id 2, at, Some old), (socket_id 2, tn_now demo_turn, Some new)]"
    and "fst (take_pending (socket_id 2) (fst (send_all demo_turn 0 [(c, Some new)] (lp, 1)))) = Some old"
  using assms by (simp_all add: demo_turn_def take_pending_def reply_of_def Let_def)

lemma pause_keeps_pending:
  assumes "lp_quitting lp = None" and "\<not> tn_signed_out t" and "tn_paused t"
  shows "lp_pending (fst (closing t lp)) = lp_pending lp"
  using assms by (simp add: closing_def)

lemma quit_then_game:
  "map fst (snd (decisions (demo_turn\<lparr> tn_commands := [(Quit 3, None)], tn_pid := Some 9 \<rparr>)
     (rr_loop (new_runner (default_presence_settings\<lparr> pt_follow_game := True \<rparr>)), []))) = [managed Ingame]"
  by (simp add: decisions_def and_then_def demo_turn_def new_runner_def new_brain_def decided_def brain_defs managed_def
      default_presence_settings_def game_is_def new_session_def check_game_def watch_running_def queued_def
      RENEW_EVERY_def Let_def)

end
