(* ===== verification/Feed.thy ===== *)
theory Feed
  imports Text
begin

text \<open>
  The announcement feed that publishers and readers share (\<open>announcement-feed/src/lib.rs\<close>): what a valid feed is.
  Chrono's dates, the \<open>url\<close> crate, SHA-256 and the text of JSON are outside: they are the record \<open>outside\<close>, whose
  dates are of any type.
\<close>

section \<open>Data\<close>

record announcement =
  an_id :: ustr
  an_starts_at :: ustr
  an_ends_at :: ustr
  an_title :: ustr
  an_body :: ustr
  an_source_url :: ustr

record official_event =
  oe_id :: ustr
  oe_kind :: ustr
  oe_title :: ustr
  oe_starts_at :: ustr
  oe_ends_at :: "ustr option"
  oe_source_url :: ustr
  oe_note :: "ustr option"

record announcement_feed =
  fd_version :: u32
  fd_updated_at :: ustr
  fd_messages :: "announcement list"
  fd_events :: "official_event list option"

record url =
  ur_scheme :: ustr
  ur_username :: ustr
  ur_password :: "ustr option"
  ur_port :: "u16 option"
  ur_host :: "ustr option"

record ('d, 'c) outside =
  ou_read_date :: "ustr \<Rightarrow> 'd option"  \<comment> \<open>\<open>DateTime::parse_from_rfc3339\<close> and \<open>to_utc\<close>\<close>
  ou_write_date :: "'d \<Rightarrow> ustr"  \<comment> \<open>\<open>to_rfc3339_opts(SecondsFormat::Secs, true)\<close>\<close>
  ou_timestamp :: "'d \<Rightarrow> i64"
  ou_date_at :: "i64 \<Rightarrow> 'd option"  \<comment> \<open>\<open>DateTime::from_timestamp(now, 0)\<close>\<close>
  ou_url :: "ustr \<Rightarrow> url option"
  ou_text :: "announcement_feed \<Rightarrow> ustr"  \<comment> \<open>\<open>serde_json::to_string\<close>\<close>
  ou_feed :: "ustr \<Rightarrow> announcement_feed option"  \<comment> \<open>\<open>serde_json::from_str\<close>\<close>
  ou_digest :: "'c \<Rightarrow> ustr"  \<comment> \<open>the hexadecimal SHA-256 of a request's JSON\<close>

section \<open>Limits\<close>

text \<open>\<open>tests/fixtures/announcements/limits.json\<close>, which the crate includes.\<close>

record feed_limits =
  li_max_bytes :: nat
  li_max_messages :: nat
  li_max_id :: nat
  li_max_title :: nat
  li_max_body :: nat
  li_max_window_seconds :: i64
  li_source_hosts :: "ustr list"
  li_max_events :: nat
  li_max_event_note :: nat
  li_max_event_window_seconds :: i64
  li_event_kinds :: "ustr list"

definition the_limits :: feed_limits where
  "the_limits =
     \<lparr> li_max_bytes = 65536, li_max_messages = 10, li_max_id = 80, li_max_title = 120, li_max_body = 1600,
       li_max_window_seconds = 2678400,
       li_source_hosts = map tx [''warframe.com'', ''www.warframe.com'', ''forums.warframe.com'', ''wiki.warframe.com'',
         ''warframe.market'', ''tennoworth.app''],
       li_max_events = 30, li_max_event_note = 280, li_max_event_window_seconds = 10368000,
       li_event_kinds = map tx [''update'', ''devstream'', ''prime-access'', ''drops'', ''nightwave'', ''ducats'', ''event'',
         ''other''] \<rparr>"

section \<open>Validity\<close>

definition checked_sub :: "i64 \<Rightarrow> i64 \<Rightarrow> i64 option" where
  "checked_sub a b = (if i64_range (a - b) then Some (a - b) else None)"

definition stamp :: "('d, 'c) outside \<Rightarrow> ustr \<Rightarrow> i64 option" where
  "stamp ou raw =
     (if byte_len raw \<noteq> 20 then None
      else Option.bind (ou_read_date ou raw) (\<lambda>d.
        if ou_write_date ou d = raw then Some (ou_timestamp ou d) else None))"

definition misleading :: "int \<Rightarrow> bool" where
  "misleading c \<longleftrightarrow> is_control c \<and> c \<notin> {10, 13, 9} \<or> c \<in> {1564, 8206, 8207} \<or> 8234 \<le> c \<and> c \<le> 8238 \<or> 8294 \<le> c \<and> c \<le> 8297"

definition plain_text :: "ustr \<Rightarrow> nat \<Rightarrow> bool" where
  "plain_text raw max_len \<longleftrightarrow> trim raw \<noteq> [] \<and> length raw \<le> max_len \<and> \<not> list_ex misleading raw"

definition id_char :: "int \<Rightarrow> bool" where
  "id_char c \<longleftrightarrow> 97 \<le> c \<and> c \<le> 122 \<or> digit c \<or> c = 95 \<or> c = 45"

definition valid_id :: "ustr \<Rightarrow> feed_limits \<Rightarrow> bool" where
  "valid_id raw lim \<longleftrightarrow> plain_text raw (li_max_id lim) \<and> list_all id_char raw"

definition permitted_source :: "('d, 'c) outside \<Rightarrow> ustr \<Rightarrow> feed_limits \<Rightarrow> bool" where
  "permitted_source ou raw lim \<longleftrightarrow>
     is_some_and (ou_url ou raw) (\<lambda>u. ur_scheme u = tx ''https'' \<and> ur_username u = [] \<and> ur_password u = None
       \<and> ur_port u = None \<and> is_some_and (ur_host u) (\<lambda>h. h \<in> set (li_source_hosts lim)))"

definition source_allowed :: "('d, 'c) outside \<Rightarrow> ustr \<Rightarrow> bool" where
  "source_allowed ou raw = permitted_source ou raw the_limits"

definition valid_event :: "('d, 'c) outside \<Rightarrow> official_event \<Rightarrow> feed_limits \<Rightarrow> bool" where
  "valid_event ou e lim \<longleftrightarrow>
     (case stamp ou (oe_starts_at e) of
        None \<Rightarrow> False
      | Some start \<Rightarrow>
          valid_id (oe_id e) lim \<and> oe_kind e \<in> set (li_event_kinds lim) \<and> plain_text (oe_title e) (li_max_title lim)
          \<and> is_none_or (oe_ends_at e) (\<lambda>end_at.
              is_some_and (Option.bind (stamp ou end_at) (\<lambda>t. checked_sub t start))
                (\<lambda>window. 1 \<le> window \<and> window \<le> li_max_event_window_seconds lim))
          \<and> is_none_or (oe_note e) (\<lambda>note. plain_text note (li_max_event_note lim))
          \<and> permitted_source ou (oe_source_url e) lim)"

definition valid_message :: "('d, 'c) outside \<Rightarrow> announcement \<Rightarrow> feed_limits \<Rightarrow> bool" where
  "valid_message ou m lim \<longleftrightarrow>
     valid_id (an_id m) lim \<and> plain_text (an_title m) (li_max_title lim) \<and> plain_text (an_body m) (li_max_body lim)
     \<and> is_some_and (Option.bind (stamp ou (an_ends_at m)) (\<lambda>t. Option.bind (stamp ou (an_starts_at m)) (checked_sub t)))
         (\<lambda>window. 1 \<le> window \<and> window \<le> li_max_window_seconds lim)
     \<and> permitted_source ou (an_source_url m) lim"

definition valid_feed :: "('d, 'c) outside \<Rightarrow> announcement_feed \<Rightarrow> feed_limits \<Rightarrow> bool" where
  "valid_feed ou f lim \<longleftrightarrow>
     fd_version f = 1 \<and> stamp ou (fd_updated_at f) \<noteq> None \<and> length (fd_messages f) \<le> li_max_messages lim
     \<and> distinct (map an_id (fd_messages f)) \<and> list_all (\<lambda>m. valid_message ou m lim) (fd_messages f)
     \<and> is_none_or (fd_events f) (\<lambda>es. length es \<le> li_max_events lim \<and> distinct (map oe_id es)
         \<and> list_all (\<lambda>e. valid_event ou e lim) es)"

definition parse_feed :: "('d, 'c) outside \<Rightarrow> ustr \<Rightarrow> announcement_feed option" where
  "parse_feed ou raw =
     (if li_max_bytes the_limits < byte_len raw then None
      else opt_filter (\<lambda>f. valid_feed ou f the_limits) (ou_feed ou raw))"

definition validated_stamp :: "('d, 'c) outside \<Rightarrow> ustr \<Rightarrow> ustr option" where
  "validated_stamp ou raw = map_option fd_updated_at (parse_feed ou raw)"

section \<open>What a reader shows\<close>

text \<open>\<open>tennoworth-publisher/src/public.rs\<close>: how the served feed stands to the expected one.\<close>

datatype feed_state = Live | Behind | Different | Unreached

definition compare_feeds :: "('d, 'c) outside \<Rightarrow> ustr \<Rightarrow> ustr \<Rightarrow> feed_state" where
  "compare_feeds ou served expected =
     (case (stamp ou served, stamp ou expected) of
        (Some s, Some e) \<Rightarrow> if s = e then Live else if s < e then Behind else Different
      | _ \<Rightarrow> Different)"

end
