(* ===== verification/Publisher.thy ===== *)
theory Publisher
  imports Feed
begin

text \<open>
  The publication store (\<open>tennoworth-publisher/src/store.rs\<close>): drafts, published messages, official events, the
  history, the requests already done, and the exported feed file. The tables are lists in row order; which
  statement fails, what the file system does during an export and the random part of a new id are inputs.
  Stored JSON of a draft is the value it encodes; the feed is kept as its text, whose length has a limit.
\<close>

section \<open>Requests\<close>

text \<open>\<open>contracts.rs\<close>.\<close>

record content =
  ct_title :: ustr
  ct_body :: ustr
  ct_source_url :: ustr
  ct_starts_at :: ustr
  ct_ends_at :: ustr

definition message_of :: "content \<Rightarrow> ustr \<Rightarrow> announcement" where
  "message_of c ident =
     \<lparr> an_id = ident, an_starts_at = ct_starts_at c, an_ends_at = ct_ends_at c, an_title = ct_title c,
       an_body = ct_body c, an_source_url = ct_source_url c \<rparr>"

datatype operation = Save | Publish | Withdraw

record change =
  cg_request_id :: ustr
  cg_expected_revision :: i64
  cg_operation :: operation
  cg_id :: "ustr option"
  cg_content :: "content option"

record event_content =
  ec_kind :: ustr
  ec_title :: ustr
  ec_starts_at :: ustr
  ec_ends_at :: "ustr option"
  ec_source_url :: ustr
  ec_note :: "ustr option"

definition event_of :: "event_content \<Rightarrow> ustr \<Rightarrow> official_event" where
  "event_of c ident =
     \<lparr> oe_id = ident, oe_kind = ec_kind c, oe_title = ec_title c, oe_starts_at = ec_starts_at c, oe_ends_at = ec_ends_at c,
       oe_source_url = ec_source_url c, oe_note = opt_filter (\<lambda>note. trim note \<noteq> []) (ec_note c) \<rparr>"

datatype event_operation = PublishEvent | RemoveEvent

record event_change =
  ev_request_id :: ustr
  ev_expected_revision :: i64
  ev_operation :: event_operation
  ev_id :: "ustr option"
  ev_event :: "event_content option"

datatype request = ChangeRequest change | EventRequest event_change

type_synonym 'd world = "('d, request) outside"

section \<open>Tables\<close>

record message_row =
  ms_id :: ustr
  ms_draft :: content
  ms_published :: "content option"
  ms_ever_published :: bool

datatype history_content = OfMessage content | OfEvent event_content

record history_row =
  hs_revision :: i64
  hs_actor :: ustr
  hs_at :: ustr
  hs_operation :: string
  hs_message_id :: "ustr option"
  hs_content :: "history_content option"

record request_row =
  rq_request_id :: ustr
  rq_actor :: ustr
  rq_digest :: ustr
  rq_message_id :: ustr

record job_row =
  jb_job :: string
  jb_actor :: ustr
  jb_at :: i64

record publication =
  pb_revision :: i64
  pb_feed_revision :: i64
  pb_exported_revision :: i64
  pb_feed :: ustr
  pb_messages :: "message_row list"
  pb_history :: "history_row list"
  pb_requests :: "request_row list"
  pb_jobs :: "job_row list"

record store =
  st_db :: publication
  st_file :: "ustr option"

datatype store_error = Conflict | Invalid string | Unavailable

datatype pub_step = BeginChange | FindRequest | ReadState | NewId | FindMessage | WriteMessage | ReadMessage | WriteFeed
  | WriteRevision | WriteHistory | WriteRequest | CommitChange | ReadPending | ReadExport | MarkExported | WriteJob | ReadAll

type_synonym pub_faults = "pub_step \<Rightarrow> bool"

definition db_step :: "pub_faults \<Rightarrow> pub_step \<Rightarrow> (store_error, unit) result" where
  "db_step faults st = (if faults st then Err Unavailable else Ok ())"

section \<open>Helpers\<close>

definition utc :: "'d world \<Rightarrow> i64 \<Rightarrow> (store_error, ustr) result" where
  "utc ou now =
     ok_or (map_option (ou_write_date ou) (ou_date_at ou now)) (Invalid ''Date is outside the supported range.'')"

definition checked_inc :: "i64 \<Rightarrow> i64 option" where
  "checked_inc n = (if i64_range (n + 1) then Some (n + 1) else None)"

definition request_char :: "int \<Rightarrow> bool" where
  "request_char c \<longleftrightarrow> digit c \<or> 65 \<le> c \<and> c \<le> 90 \<or> 97 \<le> c \<and> c \<le> 122 \<or> c = 45"

definition check_request_id :: "ustr \<Rightarrow> (store_error, unit) result" where
  "check_request_id ident =
     (if byte_len ident < 16 \<or> 80 < byte_len ident \<or> \<not> list_all request_char ident
      then Err (Invalid ''Invalid request ID.'') else Ok ())"

definition EVENT_RETENTION :: i64 where "EVENT_RETENTION = 7 * 86400"

definition last_moment :: "official_event \<Rightarrow> ustr" where
  "last_moment e = unwrap_or (oe_ends_at e) (oe_starts_at e)"

definition prune_events :: "'d world \<Rightarrow> i64 \<Rightarrow> announcement_feed \<Rightarrow> announcement_feed" where
  "prune_events ou now f =
     f\<lparr> fd_events := map_option (filter (\<lambda>e.
         is_some_and (stamp ou (last_moment e)) (\<lambda>t. i64_wrap (now - EVENT_RETENTION) \<le> t))) (fd_events f) \<rparr>"

section \<open>Export\<close>

text \<open>How far an export gets: it fails before the rename, after it, or not at all.\<close>

datatype export_end = FailsBefore | FailsAfter | Succeeds

definition export_current :: "'d world \<Rightarrow> pub_faults \<Rightarrow> export_end \<Rightarrow> store \<Rightarrow> (store_error, unit) result \<times> store" where
  "export_current ou faults how st =
     (let db = st_db st; renamed = st\<lparr> st_file := Some (pb_feed db) \<rparr>
      in if faults ReadExport then (Err Unavailable, st)
         else if parse_feed ou (pb_feed db) = None then (Err Unavailable, st)
         else case how of
                FailsBefore \<Rightarrow> (Err Unavailable, st)
              | FailsAfter \<Rightarrow> (Err Unavailable, renamed)
              | Succeeds \<Rightarrow>
                  if faults MarkExported then (Err Unavailable, renamed)
                  else (Ok (), renamed\<lparr> st_db := db\<lparr> pb_exported_revision := pb_feed_revision db \<rparr> \<rparr>))"

definition retry_export :: "'d world \<Rightarrow> pub_faults \<Rightarrow> export_end \<Rightarrow> store \<Rightarrow> (store_error, unit) result \<times> store" where
  "retry_export ou faults how st =
     (if faults ReadPending then (Err Unavailable, st)
      else if pb_feed_revision (st_db st) \<noteq> pb_exported_revision (st_db st) then export_current ou faults how st
      else (Ok (), st))"

section \<open>Reading\<close>

record history_entry =
  he_row :: history_row
  he_content :: "content option"
  he_event :: "event_content option"

record snapshot =
  sn_revision :: i64
  sn_feed_revision :: i64
  sn_exported_revision :: i64
  sn_feed :: announcement_feed
  sn_messages :: "message_row list"
  sn_history :: "history_entry list"

definition is_event_row :: "history_row \<Rightarrow> bool" where
  "is_event_row h \<longleftrightarrow> take 6 (hs_operation h) = ''event-''"

definition history_entry_of :: "history_row \<Rightarrow> (store_error, history_entry) result" where
  "history_entry_of h =
     (case hs_content h of
        None \<Rightarrow> Ok \<lparr> he_row = h, he_content = None, he_event = None \<rparr>
      | Some (OfMessage c) \<Rightarrow>
          if is_event_row h then Err Unavailable else Ok \<lparr> he_row = h, he_content = Some c, he_event = None \<rparr>
      | Some (OfEvent e) \<Rightarrow>
          if is_event_row h then Ok \<lparr> he_row = h, he_content = None, he_event = Some e \<rparr> else Err Unavailable)"

definition read_snapshot :: "'d world \<Rightarrow> pub_faults \<Rightarrow> publication \<Rightarrow> (store_error, snapshot) result" where
  "read_snapshot ou faults db =
     rbind (db_step faults ReadAll) (\<lambda>_.
     rbind (map_ok history_entry_of (take 100 (rev (sort_key hs_revision (pb_history db))))) (\<lambda>history.
     rbind (ok_or (ou_feed ou (pb_feed db)) Unavailable) (\<lambda>f.
       Ok \<lparr> sn_revision = pb_revision db, sn_feed_revision = pb_feed_revision db,
          sn_exported_revision = pb_exported_revision db, sn_feed = f, sn_messages = rev (pb_messages db),
          sn_history = history \<rparr>)))"

definition request_message :: "pub_faults \<Rightarrow> ustr \<Rightarrow> ustr \<Rightarrow> publication \<Rightarrow> (store_error, ustr option) result" where
  "request_message faults request_id actor db =
     rbind (db_step faults FindRequest) (\<lambda>_.
       Ok (map_option rq_message_id
         (find (\<lambda>r. rq_request_id r = request_id \<and> rq_actor r = actor) (pb_requests db))))"

definition record_job_request :: "pub_faults \<Rightarrow> string \<Rightarrow> ustr \<Rightarrow> i64 \<Rightarrow> store \<Rightarrow> (store_error, unit) result \<times> store" where
  "record_job_request faults job actor now st =
     (if faults WriteJob then (Err Unavailable, st)
      else (Ok (), st\<lparr> st_db := (st_db st)\<lparr> pb_jobs := pb_jobs (st_db st)
              @ [\<lparr> jb_job = job, jb_actor = actor, jb_at = now \<rparr>] \<rparr> \<rparr>))"

text \<open>The newest row of each job, in row order.\<close>

fun newest_of_each :: "job_row list \<Rightarrow> job_row list" where
  "newest_of_each [] = []"
| "newest_of_each (j # js) =
     (if jb_job j \<in> jb_job ` set js then newest_of_each js else j # newest_of_each js)"

definition latest_job_requests :: "pub_faults \<Rightarrow> publication \<Rightarrow> (store_error, job_row list) result" where
  "latest_job_requests faults db = rbind (db_step faults ReadAll) (\<lambda>_. Ok (newest_of_each (pb_jobs db)))"

section \<open>A change\<close>

text \<open>What the environment gives one request: the random part of a new id, the faults, and how its export goes.\<close>

record request_env =
  re_faults :: pub_faults
  re_fresh :: ustr
  re_export :: export_end
  re_actor :: ustr
  re_now :: i64

definition prior_request :: "ustr \<Rightarrow> ustr \<Rightarrow> publication \<Rightarrow> request_row option" where
  "prior_request request_id actor db = find (\<lambda>r. rq_request_id r = request_id \<and> rq_actor r = actor) (pb_requests db)"

definition find_message :: "ustr \<Rightarrow> publication \<Rightarrow> message_row option" where
  "find_message ident db = find (\<lambda>m. ms_id m = ident) (pb_messages db)"

definition update_message :: "ustr \<Rightarrow> (message_row \<Rightarrow> message_row) \<Rightarrow> publication \<Rightarrow> publication" where
  "update_message ident f db = db\<lparr> pb_messages := map (\<lambda>m. if ms_id m = ident then f m else m) (pb_messages db) \<rparr>"

text \<open>\<open>INSERT ... ON CONFLICT(id) DO UPDATE SET draft\<close>.\<close>

definition upsert_draft :: "ustr \<Rightarrow> content \<Rightarrow> publication \<Rightarrow> publication" where
  "upsert_draft ident c db =
     (if find_message ident db \<noteq> None then update_message ident (\<lambda>m. m\<lparr> ms_draft := c \<rparr>) db
      else db\<lparr> pb_messages := pb_messages db
             @ [\<lparr> ms_id = ident, ms_draft = c, ms_published = None, ms_ever_published = False \<rparr>] \<rparr>)"

definition change_id :: "request_env \<Rightarrow> change \<Rightarrow> (store_error, ustr) result" where
  "change_id env c =
     (case cg_id c of
        Some ident \<Rightarrow> Ok ident
      | None \<Rightarrow> if cg_operation c = Save
                then rbind (db_step (re_faults env) NewId) (\<lambda>_. Ok (tx ''announcement-'' @ re_fresh env))
                else Err (Invalid ''Save a draft first.''))"

definition perform :: "'d world \<Rightarrow> request_env \<Rightarrow> change \<Rightarrow> ustr \<Rightarrow> ustr \<Rightarrow> publication
   \<Rightarrow> (store_error, publication \<times> content \<times> string) result" where
  "perform ou env c ident at db =
     (case cg_operation c of
        Save \<Rightarrow>
          rbind (ok_or (cg_content c) (Invalid ''Draft content is missing.'')) (\<lambda>new.
          let draft_feed = \<lparr> fd_version = 1, fd_updated_at = at, fd_messages = [message_of new ident], fd_events = None \<rparr>
          in if parse_feed ou (ou_text ou draft_feed) = None
             then Err (Invalid ''Check the text, source and dates. The window must be between 1 second and 31 days.'')
             else rbind (db_step (re_faults env) WriteMessage) (\<lambda>_. Ok (upsert_draft ident new db, new, ''save'')))
      | Publish \<Rightarrow>
          if cg_content c \<noteq> None then Err (Invalid ''Save changes before publishing.'')
          else rbind (db_step (re_faults env) ReadMessage) (\<lambda>_.
               rbind (ok_or (map_option ms_draft (find_message ident db)) Unavailable) (\<lambda>draft.
               if is_none_or (stamp ou (ct_ends_at draft)) (\<lambda>t. t \<le> re_now env)
               then Err (Invalid ''The announcement has already ended. Set a future expiry.'')
               else rbind (db_step (re_faults env) WriteMessage) (\<lambda>_.
                    Ok (update_message ident (\<lambda>m. m\<lparr> ms_published := Some draft, ms_ever_published := True \<rparr>) db,
                        draft, ''publish''))))
      | Withdraw \<Rightarrow>
          if cg_content c \<noteq> None then Err (Invalid ''Withdrawal cannot change content.'')
          else rbind (db_step (re_faults env) ReadMessage) (\<lambda>_.
               rbind (ok_or (find_message ident db) Unavailable) (\<lambda>row.
               rbind (ok_or (ms_published row) (Invalid ''This announcement is not published.'')) (\<lambda>published.
               rbind (db_step (re_faults env) WriteMessage) (\<lambda>_.
                 Ok (update_message ident (\<lambda>m. m\<lparr> ms_published := None \<rparr>) db, published, ''withdraw''))))))"

definition shown_message :: "'d world \<Rightarrow> i64 \<Rightarrow> message_row \<Rightarrow> announcement option" where
  "shown_message ou now m =
     Option.bind (ms_published m) (\<lambda>c.
       if is_some_and (stamp ou (ct_ends_at c)) (\<lambda>t. now < t) then Some (message_of c (ms_id m)) else None)"

definition next_update :: "'d world \<Rightarrow> i64 \<Rightarrow> announcement_feed \<Rightarrow> (store_error, ustr) result" where
  "next_update ou now f =
     rbind (ok_or (stamp ou (fd_updated_at f)) Unavailable) (\<lambda>previous.
     rbind (ok_or (checked_inc previous) Unavailable) (\<lambda>next_second. utc ou (max now next_second)))"

definition republished :: "'d world \<Rightarrow> i64 \<Rightarrow> ustr \<Rightarrow> message_row list \<Rightarrow> announcement_feed \<Rightarrow> announcement_feed" where
  "republished ou now updated rows f =
     prune_events ou now (f\<lparr> fd_updated_at := updated, fd_messages := List.map_filter (shown_message ou now) rows \<rparr>)"

definition republish :: "'d world \<Rightarrow> request_env \<Rightarrow> i64 \<Rightarrow> announcement_feed \<Rightarrow> publication \<Rightarrow> (store_error, publication) result" where
  "republish ou env revision f db =
     rbind (next_update ou (re_now env) f) (\<lambda>updated.
     rbind (db_step (re_faults env) ReadMessage) (\<lambda>_.
     let raw = ou_text ou (republished ou (re_now env) updated (pb_messages db) f)
     in if parse_feed ou raw = None then Err (Invalid ''The resulting feed exceeds its message or size limit.'')
        else rbind (db_step (re_faults env) WriteFeed) (\<lambda>_.
             Ok (db\<lparr> pb_feed := raw, pb_feed_revision := revision \<rparr>))))"

text \<open>The revision, one row of history and one of requests; a revision or request already there is refused.\<close>

definition write_history :: "pub_faults \<Rightarrow> history_row \<Rightarrow> publication \<Rightarrow> (store_error, publication) result" where
  "write_history faults h db =
     rbind (db_step faults WriteHistory) (\<lambda>_.
       if hs_revision h \<in> hs_revision ` set (pb_history db) then Err Unavailable
       else Ok (db\<lparr> pb_history := pb_history db @ [h] \<rparr>))"

definition write_request :: "pub_faults \<Rightarrow> request_row \<Rightarrow> publication \<Rightarrow> (store_error, publication) result" where
  "write_request faults r db =
     rbind (db_step faults WriteRequest) (\<lambda>_.
       if prior_request (rq_request_id r) (rq_actor r) db \<noteq> None then Err Unavailable
       else Ok (db\<lparr> pb_requests := pb_requests db @ [r] \<rparr>))"

text \<open>The body of a change's transaction: \<open>None\<close> when this request was already done.\<close>

definition change_body :: "'d world \<Rightarrow> request_env \<Rightarrow> change \<Rightarrow> publication \<Rightarrow> (store_error, publication option) result" where
  "change_body ou env c db =
     rbind (db_step (re_faults env) FindRequest) (\<lambda>_.
       case prior_request (cg_request_id c) (re_actor env) db of
         Some r \<Rightarrow> if rq_digest r \<noteq> ou_digest ou (ChangeRequest c) then Err Conflict else Ok None
       | None \<Rightarrow>
           rbind (db_step (re_faults env) ReadState) (\<lambda>_.
           if cg_expected_revision c \<noteq> pb_revision db then Err Conflict
           else rbind (ok_or (checked_inc (pb_revision db)) Unavailable) (\<lambda>revision.
           rbind (ok_or (ou_feed ou (pb_feed db)) Unavailable) (\<lambda>f.
           rbind (change_id env c) (\<lambda>ident.
           rbind (db_step (re_faults env) FindMessage) (\<lambda>_.
           if cg_id c \<noteq> None \<and> find_message ident db = None then Err (Invalid ''Announcement no longer exists.'')
           else rbind (utc ou (re_now env)) (\<lambda>at.
           rbind (perform ou env c ident at db) (\<lambda>(db, saved, operation_name).
           rbind (if cg_operation c = Save then Ok db else republish ou env revision f db) (\<lambda>db.
           rbind (db_step (re_faults env) WriteRevision) (\<lambda>_.
           rbind (write_history (re_faults env)
                    \<lparr> hs_revision = revision, hs_actor = re_actor env, hs_at = at, hs_operation = operation_name,
                      hs_message_id = Some ident, hs_content = Some (OfMessage saved) \<rparr> (db\<lparr> pb_revision := revision \<rparr>)) (\<lambda>db.
           rbind (write_request (re_faults env)
                    \<lparr> rq_request_id = cg_request_id c, rq_actor = re_actor env,
                      rq_digest = ou_digest ou (ChangeRequest c), rq_message_id = ident \<rparr> db) (\<lambda>db.
             Ok (Some db)))))))))))))"

text \<open>A transaction commits, or it changes nothing; then the export is tried, and the answer is the new snapshot.\<close>

definition finish_request :: "'d world \<Rightarrow> request_env \<Rightarrow> store \<Rightarrow> (store_error, snapshot) result \<times> store" where
  "finish_request ou env st =
     (let st = snd (retry_export ou (re_faults env) (re_export env) st)
      in (read_snapshot ou (re_faults env) (st_db st), st))"

definition run_request :: "'d world \<Rightarrow> request_env \<Rightarrow> ustr \<Rightarrow> (publication \<Rightarrow> (store_error, publication option) result)
   \<Rightarrow> store \<Rightarrow> (store_error, snapshot) result \<times> store" where
  "run_request ou env request_id body st =
     (case rbind (check_request_id request_id) (\<lambda>_. rbind (db_step (re_faults env) BeginChange) (\<lambda>_. body (st_db st))) of
        Err e \<Rightarrow> (Err e, st)
      | Ok None \<Rightarrow> finish_request ou env st
      | Ok (Some db) \<Rightarrow>
          (case db_step (re_faults env) CommitChange of
             Err e \<Rightarrow> (Err e, st)
           | Ok _ \<Rightarrow> finish_request ou env (st\<lparr> st_db := db \<rparr>)))"

definition apply_change :: "'d world \<Rightarrow> request_env \<Rightarrow> change \<Rightarrow> store \<Rightarrow> (store_error, snapshot) result \<times> store" where
  "apply_change ou env c = run_request ou env (cg_request_id c) (change_body ou env c)"

section \<open>An official event\<close>

definition content_of_event :: "official_event \<Rightarrow> event_content" where
  "content_of_event e =
     \<lparr> ec_kind = oe_kind e, ec_title = oe_title e, ec_starts_at = oe_starts_at e, ec_ends_at = oe_ends_at e,
       ec_source_url = oe_source_url e, ec_note = oe_note e \<rparr>"

text \<open>The first event of this id is replaced, or a new one is added.\<close>

fun put_event :: "official_event \<Rightarrow> official_event list \<Rightarrow> official_event list" where
  "put_event e [] = [e]"
| "put_event e (x # xs) = (if oe_id x = oe_id e then e # xs else x # put_event e xs)"

fun drop_event :: "ustr \<Rightarrow> official_event list \<Rightarrow> (official_event \<times> official_event list) option" where
  "drop_event ident [] = None"
| "drop_event ident (x # xs) =
     (if oe_id x = ident then Some (x, xs) else map_option (\<lambda>(y, ys). (y, x # ys)) (drop_event ident xs))"

definition event_id :: "request_env \<Rightarrow> event_change \<Rightarrow> official_event list \<Rightarrow> (store_error, ustr) result" where
  "event_id env c events =
     (case ev_id c of
        Some ident \<Rightarrow> if ident \<in> oe_id ` set events then Ok ident else Err (Invalid ''Event no longer exists.'')
      | None \<Rightarrow> rbind (db_step (re_faults env) NewId) (\<lambda>_. Ok (tx ''event-'' @ re_fresh env)))"

definition perform_event :: "'d world \<Rightarrow> request_env \<Rightarrow> event_change \<Rightarrow> official_event list
   \<Rightarrow> (store_error, official_event list \<times> ustr \<times> string \<times> event_content) result" where
  "perform_event ou env c events =
     (case ev_operation c of
        PublishEvent \<Rightarrow>
          rbind (ok_or (ev_event c) (Invalid ''Event details are missing.'')) (\<lambda>new.
          if is_none_or (stamp ou (unwrap_or (ec_ends_at new) (ec_starts_at new))) (\<lambda>t. t \<le> re_now env)
          then Err (Invalid ''This date has already passed. Enter an upcoming event.'')
          else rbind (event_id env c events) (\<lambda>ident.
               Ok (put_event (event_of new ident) events, ident, ''event-publish'', new)))
      | RemoveEvent \<Rightarrow>
          if ev_event c \<noteq> None then Err (Invalid ''Removal cannot change details.'')
          else rbind (ok_or (ev_id c) (Invalid ''Choose an event to remove.'')) (\<lambda>ident.
               rbind (ok_or (drop_event ident events) (Invalid ''Event no longer exists.'')) (\<lambda>(removed, rest).
               Ok (rest, ident, ''event-remove'', content_of_event removed))))"

definition event_order :: "official_event \<Rightarrow> ustr \<times> ustr" where
  "event_order e = (oe_starts_at e, oe_id e)"

definition event_body :: "'d world \<Rightarrow> request_env \<Rightarrow> event_change \<Rightarrow> publication
   \<Rightarrow> (store_error, publication option) result" where
  "event_body ou env c db =
     rbind (db_step (re_faults env) FindRequest) (\<lambda>_.
       case prior_request (ev_request_id c) (re_actor env) db of
         Some r \<Rightarrow> if rq_digest r \<noteq> ou_digest ou (EventRequest c) then Err Conflict else Ok None
       | None \<Rightarrow>
           rbind (db_step (re_faults env) ReadState) (\<lambda>_.
           if ev_expected_revision c \<noteq> pb_revision db then Err Conflict
           else rbind (ok_or (checked_inc (pb_revision db)) Unavailable) (\<lambda>revision.
           rbind (ok_or (ou_feed ou (pb_feed db)) Unavailable) (\<lambda>f.
           rbind (perform_event ou env c (unwrap_or (fd_events f) [])) (\<lambda>(events, ident, operation_name, details).
           let f = prune_events ou (re_now env) (f\<lparr> fd_events := Some (sort_key event_order events) \<rparr>)
           in rbind (next_update ou (re_now env) f) (\<lambda>updated.
           let raw = ou_text ou (f\<lparr> fd_updated_at := updated \<rparr>)
           in if parse_feed ou raw = None
              then Err (Invalid ''Check the kind, title, source and dates. Events last at most 120 days, notes at most 280 characters, and the feed holds 30 events.'')
              else rbind (utc ou (re_now env)) (\<lambda>at.
              rbind (db_step (re_faults env) WriteFeed) (\<lambda>_.
              rbind (write_history (re_faults env)
                       \<lparr> hs_revision = revision, hs_actor = re_actor env, hs_at = at, hs_operation = operation_name,
                         hs_message_id = Some ident, hs_content = Some (OfEvent details) \<rparr>
                       (db\<lparr> pb_feed := raw, pb_feed_revision := revision, pb_revision := revision \<rparr>)) (\<lambda>db.
              rbind (write_request (re_faults env)
                       \<lparr> rq_request_id = ev_request_id c, rq_actor = re_actor env,
                         rq_digest = ou_digest ou (EventRequest c), rq_message_id = ident \<rparr> db) (\<lambda>db.
                Ok (Some db)))))))))))"

definition apply_event :: "'d world \<Rightarrow> request_env \<Rightarrow> event_change \<Rightarrow> store \<Rightarrow> (store_error, snapshot) result \<times> store" where
  "apply_event ou env c = run_request ou env (ev_request_id c) (event_body ou env c)"


section \<open>Opening and recovery\<close>

definition seed_row :: "announcement \<Rightarrow> message_row" where
  "seed_row m =
     (let c = \<lparr> ct_title = an_title m, ct_body = an_body m, ct_source_url = an_source_url m,
                ct_starts_at = an_starts_at m, ct_ends_at = an_ends_at m \<rparr>
      in \<lparr> ms_id = an_id m, ms_draft = c, ms_published = Some c, ms_ever_published = True \<rparr>)"

definition seeded :: "'d world \<Rightarrow> announcement_feed \<Rightarrow> publication" where
  "seeded ou f =
     \<lparr> pb_revision = 0, pb_feed_revision = 0, pb_exported_revision = -1, pb_feed = ou_text ou f,
       pb_messages = map seed_row (fd_messages f), pb_history = [], pb_requests = [], pb_jobs = [] \<rparr>"

text \<open>A feed on disk that is newer than the stored one, or as new and different, stops the start.\<close>

definition check_disk :: "'d world \<Rightarrow> publication \<Rightarrow> ustr option \<Rightarrow> (string, unit) result" where
  "check_disk ou db file =
     (case file of
        None \<Rightarrow> Ok ()
      | Some raw \<Rightarrow>
          rbind (ok_or (parse_feed ou raw) ''invalid existing public feed'') (\<lambda>disk.
          rbind (ok_or (parse_feed ou (pb_feed db)) ''invalid stored feed'') (\<lambda>stored.
          if fd_updated_at stored < fd_updated_at disk \<or> fd_updated_at disk = fd_updated_at stored \<and> disk \<noteq> stored
          then Err ''public feed is ahead of or conflicts with database; restore publication state before startup''
          else Ok ())))"

text \<open>
  The database file may be absent (\<open>None\<close>) or hold no state yet (\<open>Some None\<close>); the result is the answer, and what
  the database and the export are afterwards. \<open>state_or_seed\<close> and \<open>start_store\<close> are the two halves of \<open>open\<close>.
\<close>

definition state_or_seed :: "'d world \<Rightarrow> ustr option \<Rightarrow> publication option option \<Rightarrow> (string, publication) result" where
  "state_or_seed ou seed existing =
     (case existing of
        Some (Some db) \<Rightarrow> Ok db
      | _ \<Rightarrow> rbind (ok_or seed ''publication database has no state; start with a seed feed'') (\<lambda>raw.
             rbind (ok_or (parse_feed ou raw) ''invalid seed feed'') (\<lambda>f. Ok (seeded ou f))))"

definition start_store :: "'d world \<Rightarrow> pub_faults \<Rightarrow> export_end \<Rightarrow> publication \<Rightarrow> ustr option
   \<Rightarrow> (string, unit) result \<times> store" where
  "start_store ou faults how db file =
     (case check_disk ou db file of
        Err e \<Rightarrow> (Err e, \<lparr> st_db = db, st_file = file \<rparr>)
      | Ok _ \<Rightarrow>
          (case export_current ou faults how \<lparr> st_db = db, st_file = file \<rparr> of
             (r, st) \<Rightarrow> (if is_ok r then Ok () else Err ''initial feed export unavailable'', st)))"

definition open_store :: "'d world \<Rightarrow> pub_faults \<Rightarrow> export_end \<Rightarrow> ustr option \<Rightarrow> publication option option \<times> ustr option
   \<Rightarrow> (string, unit) result \<times> publication option option \<times> ustr option" where
  "open_store ou faults how seed disk =
     (case disk of (existing, file) \<Rightarrow>
        if existing = None \<and> file \<noteq> None
        then (Err ''existing feed requires database restoration before startup'', disk)
        else if existing = None \<and> seed = None
        then (Err ''publication database is missing; start with a seed feed'', disk)
        else case state_or_seed ou seed existing of
               Err e \<Rightarrow> (Err e, Some None, file)
             | Ok db \<Rightarrow> (case start_store ou faults how db file of
                 (r, st) \<Rightarrow> (r, Some (Some (st_db st)), st_file st)))"

definition recover_publication :: "'d world \<Rightarrow> pub_faults \<Rightarrow> i64 \<Rightarrow> store \<Rightarrow> (string, store) result" where
  "recover_publication ou faults now st =
     (let db = st_db st in
      rbind (ok_or (Option.bind (st_file st) (parse_feed ou)) ''invalid public feed'') (\<lambda>disk.
      if faults ReadState then Err ''database'' else
      rbind (ok_or (parse_feed ou (pb_feed db)) ''invalid saved publication'') (\<lambda>f.
      rbind (ok_or (Option.bind (stamp ou (fd_updated_at f)) (\<lambda>a. map_option (max a) (stamp ou (fd_updated_at disk))))
               ''invalid publication time'') (\<lambda>previous.
      rbind (ok_or (checked_inc previous) ''publication time overflow'') (\<lambda>next_second.
      case utc ou (max now next_second) of
        Err _ \<Rightarrow> Err ''publication date unavailable''
      | Ok updated \<Rightarrow>
          rbind (ok_or (checked_inc (pb_revision db)) ''revision overflow'') (\<lambda>revision.
          let raw = ou_text ou (f\<lparr> fd_updated_at := updated \<rparr>)
          in if parse_feed ou raw = None then Err ''restored publication is invalid''
             else if faults WriteFeed \<or> faults WriteHistory \<or> faults CommitChange
                     \<or> revision \<in> hs_revision ` set (pb_history db) then Err ''database''
             else Ok (st\<lparr> st_db := db\<lparr> pb_revision := revision, pb_feed_revision := revision, pb_exported_revision := -1,
                    pb_feed := raw,
                    pb_history := pb_history db @ [\<lparr> hs_revision = revision, hs_actor = tx ''host recovery'',
                      hs_at = updated, hs_operation = ''recover'', hs_message_id = None, hs_content = None \<rparr>] \<rparr> \<rparr>)))))))"


end
