(* ===== verification/Publication.thy ===== *)
theory Publication
  imports Publisher
begin

text \<open>
  The publisher over its life: requests, exports, restarts, backups restored by hand and host recovery, in any
  order and with any failures. \<open>pub_inv\<close> holds in every reachable state; the theorems say what readers of
  the exported feed and authors of changes rely on.
\<close>

section \<open>The system\<close>

text \<open>
  The database and the export on disk, whether the publisher runs (it holds the lock, so nothing else writes
  either), and every database state that was ever backed up.
\<close>

record publisher =
  py_disk :: "publication option option"
  py_file :: "ustr option"
  py_running :: bool
  py_backups :: "publication list"

datatype pub_op =
    Change request_env change
  | Event request_env event_change
  | Retry pub_faults export_end
  | JobAsked pub_faults string ustr i64
  | Backup
  | Stop
  | Restore nat
  | Recover pub_faults i64
  | Open pub_faults export_end "ustr option"

text \<open>An operation of the running store; of the stopped one.\<close>

definition while_running :: "(store \<Rightarrow> store) \<Rightarrow> publisher \<Rightarrow> publisher" where
  "while_running f p =
     (case py_disk p of
        Some (Some db) \<Rightarrow>
          if py_running p
          then (let st = f \<lparr> st_db = db, st_file = py_file p \<rparr> in p\<lparr> py_disk := Some (Some (st_db st)), py_file := st_file st \<rparr>)
          else p
      | _ \<Rightarrow> p)"

definition recovered :: "'d world \<Rightarrow> pub_faults \<Rightarrow> i64 \<Rightarrow> publisher \<Rightarrow> publisher" where
  "recovered ou faults now p =
     (case py_disk p of
        Some (Some db) \<Rightarrow>
          (case recover_publication ou faults now \<lparr> st_db = db, st_file = py_file p \<rparr> of
             Err _ \<Rightarrow> p
           | Ok st \<Rightarrow> p\<lparr> py_disk := Some (Some (st_db st)), py_file := st_file st \<rparr>)
      | _ \<Rightarrow> p)"

fun pub_op_step :: "'d world \<Rightarrow> pub_op \<Rightarrow> publisher \<Rightarrow> publisher" where
  "pub_op_step ou (Change env c) p = while_running (\<lambda>st. snd (apply_change ou env c st)) p"
| "pub_op_step ou (Event env c) p = while_running (\<lambda>st. snd (apply_event ou env c st)) p"
| "pub_op_step ou (Retry faults how) p = while_running (\<lambda>st. snd (retry_export ou faults how st)) p"
| "pub_op_step ou (JobAsked faults job actor now) p = while_running (\<lambda>st. snd (record_job_request faults job actor now st)) p"
| "pub_op_step ou Backup p =
     (case py_disk p of Some (Some db) \<Rightarrow> p\<lparr> py_backups := py_backups p @ [db] \<rparr> | _ \<Rightarrow> p)"
| "pub_op_step ou Stop p = p\<lparr> py_running := False \<rparr>"
| "pub_op_step ou (Restore i) p =
     (if py_running p \<or> length (py_backups p) \<le> i then p else p\<lparr> py_disk := Some (Some (py_backups p ! i)) \<rparr>)"
| "pub_op_step ou (Recover faults now) p = (if py_running p then p else recovered ou faults now p)"
| "pub_op_step ou (Open faults how seed) p =
     (if py_running p then p
      else let (res, disk, file) = open_store ou faults how seed (py_disk p, py_file p)
           in p\<lparr> py_disk := disk, py_file := file, py_running := is_ok res \<rparr>)"

definition run_ops :: "'d world \<Rightarrow> pub_op list \<Rightarrow> publisher \<Rightarrow> publisher" where
  "run_ops ou ops p = fold (pub_op_step ou) ops p"

definition fresh_host :: publisher where
  "fresh_host = \<lparr> py_disk = None, py_file = None, py_running = False, py_backups = [] \<rparr>"

section \<open>Invariants\<close>

definition request_key :: "request_row \<Rightarrow> ustr \<times> ustr" where
  "request_key r = (rq_request_id r, rq_actor r)"

definition done_changes :: "publication \<Rightarrow> history_row list" where
  "done_changes db = filter (\<lambda>h. hs_operation h \<noteq> ''recover'') (pb_history db)"

definition db_ok :: "publication \<Rightarrow> bool" where
  "db_ok db \<longleftrightarrow>
     pb_feed_revision db \<le> pb_revision db \<and> pb_exported_revision db \<le> pb_feed_revision db
     \<and> sorted_wrt (<) (map hs_revision (pb_history db)) \<and> list_all (\<lambda>h. hs_revision h \<le> pb_revision db) (pb_history db)
     \<and> 0 \<le> pb_feed_revision db
     \<and> distinct (map request_key (pb_requests db)) \<and> length (pb_requests db) = length (done_changes db)
     \<and> distinct (map ms_id (pb_messages db))
     \<and> list_all (\<lambda>m. ms_published m \<noteq> None \<longrightarrow> ms_ever_published m) (pb_messages db)"

text \<open>The time a reader reads in an exported text.\<close>

definition read_stamp :: "'d world \<Rightarrow> ustr \<Rightarrow> i64 option" where
  "read_stamp ou raw = Option.bind (parse_feed ou raw) (\<lambda>f. stamp ou (fd_updated_at f))"

lemma valid_feed_stamp: "valid_feed ou f lim \<Longrightarrow> \<exists>t. stamp ou (fd_updated_at f) = Some t"
  by (auto simp: valid_feed_def)

lemma parse_feed_Some:
  "parse_feed ou raw = Some f \<longleftrightarrow> byte_len raw \<le> li_max_bytes the_limits \<and> ou_feed ou raw = Some f \<and> valid_feed ou f the_limits"
  by (auto simp: parse_feed_def)

lemma parsed_stamp: "parse_feed ou raw = Some f \<Longrightarrow> \<exists>t. stamp ou (fd_updated_at f) = Some t \<and> read_stamp ou raw = Some t"
proof -
  assume p: "parse_feed ou raw = Some f"
  then obtain t where "stamp ou (fd_updated_at f) = Some t" using valid_feed_stamp [of ou f the_limits] by (auto simp: parse_feed_Some)
  with p show ?thesis by (simp add: read_stamp_def)
qed

section \<open>What one request does\<close>

text \<open>The parts of the tables an export does not touch.\<close>

definition unexported :: "publication \<Rightarrow> publication" where
  "unexported db = db\<lparr> pb_exported_revision := 0 \<rparr>"

definition exports_to :: "'d world \<Rightarrow> store \<Rightarrow> store \<Rightarrow> bool" where
  "exports_to ou st st' \<longleftrightarrow> st' = st
     \<or> parse_feed ou (pb_feed (st_db st)) \<noteq> None
       \<and> (st' = st\<lparr> st_file := Some (pb_feed (st_db st)) \<rparr>
          \<or> st' = \<lparr> st_db = (st_db st)\<lparr> pb_exported_revision := pb_feed_revision (st_db st) \<rparr>, st_file = Some (pb_feed (st_db st)) \<rparr>)"

lemma export_current_exports: "exports_to ou st (snd (export_current ou faults how st))"
  by (auto simp: exports_to_def export_current_def Let_def split: export_end.split)

lemma export_current_Ok:
  "export_current ou faults how st = (Ok (), st') \<Longrightarrow>
   parse_feed ou (pb_feed (st_db st)) \<noteq> None
   \<and> st' = \<lparr> st_db = (st_db st)\<lparr> pb_exported_revision := pb_feed_revision (st_db st) \<rparr>, st_file = Some (pb_feed (st_db st)) \<rparr>"
  by (cases st) (auto simp: export_current_def Let_def split: if_splits export_end.splits)

lemma retry_export_exports: "exports_to ou st (snd (retry_export ou faults how st))"
proof -
  have "exports_to ou st st" by (simp add: exports_to_def)
  then show ?thesis by (simp add: retry_export_def export_current_exports)
qed

lemma run_request_outcome:
  "let st' = snd (run_request ou env request_id body st)
   in st' = st \<or> body (st_db st) = Ok None \<and> exports_to ou st st'
      \<or> (\<exists>db. body (st_db st) = Ok (Some db) \<and> exports_to ou (st\<lparr> st_db := db \<rparr>) st')"
  using retry_export_exports [of ou]
  by (auto simp: run_request_def finish_request_def Let_def rbind_def split: sum.splits option.splits)

definition rows_ok :: "message_row list \<Rightarrow> bool" where
  "rows_ok ms \<longleftrightarrow> distinct (map ms_id ms) \<and> list_all (\<lambda>m. ms_published m \<noteq> None \<longrightarrow> ms_ever_published m) ms"

text \<open>A later feed than the stored one.\<close>

definition renews :: "'d world \<Rightarrow> ustr \<Rightarrow> ustr \<Rightarrow> bool" where
  "renews ou old new \<longleftrightarrow>
     (\<exists>f g now. ou_feed ou old = Some f \<and> next_update ou now f = Ok (fd_updated_at g) \<and> new = ou_text ou g
       \<and> parse_feed ou new \<noteq> None)"

text \<open>What a committed request did to the tables.\<close>

definition commits :: "'d world \<Rightarrow> ustr \<Rightarrow> ustr \<Rightarrow> i64 \<Rightarrow> publication \<Rightarrow> publication \<Rightarrow> bool" where
  "commits ou request_id actor expected db db' \<longleftrightarrow>
     expected = pb_revision db \<and> pb_revision db' = pb_revision db + 1
     \<and> pb_exported_revision db' = pb_exported_revision db \<and> pb_jobs db' = pb_jobs db
     \<and> (\<exists>h. pb_history db' = pb_history db @ [h] \<and> hs_revision h = pb_revision db + 1 \<and> hs_operation h \<noteq> ''recover'')
     \<and> (\<exists>r. pb_requests db' = pb_requests db @ [r] \<and> request_key r = (request_id, actor)
          \<and> prior_request request_id actor db = None)
     \<and> (pb_feed db' = pb_feed db \<and> pb_feed_revision db' = pb_feed_revision db
        \<or> renews ou (pb_feed db) (pb_feed db') \<and> pb_feed_revision db' = pb_revision db + 1)
     \<and> (rows_ok (pb_messages db) \<longrightarrow> rows_ok (pb_messages db'))"

lemma checked_inc_Some [simp]: "checked_inc n = Some m \<longleftrightarrow> m = n + 1 \<and> i64_range (n + 1)"
  by (auto simp: checked_inc_def)

lemma db_step_Ok [simp]: "db_step faults st = Ok u \<longleftrightarrow> \<not> faults st"
  by (simp add: db_step_def)

lemma write_history_Ok:
  "write_history faults h db = Ok db' \<Longrightarrow> db' = db\<lparr> pb_history := pb_history db @ [h] \<rparr>"
  by (auto simp: write_history_def rbind_Ok_iff split: if_splits)

lemma write_request_Ok:
  "write_request faults r db = Ok db' \<Longrightarrow> db' = db\<lparr> pb_requests := pb_requests db @ [r] \<rparr>
    \<and> prior_request (rq_request_id r) (rq_actor r) db = None"
  by (auto simp: write_request_def rbind_Ok_iff split: if_splits)

lemma prior_request_frame [simp]:
  "prior_request i a (pb_history_update f db) = prior_request i a db"
  "prior_request i a (pb_revision_update g db) = prior_request i a db"
  "prior_request i a (pb_feed_update h db) = prior_request i a db"
  "prior_request i a (pb_feed_revision_update g db) = prior_request i a db"
  "prior_request i a (pb_messages_update k db) = prior_request i a db"
  "prior_request i a (pb_exported_revision_update g db) = prior_request i a db"
  by (simp_all add: prior_request_def)

text \<open>A step on the messages that leaves the other tables alone.\<close>

definition only_messages :: "publication \<Rightarrow> publication \<Rightarrow> bool" where
  "only_messages db db' \<longleftrightarrow> db' = db\<lparr> pb_messages := pb_messages db' \<rparr>"

lemma update_message_rows:
  assumes "rows_ok (pb_messages db)" and "\<And>m. ms_id (f m) = ms_id m"
    and "\<And>m. (ms_published m \<noteq> None \<longrightarrow> ms_ever_published m) \<Longrightarrow> ms_published (f m) \<noteq> None \<longrightarrow> ms_ever_published (f m)"
  shows "rows_ok (pb_messages (update_message ident f db))"
proof -
  have "ms_id (if ms_id m = ident then f m else m) = ms_id m" for m by (simp add: assms(2))
  then have ids: "map ms_id (pb_messages (update_message ident f db)) = map ms_id (pb_messages db)"
    by (simp only: update_message_def) simp
  show ?thesis using assms(1,3) by (auto simp only: rows_ok_def ids) (auto simp: update_message_def list_all_iff)
qed

lemma upsert_draft_rows:
  assumes "rows_ok (pb_messages db)"
  shows "rows_ok (pb_messages (upsert_draft ident c db))"
proof (cases "find_message ident db")
  case None
  then have "ident \<notin> ms_id ` set (pb_messages db)" by (auto simp: find_message_def find_None_iff)
  then show ?thesis using assms None by (simp add: upsert_draft_def rows_ok_def)
next
  case (Some m)
  then show ?thesis using update_message_rows [OF assms] by (simp add: upsert_draft_def)
qed

lemma perform_Ok:
  assumes "perform ou env c ident at db = Ok (db', saved, name)"
  shows "only_messages db db'" and "name \<noteq> ''recover''" and "rows_ok (pb_messages db) \<Longrightarrow> rows_ok (pb_messages db')"
proof -
  show "only_messages db db'" "name \<noteq> ''recover''"
    using assms by (auto simp: perform_def rbind_Ok_iff only_messages_def upsert_draft_def update_message_def Let_def
        split: operation.splits if_splits)
  show "rows_ok (pb_messages db')" if "rows_ok (pb_messages db)"
    using assms upsert_draft_rows [OF that] update_message_rows [OF that]
    by (auto simp: perform_def rbind_Ok_iff Let_def split: operation.splits if_splits)
qed

lemma prune_events_frame [simp]:
  "fd_updated_at (prune_events ou now f) = fd_updated_at f" "fd_messages (prune_events ou now f) = fd_messages f"
  by (simp_all add: prune_events_def)

lemma renewsI:
  "ou_feed ou old = Some f \<Longrightarrow> next_update ou now f = Ok (fd_updated_at g) \<Longrightarrow> parse_feed ou (ou_text ou g) \<noteq> None
   \<Longrightarrow> renews ou old (ou_text ou g)"
  unfolding renews_def by blast

lemma republish_Ok:
  assumes "republish ou env revision f db = Ok db'" and "ou_feed ou old = Some f"
  shows "\<exists>raw. renews ou old raw \<and> db' = db\<lparr> pb_feed := raw, pb_feed_revision := revision \<rparr>"
proof -
  obtain updated where u: "next_update ou (re_now env) f = Ok updated"
    and g: "parse_feed ou (ou_text ou (republished ou (re_now env) updated (pb_messages db) f)) \<noteq> None"
    and db: "db' = db\<lparr> pb_feed := ou_text ou (republished ou (re_now env) updated (pb_messages db) f), pb_feed_revision := revision \<rparr>"
    using assms(1) by (auto simp: republish_def rbind_Ok_iff Let_def split: if_splits)
  have "renews ou old (ou_text ou (republished ou (re_now env) updated (pb_messages db) f))"
    by (rule renewsI [OF assms(2), of "re_now env", OF _ g]) (simp add: republished_def u)
  with db show ?thesis by blast
qed

lemma change_body_OkE:
  assumes "change_body ou env c db = Ok (Some db')"
  obtains f ident at db1 saved name db2 db3 where
    "cg_expected_revision c = pb_revision db"
    and "ou_feed ou (pb_feed db) = Some f" and "change_id env c = Ok ident"
    and "perform ou env c ident at db = Ok (db1, saved, name)"
    and "(if cg_operation c = Save then Ok db1 else republish ou env (pb_revision db + 1) f db1) = Ok db2"
    and "write_history (re_faults env) \<lparr> hs_revision = pb_revision db + 1, hs_actor = re_actor env, hs_at = at,
        hs_operation = name, hs_message_id = Some ident, hs_content = Some (OfMessage saved) \<rparr>
        (db2\<lparr> pb_revision := pb_revision db + 1 \<rparr>) = Ok db3"
    and "write_request (re_faults env) \<lparr> rq_request_id = cg_request_id c, rq_actor = re_actor env,
        rq_digest = ou_digest ou (ChangeRequest c), rq_message_id = ident \<rparr> db3 = Ok db'"
    and "prior_request (cg_request_id c) (re_actor env) db = None"
proof (cases "prior_request (cg_request_id c) (re_actor env) db")
  case None
  then show ?thesis using assms that by (clarsimp simp: change_body_def rbind_Ok_iff guard_Ok_iff)
next
  case (Some r)
  then show ?thesis using assms by (auto simp: change_body_def rbind_Ok_iff guard_Ok_iff)
qed

lemma change_body_commits:
  assumes "change_body ou env c db = Ok (Some db')"
  shows "commits ou (cg_request_id c) (re_actor env) (cg_expected_revision c) db db'"
  using assms
proof (rule change_body_OkE)
  fix f ident at db1 saved name db2 db3
  assume e: "cg_expected_revision c = pb_revision db"
    and f: "ou_feed ou (pb_feed db) = Some f"
    and p: "perform ou env c ident at db = Ok (db1, saved, name)"
    and r: "(if cg_operation c = Save then Ok db1 else republish ou env (pb_revision db + 1) f db1) = Ok db2"
    and h: "write_history (re_faults env) \<lparr> hs_revision = pb_revision db + 1, hs_actor = re_actor env, hs_at = at,
        hs_operation = name, hs_message_id = Some ident, hs_content = Some (OfMessage saved) \<rparr>
        (db2\<lparr> pb_revision := pb_revision db + 1 \<rparr>) = Ok db3"
    and w: "write_request (re_faults env) \<lparr> rq_request_id = cg_request_id c, rq_actor = re_actor env,
        rq_digest = ou_digest ou (ChangeRequest c), rq_message_id = ident \<rparr> db3 = Ok db'"
    and n: "prior_request (cg_request_id c) (re_actor env) db = None"
  note m = perform_Ok [OF p]
  obtain ms where db1: "db1 = db\<lparr> pb_messages := ms \<rparr>" using m(1) unfolding only_messages_def by blast
  have feed: "db2 = db1 \<or> (\<exists>raw. renews ou (pb_feed db) raw
      \<and> db2 = db1\<lparr> pb_feed := raw, pb_feed_revision := pb_revision db + 1 \<rparr>)"
    using r republish_Ok [of ou env "pb_revision db + 1" f db1 db2, OF _ f] by (auto split: if_splits)
  note tables = write_history_Ok [OF h] write_request_Ok [OF w]
  have "pb_messages db' = pb_messages db1" using feed tables by auto
  with m(3) have rows: "rows_ok (pb_messages db) \<longrightarrow> rows_ok (pb_messages db')" by simp
  show ?thesis
    using feed tables db1 m(2) e n rows by (auto simp: commits_def request_key_def)
qed

definition new_event_feed :: "'d world \<Rightarrow> request_env \<Rightarrow> announcement_feed \<Rightarrow> official_event list \<Rightarrow> ustr \<Rightarrow> ustr" where
  "new_event_feed ou env f events updated =
     ou_text ou (prune_events ou (re_now env) (f\<lparr> fd_events := Some (sort_key event_order events) \<rparr>)\<lparr> fd_updated_at := updated \<rparr>)"

lemma next_update_frame [simp]:
  "next_update ou now (fd_events_update e f) = next_update ou now f"
  "next_update ou now (prune_events ou at f) = next_update ou now f"
  by (simp_all add: next_update_def)

lemma perform_event_name:
  "perform_event ou env c events = Ok (es, ident, name, details) \<Longrightarrow> name \<noteq> ''recover''"
  by (auto simp: perform_event_def rbind_Ok_iff split: event_operation.splits if_splits)

lemma event_body_commits:
  assumes "event_body ou env c db = Ok (Some db')"
  shows "commits ou (ev_request_id c) (re_actor env) (ev_expected_revision c) db db'"
    and "pb_messages db' = pb_messages db" and "pb_feed_revision db' = pb_revision db + 1"
proof -
  obtain f events ident name details updated g at db3 where
    e: "ev_expected_revision c = pb_revision db"
    and f: "ou_feed ou (pb_feed db) = Some f"
    and u: "next_update ou (re_now env) f = Ok updated"
    and p: "perform_event ou env c (unwrap_or (fd_events f) []) = Ok (events, ident, name, details)"
    and r: "parse_feed ou (new_event_feed ou env f events updated) = Some g"
    and h: "write_history (re_faults env) \<lparr> hs_revision = pb_revision db + 1, hs_actor = re_actor env, hs_at = at,
        hs_operation = name, hs_message_id = Some ident, hs_content = Some (OfEvent details) \<rparr>
        (db\<lparr> pb_feed := new_event_feed ou env f events updated, pb_feed_revision := pb_revision db + 1,
             pb_revision := pb_revision db + 1 \<rparr>) = Ok db3"
    and w: "write_request (re_faults env) \<lparr> rq_request_id = ev_request_id c, rq_actor = re_actor env,
        rq_digest = ou_digest ou (EventRequest c), rq_message_id = ident \<rparr> db3 = Ok db'"
    and n: "prior_request (ev_request_id c) (re_actor env) db = None"
    using assms
    by (clarsimp simp: event_body_def rbind_Ok_iff Let_def new_event_feed_def split: option.splits if_splits; blast)
  have renews: "renews ou (pb_feed db) (new_event_feed ou env f events updated)"
    unfolding new_event_feed_def by (rule renewsI [OF f]) (use u r in \<open>simp_all add: new_event_feed_def\<close>)
  note tables = write_history_Ok [OF h] write_request_Ok [OF w]
  show "commits ou (ev_request_id c) (re_actor env) (ev_expected_revision c) db db'"
    using tables e n renews perform_event_name [OF p] by (auto simp: commits_def request_key_def)
  show "pb_messages db' = pb_messages db" "pb_feed_revision db' = pb_revision db + 1" using tables by auto
qed


section \<open>The contract of a running store\<close>

text \<open>A law of the running store that exports, committed requests and job requests keep.\<close>

locale kept_by_store =
  fixes ou :: "'d world" and I :: "store \<Rightarrow> bool"
  assumes exported: "exports_to ou st st' \<Longrightarrow> I st \<Longrightarrow> I st'"
    and committed: "commits ou i a e (st_db st) db' \<Longrightarrow> I st \<Longrightarrow> I (st\<lparr> st_db := db' \<rparr>)"
    and job_asked: "I st \<Longrightarrow> I (st\<lparr> st_db := (st_db st)\<lparr> pb_jobs := js \<rparr> \<rparr>)"
begin

lemma request_kept:
  assumes "I st" and "\<And>db'. body (st_db st) = Ok (Some db') \<Longrightarrow> \<exists>i a e. commits ou i a e (st_db st) db'"
  shows "I (snd (run_request ou env request_id body st))"
  using run_request_outcome [of ou env request_id body st] assms exported committed
  by (auto simp: Let_def)

lemma change_kept: "I st \<Longrightarrow> I (snd (apply_change ou env c st))"
  unfolding apply_change_def by (rule request_kept) (blast dest: change_body_commits)+

lemma event_kept: "I st \<Longrightarrow> I (snd (apply_event ou env c st))"
  unfolding apply_event_def by (rule request_kept) (blast dest: event_body_commits)+

lemma retry_kept: "I st \<Longrightarrow> I (snd (retry_export ou faults how st))"
  using exported retry_export_exports by blast

lemma job_kept: "I st \<Longrightarrow> I (snd (record_job_request faults job actor now st))"
  using job_asked by (simp add: record_job_request_def)

lemma running_kept:
  assumes "py_disk p = Some (Some db)" "py_running p" "I \<lparr> st_db = db, st_file = py_file p \<rparr>"
    and "op \<in> {Change env c, Event env ec, Retry faults how, JobAsked faults job actor now}"
  shows "\<exists>st. pub_op_step ou op p = p\<lparr> py_disk := Some (Some (st_db st)), py_file := st_file st \<rparr> \<and> I st"
  using assms change_kept event_kept retry_kept job_kept by (auto simp: while_running_def Let_def)

end

section \<open>The tables\<close>

lemma exports_to_db:
  "exports_to ou st st' \<Longrightarrow>
   st_db st' = st_db st \<or> st_db st' = (st_db st)\<lparr> pb_exported_revision := pb_feed_revision (st_db st) \<rparr>"
  by (auto simp: exports_to_def)

lemma db_ok_exported: "db_ok db \<Longrightarrow> db_ok (db\<lparr> pb_exported_revision := pb_feed_revision db \<rparr>)"
  by (simp add: db_ok_def done_changes_def)

lemma new_key:
  "prior_request i a db = None \<longleftrightarrow> (i, a) \<notin> request_key ` set (pb_requests db)"
  by (auto simp: prior_request_def request_key_def find_None_iff)

lemma db_ok_commit:
  assumes "commits ou i a e db db'" and "db_ok db"
  shows "db_ok db'"
proof -
  from assms(1) obtain h r where h: "pb_history db' = pb_history db @ [h]" "hs_revision h = pb_revision db + 1"
      "hs_operation h \<noteq> ''recover''"
    and r: "pb_requests db' = pb_requests db @ [r]" "request_key r = (i, a)" "prior_request i a db = None"
    by (auto simp: commits_def)
  have old: "\<forall>x\<in>set (pb_history db). hs_revision x \<le> pb_revision db" using assms(2) by (auto simp: db_ok_def list_all_iff)
  have hist: "sorted_wrt (<) (map hs_revision (pb_history db'))" "list_all (\<lambda>h. hs_revision h \<le> pb_revision db') (pb_history db')"
    using h old assms by (auto simp: db_ok_def commits_def sorted_wrt_append list_all_iff le_less_trans)
  have "request_key r \<notin> request_key ` set (pb_requests db)" using r new_key by simp
  then have keys: "distinct (map request_key (pb_requests db'))" using r assms(2) by (simp add: db_ok_def)
  have len: "length (pb_requests db') = length (done_changes db')"
    using h r assms(2) by (simp add: db_ok_def done_changes_def)
  show ?thesis using assms hist keys len by (auto simp: db_ok_def commits_def rows_ok_def)
qed

interpretation tables: kept_by_store ou "\<lambda>st. db_ok (st_db st)" for ou :: "'d world"
proof unfold_locales
  fix st st' :: store
  assume "exports_to ou st st'" "db_ok (st_db st)"
  then show "db_ok (st_db st')" using exports_to_db db_ok_exported by metis
next
  fix i a e and st :: store and db'
  assume "commits ou i a e (st_db st) db'" "db_ok (st_db st)"
  then show "db_ok (st_db (st\<lparr> st_db := db' \<rparr>))" using db_ok_commit by simp
next
  fix st :: store and js
  assume "db_ok (st_db st)"
  then show "db_ok (st_db (st\<lparr> st_db := (st_db st)\<lparr> pb_jobs := js \<rparr> \<rparr>))" by (simp add: db_ok_def done_changes_def)
qed

section \<open>The export mark\<close>

definition marked :: "store \<Rightarrow> bool" where
  "marked st \<longleftrightarrow> (pb_exported_revision (st_db st) = pb_feed_revision (st_db st) \<longrightarrow> st_file st = Some (pb_feed (st_db st)))
     \<and> pb_exported_revision (st_db st) \<le> pb_feed_revision (st_db st) \<and> pb_feed_revision (st_db st) \<le> pb_revision (st_db st)"

interpretation mark: kept_by_store ou marked for ou :: "'d world"
  by unfold_locales (auto simp: marked_def exports_to_def commits_def)

section \<open>The time of the feed\<close>

text \<open>
  Dates a writer and a reader agree on: the JSON of a feed that is accepted reads back as that feed; a date written
  from a second is that second, and later seconds are later texts.
\<close>

definition faithful :: "'d world \<Rightarrow> bool" where
  "faithful ou \<longleftrightarrow>
     (\<forall>f. parse_feed ou (ou_text ou f) \<noteq> None \<longrightarrow> ou_feed ou (ou_text ou f) = Some f)
     \<and> (\<forall>now d t. ou_date_at ou now = Some d \<longrightarrow> stamp ou (ou_write_date ou d) = Some t \<longrightarrow> t = now)
     \<and> (\<forall>a b s t. stamp ou a = Some s \<longrightarrow> stamp ou b = Some t \<longrightarrow> s < t \<longrightarrow> a < b)"

lemma next_update_later:
  assumes "faithful ou" and "next_update ou now f = Ok updated" and "stamp ou updated = Some t"
  shows "\<exists>s. stamp ou (fd_updated_at f) = Some s \<and> s < t \<and> now \<le> t"
proof -
  obtain s d where "stamp ou (fd_updated_at f) = Some s" and "ou_date_at ou (max now (s + 1)) = Some d"
    and "updated = ou_write_date ou d"
    using assms(2) by (auto simp: next_update_def utc_def rbind_Ok_iff)
  moreover from this have "t = max now (s + 1)" using assms(1,3) unfolding faithful_def by blast
  ultimately show ?thesis by auto
qed

lemma faithful_text: "faithful ou \<Longrightarrow> parse_feed ou (ou_text ou g) \<noteq> None \<Longrightarrow> parse_feed ou (ou_text ou g) = Some g"
  by (fastforce simp: faithful_def parse_feed_Some)

lemma renews_later:
  assumes "faithful ou" and "renews ou old new" and "read_stamp ou old = Some s"
  shows "\<exists>t. read_stamp ou new = Some t \<and> s < t"
proof -
  obtain f g now where f: "ou_feed ou old = Some f" and u: "next_update ou now f = Ok (fd_updated_at g)"
    and n: "new = ou_text ou g" "parse_feed ou new \<noteq> None"
    using assms(2) by (auto simp: renews_def)
  have g: "parse_feed ou new = Some g" using n faithful_text [OF assms(1)] by simp
  then obtain t where t: "stamp ou (fd_updated_at g) = Some t" "read_stamp ou new = Some t" using parsed_stamp by blast
  have "parse_feed ou old = Some f" using assms(3) f by (auto simp: read_stamp_def parse_feed_Some bind_eq_Some_conv)
  then have "stamp ou (fd_updated_at f) = Some s" using assms(3) by (simp add: read_stamp_def)
  with next_update_later [OF assms(1) u t(1)] t(2) show ?thesis by auto
qed

text \<open>The file of a running store is readable and not later than the stored feed.\<close>

definition reads_at_least :: "'d world \<Rightarrow> i64 option \<Rightarrow> ustr option \<Rightarrow> bool" where
  "reads_at_least ou s file \<longleftrightarrow> (case s of None \<Rightarrow> True | Some s \<Rightarrow>
     \<exists>raw t. file = Some raw \<and> read_stamp ou raw = Some t \<and> s \<le> t)"

definition in_time :: "'d world \<Rightarrow> i64 option \<Rightarrow> store \<Rightarrow> bool" where
  "in_time ou s st \<longleftrightarrow> reads_at_least ou s (st_file st)
     \<and> (\<exists>raw a b. st_file st = Some raw \<and> read_stamp ou raw = Some a \<and> read_stamp ou (pb_feed (st_db st)) = Some b \<and> a \<le> b)"

lemma in_time_kept: "faithful ou \<Longrightarrow> kept_by_store ou (in_time ou s)"
proof unfold_locales
  fix st st' :: store
  assume "exports_to ou st st'" "in_time ou s st"
  then show "in_time ou s st'" unfolding exports_to_def in_time_def reads_at_least_def by (auto split: option.splits)
next
  fix i a e and st :: store and db'
  assume f: "faithful ou" and c: "commits ou i a e (st_db st) db'" and t: "in_time ou s st"
  then obtain raw a b where r: "st_file st = Some raw" "read_stamp ou raw = Some a"
    "read_stamp ou (pb_feed (st_db st)) = Some b" "a \<le> b"
    by (auto simp: in_time_def)
  have "\<exists>b'. read_stamp ou (pb_feed db') = Some b' \<and> b \<le> b'"
    using c renews_later [OF f _ r(3)] r(3) by (fastforce simp: commits_def)
  with r t show "in_time ou s (st\<lparr> st_db := db' \<rparr>)" by (fastforce simp: in_time_def)
next
  fix st :: store and js
  assume "in_time ou s st"
  then show "in_time ou s (st\<lparr> st_db := (st_db st)\<lparr> pb_jobs := js \<rparr> \<rparr>)" by (simp add: in_time_def)
qed

section \<open>The system's laws\<close>

lemma stopped_run [simp]: "run_ops ou [] p = p" "run_ops ou (op # ops) p = run_ops ou ops (pub_op_step ou op p)"
  by (simp_all add: run_ops_def)

lemma run_ops_keeps: "P p \<Longrightarrow> (\<And>op q. P q \<Longrightarrow> P (pub_op_step ou op q)) \<Longrightarrow> P (run_ops ou ops p)"
  by (induction ops arbitrary: p) simp_all

text \<open>What opening and recovery do, when they do anything.\<close>

lemma state_or_seed_cases:
  "state_or_seed ou seed (Some (Some db)) = Ok db"
  "\<forall>db. disk \<noteq> Some (Some db) \<Longrightarrow> state_or_seed ou seed disk = Ok new
    \<Longrightarrow> \<exists>raw f. parse_feed ou raw = Some f \<and> new = seeded ou f"
  by (auto simp: state_or_seed_def rbind_Ok_iff split: option.splits)

lemma start_store_outcome:
  assumes "start_store ou faults how db file = (res, st)"
  shows "exports_to ou \<lparr> st_db = db, st_file = file \<rparr> st" and "st = \<lparr> st_db = db, st_file = file \<rparr> \<or> check_disk ou db file = Ok ()"
    and "is_ok res \<Longrightarrow> st = \<lparr> st_db = db\<lparr> pb_exported_revision := pb_feed_revision db \<rparr>, st_file = Some (pb_feed db) \<rparr>
      \<and> parse_feed ou (pb_feed db) \<noteq> None"
proof -
  let ?st = "\<lparr> st_db = db, st_file = file \<rparr>"
  obtain r st1 where e: "export_current ou faults how ?st = (r, st1)" by fastforce
  have ex: "exports_to ou ?st st1" using export_current_exports [of ou ?st faults how] e by simp
  show "exports_to ou ?st st" "st = ?st \<or> check_disk ou db file = Ok ()"
    using assms e ex by (auto simp: start_store_def exports_to_def split: sum.splits)
  show "st = \<lparr> st_db = db\<lparr> pb_exported_revision := pb_feed_revision db \<rparr>, st_file = Some (pb_feed db) \<rparr>
      \<and> parse_feed ou (pb_feed db) \<noteq> None" if "is_ok res"
    using assms e that export_current_Ok [of ou faults how ?st st1]
    by (auto simp: start_store_def is_ok_def split: sum.splits if_splits)
qed

lemma open_store_outcome:
  assumes "open_store ou faults how seed (disk, file) = (res, disk', file')"
  shows "\<not> is_ok res \<and> file' = file \<and> (disk' = disk \<or> disk' = Some None \<and> (\<forall>db. disk \<noteq> Some (Some db)))
    \<or> (\<exists>db st. state_or_seed ou seed disk = Ok db \<and> start_store ou faults how db file = (res, st)
         \<and> disk' = Some (Some (st_db st)) \<and> file' = st_file st)"
proof (cases "state_or_seed ou seed disk")
  case (Inl e)
  then have "\<forall>db. disk \<noteq> Some (Some db)" by (auto simp: state_or_seed_cases)
  with assms Inl show ?thesis by (auto simp: open_store_def split: if_splits)
next
  case (Inr db)
  then show ?thesis using assms by (auto simp: open_store_def split: if_splits prod.splits)
qed

lemma recover_outcome:
  assumes "recover_publication ou faults now st = Ok st'"
  shows "\<exists>h raw. st' = st\<lparr> st_db := (st_db st)\<lparr> pb_revision := pb_revision (st_db st) + 1,
          pb_feed_revision := pb_revision (st_db st) + 1, pb_exported_revision := -1, pb_feed := raw,
          pb_history := pb_history (st_db st) @ [h] \<rparr> \<rparr>
        \<and> hs_operation h = ''recover'' \<and> hs_revision h = pb_revision (st_db st) + 1"
proof -
  obtain f updated where "st' = st\<lparr> st_db := (st_db st)\<lparr> pb_revision := pb_revision (st_db st) + 1,
      pb_feed_revision := pb_revision (st_db st) + 1, pb_exported_revision := -1,
      pb_feed := ou_text ou (f\<lparr> fd_updated_at := updated \<rparr>),
      pb_history := pb_history (st_db st) @ [\<lparr> hs_revision = pb_revision (st_db st) + 1, hs_actor = tx ''host recovery'',
                      hs_at = updated, hs_operation = ''recover'', hs_message_id = None, hs_content = None \<rparr>] \<rparr> \<rparr>"
    using assms by (auto simp: recover_publication_def rbind_Ok_iff Let_def case_result_Ok_iff split: if_splits)
  then show ?thesis by (intro exI conjI) (assumption | simp)+
qed

lemma db_ok_recovered:
  assumes "recover_publication ou faults now st = Ok st'" and "db_ok (st_db st)"
  shows "db_ok (st_db st')"
proof -
  have "\<forall>x\<in>set (pb_history (st_db st)). hs_revision x \<le> pb_revision (st_db st) + 1"
    using assms(2) by (auto simp: db_ok_def list_all_iff)
  then show ?thesis
    using recover_outcome [OF assms(1)] assms(2)
    by (auto simp: db_ok_def done_changes_def sorted_wrt_append list_all_iff le_less_trans)
qed

lemma db_ok_seeded: "parse_feed ou raw = Some f \<Longrightarrow> db_ok (seeded ou f)"
proof -
  assume "parse_feed ou raw = Some f"
  then have "distinct (map an_id (fd_messages f))" by (simp add: parse_feed_Some valid_feed_def)
  moreover have "ms_id \<circ> seed_row = an_id" by (rule ext) (simp add: seed_row_def Let_def)
  ultimately show ?thesis by (simp add: db_ok_def seeded_def done_changes_def list_all_iff) (auto simp: seed_row_def Let_def)
qed

definition pub_sound :: "publisher \<Rightarrow> bool" where
  "pub_sound p \<longleftrightarrow> list_all db_ok (py_backups p)
     \<and> (case py_disk p of
          Some (Some db) \<Rightarrow> db_ok db \<and> (py_running p \<longrightarrow> marked \<lparr> st_db = db, st_file = py_file p \<rparr>)
        | _ \<Rightarrow> \<not> py_running p)"

lemma marked_eta [simp]: "marked \<lparr> st_db = st_db st, st_file = st_file st \<rparr> = marked st"
  by (simp add: marked_def)

lemma pub_sound_running:
  assumes "pub_sound p" and "\<And>st. db_ok (st_db st) \<Longrightarrow> db_ok (st_db (f st))" and "\<And>st. marked st \<Longrightarrow> marked (f st)"
  shows "pub_sound (while_running f p)"
proof (cases "\<exists>db. py_disk p = Some (Some db) \<and> py_running p")
  case True
  then obtain db where d: "py_disk p = Some (Some db)" "py_running p" by blast
  let ?st = "\<lparr> st_db = db, st_file = py_file p \<rparr>"
  have "db_ok (st_db ?st)" "marked ?st" using assms(1) d by (simp_all add: pub_sound_def)
  then have "db_ok (st_db (f ?st))" "marked (f ?st)" using assms(2,3) by blast+
  then show ?thesis using assms(1) d by (simp add: pub_sound_def while_running_def Let_def)
next
  case False
  then have "while_running f p = p" by (auto simp: while_running_def split: option.splits)
  with assms(1) show ?thesis by simp
qed

lemma pub_sound_open:
  assumes "pub_sound p" and "\<not> py_running p" and "open_store ou faults how seed (py_disk p, py_file p) = (res, disk, file)"
  shows "pub_sound (p\<lparr> py_disk := disk, py_file := file, py_running := is_ok res \<rparr>)"
  using open_store_outcome [OF assms(3)]
proof (elim disjE exE conjE)
  fix db st
  assume db: "state_or_seed ou seed (py_disk p) = Ok db" and st: "start_store ou faults how db (py_file p) = (res, st)"
    and d: "disk = Some (Some (st_db st))" "file = st_file st"
  note out = start_store_outcome [OF st]
  have ok: "db_ok db"
  proof (cases "\<exists>old. py_disk p = Some (Some old)")
    case True
    then show ?thesis using db assms(1) by (auto simp: state_or_seed_cases pub_sound_def)
  next
    case False
    then show ?thesis using state_or_seed_cases(2) [OF _ db] db_ok_seeded by blast
  qed
  then have "db_ok (st_db st)" using tables.exported [OF out(1)] by simp
  moreover have "marked st" if "is_ok res" using out(3) [OF that] ok by (simp add: marked_def db_ok_def)
  moreover have "\<lparr> st_db = st_db st, st_file = st_file st \<rparr> = st" by simp
  ultimately show ?thesis using assms(1) d by (simp add: pub_sound_def)
qed (use assms in \<open>auto simp: pub_sound_def split: option.splits\<close>)

lemma pub_sound_step: "pub_sound p \<Longrightarrow> pub_sound (pub_op_step ou op p)"
proof -
  assume p: "pub_sound p"
  show ?thesis
  proof (cases op)
    case (Change env c)
    then show ?thesis by simp (intro pub_sound_running [OF p] tables.change_kept mark.change_kept)
  next
    case (Event env c)
    then show ?thesis by simp (intro pub_sound_running [OF p] tables.event_kept mark.event_kept)
  next
    case (Retry faults how)
    then show ?thesis by simp (intro pub_sound_running [OF p] tables.retry_kept mark.retry_kept)
  next
    case (JobAsked faults job actor now)
    then show ?thesis by simp (intro pub_sound_running [OF p] tables.job_kept mark.job_kept)
  next
    case (Recover faults now)
    then show ?thesis using p db_ok_recovered [of ou faults now]
      by (fastforce simp: pub_sound_def recovered_def split: option.splits sum.splits)
  next
    case (Open faults how seed)
    then show ?thesis using p pub_sound_open [of p ou faults how seed] by (auto split: prod.splits)
  qed (use p in \<open>auto simp: pub_sound_def list_all_length nth_append split: option.splits\<close>)
qed

text \<open>In every state the publisher can reach, whatever is asked of it and whatever fails, every database on disk or
  in a backup has consistent tables: one history row of its own revision and one request row for every committed change, no
  request twice, no announcement twice. A running publisher whose feed is marked exported has that feed on disk.\<close>

lemma publication_stays_sound: "pub_sound (run_ops ou ops fresh_host)"
proof (rule run_ops_keeps [of pub_sound])
  show "pub_sound fresh_host" by (simp add: pub_sound_def fresh_host_def)
qed (rule pub_sound_step)

section \<open>Requests\<close>

definition tables_of :: "publisher \<Rightarrow> publication option" where
  "tables_of p = (case py_disk p of Some (Some db) \<Rightarrow> Some (unexported db) | _ \<Rightarrow> None)"

lemma exports_to_unexported: "exports_to ou st st' \<Longrightarrow> unexported (st_db st') = unexported (st_db st)"
  by (auto simp: exports_to_def unexported_def)

lemma change_outcome:
  "let st' = snd (apply_change ou env c st)
   in unexported (st_db st') = unexported (st_db st)
      \<or> (\<exists>db'. commits ou (cg_request_id c) (re_actor env) (cg_expected_revision c) (st_db st) db'
           \<and> unexported (st_db st') = unexported db')"
  using run_request_outcome [of ou env "cg_request_id c" "change_body ou env c" st]
    exports_to_unexported [of ou st "snd (apply_change ou env c st)"] change_body_commits [of ou env c "st_db st"]
    exports_to_unexported [of ou _ "snd (apply_change ou env c st)"]
  by (auto simp: Let_def apply_change_def)

text \<open>No change is lost or applied to tables its author did not see: an operation on the announcements leaves every table
  as it was (the export mark apart), or it commits on exactly the revision the request names, which no later operation can
  name again, and adds one history and one request row.\<close>

lemma changes_apply_to_the_revision_seen:
  "let st' = snd (apply_change ou env c st)
   in unexported (st_db st') = unexported (st_db st)
      \<or> (\<exists>db'. commits ou (cg_request_id c) (re_actor env) (cg_expected_revision c) (st_db st) db'
           \<and> unexported (st_db st') = unexported db')"
  by (rule change_outcome)

fun restores :: "pub_op \<Rightarrow> bool" where
  "restores (Restore i) = True"
| "restores op = False"

interpretation requests: kept_by_store ou "\<lambda>st. prior_request i a (st_db st) = Some r" for ou :: "'d world" and i a r
  by unfold_locales (auto simp: exports_to_def commits_def prior_request_def find_append)

definition has_request :: "ustr \<Rightarrow> ustr \<Rightarrow> publisher \<Rightarrow> bool" where
  "has_request i a p \<longleftrightarrow> (\<exists>db r. py_disk p = Some (Some db) \<and> prior_request i a db = Some r)"

lemma has_request_running:
  assumes "has_request i a p"
    and "\<And>r st. prior_request i a (st_db st) = Some r \<Longrightarrow> prior_request i a (st_db (f st)) = Some r"
  shows "has_request i a (while_running f p)"
  using assms by (fastforce simp: has_request_def while_running_def Let_def)

lemma has_request_open:
  assumes "has_request i a p" and "open_store ou faults how seed (py_disk p, py_file p) = (res, disk, file)"
  shows "has_request i a (p\<lparr> py_disk := disk, py_file := file, py_running := is_ok res \<rparr>)"
proof -
  from assms(1) obtain db r where d: "py_disk p = Some (Some db)" "prior_request i a db = Some r" by (auto simp: has_request_def)
  from open_store_outcome [OF assms(2)] show ?thesis
  proof (elim disjE exE conjE)
    fix db1 st
    assume db: "state_or_seed ou seed (py_disk p) = Ok db1" and st: "start_store ou faults how db1 (py_file p) = (res, st)"
      and e: "disk = Some (Some (st_db st))"
    then have "db1 = db" using d by (simp add: state_or_seed_cases)
    then show ?thesis using requests.exported [OF start_store_outcome(1) [OF st], of i a r] d e by (simp add: has_request_def)
  qed (use d assms(1) in \<open>auto simp: has_request_def\<close>)
qed

lemma has_request_step: "has_request i a p \<Longrightarrow> \<not> restores op \<Longrightarrow> has_request i a (pub_op_step ou op p)"
proof -
  assume p: "has_request i a p" and op: "\<not> restores op"
  show ?thesis
  proof (cases op)
    case (Change env c)
    then show ?thesis by simp (intro has_request_running [OF p] requests.change_kept)
  next
    case (Event env c)
    then show ?thesis by simp (intro has_request_running [OF p] requests.event_kept)
  next
    case (Retry faults how)
    then show ?thesis by simp (intro has_request_running [OF p] requests.retry_kept)
  next
    case (JobAsked faults job actor now)
    then show ?thesis by simp (intro has_request_running [OF p] requests.job_kept)
  next
    case (Recover faults now)
    then show ?thesis using p recover_outcome [of ou faults now]
      by (fastforce simp: has_request_def recovered_def prior_request_def split: sum.splits)
  next
    case (Open faults how seed)
    then show ?thesis using p has_request_open [OF p, of ou faults how seed] by (auto split: prod.splits)
  qed (use p op in \<open>auto simp: has_request_def\<close>)
qed

lemma has_request_ops:
  "has_request i a p \<Longrightarrow> list_all (\<lambda>op. \<not> restores op) ops \<Longrightarrow> has_request i a (run_ops ou ops p)"
  by (induction ops arbitrary: p) (simp_all add: has_request_step)

lemma committed_change_has_request:
  assumes "tables_of (pub_op_step ou (Change env c) p) \<noteq> tables_of p"
  shows "has_request (cg_request_id c) (re_actor env) (pub_op_step ou (Change env c) p)"
proof -
  from assms obtain db where d: "py_disk p = Some (Some db)" "py_running p"
    by (auto simp: while_running_def split: option.splits if_splits)
  let ?st = "\<lparr> st_db = db, st_file = py_file p \<rparr>"
  let ?new = "st_db (snd (apply_change ou env c ?st))"
  have "unexported ?new \<noteq> unexported db"
    using assms d by (auto simp: while_running_def tables_of_def Let_def)
  then obtain db' where c: "commits ou (cg_request_id c) (re_actor env) (cg_expected_revision c) db db'"
    and u: "unexported ?new = unexported db'"
    using change_outcome [of ou env c ?st] by (auto simp: Let_def)
  have "pb_requests ?new = pb_requests db'" using arg_cong [OF u, of pb_requests] by (simp add: unexported_def)
  moreover have "prior_request (cg_request_id c) (re_actor env) db' \<noteq> None"
    using c by (auto simp: commits_def new_key)
  ultimately show ?thesis using d by (auto simp: has_request_def while_running_def Let_def prior_request_def)
qed

lemma known_request_changes_nothing:
  assumes "prior_request (cg_request_id c) (re_actor env) (st_db st) = Some r"
  shows "unexported (st_db (snd (apply_change ou env c st))) = unexported (st_db st)"
    and "rq_digest r \<noteq> ou_digest ou (ChangeRequest c) \<Longrightarrow> \<not> is_ok (fst (apply_change ou env c st))
      \<and> snd (apply_change ou env c st) = st"
proof -
  have body: "change_body ou env c (st_db st) \<noteq> Ok (Some db)" for db
    using assms by (simp add: change_body_def rbind_def split: sum.splits)
  then show "unexported (st_db (snd (apply_change ou env c st))) = unexported (st_db st)"
    using change_outcome [of ou env c st] by (auto simp: Let_def commits_def assms)
  show "\<not> is_ok (fst (apply_change ou env c st)) \<and> snd (apply_change ou env c st) = st"
    if "rq_digest r \<noteq> ou_digest ou (ChangeRequest c)"
    using assms that by (auto simp: apply_change_def run_request_def change_body_def rbind_def split: sum.splits)
qed

text \<open>C26: An announcement request takes effect at most once: after one that changed the tables, and whatever happens next short
  of restoring a backup (exports, restarts, recoveries and other requests), a request of the same author under the same
  identifier leaves every table as it is.\<close>

theorem repeated_requests_change_nothing:
  assumes "tables_of (pub_op_step ou (Change env c) p) \<noteq> tables_of p"
    and "list_all (\<lambda>op. \<not> restores op) ops"
    and "re_actor env' = re_actor env" and "cg_request_id c' = cg_request_id c"
  shows "let q = run_ops ou ops (pub_op_step ou (Change env c) p)
    in tables_of (pub_op_step ou (Change env' c') q) = tables_of q"
proof -
  let ?q = "run_ops ou ops (pub_op_step ou (Change env c) p)"
  obtain db r where d: "py_disk ?q = Some (Some db)" "prior_request (cg_request_id c) (re_actor env) db = Some r"
    using has_request_ops [OF committed_change_has_request [OF assms(1)] assms(2), of ou] by (auto simp: has_request_def)
  have "unexported (st_db (snd (apply_change ou env' c' \<lparr> st_db = db, st_file = py_file ?q \<rparr>))) = unexported db"
    using known_request_changes_nothing(1) [of c' env' "\<lparr> st_db = db, st_file = py_file ?q \<rparr>" r ou] d assms(3,4) by simp
  with d show ?thesis by (simp add: while_running_def tables_of_def Let_def)
qed

section \<open>Readers never go back\<close>

definition timely :: "'d world \<Rightarrow> i64 option \<Rightarrow> publisher \<Rightarrow> bool" where
  "timely ou s p \<longleftrightarrow> reads_at_least ou s (py_file p)
     \<and> (py_running p \<longrightarrow> (\<exists>db. py_disk p = Some (Some db) \<and> in_time ou s \<lparr> st_db = db, st_file = py_file p \<rparr>))"

lemma in_time_eta [simp]: "in_time ou s \<lparr> st_db = st_db st, st_file = st_file st \<rparr> = in_time ou s st"
  by (simp add: in_time_def)

lemma timely_running:
  assumes "timely ou s p" and "\<And>st. in_time ou s st \<Longrightarrow> in_time ou s (f st)"
  shows "timely ou s (while_running f p)"
proof (cases "\<exists>db. py_disk p = Some (Some db) \<and> py_running p")
  case True
  then obtain db where d: "py_disk p = Some (Some db)" "py_running p" by blast
  let ?st = "\<lparr> st_db = db, st_file = py_file p \<rparr>"
  have "in_time ou s (f ?st)" using assms d by (simp add: timely_def)
  then show ?thesis using d by (simp add: timely_def while_running_def Let_def) (simp add: in_time_def)
next
  case False
  then have "while_running f p = p" by (auto simp: while_running_def split: option.splits)
  with assms(1) show ?thesis by simp
qed

lemma check_disk_in_time:
  assumes "faithful ou" and "check_disk ou db file = Ok ()" and "reads_at_least ou s file"
    and "parse_feed ou (pb_feed db) \<noteq> None"
  shows "reads_at_least ou s (Some (pb_feed db))"
proof (cases s)
  case (Some t)
  with assms(3) obtain raw a where r: "file = Some raw" "read_stamp ou raw = Some a" "t \<le> a"
    by (auto simp: reads_at_least_def)
  obtain disk where disk: "parse_feed ou raw = Some disk" "stamp ou (fd_updated_at disk) = Some a"
    using r(2) by (auto simp: read_stamp_def bind_eq_Some_conv)
  obtain stored where f: "parse_feed ou (pb_feed db) = Some stored" using assms(4) by auto
  then obtain b where b: "stamp ou (fd_updated_at stored) = Some b" "read_stamp ou (pb_feed db) = Some b"
    using parsed_stamp by blast
  have "\<not> fd_updated_at stored < fd_updated_at disk"
    using assms(2) r(1) disk f by (simp add: check_disk_def split: if_splits)
  then have "\<not> b < a" using assms(1) b(1) disk(2) unfolding faithful_def by blast
  with b(2) r(3) Some show ?thesis by (simp add: reads_at_least_def)
qed (simp add: reads_at_least_def)

lemma timely_open:
  assumes "faithful ou" and "timely ou s p" and "open_store ou faults how seed (py_disk p, py_file p) = (res, disk, file)"
  shows "timely ou s (p\<lparr> py_disk := disk, py_file := file, py_running := is_ok res \<rparr>)"
  using open_store_outcome [OF assms(3)]
proof (elim disjE exE conjE)
  fix db st
  assume st: "start_store ou faults how db (py_file p) = (res, st)"
    and d: "disk = Some (Some (st_db st))" "file = st_file st"
  have old: "reads_at_least ou s (py_file p)" using assms(2) by (simp add: timely_def)
  have read: "reads_at_least ou s (st_file st)"
  proof (cases "st = \<lparr> st_db = db, st_file = py_file p \<rparr>")
    case True
    with old show ?thesis by simp
  next
    case False
    then have "st_file st = Some (pb_feed db)" "parse_feed ou (pb_feed db) \<noteq> None" "check_disk ou db (py_file p) = Ok ()"
      using start_store_outcome(1,2) [OF st] by (auto simp: exports_to_def)
    then show ?thesis using check_disk_in_time [OF assms(1) _ old] by simp
  qed
  moreover have "in_time ou s st" if "is_ok res"
    using start_store_outcome(3) [OF st that] read parsed_stamp [of ou "pb_feed db"] by (auto simp: in_time_def)
  ultimately show ?thesis using d by (simp add: timely_def)
qed (use assms(2) in \<open>auto simp: timely_def\<close>)

lemma timely_step: "faithful ou \<Longrightarrow> timely ou s p \<Longrightarrow> timely ou s (pub_op_step ou op p)"
proof -
  assume ou: "faithful ou" and p: "timely ou s p"
  note law = in_time_kept [OF ou, of s]
  show ?thesis
  proof (cases op)
    case (Change env c)
    then show ?thesis by simp (intro timely_running [OF p] kept_by_store.change_kept [OF law])
  next
    case (Event env c)
    then show ?thesis by simp (intro timely_running [OF p] kept_by_store.event_kept [OF law])
  next
    case (Retry faults how)
    then show ?thesis by simp (intro timely_running [OF p] kept_by_store.retry_kept [OF law])
  next
    case (JobAsked faults job actor now)
    then show ?thesis by simp (intro timely_running [OF p] kept_by_store.job_kept [OF law])
  next
    case (Recover faults now)
    then show ?thesis using p recover_outcome [of ou faults now]
      by (fastforce simp: timely_def recovered_def split: option.splits sum.splits)
  next
    case (Open faults how seed)
    then show ?thesis using p timely_open [OF ou p, of faults how seed] by (auto split: prod.splits)
  qed (use p in \<open>auto simp: timely_def split: option.splits\<close>)
qed

text \<open>C24: The public feed never goes back: once readers can read a feed of some second, then whatever follows (changes,
  failing exports, restarts, backups of any age restored, host recovery), the exported file stays readable and of that second
  or a later one.\<close>

theorem public_feed_never_goes_back:
  assumes "faithful ou"
  shows "let p = run_ops ou before fresh_host
    in reads_at_least ou (Option.bind (py_file p) (read_stamp ou)) (py_file (run_ops ou after p))"
proof -
  let ?p = "run_ops ou before fresh_host"
  let ?s = "Option.bind (py_file ?p) (read_stamp ou)"
  have fresh: "timely ou None fresh_host" by (simp add: timely_def fresh_host_def reads_at_least_def)
  have "timely ou None ?p" by (rule run_ops_keeps [of "timely ou None", OF fresh]) (rule timely_step [OF assms])
  then have "timely ou ?s ?p"
    by (auto simp: timely_def in_time_def reads_at_least_def bind_eq_Some_conv split: option.splits)
  then have "timely ou ?s (run_ops ou after ?p)" by (rule run_ops_keeps) (rule timely_step [OF assms])
  then show ?thesis by (simp add: timely_def Let_def)
qed

section \<open>What readers see of the announcements\<close>

text \<open>The specification: a board of published announcements, and the drafts beside it.\<close>

type_synonym board = "ustr \<rightharpoonup> content"

definition board :: "publication \<Rightarrow> board" where
  "board db ident = Option.bind (find_message ident db) ms_published"

definition drafts :: "publication \<Rightarrow> board" where
  "drafts db ident = map_option ms_draft (find_message ident db)"

fun board_step :: "operation \<Rightarrow> ustr option \<Rightarrow> board \<Rightarrow> board \<Rightarrow> board" where
  "board_step Publish (Some ident) ds b = b(ident := ds ident)"
| "board_step Withdraw (Some ident) ds b = b(ident := None)"
| "board_step _ _ ds b = b"

lemma find_message_update:
  assumes "\<And>m. ms_id (f m) = ms_id m"
  shows "find_message i (update_message ident f db)
    = map_option (\<lambda>m. if i = ident then f m else m) (find_message i db)"
proof -
  have "find (\<lambda>m. ms_id m = i) (map (\<lambda>m. if ms_id m = ident then f m else m) ms)
      = map_option (\<lambda>m. if i = ident then f m else m) (find (\<lambda>m. ms_id m = i) ms)" for ms
    by (induction ms) (auto simp: assms)
  then show ?thesis by (simp add: find_message_def update_message_def)
qed

lemma board_upsert: "board (upsert_draft ident c db) = board db"
proof (cases "find_message ident db")
  case None
  then show ?thesis
    by (auto simp: board_def upsert_draft_def find_message_def fun_eq_iff find_append split: option.splits)
next
  case (Some m)
  then show ?thesis by (auto simp: board_def upsert_draft_def find_message_update fun_eq_iff map_option_case split: option.splits)
qed

lemma board_update:
  assumes "\<And>m. ms_id (f m) = ms_id m" and "find_message ident db = Some row"
  shows "board (update_message ident f db) = (board db)(ident := ms_published (f row))"
  using assms by (auto simp: board_def find_message_update fun_eq_iff map_option_case split: option.splits)

lemma perform_board:
  assumes "perform ou env c ident at db = Ok (db', saved, name)" and "cg_operation c \<noteq> Save \<Longrightarrow> cg_id c = Some ident"
  shows "board db' = board_step (cg_operation c) (cg_id c) (drafts db) (board db)"
  using assms
  by (cases "cg_operation c")
    (auto simp: perform_def rbind_Ok_iff board_upsert board_update drafts_def split: if_splits)

lemma board_frame [simp]:
  "board (pb_feed_update h db) = board db" "board (pb_feed_revision_update g db) = board db"
  "board (pb_history_update k db) = board db" "board (pb_revision_update g db) = board db"
  "board (pb_requests_update l db) = board db"
  by (simp_all add: board_def find_message_def fun_eq_iff)

text \<open>The feed of a board: every announcement that is published and has not ended, and of the events those whose last day (the
  end, or the start of one without an end) is at most a week ago.\<close>

definition on_show :: "'d world \<Rightarrow> i64 \<Rightarrow> message_row \<Rightarrow> bool" where
  "on_show ou now m \<longleftrightarrow> (\<exists>c t. ms_published m = Some c \<and> stamp ou (ct_ends_at c) = Some t \<and> now < t)"

definition announces :: "message_row \<Rightarrow> announcement \<Rightarrow> bool" where
  "announces m a \<longleftrightarrow> (\<exists>c. ms_published m = Some c \<and> an_id a = ms_id m \<and> an_title a = ct_title c \<and> an_body a = ct_body c
     \<and> an_source_url a = ct_source_url c \<and> an_starts_at a = ct_starts_at c \<and> an_ends_at a = ct_ends_at c)"

definition recent :: "'d world \<Rightarrow> i64 \<Rightarrow> official_event \<Rightarrow> bool" where
  "recent ou now e \<longleftrightarrow>
     (\<exists>t. stamp ou (case oe_ends_at e of Some d \<Rightarrow> d | None \<Rightarrow> oe_starts_at e) = Some t \<and> now - 7 * 24 * 60 * 60 \<le> t)"

lemma shown_messages:
  "list_all2 announces (filter (on_show ou now) rows) (List.map_filter (shown_message ou now) rows)"
proof (induction rows)
  case (Cons m rows)
  then show ?case
    by (cases "ms_published m"; cases "stamp ou (ct_ends_at (the (ms_published m)))")
      (auto simp: map_filter_simps shown_message_def on_show_def announces_def message_of_def is_some_and_def)
qed (simp add: map_filter_simps)

lemma pruned_events:
  assumes "i64_range (now - 7 * 24 * 60 * 60)"
  shows "fd_events (prune_events ou now f) = map_option (filter (recent ou now)) (fd_events f)"
proof -
  have last: "last_moment e = (case oe_ends_at e of Some d \<Rightarrow> d | None \<Rightarrow> oe_starts_at e)" for e
    by (simp add: last_moment_def unwrap_or_def)
  have "(\<lambda>e. is_some_and (stamp ou (last_moment e)) (\<lambda>t. i64_wrap (now - EVENT_RETENTION) \<le> t)) = recent ou now"
    using assms i64_wrap_id
    by (auto simp: recent_def last is_some_and_def EVENT_RETENTION_def fun_eq_iff split: option.splits)
  then show ?thesis by (simp add: prune_events_def)
qed

lemma change_id_known: "change_id env c = Ok ident \<Longrightarrow> cg_operation c \<noteq> Save \<Longrightarrow> cg_id c = Some ident"
  by (auto simp: change_id_def split: option.splits)

text \<open>C25: A committed change does to the board what its operation says (publishing shows the draft, withdrawing removes it,
  saving shows nothing new). Saving leaves the feed as it was; after the others the feed reads back as exactly the published
  announcements that have not ended, each as it was published, in the order of their rows, and the events of the feed before it
  whose last day is no more than a week ago.\<close>

theorem changes_refine_the_board:
  assumes "faithful ou" and "change_body ou env c db = Ok (Some db')" and "i64_range (re_now env - 7 * 24 * 60 * 60)"
  shows "board db' = board_step (cg_operation c) (cg_id c) (drafts db) (board db)
    \<and> (if cg_operation c = Save then pb_feed db' = pb_feed db
       else is_some_and (parse_feed ou (pb_feed db')) (\<lambda>f.
         list_all2 announces (filter (on_show ou (re_now env)) (pb_messages db')) (fd_messages f)
         \<and> is_some_and (ou_feed ou (pb_feed db)) (\<lambda>before.
             fd_events f = map_option (filter (recent ou (re_now env))) (fd_events before))))"
  using assms(2)
proof (rule change_body_OkE)
  fix f ident at db1 saved name db2 db3
  assume before: "ou_feed ou (pb_feed db) = Some f" and id: "change_id env c = Ok ident" and p: "perform ou env c ident at db = Ok (db1, saved, name)"
    and r: "(if cg_operation c = Save then Ok db1 else republish ou env (pb_revision db + 1) f db1) = Ok db2"
    and h: "write_history (re_faults env) \<lparr> hs_revision = pb_revision db + 1, hs_actor = re_actor env, hs_at = at,
        hs_operation = name, hs_message_id = Some ident, hs_content = Some (OfMessage saved) \<rparr>
        (db2\<lparr> pb_revision := pb_revision db + 1 \<rparr>) = Ok db3"
    and w: "write_request (re_faults env) \<lparr> rq_request_id = cg_request_id c, rq_actor = re_actor env,
        rq_digest = ou_digest ou (ChangeRequest c), rq_message_id = ident \<rparr> db3 = Ok db'"
  note tables = write_history_Ok [OF h] write_request_Ok [OF w]
  have board: "board db1 = board_step (cg_operation c) (cg_id c) (drafts db) (board db)"
    by (rule perform_board [OF p]) (rule change_id_known [OF id])
  show ?thesis
  proof (cases "cg_operation c = Save")
    case True
    then have "pb_feed db1 = pb_feed db" using perform_Ok(1) [OF p] by (metis only_messages_def publication.select_convs(4) publication.surjective publication.update_convs(5))
    then show ?thesis using True r tables board by simp
  next
    case False
    then obtain updated where g: "parse_feed ou (ou_text ou (republished ou (re_now env) updated (pb_messages db1) f)) \<noteq> None"
      and db: "db2 = db1\<lparr> pb_feed := ou_text ou (republished ou (re_now env) updated (pb_messages db1) f),
          pb_feed_revision := pb_revision db + 1 \<rparr>"
      using r by (auto simp: republish_def rbind_Ok_iff Let_def split: if_splits)
    then show ?thesis using False tables board before faithful_text [OF assms(1) g]
      by (simp add: republished_def pruned_events [OF assms(3)] shown_messages)
  qed
qed

section \<open>A small world\<close>

text \<open>
  Dates are seconds; two feeds can be written: an empty one of second 5, and the one that shows an announcement
  since second 7.
\<close>

definition sample_date :: "int \<Rightarrow> ustr" where
  "sample_date n = [48, 48, 48, 48, 48, 48, 48, 48, 48, 48, 48, 48, 48, 48, 48, 48, 48, 48, 48, n]"

definition sample_draft :: content where
  "sample_draft = \<lparr> ct_title = tx ''Sale'', ct_body = tx ''Today'', ct_source_url = [], ct_starts_at = sample_date 1,
     ct_ends_at = sample_date 100 \<rparr>"

definition sample_id :: ustr where "sample_id = tx ''announcement-x''"

definition empty_feed :: announcement_feed where
  "empty_feed = \<lparr> fd_version = 1, fd_updated_at = sample_date 5, fd_messages = [], fd_events = None \<rparr>"

definition sale_feed :: announcement_feed where
  "sale_feed = \<lparr> fd_version = 1, fd_updated_at = sample_date 7, fd_messages = [message_of sample_draft sample_id], fd_events = None \<rparr>"

definition sample_text :: "announcement_feed \<Rightarrow> ustr" where
  "sample_text f = (if f = empty_feed then [0] else if f = sale_feed then [1] else [2])"

definition sample_feed :: "ustr \<Rightarrow> announcement_feed option" where
  "sample_feed raw = (if raw = [0] then Some empty_feed else if raw = [1] then Some sale_feed else None)"

definition sample :: "int world" where
  "sample = \<lparr> ou_read_date = (\<lambda>s. case rev s of [] \<Rightarrow> None | n # _ \<Rightarrow> Some n), ou_write_date = sample_date, ou_timestamp = (\<lambda>n. n),
     ou_date_at = Some,
     ou_url = (\<lambda>_. Some \<lparr> ur_scheme = tx ''https'', ur_username = [], ur_password = None, ur_port = None,
                ur_host = Some (tx ''warframe.com'') \<rparr>),
     ou_text = sample_text, ou_feed = sample_feed, ou_digest = (\<lambda>_. []) \<rparr>"

definition sample_env :: request_env where
  "sample_env = \<lparr> re_faults = (\<lambda>_. False), re_fresh = tx ''x'', re_export = Succeeds, re_actor = tx ''ann'', re_now = 7 \<rparr>"

definition sample_save :: change where
  "sample_save = \<lparr> cg_request_id = tx ''request-00000001'', cg_expected_revision = 0, cg_operation = Save, cg_id = None,
     cg_content = Some sample_draft \<rparr>"

definition sample_publish :: change where
  "sample_publish = \<lparr> cg_request_id = tx ''request-00000002'', cg_expected_revision = 1, cg_operation = Publish,
     cg_id = Some sample_id, cg_content = None \<rparr>"

definition sample_opening :: pub_op where
  "sample_opening = Open (\<lambda>_. False) Succeeds (Some [0])"

lemma sample_stamp: "stamp sample s = Some t \<Longrightarrow> s = sample_date t"
  by (auto simp: stamp_def sample_def split: if_splits list.splits)

lemma feeds_differ [simp]: "empty_feed \<noteq> sale_feed" "sale_feed \<noteq> empty_feed"
  by (simp_all add: empty_feed_def sale_feed_def)

lemma sample_faithful: "faithful sample"
  unfolding faithful_def
proof (intro conjI allI impI)
  fix f
  assume "parse_feed sample (ou_text sample f) \<noteq> None"
  then show "ou_feed sample (ou_text sample f) = Some f"
    by (auto simp: parse_feed_Some sample_def sample_text_def sample_feed_def split: if_splits)
next
  fix now d t
  assume "ou_date_at sample now = Some d" "stamp sample (ou_write_date sample d) = Some t"
  then have "sample_date now = sample_date t" using sample_stamp by (simp add: sample_def)
  then show "t = now" by (simp add: sample_date_def)
next
  fix a b s t
  assume "stamp sample a = Some s" "stamp sample b = Some t" "s < t"
  then show "a < b" by (auto dest!: sample_stamp simp: sample_date_def)
qed

definition sample_db :: "i64 \<Rightarrow> publication" where
  "sample_db shown = \<lparr> pb_revision = 0, pb_feed_revision = 0, pb_exported_revision = shown, pb_feed = [0], pb_messages = [],
     pb_history = [], pb_requests = [], pb_jobs = [] \<rparr>"

definition saved_db :: publication where
  "saved_db = (sample_db 0)\<lparr> pb_revision := 1,
     pb_messages := [\<lparr> ms_id = sample_id, ms_draft = sample_draft, ms_published = None, ms_ever_published = False \<rparr>],
     pb_history := [\<lparr> hs_revision = 1, hs_actor = tx ''ann'', hs_at = sample_date 7, hs_operation = ''save'',
       hs_message_id = Some sample_id, hs_content = Some (OfMessage sample_draft) \<rparr>],
     pb_requests := [\<lparr> rq_request_id = tx ''request-00000001'', rq_actor = tx ''ann'', rq_digest = [], rq_message_id = sample_id \<rparr>] \<rparr>"

definition published_db :: publication where
  "published_db = saved_db\<lparr> pb_revision := 2, pb_feed_revision := 2, pb_feed := [1],
     pb_messages := [\<lparr> ms_id = sample_id, ms_draft = sample_draft, ms_published = Some sample_draft, ms_ever_published = True \<rparr>],
     pb_history := pb_history saved_db @ [\<lparr> hs_revision = 2, hs_actor = tx ''ann'', hs_at = sample_date 7,
       hs_operation = ''publish'', hs_message_id = Some sample_id, hs_content = Some (OfMessage sample_draft) \<rparr>],
     pb_requests := pb_requests saved_db @ [\<lparr> rq_request_id = tx ''request-00000002'', rq_actor = tx ''ann'', rq_digest = [],
       rq_message_id = sample_id \<rparr>] \<rparr>"

lemma sample_stamps [simp]: "0 \<le> n \<Longrightarrow> n < 128 \<Longrightarrow> stamp sample (sample_date n) = Some n"
  by (simp add: stamp_def sample_def sample_date_def byte_len_def char_len_def)

lemma sample_utc [simp]: "utc sample n = Ok (sample_date n)"
  by (simp add: utc_def sample_def)

lemma sample_texts [simp]:
  "ou_text sample empty_feed = [0]" "ou_text sample sale_feed = [1]"
  "ou_feed sample [0] = Some empty_feed" "ou_feed sample [1] = Some sale_feed" "ou_digest sample r = []"
  by (simp_all add: sample_def sample_text_def sample_feed_def)

lemma sample_codes:
  "sample_id = [97, 110, 110, 111, 117, 110, 99, 101, 109, 101, 110, 116, 45, 120]"
  "tx ''Sale'' = [83, 97, 108, 101]" "tx ''Today'' = [84, 111, 100, 97, 121]"
  "tx ''announcement-'' @ tx ''x'' = sample_id"
  by (simp_all add: sample_id_def tx_def)

lemma sample_source [simp]: "permitted_source sample raw the_limits"
  by (simp add: permitted_source_def sample_def the_limits_def tx_def)

lemma sample_message: "valid_message sample (message_of sample_draft sample_id) the_limits"
  by (simp add: valid_message_def message_of_def sample_draft_def valid_id_def plain_text_def sample_codes trim_def trim_start_def
     trim_end_where_def is_whitespace_def misleading_def is_control_def id_char_def digit_def checked_sub_def i64_range_def)
    (simp add: the_limits_def)

lemma sample_valid: "valid_feed sample empty_feed the_limits" "valid_feed sample sale_feed the_limits"
  by (simp_all add: valid_feed_def empty_feed_def sale_feed_def sample_message) (simp_all add: the_limits_def)

lemma sample_parsed [simp]: "parse_feed sample [0] = Some empty_feed" "parse_feed sample [1] = Some sale_feed"
  using sample_valid by (simp_all add: parse_feed_Some byte_len_def char_len_def the_limits_def)

lemma sample_request_ids: "check_request_id (cg_request_id sample_save) = Ok ()" "check_request_id (cg_request_id sample_publish) = Ok ()"
  by (simp_all add: check_request_id_def sample_save_def sample_publish_def tx_def byte_len_def char_len_def request_char_def digit_def)

lemma sample_update: "next_update sample 7 empty_feed = Ok (sample_date 7)"
  by (simp add: next_update_def empty_feed_def checked_inc_def i64_range_def)

lemma sample_new_draft: "\<lparr> fd_version = 1, fd_updated_at = sample_date 7, fd_messages = [message_of sample_draft sample_id], fd_events = None \<rparr> = sale_feed"
  by (simp add: sale_feed_def)

lemma sample_saves: "change_body sample sample_env sample_save (sample_db s) = Ok (Some (saved_db\<lparr>pb_exported_revision := s\<rparr>))"
  by (simp add: change_body_def sample_save_def sample_env_def sample_db_def saved_db_def checked_inc_def i64_range_def change_id_def
    sample_codes(4) prior_request_def perform_def sample_new_draft write_history_def write_request_def db_step_def upsert_draft_def find_message_def)

lemma sample_republished: "republished sample 7 (sample_date 7) [\<lparr> ms_id = sample_id, ms_draft = sample_draft, ms_published = Some sample_draft, ms_ever_published = True \<rparr>] empty_feed
  = sale_feed"
  by (simp add: republished_def prune_events_def empty_feed_def sale_feed_def shown_message_def map_filter_simps) (simp add: sample_draft_def)

lemma sample_ends: "stamp sample (ct_ends_at sample_draft) = Some 100"
  by (simp add: sample_draft_def)

lemma sample_ids_differ: "tx ''request-00000001'' \<noteq> tx ''request-00000002''"
  by (simp add: tx_def)

lemma sample_publishes: "change_body sample sample_env sample_publish saved_db = Ok (Some published_db)"
  by (simp add: change_body_def sample_publish_def sample_env_def sample_db_def saved_db_def published_db_def checked_inc_def i64_range_def
    change_id_def prior_request_def perform_def write_history_def write_request_def db_step_def find_message_def update_message_def
    republish_def sample_update sample_republished sample_ends sample_ids_differ)
   

definition sample_host :: "publication \<Rightarrow> int \<Rightarrow> publisher" where
  "sample_host db n = \<lparr> py_disk = Some (Some db), py_file = Some [n], py_running = True, py_backups = [] \<rparr>"

lemma sample_opens: "pub_op_step sample sample_opening fresh_host = sample_host (sample_db 0) 0"
  by (simp add: sample_opening_def fresh_host_def sample_host_def open_store_def state_or_seed_def start_store_def check_disk_def
    export_current_def seeded_def sample_db_def) (simp add: empty_feed_def)

lemma sample_runs:
  "pub_op_step sample (Change sample_env sample_save) (sample_host (sample_db 0) 0) = sample_host saved_db 0"
  "pub_op_step sample (Change sample_env sample_publish) (sample_host saved_db 0)
    = sample_host (published_db\<lparr> pb_exported_revision := 2 \<rparr>) 1"
  by (simp_all add: sample_host_def while_running_def apply_change_def run_request_def sample_request_ids sample_saves sample_publishes finish_request_def
    retry_export_def export_current_def db_step_def)
    (simp_all add: sample_env_def saved_db_def published_db_def sample_db_def)

theorem repeated_requests_change_nothing_witness:
  "let p = sample_host (sample_db 0) 0; first = pub_op_step sample (Change sample_env sample_save) p;
       q = run_ops sample [Change sample_env sample_publish, Stop, sample_opening] first
   in tables_of first \<noteq> tables_of p \<and> tables_of (pub_op_step sample (Change sample_env sample_save) q) = tables_of q"
proof -
  have "tables_of (pub_op_step sample (Change sample_env sample_save) (sample_host (sample_db 0) 0))
      \<noteq> tables_of (sample_host (sample_db 0) 0)"
    by (simp only: sample_runs) (simp add: tables_of_def sample_host_def unexported_def saved_db_def sample_db_def)
  then show ?thesis
    using repeated_requests_change_nothing [of sample sample_env sample_save "sample_host (sample_db 0) 0"
        "[Change sample_env sample_publish, Stop, sample_opening]" sample_env sample_save]
    by (simp add: Let_def sample_opening_def del: stopped_run pub_op_step.simps)
qed

theorem public_feed_never_goes_back_witness:
  "let p = run_ops sample [sample_opening] fresh_host;
       after = [Change sample_env sample_save, Change sample_env sample_publish]
   in py_file p = Some [0] \<and> py_file (run_ops sample after p) = Some [1]
      \<and> reads_at_least sample (Option.bind (py_file p) (read_stamp sample)) (py_file (run_ops sample after p))"
proof -
  have "py_file (run_ops sample [sample_opening] fresh_host) = Some [0]"
    by (simp del: pub_op_step.simps add: sample_opens) (simp add: sample_host_def)
  moreover have "py_file (run_ops sample [Change sample_env sample_save, Change sample_env sample_publish]
      (run_ops sample [sample_opening] fresh_host)) = Some [1]"
    by (simp del: pub_op_step.simps add: sample_opens sample_runs) (simp add: sample_host_def)
  ultimately show ?thesis
    using public_feed_never_goes_back [OF sample_faithful, of "[sample_opening]"
        "[Change sample_env sample_save, Change sample_env sample_publish]"]
    by (simp only: Let_def)
qed

theorem changes_refine_the_board_witness:
  "faithful sample \<and> change_body sample sample_env sample_publish saved_db = Ok (Some published_db)
   \<and> board published_db = (board saved_db)(sample_id := drafts saved_db sample_id)"
  using changes_refine_the_board [OF sample_faithful sample_publishes] sample_faithful sample_publishes
  by (simp add: sample_publish_def sample_env_def i64_range_def)

end
