(* ===== verification/Scan_Patterns.thy ===== *)
theory Scan_Patterns
  imports Text
begin

text \<open>
  The patterns of a memory scan (\<open>game-acquisition/src/scan.rs\<close>): the ones compiled in, and the ones a signed
  definitions file supplies, each checked before it is used. The \<open>regex\<close> crate is the record \<open>engine\<close>: what a
  pattern compiles to, its syntax tree, its groups and its matches in a text. \<open>matches\<close> says which groups a match of
  a syntax tree can leave out; the facts show the check is enough.
\<close>

section \<open>Syntax trees\<close>

text \<open>\<open>regex_syntax::hir\<close>: the kinds the check distinguishes. A class or an assertion is the set of what it accepts.\<close>

datatype hir =
    HEmpty
  | HLiteral bytes
  | HClass "8 word set"
  | HLook
  | HRepetition nat "nat option" hir
  | HCapture nat hir
  | HConcat "hir list"
  | HAlternation "hir list"

fun guaranteed :: "hir \<Rightarrow> nat set" where
  "guaranteed (HCapture i h) = insert i (guaranteed h)"
| "guaranteed (HConcat hs) = \<Union> (set (map guaranteed hs))"
| "guaranteed (HAlternation hs) =
     (case map guaranteed hs of [] \<Rightarrow> {} | s # ss \<Rightarrow> fold (\<lambda>other acc. acc \<inter> other) ss s)"
| "guaranteed (HRepetition least most h) = (if least = 0 then {} else guaranteed h)"
| "guaranteed _ = {}"

text \<open>
  The documented meaning: which texts a tree matches, with the groups that took part. Assertions and the choice
  among matches only make matches fewer.
\<close>

inductive matches :: "hir \<Rightarrow> bytes \<Rightarrow> nat set \<Rightarrow> bool"
  and matches_all :: "hir list \<Rightarrow> bytes \<Rightarrow> nat set \<Rightarrow> bool"
  and repeats :: "nat \<Rightarrow> hir \<Rightarrow> bytes \<Rightarrow> nat set \<Rightarrow> bool" where
  m_empty: "matches HEmpty [] {}"
| m_literal: "matches (HLiteral bs) bs {}"
| m_class: "b \<in> cls \<Longrightarrow> matches (HClass cls) [b] {}"
| m_look: "matches HLook [] {}"
| m_capture: "matches h w gs \<Longrightarrow> matches (HCapture i h) w (insert i gs)"
| m_concat: "matches_all hs w gs \<Longrightarrow> matches (HConcat hs) w gs"
| m_alternation: "h \<in> set hs \<Longrightarrow> matches h w gs \<Longrightarrow> matches (HAlternation hs) w gs"
| m_repetition: "repeats n h w gs \<Longrightarrow> least \<le> n \<Longrightarrow> is_none_or most (\<lambda>k. n \<le> k) \<Longrightarrow> matches (HRepetition least most h) w gs"
| all_nil: "matches_all [] [] {}"
| all_cons: "matches h v gs \<Longrightarrow> matches_all hs w gs' \<Longrightarrow> matches_all (h # hs) (v @ w) (gs \<union> gs')"
| rep_none: "repeats 0 h [] {}"
| rep_more: "matches h v gs \<Longrightarrow> repeats n h w gs' \<Longrightarrow> repeats (Suc n) h (v @ w) (gs \<union> gs')"

lemma fold_inter: "fold (\<lambda>other acc. acc \<inter> other) ss s = s \<inter> \<Inter> (set ss)"
  by (induction ss arbitrary: s) auto

lemma guaranteed_alternation: "h \<in> set hs \<Longrightarrow> guaranteed (HAlternation hs) \<subseteq> guaranteed h"
  by (cases hs) (auto simp: fold_inter)

text \<open>A group the check counts on takes part in every match.\<close>

lemma guaranteed_take_part:
  "matches h w gs \<Longrightarrow> guaranteed h \<subseteq> gs"
  "matches_all hs w gs \<Longrightarrow> \<Union> (set (map guaranteed hs)) \<subseteq> gs"
  "repeats n h w gs \<Longrightarrow> 0 < n \<Longrightarrow> guaranteed h \<subseteq> gs"
proof (induction rule: matches_matches_all_repeats.inducts)
  case (m_alternation h hs w gs)
  then show ?case using guaranteed_alternation by blast
qed auto

section \<open>The engine\<close>

type_synonym capture = "nat \<Rightarrow> bytes option"

record 'p engine =
  en_compile :: "ustr \<Rightarrow> (ustr, 'p) result"  \<comment> \<open>\<open>Regex::new\<close>, with the text of its error\<close>
  en_captures_len :: "'p \<Rightarrow> nat"
  en_parse :: "ustr \<Rightarrow> hir option"  \<comment> \<open>\<open>regex_syntax::Parser\<close> with \<open>utf8(false)\<close>\<close>
  en_captures :: "'p \<Rightarrow> bytes \<Rightarrow> capture list"  \<comment> \<open>\<open>captures_iter\<close>\<close>

text \<open>What the code relies on: a match of a compiled pattern is a match of its syntax tree, and the groups that took part have a value.\<close>

definition engine_faithful :: "'p engine \<Rightarrow> bool" where
  "engine_faithful en \<longleftrightarrow>
     (\<forall>raw p h hay c. en_compile en raw = Ok p \<longrightarrow> en_parse en raw = Some h \<longrightarrow> c \<in> set (en_captures en p hay) \<longrightarrow>
        (\<exists>w gs. matches h w gs \<and> (\<forall>i\<in>gs. c i \<noteq> None)))"

definition guaranteed_captures :: "'p engine \<Rightarrow> ustr \<Rightarrow> nat set option" where
  "guaranteed_captures en pattern = map_option guaranteed (en_parse en pattern)"

section \<open>Definitions\<close>

definition MAX_PATTERN_LEN :: nat where "MAX_PATTERN_LEN = 512"

record 'p scan_patterns =
  sp_cred :: 'p
  sp_build :: 'p
  sp_ct :: 'p

record scan_definitions =
  sd_version :: "u32 option"
  sd_cred_pattern :: "ustr option"
  sd_build_pattern :: "ustr option"
  sd_ct_pattern :: "ustr option"

record pattern_rejection =
  pj_field :: string
  pj_reason :: ustr

text \<open>The defaults are compiled when the program starts: they are the argument \<open>dflt\<close>.\<close>

definition too_long :: "nat \<Rightarrow> ustr" where
  "too_long n = tx (show_nat n @ '' bytes exceeds the '' @ show_nat MAX_PATTERN_LEN @ ''-byte cap'')"

definition too_few :: "nat \<Rightarrow> nat \<Rightarrow> ustr" where
  "too_few groups have_groups = tx (''needs '' @ show_nat groups @ '' capture group(s), has '' @ show_nat have_groups)"

definition not_guaranteed :: "nat \<Rightarrow> ustr" where
  "not_guaranteed groups =
     tx (''capture group(s) 1..'' @ show_nat groups @ '' are not guaranteed to participate in every match; a top-level alternation or an optional group makes them optional. Put a rotated alternative inside the capture, as `(a|b)`, not around it'')"

definition build_one :: "'p engine \<Rightarrow> string \<Rightarrow> ustr option \<Rightarrow> nat \<Rightarrow> 'p \<Rightarrow> 'p \<times> pattern_rejection list" where
  "build_one en field supplied groups fallback =
     (let reject = (\<lambda>reason. (fallback, [\<lparr> pj_field = field, pj_reason = reason \<rparr>])) in
      case supplied of
        None \<Rightarrow> (fallback, [])
      | Some raw \<Rightarrow>
          if raw = [] then (fallback, [])
          else if MAX_PATTERN_LEN < byte_len raw then reject (too_long (byte_len raw))
          else case en_compile en raw of
            Err e \<Rightarrow> reject (tx ''does not compile: '' @ e)
          | Ok compiled \<Rightarrow>
              let have_groups = en_captures_len en compiled - 1 in
              if have_groups < groups then reject (too_few groups have_groups)
              else if \<not> is_some_and (guaranteed_captures en raw) (\<lambda>captures. {1..groups} \<subseteq> captures)
              then reject (not_guaranteed groups)
              else (compiled, []))"

definition patterns_from_definitions :: "'p engine \<Rightarrow> 'p scan_patterns \<Rightarrow> scan_definitions
   \<Rightarrow> 'p scan_patterns \<times> pattern_rejection list" where
  "patterns_from_definitions en dflt defs =
     (let (cred, r1) = build_one en ''cred_pattern'' (sd_cred_pattern defs) 2 (sp_cred dflt);
          (build, r2) = build_one en ''build_pattern'' (sd_build_pattern defs) 1 (sp_build dflt);
          (ct, r3) = build_one en ''ct_pattern'' (sd_ct_pattern defs) 1 (sp_ct dflt)
      in (\<lparr> sp_cred = cred, sp_build = build, sp_ct = ct \<rparr>, r1 @ r2 @ r3))"

section \<open>What a check promises\<close>

text \<open>A pattern that comes out is the default, or it gives its groups in every match; a rejected one is the default.\<close>

definition gives_groups :: "'p engine \<Rightarrow> nat \<Rightarrow> 'p \<Rightarrow> bool" where
  "gives_groups en groups p \<longleftrightarrow> (\<forall>hay. \<forall>c\<in>set (en_captures en p hay). \<forall>i\<in>{1..groups}. c i \<noteq> None)"

lemma build_one_sound:
  assumes "engine_faithful en" and "build_one en field supplied groups fallback = (p, rejected)"
  shows "p = fallback \<or> rejected = [] \<and> gives_groups en groups p"
    and "rejected \<noteq> [] \<Longrightarrow> p = fallback"
proof -
  show "rejected \<noteq> [] \<Longrightarrow> p = fallback"
    using assms(2) by (auto simp: build_one_def Let_def split: option.splits if_splits sum.splits)
  show "p = fallback \<or> rejected = [] \<and> gives_groups en groups p"
  proof (cases "p = fallback")
    case False
    then obtain raw h where c: "en_compile en raw = Ok p" "en_parse en raw = Some h" "{1..groups} \<subseteq> guaranteed h"
      and r: "rejected = []"
      using assms(2)
      by (auto simp: build_one_def Let_def guaranteed_captures_def is_some_and_def split: option.splits if_splits sum.splits)
    have "gives_groups en groups p"
      unfolding gives_groups_def
    proof (intro allI ballI)
      fix hay c' i
      assume "c' \<in> set (en_captures en p hay)" "i \<in> {1..groups}"
      with assms(1) c obtain w gs where "matches h w gs" "\<forall>i\<in>gs. c' i \<noteq> None"
        unfolding engine_faithful_def by blast
      with guaranteed_take_part(1) c(3) \<open>i \<in> {1..groups}\<close> show "c' i \<noteq> None" by blast
    qed
    with r show ?thesis by simp
  qed simp
qed

text \<open>Remote patterns cannot break a scan: each of the three is taken only if every match of it gives the groups the scan
  reads, is otherwise the built-in one, and a field that is rejected leaves the other two alone.\<close>

lemma accepted_patterns_give_groups:
  assumes "engine_faithful en"
  shows "let (p, rejected) = patterns_from_definitions en dflt defs in
    (sp_cred p = sp_cred dflt \<or> gives_groups en 2 (sp_cred p))
    \<and> (sp_build p = sp_build dflt \<or> gives_groups en 1 (sp_build p))
    \<and> (sp_ct p = sp_ct dflt \<or> gives_groups en 1 (sp_ct p))
    \<and> length rejected \<le> 3 \<and> distinct (map pj_field rejected)
    \<and> sp_cred p = fst (build_one en ''cred_pattern'' (sd_cred_pattern defs) 2 (sp_cred dflt))
    \<and> sp_build p = fst (build_one en ''build_pattern'' (sd_build_pattern defs) 1 (sp_build dflt))
    \<and> sp_ct p = fst (build_one en ''ct_pattern'' (sd_ct_pattern defs) 1 (sp_ct dflt))"
proof -
  have fields: "map pj_field (snd (build_one en f s g d)) = [] \<or> map pj_field (snd (build_one en f s g d)) = [f]" for f s g d
    by (auto simp: build_one_def Let_def split: option.split sum.split)
  obtain c r1 where 1: "build_one en ''cred_pattern'' (sd_cred_pattern defs) 2 (sp_cred dflt) = (c, r1)" by fastforce
  obtain b r2 where 2: "build_one en ''build_pattern'' (sd_build_pattern defs) 1 (sp_build dflt) = (b, r2)" by fastforce
  obtain t r3 where 3: "build_one en ''ct_pattern'' (sd_ct_pattern defs) 1 (sp_ct dflt) = (t, r3)" by fastforce
  have "map pj_field r1 \<in> {[], [''cred_pattern'']}" "map pj_field r2 \<in> {[], [''build_pattern'']}"
    "map pj_field r3 \<in> {[], [''ct_pattern'']}"
    using fields 1 2 3 by (metis insertCI snd_conv)+
  then have "length r1 \<le> 1" "length r2 \<le> 1" "length r3 \<le> 1" "distinct (map pj_field (r1 @ r2 @ r3))"
    by (auto dest: arg_cong [of _ _ length])
  moreover have "patterns_from_definitions en dflt defs = (\<lparr> sp_cred = c, sp_build = b, sp_ct = t \<rparr>, r1 @ r2 @ r3)"
    by (simp add: patterns_from_definitions_def 1 2 3 del: One_nat_def)
  moreover note build_one_sound(1) [OF assms 1] build_one_sound(1) [OF assms 2] build_one_sound(1) [OF assms 3]
  ultimately show ?thesis by (auto simp: 1 2 3 simp del: One_nat_def)
qed

section \<open>A small engine\<close>

text \<open>One pattern, the letter a in a group: \<open>(a)\<close>; its only match captures that letter.\<close>

definition letter_engine :: "unit engine" where
  "letter_engine = \<lparr> en_compile = (\<lambda>raw. if raw = tx ''(a)'' then Ok () else Err (tx ''syntax'')), en_captures_len = (\<lambda>_. 2),
     en_parse = (\<lambda>raw. Some (HCapture 1 (HLiteral [97]))),
     en_captures = (\<lambda>_ hay. if 97 \<in> set hay then [(\<lambda>i. if i \<le> 1 then Some [97] else None)] else []) \<rparr>"

lemma letter_faithful: "engine_faithful letter_engine"
proof -
  have "matches (HCapture 1 (HLiteral [97])) [97] {1}" using m_capture [OF m_literal] by simp
  then show ?thesis by (auto simp: engine_faithful_def letter_engine_def split: if_splits intro!: exI)
qed

lemma accepted_patterns_give_groups_witness:
  "let defaults = \<lparr> sp_cred = (), sp_build = (), sp_ct = () \<rparr>;
       (p, rejected) = patterns_from_definitions letter_engine defaults
         \<lparr> sd_version = None, sd_cred_pattern = Some (tx ''(a)''), sd_build_pattern = Some (tx ''(a)''), sd_ct_pattern = None \<rparr>
   in length rejected \<le> 3 \<and> distinct (map pj_field rejected)"
  using accepted_patterns_give_groups [OF letter_faithful, of "\<lparr> sp_cred = (), sp_build = (), sp_ct = () \<rparr>"
      "\<lparr> sd_version = None, sd_cred_pattern = Some (tx ''(a)''), sd_build_pattern = Some (tx ''(a)''), sd_ct_pattern = None \<rparr>"]
  by (simp add: Let_def split: prod.splits)

end
