(* ===== verification/Redaction.thy ===== *)
theory Redaction
  imports Text "HOL-Library.Sublist"
begin

text \<open>
  Session credentials in messages (\<open>game-acquisition/src/error.rs\<close>): every text that leaves a failed scan has the
  value after each credential's name replaced. The facts say what is left after a name, whatever the text.
\<close>

section \<open>The code\<close>

definition REDACTED :: ustr where "REDACTED = tx ''<redacted>''"

definition SECRET_NAMES :: "ustr list" where "SECRET_NAMES = [tx ''accountId'', tx ''nonce'']"

definition VALUE_END :: "int list" where "VALUE_END = [38, 32, 9, 10, 13, 41, 34, 39]"

definition ends_query :: "int \<Rightarrow> bool" where "ends_query c \<longleftrightarrow> c \<in> set VALUE_END"

definition ends_json :: "int \<Rightarrow> bool" where "ends_json c \<longleftrightarrow> c = 34"

text \<open>The loop of \<open>redact_after\<close>; an empty marker never occurs.\<close>

function redact_after :: "ustr \<Rightarrow> (int \<Rightarrow> bool) \<Rightarrow> ustr \<Rightarrow> ustr" where
  "redact_after marker ends s =
     (if marker = [] then s
      else case find_text marker s of
        None \<Rightarrow> s
      | Some pos \<Rightarrow>
          let value_at = pos + length marker; tail = drop value_at s
          in take value_at s @ REDACTED @ redact_after marker ends (dropWhile (\<lambda>c. \<not> ends c) tail))"
  by pat_completeness auto
termination
proof (relation "measure (\<lambda>(marker, ends, s). length s)")
  fix marker :: ustr and ends :: "int \<Rightarrow> bool" and s :: ustr and pos value_at tail
  assume "marker \<noteq> []" and pos: "find_text marker s = Some pos" and v: "value_at = pos + length marker" "tail = drop value_at s"
  obtain t where "s = take pos s @ marker @ t" using find_text_Some [OF pos] by blast
  then have "s \<noteq> []" using \<open>marker \<noteq> []\<close> by auto
  moreover have "0 < value_at" using v(1) \<open>marker \<noteq> []\<close> by simp
  moreover have "length (dropWhile (\<lambda>c. \<not> ends c) tail) \<le> length tail" by (rule length_dropWhile_le)
  ultimately show "((marker, ends, dropWhile (\<lambda>c. \<not> ends c) tail), marker, ends, s) \<in> measure (\<lambda>(marker, ends, s). length s)"
    using v(2) by (cases s) auto
qed simp

declare redact_after.simps [simp del]

definition query_marker :: "ustr \<Rightarrow> ustr" where "query_marker name = name @ [61]"

definition json_marker :: "ustr \<Rightarrow> ustr" where "json_marker name = [34] @ name @ [34, 58, 34]"

definition redact_session_creds :: "ustr \<Rightarrow> ustr" where
  "redact_session_creds s =
     fold (\<lambda>name out. redact_after (json_marker name) ends_json (redact_after (query_marker name) ends_query out)) SECRET_NAMES s"

datatype scan_error = Busy | Failed ustr

definition into_message :: "scan_error \<Rightarrow> ustr" where
  "into_message e =
     (case e of
        Busy \<Rightarrow> tx ''a memory scan is already in progress; retry in a moment''
      | Failed chain \<Rightarrow> redact_session_creds chain)"

section \<open>What follows a marker\<close>

text \<open>Every occurrence of the marker is followed by the placeholder, and that by the end or a terminator.\<close>

definition covered :: "ustr \<Rightarrow> (int \<Rightarrow> bool) \<Rightarrow> ustr \<Rightarrow> bool" where
  "covered m ends s \<longleftrightarrow>
     (\<forall>u v. s = u @ m @ v \<longrightarrow> (\<exists>w. v = REDACTED @ w \<and> (w = [] \<or> ends (hd w))))"

text \<open>A marker does not meet the placeholder.\<close>

definition apart :: "ustr \<Rightarrow> bool" where
  "apart m \<longleftrightarrow> m \<noteq> [] \<and> last m \<notin> set REDACTED \<and> 60 \<notin> set m \<and> 62 \<notin> set m"

lemma REDACTED_parts: "\<exists>mid. REDACTED = 60 # mid @ [62] \<and> set mid \<subseteq> set REDACTED"
  by (rule exI [of _ "tx ''redacted''"]) (simp add: REDACTED_def tx_def)

lemma occurrence_split:
  assumes "xs @ c # ys = u @ m @ v" and "c \<notin> set m"
  shows "(\<exists>x. xs = u @ m @ x \<and> v = x @ c # ys) \<or> (\<exists>y. u = xs @ y \<and> c # ys = y @ m @ v)"
proof -
  from assms(1) consider z where "xs @ z = u" "c # ys = z @ m @ v" | z where "xs = u @ z" "z @ c # ys = m @ v"
    by (auto simp: append_eq_append_conv2)
  then show ?thesis
  proof cases
    case 2
    then consider w where "z @ w = m" "c # ys = w @ v" | w where "z = m @ w" "w @ c # ys = v"
      by (auto simp: append_eq_append_conv2)
    then show ?thesis
    proof cases
      case 1
      with 2 assms(2) show ?thesis by (cases w) auto
    qed (use 2 in auto)
  qed auto
qed

lemma occurrence_after_redaction:
  assumes "h @ REDACTED @ r = u @ m @ v" and "apart m"
  shows "(\<exists>x. h = u @ m @ x \<and> v = x @ REDACTED @ r) \<or> (\<exists>u'. r = u' @ m @ v)"
proof -
  obtain mid where mid: "REDACTED = 60 # mid @ [62]" "set mid \<subseteq> set REDACTED" using REDACTED_parts by blast
  have "h @ 60 # (mid @ 62 # r) = u @ m @ v" using assms(1) unfolding mid(1) by simp
  from occurrence_split [OF this] assms(2)
  consider x where "h = u @ m @ x" "v = x @ 60 # mid @ 62 # r" | y where "60 # mid @ 62 # r = y @ m @ v"
    by (auto simp: apart_def)
  then show ?thesis
  proof cases
    case 1
    then show ?thesis using mid(1) by auto
  next
    case 2
    then have "(60 # mid) @ 62 # r = y @ m @ v" by simp
    from occurrence_split [OF this] assms(2)
    consider x where "60 # mid = y @ m @ x" | z where "62 # r = z @ m @ v" by (auto simp: apart_def)
    then show ?thesis
    proof cases
      case 1
      have "last m \<in> set (y @ m @ x)" using assms(2) by (simp add: apart_def)
      then have "last m \<in> set (60 # mid)" unfolding 1 [symmetric] .
      then have "last m \<in> set REDACTED" unfolding mid(1) by auto
      with assms(2) show ?thesis by (simp add: apart_def)
    next
      case 2
      then obtain z' where "z = 62 # z'" using assms(2) by (cases z; cases m) (auto simp: apart_def)
      with 2 show ?thesis by auto
    qed
  qed
qed

lemma covered_REDACTED:
  assumes "covered m ends s" and "s = a @ b"
  shows "covered m ends b"
  using assms by (auto simp: covered_def)

section \<open>One pass\<close>

lemma redact_after_unfold:
  assumes "marker \<noteq> []"
  shows "redact_after marker ends s =
     (case find_text marker s of
        None \<Rightarrow> s
      | Some pos \<Rightarrow>
          take (pos + length marker) s @ REDACTED
            @ redact_after marker ends (dropWhile (\<lambda>c. \<not> ends c) (drop (pos + length marker) s)))"
  using assms by (subst redact_after.simps) (simp add: Let_def split: option.split)

text \<open>A text that begins with a terminator keeps it.\<close>

definition well_begun :: "(int \<Rightarrow> bool) \<Rightarrow> ustr \<Rightarrow> bool" where
  "well_begun ends s \<longleftrightarrow> s = [] \<or> ends (hd s)"

lemma well_begun_value [simp]: "well_begun ends (dropWhile (\<lambda>c. \<not> ends c) s)"
  using hd_dropWhile [of "\<lambda>c. \<not> ends c" s] by (auto simp: well_begun_def)

lemma redact_after_begun:
  assumes "marker \<noteq> []" and "well_begun E s"
  shows "well_begun E (redact_after marker ends s)"
proof (cases "find_text marker s")
  case None
  then show ?thesis using assms by (simp add: redact_after_unfold)
next
  case (Some pos)
  then obtain t where t: "s = take pos s @ marker @ t" using find_text_Some by blast
  then have "s \<noteq> []" using assms(1) by auto
  then have "hd (redact_after marker ends s) = hd s" "redact_after marker ends s \<noteq> []"
    using Some assms(1) by (simp_all add: redact_after_unfold)
  then show ?thesis using assms(2) \<open>s \<noteq> []\<close> by (simp add: well_begun_def)
qed

text \<open>A pass covers its own marker.\<close>

lemma redact_after_covers:
  assumes "apart m"
  shows "covered m ends (redact_after m ends s)"
proof (induction "length s" arbitrary: s rule: less_induct)
  case less
  have m: "m \<noteq> []" using assms by (simp add: apart_def)
  show ?case
  proof (cases "find_text m s")
    case None
    then show ?thesis using find_text_None [OF None] m by (auto simp: covered_def redact_after_unfold)
  next
    case (Some pos)
    let ?n = "pos + length m"
    let ?rest = "dropWhile (\<lambda>c. \<not> ends c) (drop ?n s)"
    let ?r = "redact_after m ends ?rest"
    obtain t where t: "s = take pos s @ m @ t" using find_text_Some [OF Some] by blast
    have n: "?n \<le> length s" using arg_cong [OF t, of length] m by (auto simp: min_def split: if_splits)
    have head: "take ?n s = take pos s @ m"
      using n m by (subst t) (cases m, simp_all add: min_def)
    have eq: "redact_after m ends s = (take pos s @ m) @ REDACTED @ ?r"
      using Some m by (simp add: redact_after_unfold head)
    have "length ?rest \<le> length (drop ?n s)" by (rule length_dropWhile_le)
    also have "\<dots> < length s" using n m by (cases m) simp_all
    finally have IH: "covered m ends ?r" by (rule less.hyps)
    have begun: "well_begun ends ?r" by (rule redact_after_begun [OF m]) simp
    show ?thesis
      unfolding covered_def
    proof (intro allI impI)
      fix u v
      assume "redact_after m ends s = u @ m @ v"
      from occurrence_after_redaction [OF this [unfolded eq] assms]
      show "\<exists>w. v = REDACTED @ w \<and> (w = [] \<or> ends (hd w))"
      proof (elim disjE exE conjE)
        fix x
        assume x: "take pos s @ m = u @ m @ x" "v = x @ REDACTED @ ?r"
        have "s = u @ m @ x @ t" using x(1) t by (metis append.assoc)
        from find_text_first [OF Some this] have "pos \<le> length u" .
        moreover have "length (take pos s) = pos" using n by simp
        ultimately have "x = []" using arg_cong [OF x(1), of length] by simp
        with x(2) begun show ?thesis by (auto simp: well_begun_def)
      next
        fix u'
        assume "?r = u' @ m @ v"
        with IH show ?thesis by (auto simp: covered_def)
      qed
    qed
  qed
qed

text \<open>A pass for another marker keeps what is covered.\<close>

definition unlike :: "ustr \<Rightarrow> ustr \<Rightarrow> bool" where
  "unlike m m' \<longleftrightarrow> \<not> suffix m m' \<and> \<not> suffix m' m"

lemma redacted_prefix:
  assumes "x @ v' = REDACTED @ w" and "suffix m' (u @ m @ x)" and "apart m'" and "unlike m m'"
  shows "\<exists>y. x = REDACTED @ y \<and> y \<noteq> []"
proof -
  obtain mid where mid: "REDACTED = 60 # mid @ [62]" using REDACTED_parts by blast
  have last: "last m' \<in> set x \<Longrightarrow> length REDACTED < length x"
  proof (rule ccontr)
    assume "last m' \<in> set x" "\<not> length REDACTED < length x"
    then have "x = take (length x) REDACTED" using arg_cong [OF assms(1), of "take (length x)"] by simp
    then have "set x \<subseteq> set REDACTED" using set_take_subset by metis
    with \<open>last m' \<in> set x\<close> assms(3) show False by (auto simp: apart_def)
  qed
  have "x \<noteq> []"
  proof
    assume "x = []"
    then have "suffix m' (u @ m)" "suffix m (u @ m)" using assms(2) by (simp_all add: suffix_def)
    with assms(4) show False unfolding unlike_def using suffix_same_cases by blast
  qed
  moreover have "last m' = last x"
  proof -
    obtain z where z: "u @ m @ x = z @ m'" using assms(2) by (auto simp: suffix_def)
    have "last (u @ m @ x) = last x" using \<open>x \<noteq> []\<close> by simp
    moreover have "last (z @ m') = last m'" using assms(3) by (simp add: apart_def)
    ultimately show ?thesis using z by simp
  qed
  ultimately have "length REDACTED < length x" using last by simp
  then have "REDACTED @ drop (length REDACTED) x = x"
    using arg_cong [OF assms(1), of "take (length REDACTED)"] by (metis append_take_drop_id append_eq_conv_conj less_imp_le take_append diff_is_0_eq take_0 append_Nil2)
  with \<open>length REDACTED < length x\<close> show ?thesis by (metis drop_eq_Nil linorder_not_le)
qed

lemma redact_after_keeps:
  assumes "apart m" and "apart m'" and "unlike m m'"
  shows "covered m E s \<Longrightarrow> covered m E (redact_after m' ends s)"
proof (induction "length s" arbitrary: s rule: less_induct)
  case less
  have m': "m' \<noteq> []" using assms by (simp add: apart_def)
  show ?case
  proof (cases "find_text m' s")
    case None
    with less.prems m' show ?thesis by (simp add: redact_after_unfold)
  next
    case (Some pos)
    let ?n = "pos + length m'"
    let ?rest = "dropWhile (\<lambda>c. \<not> ends c) (drop ?n s)"
    let ?r = "redact_after m' ends ?rest"
    obtain t where t: "s = take pos s @ m' @ t" using find_text_Some [OF Some] by blast
    have n: "?n \<le> length s" using arg_cong [OF t, of length] m' by (auto simp: min_def split: if_splits)
    have head: "take ?n s = take pos s @ m'"
      using n m' by (subst t) (cases m', simp_all add: min_def)
    have eq: "redact_after m' ends s = take ?n s @ REDACTED @ ?r"
      using Some m' by (simp add: redact_after_unfold)
    have split: "s = (take ?n s @ takeWhile (\<lambda>c. \<not> ends c) (drop ?n s)) @ ?rest" by simp
    have "length ?rest \<le> length (drop ?n s)" by (rule length_dropWhile_le)
    also have "\<dots> < length s" using n m' by (cases m') simp_all
    finally have IH: "covered m E ?r" by (rule less.hyps) (rule covered_REDACTED [OF less.prems split])
    show ?thesis
      unfolding covered_def
    proof (intro allI impI)
      fix u v
      assume "redact_after m' ends s = u @ m @ v"
      from occurrence_after_redaction [OF this [unfolded eq] assms(1)]
      show "\<exists>w. v = REDACTED @ w \<and> (w = [] \<or> E (hd w))"
      proof (elim disjE exE conjE)
        fix x
        assume x: "take ?n s = u @ m @ x" "v = x @ REDACTED @ ?r"
        have "s = u @ m @ (x @ drop ?n s)" using append_take_drop_id [of ?n s] x(1) by simp
        with less.prems obtain w where w: "x @ drop ?n s = REDACTED @ w" "w = [] \<or> E (hd w)"
          unfolding covered_def by blast
        have "suffix m' (u @ m @ x)" using head x(1) by (auto simp: suffix_def)
        from redacted_prefix [OF w(1) this assms(2,3)] obtain y where "x = REDACTED @ y" "y \<noteq> []" by blast
        with w x(2) show ?thesis by auto
      next
        fix u'
        assume "?r = u' @ m @ v"
        with IH show ?thesis by (auto simp: covered_def)
      qed
    qed
  qed
qed

section \<open>Every message\<close>

lemma markers_apart:
  "apart (query_marker (tx ''accountId''))" "apart (query_marker (tx ''nonce''))"
  "apart (json_marker (tx ''accountId''))" "apart (json_marker (tx ''nonce''))"
  by (simp_all add: apart_def query_marker_def json_marker_def REDACTED_def tx_def)

lemma markers_unlike:
  "unlike (query_marker (tx ''accountId'')) (json_marker (tx ''accountId''))"
  "unlike (query_marker (tx ''accountId'')) (query_marker (tx ''nonce''))"
  "unlike (query_marker (tx ''accountId'')) (json_marker (tx ''nonce''))"
  "unlike (json_marker (tx ''accountId'')) (query_marker (tx ''nonce''))"
  "unlike (json_marker (tx ''accountId'')) (json_marker (tx ''nonce''))"
  "unlike (query_marker (tx ''nonce'')) (json_marker (tx ''nonce''))"
  by (simp_all add: unlike_def query_marker_def json_marker_def tx_def suffix_to_prefix)

text \<open>A text that names no credential is left as it is.\<close>

definition occurs :: "ustr \<Rightarrow> ustr \<Rightarrow> bool" where
  "occurs m s \<longleftrightarrow> (\<exists>u v. s = u @ m @ v)"

lemma redact_after_nothing: "m \<noteq> [] \<Longrightarrow> \<not> occurs m s \<Longrightarrow> redact_after m ends s = s"
  using find_text_Some [of m s] by (cases "find_text m s") (auto simp: redact_after_unfold occurs_def)

text \<open>What a reader of a message finds after a name: the placeholder, and then the end or one of the characters in \<open>stops\<close>.\<close>

definition hides :: "ustr \<Rightarrow> string \<Rightarrow> ustr \<Rightarrow> bool" where
  "hides m stops s \<longleftrightarrow>
     (\<forall>u v. s = u @ m @ v \<longrightarrow> (\<exists>w. v = tx ''<redacted>'' @ w \<and> (w = [] \<or> hd w \<in> set (tx stops))))"

lemma covered_hides:
  assumes "covered m ends s" and "\<And>ch. ends ch \<Longrightarrow> ch \<in> set (tx stops)"
  shows "hides m stops s"
  using assms unfolding covered_def hides_def REDACTED_def by blast

definition query_stops :: string where
  "query_stops = [CHR ''&'', CHR '' '', CHR 0x09, CHR 0x0A, CHR 0x0D, CHR '')'', CHR 0x22, CHR 0x27]"

lemma stops_end: "ends_query ch \<Longrightarrow> ch \<in> set (tx query_stops)" "ends_json ch \<Longrightarrow> ch \<in> set (tx [CHR 0x22])"
  by (auto simp: ends_query_def ends_json_def VALUE_END_def query_stops_def tx_def)

definition account_json :: ustr where "account_json = tx ([CHR 0x22] @ ''accountId'' @ [CHR 0x22] @ '':'' @ [CHR 0x22])"
definition nonce_json :: ustr where "nonce_json = tx ([CHR 0x22] @ ''nonce'' @ [CHR 0x22] @ '':'' @ [CHR 0x22])"

lemma marker_texts:
  "tx ''accountId='' = query_marker (tx ''accountId'')" "tx ''nonce='' = query_marker (tx ''nonce'')"
  "account_json = json_marker (tx ''accountId'')" "nonce_json = json_marker (tx ''nonce'')"
  by (simp_all add: query_marker_def json_marker_def account_json_def nonce_json_def tx_def)

text \<open>C27: Whatever a failed scan's error says, the message shown has nothing after \<open>accountId=\<close> and \<open>nonce=\<close> but the
  placeholder \<open><redacted>\<close>, up to the end or the first ampersand, white space, closing parenthesis or quote, and nothing after
  the JSON members of these names but the placeholder up to the closing quote. An error that names neither is shown as it is.\<close>

theorem messages_hide_credentials:
  "(let shown = into_message (Failed chain)
    in hides (tx ''accountId='') query_stops shown \<and> hides (tx ''nonce='') query_stops shown
       \<and> hides account_json [CHR 0x22] shown \<and> hides nonce_json [CHR 0x22] shown)
   \<and> (list_all (\<lambda>m. \<not> occurs m chain) [tx ''accountId='', tx ''nonce='', account_json, nonce_json]
       \<longrightarrow> into_message (Failed chain) = chain)"
proof -
  let ?shown = "into_message (Failed chain)"
  have "covered (query_marker (tx ''accountId'')) ends_query ?shown" "covered (query_marker (tx ''nonce'')) ends_query ?shown"
      "covered (json_marker (tx ''accountId'')) ends_json ?shown" "covered (json_marker (tx ''nonce'')) ends_json ?shown"
    by (simp_all add: SECRET_NAMES_def into_message_def redact_session_creds_def redact_after_covers redact_after_keeps
      markers_apart markers_unlike)
  moreover have "?shown = chain" if "list_all (\<lambda>m. \<not> occurs m chain) [tx ''accountId='', tx ''nonce='', account_json, nonce_json]"
    using that markers_apart
    by (simp add: SECRET_NAMES_def into_message_def redact_session_creds_def redact_after_nothing marker_texts apart_def)
  ultimately show ?thesis
    unfolding marker_texts Let_def using covered_hides stops_end by blast
qed

theorem messages_hide_credentials_witness:
  "into_message (Failed (tx ''GET /inventory?accountId=5f3a&nonce=1234 failed''))
     = tx ''GET /inventory?accountId=<redacted>&nonce=<redacted> failed''
   \<and> hides (tx ''nonce='') query_stops (tx ''GET /inventory?accountId=<redacted>&nonce=<redacted> failed'')
   \<and> into_message (Failed (tx ''timed out'')) = tx ''timed out''"
proof -
  have shown: "into_message (Failed (tx ''GET /inventory?accountId=5f3a&nonce=1234 failed''))
     = tx ''GET /inventory?accountId=<redacted>&nonce=<redacted> failed''" by code_simp
  have "\<not> occurs m (tx ''timed out'')" if "m \<in> {tx ''accountId='', tx ''nonce='', account_json, nonce_json}" for m
  proof
    assume "occurs m (tx ''timed out'')"
    then have "set m \<subseteq> set (tx ''timed out'')" by (auto simp: occurs_def)
    then show False using that by (auto simp: tx_def account_json_def nonce_json_def)
  qed
  then have "into_message (Failed (tx ''timed out'')) = tx ''timed out''"
    using messages_hide_credentials [of "tx ''timed out''"] by simp
  with shown messages_hide_credentials [of "tx ''GET /inventory?accountId=5f3a&nonce=1234 failed''"]
  show ?thesis by (simp add: Let_def)
qed

end
