(* ===== verification/Game_Scan.thy ===== *)
theory Game_Scan
  imports Scan_Patterns Redaction
begin

text \<open>
  The scan of the game's memory (\<open>game-acquisition/src/scan.rs\<close>, \<open>inventory.rs\<close>): finding the process, walking its
  regions in chunks on Linux and on Windows, collecting what the patterns match within a budget, and choosing the
  session. What the operating system answers (process table, maps, reads, regions), the clock and the order of hash
  maps are inputs; sizes are natural numbers, which the buffers keep far below the machine's.
\<close>

section \<open>Finding the game\<close>

text \<open>A process as sysinfo gives it: pid, name, path, and whether the entry is a thread.\<close>

record process_row =
  pr_pid :: u32
  pr_name :: ustr
  pr_exe :: "ustr option"
  pr_thread :: bool

definition matches_warframe :: "process_row \<Rightarrow> bool" where
  "matches_warframe p \<longleftrightarrow>
     starts_with (tx ''Warframe.x64'') (pr_name p) \<or> pr_name p = tx ''Warframe.exe''
     \<or> is_some_and (pr_exe p) (\<lambda>s. contains (tx ''Warframe.x64.exe'') s \<or> ends_with (tx ''/Warframe.exe'') s)"

definition pick_game_pid :: "(u32 \<times> bool) list \<Rightarrow> u32 option" where
  "pick_game_pid ms = min_by (\<lambda>pid. pid) (map fst (filter (\<lambda>(_, is_thread). \<not> is_thread) ms))"

text \<open>\<open>locate\<close>: the row of the last pid after a refresh of it alone, and the whole table if that is no longer the game.\<close>

definition locate :: "(u32 \<Rightarrow> process_row option) \<Rightarrow> process_row list \<Rightarrow> u32 option \<Rightarrow> u32 option" where
  "locate refreshed processes last_pid =
     (if is_some_and last_pid (\<lambda>pid. is_some_and (refreshed pid) matches_warframe) then last_pid
      else pick_game_pid (map (\<lambda>p. (pr_pid p, pr_thread p)) (filter matches_warframe processes)))"

section \<open>Budget and counts\<close>

text \<open>Times are milliseconds since the scan began.\<close>

record scan_budget =
  sb_max_elapsed :: nat
  sb_max_matches :: nat
  sb_max_capture_len :: nat
  sb_max_entries :: nat
  sb_max_bytes :: nat

definition default_budget :: scan_budget where
  "default_budget = \<lparr> sb_max_elapsed = 120000, sb_max_matches = 20000, sb_max_capture_len = 4 * 1024, sb_max_entries = 4096,
     sb_max_bytes = 1024 * 1024 \<rparr>"

text \<open>Hash maps as lists of entries; \<open>pc_looks\<close> counts the readings of the clock.\<close>

record pattern_counts =
  pc_creds :: "((ustr \<times> ustr) \<times> nat) list"
  pc_builds :: "(ustr \<times> nat) list"
  pc_cts :: "(ustr \<times> nat) list"
  pc_without_groups :: nat
  pc_matches :: nat
  pc_bytes :: nat
  pc_looks :: nat

definition no_counts :: pattern_counts where
  "no_counts = \<lparr> pc_creds = [], pc_builds = [], pc_cts = [], pc_without_groups = 0, pc_matches = 0, pc_bytes = 0, pc_looks = 0 \<rparr>"

definition budget_exceeded :: "string \<Rightarrow> nat \<Rightarrow> ustr" where
  "budget_exceeded what limit =
     tx (''Scan budget exceeded: '' @ what @ '' reached '' @ show_nat limit @ ''. The scan was stopped rather than returning a partial result, because a partial credential set is indistinguishable from a complete one. A definitions override is the likely cause - resetting it restores the built-in patterns.'')"

type_synonym clock = "nat \<Rightarrow> nat"

definition charge_time :: "clock \<Rightarrow> scan_budget \<Rightarrow> pattern_counts \<Rightarrow> (ustr, pattern_counts) result" where
  "charge_time clk b c =
     (if sb_max_elapsed b \<le> clk (pc_looks c) then Err (budget_exceeded ''elapsed seconds'' (sb_max_elapsed b div 1000))
      else Ok (c\<lparr> pc_looks := pc_looks c + 1 \<rparr>))"

definition charge_match :: "clock \<Rightarrow> scan_budget \<Rightarrow> pattern_counts \<Rightarrow> (ustr, pattern_counts) result" where
  "charge_match clk b c =
     (let c = c\<lparr> pc_matches := pc_matches c + 1 \<rparr>
      in if sb_max_matches b < pc_matches c then Err (budget_exceeded ''matches examined'' (sb_max_matches b))
         else charge_time clk b c)"

definition charge_value :: "scan_budget \<Rightarrow> nat \<Rightarrow> pattern_counts \<Rightarrow> (ustr, pattern_counts) result" where
  "charge_value b len c =
     (if sb_max_capture_len b < len then Err (budget_exceeded ''capture bytes'' (sb_max_capture_len b))
      else let c = c\<lparr> pc_bytes := pc_bytes c + len \<rparr>
           in if sb_max_bytes b < pc_bytes c then Err (budget_exceeded ''retained bytes'' (sb_max_bytes b)) else Ok c)"

definition charge_entry :: "scan_budget \<Rightarrow> nat \<Rightarrow> (ustr, unit) result" where
  "charge_entry b held =
     (if sb_max_entries b \<le> held then Err (budget_exceeded ''distinct entries'' (sb_max_entries b)) else Ok ())"

text \<open>\<open>*map.entry(k).or_insert(0) += 1\<close>, after \<open>charge_entry\<close> for a new key.\<close>

fun bump :: "'k \<Rightarrow> ('k \<times> nat) list \<Rightarrow> ('k \<times> nat) list" where
  "bump k [] = [(k, 1)]"
| "bump k ((k', n) # m) = (if k' = k then (k', n + 1) # m else (k', n) # bump k m)"

definition count_key :: "scan_budget \<Rightarrow> 'k \<Rightarrow> ('k \<times> nat) list \<Rightarrow> (ustr, ('k \<times> nat) list) result" where
  "count_key b k m =
     rbind (if map_of m k = None then charge_entry b (length m) else Ok ()) (\<lambda>_. Ok (bump k m))"

section \<open>One haystack\<close>

definition cred_match :: "clock \<Rightarrow> scan_budget \<Rightarrow> capture \<Rightarrow> pattern_counts \<Rightarrow> (ustr, pattern_counts) result" where
  "cred_match clk b cap c =
     rbind (charge_match clk b c) (\<lambda>c.
       case (cap 1, cap 2) of
         (Some aid, Some nonce) \<Rightarrow>
           rbind (charge_value b (length aid) c) (\<lambda>c.
           rbind (charge_value b (length nonce) c) (\<lambda>c.
           rbind (count_key b (lower_ascii (from_utf8_lossy aid), from_utf8_lossy nonce) (pc_creds c)) (\<lambda>m.
             Ok (c\<lparr> pc_creds := m \<rparr>))))
       | _ \<Rightarrow> Ok (c\<lparr> pc_without_groups := pc_without_groups c + 1 \<rparr>))"

definition build_match :: "clock \<Rightarrow> scan_budget \<Rightarrow> capture \<Rightarrow> pattern_counts \<Rightarrow> (ustr, pattern_counts) result" where
  "build_match clk b cap c =
     rbind (charge_match clk b c) (\<lambda>c.
       case cap 1 of
         None \<Rightarrow> Ok c
       | Some m \<Rightarrow>
           rbind (charge_value b (length m) c) (\<lambda>c.
           rbind (count_key b (from_utf8_lossy m) (pc_builds c)) (\<lambda>m. Ok (c\<lparr> pc_builds := m \<rparr>))))"

definition ct_match :: "clock \<Rightarrow> scan_budget \<Rightarrow> capture \<Rightarrow> pattern_counts \<Rightarrow> (ustr, pattern_counts) result" where
  "ct_match clk b cap c =
     rbind (charge_match clk b c) (\<lambda>c.
       case cap 1 of
         None \<Rightarrow> Ok c
       | Some m \<Rightarrow>
           rbind (charge_value b (length m) c) (\<lambda>c.
           rbind (count_key b (from_utf8_lossy m) (pc_cts c)) (\<lambda>m. Ok (c\<lparr> pc_cts := m \<rparr>))))"

definition aggregate_match :: "'p engine \<Rightarrow> clock \<Rightarrow> scan_budget \<Rightarrow> 'p scan_patterns \<Rightarrow> bytes \<Rightarrow> pattern_counts
   \<Rightarrow> (ustr, pattern_counts) result" where
  "aggregate_match en clk b pats haystack c =
     rbind (charge_time clk b c) (\<lambda>c.
     rbind (fold_ok (cred_match clk b) (en_captures en (sp_cred pats) haystack) c) (\<lambda>c.
     rbind (charge_time clk b c) (\<lambda>c.
     rbind (fold_ok (build_match clk b) (en_captures en (sp_build pats) haystack) c) (\<lambda>c.
     rbind (charge_time clk b c) (\<lambda>c.
       fold_ok (ct_match clk b) (en_captures en (sp_ct pats) haystack) c)))))"

section \<open>Choosing the session\<close>

record session_info =
  si_account_id :: ustr
  si_nonce :: ustr
  si_build :: "ustr option"
  si_ct :: ustr
  si_cred_hits :: nat
  si_distinct_creds :: nat

definition is_account_id :: "ustr \<Rightarrow> bool" where
  "is_account_id v \<longleftrightarrow> byte_len v = 24 \<and> list_all is_hexdigit v"

definition is_nonce :: "ustr \<Rightarrow> bool" where
  "is_nonce v \<longleftrightarrow> 6 \<le> byte_len v \<and> byte_len v \<le> 32 \<and> list_all digit v"

definition is_build_label :: "ustr \<Rightarrow> bool" where
  "is_build_label v \<longleftrightarrow> v \<noteq> [] \<and> byte_len v \<le> 16 \<and> \<not> starts_with (tx ''.'') v \<and> \<not> ends_with (tx ''.'') v
     \<and> list_all (\<lambda>c. digit c \<or> c = 46) v"

definition is_platform_tag :: "ustr \<Rightarrow> bool" where
  "is_platform_tag v \<longleftrightarrow> 2 \<le> byte_len v \<and> byte_len v \<le> 4 \<and> list_all is_ascii_uppercase v"

definition no_creds_message :: "nat \<Rightarrow> ustr" where
  "no_creds_message n =
     tx (''No accountId/nonce pair found in WF memory.'' @ [CHR 0x0A]
       @ ''Make sure you're past the login screen and a recent network'' @ [CHR 0x0A]
       @ ''call has fired (opening the trade or profile screen is reliable).''
       @ (if 0 < n then [CHR 0x0A, CHR 0x0A] @ ''The configured cred pattern matched '' @ show_nat n
            @ '' time(s), but capture groups 1 and 2 did not both participate, so no value can be read. A top-level alternation or an optional group breaks the pattern; it must capture the account id and the nonce as groups 1 and 2.''
          else ''''))"

definition shape_refused :: ustr where
  "shape_refused = tx ''The captured accountId/nonce pair does not have the shape DE produces: a 24-digit hexadecimal account id and a numeric nonce are required, and this pair was not used. A definitions override is the likely cause - resetting it restores the built-in patterns.''"

text \<open>The order in which a hash map is walked: one for each of the three.\<close>

record walk_order =
  wk_creds :: "((ustr \<times> ustr) \<times> nat) list \<Rightarrow> ((ustr \<times> ustr) \<times> nat) list"
  wk_values :: "(ustr \<times> nat) list \<Rightarrow> (ustr \<times> nat) list"

definition pick_dominant :: "walk_order \<Rightarrow> pattern_counts \<Rightarrow> (ustr, session_info) result" where
  "pick_dominant wk c =
     (case max_by snd (wk_creds wk (pc_creds c)) of
        None \<Rightarrow> Err (no_creds_message (pc_without_groups c))
      | Some ((aid, nonce), hits) \<Rightarrow>
          if \<not> is_account_id aid \<or> \<not> is_nonce nonce then Err shape_refused
          else Ok \<lparr> si_account_id = aid, si_nonce = nonce,
                 si_build = map_option fst (max_by snd (filter (\<lambda>(k, _). is_build_label k) (wk_values wk (pc_builds c)))),
                 si_ct = unwrap_or (map_option fst (max_by snd (filter (\<lambda>(k, _). is_platform_tag k) (wk_values wk (pc_cts c)))))
                           (tx ''STM''),
                 si_cred_hits = hits, si_distinct_creds = length (pc_creds c) \<rparr>)"

section \<open>A region\<close>

definition CHUNK :: nat where "CHUNK = 4 * 1024 * 1024"

definition OVERLAP :: nat where "OVERLAP = 96"

text \<open>
  A read at an address of at most so many bytes: \<open>None\<close> when the seek or the read fails. The slice given to it bounds
  what it can return. The texts searched are listed first; searching them does not change what is read.
\<close>

type_synonym reader = "nat \<Rightarrow> nat \<Rightarrow> bytes option"

function region_haystacks :: "reader \<Rightarrow> nat \<Rightarrow> nat \<Rightarrow> bytes \<Rightarrow> bytes list" where
  "region_haystacks rd stop offset tail =
     (if stop \<le> offset then []
      else let want = min CHUNK (stop - offset) in
        case rd offset want of
          None \<Rightarrow> []
        | Some bs \<Rightarrow>
            let got = take want bs; n = length got; hay = tail @ got; keep = min OVERLAP n
            in if n = 0 then []
               else hay # region_haystacks rd stop (offset + n) (drop (length hay - keep) hay))"
  by pat_completeness auto
termination
proof (relation "measure (\<lambda>(rd, stop, offset, tail). stop - offset)")
  fix rd :: reader and stop offset :: nat and tail bs got hay :: bytes and want n keep :: nat
  assume "\<not> stop \<le> offset" "n \<noteq> 0"
  then show "((rd, stop, offset + n, drop (length hay - keep) hay), rd, stop, offset, tail)
      \<in> measure (\<lambda>(rd, stop, offset, tail). stop - offset)" by simp
qed simp

declare region_haystacks.simps [simp del]

section \<open>Linux\<close>

definition skip_substrings :: "ustr list" where
  "skip_substrings = map tx [''[vvar]'', ''[vsyscall]'', ''[vdso]'', ''/dev/'', ''/SYSV'']"

text \<open>One line of \<open>/proc/<pid>/maps\<close>: no region, a region, or the error that ends the scan.\<close>

definition region_of_line :: "ustr \<Rightarrow> (string, (nat \<times> nat) option) result" where
  "region_of_line line =
     (let parts = split_whitespace line; perms = unwrap_or (get_nth parts 1) []; path = unwrap_or (get_nth parts 5) [] in
      if length parts < 5 then Ok None
      else if \<not> contains (tx ''r'') perms then Ok None
      else if list_ex (\<lambda>s. contains s path) skip_substrings then Ok None
      else case split_once (tx ''-'') (unwrap_or (get_nth parts 0) []) of
        None \<Rightarrow> Ok None
      | Some (start_s, end_s) \<Rightarrow>
          rbind (parse_hex start_s) (\<lambda>start. rbind (parse_hex end_s) (\<lambda>stop. Ok (Some (start, stop)))))"

record linux_process =
  lx_maps :: "(ustr, (string, ustr) result list) result"  \<comment> \<open>opening the file, then its lines\<close>
  lx_mem :: "(ustr, reader) result"  \<comment> \<open>opening it, with the message of \<open>ptrace_open_error\<close>\<close>

definition scan_line :: "'p engine \<Rightarrow> clock \<Rightarrow> scan_budget \<Rightarrow> 'p scan_patterns \<Rightarrow> reader \<Rightarrow> (string, ustr) result
   \<Rightarrow> pattern_counts \<Rightarrow> (ustr, pattern_counts) result" where
  "scan_line en clk b pats rd line c =
     (case rbind line region_of_line of
        Err e \<Rightarrow> Err (tx e)
      | Ok None \<Rightarrow> Ok c
      | Ok (Some (start, stop)) \<Rightarrow> fold_ok (aggregate_match en clk b pats) (region_haystacks rd stop start []) c)"

definition scan_session_linux :: "'p engine \<Rightarrow> walk_order \<Rightarrow> clock \<Rightarrow> 'p scan_patterns \<Rightarrow> linux_process
   \<Rightarrow> (ustr, session_info) result" where
  "scan_session_linux en wk clk pats os =
     rbind (lx_maps os) (\<lambda>lines. rbind (lx_mem os) (\<lambda>rd.
     rbind (fold_ok (scan_line en clk default_budget pats rd) lines no_counts) (pick_dominant wk)))"

section \<open>Windows\<close>

text \<open>\<open>VirtualQueryEx\<close> at an address: the region's base and size and whether it is committed and readable.\<close>

record memory_region =
  mr_base :: nat
  mr_size :: nat
  mr_readable :: bool

definition region_next :: "memory_region \<Rightarrow> nat" where
  "region_next r = (mr_base r + mr_size r) mod 2 ^ 64"

text \<open>The regions a walk visits, in order, each with where it ends; \<open>None\<close> if it never ends.\<close>

partial_function (option) walk_regions :: "(nat \<Rightarrow> memory_region option) \<Rightarrow> nat \<Rightarrow> memory_region list option" where
  "walk_regions query addr =
     (case query addr of
        None \<Rightarrow> Some []
      | Some r \<Rightarrow>
          if region_next r \<le> mr_base r then Some [r]
          else Option.bind (walk_regions query (region_next r)) (\<lambda>rs. Some (r # rs)))"

record windows_process =
  wn_query :: "nat \<Rightarrow> memory_region option"
  wn_read :: reader

definition scan_region :: "'p engine \<Rightarrow> clock \<Rightarrow> scan_budget \<Rightarrow> 'p scan_patterns \<Rightarrow> reader \<Rightarrow> memory_region
   \<Rightarrow> pattern_counts \<Rightarrow> (ustr, pattern_counts) result" where
  "scan_region en clk b pats rd r c =
     (if mr_readable r \<and> mr_base r < region_next r
      then fold_ok (aggregate_match en clk b pats) (region_haystacks rd (region_next r) (mr_base r) []) c
      else Ok c)"

definition OPEN_PROCESS_FAILED :: string where
  "OPEN_PROCESS_FAILED = ''OpenProcess failed - not running as same user, or pid is wrong''"

definition scan_session_windows :: "'p engine \<Rightarrow> walk_order \<Rightarrow> clock \<Rightarrow> 'p scan_patterns \<Rightarrow> (ustr, windows_process) result
   \<Rightarrow> (ustr, session_info) result option" where
  "scan_session_windows en wk clk pats opened =
     (case opened of
        Err e \<Rightarrow> Some (Err (tx OPEN_PROCESS_FAILED @ tx '': '' @ e))
      | Ok os \<Rightarrow>
          map_option (\<lambda>rs.
            rbind (fold_ok (scan_region en clk default_budget pats (wn_read os)) rs no_counts) (pick_dominant wk))
            (walk_regions (wn_query os) 0))"

section \<open>The inventory\<close>

definition NOT_RUNNING :: ustr where
  "NOT_RUNNING = tx (''Warframe doesn't appear to be running.'' @ [CHR 0x0A] @ ''Start the game, log past the title screen, then retry.'')"

text \<open>One GET: its parameters and User-Agent, and the response without its URL.\<close>

record inventory_request =
  iq_params :: "(ustr \<times> ustr) list"
  iq_user_agent :: ustr

record inventory_response =
  is_status :: nat
  is_status_text :: ustr
  is_body :: "(ustr, bytes) result"

definition short_response_message :: "ustr \<Rightarrow> nat \<Rightarrow> ustr" where
  "short_response_message status len =
     tx ''Inventory endpoint returned HTTP '' @ status @ tx ('' ('' @ show_nat len @ '' bytes).'' @ [CHR 0x0A, CHR 0x0A]
       @ ''If the response was small or 4xx, DE may have rotated something.'')"

definition inventory_query :: "session_info \<Rightarrow> ustr \<Rightarrow> inventory_request" where
  "inventory_query info ct =
     \<lparr> iq_params = [(tx ''accountId'', si_account_id info), (tx ''nonce'', si_nonce info), (tx ''ct'', ct)]
         @ (case si_build info of None \<Rightarrow> [] | Some b \<Rightarrow> [(tx ''appVersion'', b)]),
       iq_user_agent = tx ''Warframe/'' @ unwrap_or (si_build info) (tx ''unknown'') \<rparr>"

definition get_inventory :: "(inventory_request \<Rightarrow> (ustr, inventory_response) result) \<Rightarrow> session_info \<Rightarrow> ustr \<Rightarrow> (ustr, bytes) result" where
  "get_inventory send info ct =
     (case send (inventory_query info ct) of
        Err e \<Rightarrow> Err (tx ''inventory request failed: '' @ e)
      | Ok resp \<Rightarrow>
          (case is_body resp of
             Err e \<Rightarrow> Err (tx ''reading inventory response: '' @ e)
           | Ok bs \<Rightarrow>
               if \<not> (200 \<le> is_status resp \<and> is_status resp < 300) \<or> length bs < 1024
               then Err (short_response_message (is_status_text resp) (length bs)) else Ok bs))"

definition fetch_inventory_bytes :: "u32 option \<Rightarrow> (u32 \<Rightarrow> (ustr, session_info) result)
   \<Rightarrow> (inventory_request \<Rightarrow> (ustr, inventory_response) result) \<Rightarrow> u32 option \<Rightarrow> ustr option
   \<Rightarrow> (ustr, bytes \<times> session_info) result" where
  "fetch_inventory_bytes found scan_session send pid platform_tag =
     (case (case pid of Some p \<Rightarrow> Some p | None \<Rightarrow> found) of
        None \<Rightarrow> Err NOT_RUNNING
      | Some pid \<Rightarrow>
          (case scan_session pid of
             Err e \<Rightarrow> Err (tx ''memory scan failed: '' @ e)
           | Ok info \<Rightarrow> rbind (get_inventory send info (unwrap_or platform_tag (si_ct info))) (\<lambda>bs. Ok (bs, info))))"

text \<open>\<open>InventoryScanner::scan\<close>: the lock is held or free, poisoned or not.\<close>

datatype scan_lock = Free | Held | Poisoned

definition scan_inventory :: "scan_lock \<Rightarrow> (ustr, bytes \<times> session_info) result \<Rightarrow> (scan_error, bytes \<times> session_info) result" where
  "scan_inventory lock fetched =
     (case lock of Held \<Rightarrow> Err Busy | _ \<Rightarrow> (case fetched of Err e \<Rightarrow> Err (Failed e) | Ok r \<Rightarrow> Ok r))"

end
