(* ===== verification/Game_Scan_Facts.thy ===== *)
theory Game_Scan_Facts
  imports Game_Scan
begin

text \<open>
  What a scan guarantees: it ends, it stays in its budget, nothing a pattern could match in a readable region is cut
  between two chunks, and only values of the expected shape leave it.
\<close>

section \<open>The budget\<close>

text \<open>
  The specification: what a scan of some texts comes to. Every match of a pattern in a text is one examined, the values are
  those of the groups that are kept, and a map counts each of its keys as often as it was captured, under a limit on the keys.
\<close>

definition pair_of :: "capture \<Rightarrow> (bytes \<times> bytes) option" where
  "pair_of cap = (case (cap 1, cap 2) of (Some aid, Some nonce) \<Rightarrow> Some (aid, nonce) | _ \<Rightarrow> None)"

definition pair_values :: "capture \<Rightarrow> bytes list" where
  "pair_values cap = (case pair_of cap of Some (aid, nonce) \<Rightarrow> [aid, nonce] | None \<Rightarrow> [])"

definition pair_keys :: "capture \<Rightarrow> (ustr \<times> ustr) list" where
  "pair_keys cap = (case pair_of cap of Some (aid, nonce) \<Rightarrow> [(lower_ascii (from_utf8_lossy aid), from_utf8_lossy nonce)] | None \<Rightarrow> [])"

definition group_values :: "capture \<Rightarrow> bytes list" where
  "group_values cap = (case cap 1 of Some v \<Rightarrow> [v] | None \<Rightarrow> [])"

definition tallies :: "nat \<Rightarrow> ('k \<times> nat) list \<Rightarrow> 'k list \<Rightarrow> bool" where
  "tallies limit m keys \<longleftrightarrow> length m \<le> limit \<and> distinct (map fst m)
     \<and> (\<forall>k. (case map_of m k of Some n \<Rightarrow> n | None \<Rightarrow> 0) = count_list keys k)"

definition accounted :: "clock \<Rightarrow> scan_budget \<Rightarrow> nat \<Rightarrow> capture list \<Rightarrow> capture list \<Rightarrow> capture list \<Rightarrow> pattern_counts \<Rightarrow> bool" where
  "accounted clk b texts creds builds cts c \<longleftrightarrow>
     (let examined = length creds + length builds + length cts;
          vals = concat (map pair_values creds) @ concat (map group_values builds) @ concat (map group_values cts)
      in pc_matches c = examined \<and> examined \<le> sb_max_matches b
         \<and> pc_bytes c = sum_list (map length vals) \<and> pc_bytes c \<le> sb_max_bytes b
         \<and> (\<forall>v\<in>set vals. length v \<le> sb_max_capture_len b)
         \<and> pc_looks c = texts + examined \<and> (\<forall>k<texts + examined. clk k < sb_max_elapsed b)
         \<and> pc_without_groups c = length (filter (\<lambda>cap. pair_of cap = None) creds)
         \<and> tallies (sb_max_entries b) (pc_creds c) (concat (map pair_keys creds))
         \<and> tallies (sb_max_entries b) (pc_builds c) (map from_utf8_lossy (concat (map group_values builds)))
         \<and> tallies (sb_max_entries b) (pc_cts c) (map from_utf8_lossy (concat (map group_values cts))))"

text \<open>The scan of the texts \<open>hays\<close>: the clock is read three times a text and once a match.\<close>

definition scanned :: "'p engine \<Rightarrow> clock \<Rightarrow> scan_budget \<Rightarrow> 'p scan_patterns \<Rightarrow> bytes list \<Rightarrow> pattern_counts \<Rightarrow> bool" where
  "scanned en clk b pats hays c \<longleftrightarrow>
     accounted clk b (3 * length hays) (concat (map (en_captures en (sp_cred pats)) hays))
       (concat (map (en_captures en (sp_build pats)) hays)) (concat (map (en_captures en (sp_ct pats)) hays)) c"

lemma bump_keys: "fst ` set (bump k m) = insert k (fst ` set m)"
  by (induction m rule: bump.induct) auto

lemma length_bump: "length (bump k m) = (if k \<in> fst ` set m then length m else Suc (length m))"
  by (induction k m rule: bump.induct) auto

lemma map_of_bump:
  "map_of (bump k m) k' = (if k' = k then Some (Suc (case map_of m k of Some n \<Rightarrow> n | None \<Rightarrow> 0)) else map_of m k')"
  by (induction k m rule: bump.induct) auto

lemma distinct_bump [simp]: "distinct (map fst (bump k m)) = distinct (map fst m)"
  by (induction k m rule: bump.induct) (auto simp: bump_keys)

lemma tallies_none: "tallies limit [] []"
  by (simp add: tallies_def)

lemma tallies_one:
  assumes "count_key b k m = Ok m'" and "tallies (sb_max_entries b) m keys"
  shows "tallies (sb_max_entries b) m' (keys @ [k])"
proof -
  have m': "m' = bump k m" using assms(1) by (auto simp: count_key_def rbind_Ok_iff)
  have "length m' \<le> sb_max_entries b"
  proof (cases "k \<in> fst ` set m")
    case True
    then show ?thesis using assms(2) m' by (simp add: tallies_def length_bump)
  next
    case False
    then have "map_of m k = None" by (simp add: map_of_eq_None_iff)
    then show ?thesis using assms(1) m' False
      by (auto simp: count_key_def charge_entry_def rbind_Ok_iff length_bump split: if_splits)
  qed
  then show ?thesis using assms(2) by (auto simp: tallies_def m' map_of_bump)
qed

lemma charge_time_Ok:
  "charge_time clk b c = Ok c' \<Longrightarrow> c' = c\<lparr> pc_looks := pc_looks c + 1 \<rparr> \<and> clk (pc_looks c) < sb_max_elapsed b"
  by (auto simp: charge_time_def split: if_splits)

lemma charge_match_Ok:
  "charge_match clk b c = Ok c' \<Longrightarrow>
   c' = c\<lparr> pc_matches := pc_matches c + 1, pc_looks := pc_looks c + 1 \<rparr>
   \<and> pc_matches c + 1 \<le> sb_max_matches b \<and> clk (pc_looks c) < sb_max_elapsed b"
  by (auto simp: charge_match_def Let_def dest!: charge_time_Ok split: if_splits)

lemma charge_value_Ok:
  "charge_value b len c = Ok c' \<Longrightarrow> c' = c\<lparr> pc_bytes := pc_bytes c + len \<rparr> \<and> pc_bytes c + len \<le> sb_max_bytes b
   \<and> len \<le> sb_max_capture_len b"
  by (auto simp: charge_value_def Let_def split: if_splits)

lemmas charged = charge_match_Ok charge_value_Ok

lemma accounted_time:
  "charge_time clk b c = Ok c' \<Longrightarrow> accounted clk b n cs bs ts c \<Longrightarrow> accounted clk b (Suc n) cs bs ts c'"
  by (drule charge_time_Ok) (auto simp: accounted_def Let_def less_Suc_eq)

lemma accounted_cred:
  assumes "cred_match clk b cap c = Ok c'" and "accounted clk b n cs bs ts c"
  shows "accounted clk b n (cs @ [cap]) bs ts c'"
proof (cases "pair_of cap")
  case None
  then have "c' = c\<lparr> pc_matches := pc_matches c + 1, pc_looks := pc_looks c + 1, pc_without_groups := pc_without_groups c + 1 \<rparr>
      \<and> pc_matches c + 1 \<le> sb_max_matches b \<and> clk (pc_looks c) < sb_max_elapsed b"
    using assms(1)
    by (cases "cap 1"; cases "cap 2") (auto simp: pair_of_def cred_match_def rbind_Ok_iff dest!: charged)
  then show ?thesis
    using assms(2) None by (auto simp: accounted_def Let_def less_Suc_eq pair_values_def pair_keys_def)
next
  case (Some p)
  then obtain aid nonce where cap: "cap 1 = Some aid" "cap 2 = Some nonce" "p = (aid, nonce)"
    by (auto simp: pair_of_def split: option.splits)
  then obtain m where m: "count_key b (lower_ascii (from_utf8_lossy aid), from_utf8_lossy nonce) (pc_creds c) = Ok m"
    and c': "c' = c\<lparr> pc_matches := pc_matches c + 1, pc_looks := pc_looks c + 1,
        pc_bytes := pc_bytes c + length aid + length nonce, pc_creds := m \<rparr>"
    and ok: "pc_matches c + 1 \<le> sb_max_matches b" "clk (pc_looks c) < sb_max_elapsed b" "length aid \<le> sb_max_capture_len b"
      "length nonce \<le> sb_max_capture_len b" "pc_bytes c + length aid + length nonce \<le> sb_max_bytes b"
    using assms(1) by (auto simp: cred_match_def rbind_Ok_iff dest!: charged)
  have "tallies (sb_max_entries b) (pc_creds c) (concat (map pair_keys cs))"
    using assms(2) by (simp add: accounted_def Let_def)
  from tallies_one [OF m this] show ?thesis
    using assms(2) Some cap(3) ok unfolding c'
    by (auto simp: accounted_def Let_def less_Suc_eq pair_values_def pair_keys_def)
qed

lemma group_match:
  assumes "rbind (charge_match clk b c) (\<lambda>c. case cap 1 of
         None \<Rightarrow> Ok c
       | Some m \<Rightarrow> rbind (charge_value b (length m) c) (\<lambda>c.
           rbind (count_key b (from_utf8_lossy m) (get c)) (\<lambda>m. Ok (put m c)))) = Ok c'"
    and "\<And>f g c. get (c\<lparr> pc_matches := f, pc_looks := g \<rparr>) = get c" "\<And>f c. get (c\<lparr> pc_bytes := f \<rparr>) = get c"
    and "tallies (sb_max_entries b) (get c) keys"
  shows "pc_matches c + 1 \<le> sb_max_matches b \<and> clk (pc_looks c) < sb_max_elapsed b
    \<and> (case cap 1 of
         None \<Rightarrow> c' = c\<lparr> pc_matches := pc_matches c + 1, pc_looks := pc_looks c + 1 \<rparr>
       | Some v \<Rightarrow> length v \<le> sb_max_capture_len b \<and> pc_bytes c + length v \<le> sb_max_bytes b
           \<and> (\<exists>m. tallies (sb_max_entries b) m (keys @ [from_utf8_lossy v])
                \<and> c' = put m (c\<lparr> pc_matches := pc_matches c + 1, pc_looks := pc_looks c + 1,
                     pc_bytes := pc_bytes c + length v \<rparr>)))"
proof (cases "cap 1")
  case None
  then show ?thesis using assms(1) by (auto simp: rbind_Ok_iff dest!: charged)
next
  case (Some v)
  then obtain m where m: "count_key b (from_utf8_lossy v) (get c) = Ok m"
    and "c' = put m (c\<lparr> pc_matches := pc_matches c + 1, pc_looks := pc_looks c + 1, pc_bytes := pc_bytes c + length v \<rparr>)"
    and "pc_matches c + 1 \<le> sb_max_matches b" "clk (pc_looks c) < sb_max_elapsed b" "length v \<le> sb_max_capture_len b"
      "pc_bytes c + length v \<le> sb_max_bytes b"
    using assms(1) by (auto simp: rbind_Ok_iff assms(2,3) dest!: charged)
  moreover have "tallies (sb_max_entries b) m (keys @ [from_utf8_lossy v])" by (rule tallies_one [OF m assms(4)])
  ultimately show ?thesis using Some by auto
qed

lemma accounted_build:
  assumes "build_match clk b cap c = Ok c'" and "accounted clk b n cs bs ts c"
  shows "accounted clk b n cs (bs @ [cap]) ts c'"
proof -
  have "tallies (sb_max_entries b) (pc_builds c) (map from_utf8_lossy (concat (map group_values bs)))"
    using assms(2) by (simp add: accounted_def Let_def)
  from group_match [where cap = cap and get = pc_builds and put = "\<lambda>m c. c\<lparr> pc_builds := m \<rparr>", OF assms(1) [unfolded build_match_def] _ _ this]
  show ?thesis
    using assms(2) by (cases "cap 1") (auto simp: accounted_def Let_def less_Suc_eq group_values_def)
qed

lemma accounted_ct:
  assumes "ct_match clk b cap c = Ok c'" and "accounted clk b n cs bs ts c"
  shows "accounted clk b n cs bs (ts @ [cap]) c'"
proof -
  have "tallies (sb_max_entries b) (pc_cts c) (map from_utf8_lossy (concat (map group_values ts)))"
    using assms(2) by (simp add: accounted_def Let_def)
  from group_match [where cap = cap and get = pc_cts and put = "\<lambda>m c. c\<lparr> pc_cts := m \<rparr>", OF assms(1) [unfolded ct_match_def] _ _ this]
  show ?thesis
    using assms(2) by (cases "cap 1") (auto simp: accounted_def Let_def less_Suc_eq group_values_def)
qed

lemma fold_ok_collects:
  assumes "fold_ok f xs c = Ok c'" and "P [] c" and "\<And>ys x c c'. f x c = Ok c' \<Longrightarrow> P ys c \<Longrightarrow> P (ys @ [x]) c'"
  shows "P xs c'"
proof -
  have "fold_ok f xs c = Ok c' \<Longrightarrow> P ys c \<Longrightarrow> P (ys @ xs) c'" for ys
  proof (induction xs arbitrary: ys c)
    case (Cons x xs)
    then obtain c1 where c1: "f x c = Ok c1" "fold_ok f xs c1 = Ok c'" by (auto simp: rbind_Ok_iff)
    from Cons.IH [OF c1(2) assms(3) [OF c1(1) Cons.prems(2)]] show ?case by simp
  qed simp
  from this [OF assms(1,2)] show ?thesis by simp
qed

lemma scanned_text:
  assumes "aggregate_match en clk b pats hay c = Ok c'" and "scanned en clk b pats hays c"
  shows "scanned en clk b pats (hays @ [hay]) c'"
proof -
  let ?cs = "concat (map (en_captures en (sp_cred pats)) hays)" and ?bs = "concat (map (en_captures en (sp_build pats)) hays)"
    and ?ts = "concat (map (en_captures en (sp_ct pats)) hays)"
  obtain c1 c2 c3 c4 c5 where t1: "charge_time clk b c = Ok c1"
    and f1: "fold_ok (cred_match clk b) (en_captures en (sp_cred pats) hay) c1 = Ok c2" and t2: "charge_time clk b c2 = Ok c3"
    and f2: "fold_ok (build_match clk b) (en_captures en (sp_build pats) hay) c3 = Ok c4" and t3: "charge_time clk b c4 = Ok c5"
    and f3: "fold_ok (ct_match clk b) (en_captures en (sp_ct pats) hay) c5 = Ok c'"
    using assms(1) by (auto simp: aggregate_match_def rbind_Ok_iff)
  have "accounted clk b (Suc (3 * length hays)) ?cs ?bs ?ts c1"
    using accounted_time [OF t1] assms(2) by (simp add: scanned_def)
  then have "accounted clk b (Suc (3 * length hays)) (?cs @ en_captures en (sp_cred pats) hay) ?bs ?ts c2"
    by (intro fold_ok_collects [where P = "\<lambda>xs. accounted clk b (Suc (3 * length hays)) (?cs @ xs) ?bs ?ts", OF f1])
      (simp, metis accounted_cred append_assoc)
  from accounted_time [OF t2 this]
  have "accounted clk b (Suc (Suc (3 * length hays))) (?cs @ en_captures en (sp_cred pats) hay)
      (?bs @ en_captures en (sp_build pats) hay) ?ts c4"
    by (intro fold_ok_collects [where P = "\<lambda>xs. accounted clk b (Suc (Suc (3 * length hays)))
        (?cs @ en_captures en (sp_cred pats) hay) (?bs @ xs) ?ts", OF f2]) (simp, metis accounted_build append_assoc)
  from accounted_time [OF t3 this]
  have "accounted clk b (Suc (Suc (Suc (3 * length hays)))) (?cs @ en_captures en (sp_cred pats) hay)
      (?bs @ en_captures en (sp_build pats) hay) (?ts @ en_captures en (sp_ct pats) hay) c'"
    by (intro fold_ok_collects [where P = "\<lambda>xs. accounted clk b (Suc (Suc (Suc (3 * length hays))))
        (?cs @ en_captures en (sp_cred pats) hay) (?bs @ en_captures en (sp_build pats) hay) (?ts @ xs)", OF f3])
      (simp, metis accounted_ct append_assoc)
  moreover have "Suc (Suc (Suc (3 * length hays))) = 3 * length (hays @ [hay])" by simp
  ultimately show ?thesis unfolding scanned_def by (simp only: map_append concat_append list.map concat.simps append_Nil2)
qed

lemma scanned_texts:
  "fold_ok (aggregate_match en clk b pats) new c = Ok c' \<Longrightarrow> scanned en clk b pats hays c \<Longrightarrow> scanned en clk b pats (hays @ new) c'"
  by (erule fold_ok_collects [where P = "\<lambda>xs. scanned en clk b pats (hays @ xs)"]) (simp, metis scanned_text append_assoc)

lemma scanned_nothing: "scanned en clk b pats [] no_counts"
  by (simp add: scanned_def accounted_def no_counts_def tallies_none)

text \<open>The texts searched for a line of the maps file and for a region of the Windows walk.\<close>

definition line_texts :: "reader \<Rightarrow> (string, ustr) result \<Rightarrow> bytes list" where
  "line_texts rd line =
     (case rbind line region_of_line of Ok (Some (start, stop)) \<Rightarrow> region_haystacks rd stop start [] | _ \<Rightarrow> [])"

definition region_texts :: "reader \<Rightarrow> memory_region \<Rightarrow> bytes list" where
  "region_texts rd r =
     (if mr_readable r \<and> mr_base r < region_next r then region_haystacks rd (region_next r) (mr_base r) [] else [])"

lemma scanned_line:
  assumes "scan_line en clk b pats rd line c = Ok c'" and "scanned en clk b pats hays c"
  shows "scanned en clk b pats (hays @ line_texts rd line) c'"
proof (cases "rbind line region_of_line")
  case (Inl e)
  with assms show ?thesis by (simp add: scan_line_def)
next
  case (Inr r)
  with assms scanned_texts show ?thesis by (cases r) (auto simp: scan_line_def line_texts_def)
qed

lemma scanned_region:
  "scan_region en clk b pats rd r c = Ok c' \<Longrightarrow> scanned en clk b pats hays c \<Longrightarrow> scanned en clk b pats (hays @ region_texts rd r) c'"
  using scanned_texts by (auto simp: scan_region_def region_texts_def split: if_splits)

text \<open>C28: A scan that returns, on Linux or on Windows, is within its budget and complete: over any memory and any patterns, the
  matches it examined are all of those in the texts it read (one that lies in the overlap of two texts is seen, and counted, in
  both), no more than the budget's; the bytes kept are those of all captured values, each no longer than the limit and together
  within it; each map counts exactly what was captured, in no more entries than allowed; and the clock was read three times a
  text and once a match, each time before the budget's end.\<close>

theorem scan_stays_in_budget:
  "(fold_ok (scan_line en clk b pats rd) lines no_counts = Ok c
      \<longrightarrow> scanned en clk b pats (concat (map (line_texts rd) lines)) c)
   \<and> (fold_ok (scan_region en clk b pats rd) regions no_counts = Ok c
      \<longrightarrow> scanned en clk b pats (concat (map (region_texts rd) regions)) c)"
proof (intro conjI impI)
  assume "fold_ok (scan_line en clk b pats rd) lines no_counts = Ok c"
  then show "scanned en clk b pats (concat (map (line_texts rd) lines)) c"
    by (rule fold_ok_collects [where P = "\<lambda>xs. scanned en clk b pats (concat (map (line_texts rd) xs))"])
      (simp_all add: scanned_nothing scanned_line)
next
  assume "fold_ok (scan_region en clk b pats rd) regions no_counts = Ok c"
  then show "scanned en clk b pats (concat (map (region_texts rd) regions)) c"
    by (rule fold_ok_collects [where P = "\<lambda>xs. scanned en clk b pats (concat (map (region_texts rd) xs))"])
      (simp_all add: scanned_nothing scanned_region)
qed

section \<open>The session chosen\<close>

definition well_shaped :: "session_info \<Rightarrow> bool" where
  "well_shaped i \<longleftrightarrow> length (si_account_id i) = 24 \<and> list_all is_hexdigit (si_account_id i)
     \<and> 6 \<le> length (si_nonce i) \<and> length (si_nonce i) \<le> 32 \<and> list_all digit (si_nonce i)
     \<and> is_none_or (si_build i) (\<lambda>v. list_all (\<lambda>c. digit c \<or> c = 46) v \<and> v \<noteq> [] \<and> length v \<le> 16)
     \<and> list_all is_ascii_uppercase (si_ct i) \<and> length (si_ct i) \<in> {2, 3, 4}"

lemma ascii_byte_len: "list_all (\<lambda>c. c < 128) s \<Longrightarrow> byte_len s = length s"
  by (induction s) (simp_all add: byte_len_def char_len_def)

lemma shape_lengths:
  "list_all is_hexdigit v \<Longrightarrow> byte_len v = length v" "list_all digit v \<Longrightarrow> byte_len v = length v"
  "list_all (\<lambda>c. digit c \<or> c = 46) v \<Longrightarrow> byte_len v = length v" "list_all is_ascii_uppercase v \<Longrightarrow> byte_len v = length v"
  by (rule ascii_byte_len,
      auto simp: list_all_iff is_hexdigit_def hex_digit_def digit_def is_ascii_uppercase_def split: if_splits)+

text \<open>A hash map gives each entry once, in some order.\<close>

definition fair :: "walk_order \<Rightarrow> bool" where
  "fair wk \<longleftrightarrow> (\<forall>m. set (wk_creds wk m) = set m) \<and> (\<forall>m. set (wk_values wk m) = set m)"

text \<open>Whatever the patterns captured and in whatever order the maps are walked, the session a scan returns has the shapes the
  game uses (so it can be a request parameter and a header), and its credentials are a pair that was seen, as often as any.\<close>

lemma chosen_session_is_well_shaped:
  assumes "fair wk" and "pick_dominant wk c = Ok info"
  shows "well_shaped info
    \<and> ((si_account_id info, si_nonce info), si_cred_hits info) \<in> set (pc_creds c)
    \<and> (\<forall>(pair, hits)\<in>set (pc_creds c). hits \<le> si_cred_hits info)
    \<and> is_none_or (si_build info) (\<lambda>v. v \<in> fst ` set (pc_builds c))"
proof -
  obtain aid nonce hits where m: "max_by snd (wk_creds wk (pc_creds c)) = Some ((aid, nonce), hits)"
    and ok: "is_account_id aid" "is_nonce nonce"
    and info: "info = \<lparr> si_account_id = aid, si_nonce = nonce,
                 si_build = map_option fst (max_by snd (filter (\<lambda>(k, _). is_build_label k) (wk_values wk (pc_builds c)))),
                 si_ct = unwrap_or (map_option fst (max_by snd (filter (\<lambda>(k, _). is_platform_tag k) (wk_values wk (pc_cts c)))))
                           (tx ''STM''),
                 si_cred_hits = hits, si_distinct_creds = length (pc_creds c) \<rparr>"
  proof (cases "max_by snd (wk_creds wk (pc_creds c))")
    case None
    with assms(2) show ?thesis by (simp add: pick_dominant_def)
  next
    case (Some entry)
    obtain aid nonce hits where "entry = ((aid, nonce), hits)" by (cases entry) auto
    with Some assms(2) that show ?thesis by (simp add: pick_dominant_def split: if_splits)
  qed
  have "set (wk_creds wk (pc_creds c)) = set (pc_creds c)" using assms(1) unfolding fair_def by blast
  then have cred: "((aid, nonce), hits) \<in> set (pc_creds c) \<and> (\<forall>(pair, n)\<in>set (pc_creds c). n \<le> hits)"
    using max_by_Some [OF m] by auto
  have order: "set (wk_values wk m) = set m" for m using assms(1) unfolding fair_def by blast
  have build: "is_none_or (si_build info) (\<lambda>v. is_build_label v \<and> v \<in> fst ` set (pc_builds c))"
  proof (cases "max_by snd (filter (\<lambda>(k, _). is_build_label k) (wk_values wk (pc_builds c)))")
    case None
    then show ?thesis by (simp add: info)
  next
    case (Some kv)
    from max_by_Some [OF this] have "is_build_label (fst kv)" "kv \<in> set (pc_builds c)"
      by (simp_all add: order case_prod_beta)
    with Some show ?thesis by (simp add: info)
  qed
  have tag: "list_all is_ascii_uppercase (si_ct info) \<and> length (si_ct info) \<in> {2, 3, 4}"
  proof (cases "max_by snd (filter (\<lambda>(k, _). is_platform_tag k) (wk_values wk (pc_cts c)))")
    case None
    then show ?thesis by (simp add: info tx_def is_ascii_uppercase_def)
  next
    case (Some kv)
    from max_by_Some [OF this] have "is_platform_tag (fst kv)" by (simp add: case_prod_beta)
    then have "list_all is_ascii_uppercase (fst kv)" "2 \<le> length (fst kv)" "length (fst kv) \<le> 4"
      using shape_lengths(4) [of "fst kv"] by (simp_all add: is_platform_tag_def)
    then show ?thesis using Some by (simp add: info) linarith
  qed
  have "is_none_or (si_build info) (\<lambda>v. list_all (\<lambda>c. digit c \<or> c = 46) v \<and> v \<noteq> [] \<and> length v \<le> 16)"
  proof (cases "si_build info")
    case (Some v)
    with build show ?thesis using shape_lengths(3) [of v] by (simp add: is_build_label_def)
  qed simp
  then have "well_shaped info"
    using ok tag shape_lengths(1) [of aid] shape_lengths(2) [of nonce]
    by (simp add: well_shaped_def is_account_id_def is_nonce_def info)
  moreover have "is_none_or (si_build info) (\<lambda>v. v \<in> fst ` set (pc_builds c))"
    using build by (cases "si_build info") simp_all
  ultimately show ?thesis using cred by (simp add: info)
qed

section \<open>Nothing is cut between chunks\<close>

definition span :: "(nat \<Rightarrow> 8 word) \<Rightarrow> nat \<Rightarrow> nat \<Rightarrow> bytes" where
  "span memory a b = map memory [a..<b]"

text \<open>A reader of this memory: a read gives what is there, all of it or at least as much as two chunks share.\<close>

definition reads_memory :: "(nat \<Rightarrow> 8 word) \<Rightarrow> reader \<Rightarrow> bool" where
  "reads_memory memory rd \<longleftrightarrow>
     (\<forall>a want. 0 < want \<longrightarrow> (\<exists>n. rd a want = Some (span memory a (a + n)) \<and> 0 < n \<and> n \<le> want \<and> (n = want \<or> OVERLAP \<le> n)))"

lemma length_span [simp]: "length (span memory a b) = b - a"
  by (simp add: span_def)

lemma span_append: "a \<le> b \<Longrightarrow> b \<le> c \<Longrightarrow> span memory a b @ span memory b c = span memory a c"
  using upt_add_eq_append [of a b "c - b"] by (simp add: span_def flip: map_append)

lemma drop_span: "drop n (span memory a b) = span memory (a + n) b"
  by (simp add: span_def drop_map)

lemma span_in:
  assumes "l \<le> a" "a \<le> b" "b \<le> r"
  shows "sublist (span memory a b) (span memory l r)"
proof -
  have "span memory l r = span memory l a @ span memory a b @ span memory b r"
    using assms by (simp add: span_append)
  then show ?thesis by (simp add: sublist_appendI)
qed

lemma haystacks_cover:
  assumes "reads_memory memory rd" and "l \<le> offset" and "offset - l \<le> OVERLAP"
    and "l \<le> a" and "offset < a + n" and "a + n \<le> stop" and "n \<le> OVERLAP + 1"
  shows "\<exists>hay\<in>set (region_haystacks rd stop offset (span memory l offset)). sublist (span memory a (a + n)) hay"
  using assms(2-)
proof (induction "stop - offset" arbitrary: offset l rule: less_induct)
  case less
  let ?want = "min CHUNK (stop - offset)"
  have "0 < ?want" using less.prems by (simp add: CHUNK_def)
  with assms(1) obtain k where k: "rd offset ?want = Some (span memory offset (offset + k))" "0 < k" "k \<le> ?want"
      "k = ?want \<or> OVERLAP \<le> k"
    unfolding reads_memory_def by blast
  let ?keep = "min OVERLAP k"
  let ?rest = "region_haystacks rd stop (offset + k) (span memory (offset + k - ?keep) (offset + k))"
  have hay: "span memory l offset @ span memory offset (offset + k) = span memory l (offset + k)"
    using less.prems(1) by (simp add: span_append)
  have "l + (offset + k - (l + ?keep)) = offset + k - ?keep" using less.prems(1) by simp
  then have tail: "drop (offset + k - (l + ?keep)) (span memory l (offset + k)) = span memory (offset + k - ?keep) (offset + k)"
    by (simp add: drop_span)
  have "span memory offset (offset + k) \<noteq> []" using k(2) by (simp add: span_def)
  then have step: "region_haystacks rd stop offset (span memory l offset) = span memory l (offset + k) # ?rest"
    using k less.prems
    by (subst region_haystacks.simps) (simp add: Let_def hay tail)
  show ?case
  proof (cases "a + n \<le> offset + k")
    case True
    then show ?thesis using span_in [of l a "a + n" "offset + k" memory] less.prems(3) unfolding step by simp
  next
    case False
    have "OVERLAP \<le> k"
    proof (rule ccontr)
      assume "\<not> OVERLAP \<le> k"
      then have "k = ?want" "k < 96" using k(4) by (auto simp: OVERLAP_def)
      then have "k = stop - offset" by (simp add: CHUNK_def min_def split: if_splits)
      with False less.prems show False by simp
    qed
    then have "\<exists>hay\<in>set ?rest. sublist (span memory a (a + n)) hay"
      using False less.prems k(2) by (intro less.hyps) (auto simp: OVERLAP_def)
    then show ?thesis unfolding step by simp
  qed
qed

text \<open>Nothing the patterns look for is cut in two: whatever lies in a readable region and is at most a byte longer than what
  two chunks share is whole in one of the texts searched, however the reads are split (each at least as long as the overlap,
  or as asked).\<close>

lemma region_is_searched_whole:
  assumes "reads_memory memory rd" and "start \<le> a" and "a + n \<le> stop" and "0 < n" and "n \<le> OVERLAP + 1"
  shows "\<exists>hay\<in>set (region_haystacks rd stop start []). sublist (span memory a (a + n)) hay"
  using haystacks_cover [of memory rd start start a n stop] assms by (simp add: span_def)

section \<open>The walk over the regions\<close>

text \<open>\<open>VirtualQueryEx\<close> gives the region that holds the address.\<close>

definition query_holds :: "(nat \<Rightarrow> memory_region option) \<Rightarrow> bool" where
  "query_holds query \<longleftrightarrow>
     (\<forall>a r. query a = Some r \<longrightarrow> mr_base r \<le> a \<and> a < mr_base r + mr_size r \<and> mr_base r + mr_size r \<le> 2 ^ 64)"

lemma walk_ends:
  assumes "query_holds query"
  shows "\<exists>rs. walk_regions query a = Some rs \<and> list_all (\<lambda>r. a < mr_base r + mr_size r) rs
    \<and> sorted_wrt (\<lambda>r r'. mr_base r + mr_size r < mr_base r' + mr_size r') rs"
proof (induction "2 ^ 64 - a" arbitrary: a rule: less_induct)
  case less
  show ?case
  proof (cases "query a")
    case None
    then show ?thesis by (subst walk_regions.simps) simp
  next
    case (Some r)
    with assms have r: "mr_base r \<le> a" "a < mr_base r + mr_size r" "mr_base r + mr_size r \<le> 2 ^ 64"
      by (auto simp: query_holds_def)
    show ?thesis
    proof (cases "mr_base r + mr_size r = 2 ^ 64")
      case True
      then have "region_next r = 0" by (simp add: region_next_def)
      with Some r show ?thesis by (subst walk_regions.simps) simp
    next
      case False
      with r have "mr_base r + mr_size r < 2 ^ 64" by simp
      then have n: "region_next r = mr_base r + mr_size r" unfolding region_next_def by (rule mod_less)
      with r have "2 ^ 64 - region_next r < 2 ^ 64 - a" by simp
      from less [OF this] obtain rs where "walk_regions query (region_next r) = Some rs"
        and after: "list_all (\<lambda>r'. region_next r < mr_base r' + mr_size r') rs"
        and "sorted_wrt (\<lambda>r r'. mr_base r + mr_size r < mr_base r' + mr_size r') rs" by blast
      moreover from this n r have "walk_regions query a = Some (r # rs)"
        using Some by (subst walk_regions.simps) simp
      moreover have "list_all (\<lambda>r'. a < mr_base r' + mr_size r') rs"
        using after n r(2) by (auto simp: list_all_iff dest!: bspec)
      ultimately show ?thesis using n r(2) by (simp add: list_all_iff)
    qed
  qed
qed

text \<open>C29: The Windows scan ends: as long as the system answers an address with the region that holds it, the walk comes to an
  end whatever the regions are, up to the top of the address space where the next address wraps, and each region it visits
  ends after the one before.\<close>

theorem windows_walk_ends:
  assumes "query_holds (wn_query os)"
  shows "scan_session_windows en wk clk pats (Ok os) \<noteq> None
    \<and> is_some_and (walk_regions (wn_query os) 0)
        (sorted_wrt (\<lambda>r r'. mr_base r + mr_size r < mr_base r' + mr_size r'))"
  using walk_ends [OF assms, of 0] by (auto simp: scan_session_windows_def)

section \<open>A small scan\<close>

text \<open>One page that holds the letter a, and an engine that finds it.\<close>

definition letter_patterns :: "unit scan_patterns" where
  "letter_patterns = \<lparr> sp_cred = (), sp_build = (), sp_ct = () \<rparr>"

definition letter_page :: "nat \<Rightarrow> 8 word" where "letter_page = (\<lambda>_. 97)"

definition page_reader :: reader where
  "page_reader a want = Some (replicate want 97)"

definition letter_line :: "(string, ustr) result" where
  "letter_line = Ok (tx ''0-1 r--p 0 0 0'')"

lemma page_reads: "reads_memory letter_page page_reader"
proof -
  have "replicate want 97 = span letter_page a (a + want)" for a want
    by (simp add: span_def letter_page_def map_replicate_const)
  then show ?thesis by (auto simp: reads_memory_def page_reader_def)
qed

lemma letter_region: "region_of_line (tx ''0-1 r--p 0 0 0'') = Ok (Some (0, 1))"
  by code_simp

lemma letter_haystacks: "region_haystacks page_reader (Suc 0) 0 [] = [[97]]"
proof -
  have "region_haystacks page_reader (Suc 0) (Suc 0) x = []" for x by (subst region_haystacks.simps) simp
  then show ?thesis by (subst region_haystacks.simps) (simp add: Let_def page_reader_def CHUNK_def)
qed

definition letter_counts :: pattern_counts where
  "letter_counts = \<lparr> pc_creds = [], pc_builds = [([97], 1)], pc_cts = [([97], 1)], pc_without_groups = 1, pc_matches = 3,
     pc_bytes = 2, pc_looks = 6 \<rparr>"

lemma letter_lossy: "from_utf8_lossy [97] = [97]"
  by (simp add: from_utf8_lossy_def utf8_lossy.simps)

lemma letter_scan: "scan_line letter_engine (\<lambda>_. 0) default_budget letter_patterns page_reader letter_line no_counts = Ok letter_counts"
  by (simp add: scan_line_def letter_line_def letter_region letter_haystacks aggregate_match_def letter_engine_def letter_patterns_def
      no_counts_def letter_counts_def charge_time_def cred_match_def build_match_def ct_match_def charge_match_def charge_value_def
      count_key_def charge_entry_def letter_lossy default_budget_def)

definition letter_memory :: memory_region where
  "letter_memory = \<lparr> mr_base = 0, mr_size = 1, mr_readable = True \<rparr>"

lemma letter_region_scan:
  "scan_region letter_engine (\<lambda>_. 0) default_budget letter_patterns page_reader letter_memory no_counts = Ok letter_counts"
  using letter_scan
  by (simp add: scan_region_def letter_memory_def region_next_def scan_line_def letter_line_def letter_region)

theorem scan_stays_in_budget_witness:
  "fold_ok (scan_line letter_engine (\<lambda>_. 0) default_budget letter_patterns page_reader) [letter_line] no_counts = Ok letter_counts
   \<and> line_texts page_reader letter_line = [[97]]
   \<and> scanned letter_engine (\<lambda>_. 0) default_budget letter_patterns [[97]] letter_counts
   \<and> fold_ok (scan_region letter_engine (\<lambda>_. 0) default_budget letter_patterns page_reader) [letter_memory] no_counts
       = Ok letter_counts"
proof -
  have "fold_ok (scan_line letter_engine (\<lambda>_. 0) default_budget letter_patterns page_reader) [letter_line] no_counts = Ok letter_counts"
    "fold_ok (scan_region letter_engine (\<lambda>_. 0) default_budget letter_patterns page_reader) [letter_memory] no_counts = Ok letter_counts"
    by (simp_all add: letter_scan letter_region_scan)
  moreover have "line_texts page_reader letter_line = [[97]]"
    by (simp add: line_texts_def letter_line_def letter_region letter_haystacks)
  ultimately show ?thesis
    using scan_stays_in_budget [of letter_engine "\<lambda>_. 0" default_budget letter_patterns page_reader "[letter_line]" letter_counts]
    by simp
qed

lemma region_is_searched_whole_witness:
  "reads_memory letter_page page_reader
   \<and> (\<exists>hay\<in>set (region_haystacks page_reader 100 0 []). sublist (span letter_page 10 (10 + 5)) hay)"
  using region_is_searched_whole [OF page_reads, of 0 10 5 100] page_reads by (simp add: OVERLAP_def)

definition seen_pair :: pattern_counts where
  "seen_pair = no_counts\<lparr> pc_creds := [((replicate 24 48, replicate 6 49), 3), ((replicate 24 50, replicate 6 49), 1)],
     pc_builds := [(tx ''38.1'', 2)] \<rparr>"

definition as_listed :: walk_order where
  "as_listed = \<lparr> wk_creds = (\<lambda>m. m), wk_values = (\<lambda>m. m) \<rparr>"

lemma chosen_session_is_well_shaped_witness:
  "\<exists>info. pick_dominant as_listed seen_pair = Ok info \<and> si_cred_hits info = 3 \<and> well_shaped info"
proof -
  have fair: "fair as_listed" by (simp add: fair_def as_listed_def)
  have "\<exists>info. pick_dominant as_listed seen_pair = Ok info \<and> si_cred_hits info = 3"
    by (simp add: pick_dominant_def as_listed_def seen_pair_def no_counts_def is_account_id_def is_nonce_def byte_len_def
        char_len_def is_hexdigit_def hex_digit_def digit_def eval_nat_numeral)
  with chosen_session_is_well_shaped [OF fair] show ?thesis by blast
qed

definition one_region :: "nat \<Rightarrow> memory_region option" where
  "one_region a = (if a < 100 then Some \<lparr> mr_base = 0, mr_size = 100, mr_readable = True \<rparr> else None)"

theorem windows_walk_ends_witness:
  "query_holds one_region
   \<and> scan_session_windows letter_engine as_listed (\<lambda>_. 0) letter_patterns
       (Ok \<lparr> wn_query = one_region, wn_read = page_reader \<rparr>) \<noteq> None"
proof -
  have "query_holds one_region" by (auto simp: query_holds_def one_region_def split: if_splits)
  with windows_walk_ends [of "\<lparr> wn_query = one_region, wn_read = page_reader \<rparr>" letter_engine as_listed "\<lambda>_. 0" letter_patterns]
  show ?thesis by simp
qed

end
