(* ===== verification/Inventory_Paths.thy ===== *)
theory Inventory_Paths
  imports Text Ordered_Map Json Complex_Main
begin

text \<open>
  The player's inventory as the market knows it (\<open>market-domain/src/inventory.rs\<close>): reading the game's JSON into
  rows, resolving an item path to its market identity, and adding the rows up per item. The trait \<open>PathTables\<close> is a
  record of its three lookups; \<open>to_lowercase\<close> and the parser of an upgrade's fingerprint are parameters.
\<close>

section \<open>Numbers of a JSON document as \<open>f64\<close>\<close>

text \<open>The value of a finite \<open>f64\<close> from its bits, and the nearest \<open>f64\<close> of an integer, ties to even.\<close>

definition f64_value :: "u64 \<Rightarrow> rat option" where
  "f64_value w =
     (let n = unat w; e = n div 2 ^ 52 mod 2 ^ 11; m = n mod 2 ^ 52;
          v = (if e = 0 then of_nat m * 2 else of_nat (m + 2 ^ 52) * 2 ^ e) / 2 ^ 1075
      in if e = 2047 then None else Some (if n div 2 ^ 63 = 1 then - v else v))"

fun round_f64 :: "nat \<Rightarrow> nat \<Rightarrow> nat" where
  "round_f64 0 n = n"
| "round_f64 (Suc k) n =
     (if n \<le> 2 ^ 53 then n
      else let u = 2 ^ Suc k; q = n div u; r = n mod u
           in if 2 ^ 52 \<le> q then (if u < 2 * r \<or> (2 * r = u \<and> odd q) then (q + 1) * u else q * u)
              else round_f64 k n)"

text \<open>A 64-bit integer loses at most eleven bits.\<close>

definition f64_of_nat :: "nat \<Rightarrow> rat" where
  "f64_of_nat n = of_nat (round_f64 11 n)"

definition as_f64 :: "json \<Rightarrow> rat option" where
  "as_f64 v = (case v of
       JPosInt n \<Rightarrow> Some (f64_of_nat (unat n))
     | JNegInt i \<Rightarrow> Some (- f64_of_nat (nat (- i)))
     | JFloat w \<Rightarrow> f64_value w
     | _ \<Rightarrow> None)"

definition MAX_SAFE :: nat where "MAX_SAFE = 9007199254740991"

text \<open>A count is a whole number an \<open>f64\<close> holds exactly, so it is a natural number here.\<close>

definition whole :: "rat \<Rightarrow> bool" where
  "whole r \<longleftrightarrow> 0 \<le> r \<and> of_int \<lfloor>r\<rfloor> = r \<and> r \<le> of_nat MAX_SAFE"

definition safe_count :: "json \<Rightarrow> nat option" where
  "safe_count v = map_option (\<lambda>r. nat \<lfloor>r\<rfloor>) (opt_filter whole (as_f64 v))"

section \<open>The rows of the document\<close>

definition TRADEABLE_CATEGORIES :: "string list" where
  "TRADEABLE_CATEGORIES = [''MiscItems'', ''Recipes'', ''RawUpgrades'', ''Suits'', ''LongGuns'', ''Pistols'', ''Melee'',
     ''SpaceGuns'', ''SpaceMelee'', ''Sentinels'', ''SentinelWeapons'']"

record flat_entry =
  fe_category :: ustr
  fe_path :: ustr
  fe_count :: nat
  fe_xp :: rat

definition not_null :: "json option \<Rightarrow> json option" where
  "not_null = opt_filter (\<lambda>v. \<not> is_null v)"

definition entry_path :: "json \<Rightarrow> ustr option" where
  "entry_path entry =
     opt_filter (\<lambda>p. p \<noteq> [])
       (map_option chars_of
         (Option.bind (case not_null (jget entry ''ItemType'') of Some v \<Rightarrow> Some v | None \<Rightarrow> jget entry ''Type'') as_str))"

definition flat_row :: "string \<Rightarrow> json \<Rightarrow> (string, flat_entry option) result" where
  "flat_row category entry =
     (case entry_path entry of
        None \<Rightarrow> Ok None
      | Some path \<Rightarrow>
          rbind (case not_null (jget entry ''ItemCount'') of
                   None \<Rightarrow> Ok 1
                 | Some v \<Rightarrow> ok_or (safe_count v) ''Inventory count must be a nonnegative safe integer'') (\<lambda>count.
          Ok (Some \<lparr> fe_category = tx category, fe_path = path, fe_count = count,
                     fe_xp = unwrap_or (Option.bind (jget entry ''XP'') as_f64) 0 \<rparr>)))"

definition flat_category :: "json \<Rightarrow> string \<Rightarrow> (string, flat_entry list) result" where
  "flat_category doc category =
     rbind (map_ok (flat_row category) (unwrap_or (Option.bind (jget doc category) as_array) []))
       (\<lambda>rows. Ok (List.map_filter (\<lambda>r. r) rows))"

definition flatten_inventory :: "json \<Rightarrow> (string, flat_entry list) result" where
  "flatten_inventory doc =
     (if \<not> is_object doc then Err ''Inventory must be an object''
      else rbind (map_ok (flat_category doc) TRADEABLE_CATEGORIES) (\<lambda>parts. Ok (concat parts)))"

text \<open>The highest level kept of each upgrade.\<close>

definition kept_level :: "(string \<Rightarrow> json option) \<Rightarrow> json \<Rightarrow> (ustr \<times> rat) option" where
  "kept_level parse entry =
     map_option (\<lambda>path. (path,
         unwrap_or (Option.bind (Option.bind (Option.bind (Option.bind (jget entry ''UpgradeFingerprint'') as_str) parse)
           (\<lambda>v. jget v ''lvl'')) as_f64) 0))
       (opt_filter (\<lambda>p. p \<noteq> []) (map_option chars_of (Option.bind (jget entry ''ItemType'') as_str)))"

definition keep_level :: "ustr \<times> rat \<Rightarrow> (ustr, rat) btree \<Rightarrow> (ustr, rat) btree" where
  "keep_level pl m =
     (if unwrap_or (map_of m (fst pl)) (- 1) < snd pl then bt_insert (fst pl) (snd pl) m else m)"

definition kept_levels :: "(string \<Rightarrow> json option) \<Rightarrow> json \<Rightarrow> (ustr, rat) btree" where
  "kept_levels parse doc =
     fold keep_level
       (List.map_filter (kept_level parse) (unwrap_or (Option.bind (jget doc ''Upgrades'') as_array) [])) []"

section \<open>Names\<close>

definition is_ascii_lowercase :: "int \<Rightarrow> bool" where
  "is_ascii_lowercase c \<longleftrightarrow> 97 \<le> c \<and> c \<le> 122"

definition is_ascii_alphanumeric :: "int \<Rightarrow> bool" where
  "is_ascii_alphanumeric c \<longleftrightarrow> digit c \<or> is_ascii_uppercase c \<or> is_ascii_lowercase c"

text \<open>\<open>str::replace\<close>; every pattern of the code is non-empty.\<close>

function replace_text :: "ustr \<Rightarrow> ustr \<Rightarrow> ustr \<Rightarrow> ustr" where
  "replace_text p q s =
     (if s = [] then []
      else if p \<noteq> [] \<and> starts_with p s then q @ replace_text p q (drop (length p) s)
      else hd s # replace_text p q (tl s))"
  by pat_completeness auto
termination
  by (relation "measure (\<lambda>(p, q, s). length s)") auto

declare replace_text.simps [simp del]

fun decamel_from :: "int option \<Rightarrow> ustr \<Rightarrow> ustr" where
  "decamel_from prev [] = []"
| "decamel_from prev (c # s) =
     (if is_ascii_uppercase c \<and> is_some_and prev (\<lambda>p. is_ascii_lowercase p \<or> digit p)
      then 32 # c # decamel_from (Some c) s else c # decamel_from (Some c) s)"

definition decamel :: "ustr \<Rightarrow> ustr" where
  "decamel = decamel_from None"

definition after_slash :: "ustr \<Rightarrow> ustr" where
  "after_slash path = rev (takeWhile (\<lambda>c. c \<noteq> 47) (rev path))"

definition trim_suffix :: "ustr \<Rightarrow> ustr \<Rightarrow> ustr" where
  "trim_suffix suffix base = unwrap_or (strip_suffix suffix base) base"

definition path_name_guess :: "ustr \<Rightarrow> ustr option" where
  "path_name_guess path =
     (let base = fold trim_suffix [tx ''Blueprint'', tx ''Component''] (after_slash path)
      in if base = [] then None else Some (decamel base))"

definition path_guess_candidates :: "ustr \<Rightarrow> ustr list" where
  "path_guess_candidates path =
     (case path_name_guess path of
        None \<Rightarrow> []
      | Some guess \<Rightarrow>
          let base = after_slash path;
              names = guess # (if ends_with (tx ''Blueprint'') base \<or> ends_with (tx ''Component'') base
                               then [guess @ tx '' Blueprint''] else [])
          in names @ map (replace_text (tx ''Helmet'') (tx ''Neuroptics'')) (filter (contains (tx ''Helmet'')) names))"

definition slug_guess :: "(ustr \<Rightarrow> ustr) \<Rightarrow> ustr \<Rightarrow> ustr" where
  "slug_guess lower name =
     lower (join_with (tx ''_'') (split_whitespace (map (\<lambda>c. if is_ascii_alphanumeric c \<or> c = 32 then c else 32) name)))"

section \<open>From a path to the market\<close>

record path_tables =
  pt_path_info :: "ustr \<Rightarrow> (ustr \<times> ustr \<times> ustr option) option"
  pt_catalog_entry :: "ustr \<Rightarrow> (ustr \<times> ustr option) option"
  pt_slug_for :: "ustr \<Rightarrow> ustr option"

record resolved_path =
  rp_name :: ustr
  rp_slug :: ustr
  rp_category :: "ustr option"
  rp_refinement :: "ustr option"

definition some_text :: "ustr option \<Rightarrow> ustr option" where
  "some_text = opt_filter (\<lambda>s. s \<noteq> [])"

fun find_map :: "('a \<Rightarrow> 'b option) \<Rightarrow> 'a list \<Rightarrow> 'b option" where
  "find_map f [] = None"
| "find_map f (x # xs) = (case f x of None \<Rightarrow> find_map f xs | Some b \<Rightarrow> Some b)"

definition catalogued :: "path_tables \<Rightarrow> ustr \<Rightarrow> (ustr \<times> ustr option) option" where
  "catalogued t path =
     (case pt_catalog_entry t path of
        Some e \<Rightarrow> Some e
      | None \<Rightarrow> find_map (\<lambda>suffix. Option.bind (strip_suffix suffix path) (pt_catalog_entry t)) [tx ''Component'', tx ''Blueprint''])"

definition guessed :: "(ustr \<Rightarrow> ustr) \<Rightarrow> path_tables \<Rightarrow> ustr \<Rightarrow> resolved_path option" where
  "guessed lower t path =
     find_map (\<lambda>candidate. map_option (\<lambda>slug. \<lparr> rp_name = candidate, rp_slug = slug, rp_category = None, rp_refinement = None \<rparr>)
         (some_text (pt_slug_for t (lower candidate))))
       (path_guess_candidates path)"

definition REFINEMENTS :: "ustr list" where
  "REFINEMENTS = [tx ''Intact'', tx ''Exceptional'', tx ''Flawless'', tx ''Radiant'']"

definition refined_relic :: "(ustr \<Rightarrow> ustr) \<Rightarrow> path_tables \<Rightarrow> ustr \<Rightarrow> resolved_path option" where
  "refined_relic lower t name =
     (case rsplit_once (tx '' '') name of
        None \<Rightarrow> None
      | Some (base, refinement) \<Rightarrow>
          if refinement \<notin> set REFINEMENTS then None
          else map_option (\<lambda>slug. \<lparr> rp_name = base @ tx '' Relic ('' @ refinement @ tx '')'', rp_slug = slug,
                   rp_category = Some (tx ''Relics''), rp_refinement = Some (lower refinement) \<rparr>)
                 (some_text (pt_slug_for t (lower base @ tx '' relic''))))"

definition resolve_path :: "(ustr \<Rightarrow> ustr) \<Rightarrow> ustr \<Rightarrow> path_tables \<Rightarrow> resolved_path option" where
  "resolve_path lower path t =
     (case opt_filter (\<lambda>(_, slug, _). slug \<noteq> []) (pt_path_info t path) of
        Some (name, slug, category) \<Rightarrow>
          Some \<lparr> rp_name = name, rp_slug = slug, rp_category = category, rp_refinement = None \<rparr>
      | None \<Rightarrow>
      (case catalogued t path of
         None \<Rightarrow> guessed lower t path
       | Some (name, category) \<Rightarrow>
       (case refined_relic lower t name of
          Some r \<Rightarrow> Some r
        | None \<Rightarrow>
            Some \<lparr> rp_name = name, rp_slug = unwrap_or (pt_slug_for t (lower name)) (slug_guess lower name),
                   rp_category = category, rp_refinement = None \<rparr>)))"

section \<open>The inventory added up\<close>

record owned_item =
  oi_count :: nat
  oi_name :: ustr
  oi_type :: ustr
  oi_slug :: ustr
  oi_subtype :: "ustr option"
  oi_kept_lvl :: "rat option"
  oi_leveled :: nat

record normalizing =
  nz_owned :: "(ustr \<times> owned_item) list"
  nz_unresolved :: "(ustr, u32) btree"
  nz_positions :: "(ustr, nat) btree"

record normalized_inventory =
  ni_owned :: "(ustr \<times> owned_item) list"
  ni_unresolved :: "(ustr, u32) btree"
  ni_flat_count :: u32

definition item_key :: "resolved_path \<Rightarrow> ustr" where
  "item_key r = rp_slug r @ tx ''|'' @ unwrap_or (rp_refinement r) []"

definition new_owned :: "flat_entry \<Rightarrow> resolved_path \<Rightarrow> owned_item" where
  "new_owned item r =
     \<lparr> oi_count = 0, oi_name = rp_name r, oi_type = unwrap_or (some_text (rp_category r)) (fe_category item),
       oi_slug = rp_slug r, oi_subtype = rp_refinement r, oi_kept_lvl = None, oi_leveled = 0 \<rparr>"

text \<open>\<open>row.count += item.count\<close> and what follows it.\<close>

definition add_copies :: "(ustr, rat) btree \<Rightarrow> flat_entry \<Rightarrow> owned_item \<Rightarrow> (string, owned_item) result" where
  "add_copies kept item row =
     (let row = row\<lparr> oi_count := oi_count row + fe_count item \<rparr>
      in if MAX_SAFE < oi_count row then Err ''Inventory total exceeds safe integer range''
         else let row = (if 0 < fe_xp item then row\<lparr> oi_leveled := oi_leveled row + fe_count item \<rparr> else row)
              in Ok (case map_of kept (fe_path item) of
                       Some level \<Rightarrow>
                         if is_none_or (oi_kept_lvl row) (\<lambda>previous. previous < level)
                         then row\<lparr> oi_kept_lvl := Some level \<rparr> else row
                     | None \<Rightarrow> row))"

text \<open>\<open>positions.entry(key).or_insert_with(\<dots>)\<close>.\<close>

definition position_of :: "flat_entry \<Rightarrow> resolved_path \<Rightarrow> normalizing \<Rightarrow> nat \<times> normalizing" where
  "position_of item r st =
     (case map_of (nz_positions st) (item_key r) of
        Some i \<Rightarrow> (i, st)
      | None \<Rightarrow>
          (length (nz_owned st),
           st\<lparr> nz_positions := bt_insert (item_key r) (length (nz_owned st)) (nz_positions st),
               nz_owned := nz_owned st @ [(item_key r, new_owned item r)] \<rparr>))"

definition market_identity :: "(ustr \<Rightarrow> ustr) \<Rightarrow> path_tables \<Rightarrow> flat_entry \<Rightarrow> resolved_path option" where
  "market_identity lower t item = opt_filter (\<lambda>r. rp_slug r \<noteq> []) (resolve_path lower (fe_path item) t)"

definition normalize_row ::
  "(ustr \<Rightarrow> ustr) \<Rightarrow> path_tables \<Rightarrow> (ustr, rat) btree \<Rightarrow> flat_entry \<Rightarrow> normalizing \<Rightarrow> (string, normalizing) result" where
  "normalize_row lower t kept item st =
     (case market_identity lower t item of
        None \<Rightarrow> Ok (st\<lparr> nz_unresolved := bt_upd (fe_category item) (\<lambda>v. unwrap_or v 0 + 1) (nz_unresolved st) \<rparr>)
      | Some r \<Rightarrow>
          let (i, st) = position_of item r st
          in case get_nth (nz_owned st) i of
               None \<Rightarrow> Err ''Inventory aggregation failed''
             | Some (key, row) \<Rightarrow>
                 rbind (add_copies kept item row) (\<lambda>row. Ok (st\<lparr> nz_owned := (nz_owned st)[i := (key, row)] \<rparr>)))"

text \<open>The request: the document, the catalogue as a list of entries (a later one wins), and the market's two maps.\<close>

record normalize_request =
  iq_inventory :: json
  iq_catalog :: "(ustr \<times> ustr \<times> ustr option) list"
  iq_path_to_info :: "(ustr, ustr \<times> ustr \<times> ustr option) btree"
  iq_market_catalog :: "(ustr, ustr) btree"

definition request_tables :: "normalize_request \<Rightarrow> path_tables" where
  "request_tables q =
     \<lparr> pt_path_info = map_of (iq_path_to_info q), pt_catalog_entry = map_of (rev (iq_catalog q)),
       pt_slug_for = map_of (iq_market_catalog q) \<rparr>"

definition normalize_inventory ::
  "(ustr \<Rightarrow> ustr) \<Rightarrow> (string \<Rightarrow> json option) \<Rightarrow> normalize_request \<Rightarrow> (string, normalized_inventory) result" where
  "normalize_inventory lower parse q =
     rbind (flatten_inventory (iq_inventory q)) (\<lambda>flat.
     rbind (if length flat < 2 ^ 32 then Ok (word_of_nat (length flat)) else Err ''Inventory has too many rows'') (\<lambda>n.
     rbind (fold_ok (normalize_row lower (request_tables q) (kept_levels parse (iq_inventory q))) flat
              \<lparr> nz_owned = [], nz_unresolved = [], nz_positions = [] \<rparr>) (\<lambda>st.
     Ok \<lparr> ni_owned = nz_owned st, ni_unresolved = nz_unresolved st, ni_flat_count = n \<rparr>)))"

section \<open>Every copy is counted once\<close>

lemma map_of_list_update:
  "distinct (map fst xs) \<Longrightarrow> i < length xs \<Longrightarrow> fst (xs ! i) = k \<Longrightarrow> map_of (xs[i := (k, v)]) = (map_of xs)(k \<mapsto> v)"
proof (induction xs arbitrary: i)
  case (Cons x xs)
  show ?case
  proof (cases i)
    case 0
    then show ?thesis using Cons.prems by (cases x) auto
  next
    case (Suc j)
    then have "fst x \<noteq> k" using Cons.prems by (force simp: in_set_conv_nth)
    then show ?thesis using Cons Suc by (cases x) (auto simp: fun_eq_iff)
  qed
qed simp

lemma map_fst_list_update: "i < length xs \<Longrightarrow> fst (xs ! i) = k \<Longrightarrow> map fst (xs[i := (k, v)]) = map fst xs"
  by (simp add: map_update list_update_same_conv)

definition row_key :: "(ustr \<Rightarrow> ustr) \<Rightarrow> path_tables \<Rightarrow> flat_entry \<Rightarrow> ustr option" where
  "row_key lower t item = map_option item_key (market_identity lower t item)"

definition rows_of :: "(ustr \<Rightarrow> ustr) \<Rightarrow> path_tables \<Rightarrow> ustr option \<Rightarrow> flat_entry list \<Rightarrow> flat_entry list" where
  "rows_of lower t k xs = filter (\<lambda>x. row_key lower t x = k) xs"

definition copies :: "flat_entry list \<Rightarrow> nat" where
  "copies xs = sum_list (map fe_count xs)"

text \<open>Positions and rows describe each other.\<close>

definition positions_ok :: "normalizing \<Rightarrow> bool" where
  "positions_ok st \<longleftrightarrow>
     bt_ok (nz_positions st) \<and> distinct (map fst (nz_owned st))
     \<and> (\<forall>k. case map_of (nz_positions st) k of
              Some i \<Rightarrow> i < length (nz_owned st) \<and> fst (nz_owned st ! i) = k
            | None \<Rightarrow> map_of (nz_owned st) k = None)"

definition counts_ok :: "(ustr \<Rightarrow> ustr) \<Rightarrow> path_tables \<Rightarrow> flat_entry list \<Rightarrow> normalizing \<Rightarrow> bool" where
  "counts_ok lower t xs st \<longleftrightarrow>
     (\<forall>k. case map_of (nz_owned st) k of
            None \<Rightarrow> rows_of lower t (Some k) xs = []
          | Some row \<Rightarrow> rows_of lower t (Some k) xs \<noteq> []
              \<and> oi_count row = copies (rows_of lower t (Some k) xs)
              \<and> oi_leveled row = copies (filter (\<lambda>x. 0 < fe_xp x) (rows_of lower t (Some k) xs))
              \<and> oi_count row \<le> MAX_SAFE)"

definition unresolved_rows :: "(ustr \<Rightarrow> ustr) \<Rightarrow> path_tables \<Rightarrow> ustr \<Rightarrow> flat_entry list \<Rightarrow> nat" where
  "unresolved_rows lower t c xs = length (filter (\<lambda>x. fe_category x = c) (rows_of lower t None xs))"

definition unresolved_ok :: "(ustr \<Rightarrow> ustr) \<Rightarrow> path_tables \<Rightarrow> flat_entry list \<Rightarrow> normalizing \<Rightarrow> bool" where
  "unresolved_ok lower t xs st \<longleftrightarrow>
     bt_ok (nz_unresolved st)
     \<and> (\<forall>c. unwrap_or (map_of (nz_unresolved st) c) 0 = of_nat (unresolved_rows lower t c xs))"

lemma position_entry:
  "positions_ok st \<Longrightarrow> case map_of (nz_positions st) k of
       Some i \<Rightarrow> i < length (nz_owned st) \<and> fst (nz_owned st ! i) = k | None \<Rightarrow> map_of (nz_owned st) k = None"
  unfolding positions_ok_def by blast

lemma position_of_spec:
  assumes "position_of item r st = (i, st1)" and "positions_ok st"
  shows "positions_ok st1" and "get_nth (nz_owned st1) i \<noteq> None" and "fst (nz_owned st1 ! i) = item_key r"
    and "map_of (nz_owned st1) =
           (map_of (nz_owned st))(item_key r \<mapsto> unwrap_or (map_of (nz_owned st) (item_key r)) (new_owned item r))"
    and "nz_unresolved st1 = nz_unresolved st"
proof -
  let ?k = "item_key r"
  have "positions_ok st1 \<and> get_nth (nz_owned st1) i \<noteq> None \<and> fst (nz_owned st1 ! i) = ?k
    \<and> map_of (nz_owned st1) = (map_of (nz_owned st))(?k \<mapsto> unwrap_or (map_of (nz_owned st) ?k) (new_owned item r))
    \<and> nz_unresolved st1 = nz_unresolved st"
  proof (cases "map_of (nz_positions st) ?k")
    case None
    with position_entry [OF assms(2), of ?k] have fresh: "map_of (nz_owned st) ?k = None" by simp
    have st1: "st1 = st\<lparr> nz_positions := bt_insert ?k (length (nz_owned st)) (nz_positions st),
               nz_owned := nz_owned st @ [(?k, new_owned item r)] \<rparr>" and i: "i = length (nz_owned st)"
      using assms(1) None by (auto simp: position_of_def)
    have new: "?k \<notin> fst ` set (nz_owned st)" using fresh by (simp add: map_of_eq_None_iff)
    have "map_of (nz_owned st1) = (map_of (nz_owned st))(?k \<mapsto> new_owned item r)"
      using fresh unfolding st1 by (auto simp: map_add_def split: option.split)
    moreover have "positions_ok st1"
      unfolding positions_ok_def
    proof (intro conjI allI)
      show "bt_ok (nz_positions st1)" using assms(2) by (simp add: st1 positions_ok_def)
      show "distinct (map fst (nz_owned st1))" using assms(2) new by (simp add: st1 positions_ok_def)
      fix k
      have pos: "map_of (nz_positions st1) = (map_of (nz_positions st))(?k \<mapsto> length (nz_owned st))"
        using assms(2) by (simp add: st1 positions_ok_def)
      from position_entry [OF assms(2), of k]
      show "case map_of (nz_positions st1) k of Some i \<Rightarrow> i < length (nz_owned st1) \<and> fst (nz_owned st1 ! i) = k
          | None \<Rightarrow> map_of (nz_owned st1) k = None"
        unfolding pos by (cases "k = ?k"; cases "map_of (nz_positions st) k") (simp_all add: st1 nth_append map_add_def)
    qed
    ultimately show ?thesis using fresh by (simp add: st1 i get_nth_def)
  next
    case (Some j)
    with assms(1) have "st1 = st" "i = j" by (auto simp: position_of_def)
    moreover have j: "j < length (nz_owned st)" "fst (nz_owned st ! j) = ?k"
      using position_entry [OF assms(2), of ?k] Some by simp_all
    moreover have "map_of (nz_owned st) ?k = Some (snd (nz_owned st ! j))"
      using j assms(2) by (simp add: positions_ok_def flip: j(2))
    ultimately show ?thesis using assms(2) by (simp add: get_nth_def fun_upd_idem)
  qed
  then show "positions_ok st1" "get_nth (nz_owned st1) i \<noteq> None" "fst (nz_owned st1 ! i) = ?k"
    "map_of (nz_owned st1) = (map_of (nz_owned st))(?k \<mapsto> unwrap_or (map_of (nz_owned st) ?k) (new_owned item r))"
    "nz_unresolved st1 = nz_unresolved st"
    by blast+
qed

lemma add_copies_Ok:
  assumes "add_copies kept item row = Ok row'"
  shows "oi_count row' = oi_count row + fe_count item" and "oi_count row' \<le> MAX_SAFE"
    and "oi_leveled row' = oi_leveled row + (if 0 < fe_xp item then fe_count item else 0)"
    and "oi_slug row' = oi_slug row"
  using assms by (auto simp: add_copies_def Let_def guard_Ok_iff split: option.splits if_splits)


lemma rows_of_snoc: "rows_of lower t k (xs @ [x]) = rows_of lower t k xs @ (if row_key lower t x = k then [x] else [])"
  by (simp add: rows_of_def)

lemma copies_append [simp]: "copies (xs @ ys) = copies xs + copies ys" "copies [] = 0" "copies [x] = fe_count x"
  by (simp_all add: copies_def)

lemma counts_entry:
  "counts_ok lower t xs st \<Longrightarrow> case map_of (nz_owned st) k of
     None \<Rightarrow> rows_of lower t (Some k) xs = []
   | Some row \<Rightarrow> rows_of lower t (Some k) xs \<noteq> []
       \<and> oi_count row = copies (rows_of lower t (Some k) xs)
       \<and> oi_leveled row = copies (filter (\<lambda>x. 0 < fe_xp x) (rows_of lower t (Some k) xs))
       \<and> oi_count row \<le> MAX_SAFE"
  unfolding counts_ok_def by blast

lemma normalize_row_unresolved:
  assumes step: "normalize_row lower t kept x st = Ok st'" and key: "row_key lower t x = None"
    and ok: "positions_ok st" "counts_ok lower t xs st" "unresolved_ok lower t xs st"
  shows "positions_ok st' \<and> counts_ok lower t (xs @ [x]) st' \<and> unresolved_ok lower t (xs @ [x]) st'"
proof -
  have "market_identity lower t x = None" using key by (simp add: row_key_def)
  with step have st': "st' = st\<lparr> nz_unresolved := bt_upd (fe_category x) (\<lambda>v. unwrap_or v 0 + 1) (nz_unresolved st) \<rparr>"
    by (simp add: normalize_row_def)
  have "positions_ok st'" using ok(1) by (simp add: positions_ok_def st' cong: option.case_cong)
  moreover have "counts_ok lower t (xs @ [x]) st'"
    using ok(2) key by (simp add: counts_ok_def st' rows_of_snoc cong: option.case_cong)
  moreover have "unresolved_ok lower t (xs @ [x]) st'"
    using ok(3) key by (auto simp: unresolved_ok_def unresolved_rows_def st' rows_of_snoc lookup_bt_upd)
  ultimately show ?thesis by blast
qed

lemma normalize_row_resolved:
  assumes step: "normalize_row lower t kept x st = Ok st'" and key: "row_key lower t x = Some k"
    and ok: "positions_ok st" "counts_ok lower t xs st" "unresolved_ok lower t xs st"
  shows "positions_ok st' \<and> counts_ok lower t (xs @ [x]) st' \<and> unresolved_ok lower t (xs @ [x]) st'"
proof -
  obtain r where r: "market_identity lower t x = Some r" "item_key r = k" using key by (auto simp: row_key_def)
  obtain i st1 where pos: "position_of x r st = (i, st1)" by (cases "position_of x r st")
  note P = position_of_spec [OF pos ok(1), unfolded r(2)]
  obtain key row where row: "get_nth (nz_owned st1) i = Some (key, row)" using P(2) by (cases "get_nth (nz_owned st1) i") auto
  have at: "i < length (nz_owned st1)" "nz_owned st1 ! i = (k, row)" "key = k"
    using row P(3) by (auto simp: get_nth_def split: if_splits)
  have row_is: "row = unwrap_or (map_of (nz_owned st) k) (new_owned x r)"
  proof -
    have "map_of (nz_owned st1) k = Some row"
      using at P(1) nth_mem [OF at(1)] by (simp add: positions_ok_def)
    then show ?thesis by (simp add: P(4))
  qed
  obtain row' where add: "add_copies kept x row = Ok row'" and st': "st' = st1\<lparr> nz_owned := (nz_owned st1)[i := (k, row')] \<rparr>"
    using step r(1) pos row at(3) by (auto simp: normalize_row_def rbind_Ok_iff)
  note A = add_copies_Ok [OF add]
  have dist: "distinct (map fst (nz_owned st1))" using P(1) by (simp add: positions_ok_def)
  have keys: "map fst (nz_owned st') = map fst (nz_owned st1)" using at by (simp add: st' map_fst_list_update)
  have owned: "map_of (nz_owned st') = (map_of (nz_owned st))(k \<mapsto> row')"
    using at dist P(4) by (simp add: st' map_of_list_update)
  have "positions_ok st'"
    unfolding positions_ok_def
  proof (intro conjI allI)
    show "bt_ok (nz_positions st')" using P(1) by (simp add: st' positions_ok_def)
    show "distinct (map fst (nz_owned st'))" using keys dist by simp
    fix l
    have len: "length (nz_owned st') = length (nz_owned st1)" by (simp add: st')
    have fsts: "fst (nz_owned st' ! j) = fst (nz_owned st1 ! j)" if "j < length (nz_owned st1)" for j
      using that at by (cases "j = i") (simp_all add: st')
    have none: "map_of (nz_owned st') l = None \<longleftrightarrow> map_of (nz_owned st1) l = None"
      using arg_cong [OF keys, of set] by (simp add: map_of_eq_None_iff)
    show "case map_of (nz_positions st') l of Some j \<Rightarrow> j < length (nz_owned st') \<and> fst (nz_owned st' ! j) = l
        | None \<Rightarrow> map_of (nz_owned st') l = None"
      using position_entry [OF P(1), of l] len fsts none by (cases "map_of (nz_positions st1) l") (simp_all add: st')
  qed
  moreover have "counts_ok lower t (xs @ [x]) st'"
    unfolding counts_ok_def
  proof
    fix l
    show "case map_of (nz_owned st') l of None \<Rightarrow> rows_of lower t (Some l) (xs @ [x]) = []
        | Some row \<Rightarrow> rows_of lower t (Some l) (xs @ [x]) \<noteq> []
            \<and> oi_count row = copies (rows_of lower t (Some l) (xs @ [x]))
            \<and> oi_leveled row = copies (filter (\<lambda>x. 0 < fe_xp x) (rows_of lower t (Some l) (xs @ [x])))
            \<and> oi_count row \<le> MAX_SAFE"
    proof (cases "l = k")
      case True
      then show ?thesis
        using counts_entry [OF ok(2), of k] A key
        by (cases "map_of (nz_owned st) k") (simp_all add: owned rows_of_snoc row_is new_owned_def)
    next
      case False
      then show ?thesis using counts_entry [OF ok(2), of l] key by (simp add: owned rows_of_snoc cong: option.case_cong)
    qed
  qed
  moreover have "unresolved_ok lower t (xs @ [x]) st'"
    using ok(3) key P(5) by (simp add: unresolved_ok_def unresolved_rows_def rows_of_snoc st')
  ultimately show ?thesis by blast
qed

lemma normalize_rows:
  "fold_ok (normalize_row lower t kept) ys st = Ok st' \<Longrightarrow> positions_ok st \<Longrightarrow> counts_ok lower t xs st \<Longrightarrow> unresolved_ok lower t xs st
   \<Longrightarrow> positions_ok st' \<and> counts_ok lower t (xs @ ys) st' \<and> unresolved_ok lower t (xs @ ys) st'"
proof (induction ys arbitrary: st xs)
  case (Cons y ys)
  then obtain s where s: "normalize_row lower t kept y st = Ok s" "fold_ok (normalize_row lower t kept) ys s = Ok st'"
    by (auto simp: rbind_Ok_iff)
  have "positions_ok s \<and> counts_ok lower t (xs @ [y]) s \<and> unresolved_ok lower t (xs @ [y]) s"
    using normalize_row_unresolved [OF s(1) _ Cons.prems(2-4)] normalize_row_resolved [OF s(1) _ Cons.prems(2-4)]
    by (cases "row_key lower t y") blast+
  with Cons.IH [OF s(2), of "xs @ [y]"] show ?case by simp
qed simp


lemma copies_by_key:
  assumes "distinct ks" and "\<And>x k. x \<in> set xs \<Longrightarrow> row_key lower t x = Some k \<Longrightarrow> k \<in> set ks"
  shows "sum_list (map (\<lambda>k. copies (rows_of lower t (Some k) xs)) ks) + copies (rows_of lower t None xs) = copies xs"
  using assms(2)
proof (induction xs)
  case Nil
  then show ?case by (simp add: rows_of_def)
next
  case (Cons x xs)
  have split: "copies (rows_of lower t k (x # xs)) = (if row_key lower t x = k then fe_count x else 0) + copies (rows_of lower t k xs)" for k
    by (simp add: rows_of_def copies_def)
  have one: "sum_list (map (\<lambda>k. if row_key lower t x = Some k then fe_count x else 0) ks)
      = (if row_key lower t x = None then 0 else fe_count x)"
    using assms(1) Cons.prems [of x]
    by (cases "row_key lower t x") (simp_all add: sum_list_distinct_conv_sum_set sum.delta)
  have "sum_list (map (\<lambda>k. copies (rows_of lower t (Some k) xs)) ks) + copies (rows_of lower t None xs) = copies xs"
    by (rule Cons.IH) (rule Cons.prems, simp_all)
  with one show ?case by (simp add: split sum_list_addf) (auto simp: copies_def)
qed

lemma unat_of_nat_u32: "n < 2 ^ 32 \<Longrightarrow> unat (of_nat n :: u32) = n"
  by (simp add: unat_of_nat take_bit_nat_eq_self)

lemma normalized_spec:
  assumes "normalize_inventory lower parse q = Ok out"
  obtains flat st where "flatten_inventory (iq_inventory q) = Ok flat" and "unat (ni_flat_count out) = length flat"
    and "length flat < 2 ^ 32" and "ni_owned out = nz_owned st" and "ni_unresolved out = nz_unresolved st"
    and "positions_ok st" and "counts_ok lower (request_tables q) flat st" and "unresolved_ok lower (request_tables q) flat st"
proof -
  let ?t = "request_tables q" and ?s0 = "\<lparr> nz_owned = [], nz_unresolved = [], nz_positions = [] \<rparr>"
  obtain flat st where flat: "flatten_inventory (iq_inventory q) = Ok flat" "length flat < 2 ^ 32"
    and st: "fold_ok (normalize_row lower ?t (kept_levels parse (iq_inventory q))) flat ?s0 = Ok st"
    and out: "out = \<lparr> ni_owned = nz_owned st, ni_unresolved = nz_unresolved st, ni_flat_count = word_of_nat (length flat) \<rparr>"
    using assms by (auto simp: normalize_inventory_def rbind_Ok_iff split: if_splits)
  have "positions_ok ?s0" "counts_ok lower ?t [] ?s0" "unresolved_ok lower ?t [] ?s0"
    by (simp_all add: positions_ok_def counts_ok_def unresolved_ok_def unresolved_rows_def rows_of_def)
  from normalize_rows [OF st this] flat out show ?thesis
    by (intro that [of flat st]) (simp_all add: unat_of_nat_u32)
qed

lemma rows_of_cover: "row_key lower t x = Some k \<Longrightarrow> x \<in> set xs \<Longrightarrow> rows_of lower t (Some k) xs \<noteq> []"
  by (auto simp: rows_of_def filter_empty_conv)

text \<open>C30: Adding the inventory up loses and invents nothing: every item's row holds exactly the copies of the document's
  rows that resolve to its slug and refinement, of which exactly those with experience are counted as leveled; no item
  has two rows; rows that resolve to nothing are counted per category; and the copies of all items together with
  those unresolved are the copies of the document.\<close>

theorem inventory_counts_every_copy:
  assumes "normalize_inventory lower parse q = Ok out"
  shows "\<exists>flat. flatten_inventory (iq_inventory q) = Ok flat \<and> unat (ni_flat_count out) = length flat
     \<and> distinct (map fst (ni_owned out))
     \<and> (\<forall>k row. map_of (ni_owned out) k = Some row \<longrightarrow>
          oi_count row = copies (rows_of lower (request_tables q) (Some k) flat)
          \<and> oi_leveled row = copies (filter (\<lambda>x. 0 < fe_xp x) (rows_of lower (request_tables q) (Some k) flat)))
     \<and> (\<forall>c. unat (unwrap_or (map_of (ni_unresolved out) c) 0) = unresolved_rows lower (request_tables q) c flat)
     \<and> sum_list (map (\<lambda>(_, row). oi_count row) (ni_owned out)) + copies (rows_of lower (request_tables q) None flat) = copies flat"
proof -
  let ?t = "request_tables q"
  obtain flat st where f: "flatten_inventory (iq_inventory q) = Ok flat" "unat (ni_flat_count out) = length flat" "length flat < 2 ^ 32"
    and o: "ni_owned out = nz_owned st" "ni_unresolved out = nz_unresolved st"
    and ok: "positions_ok st" "counts_ok lower ?t flat st" "unresolved_ok lower ?t flat st"
    using normalized_spec [OF assms] by blast
  have dist: "distinct (map fst (nz_owned st))" using ok(1) by (simp add: positions_ok_def)
  have row: "oi_count row = copies (rows_of lower ?t (Some k) flat)
      \<and> oi_leveled row = copies (filter (\<lambda>x. 0 < fe_xp x) (rows_of lower ?t (Some k) flat))"
    if "map_of (nz_owned st) k = Some row" for k row
    using counts_entry [OF ok(2), of k] that by simp
  have few: "unresolved_rows lower ?t c flat < 2 ^ 32" for c
    using f(3) le_less_trans [OF length_filter_le [of _ "rows_of lower ?t None flat"]] length_filter_le [of _ flat]
    by (simp add: unresolved_rows_def rows_of_def) (meson le_less_trans length_filter_le)
  have "unat (unwrap_or (map_of (nz_unresolved st) c) 0) = unresolved_rows lower ?t c flat" for c
    using ok(3) few [of c] by (simp add: unresolved_ok_def unat_of_nat_u32)
  moreover have "sum_list (map (\<lambda>(_, row). oi_count row) (nz_owned st)) + copies (rows_of lower ?t None flat) = copies flat"
  proof -
    have "map (\<lambda>(_, row). oi_count row) (nz_owned st) = map (\<lambda>k. copies (rows_of lower ?t (Some k) flat)) (map fst (nz_owned st))"
      using row dist by (auto simp: case_prod_beta)
    moreover have "k \<in> set (map fst (nz_owned st))" if "x \<in> set flat" "row_key lower ?t x = Some k" for x k
      using counts_entry [OF ok(2), of k] rows_of_cover [OF that(2,1)] map_of_eq_None_iff [of "nz_owned st" k]
      by (cases "map_of (nz_owned st) k") auto
    ultimately show ?thesis using copies_by_key [OF dist] by metis
  qed
  ultimately show ?thesis using f(1,2) dist row by (intro exI [of _ flat]) (simp add: o)
qed

definition demo_request :: normalize_request where
  "demo_request =
     \<lparr> iq_inventory = JObj [(''MiscItems'', JArr
           [JObj [(''ItemType'', JStr ''/A''), (''ItemCount'', JPosInt 2)], JObj [(''Type'', JStr ''/A''), (''XP'', JPosInt 1)],
            JObj [(''ItemType'', JStr ''/'')]])],
       iq_catalog = [], iq_path_to_info = [(tx ''/A'', (tx ''A'', tx ''a'', None))], iq_market_catalog = [] \<rparr>"


definition demo_row :: owned_item where
  "demo_row = \<lparr> oi_count = 3, oi_name = tx ''A'', oi_type = tx ''MiscItems'', oi_slug = tx ''a'', oi_subtype = None,
     oi_kept_lvl = None, oi_leveled = 1 \<rparr>"

lemma utf8_chars_ascii: "list_all (\<lambda>b. b < 128) bs \<Longrightarrow> utf8_chars bs = Some bs"
  by (induction bs) (simp_all add: utf8_chars.simps [of "_ # _"] utf8_chars.simps [of "[]"])

lemma chars_of_ascii: "list_all (\<lambda>c. of_char c < (128::int)) s \<Longrightarrow> chars_of s = tx s"
proof -
  assume ascii: "list_all (\<lambda>c. of_char c < (128::int)) s"
  have "uint (of_char c :: 8 word) = of_char c" for c
  proof -
    have "uint (of_nat (of_char c) :: 8 word) = int (of_char c)"
      using nat_of_char_less_256 [of c] by (simp add: uint_nat unat_of_nat take_bit_nat_eq_self)
    then show ?thesis by (simp only: of_nat_of_char)
  qed
  then have "map uint (map of_char s :: 8 word list) = tx s"
    by (simp add: tx_def)
  with ascii show ?thesis
    by (simp add: chars_of_def from_utf8_def utf8_chars_ascii tx_def list_all_length)
qed

lemma round_f64_exact: "n \<le> 2 ^ 53 \<Longrightarrow> round_f64 k n = n"
  by (cases k) simp_all

lemma safe_count_exact: "unat n \<le> MAX_SAFE \<Longrightarrow> safe_count (JPosInt n) = Some (unat n)"
proof -
  assume n: "unat n \<le> MAX_SAFE"
  then have "f64_of_nat (unat n) = of_nat (unat n)" by (simp only: f64_of_nat_def) (simp add: round_f64_exact MAX_SAFE_def)
  moreover have "whole (of_nat k)" if "k \<le> MAX_SAFE" for k using that by (simp only: whole_def) simp
  ultimately show ?thesis using n by (simp add: safe_count_def as_f64_def del: of_nat_unat)
qed

lemma demo_flat:
  "flatten_inventory (iq_inventory demo_request) = Ok
     [\<lparr> fe_category = tx ''MiscItems'', fe_path = tx ''/A'', fe_count = 2, fe_xp = 0 \<rparr>,
      \<lparr> fe_category = tx ''MiscItems'', fe_path = tx ''/A'', fe_count = 1, fe_xp = 1 \<rparr>,
      \<lparr> fe_category = tx ''MiscItems'', fe_path = tx ''/'', fe_count = 1, fe_xp = 0 \<rparr>]"
  by (simp add: flatten_inventory_def TRADEABLE_CATEGORIES_def flat_category_def flat_row_def entry_path_def not_null_def demo_request_def
      chars_of_ascii safe_count_exact MAX_SAFE_def map_filter_simps as_f64_def f64_of_nat_def round_f64_exact
      tx_def)
lemma demo_normalizes:
  "normalize_inventory lower_ascii (\<lambda>_. None) demo_request =
     Ok \<lparr> ni_owned = [(tx ''a|'', demo_row)], ni_unresolved = [(tx ''MiscItems'', 1)], ni_flat_count = 3 \<rparr>"
  unfolding normalize_inventory_def demo_flat
  by (simp add: demo_request_def normalize_row_def market_identity_def resolve_path_def request_tables_def tx_def kept_levels_def
      position_of_def item_key_def new_owned_def get_nth_def add_copies_def MAX_SAFE_def some_text_def bt_insert_def catalogued_def
      guessed_def path_guess_candidates_def path_name_guess_def after_slash_def trim_suffix_def strip_suffix_def strip_prefix_def
      demo_row_def)


theorem inventory_counts_every_copy_witness:
  "\<exists>flat. flatten_inventory (iq_inventory demo_request) = Ok flat \<and> length flat = 3
     \<and> oi_count demo_row = copies (rows_of lower_ascii (request_tables demo_request) (Some (tx ''a|'')) flat)
     \<and> oi_count demo_row + copies (rows_of lower_ascii (request_tables demo_request) None flat) = copies flat"
  using inventory_counts_every_copy [OF demo_normalizes] by (auto split: if_splits)

section \<open>A guess names only what the market lists\<close>

lemma find_map_Some: "find_map f xs = Some y \<Longrightarrow> \<exists>x\<in>set xs. f x = Some y"
  by (induction xs) (auto split: option.splits)

text \<open>
  A path known neither to the market nor to the catalogue resolves, if at all, to a slug the market lists under the
  guessed name; and a slug is empty only where the market's own entry for the name is.
\<close>

lemma guess_never_invents:
  assumes "resolve_path lower path t = Some r" and "pt_path_info t path = None" and "catalogued t path = None"
  shows "pt_slug_for t (lower (rp_name r)) = Some (rp_slug r) \<and> rp_slug r \<noteq> [] \<and> rp_name r \<in> set (path_guess_candidates path)"
  using assms by (auto simp: resolve_path_def guessed_def some_text_def dest!: find_map_Some)

lemma refined_relics_say_so:
  assumes "resolve_path lower path t = Some r" and "rp_refinement r \<noteq> None"
  shows "\<exists>name c. catalogued t path = Some (name, c) \<and> refined_relic lower t name = Some r"
  using assms
  by (auto simp: resolve_path_def guessed_def split: option.splits if_splits dest!: find_map_Some)

end
