(* ===== verification/Inventory.thy ===== *)
theory Inventory
  imports Inventory_Paths Ledger
begin

text \<open>
  The inventory on disk: the rows of a scan (\<open>persistence/snapshot.rs\<close>), the tables \<open>snapshot\<close>, \<open>snapshot_item\<close> and
  \<open>setting\<close> (\<open>persistence/inventory.rs\<close>, \<open>settings.rs\<close>), and how a scan is recorded (\<open>record_snapshot\<close> of
  \<open>services/inventory/acquisition.rs\<close>). The text of now and the parser of JSON are parameters; a statement fails
  where the fault assignment says so, and inside a transaction a failure rolls back.
\<close>

section \<open>A scan as rows\<close>

record snapshot_item =
  si_slug :: ustr
  si_count :: i64
  si_leveled :: i64

definition i64_max :: i64 where "i64_max = 2 ^ 63 - 1"

definition sat_plus :: "i64 \<Rightarrow> i64 \<Rightarrow> i64" where
  "sat_plus a b = max (- (2 ^ 63)) (min i64_max (a + b))"

definition add_path :: "flat_entry \<Rightarrow> (ustr, i64 \<times> i64) btree \<Rightarrow> (ustr, i64 \<times> i64) btree" where
  "add_path row = bt_upd (fe_path row) (\<lambda>slot.
     let (count, leveled) = unwrap_or slot (0, 0); n = int (fe_count row)
     in (sat_plus count n, if 0 < fe_xp row then sat_plus leveled n else leveled))"

definition extract_items :: "(bytes \<Rightarrow> (string, json) result) \<Rightarrow> bytes \<Rightarrow> (string, snapshot_item list) result" where
  "extract_items parse bs =
     rbind (parse bs) (\<lambda>doc.
     rbind (flatten_inventory doc) (\<lambda>rows.
       Ok (map (\<lambda>(slug, count, leveled). \<lparr> si_slug = slug, si_count = count, si_leveled = leveled \<rparr>)
             (fold add_path rows []))))"

section \<open>The tables\<close>

record snapshot_row =
  sn_id :: i64
  sn_taken_at :: string
  sn_source :: string
  sn_game_version :: "string option"

record snapshot_item_row =
  sr_snapshot_id :: i64
  sr_item :: snapshot_item

record inventory_db =
  iv_snapshots :: "snapshot_row list"
  iv_items :: "snapshot_item_row list"
  iv_settings :: "(string \<times> string) list"

datatype iv_step = IvBegin | IvFind | IvStored | IvTouch | IvHeader | IvRow nat | IvCommit | IvRead

type_synonym iv_faults = "iv_step \<Rightarrow> string option"

definition iv_run :: "iv_faults \<Rightarrow> iv_step \<Rightarrow> (string, unit) result" where
  "iv_run faults st = (case faults st of Some e \<Rightarrow> Err e | None \<Rightarrow> Ok ())"

text \<open>\<open>SELECT MAX(id) FROM snapshot\<close>, and its row.\<close>

definition latest_id :: "inventory_db \<Rightarrow> i64 option" where
  "latest_id db = (case map sn_id (iv_snapshots db) of [] \<Rightarrow> None | ids \<Rightarrow> Some (Max (set ids)))"

definition items_of :: "i64 \<Rightarrow> inventory_db \<Rightarrow> snapshot_item list" where
  "items_of ident db =
     sort_key si_slug (map sr_item (filter (\<lambda>r. sr_snapshot_id r = ident) (iv_items db)))"

definition latest_snapshot_items :: "iv_faults \<Rightarrow> inventory_db \<Rightarrow> (string, snapshot_item list) result" where
  "latest_snapshot_items faults db =
     rbind (iv_run faults IvRead) (\<lambda>_.
       Ok (case latest_id db of None \<Rightarrow> [] | Some ident \<Rightarrow> items_of ident db))"

record snapshot_summary =
  ss_id :: i64
  ss_taken_at :: string
  ss_source :: string
  ss_item_count :: nat

definition list_snapshots :: "iv_faults \<Rightarrow> i64 \<Rightarrow> inventory_db \<Rightarrow> (string, snapshot_summary list) result" where
  "list_snapshots faults bound db =
     rbind (iv_run faults IvRead) (\<lambda>_.
       let rows = map (\<lambda>s. \<lparr> ss_id = sn_id s, ss_taken_at = sn_taken_at s, ss_source = sn_source s,
                     ss_item_count = length (filter (\<lambda>r. sr_snapshot_id r = sn_id s) (iv_items db)) \<rparr>)
                   (rev (sort_key sn_id (iv_snapshots db)))
       in Ok (sql_limit bound rows))"

definition get_setting :: "iv_faults \<Rightarrow> string \<Rightarrow> inventory_db \<Rightarrow> (string, string option) result" where
  "get_setting faults key db = rbind (iv_run faults IvRead) (\<lambda>_. Ok (map_of (iv_settings db) key))"

text \<open>\<open>INSERT \<dots> ON CONFLICT(key) DO UPDATE\<close>.\<close>

fun put_setting :: "string \<Rightarrow> string \<Rightarrow> (string \<times> string) list \<Rightarrow> (string \<times> string) list" where
  "put_setting key v [] = [(key, v)]"
| "put_setting key v ((k, w) # rows) = (if k = key then (k, v) # rows else (k, w) # put_setting key v rows)"

definition set_setting :: "iv_faults \<Rightarrow> string \<Rightarrow> string \<Rightarrow> inventory_db \<Rightarrow> (string, unit) result \<times> inventory_db" where
  "set_setting faults key v db =
     (case iv_run faults IvTouch of
        Err e \<Rightarrow> (Err e, db)
      | Ok _ \<Rightarrow> (Ok (), db\<lparr> iv_settings := put_setting key v (iv_settings db) \<rparr>))"

section \<open>Recording a scan\<close>

definition next_id :: "inventory_db \<Rightarrow> i64" where
  "next_id db = (case latest_id db of None \<Rightarrow> 1 | Some ident \<Rightarrow> ident + 1)"

definition insert_item_row ::
  "iv_faults \<Rightarrow> i64 \<Rightarrow> nat \<times> snapshot_item \<Rightarrow> inventory_db \<Rightarrow> (string, inventory_db) result" where
  "insert_item_row faults ident ni db =
     rbind (iv_run faults (IvRow (fst ni))) (\<lambda>_.
       if list_ex (\<lambda>r. sr_snapshot_id r = ident \<and> si_slug (sr_item r) = si_slug (snd ni)) (iv_items db)
       then Err ''UNIQUE constraint failed: snapshot_item.snapshot_id, snapshot_item.slug''
       else Ok (db\<lparr> iv_items := iv_items db @ [\<lparr> sr_snapshot_id = ident, sr_item = snd ni \<rparr>] \<rparr>))"

definition insert_snapshot_rows ::
  "iv_faults \<Rightarrow> string \<Rightarrow> string \<Rightarrow> string option \<Rightarrow> snapshot_item list \<Rightarrow> inventory_db \<Rightarrow> (string, i64 \<times> inventory_db) result" where
  "insert_snapshot_rows faults now source game_version items db =
     rbind (iv_run faults IvHeader) (\<lambda>_.
       if source \<notin> {''memory'', ''import''} then Err ''CHECK constraint failed: source IN ('memory','import')''
       else let ident = next_id db;
                db = db\<lparr> iv_snapshots := iv_snapshots db @
                  [\<lparr> sn_id = ident, sn_taken_at = now, sn_source = source, sn_game_version = game_version \<rparr>] \<rparr>
            in rbind (fold_ok (insert_item_row faults ident) (enumerate 0 items) db) (\<lambda>db. Ok (ident, db)))"

definition touch_snapshot :: "string \<Rightarrow> string option \<Rightarrow> i64 \<Rightarrow> inventory_db \<Rightarrow> inventory_db" where
  "touch_snapshot now game_version ident db =
     db\<lparr> iv_snapshots := map (\<lambda>s. if sn_id s = ident
            then s\<lparr> sn_taken_at := now, sn_game_version := (case game_version of None \<Rightarrow> sn_game_version s | Some v \<Rightarrow> Some v) \<rparr>
            else s) (iv_snapshots db) \<rparr>"

definition item_facts :: "snapshot_item \<Rightarrow> ustr \<times> i64 \<times> i64" where
  "item_facts it = (si_slug it, si_count it, si_leveled it)"

definition same_as_latest ::
  "iv_faults \<Rightarrow> string \<Rightarrow> snapshot_item list \<Rightarrow> inventory_db \<Rightarrow> (string, i64 option) result" where
  "same_as_latest faults source items db =
     rbind (iv_run faults IvFind) (\<lambda>_.
       case opt_filter (\<lambda>ident. \<exists>s\<in>set (iv_snapshots db). sn_id s = ident \<and> sn_source s = source) (latest_id db) of
         None \<Rightarrow> Ok None
       | Some ident \<Rightarrow>
           rbind (iv_run faults IvStored) (\<lambda>_.
             Ok (if map item_facts (items_of ident db) = sort (map item_facts items) then Some ident else None)))"

definition record_snapshot_body ::
  "iv_faults \<Rightarrow> string \<Rightarrow> string \<Rightarrow> string option \<Rightarrow> snapshot_item list \<Rightarrow> inventory_db \<Rightarrow> (string, i64 \<times> inventory_db) result" where
  "record_snapshot_body faults now source game_version items db =
     rbind (same_as_latest faults source items db) (\<lambda>same.
       case same of
         Some ident \<Rightarrow> rbind (iv_run faults IvTouch) (\<lambda>_. Ok (ident, touch_snapshot now game_version ident db))
       | None \<Rightarrow> insert_snapshot_rows faults now source game_version items db)"

definition record_snapshot ::
  "iv_faults \<Rightarrow> string \<Rightarrow> string \<Rightarrow> string option \<Rightarrow> snapshot_item list \<Rightarrow> inventory_db \<Rightarrow> (string, i64) result \<times> inventory_db" where
  "record_snapshot faults now source game_version items db =
     (case rbind (iv_run faults IvBegin) (\<lambda>_. record_snapshot_body faults now source game_version items db) of
        Err e \<Rightarrow> (Err e, db)
      | Ok (ident, db') \<Rightarrow> (case iv_run faults IvCommit of Err e \<Rightarrow> (Err e, db) | Ok _ \<Rightarrow> (Ok ident, db')))"

definition record_scan ::
  "(bytes \<Rightarrow> (string, json) result) \<Rightarrow> iv_faults \<Rightarrow> string \<Rightarrow> string \<Rightarrow> string option \<Rightarrow> bytes \<Rightarrow> inventory_db
   \<Rightarrow> (string, i64) result \<times> inventory_db" where
  "record_scan parse faults now source game_version bs db =
     (case extract_items parse bs of
        Err e \<Rightarrow> (Err (''parse inventory for snapshot: '' @ e), db)
      | Ok items \<Rightarrow>
          (case record_snapshot faults now source game_version items db of
             (Err e, db) \<Rightarrow> (Err (''insert snapshot: '' @ e), db)
           | (Ok ident, db) \<Rightarrow> (Ok ident, db)))"

section \<open>What a recorded scan leaves\<close>

definition item_keys :: "inventory_db \<Rightarrow> (i64 \<times> ustr) list" where
  "item_keys db = map (\<lambda>r. (sr_snapshot_id r, si_slug (sr_item r))) (iv_items db)"

definition inventory_ok :: "inventory_db \<Rightarrow> bool" where
  "inventory_ok db \<longleftrightarrow>
     distinct (map sn_id (iv_snapshots db))
     \<and> (\<forall>r\<in>set (iv_items db). sr_snapshot_id r \<in> sn_id ` set (iv_snapshots db))
     \<and> distinct (item_keys db)"

definition by_path :: "snapshot_item list \<Rightarrow> bool" where
  "by_path items \<longleftrightarrow> sorted_wrt (<) (map si_slug items)"

lemma fold_add_path_ok: "bt_ok m \<Longrightarrow> bt_ok (fold add_path rows m)"
  by (induction rows arbitrary: m) (simp_all add: add_path_def)

lemma extract_items_by_path: "extract_items parse bs = Ok items \<Longrightarrow> by_path items"
proof -
  assume "extract_items parse bs = Ok items"
  then obtain rows where
    "items = map (\<lambda>(slug, count, leveled). \<lparr> si_slug = slug, si_count = count, si_leveled = leveled \<rparr>) (fold add_path rows [])"
    by (auto simp: extract_items_def rbind_Ok_iff)
  then have "map si_slug items = map fst (fold add_path rows [])" by (simp add: case_prod_beta)
  with fold_add_path_ok [of "[]" rows] show ?thesis by (simp add: by_path_def bt_ok_def)
qed

lemma by_path_sorted: "by_path items \<Longrightarrow> sort_key si_slug items = items"
  by (simp add: by_path_def sort_key_id_if_sorted strict_sorted_imp_sorted)

lemma by_path_distinct: "by_path items \<Longrightarrow> distinct (map si_slug items)"
  by (simp add: by_path_def strict_sorted_iff)

lemma by_path_facts: "by_path items \<Longrightarrow> sort (map item_facts items) = map item_facts items"
proof -
  assume "by_path items"
  then have "sorted_wrt (\<lambda>a b. si_slug a < si_slug b) items" by (simp add: by_path_def sorted_wrt_map)
  then have "sorted_wrt (\<lambda>a b. item_facts a \<le> item_facts b) items"
    by (rule sorted_wrt_mono_rel [rotated]) (simp add: item_facts_def)
  then have "sorted (map item_facts items)" by (simp add: sorted_wrt_map)
  then show ?thesis by (rule sort_key_id_if_sorted [of "\<lambda>x. x", simplified])
qed

lemma item_facts_inj: "map item_facts xs = map item_facts ys \<longleftrightarrow> xs = ys"
  by (rule inj_map_eq_map) (auto simp: inj_on_def item_facts_def)

lemma latest_id_Some: "latest_id db = Some ident \<Longrightarrow> ident \<in> sn_id ` set (iv_snapshots db) \<and> (\<forall>s\<in>set (iv_snapshots db). sn_id s \<le> ident)"
proof -
  assume l: "latest_id db = Some ident"
  then have ne: "iv_snapshots db \<noteq> []" and id: "ident = Max (sn_id ` set (iv_snapshots db))"
    by (auto simp: latest_id_def split: list.splits)
  from ne show ?thesis unfolding id by (intro conjI ballI Max_in Max_ge) auto
qed

lemma next_id_new: "s \<in> set (iv_snapshots db) \<Longrightarrow> sn_id s < next_id db"
proof -
  assume s: "s \<in> set (iv_snapshots db)"
  then obtain ident where l: "latest_id db = Some ident" by (cases "iv_snapshots db") (auto simp: latest_id_def)
  with latest_id_Some [OF l] s show ?thesis by (auto simp: next_id_def)
qed

lemma insert_items:
  "fold_ok (insert_item_row faults ident) (enumerate n items) db = Ok db' \<Longrightarrow>
     db' = db\<lparr> iv_items := iv_items db @ map (\<lambda>it. \<lparr> sr_snapshot_id = ident, sr_item = it \<rparr>) items \<rparr>
     \<and> (distinct (item_keys db) \<longrightarrow> distinct (item_keys db'))"
proof (induction items arbitrary: n db)
  case (Cons it items)
  then obtain db1 where db1: "insert_item_row faults ident (n, it) db = Ok db1"
    and rest: "fold_ok (insert_item_row faults ident) (enumerate (Suc n) items) db1 = Ok db'"
    by (auto simp: rbind_Ok_iff)
  from db1 have new: "\<not> list_ex (\<lambda>r. sr_snapshot_id r = ident \<and> si_slug (sr_item r) = si_slug it) (iv_items db)"
    and db1': "db1 = db\<lparr> iv_items := iv_items db @ [\<lparr> sr_snapshot_id = ident, sr_item = it \<rparr>] \<rparr>"
    by (auto simp: insert_item_row_def rbind_Ok_iff split: if_splits)
  from new have "(ident, si_slug it) \<notin> set (item_keys db)" by (auto simp: list_ex_iff item_keys_def)
  moreover have "item_keys db1 = item_keys db @ [(ident, si_slug it)]" by (simp add: db1' item_keys_def)
  ultimately have "distinct (item_keys db) \<longrightarrow> distinct (item_keys db1)" by simp
  then have "distinct (item_keys db) \<longrightarrow> distinct (item_keys db')" using Cons.IH [OF rest] by blast
  moreover have "db' = db\<lparr> iv_items := iv_items db @ map (\<lambda>it. \<lparr> sr_snapshot_id = ident, sr_item = it \<rparr>) (it # items) \<rparr>"
    using conjunct1 [OF Cons.IH [OF rest]] by (simp add: db1')
  ultimately show ?case by blast
qed simp


lemma next_id_fresh: "inventory_ok db \<Longrightarrow> r \<in> set (iv_items db) \<Longrightarrow> sr_snapshot_id r < next_id db"
  using next_id_new by (fastforce simp: inventory_ok_def)

lemma next_id_not_old: "next_id db \<notin> sn_id ` set (iv_snapshots db)"
  using next_id_new by fastforce

text \<open>A new snapshot: everything before it is as it was.\<close>

lemma inserted_snapshot:
  assumes ok: "inventory_ok db" and path: "by_path items"
    and ins: "insert_snapshot_rows faults now source ver items db = Ok (ident, db')"
  shows "inventory_ok db' \<and> latest_id db' = Some ident \<and> items_of ident db' = items
     \<and> (\<forall>j. j \<noteq> ident \<longrightarrow> items_of j db' = items_of j db) \<and> iv_settings db' = iv_settings db"
proof -
  let ?row = "\<lparr> sn_id = ident, sn_taken_at = now, sn_source = source, sn_game_version = ver \<rparr>"
  let ?db = "db\<lparr> iv_snapshots := iv_snapshots db @ [?row] \<rparr>"
  have ident: "ident = next_id db" and rows: "fold_ok (insert_item_row faults ident) (enumerate 0 items) ?db = Ok db'"
    using ins by (auto simp: insert_snapshot_rows_def Let_def rbind_Ok_iff split: if_splits)
  note I = insert_items [OF rows]
  have db': "db' = ?db\<lparr> iv_items := iv_items db @ map (\<lambda>it. \<lparr> sr_snapshot_id = ident, sr_item = it \<rparr>) items \<rparr>"
    using I by simp
  have fresh: "sr_snapshot_id r < ident" if "r \<in> set (iv_items db)" for r using next_id_fresh [OF ok that] by (simp add: ident)
  have older: "sn_id s < ident" if "s \<in> set (iv_snapshots db)" for s using next_id_new [OF that] by (simp add: ident)
  have "item_keys ?db = item_keys db" by (simp add: item_keys_def)
  then have "distinct (item_keys db')" using conjunct2 [OF I] ok unfolding inventory_ok_def by argo
  moreover have "distinct (map sn_id (iv_snapshots db'))" using ok next_id_not_old [of db] by (simp add: inventory_ok_def db' ident)
  ultimately have "inventory_ok db'"
    using ok unfolding inventory_ok_def by (auto simp: db')
  moreover have "latest_id db' = Some ident"
  proof -
    have "Max (set (map sn_id (iv_snapshots db'))) = ident"
      using older by (intro Max_eqI) (auto simp: db' intro: less_imp_le)
    then show ?thesis by (cases "map sn_id (iv_snapshots db')") (simp_all add: latest_id_def, simp add: db')
  qed
  moreover have "items_of ident db' = items"
  proof -
    have "filter (\<lambda>r. sr_snapshot_id r = ident) (iv_items db) = []" using fresh by (auto simp: filter_empty_conv)
    then show ?thesis by (simp add: items_of_def db' by_path_sorted [OF path] comp_def filter_map)
  qed
  moreover have "items_of j db' = items_of j db" if "j \<noteq> ident" for j
    using that by (auto simp: items_of_def db' filter_map comp_def)
  ultimately show ?thesis by (simp add: db')
qed

lemma touched_snapshot:
  "inventory_ok (touch_snapshot now ver ident db) = inventory_ok db"
  "latest_id (touch_snapshot now ver ident db) = latest_id db"
  "items_of j (touch_snapshot now ver ident db) = items_of j db"
  "iv_settings (touch_snapshot now ver ident db) = iv_settings db"
proof -
  let ?db = "touch_snapshot now ver ident db"
  have ids: "map sn_id (iv_snapshots ?db) = map sn_id (iv_snapshots db)" by (simp add: touch_snapshot_def)
  show "latest_id ?db = latest_id db" by (simp only: latest_id_def ids)
  have "sn_id ` set (iv_snapshots ?db) = sn_id ` set (iv_snapshots db)" using arg_cong [OF ids, of set] by simp
  then show "inventory_ok ?db = inventory_ok db"
    unfolding inventory_ok_def ids by (simp add: touch_snapshot_def item_keys_def)
qed (simp_all add: touch_snapshot_def items_of_def)

lemma recorded_snapshot:
  assumes ok: "inventory_ok db" and path: "by_path items"
    and body: "record_snapshot_body faults now source ver items db = Ok (ident, db')"
  shows "inventory_ok db' \<and> latest_id db' = Some ident \<and> items_of ident db' = items
     \<and> (\<forall>j. j \<noteq> ident \<longrightarrow> items_of j db' = items_of j db) \<and> iv_settings db' = iv_settings db"
proof -
  obtain same where same: "same_as_latest faults source items db = Ok same"
    and rest: "(case same of Some ident \<Rightarrow> rbind (iv_run faults IvTouch) (\<lambda>_. Ok (ident, touch_snapshot now ver ident db))
       | None \<Rightarrow> insert_snapshot_rows faults now source ver items db) = Ok (ident, db')"
    using body by (auto simp: record_snapshot_body_def rbind_Ok_iff)
  show ?thesis
  proof (cases same)
    case None
    with rest inserted_snapshot [OF ok path] show ?thesis by simp
  next
    case (Some k)
    with rest have k: "k = ident" "db' = touch_snapshot now ver ident db" by (auto simp: rbind_Ok_iff)
    with same Some have "latest_id db = Some ident" "map item_facts (items_of ident db) = sort (map item_facts items)"
      by (auto simp: same_as_latest_def rbind_Ok_iff split: option.splits if_splits)
    with ok k by_path_facts [OF path] show ?thesis by (simp add: touched_snapshot item_facts_inj)
  qed
qed


lemma recorded_source:
  assumes "record_snapshot_body faults now source ver items db = Ok (ident, db')"
  shows "\<exists>s\<in>set (iv_snapshots db'). sn_id s = ident \<and> sn_source s = source"
proof -
  obtain same where same: "same_as_latest faults source items db = Ok same"
    and rest: "(case same of Some ident \<Rightarrow> rbind (iv_run faults IvTouch) (\<lambda>_. Ok (ident, touch_snapshot now ver ident db))
       | None \<Rightarrow> insert_snapshot_rows faults now source ver items db) = Ok (ident, db')"
    using assms by (auto simp: record_snapshot_body_def rbind_Ok_iff)
  show ?thesis
  proof (cases same)
    case None
    with rest have ident: "ident = next_id db"
      and rows: "fold_ok (insert_item_row faults ident) (enumerate 0 items) (db\<lparr> iv_snapshots := iv_snapshots db @
        [\<lparr> sn_id = ident, sn_taken_at = now, sn_source = source, sn_game_version = ver \<rparr>] \<rparr>) = Ok db'"
      by (auto simp: insert_snapshot_rows_def Let_def rbind_Ok_iff split: if_splits)
    show ?thesis by (simp add: conjunct1 [OF insert_items [OF rows]])
  next
    case (Some k)
    with rest have k: "k = ident" "db' = touch_snapshot now ver ident db" by (auto simp: rbind_Ok_iff)
    with same Some obtain s where s: "s \<in> set (iv_snapshots db)" "sn_id s = ident" "sn_source s = source"
      by (auto simp: same_as_latest_def rbind_Ok_iff split: option.splits if_splits)
    then have "\<exists>s'\<in>set (iv_snapshots (touch_snapshot now ver ident db)). sn_id s' = ident \<and> sn_source s' = source"
      unfolding touch_snapshot_def by (intro bexI [of _ "s\<lparr> sn_taken_at := now, sn_game_version := _ \<rparr>"]) (auto intro!: image_eqI [of _ _ s])
    with k show ?thesis by simp
  qed
qed

lemma record_snapshot_cases:
  assumes "record_snapshot faults now source ver items db = (res, db')"
  shows "case res of Err _ \<Rightarrow> db' = db | Ok ident \<Rightarrow> record_snapshot_body faults now source ver items db = Ok (ident, db')"
  using assms by (auto simp: record_snapshot_def rbind_def split: sum.splits prod.splits)

text \<open>The row of a snapshot, and the rows of all others.\<close>

definition header_is :: "i64 \<Rightarrow> inventory_db \<Rightarrow> snapshot_row \<Rightarrow> bool" where
  "header_is ident db s \<longleftrightarrow> filter (\<lambda>s. sn_id s = ident) (iv_snapshots db) = [s]"

definition other_headers :: "i64 \<Rightarrow> inventory_db \<Rightarrow> snapshot_row list" where
  "other_headers ident db = filter (\<lambda>s. sn_id s \<noteq> ident) (iv_snapshots db)"

lemma touched_headers:
  "other_headers ident (touch_snapshot now ver ident db) = other_headers ident db"
  "header_is ident db s \<Longrightarrow> header_is ident (touch_snapshot now ver ident db)
     (s\<lparr> sn_taken_at := now, sn_game_version := (case ver of None \<Rightarrow> sn_game_version s | Some v \<Rightarrow> Some v) \<rparr>)"
proof -
  let ?f = "\<lambda>s. if sn_id s = ident
      then s\<lparr> sn_taken_at := now, sn_game_version := (case ver of None \<Rightarrow> sn_game_version s | Some v \<Rightarrow> Some v) \<rparr> else s"
  have "filter (\<lambda>s. sn_id s \<noteq> ident) (map ?f ss) = filter (\<lambda>s. sn_id s \<noteq> ident) ss" for ss by (induction ss) auto
  then show "other_headers ident (touch_snapshot now ver ident db) = other_headers ident db"
    by (simp add: other_headers_def touch_snapshot_def)
  have same: "filter (\<lambda>s. sn_id s = ident) (map ?f ss) = map ?f (filter (\<lambda>s. sn_id s = ident) ss)" for ss by (induction ss) auto
  show "header_is ident (touch_snapshot now ver ident db)
      (s\<lparr> sn_taken_at := now, sn_game_version := (case ver of None \<Rightarrow> sn_game_version s | Some v \<Rightarrow> Some v) \<rparr>)"
    if "header_is ident db s"
  proof -
    have own: "filter (\<lambda>s. sn_id s = ident) (iv_snapshots db) = [s]" using that by (simp add: header_is_def)
    then have "s \<in> set (filter (\<lambda>s. sn_id s = ident) (iv_snapshots db))" by simp
    then have "sn_id s = ident" by simp
    then show ?thesis unfolding header_is_def touch_snapshot_def by (simp add: same own del: filter_map)
  qed
qed

lemma filter_distinct_key: "distinct (map f xs) \<Longrightarrow> x \<in> set xs \<Longrightarrow> filter (\<lambda>y. f y = f x) xs = [x]"
  by (induction xs) (auto simp: filter_empty_conv image_iff)

lemma recorded_headers:
  assumes ok: "inventory_ok db" and body: "record_snapshot_body faults now source ver items db = Ok (ident, db')"
  shows "other_headers ident db' = other_headers ident db
    \<and> (\<exists>s. header_is ident db' s \<and> sn_taken_at s = now \<and> sn_source s = source \<and> (ver \<noteq> None \<longrightarrow> sn_game_version s = ver))"
proof -
  obtain same where same: "same_as_latest faults source items db = Ok same"
    and rest: "(case same of Some ident \<Rightarrow> rbind (iv_run faults IvTouch) (\<lambda>_. Ok (ident, touch_snapshot now ver ident db))
       | None \<Rightarrow> insert_snapshot_rows faults now source ver items db) = Ok (ident, db')"
    using body by (auto simp: record_snapshot_body_def rbind_Ok_iff)
  show ?thesis
  proof (cases same)
    case None
    with rest have ident: "ident = next_id db"
      and rows: "fold_ok (insert_item_row faults ident) (enumerate 0 items) (db\<lparr> iv_snapshots := iv_snapshots db @
        [\<lparr> sn_id = ident, sn_taken_at = now, sn_source = source, sn_game_version = ver \<rparr>] \<rparr>) = Ok db'"
      by (auto simp: insert_snapshot_rows_def Let_def rbind_Ok_iff split: if_splits)
    have "sn_id s \<noteq> ident" if "s \<in> set (iv_snapshots db)" for s using next_id_new [OF that] by (simp add: ident)
    then show ?thesis
      by (simp add: conjunct1 [OF insert_items [OF rows]] other_headers_def header_is_def filter_empty_conv)
  next
    case (Some k)
    with rest have k: "k = ident" "db' = touch_snapshot now ver ident db" by (auto simp: rbind_Ok_iff)
    with same Some obtain s where s: "s \<in> set (iv_snapshots db)" "sn_id s = ident" "sn_source s = source"
      by (auto simp: same_as_latest_def rbind_Ok_iff split: option.splits if_splits)
    have "header_is ident db s"
      using filter_distinct_key [of sn_id "iv_snapshots db" s] ok s by (simp add: inventory_ok_def header_is_def)
    from touched_headers(2) [OF this, of now ver] show ?thesis
      unfolding k using s(3) touched_headers(1) by (intro conjI exI) (assumption | auto split: option.splits)+
  qed
qed

lemma repeated_snapshot:
  assumes "latest_id db = Some ident" and "\<exists>s\<in>set (iv_snapshots db). sn_id s = ident \<and> sn_source s = source"
    and "items_of ident db = items" and "by_path items"
  shows "record_snapshot (\<lambda>_. None) now source ver items db = (Ok ident, touch_snapshot now ver ident db)"
  using assms by_path_facts [OF assms(4)]
  by (simp add: record_snapshot_def record_snapshot_body_def same_as_latest_def iv_run_def)

text \<open>C31: A scan is recorded whole or not at all: on an error nothing changes; otherwise the latest snapshot is of this
  scan (its time, source and game version) and reads back as exactly its rows, in path order; every other snapshot, its row
  and its items, and every setting is as it was, and the tables keep their keys. Recording the same inventory again returns
  the same snapshot, writes no row and only brings that snapshot's own time and version up to date.\<close>

theorem recorded_scan_reads_back:
  assumes ok: "inventory_ok db" and rec: "record_scan parse faults now source ver bs db = (res, db')"
  shows "inventory_ok db'
     \<and> (case res of
          Err _ \<Rightarrow> db' = db
        | Ok ident \<Rightarrow> \<exists>items. extract_items parse bs = Ok items \<and> latest_id db' = Some ident
            \<and> latest_snapshot_items (\<lambda>_. None) db' = Ok items
            \<and> (\<forall>j. j \<noteq> ident \<longrightarrow> items_of j db' = items_of j db) \<and> iv_settings db' = iv_settings db
            \<and> other_headers ident db' = other_headers ident db
            \<and> (\<exists>s db''. header_is ident db' s \<and> sn_taken_at s = now \<and> sn_source s = source
                 \<and> (ver \<noteq> None \<longrightarrow> sn_game_version s = ver)
                 \<and> record_scan parse (\<lambda>_. None) later source ver' bs db' = (Ok ident, db'')
                 \<and> iv_items db'' = iv_items db' \<and> iv_settings db'' = iv_settings db'
                 \<and> other_headers ident db'' = other_headers ident db'
                 \<and> header_is ident db'' (s\<lparr> sn_taken_at := later,
                      sn_game_version := (case ver' of None \<Rightarrow> sn_game_version s | Some v \<Rightarrow> Some v) \<rparr>)))"
proof (cases "extract_items parse bs")
  case (Inl e)
  with rec ok show ?thesis by (auto simp: record_scan_def)
next
  case (Inr items)
  note path = extract_items_by_path [OF Inr]
  obtain r where r: "record_snapshot faults now source ver items db = (r, db')"
    and res: "res = (case r of Err e \<Rightarrow> Err (''insert snapshot: '' @ e) | Ok ident \<Rightarrow> Ok ident)"
    using rec Inr by (auto simp: record_scan_def split: prod.splits sum.splits)
  note R = record_snapshot_cases [OF r]
  show ?thesis
  proof (cases r)
    case (Inl e)
    with R res ok show ?thesis by simp
  next
    case r_ok: (Inr ident)
    with R have body: "record_snapshot_body faults now source ver items db = Ok (ident, db')" by simp
    note S = recorded_snapshot [OF ok path body]
    have again: "record_snapshot (\<lambda>_. None) later source ver' items db' = (Ok ident, touch_snapshot later ver' ident db')"
      using S path recorded_source [OF body] by (intro repeated_snapshot) blast+
    obtain s where s: "header_is ident db' s" "sn_taken_at s = now" "sn_source s = source" "ver \<noteq> None \<longrightarrow> sn_game_version s = ver"
      and others: "other_headers ident db' = other_headers ident db"
      using recorded_headers [OF ok body] by blast
    have scan: "record_scan parse (\<lambda>_. None) later source ver' bs db' = (Ok ident, touch_snapshot later ver' ident db')"
      using Inr again by (simp add: record_scan_def)
    have "iv_items (touch_snapshot later ver' ident db') = iv_items db'" by (simp add: touch_snapshot_def)
    with s others scan touched_headers(2) [OF s(1), of later ver'] S Inr show ?thesis
      by (simp add: res r_ok latest_snapshot_items_def iv_run_def)
        (intro exI [of _ s] exI [of _ "touch_snapshot later ver' ident db'"], simp add: touched_headers(1) touched_snapshot)
  qed
qed

definition empty_inventory :: inventory_db where
  "empty_inventory = \<lparr> iv_snapshots = [], iv_items = [], iv_settings = [] \<rparr>"

definition demo_items :: "snapshot_item list" where
  "demo_items = [\<lparr> si_slug = tx ''/'', si_count = 1, si_leveled = 0 \<rparr>, \<lparr> si_slug = tx ''/A'', si_count = 3, si_leveled = 1 \<rparr>]"

lemma demo_extract: "extract_items (\<lambda>_. Ok (iq_inventory demo_request)) [] = Ok demo_items"
  by (simp add: extract_items_def demo_flat add_path_def tx_def sat_plus_def i64_max_def demo_items_def)

definition demo_recorded :: inventory_db where
  "demo_recorded = \<lparr> iv_snapshots = [\<lparr> sn_id = 1, sn_taken_at = ''t'', sn_source = ''memory'', sn_game_version = None \<rparr>],
     iv_items = map (\<lambda>it. \<lparr> sr_snapshot_id = 1, sr_item = it \<rparr>) demo_items, iv_settings = [] \<rparr>"

lemma demo_record:
  "record_scan (\<lambda>_. Ok (iq_inventory demo_request)) (\<lambda>_. None) ''t'' ''memory'' None [] empty_inventory = (Ok 1, demo_recorded)"
  by (simp add: record_scan_def demo_extract record_snapshot_def record_snapshot_body_def same_as_latest_def empty_inventory_def
      latest_id_def insert_snapshot_rows_def next_id_def demo_items_def insert_item_row_def iv_run_def demo_recorded_def tx_def)

theorem recorded_scan_reads_back_witness:
  "inventory_ok empty_inventory
     \<and> record_scan (\<lambda>_. Ok (iq_inventory demo_request)) (\<lambda>_. None) ''t'' ''memory'' None [] empty_inventory = (Ok 1, demo_recorded)
     \<and> latest_snapshot_items (\<lambda>_. None) demo_recorded = Ok demo_items
     \<and> record_scan (\<lambda>_. Ok (iq_inventory demo_request)) (\<lambda>_. None) ''u'' ''memory'' None [] demo_recorded
         = (Ok 1, demo_recorded\<lparr> iv_snapshots :=
              [\<lparr> sn_id = 1, sn_taken_at = ''u'', sn_source = ''memory'', sn_game_version = None \<rparr>] \<rparr>)"
proof -
  have ok: "inventory_ok empty_inventory" by (simp add: inventory_ok_def empty_inventory_def item_keys_def)
  have one: "header_is 1 demo_recorded s \<longleftrightarrow> s = hd (iv_snapshots demo_recorded)" for s
    by (auto simp: header_is_def demo_recorded_def)
  from recorded_scan_reads_back [OF ok demo_record, of "''u''" None] obtain db'' where
      again: "record_scan (\<lambda>_. Ok (iq_inventory demo_request)) (\<lambda>_. None) ''u'' ''memory'' None [] demo_recorded = (Ok 1, db'')"
      "iv_items db'' = iv_items demo_recorded" "iv_settings db'' = iv_settings demo_recorded"
      "other_headers 1 db'' = other_headers 1 demo_recorded"
      "header_is 1 db'' ((hd (iv_snapshots demo_recorded))\<lparr> sn_taken_at := ''u'' \<rparr>)"
    and "latest_snapshot_items (\<lambda>_. None) demo_recorded = Ok demo_items"
    using demo_extract by (auto simp: one)
  moreover have "iv_snapshots db'' = [\<lparr> sn_id = 1, sn_taken_at = ''u'', sn_source = ''memory'', sn_game_version = None \<rparr>]"
    using again(4,5) filter_True [of "iv_snapshots db''" "\<lambda>s. sn_id s = 1"]
    by (auto simp: other_headers_def header_is_def demo_recorded_def filter_empty_conv)
  ultimately have "db'' = demo_recorded\<lparr> iv_snapshots := [\<lparr> sn_id = 1, sn_taken_at = ''u'', sn_source = ''memory'', sn_game_version = None \<rparr>] \<rparr>"
    by (cases db'') (simp add: demo_recorded_def)
  with again(1) ok demo_record \<open>latest_snapshot_items _ _ = _\<close> show ?thesis by simp
qed

end
