(* ===== verification/Listing_Outcomes.thy ===== *)
theory Listing_Outcomes
  imports Auto_Close Plan Inventory
begin

text \<open>
  How the listings made through the app did (\<open>services/trading/outcomes.rs\<close>, \<open>persistence/outcomes.rs\<close>): a finished
  batch's sell listings are recorded, and the summary allocates the ledger's sales to them. The floating-point parts of
  the summary use the operations of \<open>f64\<close> as a parameter; the name resolver is a parameter too.
\<close>

section \<open>The record\<close>

definition OUTCOMES_KEY :: string where "OUTCOMES_KEY = ''listing-outcomes''"
definition WINDOW_DAYS :: u32 where "WINDOW_DAYS = 30"
definition DAY :: i64 where "DAY = 86400"
definition RETENTION_SECS :: i64 where "RETENTION_SECS = 180 * 86400"

datatype listing_origin = FromSession | FromManual

record listed_item =
  lt_plan_id :: string
  lt_plan_index :: i64
  lt_slug :: string
  lt_rank :: "i64 option"
  lt_subtype :: "string option"
  lt_platinum :: i64
  lt_quantity :: i64
  lt_origin :: listing_origin
  lt_listed_at :: i64
  lt_order_id :: "string option"

definition outcomes_enabled :: "iv_faults \<Rightarrow> inventory_db \<Rightarrow> bool" where
  "outcomes_enabled faults db =
     (case get_setting faults OUTCOMES_KEY db of Ok (Some v) \<Rightarrow> v \<noteq> ''off'' | _ \<Rightarrow> True)"

definition listed_of :: "string \<Rightarrow> i64 \<Rightarrow> nat \<Rightarrow> plan_item \<Rightarrow> item_result \<Rightarrow> listed_item" where
  "listed_of plan_id now index item result =
     \<lparr> lt_plan_id = plan_id, lt_plan_index = (if index < 2 ^ 63 then int index else i64_max), lt_slug = it_slug item,
       lt_rank = map_option uint (it_rank item), lt_subtype = it_subtype item, lt_platinum = uint (it_platinum item),
       lt_quantity = uint (it_quantity item),
       lt_origin = (if it_session item \<noteq> None then FromSession else FromManual), lt_listed_at = now,
       lt_order_id = ir_order_id result \<rparr>"

definition listed_items :: "string \<Rightarrow> plan_item list \<Rightarrow> item_result list \<Rightarrow> i64 \<Rightarrow> listed_item list" where
  "listed_items plan_id items results now =
     (if plan_id = '''' \<or> length items \<noteq> length results \<or> list_ex (\<lambda>(item, result). it_slug item \<noteq> ir_slug result) (zip items results)
      then []
      else map (\<lambda>(index, item, result). listed_of plan_id now index item result)
             (filter (\<lambda>(_, item, result). it_order_type item = ''sell'' \<and> ir_status result = STATUS_OK)
               (enumerate 0 (zip items results))))"

text \<open>The table \<open>listing_outcome\<close>: unique on the plan and the index in it.\<close>

record outcome_row =
  oc_id :: i64
  oc_item :: listed_item

datatype oc_step = OcBegin | OcPrune | OcInsert nat | OcCommit | OcRead | OcClear

definition oc_run :: "(oc_step \<Rightarrow> string option) \<Rightarrow> oc_step \<Rightarrow> (string, unit) result" where
  "oc_run faults st = (case faults st of Some e \<Rightarrow> Err e | None \<Rightarrow> Ok ())"

definition plan_key :: "listed_item \<Rightarrow> string \<times> i64" where
  "plan_key it = (lt_plan_id it, lt_plan_index it)"

definition insert_or_ignore :: "listed_item \<Rightarrow> outcome_row list \<Rightarrow> outcome_row list" where
  "insert_or_ignore it rows =
     (if list_ex (\<lambda>r. plan_key (oc_item r) = plan_key it) rows then rows
      else rows @ [\<lparr> oc_id = (if rows = [] then 1 else Max (oc_id ` set rows) + 1), oc_item = it \<rparr>])"

definition record_listings ::
  "(oc_step \<Rightarrow> string option) \<Rightarrow> listed_item list \<Rightarrow> i64 \<Rightarrow> outcome_row list \<Rightarrow> (string, unit) result \<times> outcome_row list" where
  "record_listings faults items now rows =
     (case rbind (oc_run faults OcBegin) (\<lambda>_.
           rbind (oc_run faults OcPrune) (\<lambda>_.
           rbind (fold_ok (\<lambda>(n, it) rows. rbind (oc_run faults (OcInsert n)) (\<lambda>_. Ok (insert_or_ignore it rows))) (enumerate 0 items)
                    (filter (\<lambda>r. sat_plus now (- RETENTION_SECS) \<le> lt_listed_at (oc_item r)) rows)) (\<lambda>rows.
           rbind (oc_run faults OcCommit) (\<lambda>_. Ok rows)))) of
        Err e \<Rightarrow> (Err e, rows)
      | Ok rows' \<Rightarrow> (Ok (), rows'))"

definition listings_since :: "(oc_step \<Rightarrow> string option) \<Rightarrow> i64 \<Rightarrow> outcome_row list \<Rightarrow> (string, listed_item list) result" where
  "listings_since faults since rows =
     rbind (oc_run faults OcRead) (\<lambda>_.
       Ok (map oc_item (sort_key (\<lambda>r. (lt_listed_at (oc_item r), oc_id r)) (filter (\<lambda>r. since \<le> lt_listed_at (oc_item r)) rows))))"

definition clear_listings :: "(oc_step \<Rightarrow> string option) \<Rightarrow> outcome_row list \<Rightarrow> (string, unit) result \<times> outcome_row list" where
  "clear_listings faults rows = (case oc_run faults OcClear of Err e \<Rightarrow> (Err e, rows) | Ok _ \<Rightarrow> (Ok (), []))"

definition sales_since :: "faults \<Rightarrow> i64 \<Rightarrow> ledger \<Rightarrow> (string, trade_row list) result" where
  "sales_since faults since db =
     rbind (run_step faults Query) (\<lambda>_.
       Ok (sort_key (\<lambda>t. (tr_at t, tr_id t)) (filter (\<lambda>t. tr_kind t = tx ''sale'' \<and> since \<le> tr_at t) (lg_trades db))))"

text \<open>Best effort: an error is printed and the rows stay.\<close>

definition record_outcomes ::
  "iv_faults \<Rightarrow> (oc_step \<Rightarrow> string option) \<Rightarrow> inventory_db \<Rightarrow> string \<Rightarrow> plan_item list \<Rightarrow> item_result list \<Rightarrow> i64
   \<Rightarrow> outcome_row list \<Rightarrow> outcome_row list" where
  "record_outcomes ivf faults db plan_id items results now rows =
     (let listed = listed_items plan_id items results now
      in if \<not> outcomes_enabled ivf db \<or> listed = [] then rows else snd (record_listings faults listed now rows))"

definition set_outcomes_enabled ::
  "iv_faults \<Rightarrow> (oc_step \<Rightarrow> string option) \<Rightarrow> bool \<Rightarrow> inventory_db \<times> outcome_row list
   \<Rightarrow> (string, unit) result \<times> inventory_db \<times> outcome_row list" where
  "set_outcomes_enabled ivf faults on s =
     (case set_setting ivf OUTCOMES_KEY (if on then ''on'' else ''off'') (fst s) of
        (Err e, db) \<Rightarrow> (Err e, db, snd s)
      | (Ok _, db) \<Rightarrow>
          if on then (Ok (), db, snd s)
          else let (res, rows) = clear_listings faults (snd s) in (res, db, rows))"

section \<open>The summary\<close>

record 'f float_ops =
  fo_of :: "i64 \<Rightarrow> 'f"
  fo_add :: "'f \<Rightarrow> 'f \<Rightarrow> 'f"
  fo_mul :: "'f \<Rightarrow> 'f \<Rightarrow> 'f"
  fo_div :: "'f \<Rightarrow> 'f \<Rightarrow> 'f"
  fo_positive :: "'f \<Rightarrow> bool"
  fo_sort :: "'f list \<Rightarrow> 'f list"

record 'f sale_order =
  so_first :: listed_item
  so_offered :: i64
  so_remaining :: i64
  so_platinum :: i64
  so_sold :: i64
  so_first_sale_at :: "i64 option"
  so_priced :: i64
  so_realised_value :: 'f
  so_listed_value :: 'f

datatype summary_step = Listed nat listed_item | Sold trade_row

fun step_key :: "summary_step \<Rightarrow> i64 \<times> nat" where
  "step_key (Listed _ row) = (lt_listed_at row, 0)"
| "step_key (Sold trade) = (tr_at trade, 1)"

definition show_index :: "i64 \<Rightarrow> string" where
  "show_index i = (if i < 0 then ''-'' @ show_nat (nat (- i)) else show_nat (nat i))"

definition outcome_key :: "listed_item \<Rightarrow> string" where
  "outcome_key row = unwrap_or (lt_order_id row) (lt_plan_id row @ ''#'' @ show_index (lt_plan_index row))"

definition new_order :: "'f float_ops \<Rightarrow> listed_item \<Rightarrow> 'f sale_order" where
  "new_order fo row =
     \<lparr> so_first = row, so_offered = 0, so_remaining = 0, so_platinum = lt_platinum row, so_sold = 0, so_first_sale_at = None,
       so_priced = 0, so_realised_value = fo_of fo 0, so_listed_value = fo_of fo 0 \<rparr>"

record 'f gathering =
  ga_orders :: "'f sale_order list"
  ga_order_of :: "(string, nat) btree"
  ga_by_slug :: "(string, nat list) btree"
  ga_steps :: "summary_step list"

definition gather_row :: "'f float_ops \<Rightarrow> listed_item \<Rightarrow> 'f gathering \<Rightarrow> 'f gathering" where
  "gather_row fo row g =
     (case map_of (ga_order_of g) (outcome_key row) of
        Some index \<Rightarrow> g\<lparr> ga_steps := ga_steps g @ [Listed index row] \<rparr>
      | None \<Rightarrow>
          let index = length (ga_orders g)
          in g\<lparr> ga_orders := ga_orders g @ [new_order fo row],
                ga_order_of := bt_insert (outcome_key row) index (ga_order_of g),
                ga_by_slug := bt_upd (lt_slug row) (\<lambda>v. unwrap_or v [] @ [index]) (ga_by_slug g),
                ga_steps := ga_steps g @ [Listed index row] \<rparr>)"

definition gather :: "'f float_ops \<Rightarrow> listed_item list \<Rightarrow> 'f gathering" where
  "gather fo listings =
     fold (gather_row fo) listings \<lparr> ga_orders = [], ga_order_of = [], ga_by_slug = [], ga_steps = [] \<rparr>"

definition listed_again :: "listed_item \<Rightarrow> 'f sale_order \<Rightarrow> 'f sale_order" where
  "listed_again row ord =
     (let quantity = max (lt_quantity row) 0
      in ord\<lparr> so_offered := i64_wrap (so_sold ord + quantity), so_remaining := quantity, so_platinum := lt_platinum row \<rparr>)"

definition given_items :: "trade_row \<Rightarrow> trade_item list" where
  "given_items sale = filter (\<lambda>i. ti_direction i = tx ''given'' \<and> 0 < ti_qty i) (tr_items sale)"

definition one_kind :: "trade_row \<Rightarrow> bool" where
  "one_kind sale \<longleftrightarrow>
     is_some_and (first_of (given_items sale)) (\<lambda>f.
       list_all (\<lambda>i. ti_direction i = tx ''given'') (tr_items sale)
       \<and> list_all (\<lambda>i. lower_ascii (trim (ti_name i)) = lower_ascii (trim (ti_name f))) (given_items sale))"

definition unit_price :: "'f float_ops \<Rightarrow> trade_row \<Rightarrow> 'f option" where
  "unit_price fo sale =
     (let total = i64_wrap (sum_list (map ti_qty (given_items sale)))
      in if one_kind sale \<and> 0 < total \<and> 0 < tr_plat sale then Some (fo_div fo (fo_of fo (tr_plat sale)) (fo_of fo total)) else None)"

definition sell_from :: "'f float_ops \<Rightarrow> i64 \<Rightarrow> 'f option \<Rightarrow> i64 \<Rightarrow> 'f sale_order \<Rightarrow> 'f sale_order" where
  "sell_from fo sold_at unit taken ord =
     (let ord = ord\<lparr> so_remaining := so_remaining ord - taken, so_sold := i64_wrap (so_sold ord + taken),
                     so_first_sale_at := Some (unwrap_or (so_first_sale_at ord) sold_at) \<rparr>
      in case unit of
           None \<Rightarrow> ord
         | Some u \<Rightarrow> ord\<lparr> so_priced := i64_wrap (so_priced ord + taken),
             so_realised_value := fo_add fo (so_realised_value ord) (fo_mul fo u (fo_of fo taken)),
             so_listed_value := fo_add fo (so_listed_value ord) (fo_mul fo (fo_of fo (so_platinum ord)) (fo_of fo taken)) \<rparr>)"

text \<open>One candidate; once nothing is left the rest are passed over, as the loop's \<open>break\<close> does.\<close>

definition try_order :: "'f float_ops \<Rightarrow> i64 \<Rightarrow> 'f option \<Rightarrow> nat \<Rightarrow> i64 \<times> 'f sale_order list \<Rightarrow> i64 \<times> 'f sale_order list" where
  "try_order fo sold_at unit index acc =
     (case acc of (left, orders) \<Rightarrow>
        if left = 0 then acc
        else case get_nth orders index of
          None \<Rightarrow> acc
        | Some ord \<Rightarrow>
            if so_remaining ord = 0 then acc
            else let taken = min left (so_remaining ord) in (left - taken, orders[index := sell_from fo sold_at unit taken ord]))"

definition sell_item ::
  "'f float_ops \<Rightarrow> (ustr \<Rightarrow> string option) \<Rightarrow> (string, nat list) btree \<Rightarrow> trade_row \<Rightarrow> trade_item
   \<Rightarrow> 'f sale_order list \<Rightarrow> 'f sale_order list" where
  "sell_item fo resolve by_slug sale item orders =
     (case Option.bind (resolve (fst (split_rank (ti_name item)))) (map_of by_slug) of
        None \<Rightarrow> orders
      | Some candidates \<Rightarrow> snd (fold (try_order fo (tr_at sale) (unit_price fo sale)) candidates (ti_qty item, orders)))"

fun summary_step_of ::
  "'f float_ops \<Rightarrow> (ustr \<Rightarrow> string option) \<Rightarrow> (string, nat list) btree \<Rightarrow> summary_step
   \<Rightarrow> 'f sale_order list \<Rightarrow> 'f sale_order list" where
  "summary_step_of fo resolve by_slug (Listed index row) orders =
     (case get_nth orders index of None \<Rightarrow> orders | Some ord \<Rightarrow> orders[index := listed_again row ord])"
| "summary_step_of fo resolve by_slug (Sold sale) orders =
     fold (sell_item fo resolve by_slug sale) (given_items sale) orders"

definition summary_steps :: "'f gathering \<Rightarrow> trade_row list \<Rightarrow> summary_step list" where
  "summary_steps g sales = sort_key step_key (ga_steps g @ map Sold (filter (\<lambda>t. tr_kind t = tx ''sale'') sales))"

definition allocated_orders ::
  "'f float_ops \<Rightarrow> (ustr \<Rightarrow> string option) \<Rightarrow> listed_item list \<Rightarrow> trade_row list \<Rightarrow> 'f sale_order list" where
  "allocated_orders fo resolve listings sales =
     (let g = gather fo listings
      in fold (summary_step_of fo resolve (ga_by_slug g)) (summary_steps g sales) (ga_orders g))"

record within_deadline =
  wd_eligible :: u32
  wd_sold :: u32

record 'f outcome_group =
  og_listings :: u32
  og_quantity_listed :: i64
  og_quantity_sold :: i64
  og_within_day :: within_deadline
  og_within_week :: within_deadline
  og_median_hours :: "'f option"
  og_price_ratio :: "'f option"
  og_priced_quantity :: i64

record 'f outcome_sums =
  os_out :: "'f outcome_group"
  os_hours :: "'f list"
  os_realised :: 'f
  os_listed :: 'f

definition count_deadline :: "i64 \<Rightarrow> i64 \<Rightarrow> i64 \<Rightarrow> i64 option \<Rightarrow> within_deadline \<Rightarrow> within_deadline" where
  "count_deadline now listed_at deadline waited slot =
     (let in_time = is_some_and waited (\<lambda>w. w \<le> deadline)
      in if deadline \<le> i64_wrap (now - listed_at) \<or> in_time
         then slot\<lparr> wd_eligible := wd_eligible slot + 1, wd_sold := wd_sold slot + (if in_time then 1 else 0) \<rparr> else slot)"

definition add_order :: "'f float_ops \<Rightarrow> i64 \<Rightarrow> 'f sale_order \<Rightarrow> 'f outcome_sums \<Rightarrow> 'f outcome_sums" where
  "add_order fo now ord s =
     (let listed_at = lt_listed_at (so_first ord);
          waited = map_option (\<lambda>t. i64_wrap (t - listed_at)) (so_first_sale_at ord); out = os_out s
      in s\<lparr> os_out := out\<lparr> og_listings := og_listings out + 1,
              og_quantity_listed := i64_wrap (og_quantity_listed out + so_offered ord),
              og_quantity_sold := i64_wrap (og_quantity_sold out + so_sold ord),
              og_priced_quantity := i64_wrap (og_priced_quantity out + so_priced ord),
              og_within_day := count_deadline now listed_at DAY waited (og_within_day out),
              og_within_week := count_deadline now listed_at (7 * DAY) waited (og_within_week out) \<rparr>,
            os_realised := fo_add fo (os_realised s) (so_realised_value ord),
            os_listed := fo_add fo (os_listed s) (so_listed_value ord),
            os_hours := os_hours s @ (case waited of None \<Rightarrow> [] | Some w \<Rightarrow> [fo_div fo (fo_of fo w) (fo_of fo 3600)]) \<rparr>)"

definition median :: "'f float_ops \<Rightarrow> 'f list \<Rightarrow> 'f option" where
  "median fo hours =
     (let mid = length hours div 2
      in if hours = [] then None
         else if odd (length hours) then get_nth hours mid
         else Option.bind (get_nth hours (mid - 1)) (\<lambda>a. Option.bind (get_nth hours mid) (\<lambda>b.
                Some (fo_div fo (fo_add fo a b) (fo_of fo 2)))))"

definition no_sums :: "'f float_ops \<Rightarrow> 'f outcome_sums" where
  "no_sums fo =
     \<lparr> os_out = \<lparr> og_listings = 0, og_quantity_listed = 0, og_quantity_sold = 0,
         og_within_day = \<lparr> wd_eligible = 0, wd_sold = 0 \<rparr>, og_within_week = \<lparr> wd_eligible = 0, wd_sold = 0 \<rparr>,
         og_median_hours = None, og_price_ratio = None, og_priced_quantity = 0 \<rparr>,
       os_hours = [], os_realised = fo_of fo 0, os_listed = fo_of fo 0 \<rparr>"

definition finish_group :: "'f float_ops \<Rightarrow> 'f outcome_sums \<Rightarrow> 'f outcome_group" where
  "finish_group fo s =
     (os_out s)\<lparr> og_median_hours := median fo (fo_sort fo (os_hours s)),
                 og_price_ratio := (if fo_positive fo (os_listed s) then Some (fo_div fo (os_realised s) (os_listed s)) else None) \<rparr>"

record 'f listing_outcomes =
  lo_enabled :: bool
  lo_window_days :: u32
  lo_session :: "'f outcome_group"
  lo_manual :: "'f outcome_group"

definition summarize ::
  "'f float_ops \<Rightarrow> bool \<Rightarrow> listed_item list \<Rightarrow> trade_row list \<Rightarrow> (ustr \<Rightarrow> string option) \<Rightarrow> i64 \<Rightarrow> 'f listing_outcomes" where
  "summarize fo on listings sales resolve now =
     (let orders = filter (\<lambda>ord. i64_wrap (now - 30 * DAY) \<le> lt_listed_at (so_first ord)) (allocated_orders fo resolve listings sales);
          group = (\<lambda>origin. finish_group fo (fold (add_order fo now) (filter (\<lambda>ord. lt_origin (so_first ord) = origin) orders) (no_sums fo)))
      in \<lparr> lo_enabled = on, lo_window_days = WINDOW_DAYS, lo_session = group FromSession, lo_manual = group FromManual \<rparr>)"

definition read_outcomes ::
  "'f float_ops \<Rightarrow> iv_faults \<Rightarrow> (oc_step \<Rightarrow> string option) \<Rightarrow> faults \<Rightarrow> inventory_db \<Rightarrow> outcome_row list \<Rightarrow> ledger
   \<Rightarrow> (ustr \<Rightarrow> string option) \<Rightarrow> i64 \<Rightarrow> (string, 'f listing_outcomes) result" where
  "read_outcomes fo ivf ocf lf db rows lg resolve now =
     rbind (listings_since ocf (i64_wrap (now - RETENTION_SECS)) rows) (\<lambda>listings.
     rbind (case listings of [] \<Rightarrow> Ok [] | oldest # _ \<Rightarrow> sales_since lf (lt_listed_at oldest) lg) (\<lambda>sales.
       Ok (summarize fo (outcomes_enabled ivf db) listings sales resolve now)))"

end
