(* ===== verification/Outcome_Facts.thy ===== *)
theory Outcome_Facts
  imports Listing_Outcomes
begin

text \<open>
  What the summary promises: one order for every order key, every order's copies accounted for, and no copy of a sale
  counted for two orders; and that the record of listings keeps one row for each item of a plan.
\<close>

section \<open>Orders while sales are allocated\<close>

definition order_ok :: "int \<Rightarrow> 'f sale_order \<Rightarrow> bool" where
  "order_ok limit ord \<longleftrightarrow>
     0 \<le> so_remaining ord \<and> 0 \<le> so_priced ord \<and> so_priced ord \<le> so_sold ord \<and> so_sold ord + so_remaining ord \<le> limit
     \<and> so_offered ord = so_sold ord + so_remaining ord \<and> (so_first_sale_at ord = None \<longleftrightarrow> so_sold ord = 0)"

definition slug_sold :: "string \<Rightarrow> 'f sale_order list \<Rightarrow> int" where
  "slug_sold slug orders = sum_list (map (\<lambda>ord. if lt_slug (so_first ord) = slug then so_sold ord else 0) orders)"

lemma sum_list_map_update:
  fixes f :: "'a \<Rightarrow> int"
  shows "i < length xs \<Longrightarrow> sum_list (map f (xs[i := x])) = sum_list (map f xs) - f (xs ! i) + f x"
proof (induction xs arbitrary: i)
  case (Cons y ys)
  then show ?case by (cases i) simp_all
qed simp

lemma i64_wrap_small: "0 \<le> n \<Longrightarrow> n < 2 ^ 63 \<Longrightarrow> i64_wrap n = n"
  by (rule i64_wrap_id) (simp add: i64_range_def)

lemma sell_from_ok:
  assumes "order_ok limit ord" and "limit < 2 ^ 63" and "0 < taken" and "taken \<le> so_remaining ord"
  shows "order_ok limit (sell_from fo sold_at unit taken ord) \<and> so_sold (sell_from fo sold_at unit taken ord) = so_sold ord + taken
     \<and> so_first (sell_from fo sold_at unit taken ord) = so_first ord"
proof -
  have "i64_wrap (so_sold ord + taken) = so_sold ord + taken" "i64_wrap (so_priced ord + taken) = so_priced ord + taken"
    using assms by (auto simp: order_ok_def intro!: i64_wrap_small)
  with assms show ?thesis
    by (cases unit) (simp_all add: sell_from_def order_ok_def)
qed

lemma listed_again_ok:
  assumes "order_ok limit ord" and "limit + max (lt_quantity row) 0 < 2 ^ 63"
  shows "order_ok (limit + max (lt_quantity row) 0) (listed_again row ord) \<and> so_sold (listed_again row ord) = so_sold ord
     \<and> so_first (listed_again row ord) = so_first ord"
proof -
  have "i64_wrap (so_sold ord + max (lt_quantity row) 0) = so_sold ord + max (lt_quantity row) 0"
    using assms by (intro i64_wrap_small) (auto simp: order_ok_def)
  with assms show ?thesis by (auto simp: listed_again_def order_ok_def Let_def)
qed

lemma order_ok_mono: "order_ok limit ord \<Longrightarrow> limit \<le> limit' \<Longrightarrow> order_ok limit' ord"
  by (auto simp: order_ok_def)

abbreviation orders_ok :: "int \<Rightarrow> 'f sale_order list \<Rightarrow> bool" where
  "orders_ok limit orders \<equiv> \<forall>ord\<in>set orders. order_ok limit ord"

lemma map_so_first_update: "i < length orders \<Longrightarrow> so_first ord = so_first (orders ! i) \<Longrightarrow> map so_first (orders[i := ord]) = map so_first orders"
  by (simp add: map_update list_update_same_conv)

lemma slug_sold_update:
  "i < length orders \<Longrightarrow> so_first ord = so_first (orders ! i) \<Longrightarrow>
     slug_sold slug (orders[i := ord]) = slug_sold slug orders
       + (if lt_slug (so_first (orders ! i)) = slug then so_sold ord - so_sold (orders ! i) else 0)"
  by (simp add: slug_sold_def sum_list_map_update)

lemma try_order_ok:
  assumes step: "try_order fo sold_at unit i (left, orders) = (left', orders')"
    and ok: "orders_ok limit orders" "limit < 2 ^ 63" "0 \<le> left" "i < length orders"
  shows "orders_ok limit orders' \<and> 0 \<le> left' \<and> left' \<le> left \<and> map so_first orders' = map so_first orders
     \<and> (\<forall>slug. slug_sold slug orders' = slug_sold slug orders + (if lt_slug (so_first (orders ! i)) = slug then left - left' else 0))"
proof (cases "left = 0 \<or> so_remaining (orders ! i) = 0")
  case True
  with step ok show ?thesis by (auto simp: try_order_def get_nth_def split: if_splits)
next
  case False
  let ?ord = "orders ! i" and ?t = "min left (so_remaining (orders ! i))"
  have o1: "order_ok limit ?ord" using ok by simp
  then have t: "0 < ?t" "?t \<le> so_remaining ?ord" using False ok(3) by (auto simp: order_ok_def)
  note S = sell_from_ok [OF o1 ok(2) t, of fo sold_at unit]
  have e: "left' = left - ?t" "orders' = orders[i := sell_from fo sold_at unit ?t ?ord]"
    using step False ok(4) by (auto simp: try_order_def get_nth_def Let_def)
  have "orders_ok limit orders'" using ok(1) S by (auto simp: e dest!: set_update_subset_insert [THEN subsetD])
  with S ok t show ?thesis by (simp add: e map_so_first_update slug_sold_update)
qed

lemma try_orders_ok:
  "fold (try_order fo sold_at unit) cs (left, orders) = (left', orders') \<Longrightarrow> orders_ok limit orders \<Longrightarrow> limit < 2 ^ 63 \<Longrightarrow> 0 \<le> left
   \<Longrightarrow> (\<forall>i\<in>set cs. i < length orders \<and> lt_slug (so_first (orders ! i)) = s) \<Longrightarrow>
     orders_ok limit orders' \<and> 0 \<le> left' \<and> left' \<le> left \<and> map so_first orders' = map so_first orders
     \<and> (\<forall>slug. slug_sold slug orders' = slug_sold slug orders + (if slug = s then left - left' else 0))"
proof (induction cs arbitrary: left orders)
  case (Cons i cs)
  obtain l o1 where step: "try_order fo sold_at unit i (left, orders) = (l, o1)" by (cases "try_order fo sold_at unit i (left, orders)")
  have i: "i < length orders" "lt_slug (so_first (orders ! i)) = s" using Cons.prems(5) by simp_all
  note T = try_order_ok [OF step Cons.prems(2-4) i(1)]
  have "length o1 = length orders" using T by (metis length_map)
  moreover have "so_first (o1 ! j) = so_first (orders ! j)" if "j < length orders" for j
    using T that calculation by (metis nth_map)
  ultimately have cands: "\<forall>j\<in>set cs. j < length o1 \<and> lt_slug (so_first (o1 ! j)) = s" using Cons.prems(5) by simp
  have "fold (try_order fo sold_at unit) cs (l, o1) = (left', orders')" using Cons.prems(1) step by simp
  from Cons.IH [OF this _ Cons.prems(3) _ cands] T i(2) show ?case by auto
qed simp

section \<open>One sale\<close>

definition by_slug_ok :: "listed_item list \<Rightarrow> (string, nat list) btree \<Rightarrow> bool" where
  "by_slug_ok firsts by_slug \<longleftrightarrow>
     (\<forall>slug cands. map_of by_slug slug = Some cands \<longrightarrow> (\<forall>i\<in>set cands. i < length firsts \<and> lt_slug (firsts ! i) = slug))"

definition resolved_slug :: "(ustr \<Rightarrow> string option) \<Rightarrow> trade_item \<Rightarrow> string option" where
  "resolved_slug resolve item = resolve (fst (split_rank (ti_name item)))"

definition copies_sold :: "(ustr \<Rightarrow> string option) \<Rightarrow> string \<Rightarrow> trade_item list \<Rightarrow> int" where
  "copies_sold resolve slug items = sum_list (map ti_qty (filter (\<lambda>i. resolved_slug resolve i = Some slug) items))"

definition keeps_orders :: "int \<Rightarrow> int \<Rightarrow> (string \<Rightarrow> int) \<Rightarrow> 'f sale_order list \<Rightarrow> 'f sale_order list \<Rightarrow> bool" where
  "keeps_orders limit limit' sold orders orders' \<longleftrightarrow>
     orders_ok limit' orders' \<and> map so_first orders' = map so_first orders \<and> limit \<le> limit'
     \<and> (\<forall>slug. slug_sold slug orders' \<le> slug_sold slug orders + sold slug)"

lemma sell_item_ok:
  assumes ok: "orders_ok limit orders" "limit < 2 ^ 63" and slugs: "by_slug_ok (map so_first orders) by_slug" and qty: "0 < ti_qty item"
  shows "keeps_orders limit limit (\<lambda>slug. copies_sold resolve slug [item]) orders (sell_item fo resolve by_slug sale item orders)"
proof (cases "Option.bind (resolved_slug resolve item) (map_of by_slug)")
  case None
  with ok qty show ?thesis by (simp add: sell_item_def resolved_slug_def keeps_orders_def copies_sold_def)
next
  case (Some cands)
  then obtain s where s: "resolved_slug resolve item = Some s" "map_of by_slug s = Some cands"
    by (auto simp: bind_eq_Some_conv)
  obtain left' orders' where f: "fold (try_order fo (tr_at sale) (unit_price fo sale)) cands (ti_qty item, orders) = (left', orders')"
    by (cases "fold (try_order fo (tr_at sale) (unit_price fo sale)) cands (ti_qty item, orders)")
  have all: "\<forall>i\<in>set cands. i < length orders \<and> lt_slug (so_first (orders ! i)) = s"
  proof
    fix i assume "i \<in> set cands"
    with slugs s(2) have "i < length (map so_first orders)" "lt_slug (map so_first orders ! i) = s"
      unfolding by_slug_ok_def by blast+
    then show "i < length orders \<and> lt_slug (so_first (orders ! i)) = s" by simp
  qed
  have "sell_item fo resolve by_slug sale item orders = orders'"
    using s f by (simp add: sell_item_def resolved_slug_def)
  with try_orders_ok [OF f ok _ all] qty s show ?thesis by (simp add: keeps_orders_def copies_sold_def)
qed

lemma keeps_orders_trans:
  "keeps_orders a b f xs ys \<Longrightarrow> keeps_orders b c g ys zs \<Longrightarrow> keeps_orders a c (\<lambda>s. f s + g s) xs zs"
  unfolding keeps_orders_def
proof (intro conjI allI; elim conjE)
  fix slug
  assume "\<forall>slug. slug_sold slug ys \<le> slug_sold slug xs + f slug" "\<forall>slug. slug_sold slug zs \<le> slug_sold slug ys + g slug"
  then have "slug_sold slug ys \<le> slug_sold slug xs + f slug" "slug_sold slug zs \<le> slug_sold slug ys + g slug" by blast+
  then show "slug_sold slug zs \<le> slug_sold slug xs + (f slug + g slug)" by linarith
qed simp_all

lemma keeps_orders_refl: "orders_ok limit orders \<Longrightarrow> keeps_orders limit limit (\<lambda>_. 0) orders orders"
  by (simp add: keeps_orders_def)

lemma keeps_orders_limit: "keeps_orders a b f xs ys \<Longrightarrow> orders_ok b ys \<and> map so_first ys = map so_first xs"
  by (simp add: keeps_orders_def)

lemma sell_items_ok:
  "orders_ok limit orders \<Longrightarrow> limit < 2 ^ 63 \<Longrightarrow> by_slug_ok (map so_first orders) by_slug \<Longrightarrow> (\<forall>i\<in>set items. 0 < ti_qty i) \<Longrightarrow>
     keeps_orders limit limit (\<lambda>slug. copies_sold resolve slug items) orders (fold (sell_item fo resolve by_slug sale) items orders)"
proof (induction items arbitrary: orders)
  case Nil
  then show ?case by (simp add: copies_sold_def keeps_orders_refl)
next
  case (Cons item items)
  let ?o = "sell_item fo resolve by_slug sale item orders"
  have one: "keeps_orders limit limit (\<lambda>slug. copies_sold resolve slug [item]) orders ?o"
    using Cons.prems by (intro sell_item_ok) auto
  have "keeps_orders limit limit (\<lambda>slug. copies_sold resolve slug items) ?o (fold (sell_item fo resolve by_slug sale) items ?o)"
    using keeps_orders_limit [OF one] Cons.prems by (intro Cons.IH) auto
  from keeps_orders_trans [OF one this]
  have "keeps_orders limit limit (\<lambda>s. copies_sold resolve s [item] + copies_sold resolve s items) orders
      (fold (sell_item fo resolve by_slug sale) items ?o)" .
  moreover have "(\<lambda>s. copies_sold resolve s [item] + copies_sold resolve s items) = (\<lambda>s. copies_sold resolve s (item # items))"
    by (auto simp: copies_sold_def fun_eq_iff)
  ultimately show ?case by simp
qed

section \<open>All steps\<close>

fun step_listed :: "summary_step \<Rightarrow> int" where
  "step_listed (Listed _ row) = max (lt_quantity row) 0"
| "step_listed (Sold _) = 0"

fun step_sold :: "(ustr \<Rightarrow> string option) \<Rightarrow> string \<Rightarrow> summary_step \<Rightarrow> int" where
  "step_sold resolve slug (Listed _ _) = 0"
| "step_sold resolve slug (Sold sale) = copies_sold resolve slug (given_items sale)"

lemma step_listed_nonneg: "0 \<le> step_listed st"
  by (cases st) simp_all

lemma summary_step_ok:
  assumes ok: "orders_ok limit orders" "limit + step_listed st < 2 ^ 63" and slugs: "by_slug_ok (map so_first orders) by_slug"
  shows "keeps_orders limit (limit + step_listed st) (\<lambda>slug. step_sold resolve slug st) orders (summary_step_of fo resolve by_slug st orders)"
proof (cases st)
  case (Sold sale)
  have "\<forall>i\<in>set (given_items sale). 0 < ti_qty i" by (simp add: given_items_def)
  with sell_items_ok [OF ok(1) _ slugs this] ok(2) Sold show ?thesis by simp
next
  case (Listed i row)
  show ?thesis
  proof (cases "i < length orders")
    case False
    with ok(1) Listed show ?thesis by (auto simp: keeps_orders_def get_nth_def intro: order_ok_mono)
  next
    case True
    let ?ord = "listed_again row (orders ! i)" and ?l = "limit + max (lt_quantity row) 0"
    have L: "order_ok ?l ?ord \<and> so_sold ?ord = so_sold (orders ! i) \<and> so_first ?ord = so_first (orders ! i)"
      using ok True Listed by (intro listed_again_ok) auto
    have "orders_ok ?l (orders[i := ?ord])"
      using L ok(1) by (auto dest!: set_update_subset_insert [THEN subsetD] intro: order_ok_mono)
    with L True Listed show ?thesis by (simp add: keeps_orders_def get_nth_def map_so_first_update slug_sold_update)
  qed
qed

lemma summary_steps_ok:
  "orders_ok limit orders \<Longrightarrow> limit + sum_list (map step_listed steps) < 2 ^ 63 \<Longrightarrow> by_slug_ok (map so_first orders) by_slug \<Longrightarrow>
     keeps_orders limit (limit + sum_list (map step_listed steps)) (\<lambda>slug. sum_list (map (step_sold resolve slug) steps)) orders
       (fold (summary_step_of fo resolve by_slug) steps orders)"
proof (induction steps arbitrary: limit orders)
  case Nil
  then show ?case by (simp add: keeps_orders_refl)
next
  case (Cons st steps)
  let ?o = "summary_step_of fo resolve by_slug st orders"
  have "0 \<le> sum_list (map step_listed steps)" by (rule sum_list_nonneg) (auto simp: step_listed_nonneg)
  then have one: "keeps_orders limit (limit + step_listed st) (\<lambda>slug. step_sold resolve slug st) orders ?o"
    using Cons.prems by (intro summary_step_ok) auto
  have "keeps_orders (limit + step_listed st) (limit + step_listed st + sum_list (map step_listed steps))
      (\<lambda>slug. sum_list (map (step_sold resolve slug) steps)) ?o (fold (summary_step_of fo resolve by_slug) steps ?o)"
    using keeps_orders_limit [OF one] Cons.prems by (intro Cons.IH) (auto simp: algebra_simps)
  from keeps_orders_trans [OF one this] show ?case by (simp add: algebra_simps)
qed


section \<open>Gathering the orders\<close>

definition gather_ok :: "'f float_ops \<Rightarrow> listed_item list \<Rightarrow> 'f gathering \<Rightarrow> bool" where
  "gather_ok fo xs g \<longleftrightarrow>
     bt_ok (ga_order_of g) \<and> bt_ok (ga_by_slug g) \<and> ga_orders g = map (new_order fo) (map so_first (ga_orders g))
     \<and> by_slug_ok (map so_first (ga_orders g)) (ga_by_slug g)
     \<and> sum_list (map step_listed (ga_steps g)) = sum_list (map (\<lambda>row. max (lt_quantity row) 0) xs)
     \<and> (\<forall>st\<in>set (ga_steps g). \<exists>i row. st = Listed i row)
     \<and> distinct (map (\<lambda>ord. outcome_key (so_first ord)) (ga_orders g))
     \<and> (\<lambda>ord. outcome_key (so_first ord)) ` set (ga_orders g) = outcome_key ` set xs
     \<and> (\<forall>k. map_of (ga_order_of g) k = None \<longleftrightarrow> k \<notin> outcome_key ` set xs)"

lemma gather_known: "gather_ok fo xs g \<Longrightarrow> map_of (ga_order_of g) k = None \<longleftrightarrow> k \<notin> outcome_key ` set xs"
  unfolding gather_ok_def by blast

lemma new_order_first [simp]: "so_first (new_order fo row) = row" "so_sold (new_order fo row) = 0"
  by (simp_all add: new_order_def)

lemma by_slug_ok_snoc:
  assumes "by_slug_ok firsts by_slug" and "bt_ok by_slug"
  shows "by_slug_ok (firsts @ [row]) (bt_upd (lt_slug row) (\<lambda>v. unwrap_or v [] @ [length firsts]) by_slug)"
  unfolding by_slug_ok_def
proof (intro allI impI ballI)
  fix slug cands i
  assume c: "map_of (bt_upd (lt_slug row) (\<lambda>v. unwrap_or v [] @ [length firsts]) by_slug) slug = Some cands" and i: "i \<in> set cands"
  have old: "i < length firsts \<and> lt_slug (firsts ! i) = s" if "map_of by_slug s = Some cs" "i \<in> set cs" for s cs
    using assms(1) that unfolding by_slug_ok_def by blast
  show "i < length (firsts @ [row]) \<and> lt_slug ((firsts @ [row]) ! i) = slug"
  proof (cases "slug = lt_slug row")
    case True
    with c i assms(2) show ?thesis
      by (cases "map_of by_slug slug") (auto simp: lookup_bt_upd nth_append dest: old)
  next
    case False
    with c i assms(2) have "i < length firsts" "lt_slug (firsts ! i) = slug" by (auto simp: lookup_bt_upd dest: old)
    then show ?thesis by (simp add: nth_append)
  qed
qed

lemma gather_row_ok:
  assumes "gather_ok fo xs g"
  shows "gather_ok fo (xs @ [row]) (gather_row fo row g)"
proof (cases "map_of (ga_order_of g) (outcome_key row)")
  case (Some i)
  then have "outcome_key row \<in> outcome_key ` set xs" using gather_known [OF assms, of "outcome_key row"] by simp
  then have "insert (outcome_key row) (outcome_key ` set xs) = outcome_key ` set xs" by (rule insert_absorb)
  with Some assms show ?thesis by (simp add: gather_row_def gather_ok_def del: map_map)
next
  case None
  then have new: "outcome_key row \<notin> outcome_key ` set xs" using gather_known [OF assms, of "outcome_key row"] by simp
  let ?g = "gather_row fo row g"
  have row: "?g = g\<lparr> ga_orders := ga_orders g @ [new_order fo row],
      ga_order_of := bt_insert (outcome_key row) (length (ga_orders g)) (ga_order_of g),
      ga_by_slug := bt_upd (lt_slug row) (\<lambda>v. unwrap_or v [] @ [length (ga_orders g)]) (ga_by_slug g),
      ga_steps := ga_steps g @ [Listed (length (ga_orders g)) row] \<rparr>"
    using None by (simp add: gather_row_def Let_def)
  then have orders: "ga_orders ?g = ga_orders g @ [new_order fo row]" by simp
  have keys: "(\<lambda>ord. outcome_key (so_first ord)) ` set (ga_orders g) = outcome_key ` set xs" using assms by (simp add: gather_ok_def)
  have "by_slug_ok (map so_first (ga_orders ?g)) (ga_by_slug ?g)"
    using by_slug_ok_snoc [of "map so_first (ga_orders g)" "ga_by_slug g" row] assms
    by (simp add: gather_ok_def row)
  moreover have "distinct (map (\<lambda>ord. outcome_key (so_first ord)) (ga_orders ?g))"
    using assms new keys by (simp add: gather_ok_def orders)
  ultimately show ?thesis
    using assms keys unfolding gather_ok_def by (auto simp: row)
qed

lemma gather_is_ok: "gather_ok fo listings (gather fo listings)"
proof -
  have "gather_ok fo (xs @ ys) (fold (gather_row fo) ys g)" if "gather_ok fo xs g" for xs ys and g :: "'a gathering"
    using that
  proof (induction ys arbitrary: xs g)
    case (Cons y ys)
    from Cons.IH [OF gather_row_ok [OF Cons.prems, of y]] show ?case by simp
  qed simp
  moreover have "gather_ok fo [] \<lparr> ga_orders = [], ga_order_of = [], ga_by_slug = [], ga_steps = [] \<rparr>"
    by (simp add: gather_ok_def by_slug_ok_def)
  ultimately have "gather_ok fo ([] @ listings) (gather fo listings)" unfolding gather_def by blast
  then show ?thesis by simp
qed

section \<open>The whole allocation\<close>

text \<open>The copies of an item the ledger's sales gave away.\<close>

definition ledger_sold :: "(ustr \<Rightarrow> string option) \<Rightarrow> string \<Rightarrow> trade_row list \<Rightarrow> int" where
  "ledger_sold resolve slug sales =
     sum_list (map (\<lambda>t. copies_sold resolve slug (given_items t)) (filter (\<lambda>t. tr_kind t = tx ''sale'') sales))"

lemma sum_list_insort_key: "sum_list (map f (insort_key k x xs)) = f x + sum_list (map f xs)" for f :: "'a \<Rightarrow> int"
  by (induction xs) simp_all

lemma sum_list_sort_key: "sum_list (map f (sort_key k xs)) = sum_list (map f xs)" for f :: "'a \<Rightarrow> int"
  by (induction xs) (simp_all add: sum_list_insort_key)

lemma no_sales_in: "(\<forall>st\<in>set steps. \<exists>i row. st = Listed i row) \<Longrightarrow> sum_list (map (step_sold resolve slug) steps) = 0"
  by (induction steps) auto

lemma allocation_ok:
  assumes few: "sum_list (map (\<lambda>row. max (lt_quantity row) 0) listings) < 2 ^ 63"
  shows "keeps_orders 0 (sum_list (map (\<lambda>row. max (lt_quantity row) 0) listings)) (\<lambda>slug. ledger_sold resolve slug sales)
     (ga_orders (gather fo listings)) (allocated_orders fo resolve listings sales)"
proof -
  let ?g = "gather fo listings" and ?q = "sum_list (map (\<lambda>row. max (lt_quantity row) 0) listings)"
  note G = gather_is_ok [of fo listings]
  have listed: "sum_list (map step_listed (summary_steps ?g sales)) = ?q"
    using G by (simp add: summary_steps_def sum_list_sort_key gather_ok_def comp_def)
  have sold: "sum_list (map (step_sold resolve slug) (summary_steps ?g sales)) = ledger_sold resolve slug sales" for slug
    using G no_sales_in [of "ga_steps ?g" resolve slug]
    by (simp add: summary_steps_def sum_list_sort_key gather_ok_def comp_def ledger_sold_def)
  have "orders_ok 0 (ga_orders ?g)"
  proof
    fix ord assume "ord \<in> set (ga_orders ?g)"
    then have "ord \<in> set (map (new_order fo) (map so_first (ga_orders ?g)))" using G by (simp add: gather_ok_def del: map_map)
    then show "order_ok 0 ord" by (auto simp: order_ok_def new_order_def)
  qed
  moreover have "by_slug_ok (map so_first (ga_orders ?g)) (ga_by_slug ?g)" using G by (simp add: gather_ok_def)
  ultimately show ?thesis
    using summary_steps_ok [of "ga_orders ?g" 0 "summary_steps ?g sales" "ga_by_slug ?g" resolve fo] few
    by (simp add: allocated_orders_def Let_def listed sold)
qed

text \<open>C33: A sale is never counted twice: the allocation keeps one order for each order key, every order's copies are
  exactly those sold plus those remaining, never negative, with a first sale exactly when a copy sold and no more copies
  priced than sold; and over all orders of an item no more copies sell than the ledger's sales gave of it.\<close>

theorem sales_are_allocated_once:
  assumes few: "sum_list (map (\<lambda>row. max (lt_quantity row) 0) listings) < 2 ^ 63"
    and orders: "orders = allocated_orders fo resolve listings sales"
  shows "distinct (map (\<lambda>ord. outcome_key (so_first ord)) orders)
     \<and> (\<lambda>ord. outcome_key (so_first ord)) ` set orders = outcome_key ` set listings
     \<and> (\<forall>ord\<in>set orders. 0 \<le> so_remaining ord \<and> 0 \<le> so_priced ord \<and> so_priced ord \<le> so_sold ord
          \<and> so_offered ord = so_sold ord + so_remaining ord \<and> (so_first_sale_at ord = None \<longleftrightarrow> so_sold ord = 0))
     \<and> (\<forall>slug. slug_sold slug orders \<le> ledger_sold resolve slug sales)"
proof -
  let ?g = "gather fo listings"
  note K = allocation_ok [OF few, of resolve sales fo, folded orders, unfolded keeps_orders_def] and G = gather_is_ok [of fo listings]
  have firsts: "map so_first orders = map so_first (ga_orders ?g)" using K by blast
  have keys: "map (\<lambda>ord. outcome_key (so_first ord)) orders = map (\<lambda>ord. outcome_key (so_first ord)) (ga_orders ?g)"
  proof -
    have "map outcome_key (map so_first orders) = map outcome_key (map so_first (ga_orders ?g))" by (simp only: firsts)
    then show ?thesis by (simp add: comp_def)
  qed
  have "distinct (map (\<lambda>ord. outcome_key (so_first ord)) (ga_orders ?g))"
    "(\<lambda>ord. outcome_key (so_first ord)) ` set (ga_orders ?g) = outcome_key ` set listings"
    using G unfolding gather_ok_def by blast+
  moreover have "(\<lambda>ord. outcome_key (so_first ord)) ` set orders = (\<lambda>ord. outcome_key (so_first ord)) ` set (ga_orders ?g)"
    by (simp only: image_set keys)
  ultimately have 1: "distinct (map (\<lambda>ord. outcome_key (so_first ord)) orders)"
    and 2: "(\<lambda>ord. outcome_key (so_first ord)) ` set orders = outcome_key ` set listings"
    using keys by (simp only:)+
  have "slug_sold slug (ga_orders ?g) = 0" for slug
  proof -
    have "ga_orders ?g = map (new_order fo) (map so_first (ga_orders ?g))" using G unfolding gather_ok_def by blast
    then have "slug_sold slug (ga_orders ?g) = slug_sold slug (map (new_order fo) (map so_first (ga_orders ?g)))" by simp
    also have "\<dots> = 0" by (simp add: slug_sold_def comp_def cong: if_cong)
    finally show ?thesis .
  qed
  with K have 3: "\<forall>slug. slug_sold slug orders \<le> ledger_sold resolve slug sales" by simp
  from K have 4: "\<forall>ord\<in>set orders. 0 \<le> so_remaining ord \<and> 0 \<le> so_priced ord \<and> so_priced ord \<le> so_sold ord
          \<and> so_offered ord = so_sold ord + so_remaining ord \<and> (so_first_sale_at ord = None \<longleftrightarrow> so_sold ord = 0)"
    by (simp add: order_ok_def)
  from 1 2 4 3 show ?thesis by blast
qed


section \<open>An example\<close>

definition demo_floats :: "int float_ops" where
  "demo_floats = \<lparr> fo_of = (\<lambda>n. n), fo_add = (+), fo_mul = (*), fo_div = (div), fo_positive = (\<lambda>n. 0 < n), fo_sort = sort \<rparr>"

definition demo_listing :: listed_item where
  "demo_listing = \<lparr> lt_plan_id = ''plan'', lt_plan_index = 0, lt_slug = ''p'', lt_rank = None, lt_subtype = None, lt_platinum = 10,
     lt_quantity = 3, lt_origin = FromManual, lt_listed_at = 10, lt_order_id = Some ''o'' \<rparr>"

definition demo_sold_trade :: trade_row where
  "demo_sold_trade = \<lparr> tr_id = 1, tr_at = 20, tr_partner = [], tr_kind = tx ''sale'', tr_plat = 18,
     tr_items = [\<lparr> ti_name = tx ''P'', ti_qty = 2, ti_direction = tx ''given'' \<rparr>], tr_log_stamp = None, tr_wfm_closed = False \<rparr>"

definition demo_sold :: "int sale_order" where
  "demo_sold = \<lparr> so_first = demo_listing, so_offered = 3, so_remaining = 1, so_platinum = 10, so_sold = 2, so_first_sale_at = Some 20,
     so_priced = 2, so_realised_value = 18, so_listed_value = 20 \<rparr>"

lemma demo_allocation_runs:
  "allocated_orders demo_floats (\<lambda>_. Some ''p'') [demo_listing] [demo_sold_trade] = [demo_sold]"
proof -
  have row: "gather demo_floats [demo_listing] = \<lparr> ga_orders = [new_order demo_floats demo_listing], ga_order_of = [(''o'', 0)],
      ga_by_slug = [(''p'', [0])], ga_steps = [Listed 0 demo_listing] \<rparr>"
    by (simp add: gather_def gather_row_def outcome_key_def demo_listing_def bt_insert_def)
  have steps: "summary_steps (gather demo_floats [demo_listing]) [demo_sold_trade] = [Listed 0 demo_listing, Sold demo_sold_trade]"
  proof -
    have "tr_kind demo_sold_trade = tx ''sale''" "step_key (Listed 0 demo_listing) = (10, 0)" "step_key (Sold demo_sold_trade) = (20, 1)"
      by (simp_all add: demo_sold_trade_def demo_listing_def)
    then show ?thesis by (simp add: row summary_steps_def del: step_key.simps)
  qed
  have given: "given_items demo_sold_trade = [\<lparr> ti_name = tx ''P'', ti_qty = 2, ti_direction = tx ''given'' \<rparr>]"
    by (simp add: given_items_def demo_sold_trade_def)
  have unit: "unit_price demo_floats demo_sold_trade = Some 9"
    by (simp add: unit_price_def given one_kind_def demo_floats_def i64_wrap_def) (simp add: demo_sold_trade_def)
  show ?thesis
    unfolding allocated_orders_def Let_def steps
    by (simp add: row get_nth_def listed_again_def new_order_def given sell_item_def unit try_order_def
        sell_from_def demo_sold_def i64_wrap_def)
       (simp add: demo_listing_def demo_sold_trade_def demo_floats_def i64_wrap_def)
qed

theorem sales_are_allocated_once_witness:
  "sum_list (map (\<lambda>row. max (lt_quantity row) 0) [demo_listing]) < 2 ^ 63
     \<and> allocated_orders demo_floats (\<lambda>_. Some ''p'') [demo_listing] [demo_sold_trade] = [demo_sold]
     \<and> so_offered demo_sold = so_sold demo_sold + so_remaining demo_sold
     \<and> slug_sold ''p'' [demo_sold] \<le> ledger_sold (\<lambda>_. Some ''p'') ''p'' [demo_sold_trade]"
proof -
  have few: "sum_list (map (\<lambda>row. max (lt_quantity row) 0) [demo_listing]) < 2 ^ 63" by (simp add: demo_listing_def)
  from sales_are_allocated_once [OF few demo_allocation_runs [symmetric]] few demo_allocation_runs show ?thesis by simp
qed


section \<open>The record of listings\<close>

lemma insert_or_ignore_unique:
  "distinct (map (\<lambda>r. plan_key (oc_item r)) rows) \<Longrightarrow> distinct (map (\<lambda>r. plan_key (oc_item r)) (insert_or_ignore it rows))"
  by (auto simp: insert_or_ignore_def list_ex_iff)

text \<open>A plan's item has one row, whichever batches report it; nothing is written when the write fails.\<close>

lemma record_listings_unique:
  assumes "distinct (map (\<lambda>r. plan_key (oc_item r)) rows)" and "record_listings faults items now rows = (res, rows')"
  shows "distinct (map (\<lambda>r. plan_key (oc_item r)) rows') \<and> (\<forall>e. res = Err e \<longrightarrow> rows' = rows)"
proof -
  let ?pruned = "filter (\<lambda>r. sat_plus now (- RETENTION_SECS) \<le> lt_listed_at (oc_item r)) rows"
  have fold_unique: "distinct (map (\<lambda>r. plan_key (oc_item r)) rs')"
    if "fold_ok (\<lambda>(n, it) rows. rbind (oc_run faults (OcInsert n)) (\<lambda>_. Ok (insert_or_ignore it rows))) (enumerate 0 items) ?pruned = Ok rs'"
    for rs'
  proof (rule fold_ok_keeps [OF that, where I = "\<lambda>rs. distinct (map (\<lambda>r. plan_key (oc_item r)) rs)"])
    show "distinct (map (\<lambda>r. plan_key (oc_item r)) ?pruned)" using assms(1) by (rule distinct_map_filter)
  qed (auto simp: rbind_Ok_iff intro: insert_or_ignore_unique)
  show ?thesis
    using assms fold_unique
    by (auto simp: record_listings_def rbind_Ok_iff split: sum.splits)
qed

lemma turning_off_deletes:
  "set_outcomes_enabled ivf faults False s = (Ok (), db, rows) \<Longrightarrow> rows = []"
  by (auto simp: set_outcomes_enabled_def clear_listings_def split: sum.splits prod.splits)

end
