(* ===== verification/Credential.thy ===== *)
theory Credential
  imports Pending Text Command_Error
begin

text \<open>
  The sign-in token at rest (\<open>wfm-trading/src/auth.rs\<close>): the encrypted envelope, its key derivation and its
  encryption, the JSON of the login file, and what \<open>/v2/me\<close> says of a token. PBKDF2, AES-GCM and base64 are the
  record \<open>jwt_crypto\<close>; random bytes and the time are arguments. A string is its bytes.
\<close>

section \<open>The envelope\<close>

definition JWT_FORMAT :: string where "JWT_FORMAT = ''wfminv-jwt-v1''"
definition JWT_KDF_ITERATIONS :: u32 where "JWT_KDF_ITERATIONS = 600000"
definition MAX_JWT_KDF_ITERATIONS :: u32 where "MAX_JWT_KDF_ITERATIONS = 10000000"
definition JWT_IV_BYTES :: nat where "JWT_IV_BYTES = 12"
definition MIN_PASSPHRASE_CHARS :: nat where "MIN_PASSPHRASE_CHARS = 12"

record kdf_params =
  kd_name :: string
  kd_hash :: string
  kd_iterations :: u32
  kd_salt :: string

record cipher_params =
  cp_name :: string
  cp_iv :: string

record encrypted_jwt =
  ej_format :: string
  ej_created :: string
  ej_platform :: string
  ej_kdf :: kdf_params
  ej_cipher :: cipher_params
  ej_ciphertext :: string

record jwt_crypto =
  jc_pbkdf2 :: "string \<Rightarrow> string \<Rightarrow> u32 \<Rightarrow> (string, string) result"   \<comment> \<open>passphrase, salt, iterations\<close>
  jc_encrypt :: "string \<Rightarrow> string \<Rightarrow> string \<Rightarrow> (string, string) result"  \<comment> \<open>key, nonce, plaintext\<close>
  jc_decrypt :: "string \<Rightarrow> string \<Rightarrow> string \<Rightarrow> string option"
  jc_b64 :: "string \<Rightarrow> string"
  jc_unb64 :: "string \<Rightarrow> string option"

section \<open>What a sign-in is checked for\<close>

definition PLATFORMS :: "string list" where "PLATFORMS = [''pc'', ''ps4'', ''xbox'', ''switch'']"

definition validate_platform :: "string \<Rightarrow> (string, unit) result" where
  "validate_platform platform =
     (if platform \<notin> set PLATFORMS
      then Err (''Unknown platform '' @ [CHR 0x27] @ platform @ [CHR 0x27]
        @ ''. Use one of: pc, ps4, xbox, switch. (pc covers Steam & Epic.)'')
      else Ok ())"

text \<open>The passphrase is counted in characters, not in bytes.\<close>

definition validate_passphrase :: "string \<Rightarrow> (string, unit) result" where
  "validate_passphrase passphrase =
     (if length (chars_of passphrase) < MIN_PASSPHRASE_CHARS
      then Err (''Passphrase must be at least 12 characters - it guards your multi-month WFM token against offline brute force.'')
      else Ok ())"

section \<open>Encryption\<close>

text \<open>\<open>random\<close>: the salt and the nonce, or why there is no randomness.\<close>

definition encrypt_jwt :: "jwt_crypto \<Rightarrow> (string, string \<times> string) result \<Rightarrow> string \<Rightarrow> string \<Rightarrow> string \<Rightarrow> string
    \<Rightarrow> (string, encrypted_jwt) result" where
  "encrypt_jwt c random now jwt passphrase platform =
     rbind (case random of Err e \<Rightarrow> Err (''system randomness unavailable: '' @ e) | Ok r \<Rightarrow> Ok r) (\<lambda>(salt, iv).
     rbind (case jc_pbkdf2 c passphrase salt JWT_KDF_ITERATIONS of Err e \<Rightarrow> Err (''PBKDF2 failed: '' @ e) | Ok k \<Rightarrow> Ok k) (\<lambda>key.
     rbind (case jc_encrypt c key iv jwt of Err e \<Rightarrow> Err (''AES-GCM encrypt failed: '' @ e) | Ok t \<Rightarrow> Ok t) (\<lambda>ciphertext.
       Ok \<lparr> ej_format = JWT_FORMAT, ej_created = now, ej_platform = platform,
            ej_kdf = \<lparr> kd_name = ''PBKDF2'', kd_hash = ''SHA-256'', kd_iterations = JWT_KDF_ITERATIONS,
              kd_salt = jc_b64 c salt \<rparr>,
            ej_cipher = \<lparr> cp_name = ''AES-GCM'', cp_iv = jc_b64 c iv \<rparr>,
            ej_ciphertext = jc_b64 c ciphertext \<rparr>)))"

definition derive_jwt_key :: "jwt_crypto \<Rightarrow> encrypted_jwt \<Rightarrow> string \<Rightarrow> (string, string) result" where
  "derive_jwt_key c blob passphrase =
     (if ej_format blob \<noteq> JWT_FORMAT then Err (''Unknown JWT blob format: '' @ ej_format blob)
      else if \<not> (JWT_KDF_ITERATIONS \<le> kd_iterations (ej_kdf blob) \<and> kd_iterations (ej_kdf blob) \<le> MAX_JWT_KDF_ITERATIONS)
      then Err ''The saved WFM sign-in file is damaged (KDF iterations out of range).''
      else rbind (ok_or (jc_unb64 c (kd_salt (ej_kdf blob))) ''decoding salt'') (\<lambda>salt.
        (case jc_pbkdf2 c passphrase salt (kd_iterations (ej_kdf blob)) of
           Err e \<Rightarrow> Err (''PBKDF2 failed: '' @ e)
         | Ok key \<Rightarrow> Ok key)))"

text \<open>\<open>String::from_utf8\<close> of the plaintext's bytes.\<close>

definition utf8_string :: "string \<Rightarrow> string option" where
  "utf8_string s = (if from_utf8 (map of_char s) = None then None else Some s)"

definition decrypt_jwt_with_key :: "jwt_crypto \<Rightarrow> encrypted_jwt \<Rightarrow> string \<Rightarrow> (string, string) result" where
  "decrypt_jwt_with_key c blob key =
     (if ej_format blob \<noteq> JWT_FORMAT then Err (''Unknown JWT blob format: '' @ ej_format blob)
      else rbind (ok_or (jc_unb64 c (cp_iv (ej_cipher blob))) ''decoding IV'') (\<lambda>iv.
        if length iv \<noteq> JWT_IV_BYTES
        then Err (''The saved WFM sign-in file is damaged (IV length '' @ show_nat (length iv) @ '').'')
        else rbind (ok_or (jc_unb64 c (ej_ciphertext blob)) ''decoding ciphertext'') (\<lambda>ciphertext.
          rbind (ok_or (jc_decrypt c key iv ciphertext) ''Wrong passphrase, or the JWT file was modified.'') (\<lambda>plaintext.
            ok_or (utf8_string plaintext) ''JWT plaintext was not valid UTF-8''))))"

section \<open>The login file\<close>

definition kdf_json :: "kdf_params \<Rightarrow> json" where
  "kdf_json k = JObj [(''name'', JStr (kd_name k)), (''hash'', JStr (kd_hash k)),
     (''iterations'', json_of_u32 (kd_iterations k)), (''salt'', JStr (kd_salt k))]"

definition cipher_json :: "cipher_params \<Rightarrow> json" where
  "cipher_json p = JObj [(''name'', JStr (cp_name p)), (''iv'', JStr (cp_iv p))]"

definition encrypted_json :: "encrypted_jwt \<Rightarrow> json" where
  "encrypted_json e = JObj [(''format'', JStr (ej_format e)), (''created'', JStr (ej_created e)),
     (''platform'', JStr (ej_platform e)), (''kdf'', kdf_json (ej_kdf e)), (''cipher'', cipher_json (ej_cipher e)),
     (''ciphertext'', JStr (ej_ciphertext e))]"

definition kdf_of_json :: "json \<Rightarrow> kdf_params option" where
  "kdf_of_json v = do {
     ms \<leftarrow> members v;
     name \<leftarrow> req_field as_str ms ''name'';
     hash \<leftarrow> req_field as_str ms ''hash'';
     iterations \<leftarrow> req_field u32_of_json ms ''iterations'';
     salt \<leftarrow> req_field as_str ms ''salt'';
     if fields_once [''name'', ''hash'', ''iterations'', ''salt''] ms
     then Some \<lparr> kd_name = name, kd_hash = hash, kd_iterations = iterations, kd_salt = salt \<rparr> else None }"

definition cipher_of_json :: "json \<Rightarrow> cipher_params option" where
  "cipher_of_json v = do {
     ms \<leftarrow> members v;
     name \<leftarrow> req_field as_str ms ''name'';
     iv \<leftarrow> req_field as_str ms ''iv'';
     if fields_once [''name'', ''iv''] ms then Some \<lparr> cp_name = name, cp_iv = iv \<rparr> else None }"

definition encrypted_of_json :: "json \<Rightarrow> encrypted_jwt option" where
  "encrypted_of_json v = do {
     ms \<leftarrow> members v;
     format \<leftarrow> req_field as_str ms ''format'';
     created \<leftarrow> req_field as_str ms ''created'';
     platform \<leftarrow> req_field as_str ms ''platform'';
     kdf \<leftarrow> req_field kdf_of_json ms ''kdf'';
     cipher \<leftarrow> req_field cipher_of_json ms ''cipher'';
     ciphertext \<leftarrow> req_field as_str ms ''ciphertext'';
     if fields_once [''format'', ''created'', ''platform'', ''kdf'', ''cipher'', ''ciphertext''] ms
     then Some \<lparr> ej_format = format, ej_created = created, ej_platform = platform, ej_kdf = kdf, ej_cipher = cipher,
       ej_ciphertext = ciphertext \<rparr> else None }"

text \<open>\<open>read_error\<close>: what \<open>fs::read\<close> fails with although the file is there; serde's own message is not modelled.\<close>

definition read_blob :: "(string \<Rightarrow> json option) \<Rightarrow> string option \<Rightarrow> string option \<Rightarrow> (cmd_error, encrypted_jwt) result" where
  "read_blob from_slice read_error content =
     (case content of None \<Rightarrow> Err needs_login
      | Some bytes \<Rightarrow> (case read_error of
          Some e \<Rightarrow> Err (internal_error (''reading login file: '' @ e))
        | None \<Rightarrow> (case Option.bind (from_slice bytes) encrypted_of_json of
            Some blob \<Rightarrow> Ok blob
          | None \<Rightarrow> Err (internal_error ''login file is unreadable''))))"

text \<open>The token, its platform, the key it was opened with and the salt it belongs to.\<close>

definition decrypt_from_disk :: "jwt_crypto \<Rightarrow> (string \<Rightarrow> json option) \<Rightarrow> string option \<Rightarrow> string option \<Rightarrow> string
    \<Rightarrow> (cmd_error, string \<times> string \<times> string \<times> string) result" where
  "decrypt_from_disk c from_slice read_error content passphrase =
     rbind (read_blob from_slice read_error content) (\<lambda>blob.
     rbind (case derive_jwt_key c blob passphrase of Err e \<Rightarrow> Err bad_passphrase | Ok k \<Rightarrow> Ok k) (\<lambda>key.
     rbind (case decrypt_jwt_with_key c blob key of Err e \<Rightarrow> Err bad_passphrase | Ok j \<Rightarrow> Ok j) (\<lambda>jwt.
       Ok (jwt, ej_platform blob, key, kd_salt (ej_kdf blob)))))"

text \<open>
  \<open>persist\<close> writes in place: the file is created or truncated, then filled, so a failing write leaves a part of it.
\<close>

datatype persist_fault =
    Persisted
  | NoDirectory string
  | NoOpen string
  | CutShort string string   \<comment> \<open>what reached the file, and the error\<close>

definition persist_login :: "(json \<Rightarrow> string) \<Rightarrow> persist_fault \<Rightarrow> encrypted_jwt \<Rightarrow> string option
    \<Rightarrow> string option \<times> (cmd_error, unit) result" where
  "persist_login to_vec fault blob content =
     (case fault of
        NoDirectory e \<Rightarrow> (content, Err (internal_error (''creating config dir: '' @ e)))
      | NoOpen e \<Rightarrow> (content, Err (internal_error e))
      | CutShort part e \<Rightarrow> (Some part, Err (internal_error e))
      | Persisted \<Rightarrow> (Some (to_vec (encrypted_json blob)), Ok ()))"

section \<open>What the market says of a token\<close>

definition signed_in_from_status :: "(u16 \<Rightarrow> string) \<Rightarrow> u16 \<Rightarrow> (string, bool) result" where
  "signed_in_from_status show_status code =
     (if code = 401 then Ok False
      else if \<not> (200 \<le> code \<and> code < 300) then Err (''/v2/me returned '' @ show_status code)
      else Ok True)"

definition username_from_me :: "(string \<Rightarrow> json option) \<Rightarrow> (u16 \<Rightarrow> string) \<Rightarrow> u16 \<Rightarrow> string \<Rightarrow> (string, string) result" where
  "username_from_me from_str show_status code body =
     (if \<not> (200 \<le> code \<and> code < 300) then Err (''/v2/me returned '' @ show_status code)
      else case from_str body of
        None \<Rightarrow> Err ''parsing /v2/me''
      | Some v \<Rightarrow>
          let found = (case jpointer v [''data'', ''slug''] of Some w \<Rightarrow> Some w | None \<Rightarrow> jpointer v [''data'', ''ingameName''])
          in ok_or (Option.bind found as_str) ''/v2/me response has no data.slug or data.ingameName'')"

section \<open>A saved login opens with its passphrase and no other\<close>

lemma kdf_json_back [simp]: "kdf_of_json (kdf_json k) = Some k" "\<not> is_null (kdf_json k)"
  by (simp_all add: kdf_of_json_def kdf_json_def members_def req_field_def fields_once_def)

lemma cipher_json_back [simp]: "cipher_of_json (cipher_json p) = Some p" "\<not> is_null (cipher_json p)"
  by (simp_all add: cipher_of_json_def cipher_json_def members_def req_field_def fields_once_def)

lemma encrypted_json_back: "encrypted_of_json (encrypted_json e) = Some e"
  by (simp add: encrypted_of_json_def encrypted_json_def members_def req_field_def fields_once_def)

lemma encrypt_jwt_Ok:
  "encrypt_jwt c (Ok (salt, iv)) now jwt passphrase platform = Ok blob \<longleftrightarrow>
     (\<exists>key ct. jc_pbkdf2 c passphrase salt JWT_KDF_ITERATIONS = Ok key \<and> jc_encrypt c key iv jwt = Ok ct
       \<and> blob = \<lparr> ej_format = JWT_FORMAT, ej_created = now, ej_platform = platform,
            ej_kdf = \<lparr> kd_name = ''PBKDF2'', kd_hash = ''SHA-256'', kd_iterations = JWT_KDF_ITERATIONS,
              kd_salt = jc_b64 c salt \<rparr>,
            ej_cipher = \<lparr> cp_name = ''AES-GCM'', cp_iv = jc_b64 c iv \<rparr>, ej_ciphertext = jc_b64 c ct \<rparr>)"
  by (auto simp: encrypt_jwt_def rbind_def split: sum.splits)

lemma persist_login_Ok:
  "persist_login to_vec fault blob content = (content', Ok ()) \<longleftrightarrow>
     fault = Persisted \<and> content' = Some (to_vec (encrypted_json blob))"
  by (auto simp: persist_login_def split: persist_fault.splits)

text \<open>C18: A sign-in that was saved opens again: with the passphrase it was saved under the file gives back the same
  token and platform, the key it was sealed with and the salt it was written with. For any other attempt the answer is what
  AES-GCM says of the sealed token under the key the attempt derives: a bad passphrase unless it opens there. It relies on
  base64 and the JSON text reading back, and on AES-GCM opening what it sealed under the same key and nonce.\<close>

theorem saved_login_opens_again:
  assumes "\<And>x. jc_unb64 c (jc_b64 c x) = Some x" and "\<And>v. from_slice (to_vec v) = Some v"
    and "\<And>k iv p ct. jc_encrypt c k iv p = Ok ct \<Longrightarrow> jc_decrypt c k iv ct = Some p"
    and "utf8_string jwt = Some jwt" and "length iv = JWT_IV_BYTES"
    and "encrypt_jwt c (Ok (salt, iv)) now jwt passphrase platform = Ok blob"
    and "persist_login to_vec fault blob old = (content, Ok ())"
  shows "\<exists>key ct. jc_pbkdf2 c passphrase salt 600000 = Ok key \<and> jc_encrypt c key iv jwt = Ok ct
    \<and> decrypt_from_disk c from_slice None content passphrase = Ok (jwt, platform, key, jc_b64 c salt)
    \<and> (\<forall>attempt. decrypt_from_disk c from_slice None content attempt =
        (case jc_pbkdf2 c attempt salt 600000 of
           Err e \<Rightarrow> Err bad_passphrase
         | Ok k \<Rightarrow> (case Option.bind (jc_decrypt c k iv ct) utf8_string of
             None \<Rightarrow> Err bad_passphrase | Some j \<Rightarrow> Ok (j, platform, k, jc_b64 c salt))))"
proof -
  have range: "JWT_KDF_ITERATIONS \<le> MAX_JWT_KDF_ITERATIONS" by (simp add: JWT_KDF_ITERATIONS_def MAX_JWT_KDF_ITERATIONS_def)
  obtain key ct where key: "jc_pbkdf2 c passphrase salt JWT_KDF_ITERATIONS = Ok key" and ct: "jc_encrypt c key iv jwt = Ok ct"
    and blob: "blob = \<lparr> ej_format = JWT_FORMAT, ej_created = now, ej_platform = platform,
        ej_kdf = \<lparr> kd_name = ''PBKDF2'', kd_hash = ''SHA-256'', kd_iterations = JWT_KDF_ITERATIONS, kd_salt = jc_b64 c salt \<rparr>,
        ej_cipher = \<lparr> cp_name = ''AES-GCM'', cp_iv = jc_b64 c iv \<rparr>, ej_ciphertext = jc_b64 c ct \<rparr>"
    using assms(6) by (auto simp: encrypt_jwt_Ok)
  have "content = Some (to_vec (encrypted_json blob))" using assms(7) by (simp add: persist_login_Ok)
  then have read: "read_blob from_slice None content = Ok blob"
    by (simp add: read_blob_def assms(2) encrypted_json_back)
  have derived: "derive_jwt_key c blob attempt = (case jc_pbkdf2 c attempt salt JWT_KDF_ITERATIONS of
      Err e \<Rightarrow> Err (''PBKDF2 failed: '' @ e) | Ok k \<Rightarrow> Ok k)" for attempt
    by (simp add: derive_jwt_key_def blob range assms(1) ok_or_def rbind_def)
  have opened: "(case decrypt_jwt_with_key c blob k of Err e \<Rightarrow> Err bad_passphrase | Ok j \<Rightarrow> Ok j)
      = (case Option.bind (jc_decrypt c k iv ct) utf8_string of None \<Rightarrow> Err bad_passphrase | Some j \<Rightarrow> Ok j)" for k
    by (simp add: decrypt_jwt_with_key_def blob assms(1,5) ok_or_def rbind_def split: option.splits)
  have parts: "ej_platform blob = platform" "kd_salt (ej_kdf blob) = jc_b64 c salt" by (simp_all add: blob)
  have all: "decrypt_from_disk c from_slice None content attempt =
      (case jc_pbkdf2 c attempt salt JWT_KDF_ITERATIONS of
         Err e \<Rightarrow> Err bad_passphrase
       | Ok k \<Rightarrow> (case Option.bind (jc_decrypt c k iv ct) utf8_string of
           None \<Rightarrow> Err bad_passphrase | Some j \<Rightarrow> Ok (j, platform, k, jc_b64 c salt)))" for attempt
    by (cases "jc_pbkdf2 c attempt salt JWT_KDF_ITERATIONS")
      (simp_all add: decrypt_from_disk_def read rbind_def derived opened parts split: option.splits)
  have "decrypt_from_disk c from_slice None content passphrase = Ok (jwt, platform, key, jc_b64 c salt)"
    unfolding all key by (simp add: assms(3) [OF ct] assms(4))
  with all key ct show ?thesis unfolding JWT_KDF_ITERATIONS_def by blast
qed

text \<open>A ciphertext that says how long its key is, and the key, before the plaintext.\<close>

definition demo_seal :: "string \<Rightarrow> string" where
  "demo_seal k = replicate (length k) (CHR ''1'') @ CHR ''0'' # k"

definition demo_unseal :: "string \<Rightarrow> string \<Rightarrow> string option" where
  "demo_unseal k ct =
     (let n = length (takeWhile (\<lambda>ch. ch = CHR ''1'') ct); body = drop (Suc n) ct
      in if take n body = k then Some (drop n body) else None)"

definition demo_crypto :: jwt_crypto where
  "demo_crypto = \<lparr> jc_pbkdf2 = (\<lambda>p s i. Ok p), jc_encrypt = (\<lambda>k iv p. Ok (demo_seal k @ p)),
     jc_decrypt = (\<lambda>k iv ct. demo_unseal k ct), jc_b64 = (\<lambda>x. x), jc_unb64 = Some \<rparr>"

lemma demo_unseal_seal: "demo_unseal k' (demo_seal k @ p) = (if k' = k then Some p else None)"
proof -
  have "takeWhile (\<lambda>ch. ch = CHR ''1'') (replicate n CHR ''1'' @ CHR ''0'' # xs) = replicate n CHR ''1''" for n xs
    by (induction n) simp_all
  then show ?thesis by (auto simp: demo_unseal_def demo_seal_def Let_def)
qed

theorem saved_login_opens_again_witness:
  "\<exists>blob. decrypt_from_disk demo_crypto unary_parse None (Some (unary_print (encrypted_json blob))) ''open sesame''
     = Ok (''a.b.c'', ''pc'', ''open sesame'', ''salt'')
   \<and> decrypt_from_disk demo_crypto unary_parse None (Some (unary_print (encrypted_json blob))) ''wrong''
     = Err bad_passphrase"
proof -
  obtain blob where blob: "encrypt_jwt demo_crypto (Ok (''salt'', ''twelve bytes'')) ''now'' ''a.b.c'' ''open sesame'' ''pc'' = Ok blob"
    by (simp add: encrypt_jwt_Ok demo_crypto_def)
  have laws: "jc_unb64 demo_crypto (jc_b64 demo_crypto x) = Some x"
    "jc_encrypt demo_crypto k iv p = Ok ct \<Longrightarrow> jc_decrypt demo_crypto k iv ct = Some p" for x k iv p ct
    by (auto simp: demo_crypto_def demo_unseal_seal)
  have "utf8_string ''a.b.c'' = Some ''a.b.c''" by code_simp
  moreover have "length ''twelve bytes'' = JWT_IV_BYTES" by (simp add: JWT_IV_BYTES_def)
  moreover have "persist_login unary_print Persisted blob None = (Some (unary_print (encrypted_json blob)), Ok ())"
    by (simp add: persist_login_Ok)
  ultimately obtain key ct where
      "jc_pbkdf2 demo_crypto ''open sesame'' ''salt'' 600000 = Ok key" "jc_encrypt demo_crypto key ''twelve bytes'' ''a.b.c'' = Ok ct"
    and opens: "decrypt_from_disk demo_crypto unary_parse None (Some (unary_print (encrypted_json blob))) ''open sesame''
        = Ok (''a.b.c'', ''pc'', key, jc_b64 demo_crypto ''salt'')"
    and all: "decrypt_from_disk demo_crypto unary_parse None (Some (unary_print (encrypted_json blob))) attempt =
        (case jc_pbkdf2 demo_crypto attempt ''salt'' 600000 of
           Err e \<Rightarrow> Err bad_passphrase
         | Ok k \<Rightarrow> (case Option.bind (jc_decrypt demo_crypto k ''twelve bytes'' ct) utf8_string of
             None \<Rightarrow> Err bad_passphrase | Some j \<Rightarrow> Ok (j, ''pc'', k, jc_b64 demo_crypto ''salt'')))" for attempt
    using saved_login_opens_again [of demo_crypto unary_parse unary_print, OF laws(1) unary_parse_print laws(2) _ _ blob] by blast
  moreover have "key = ''open sesame''" "ct = demo_seal ''open sesame'' @ ''a.b.c''"
    using calculation(1,2) by (auto simp: demo_crypto_def)
  ultimately have "decrypt_from_disk demo_crypto unary_parse None (Some (unary_print (encrypted_json blob))) ''wrong'' = Err bad_passphrase"
    by (simp add: demo_crypto_def demo_unseal_seal)
  with opens \<open>key = _\<close> show ?thesis by (intro exI [of _ blob]) (simp add: demo_crypto_def)
qed

end
