(* ===== verification/Wfm_Session.thy ===== *)
theory Wfm_Session
  imports Credential Catalog Governor "HOL-Library.AList"
begin

text \<open>
  The desktop session (\<open>services/wfm/session.rs\<close>): the slot with the decrypted token and its generation, the login
  file, the keyring entry, the flag that lets one order change run, and the requests of listing batches. An
  operation that takes a lock more than once, or does input and output between, is a task with one constructor per
  stage; \<open>work\<close> runs one stage. \<open>Session_System\<close> interleaves the tasks of all threads.
\<close>

section \<open>Requests of listing batches\<close>

text \<open>A token is the number of its \<open>AtomicBool\<close>; \<open>pq_cancelled\<close> are those that have been set.\<close>

record plan_requests =
  pq_pending :: "(string \<times> nat \<times> bool) list"
  pq_completed :: "string list"
  pq_tokens :: nat
  pq_cancelled :: "nat set"

definition no_requests :: plan_requests where
  "no_requests = \<lparr> pq_pending = [], pq_completed = [], pq_tokens = 0, pq_cancelled = {} \<rparr>"

definition request_id_char :: "char \<Rightarrow> bool" where
  "request_id_char ch \<longleftrightarrow> (let n = of_char ch :: nat in
     48 \<le> n \<and> n \<le> 57 \<or> 65 \<le> n \<and> n \<le> 90 \<or> 97 \<le> n \<and> n \<le> 122 \<or> n = 45 \<or> n = 95)"

definition request_id_ok :: "string \<Rightarrow> bool" where
  "request_id_ok i \<longleftrightarrow> i \<noteq> [] \<and> length i \<le> 64 \<and> list_all request_id_char i"

definition request_token :: "string \<Rightarrow> bool \<Rightarrow> plan_requests \<Rightarrow> (cmd_error, nat option) result \<times> plan_requests" where
  "request_token i claim q =
     (if \<not> request_id_ok i then (Err (CmdError ''wfm'' ''Invalid listing request identity.''), q)
      else if i \<in> set (pq_completed q) then (Ok None, q)
      else if MAX_QUEUE \<le> length (pq_pending q) \<and> map_of (pq_pending q) i = None
      then (Err (CmdError ''busy'' ''Too many listing requests are waiting.''), q)
      else let (token, claimed) = unwrap_or (map_of (pq_pending q) i) (pq_tokens q, False);
               q = (if map_of (pq_pending q) i = None
                    then q\<lparr> pq_pending := (i, token, False) # pq_pending q, pq_tokens := Suc (pq_tokens q) \<rparr> else q)
           in if claim \<and> claimed then (Err (CmdError ''busy'' ''This listing request is already running.''), q)
              else (Ok (Some token),
                    if claim then q\<lparr> pq_pending := AList.update i (token, True) (pq_pending q) \<rparr> else q))"

definition claim_plan_request :: "string \<Rightarrow> plan_requests \<Rightarrow> (cmd_error, nat) result \<times> plan_requests" where
  "claim_plan_request i q =
     (let (r, q) = request_token i True q
      in (rbind r (\<lambda>token. ok_or token (CmdError ''busy'' ''This listing request already finished.'')), q))"

definition cancel_request :: "string \<Rightarrow> plan_requests \<Rightarrow> (cmd_error, unit) result \<times> plan_requests" where
  "cancel_request i q =
     (let (r, q) = request_token i False q
      in (case r of
            Err e \<Rightarrow> (Err e, q)
          | Ok None \<Rightarrow> (Ok (), q)
          | Ok (Some token) \<Rightarrow> (Ok (), q\<lparr> pq_cancelled := insert token (pq_cancelled q) \<rparr>)))"

text \<open>The end of a claimed request's scope.\<close>

definition drop_request :: "string \<Rightarrow> plan_requests \<Rightarrow> plan_requests" where
  "drop_request i q =
     q\<lparr> pq_pending := AList.delete i (pq_pending q),
       pq_completed := (if MAX_QUEUE \<le> length (pq_completed q) then tl (pq_completed q) else pq_completed q) @ [i] \<rparr>"

definition request_cancelled :: "nat \<Rightarrow> plan_requests \<Rightarrow> bool" where
  "request_cancelled token q \<longleftrightarrow> token \<in> pq_cancelled q"

section \<open>The session\<close>

record sess =
  ss_generation :: u64
  ss_unlocked :: "unlocked option"
  ss_plan_running :: bool
  ss_credential :: "nat option"       \<comment> \<open>who holds \<open>credential_file\<close>\<close>
  ss_jwt_file :: "string option"
  ss_pending_file :: "string option"
  ss_keyring :: "string option"

record session_env =
  se_crypto :: jwt_crypto
  se_from_slice :: "string \<Rightarrow> json option"
  se_to_vec :: "json \<Rightarrow> string"
  se_use_keyring :: bool

definition session_changed :: cmd_error where
  "session_changed = CmdError ''session_changed'' ''The session changed while signing in. Sign in again.''"

definition is_unlocked :: "sess \<Rightarrow> bool" where
  "is_unlocked s \<longleftrightarrow> ss_unlocked s \<noteq> None"

definition auth_status :: "sess \<Rightarrow> bool \<times> bool" where
  "auth_status s = (ss_jwt_file s \<noteq> None, is_unlocked s)"

definition install_unlocked :: "u64 \<Rightarrow> unlocked \<Rightarrow> sess \<Rightarrow> (cmd_error, unit) result \<times> sess" where
  "install_unlocked generation u s =
     (if ss_generation s \<noteq> generation then (Err session_changed, s)
      else (Ok (), s\<lparr> ss_unlocked := Some u \<rparr>))"

definition require_unlocked :: "sess \<Rightarrow> (cmd_error, unlocked) result" where
  "require_unlocked s =
     (case ss_unlocked s of
        Some u \<Rightarrow> Ok u
      | None \<Rightarrow> if ss_jwt_file s \<noteq> None then Err needs_unlock else Err needs_login)"

definition begin_plan :: "sess \<Rightarrow> bool \<times> sess" where
  "begin_plan s = (\<not> ss_plan_running s, s\<lparr> ss_plan_running := True \<rparr>)"

definition end_plan :: "sess \<Rightarrow> sess" where
  "end_plan s = s\<lparr> ss_plan_running := False \<rparr>"

subsection \<open>The keyring\<close>

datatype keyring_intent = Remember string | Forget

text \<open>\<open>trim\<close> of a base64 text; a service that does not answer reads as no entry.\<close>

definition trim_ascii :: "string \<Rightarrow> string" where
  "trim_ascii s = (let blank = (\<lambda>ch. is_whitespace (of_char ch))
     in rev (dropWhile blank (rev (dropWhile blank s))))"

definition load_key :: "jwt_crypto \<Rightarrow> bool \<Rightarrow> string option \<Rightarrow> string option" where
  "load_key c answers entry =
     (if \<not> answers then None
      else do { encoded \<leftarrow> entry; key \<leftarrow> jc_unb64 c (trim_ascii encoded); if length key = 32 then Some key else None })"

definition change_keyring :: "jwt_crypto \<Rightarrow> bool \<Rightarrow> keyring_intent \<Rightarrow> string option \<Rightarrow> string option" where
  "change_keyring c answers intent entry =
     (if \<not> answers then entry
      else case intent of Remember key \<Rightarrow> Some (jc_b64 c key) | Forget \<Rightarrow> None)"

subsection \<open>Logging out\<close>

text \<open>
  The advance of the generation and the removal of the session are one critical section; the credential section
  ends with it, or with the error.
\<close>

definition logout_advance :: "sess \<Rightarrow> (cmd_error, u64) result \<times> sess" where
  "logout_advance s =
     (case checked_add (ss_generation s) 1 of
        None \<Rightarrow> (Err (internal_error ''Session generation exhausted; restart the application.''),
                 s\<lparr> ss_credential := None \<rparr>)
      | Some g \<Rightarrow> (Ok g, s\<lparr> ss_generation := g, ss_unlocked := None, ss_credential := None \<rparr>))"

definition remove_file :: "string option \<Rightarrow> string option \<Rightarrow> (string, string option) result" where
  "remove_file remove_error content =
     (case content of None \<Rightarrow> Ok None
      | Some bytes \<Rightarrow> (case remove_error of Some e \<Rightarrow> Err e | None \<Rightarrow> Ok None))"

section \<open>Tasks\<close>

datatype task =
    UnlockRead string bool u64
  | UnlockWarm bool u64 string string string string            \<comment> \<open>token, platform, key, salt\<close>
  | UnlockInstall bool u64 unlocked string string
  | UnlockReread bool u64 string string
  | SilentStart
  | SilentGeneration
  | SilentExists u64
  | SilentLoad u64
  | SilentRead u64 string
  | SilentRecheck u64 string
  | SilentWarm u64 string string
  | SilentInstall u64 unlocked
  | LoginCapture u64 string string bool                        \<comment> \<open>passphrase, platform, remember\<close>
  | LoginEncrypt u64 string string string bool                 \<comment> \<open>token, passphrase, platform, remember\<close>
  | LoginLock u64 encrypted_jwt string string string bool
  | LoginCheck u64 encrypted_jwt string string string bool
  | LoginWrite u64 encrypted_jwt string string string bool
  | LoginWarm u64 encrypted_jwt string string string bool
  | LoginInstall u64 unlocked encrypted_jwt string bool
  | LogoutBegin
  | LogoutDiscard
  | LogoutLock
  | LogoutRemove
  | LogoutAdvance
  | ChangeBegin bool                                           \<comment> \<open>whether it needs the account\<close>
  | ChangeAccount
  | Changing "unlocked option"
  | KeyringCheck bool u64 keyring_intent bool                  \<comment> \<open>the plan guard is held; what to report\<close>
  | KeyringAct bool keyring_intent bool

datatype ending = Returned "(cmd_error, unit) result" | Unlocked_silently bool

text \<open>
  What happened, in order. \<open>Asked\<close> is a sign-in's capture of the generation, \<open>Saved\<close> its login file, \<open>Published\<close> a
  session that any of the installers put in the slot.
\<close>

datatype sess_event =
    Asked nat
  | Saved nat
  | Published nat unlocked
  | Logged_out nat
  | Reads_cleared nat
  | Refused_change nat
  | Over nat ending

text \<open>What the world answers in one stage.\<close>

record answer =
  an_error :: "string option"                        \<comment> \<open>of a file operation\<close>
  an_fault :: persist_fault
  an_captured :: "(cmd_error, string) result"        \<comment> \<open>the sign-in window's token\<close>
  an_random :: "(string, string \<times> string) result"
  an_now :: string
  an_warm :: "(cmd_error, string \<times> catalog) result"  \<comment> \<open>username and catalogue\<close>
  an_keyring :: bool                                 \<comment> \<open>the keyring service works\<close>
  an_journal :: "string option option"               \<comment> \<open>what a running change makes of the saved batch\<close>

definition warm_session :: "answer \<Rightarrow> string \<Rightarrow> string \<Rightarrow> (cmd_error, unlocked) result" where
  "warm_session a jwt platform =
     rbind (an_warm a) (\<lambda>(username, items). Ok \<lparr> un_jwt = jwt, un_username = username, un_platform = platform,
       un_catalog = items, un_id_to_item = index_item_meta items \<rparr>)"

datatype turn = Next task | End ending

type_synonym stage = "turn \<times> sess \<times> sess_event list"

definition failing :: "cmd_error \<Rightarrow> sess \<Rightarrow> stage" where
  "failing e s = (End (Returned (Err e)), s, [])"

definition silent_miss :: "sess \<Rightarrow> stage" where
  "silent_miss s = (End (Unlocked_silently False), s, [])"

subsection \<open>Unlocking with a passphrase\<close>

definition unlock_read :: "session_env \<Rightarrow> answer \<Rightarrow> string \<Rightarrow> bool \<Rightarrow> u64 \<Rightarrow> sess \<Rightarrow> stage" where
  "unlock_read env a passphrase remember g s =
     (case decrypt_from_disk (se_crypto env) (se_from_slice env) (an_error a) (ss_jwt_file s) passphrase of
        Err e \<Rightarrow> failing e s
      | Ok (jwt, platform, key, salt) \<Rightarrow> (Next (UnlockWarm remember g jwt platform key salt), s, []))"

definition unlock_install :: "nat \<Rightarrow> bool \<Rightarrow> u64 \<Rightarrow> unlocked \<Rightarrow> string \<Rightarrow> string \<Rightarrow> sess \<Rightarrow> stage" where
  "unlock_install t remember g u key salt s =
     (case install_unlocked g u s of
        (Err e, s) \<Rightarrow> failing e s
      | (Ok _, s) \<Rightarrow> (Next (UnlockReread remember g key salt), s, [Published t u]))"

text \<open>The keyring is changed only while the file still has the salt this unlock opened.\<close>

definition unlock_reread :: "session_env \<Rightarrow> answer \<Rightarrow> bool \<Rightarrow> u64 \<Rightarrow> string \<Rightarrow> string \<Rightarrow> sess \<Rightarrow> stage" where
  "unlock_reread env a remember g key salt s =
     (case read_blob (se_from_slice env) (an_error a) (ss_jwt_file s) of
        Ok blob \<Rightarrow> if kd_salt (ej_kdf blob) = salt
          then (Next (KeyringCheck False g (if remember then Remember key else Forget) True), s, [])
          else (End (Returned (Ok ())), s, [])
      | Err e \<Rightarrow> (End (Returned (Ok ())), s, []))"

subsection \<open>Unlocking with the keyring\<close>

definition silent_read :: "session_env \<Rightarrow> answer \<Rightarrow> u64 \<Rightarrow> string \<Rightarrow> sess \<Rightarrow> stage" where
  "silent_read env a g key s =
     (case read_blob (se_from_slice env) (an_error a) (ss_jwt_file s) of
        Err e \<Rightarrow> silent_miss s
      | Ok blob \<Rightarrow> (case decrypt_jwt_with_key (se_crypto env) blob key of
          Err e \<Rightarrow> (Next (SilentRecheck g key), s, [])
        | Ok jwt \<Rightarrow> (Next (SilentWarm g jwt (ej_platform blob)), s, [])))"

definition silent_recheck :: "session_env \<Rightarrow> answer \<Rightarrow> u64 \<Rightarrow> string \<Rightarrow> sess \<Rightarrow> stage" where
  "silent_recheck env a g key s =
     (if load_key (se_crypto env) (an_keyring a) (ss_keyring s) = Some key
      then (Next (KeyringCheck False g Forget False), s, []) else silent_miss s)"

definition silent_install :: "nat \<Rightarrow> u64 \<Rightarrow> unlocked \<Rightarrow> sess \<Rightarrow> stage" where
  "silent_install t g u s =
     (case install_unlocked g u s of
        (Err e, s) \<Rightarrow> silent_miss s
      | (Ok _, s) \<Rightarrow> (End (Unlocked_silently True), s, [Published t u]))"

subsection \<open>Signing in\<close>

definition validate_login :: "string \<Rightarrow> string \<Rightarrow> (cmd_error, unit) result" where
  "validate_login passphrase platform =
     (case validate_platform platform of
        Err e \<Rightarrow> Err (internal_error e)
      | Ok _ \<Rightarrow> (case validate_passphrase passphrase of Err e \<Rightarrow> Err (internal_error e) | Ok _ \<Rightarrow> Ok ()))"

definition login_encrypt :: "session_env \<Rightarrow> answer \<Rightarrow> u64 \<Rightarrow> string \<Rightarrow> string \<Rightarrow> string \<Rightarrow> bool \<Rightarrow> sess \<Rightarrow> stage" where
  "login_encrypt env a g jwt passphrase platform remember s =
     (case rbind (validate_login passphrase platform) (\<lambda>_.
         case encrypt_jwt (se_crypto env) (an_random a) (an_now a) jwt passphrase platform of
           Err e \<Rightarrow> Err (internal_error e) | Ok blob \<Rightarrow> Ok blob) of
        Err e \<Rightarrow> failing e s
      | Ok blob \<Rightarrow> (Next (LoginLock g blob jwt passphrase platform remember), s, []))"

definition login_check :: "u64 \<Rightarrow> encrypted_jwt \<Rightarrow> string \<Rightarrow> string \<Rightarrow> string \<Rightarrow> bool \<Rightarrow> sess \<Rightarrow> stage" where
  "login_check g blob jwt passphrase platform remember s =
     (if ss_generation s \<noteq> g then failing session_changed (s\<lparr> ss_credential := None \<rparr>)
      else (Next (LoginWrite g blob jwt passphrase platform remember), s, []))"

definition login_write :: "session_env \<Rightarrow> answer \<Rightarrow> nat \<Rightarrow> u64 \<Rightarrow> encrypted_jwt \<Rightarrow> string \<Rightarrow> string \<Rightarrow> string \<Rightarrow> bool
    \<Rightarrow> sess \<Rightarrow> stage" where
  "login_write env a t g blob jwt passphrase platform remember s =
     (let (content, r) = persist_login (se_to_vec env) (an_fault a) blob (ss_jwt_file s);
          s = s\<lparr> ss_jwt_file := content, ss_credential := None \<rparr>
      in (case r of
            Err e \<Rightarrow> failing e s
          | Ok _ \<Rightarrow> (Next (LoginWarm g blob jwt passphrase platform remember), s, [Saved t])))"

definition login_install :: "session_env \<Rightarrow> nat \<Rightarrow> u64 \<Rightarrow> unlocked \<Rightarrow> encrypted_jwt \<Rightarrow> string \<Rightarrow> bool \<Rightarrow> sess \<Rightarrow> stage" where
  "login_install env t g u blob passphrase remember s =
     (case install_unlocked g u s of
        (Err e, s) \<Rightarrow> failing e s
      | (Ok _, s) \<Rightarrow>
          (if \<not> remember then (Next (KeyringCheck False g Forget True), s, [Published t u])
           else case derive_jwt_key (se_crypto env) blob passphrase of
             Ok key \<Rightarrow> (Next (KeyringCheck False g (Remember key) True), s, [Published t u])
           | Err e \<Rightarrow> (End (Returned (Ok ())), s, [Published t u])))"

subsection \<open>The keyring, logging out, changing orders\<close>

definition report :: "bool \<Rightarrow> bool \<Rightarrow> sess \<Rightarrow> stage" where
  "report held told s =
     (End (if told then Returned (Ok ()) else Unlocked_silently False), if held then end_plan s else s, [])"

definition keyring_check :: "session_env \<Rightarrow> bool \<Rightarrow> u64 \<Rightarrow> keyring_intent \<Rightarrow> bool \<Rightarrow> sess \<Rightarrow> stage" where
  "keyring_check env held g intent told s =
     (if \<not> se_use_keyring env then report held told s
      else if ss_generation s \<noteq> g then report held told s
      else (Next (KeyringAct held intent told), s, []))"

definition keyring_act :: "session_env \<Rightarrow> answer \<Rightarrow> bool \<Rightarrow> keyring_intent \<Rightarrow> bool \<Rightarrow> sess \<Rightarrow> stage" where
  "keyring_act env a held intent told s =
     report held told (s\<lparr> ss_keyring := change_keyring (se_crypto env) (an_keyring a) intent (ss_keyring s) \<rparr>)"

definition logout_begin :: "sess \<Rightarrow> stage" where
  "logout_begin s =
     (case begin_plan s of
        (False, _) \<Rightarrow> failing (CmdError ''busy'' ''Wait for the active listing batch to finish before logging out.'') s
      | (True, s) \<Rightarrow> (Next LogoutDiscard, s, []))"

definition logout_discard :: "answer \<Rightarrow> sess \<Rightarrow> stage" where
  "logout_discard a s =
     (case remove_file (an_error a) (ss_pending_file s) of
        Err e \<Rightarrow> failing (internal_error (''could not discard the interrupted listing batch: '' @ e)) (end_plan s)
      | Ok content \<Rightarrow> (Next LogoutLock, s\<lparr> ss_pending_file := content \<rparr>, []))"

definition logout_remove :: "answer \<Rightarrow> nat \<Rightarrow> sess \<Rightarrow> stage" where
  "logout_remove a t s =
     (case remove_file (an_error a) (ss_jwt_file s) of
        Err e \<Rightarrow> failing (internal_error (''could not remove the saved warframe.market login: '' @ e))
          (end_plan (s\<lparr> ss_credential := None \<rparr>))
      | Ok content \<Rightarrow> (Next LogoutAdvance, s\<lparr> ss_jwt_file := content \<rparr>, [Reads_cleared t]))"

definition logout_finish :: "nat \<Rightarrow> sess \<Rightarrow> stage" where
  "logout_finish t s =
     (case logout_advance s of
        (Err e, s) \<Rightarrow> failing e (end_plan s)
      | (Ok g, s) \<Rightarrow> (Next (KeyringCheck True g Forget True), s, [Logged_out t]))"

definition change_begin :: "nat \<Rightarrow> bool \<Rightarrow> sess \<Rightarrow> stage" where
  "change_begin t account s =
     (case begin_plan s of
        (False, _) \<Rightarrow> (End (Returned (Err (CmdError ''busy'' ''Another order change is already running.''))), s, [Refused_change t])
      | (True, s) \<Rightarrow> (Next (if account then ChangeAccount else Changing None), s, []))"

definition change_account :: "sess \<Rightarrow> stage" where
  "change_account s =
     (case require_unlocked s of
        Err e \<Rightarrow> failing e (end_plan s)
      | Ok u \<Rightarrow> (Next (Changing (Some u)), s, []))"

definition changing :: "answer \<Rightarrow> unlocked option \<Rightarrow> sess \<Rightarrow> stage" where
  "changing a u s =
     (case an_journal a of
        Some content \<Rightarrow> (Next (Changing u), s\<lparr> ss_pending_file := content \<rparr>, [])
      | None \<Rightarrow> (End (Returned (Ok ())), end_plan s, []))"

definition take_credential :: "nat \<Rightarrow> task \<Rightarrow> sess \<Rightarrow> stage option" where
  "take_credential t k s =
     (if ss_credential s = None then Some (Next k, s\<lparr> ss_credential := Some t \<rparr>, []) else None)"

subsection \<open>One stage of a task\<close>

text \<open>No result: the task waits for \<open>credential_file\<close>.\<close>

fun work :: "session_env \<Rightarrow> answer \<Rightarrow> nat \<Rightarrow> task \<Rightarrow> sess \<Rightarrow> stage option" where
  "work env a t (UnlockRead passphrase remember g) s = Some (unlock_read env a passphrase remember g s)"
| "work env a t (UnlockWarm remember g jwt platform key salt) s =
     Some (case warm_session a jwt platform of
       Err e \<Rightarrow> failing e s
     | Ok u \<Rightarrow> (Next (UnlockInstall remember g u key salt), s, [Reads_cleared t]))"
| "work env a t (UnlockInstall remember g u key salt) s = Some (unlock_install t remember g u key salt s)"
| "work env a t (UnlockReread remember g key salt) s = Some (unlock_reread env a remember g key salt s)"
| "work env a t SilentStart s =
     Some (if is_unlocked s then (End (Unlocked_silently True), s, []) else (Next SilentGeneration, s, []))"
| "work env a t SilentGeneration s = Some (Next (SilentExists (ss_generation s)), s, [])"
| "work env a t (SilentExists g) s =
     Some (if \<not> se_use_keyring env \<or> ss_jwt_file s = None then silent_miss s else (Next (SilentLoad g), s, []))"
| "work env a t (SilentLoad g) s =
     Some (case load_key (se_crypto env) (an_keyring a) (ss_keyring s) of
       None \<Rightarrow> silent_miss s | Some key \<Rightarrow> (Next (SilentRead g key), s, []))"
| "work env a t (SilentRead g key) s = Some (silent_read env a g key s)"
| "work env a t (SilentRecheck g key) s = Some (silent_recheck env a g key s)"
| "work env a t (SilentWarm g jwt platform) s =
     Some (case warm_session a jwt platform of
       Err e \<Rightarrow> silent_miss s
     | Ok u \<Rightarrow> (Next (SilentInstall g u), s, [Reads_cleared t]))"
| "work env a t (SilentInstall g u) s = Some (silent_install t g u s)"
| "work env a t (LoginCapture g passphrase platform remember) s =
     Some (case an_captured a of
       Err e \<Rightarrow> failing e s
     | Ok jwt \<Rightarrow> (Next (LoginEncrypt g jwt passphrase platform remember), s, []))"
| "work env a t (LoginEncrypt g jwt passphrase platform remember) s =
     Some (login_encrypt env a g jwt passphrase platform remember s)"
| "work env a t (LoginLock g blob jwt passphrase platform remember) s =
     take_credential t (LoginCheck g blob jwt passphrase platform remember) s"
| "work env a t (LoginCheck g blob jwt passphrase platform remember) s =
     Some (login_check g blob jwt passphrase platform remember s)"
| "work env a t (LoginWrite g blob jwt passphrase platform remember) s =
     Some (login_write env a t g blob jwt passphrase platform remember s)"
| "work env a t (LoginWarm g blob jwt passphrase platform remember) s =
     Some (case warm_session a jwt platform of
       Err e \<Rightarrow> failing e s
     | Ok u \<Rightarrow> (Next (LoginInstall g u blob passphrase remember), s, [Reads_cleared t]))"
| "work env a t (LoginInstall g u blob passphrase remember) s = Some (login_install env t g u blob passphrase remember s)"
| "work env a t LogoutBegin s = Some (logout_begin s)"
| "work env a t LogoutDiscard s = Some (logout_discard a s)"
| "work env a t LogoutLock s = take_credential t LogoutRemove s"
| "work env a t LogoutRemove s = Some (logout_remove a t s)"
| "work env a t LogoutAdvance s = Some (logout_finish t s)"
| "work env a t (ChangeBegin account) s = Some (change_begin t account s)"
| "work env a t ChangeAccount s = Some (change_account s)"
| "work env a t (Changing u) s = Some (changing a u s)"
| "work env a t (KeyringCheck held g intent told) s = Some (keyring_check env held g intent told s)"
| "work env a t (KeyringAct held intent told) s = Some (keyring_act env a held intent told s)"

end
