(* ===== verification/Session_System.thy ===== *)
theory Session_System
  imports Wfm_Session Transition
begin

text \<open>
  All threads that use the session (\<open>services/wfm/session.rs\<close>, \<open>services/trading/order_mutations.rs\<close>, the commands of
  \<open>commands/auth.rs\<close>): a task starts, or a running one does its next stage. The trace is everything that happened.
\<close>

section \<open>The system\<close>

datatype asked = AskUnlock string bool | AskSilent | AskLogin string string bool | AskLogout | AskChange bool

text \<open>
  How a command begins: an unlock and a sign-in capture the generation first; a sign-in checks the passphrase before
  its window opens.
\<close>

fun begin_task :: "asked \<Rightarrow> nat \<Rightarrow> sess \<Rightarrow> turn \<times> sess_event list" where
  "begin_task (AskUnlock passphrase remember) t s = (Next (UnlockRead passphrase remember (ss_generation s)), [])"
| "begin_task AskSilent t s = (Next SilentStart, [])"
| "begin_task (AskLogin passphrase platform remember) t s =
     (case validate_login passphrase platform of
        Err e \<Rightarrow> (End (Returned (Err e)), [])
      | Ok _ \<Rightarrow> (Next (LoginCapture (ss_generation s) passphrase platform remember), [Asked t]))"
| "begin_task AskLogout t s = (Next LogoutBegin, [])"
| "begin_task (AskChange account) t s = (Next (ChangeBegin account), [])"

record sess_sys =
  sy_sess :: sess
  sy_tasks :: "nat \<Rightarrow> task option"
  sy_trace :: "sess_event list"

datatype sess_action = Begin nat asked | Work nat answer

fun task_after :: "turn \<Rightarrow> task option" where
  "task_after (Next k) = Some k"
| "task_after (End r) = None"

fun over :: "nat \<Rightarrow> turn \<Rightarrow> sess_event list" where
  "over t (Next k) = []"
| "over t (End r) = [Over t r]"

fun sess_act :: "session_env \<Rightarrow> sess_action \<Rightarrow> sess_sys \<Rightarrow> sess_sys option" where
  "sess_act env (Begin t what) y =
     (if sy_tasks y t \<noteq> None then None
      else let (k, evs) = begin_task what t (sy_sess y)
           in Some (y\<lparr> sy_tasks := (sy_tasks y)(t := task_after k), sy_trace := sy_trace y @ evs @ over t k \<rparr>))"
| "sess_act env (Work t a) y =
     (case sy_tasks y t of None \<Rightarrow> None
      | Some k \<Rightarrow> (case work env a t k (sy_sess y) of None \<Rightarrow> None
          | Some (k', s, evs) \<Rightarrow> Some \<lparr> sy_sess = s, sy_tasks = (sy_tasks y)(t := task_after k'),
              sy_trace = sy_trace y @ evs @ over t k' \<rparr>))"

text \<open>A process begins locked; the login file, the saved batch and the keyring may hold what an earlier one left.\<close>

definition fresh_sess :: "string option \<Rightarrow> string option \<Rightarrow> string option \<Rightarrow> sess" where
  "fresh_sess login batch entry = \<lparr> ss_generation = 0, ss_unlocked = None, ss_plan_running = False, ss_credential = None,
     ss_jwt_file = login, ss_pending_file = batch, ss_keyring = entry \<rparr>"

definition sess_init :: "sess_sys \<Rightarrow> bool" where
  "sess_init y \<longleftrightarrow> (\<exists>login batch entry. sy_sess y = fresh_sess login batch entry)
     \<and> sy_tasks y = (\<lambda>_. None) \<and> sy_trace y = []"

definition sess_step :: "session_env \<Rightarrow> sess_sys \<Rightarrow> sess_sys \<Rightarrow> bool" where
  "sess_step env y y' \<longleftrightarrow> (\<exists>act. sess_act env act y = Some y')"

fun sess_run :: "session_env \<Rightarrow> sess_action list \<Rightarrow> sess_sys \<Rightarrow> sess_sys option" where
  "sess_run env [] y = Some y"
| "sess_run env (act # acts) y = Option.bind (sess_act env act y) (sess_run env acts)"

lemma sess_run_reach:
  "reach sess_init (sess_step env) y \<Longrightarrow> sess_run env acts y = Some y' \<Longrightarrow> reach sess_init (sess_step env) y'"
proof (induction acts arbitrary: y)
  case (Cons act acts)
  then obtain z where z: "sess_act env act y = Some z" "sess_run env acts z = Some y'"
    by (auto simp: bind_eq_Some_conv)
  have "sess_step env y z" using z(1) by (auto simp: sess_step_def)
  with Cons.prems(1) have "reach sess_init (sess_step env) z" by (rule reach_step)
  then show ?case using z(2) by (rule Cons.IH)
qed simp

end
