(* ===== verification/Session_Facts.thy ===== *)
theory Session_Facts
  imports Session_System
begin

text \<open>
  What holds in every interleaving of the session's tasks: a logout cannot be undone by work that was running, one
  order change runs at a time and keeps its account, and every call comes to its end.
\<close>

section \<open>What one stage changes\<close>

fun captured :: "task \<Rightarrow> u64 option" where
  "captured (UnlockRead p r g) = Some g"
| "captured (UnlockWarm r g j p k s) = Some g"
| "captured (UnlockInstall r g u k s) = Some g"
| "captured (UnlockReread r g k s) = Some g"
| "captured (SilentExists g) = Some g"
| "captured (SilentLoad g) = Some g"
| "captured (SilentRead g k) = Some g"
| "captured (SilentRecheck g k) = Some g"
| "captured (SilentWarm g j p) = Some g"
| "captured (SilentInstall g u) = Some g"
| "captured (LoginCapture g pw p r) = Some g"
| "captured (LoginEncrypt g j pw p r) = Some g"
| "captured (LoginLock g b j pw p r) = Some g"
| "captured (LoginCheck g b j pw p r) = Some g"
| "captured (LoginWrite g b j pw p r) = Some g"
| "captured (LoginWarm g b j pw p r) = Some g"
| "captured (LoginInstall g u b pw r) = Some g"
| "captured (KeyringCheck h g i t) = Some g"
| "captured _ = None"

text \<open>A task with a token, or one that may still be handed one by the sign-in window.\<close>

fun armed :: "task \<Rightarrow> bool" where
  "armed (UnlockWarm r g j p k s) = True"
| "armed (UnlockInstall r g u k s) = True"
| "armed (SilentWarm g j p) = True"
| "armed (SilentInstall g u) = True"
| "armed (LoginCapture g pw p r) = True"
| "armed (LoginEncrypt g j pw p r) = True"
| "armed (LoginLock g b j pw p r) = True"
| "armed (LoginCheck g b j pw p r) = True"
| "armed (LoginWrite g b j pw p r) = True"
| "armed (LoginWarm g b j pw p r) = True"
| "armed (LoginInstall g u b pw r) = True"
| "armed _ = False"

fun holds_credential :: "task \<Rightarrow> bool" where
  "holds_credential (LoginCheck g b j pw p r) = True"
| "holds_credential (LoginWrite g b j pw p r) = True"
| "holds_credential LogoutRemove = True"
| "holds_credential LogoutAdvance = True"
| "holds_credential _ = False"

fun holds_plan :: "task \<Rightarrow> bool" where
  "holds_plan LogoutDiscard = True"
| "holds_plan LogoutLock = True"
| "holds_plan LogoutRemove = True"
| "holds_plan LogoutAdvance = True"
| "holds_plan ChangeAccount = True"
| "holds_plan (Changing u) = True"
| "holds_plan (KeyringCheck h g i t) = h"
| "holds_plan (KeyringAct h i t) = h"
| "holds_plan _ = False"

fun next_holds :: "(task \<Rightarrow> bool) \<Rightarrow> turn \<Rightarrow> bool" where
  "next_holds P (Next k) = P k"
| "next_holds P (End r) = False"

lemmas stage_defs = unlock_read_def unlock_install_def unlock_reread_def silent_read_def silent_recheck_def
  silent_install_def login_encrypt_def login_check_def login_write_def login_install_def report_def
  keyring_check_def keyring_act_def logout_begin_def logout_discard_def logout_remove_def logout_finish_def
  change_begin_def change_account_def changing_def take_credential_def failing_def silent_miss_def
  install_unlocked_def logout_advance_def begin_plan_def end_plan_def Let_def

lemmas stage_splits = sum.splits option.splits prod.splits bool.splits if_splits

text \<open>The two locks: a stage keeps them, takes them free, or gives back its own.\<close>

lemma work_credential:
  assumes "work env a t k s = Some (k', s', evs)" and "holds_credential k \<Longrightarrow> ss_credential s = Some t"
  shows "ss_credential s' = (if next_holds holds_credential k' then Some t else if holds_credential k then None else ss_credential s)"
  using assms by (cases k) (auto simp: stage_defs split: stage_splits)

lemma work_takes_credential:
  assumes "work env a t k s = Some (k', s', evs)" and "next_holds holds_credential k'" and "\<not> holds_credential k"
  shows "ss_credential s = None"
  using assms by (cases k) (auto simp: stage_defs split: stage_splits)

lemma work_plan:
  assumes "work env a t k s = Some (k', s', evs)" and "holds_plan k \<Longrightarrow> ss_plan_running s"
  shows "ss_plan_running s' = (next_holds holds_plan k' \<or> \<not> holds_plan k \<and> ss_plan_running s)"
  using assms by (cases k) (auto simp: stage_defs split: stage_splits)

lemma work_takes_plan:
  assumes "work env a t k s = Some (k', s', evs)" and "next_holds holds_plan k'" and "\<not> holds_plan k"
  shows "\<not> ss_plan_running s"
  using assms by (cases k) (auto simp: stage_defs split: stage_splits)

text \<open>Only a logout's last stage changes the generation, and it advances it.\<close>

lemma work_generation:
  assumes "work env a t k s = Some (k', s', evs)"
  shows "ss_generation s' = ss_generation s \<and> (\<forall>x. Logged_out x \<notin> set evs)
    \<or> k = LogoutAdvance \<and> unat (ss_generation s') = Suc (unat (ss_generation s)) \<and> ss_unlocked s' = None
      \<and> ss_jwt_file s' = ss_jwt_file s \<and> k' = Next (KeyringCheck True (ss_generation s') Forget True) \<and> evs = [Logged_out t]"
proof (cases "k = LogoutAdvance")
  case True
  then show ?thesis using assms
    by (auto simp: stage_defs checked_add_def unat_word_ariths split: stage_splits)
next
  case False
  then show ?thesis using assms by (cases k) (auto simp: stage_defs split: stage_splits)
qed

lemma work_slot:
  assumes "work env a t k s = Some (k', s', evs)"
  shows "ss_unlocked s' = ss_unlocked s \<or> k = LogoutAdvance \<and> evs = [Logged_out t]
    \<or> ss_unlocked s' \<noteq> None \<and> armed k \<and> captured k = Some (ss_generation s)"
  using assms by (cases k) (auto simp: stage_defs split: stage_splits)

lemma work_file:
  assumes "work env a t k s = Some (k', s', evs)"
  shows "ss_jwt_file s' = ss_jwt_file s \<or> k = LogoutRemove \<and> ss_jwt_file s' = None
    \<or> (\<exists>g b j pw p r. k = LoginWrite g b j pw p r)"
  using assms by (cases k) (auto simp: stage_defs remove_file_def split: stage_splits)

lemma work_captured:
  assumes "work env a t k s = Some (Next n, s', evs)" and "captured n = Some g"
  shows "captured k = Some g \<or> g = ss_generation s'"
  using assms by (cases k) (auto simp: stage_defs split: stage_splits)

lemma work_armed:
  assumes "work env a t k s = Some (Next n, s', evs)" and "armed n"
  shows "armed k \<and> captured n = captured k \<or> ss_jwt_file s \<noteq> None"
  using assms
  by (cases k) (auto simp: stage_defs decrypt_from_disk_def read_blob_def rbind_def split: stage_splits)

lemma work_write:
  assumes "work env a t k s = Some (Next (LoginWrite g b j pw p r), s', evs)"
  shows "g = ss_generation s'"
  using assms by (cases k) (auto simp: stage_defs split: stage_splits)

lemma work_advance:
  assumes "work env a t k s = Some (Next LogoutAdvance, s', evs)"
  shows "ss_jwt_file s' = None"
  using assms by (cases k) (auto simp: stage_defs remove_file_def split: stage_splits)

lemma work_account:
  assumes "work env a t k s = Some (Next (Changing (Some u)), s', evs)"
  shows "k = ChangeAccount \<and> ss_unlocked s = Some u \<or> k = Changing (Some u)"
  using assms by (cases k) (auto simp: stage_defs require_unlocked_def split: stage_splits)

lemma work_batch:
  assumes "work env a t k s = Some (k', s', evs)"
  shows "ss_pending_file s' = ss_pending_file s \<or> holds_plan k"
  using assms by (cases k) (auto simp: stage_defs split: stage_splits)

lemma work_asks_nothing:
  assumes "work env a t k s = Some (k', s', evs)"
  shows "\<forall>x. Asked x \<notin> set evs"
  using assms by (cases k) (auto simp: stage_defs split: stage_splits)

section \<open>What holds in every interleaving\<close>

text \<open>Since the last logout nobody has asked to sign in.\<close>

definition signed_off :: "sess_event list \<Rightarrow> bool" where
  "signed_off tr \<longleftrightarrow> (\<exists>a b t. tr = a @ Logged_out t # b \<and> (\<forall>x. Asked x \<notin> set b))"

lemma signed_off_append:
  assumes "signed_off (tr @ evs)" and "\<forall>x. Logged_out x \<notin> set evs"
  shows "signed_off tr" and "\<forall>x. Asked x \<notin> set evs"
proof -
  obtain a b t where e: "tr @ evs = a @ Logged_out t # b" and b: "\<forall>x. Asked x \<notin> set b"
    using assms(1) by (auto simp: signed_off_def)
  obtain c where c: "tr = a @ Logged_out t # c" "b = c @ evs"
    using e assms(2) by (auto simp: append_eq_append_conv2 append_eq_Cons_conv)
  then have "\<forall>x. Asked x \<notin> set c" and asked: "\<forall>x. Asked x \<notin> set evs" using b by auto
  with c(1) show "signed_off tr" unfolding signed_off_def by blast
  show "\<forall>x. Asked x \<notin> set evs" by (rule asked)
qed

lemma over_events: "Logged_out x \<notin> set (over t k)" "Asked x \<notin> set (over t k)"
  by (cases k; simp)+

definition credential_kept :: "sess_sys \<Rightarrow> bool" where
  "credential_kept y \<longleftrightarrow> (\<forall>t. ss_credential (sy_sess y) = Some t \<longleftrightarrow> (\<exists>k. sy_tasks y t = Some k \<and> holds_credential k))"

definition plan_kept :: "sess_sys \<Rightarrow> bool" where
  "plan_kept y \<longleftrightarrow> (ss_plan_running (sy_sess y) \<longleftrightarrow> (\<exists>t k. sy_tasks y t = Some k \<and> holds_plan k))
     \<and> (\<forall>t k t' k'. sy_tasks y t = Some k \<longrightarrow> holds_plan k \<longrightarrow> sy_tasks y t' = Some k' \<longrightarrow> holds_plan k' \<longrightarrow> t = t')"

definition generations_kept :: "sess_sys \<Rightarrow> bool" where
  "generations_kept y \<longleftrightarrow> (\<forall>t k g. sy_tasks y t = Some k \<longrightarrow> captured k = Some g \<longrightarrow> g \<le> ss_generation (sy_sess y))
     \<and> (\<forall>t g b j pw p r. sy_tasks y t = Some (LoginWrite g b j pw p r) \<longrightarrow> g = ss_generation (sy_sess y))
     \<and> (\<forall>t. sy_tasks y t = Some LogoutAdvance \<longrightarrow> ss_jwt_file (sy_sess y) = None)"

definition logout_kept :: "sess_sys \<Rightarrow> bool" where
  "logout_kept y \<longleftrightarrow> (signed_off (sy_trace y) \<longrightarrow> ss_unlocked (sy_sess y) = None \<and> ss_jwt_file (sy_sess y) = None
     \<and> (\<forall>t k. sy_tasks y t = Some k \<longrightarrow> armed k \<longrightarrow> captured k \<noteq> Some (ss_generation (sy_sess y))))"

definition accounts_kept :: "sess_sys \<Rightarrow> bool" where
  "accounts_kept y \<longleftrightarrow> (\<forall>t u. sy_tasks y t = Some (Changing (Some u)) \<longrightarrow> ss_unlocked (sy_sess y) \<noteq> None)"

definition sess_inv :: "sess_sys \<Rightarrow> bool" where
  "sess_inv y \<longleftrightarrow> credential_kept y \<and> plan_kept y \<and> generations_kept y \<and> logout_kept y \<and> accounts_kept y"

lemma begin_task_facts:
  assumes "begin_task what t s = (k, evs)"
  shows "\<not> next_holds holds_credential k" and "\<not> next_holds holds_plan k"
    and "k = Next n \<Longrightarrow> captured n = Some g \<Longrightarrow> g = ss_generation s"
    and "k = Next n \<Longrightarrow> armed n \<Longrightarrow> evs = [Asked t]"
    and "k \<noteq> Next LogoutAdvance" and "k \<noteq> Next (LoginWrite g b j pw p r)" and "k \<noteq> Next (Changing u)"
    and "Logged_out x \<notin> set evs"
  using assms by (cases what; auto split: sum.splits)+

lemma task_after_Some: "task_after k = Some n \<longleftrightarrow> k = Next n"
  by (cases k) auto

lemma next_holds_iff: "next_holds P k \<longleftrightarrow> (\<exists>n. k = Next n \<and> P n)"
  by (cases k) auto

lemma sess_step_cases:
  assumes "sess_step env y y'"
  obtains (began) t what k evs where "sy_tasks y t = None" "begin_task what t (sy_sess y) = (k, evs)"
      "y' = y\<lparr> sy_tasks := (sy_tasks y)(t := task_after k), sy_trace := sy_trace y @ evs @ over t k \<rparr>"
    | (worked) t a k k' s' evs where "sy_tasks y t = Some k" "work env a t k (sy_sess y) = Some (k', s', evs)"
      "y' = \<lparr> sy_sess = s', sy_tasks = (sy_tasks y)(t := task_after k'), sy_trace = sy_trace y @ evs @ over t k' \<rparr>"
proof -
  obtain act where act: "sess_act env act y = Some y'" using assms by (auto simp: sess_step_def)
  show ?thesis
  proof (cases act)
    case (Begin t what)
    then show ?thesis using act by (auto split: if_splits prod.splits intro: began)
  next
    case (Work t a)
    then show ?thesis using act by (auto split: option.splits prod.splits intro: worked)
  qed
qed

lemma init_inv: "sess_init y \<Longrightarrow> sess_inv y"
  by (auto simp: sess_init_def sess_inv_def credential_kept_def plan_kept_def generations_kept_def logout_kept_def
      accounts_kept_def fresh_sess_def signed_off_def)

lemma credential_kept_step:
  assumes "credential_kept y" and "sess_step env y y'"
  shows "credential_kept y'"
  using assms(2)
proof (cases rule: sess_step_cases)
  case (began t what k evs)
  then show ?thesis using assms(1) begin_task_facts(1) [OF began(2)]
    by (auto simp: credential_kept_def task_after_Some next_holds_iff)
next
  case (worked t a k k' s' evs)
  have mine: "holds_credential k \<Longrightarrow> ss_credential (sy_sess y) = Some t"
    and held: "\<And>x. ss_credential (sy_sess y) = Some x \<longleftrightarrow> (\<exists>n. sy_tasks y x = Some n \<and> holds_credential n)"
    using assms(1) worked(1) by (auto simp: credential_kept_def)
  have now: "ss_credential s' = (if next_holds holds_credential k' then Some t else if holds_credential k then None
      else ss_credential (sy_sess y))"
    using worked(2) mine by (rule work_credential)
  have taken: "next_holds holds_credential k' \<Longrightarrow> \<not> holds_credential k \<Longrightarrow> ss_credential (sy_sess y) = None"
    using worked(2) by (rule work_takes_credential)
  have "ss_credential s' = Some x \<longleftrightarrow>
      (\<exists>n. ((sy_tasks y)(t := task_after k')) x = Some n \<and> holds_credential n)" for x
  proof (cases "x = t")
    case True
    then show ?thesis using now held [of t] worked(1) by (auto simp: next_holds_iff task_after_Some)
  next
    case False
    then show ?thesis using now held [of x] held [of t] worked(1) mine taken by (auto simp: next_holds_iff)
  qed
  then show ?thesis using worked(3) by (simp add: credential_kept_def)
qed

lemma plan_kept_step:
  assumes "plan_kept y" and "sess_step env y y'"
  shows "plan_kept y'"
  using assms(2)
proof (cases rule: sess_step_cases)
  case (began t what k evs)
  have none: "\<not> (\<exists>n. task_after k = Some n \<and> holds_plan n)"
    using begin_task_facts(2) [OF began(2)] by (auto simp: task_after_Some next_holds_iff)
  have same: "((sy_tasks y)(t := task_after k)) x = Some n \<and> holds_plan n \<longleftrightarrow> sy_tasks y x = Some n \<and> holds_plan n" for x n
    using none began(1) by auto
  show ?thesis using assms(1) began(3) same unfolding plan_kept_def by simp metis
next
  case (worked t a k k' s' evs)
  let ?tasks = "(sy_tasks y)(t := task_after k')"
  have mine: "holds_plan k \<Longrightarrow> ss_plan_running (sy_sess y)"
    and running: "ss_plan_running (sy_sess y) \<longleftrightarrow> (\<exists>x n. sy_tasks y x = Some n \<and> holds_plan n)"
    and one: "\<And>x n x' n'. sy_tasks y x = Some n \<Longrightarrow> holds_plan n \<Longrightarrow> sy_tasks y x' = Some n' \<Longrightarrow> holds_plan n' \<Longrightarrow> x = x'"
    using assms(1) worked(1) by (auto simp: plan_kept_def)
  have now: "ss_plan_running s' = (next_holds holds_plan k' \<or> \<not> holds_plan k \<and> ss_plan_running (sy_sess y))"
    using worked(2) mine by (rule work_plan)
  have alone: "x = t" if "next_holds holds_plan k'" "sy_tasks y x = Some n" "holds_plan n" for x n
    using work_takes_plan [OF worked(2) that(1)] running one [OF that(2,3) worked(1)] that(2,3) by blast
  have at_t: "?tasks t = Some n \<and> holds_plan n \<longleftrightarrow> k' = Next n \<and> holds_plan n" for n
    by (auto simp: task_after_Some)
  have "ss_plan_running s' \<longleftrightarrow> (\<exists>x n. ?tasks x = Some n \<and> holds_plan n)"
  proof
    assume "ss_plan_running s'"
    then consider "next_holds holds_plan k'" | "\<not> holds_plan k" "ss_plan_running (sy_sess y)" using now by blast
    then show "\<exists>x n. ?tasks x = Some n \<and> holds_plan n"
    proof cases
      case 1
      then show ?thesis using at_t by (auto simp: next_holds_iff)
    next
      case 2
      then obtain x n where "sy_tasks y x = Some n" "holds_plan n" using running by blast
      with 2(1) worked(1) show ?thesis by (intro exI [of _ x] exI [of _ n]) auto
    qed
  next
    assume "\<exists>x n. ?tasks x = Some n \<and> holds_plan n"
    then obtain x n where x: "?tasks x = Some n" "holds_plan n" by blast
    show "ss_plan_running s'"
    proof (cases "x = t")
      case True
      then show ?thesis using x at_t now by (auto simp: next_holds_iff)
    next
      case False
      then have "sy_tasks y x = Some n" using x by simp
      then show ?thesis using now running one [OF _ x(2) worked(1)] x(2) False by blast
    qed
  qed
  moreover have "x = x'" if a: "?tasks x = Some n" "holds_plan n" and b: "?tasks x' = Some n'" "holds_plan n'" for x n x' n'
  proof -
    have mine: "next_holds holds_plan k'" if "?tasks t = Some m" "holds_plan m" for m
      using that by (simp add: next_holds_iff task_after_Some)
    consider "x = t" "x' = t" | "x = t" "x' \<noteq> t" | "x \<noteq> t" "x' = t" | "x \<noteq> t" "x' \<noteq> t" by blast
    then show ?thesis
    proof cases
      case 2
      have other: "sy_tasks y x' = Some n'" using b(1) 2(2) by simp
      have "?tasks t = Some n" using a(1) 2(1) by (simp only:)
      from alone [OF mine [OF this a(2)] other b(2)] show ?thesis using 2(2) by contradiction
    next
      case 3
      have other: "sy_tasks y x = Some n" using a(1) 3(1) by simp
      have "?tasks t = Some n'" using b(1) 3(2) by (simp only:)
      from alone [OF mine [OF this b(2)] other a(2)] show ?thesis using 3(1) by contradiction
    next
      case 4
      then show ?thesis using one [of x n x' n'] a b by simp
    qed simp
  qed
  ultimately have "plan_kept \<lparr> sy_sess = s', sy_tasks = ?tasks, sy_trace = sy_trace y @ evs @ over t k' \<rparr>"
    unfolding plan_kept_def sess_sys.simps by blast
  then show ?thesis using worked(3) by simp
qed

lemma generations_kept_step:
  assumes "generations_kept y" and "credential_kept y" and "sess_step env y y'"
  shows "generations_kept y'"
  using assms(3)
proof (cases rule: sess_step_cases)
  case (began t what k evs)
  then show ?thesis using assms(1) begin_task_facts(3,5,6) [OF began(2)]
    by (auto simp: generations_kept_def task_after_Some)
next
  case (worked t a k k' s' evs)
  have held: "ss_credential (sy_sess y) = Some x \<longleftrightarrow> (\<exists>n. sy_tasks y x = Some n \<and> holds_credential n)" for x
    using assms(2) by (simp add: credential_kept_def)
  have older: "g \<le> ss_generation (sy_sess y)" if "sy_tasks y x = Some n" "captured n = Some g" for x n g
    using assms(1) that by (auto simp: generations_kept_def)
  have grows: "ss_generation (sy_sess y) \<le> ss_generation s'"
    using work_generation [OF worked(2)] by (auto simp: word_le_nat_alt)
  have still: "ss_generation s' = ss_generation (sy_sess y)" "ss_jwt_file s' = ss_jwt_file (sy_sess y)"
    if "sy_tasks y x = Some n" "holds_credential n" "x \<noteq> t" for x n
  proof -
    have "\<not> holds_credential k" using held [of x] held [of t] that worked(1) by auto
    then show "ss_generation s' = ss_generation (sy_sess y)" "ss_jwt_file s' = ss_jwt_file (sy_sess y)"
      using work_generation [OF worked(2)] work_file [OF worked(2)] by auto
  qed
  have "g \<le> ss_generation s'" if "((sy_tasks y)(t := task_after k')) x = Some n" "captured n = Some g" for x n g
    using that older [of x n g] older [OF worked(1), of g] work_captured [of env a t k "sy_sess y" n s' evs g] worked(2) grows
    by (auto simp: task_after_Some split: if_splits)
  moreover have "g = ss_generation s'"
    if "((sy_tasks y)(t := task_after k')) x = Some (LoginWrite g b j pw p r)" for x g b j pw p r
  proof (cases "x = t")
    case True
    then show ?thesis using that worked(2) work_write by (auto simp: task_after_Some)
  next
    case False
    then have w: "sy_tasks y x = Some (LoginWrite g b j pw p r)" using that by simp
    then have "g = ss_generation (sy_sess y)" using assms(1) unfolding generations_kept_def by blast
    then show ?thesis using still(1) [OF w _ False] by simp
  qed
  moreover have "ss_jwt_file s' = None" if "((sy_tasks y)(t := task_after k')) x = Some LogoutAdvance" for x
  proof (cases "x = t")
    case True
    then show ?thesis using that worked(2) work_advance by (auto simp: task_after_Some)
  next
    case False
    then have w: "sy_tasks y x = Some LogoutAdvance" using that by simp
    then have "ss_jwt_file (sy_sess y) = None" using assms(1) by (auto simp: generations_kept_def)
    then show ?thesis using still(2) [OF w _ False] by simp
  qed
  ultimately show ?thesis using worked(3) by (simp add: generations_kept_def)
qed

lemma logout_kept_step:
  assumes "logout_kept y" and "generations_kept y" and "sess_step env y y'"
  shows "logout_kept y'"
  using assms(3)
proof (cases rule: sess_step_cases)
  case (began t what k evs)
  have quiet: "\<forall>x. Logged_out x \<notin> set (evs @ over t k)"
    using begin_task_facts(8) [OF began(2)] over_events by auto
  show ?thesis
  proof (cases "signed_off (sy_trace y @ evs @ over t k)")
    case True
    then have off: "signed_off (sy_trace y)" and unasked: "\<forall>x. Asked x \<notin> set (evs @ over t k)"
      using signed_off_append quiet by blast+
    have "\<not> (\<exists>n. k = Next n \<and> armed n)" using begin_task_facts(4) [OF began(2)] unasked by auto
    then show ?thesis using assms(1) off began(3) by (auto simp: logout_kept_def task_after_Some)
  qed (simp add: logout_kept_def began(3))
next
  case (worked t a k k' s' evs)
  have older: "g \<le> ss_generation (sy_sess y)" if "sy_tasks y x = Some n" "captured n = Some g" for x n g
    using assms(2) that by (auto simp: generations_kept_def)
  show ?thesis
  proof (cases "evs = [Logged_out t]")
    case True
    then have k: "k = LogoutAdvance" and adv: "unat (ss_generation s') = Suc (unat (ss_generation (sy_sess y)))"
      "ss_unlocked s' = None" "ss_jwt_file s' = ss_jwt_file (sy_sess y)"
      "k' = Next (KeyringCheck True (ss_generation s') Forget True)"
      using work_generation [OF worked(2)] by auto
    have "ss_jwt_file s' = None" using assms(2) worked(1) k adv(3) by (auto simp: generations_kept_def)
    moreover have "captured n \<noteq> Some (ss_generation s')"
      if "((sy_tasks y)(t := task_after k')) x = Some n" "armed n" for x n
      using that adv(1,4) older [of x n "ss_generation s'"] by (auto simp: word_le_nat_alt split: if_splits)
    ultimately show ?thesis using worked(3) adv(2) by (simp add: logout_kept_def)
  next
    case False
    then have gen: "ss_generation s' = ss_generation (sy_sess y)" and quiet: "\<forall>x. Logged_out x \<notin> set (evs @ over t k')"
      using work_generation [OF worked(2)] over_events by auto
    show ?thesis
    proof (cases "signed_off (sy_trace y @ evs @ over t k')")
      case True
      then have off: "signed_off (sy_trace y)" using signed_off_append quiet by blast
      have empty: "ss_unlocked (sy_sess y) = None" "ss_jwt_file (sy_sess y) = None"
        and stale: "sy_tasks y x = Some n \<Longrightarrow> armed n \<Longrightarrow> captured n \<noteq> Some (ss_generation (sy_sess y))" for x n
        using assms(1) off by (auto simp: logout_kept_def)
      have slot: "ss_unlocked s' = None"
        using work_slot [OF worked(2)] empty(1) stale [OF worked(1)] False by auto
      have unwritten: "k \<noteq> LoginWrite g b j pw p r" for g b j pw p r
        proof
        assume k: "k = LoginWrite g b j pw p r"
        then have "g = ss_generation (sy_sess y)" using assms(2) worked(1) unfolding generations_kept_def by blast
        then show False using stale [OF worked(1)] k by simp
      qed
      have gone: "ss_jwt_file s' = None" using work_file [OF worked(2)] empty(2) unwritten by auto
      have "captured n \<noteq> Some (ss_generation s')"
        if "((sy_tasks y)(t := task_after k')) x = Some n" "armed n" for x n
      proof (cases "x = t")
        case True
        then have "k' = Next n" using that(1) by (simp add: task_after_Some)
        then have "armed k \<and> captured n = captured k"
          using work_armed [of env a t k "sy_sess y" n s' evs] worked(2) that(2) empty(2) by auto
        then show ?thesis using stale [OF worked(1)] gen by simp
      next
        case False
        then show ?thesis using that stale [of x n] gen by simp
      qed
      then show ?thesis using worked(3) slot gone by (simp add: logout_kept_def)
    qed (simp add: logout_kept_def worked(3))
  qed
qed

lemma accounts_kept_step:
  assumes "accounts_kept y" and "plan_kept y" and "sess_step env y y'"
  shows "accounts_kept y'"
  using assms(3)
proof (cases rule: sess_step_cases)
  case (began t what k evs)
  then show ?thesis using assms(1) begin_task_facts(7) [OF began(2)]
    by (auto simp: accounts_kept_def task_after_Some)
next
  case (worked t a k k' s' evs)
  have "ss_unlocked s' \<noteq> None" if "((sy_tasks y)(t := task_after k')) x = Some (Changing (Some u))" for x u
  proof (cases "x = t")
    case True
    then have "k' = Next (Changing (Some u))" using that by (simp add: task_after_Some)
    then have "k = ChangeAccount \<and> ss_unlocked (sy_sess y) = Some u \<or> k = Changing (Some u)"
      using work_account worked(2) by blast
    moreover have "ss_unlocked (sy_sess y) \<noteq> None" if "k = Changing (Some u)"
      using assms(1) worked(1) that by (auto simp: accounts_kept_def)
    ultimately have "ss_unlocked (sy_sess y) \<noteq> None" "k \<noteq> LogoutAdvance" by auto
    then show ?thesis using work_slot [OF worked(2)] by auto
  next
    case False
    then have x: "sy_tasks y x = Some (Changing (Some u))" using that by simp
    then have "ss_unlocked (sy_sess y) \<noteq> None" using assms(1) by (auto simp: accounts_kept_def)
    moreover have "k \<noteq> LogoutAdvance"
      using assms(2) x worked(1) False by (auto simp: plan_kept_def)
    ultimately show ?thesis using work_slot [OF worked(2)] by auto
  qed
  then show ?thesis using worked(3) by (simp add: accounts_kept_def)
qed

interpretation session: inductive_invariant sess_init "sess_step env" sess_inv for env
proof
  show "sess_inv y" if "sess_init y" for y using that by (rule init_inv)
  show "sess_inv y'" if "sess_inv y" "sess_step env y y'" for y y'
    using that credential_kept_step plan_kept_step generations_kept_step logout_kept_step accounts_kept_step
    unfolding sess_inv_def by blast
qed

section \<open>Logging out\<close>

text \<open>C9: Logout wins, in every interleaving of unlocks, sign-ins, silent unlocks, logouts and order changes: once a logout
  has taken effect, and as long as nobody asks to sign in again, there is no unlocked session and no login file. Work
  that was running when it happened, whatever it had read or was waiting for, can neither publish its session nor
  write its file back, so a listing command is told to log in.\<close>

theorem logout_is_final:
  assumes "reach sess_init (sess_step env) y" and "sy_trace y = a @ Logged_out t # b" and "\<forall>x. Asked x \<notin> set b"
  shows "auth_status (sy_sess y) = (False, False) \<and> require_unlocked (sy_sess y) = Err needs_login"
proof -
  have "signed_off (sy_trace y)" using assms(2,3) by (auto simp: signed_off_def)
  then show ?thesis using session.reach_inv [OF assms(1)]
    by (simp add: sess_inv_def logout_kept_def auth_status_def is_unlocked_def require_unlocked_def)
qed

text \<open>A sign-in is in its window while a logout goes through; then the window hands over its token.\<close>

definition demo_session_env :: session_env where
  "demo_session_env = \<lparr> se_crypto = demo_crypto, se_from_slice = unary_parse, se_to_vec = unary_print, se_use_keyring = True \<rparr>"

definition demo_answer :: answer where
  "demo_answer = \<lparr> an_error = None, an_fault = Persisted, an_captured = Ok ''a.b.c'', an_random = Ok (''salt'', ''twelve bytes''),
     an_now = ''now'', an_warm = Ok (''tenno'', []), an_keyring = True, an_journal = None \<rparr>"

definition demo_start :: sess_sys where
  "demo_start = \<lparr> sy_sess = fresh_sess (Some ''old'') None None, sy_tasks = (\<lambda>_. None), sy_trace = [] \<rparr>"

lemma demo_start_reach: "reach sess_init (sess_step env) demo_start"
  by (rule reach_init) (auto simp: sess_init_def demo_start_def)

definition demo_race :: "sess_action list" where
  "demo_race = [Begin 0 (AskLogin ''open sesame!'' ''pc'' False), Begin 1 AskLogout]
     @ [Work 1 demo_answer, Work 1 demo_answer, Work 1 demo_answer, Work 1 demo_answer, Work 1 demo_answer]
     @ [Work 0 demo_answer, Work 0 demo_answer, Work 0 demo_answer, Work 0 demo_answer]"

lemma demo_login_valid: "validate_login ''open sesame!'' ''pc'' = Ok ()"
proof -
  have "length (chars_of ''open sesame!'') = 12" by code_simp
  then show ?thesis by (simp add: validate_login_def validate_platform_def validate_passphrase_def PLATFORMS_def
      MIN_PASSPHRASE_CHARS_def)
qed

lemma demo_race_runs:
  "map_option sy_trace (sess_run demo_session_env demo_race demo_start) =
     Some [Asked 0, Reads_cleared 1, Logged_out 1, Over 0 (Returned (Err session_changed))]"
  by (simp add: demo_race_def demo_start_def demo_login_valid fresh_sess_def demo_answer_def demo_session_env_def stage_defs
      remove_file_def checked_add_def encrypt_jwt_def demo_crypto_def rbind_def)

theorem logout_is_final_witness:
  "\<exists>y. sess_run demo_session_env demo_race demo_start = Some y \<and> require_unlocked (sy_sess y) = Err needs_login"
proof -
  obtain y where y: "sess_run demo_session_env demo_race demo_start = Some y"
    and tr: "sy_trace y = [Asked 0, Reads_cleared 1] @ Logged_out 1 # [Over 0 (Returned (Err session_changed))]"
    using demo_race_runs by auto
  have "reach sess_init (sess_step demo_session_env) y" using demo_start_reach y by (rule sess_run_reach)
  from logout_is_final [OF this tr] y show ?thesis by auto
qed

section \<open>Order changes\<close>

lemma persist_keeps:
  "persist_login to_vec fault blob c = (c', r) \<Longrightarrow> c' = None \<Longrightarrow> c = None"
  by (auto simp: persist_login_def split: persist_fault.splits)

lemma work_keeps_file:
  assumes "work env a t k s = Some (k', s', evs)" and "k \<noteq> LogoutRemove" and "ss_jwt_file s \<noteq> None"
  shows "ss_jwt_file s' \<noteq> None"
  using assms by (cases k) (auto simp: stage_defs split: stage_splits dest: persist_keeps)

text \<open>C12: One order change at a time, with its account: while a task changes orders with an account it was given, whatever
  any other thread does next leaves that task running, the session unlocked and its generation as it was, the login
  file in place and the saved batch untouched; and no other thread is logging out or changing orders.\<close>

theorem order_change_keeps_its_account:
  assumes "reach sess_init (sess_step env) y" and "sy_tasks y t = Some (Changing (Some u))"
    and "sess_act env act y = Some y'" and "\<And>a. act \<noteq> Work t a"
  shows "sy_tasks y' t = Some (Changing (Some u)) \<and> is_unlocked (sy_sess y')
    \<and> ss_generation (sy_sess y') = ss_generation (sy_sess y) \<and> ss_pending_file (sy_sess y') = ss_pending_file (sy_sess y)
    \<and> (ss_jwt_file (sy_sess y) \<noteq> None \<longrightarrow> ss_jwt_file (sy_sess y') \<noteq> None)
    \<and> (\<forall>x k. sy_tasks y' x = Some k \<and> holds_plan k \<longrightarrow> x = t)"
proof -
  have step: "sess_step env y y'" using assms(3) by (auto simp: sess_step_def)
  have inv: "sess_inv y" "sess_inv y'"
    using session.reach_inv assms(1) reach_step [OF assms(1) step] by blast+
  have kept: "sy_tasks y' t = Some (Changing (Some u))"
  proof (cases act)
    case (Work x a)
    then have "x \<noteq> t" using assms(4) by blast
    then show ?thesis using Work assms(2,3) by (auto split: option.splits prod.splits)
  qed (use assms(2,3) in \<open>auto split: if_splits prod.splits\<close>)
  have alone: "x = t" if "sy_tasks z x = Some k" "holds_plan k" "plan_kept z" "sy_tasks z t = Some (Changing (Some u))" for x k z
    using that unfolding plan_kept_def by (metis holds_plan.simps(6))
  have same: "ss_generation (sy_sess y') = ss_generation (sy_sess y) \<and> ss_pending_file (sy_sess y') = ss_pending_file (sy_sess y)
      \<and> (ss_jwt_file (sy_sess y) \<noteq> None \<longrightarrow> ss_jwt_file (sy_sess y') \<noteq> None)"
  proof (cases act)
    case (Begin x what)
    then show ?thesis using assms(3) by (auto split: if_splits prod.splits)
  next
    case (Work x a)
    then obtain k k' s' evs where k: "sy_tasks y x = Some k" "work env a x k (sy_sess y) = Some (k', s', evs)"
      and s': "sy_sess y' = s'"
      using assms(3) by (auto split: option.splits prod.splits)
    have "x \<noteq> t" using Work assms(4) by blast
    then have free: "\<not> holds_plan k" using alone [OF k(1) _ _ assms(2)] inv(1) by (auto simp: sess_inv_def)
    then have "k \<noteq> LogoutAdvance" "k \<noteq> LogoutRemove" by auto
    then show ?thesis
      using work_generation [OF k(2)] work_batch [OF k(2)] work_keeps_file [OF k(2)] s' free by auto
  qed
  show ?thesis
    using kept same inv(2) alone [of y'] unfolding sess_inv_def accounts_kept_def is_unlocked_def by blast
qed

definition demo_account :: unlocked where
  "demo_account = \<lparr> un_jwt = ''a.b.c'', un_username = ''tenno'', un_platform = ''pc'', un_catalog = [],
     un_id_to_item = index_item_meta [] \<rparr>"

definition demo_changing :: "sess_action list" where
  "demo_changing = [Begin 0 (AskLogin ''open sesame!'' ''pc'' False), Work 0 demo_answer, Work 0 demo_answer,
     Work 0 demo_answer, Work 0 demo_answer, Work 0 demo_answer, Work 0 demo_answer, Work 0 demo_answer,
     Begin 1 (AskChange True), Work 1 demo_answer, Work 1 demo_answer, Begin 2 AskLogout]"

lemma demo_changing_runs:
  "map_option (\<lambda>y. (sy_tasks y 1, sy_tasks y 2, sy_sess y)) (sess_run demo_session_env demo_changing demo_start) =
     Some (Some (Changing (Some demo_account)), Some LogoutBegin,
       \<lparr> ss_generation = 0, ss_unlocked = Some demo_account, ss_plan_running = True, ss_credential = None,
         ss_jwt_file = Some (unary_print (encrypted_json \<lparr> ej_format = JWT_FORMAT, ej_created = ''now'', ej_platform = ''pc'',
            ej_kdf = \<lparr> kd_name = ''PBKDF2'', kd_hash = ''SHA-256'', kd_iterations = JWT_KDF_ITERATIONS, kd_salt = ''salt'' \<rparr>,
            ej_cipher = \<lparr> cp_name = ''AES-GCM'', cp_iv = ''twelve bytes'' \<rparr>,
            ej_ciphertext = demo_seal ''open sesame!'' @ ''a.b.c'' \<rparr>)),
         ss_pending_file = None, ss_keyring = None \<rparr>)"
  by (simp add: demo_changing_def demo_start_def demo_login_valid fresh_sess_def demo_answer_def demo_session_env_def stage_defs
      encrypt_jwt_def demo_crypto_def rbind_def persist_login_def warm_session_def demo_account_def require_unlocked_def)

theorem order_change_keeps_its_account_witness:
  "\<exists>y y'. sess_run demo_session_env demo_changing demo_start = Some y \<and> sess_act demo_session_env (Work 2 demo_answer) y = Some y'
     \<and> is_unlocked (sy_sess y')"
proof -
  obtain y where y: "sess_run demo_session_env demo_changing demo_start = Some y"
    and tasks: "sy_tasks y 1 = Some (Changing (Some demo_account))" "sy_tasks y 2 = Some LogoutBegin"
    using demo_changing_runs by (auto simp: map_option_eq_Some simp del: One_nat_def)
  obtain y' where y': "sess_act demo_session_env (Work 2 demo_answer) y = Some y'"
    using tasks(2) by (cases "logout_begin (sy_sess y)") auto
  have "reach sess_init (sess_step demo_session_env) y" using demo_start_reach y by (rule sess_run_reach)
  from order_change_keeps_its_account [OF this tasks(1) y'] y y' show ?thesis by auto
qed

section \<open>Every call comes to its end\<close>

fun rank :: "task \<Rightarrow> nat" where
  "rank (UnlockRead p r g) = 6"
| "rank (UnlockWarm r g j p k s) = 5"
| "rank (UnlockInstall r g u k s) = 4"
| "rank (UnlockReread r g k s) = 3"
| "rank SilentStart = 8"
| "rank SilentGeneration = 7"
| "rank (SilentExists g) = 6"
| "rank (SilentLoad g) = 5"
| "rank (SilentRead g k) = 4"
| "rank (SilentRecheck g k) = 3"
| "rank (SilentWarm g j p) = 3"
| "rank (SilentInstall g u) = 2"
| "rank (LoginCapture g pw p r) = 9"
| "rank (LoginEncrypt g j pw p r) = 8"
| "rank (LoginLock g b j pw p r) = 7"
| "rank (LoginCheck g b j pw p r) = 6"
| "rank (LoginWrite g b j pw p r) = 5"
| "rank (LoginWarm g b j pw p r) = 4"
| "rank (LoginInstall g u b pw r) = 3"
| "rank LogoutBegin = 7"
| "rank LogoutDiscard = 6"
| "rank LogoutLock = 5"
| "rank LogoutRemove = 4"
| "rank LogoutAdvance = 3"
| "rank (ChangeBegin a) = 3"
| "rank ChangeAccount = 2"
| "rank (Changing u) = 1"
| "rank (KeyringCheck h g i t) = 2"
| "rank (KeyringAct h i t) = 1"

fun order_change :: "task \<Rightarrow> bool" where
  "order_change (ChangeBegin a) = True"
| "order_change ChangeAccount = True"
| "order_change (Changing u) = True"
| "order_change _ = False"

lemma rank_le: "rank k \<le> 9" "holds_credential k \<Longrightarrow> 0 < rank k" "holds_credential k \<Longrightarrow> \<not> order_change k"
  by (cases k; simp)+

lemma work_rank:
  assumes "work env a t k s = Some (Next n, s', evs)" and "\<not> order_change k"
  shows "rank n < rank k" and "\<not> order_change n"
  using assms by (cases k; auto simp: stage_defs split: stage_splits)+

lemma work_waits:
  assumes "work env a t k s = None"
  shows "ss_credential s \<noteq> None" and "\<not> holds_credential k"
  using assms by (cases k; auto simp: stage_defs split: if_splits)+

text \<open>A thread can be brought to its end, whatever the world answers at each stage.\<close>

inductive can_end :: "session_env \<Rightarrow> nat \<Rightarrow> sess_sys \<Rightarrow> bool" for env t where
  ended: "sy_tasks y t = None \<Longrightarrow> can_end env t y"
| turn: "(\<And>a. \<exists>y'. sess_act env (Work x a) y = Some y' \<and> can_end env t y') \<Longrightarrow> can_end env t y"

definition distance :: "nat \<Rightarrow> task \<Rightarrow> sess_sys \<Rightarrow> nat" where
  "distance t k y = 10 * rank k +
     (case ss_credential (sy_sess y) of None \<Rightarrow> 0
      | Some h \<Rightarrow> if h = t then 0 else case sy_tasks y h of None \<Rightarrow> 0 | Some n \<Rightarrow> rank n)"

lemma distance_bounds: "10 * rank k \<le> distance t k y" "distance t k y < 10 * rank k + 10"
proof -
  have "rank n < 10" for n using rank_le(1) [of n] by simp
  then show "10 * rank k \<le> distance t k y" "distance t k y < 10 * rank k + 10"
    by (auto simp: distance_def split: option.splits)
qed

text \<open>C19: No call of the session gets stuck: from every reachable state, an unlock, a silent unlock, a sign-in or a logout
  that is running can be brought to its end by running threads alone, whatever files, network, keyring and sign-in
  window answer; it never waits for a lock that nobody gives back.\<close>

theorem session_calls_end:
  assumes "reach sess_init (sess_step env) y" and "sy_tasks y t = Some k" and "\<not> order_change k"
  shows "can_end env t y"
  using assms
proof (induction "distance t k y" arbitrary: y k rule: less_induct)
  case less
  have inv: "credential_kept y" using session.reach_inv [OF less.prems(1)] by (simp add: sess_inv_def)
  have onward: "reach sess_init (sess_step env) y'" if "sess_act env act y = Some y'" for act y'
  proof -
    have "sess_step env y y'" using that by (auto simp: sess_step_def)
    with less.prems(1) show ?thesis by (rule reach_step)
  qed
  show ?case
  proof (cases "ss_credential (sy_sess y) = None \<or> ss_credential (sy_sess y) = Some t")
    case True
    have "\<exists>y'. sess_act env (Work t a) y = Some y' \<and> can_end env t y'" for a
    proof -
      have "work env a t k (sy_sess y) \<noteq> None"
      proof
        assume waits: "work env a t k (sy_sess y) = None"
        from True show False
        proof
          assume "ss_credential (sy_sess y) = Some t"
          then obtain n where "sy_tasks y t = Some n" "holds_credential n"
            using inv unfolding credential_kept_def by blast
          then have "holds_credential k" using less.prems(2) by simp
          then show False using work_waits(2) [OF waits] by contradiction
        qed (use work_waits(1) [OF waits] in contradiction)
      qed
      then obtain k' s' evs where w: "work env a t k (sy_sess y) = Some (k', s', evs)"
        by (cases "work env a t k (sy_sess y)") auto
      then obtain y' where y': "sess_act env (Work t a) y = Some y'" and mine: "sy_tasks y' t = task_after k'"
        using less.prems(2) by simp
      have "can_end env t y'"
      proof (cases k')
        case (Next n)
        then have n: "rank n < rank k" "\<not> order_change n" using work_rank w less.prems(3) by blast+
        then have "distance t n y' < distance t k y"
          using distance_bounds(1) [of k t y] distance_bounds(2) [of t n y'] by linarith
        then show ?thesis using less.hyps onward [OF y'] mine Next n(2) by simp
      qed (use mine in \<open>simp add: ended\<close>)
      with y' show ?thesis by blast
    qed
    then show ?thesis by (rule turn)
  next
    case False
    then obtain h where h: "ss_credential (sy_sess y) = Some h" "h \<noteq> t" by auto
    then obtain n where n: "sy_tasks y h = Some n" "holds_credential n" using inv unfolding credential_kept_def by blast
    have "\<exists>y'. sess_act env (Work h a) y = Some y' \<and> can_end env t y'" for a
    proof -
      obtain k' s' evs where w: "work env a h n (sy_sess y) = Some (k', s', evs)"
        using work_waits(2) [of env a h n "sy_sess y"] n(2) by (cases "work env a h n (sy_sess y)") auto
      then obtain y' where y': "sess_act env (Work h a) y = Some y'" and s': "sy_sess y' = s'"
        and tasks: "sy_tasks y' = (sy_tasks y)(h := task_after k')"
        using n(1) by simp
      have "ss_credential s' = (if next_holds holds_credential k' then Some h else None)"
        using work_credential [OF w] h(1) n(2) by simp
      then have "distance t k y' < distance t k y"
        using rank_le(2) [OF n(2)] work_rank(1) [of env a h n "sy_sess y"] w rank_le(3) [OF n(2)] h n(1)
        by (cases k') (auto simp: distance_def s' tasks split: if_splits)
      moreover have "sy_tasks y' t = Some k" using tasks h(2) less.prems(2) by simp
      ultimately have "can_end env t y'" using less.hyps onward [OF y'] less.prems(3) by blast
      with y' show ?thesis by blast
    qed
    then show ?thesis by (rule turn)
  qed
qed

theorem session_calls_end_witness:
  "\<exists>y. sess_run demo_session_env [Begin 0 AskLogout, Begin 1 (AskUnlock ''wrong'' True)] demo_start = Some y \<and> can_end demo_session_env 0 y"
proof -
  obtain y where y: "sess_run demo_session_env [Begin 0 AskLogout, Begin 1 (AskUnlock ''wrong'' True)] demo_start = Some y"
    and k: "sy_tasks y 0 = Some LogoutBegin"
    by (auto simp: demo_start_def)
  have "reach sess_init (sess_step demo_session_env) y" using demo_start_reach y by (rule sess_run_reach)
  from session_calls_end [OF this k] y show ?thesis by simp
qed

section \<open>An older unlock beside a newer sign-in\<close>

text \<open>
  A sign-in leaves the generation alone, so an unlock that read the previous login file still installs what it read:
  the session is then the replaced account's, while the file is the new one's.
\<close>

definition demo_overtaken :: "sess_action list" where
  "demo_overtaken = [Begin 0 (AskUnlock ''open sesame!'' False), Work 0 demo_answer,
     Begin 1 (AskLogin ''open sesame!'' ''pc'' False), Work 1 demo_answer, Work 1 demo_answer, Work 1 demo_answer,
     Work 1 demo_answer, Work 1 demo_answer, Work 1 demo_answer, Work 1 demo_answer, Work 0 demo_answer, Work 0 demo_answer]"

lemma old_unlock_replaces_new_sign_in:
  assumes "decrypt_from_disk demo_crypto unary_parse None (Some old) ''open sesame!'' = Ok (''x.y.z'', ''pc'', key, salt)"
  shows "map_option (\<lambda>y. (filter (\<lambda>e. \<exists>t u. e = Published t u) (sy_trace y), map_option un_jwt (ss_unlocked (sy_sess y))))
      (sess_run demo_session_env demo_overtaken (demo_start\<lparr> sy_sess := fresh_sess (Some old) None None \<rparr>))
    = Some ([Published 1 demo_account, Published 0 (demo_account\<lparr> un_jwt := ''x.y.z'' \<rparr>)], Some ''x.y.z'')"
  using assms
  by (simp add: demo_overtaken_def demo_start_def demo_login_valid fresh_sess_def demo_answer_def demo_session_env_def stage_defs
      encrypt_jwt_def demo_crypto_def rbind_def persist_login_def warm_session_def demo_account_def)

section \<open>Requests of listing batches\<close>

definition requests_ok :: "plan_requests \<Rightarrow> bool" where
  "requests_ok q \<longleftrightarrow> distinct (map fst (pq_pending q)) \<and> length (pq_pending q) \<le> MAX_QUEUE
     \<and> length (pq_completed q) \<le> MAX_QUEUE \<and> (\<forall>x\<in>set (pq_pending q). fst (snd x) < pq_tokens q)"

lemma length_update_known: "map_of xs k \<noteq> None \<Longrightarrow> length (AList.update k v xs) = length xs"
  by (induction xs) auto

lemma set_update_subset: "set (AList.update k v xs) \<subseteq> insert (k, v) (set xs)"
  by (induction xs) auto

lemma length_delete_le: "length (AList.delete k xs) \<le> length xs"
  by (simp add: AList.delete_eq)

lemma requests_ok_token:
  assumes "requests_ok q" and "request_token i claim q = (r, q')"
  shows "requests_ok q'"
proof -
  have new: "requests_ok (q\<lparr> pq_tokens := Suc (pq_tokens q), pq_pending := (i, pq_tokens q, b) # pq_pending q \<rparr>)"
    if "map_of (pq_pending q) i = None" "\<not> MAX_QUEUE \<le> length (pq_pending q)" for b
    using assms(1) that by (auto simp: requests_ok_def map_of_eq_None_iff less_Suc_eq)
  have new': "requests_ok (q\<lparr> pq_pending := (i, pq_tokens q, b) # pq_pending q, pq_tokens := Suc (pq_tokens q) \<rparr>)"
    if "map_of (pq_pending q) i = None" "\<not> MAX_QUEUE \<le> length (pq_pending q)" for b
    using new [OF that] by (simp add: requests_ok_def)
  have old: "requests_ok (q\<lparr> pq_pending := AList.update i (token, True) (pq_pending q) \<rparr>)"
    if "map_of (pq_pending q) i = Some (token, c)" for token c
    using assms(1) that set_update_subset [of i "(token, True)" "pq_pending q"] map_of_SomeD [OF that]
    by (fastforce simp: requests_ok_def length_update_known distinct_update)
  show ?thesis
    using assms new [of True] new' [of False] old
    by (auto simp: request_token_def Let_def unwrap_or_def split: if_splits option.splits prod.splits)
qed

lemma requests_ok_drop:
  assumes "requests_ok q"
  shows "requests_ok (drop_request i q)"
proof -
  have "set (AList.delete i (pq_pending q)) \<subseteq> set (pq_pending q)" by (auto simp: AList.delete_eq)
  moreover have "length (AList.delete i (pq_pending q)) \<le> MAX_QUEUE"
    using assms length_delete_le [of i "pq_pending q"] by (simp add: requests_ok_def)
  moreover have "distinct (map fst (AList.delete i (pq_pending q)))"
    using assms by (simp add: requests_ok_def distinct_delete)
  ultimately show ?thesis using assms by (auto simp: requests_ok_def drop_request_def MAX_QUEUE_def)
qed

text \<open>A request that has been claimed does not run a second time, while it runs or once it has run.\<close>

lemma request_runs_once:
  assumes "claim_plan_request i q = (Ok token, q')"
  shows "fst (claim_plan_request i q') = Err (CmdError ''busy'' ''This listing request is already running.'')"
    and "fst (claim_plan_request i (drop_request i q')) = Err (CmdError ''busy'' ''This listing request already finished.'')"
  using assms
  by (auto simp: claim_plan_request_def request_token_def drop_request_def Let_def unwrap_or_def rbind_def ok_or_def
      update_conv' delete_conv' split: if_splits option.splits prod.splits sum.splits)

text \<open>A cancellation that comes before its request is claimed is not lost.\<close>

lemma early_cancellation_counts:
  assumes "cancel_request i q = (Ok (), q1)" and "claim_plan_request i q1 = (Ok token, q2)"
  shows "request_cancelled token q2"
  using assms
  by (auto simp: claim_plan_request_def cancel_request_def request_token_def request_cancelled_def Let_def unwrap_or_def
      rbind_def ok_or_def split: if_splits option.splits prod.splits sum.splits)

end
