(* ===== verification/Market_Items.thy ===== *)
theory Market_Items
  imports Inventory
begin

text \<open>
  What the market snapshot says of the items owned (\<open>services/market/sellables/quantities.rs\<close>, \<open>resolution.rs\<close>):
  set recipes, and the copies owned and unavailable per slug since the last scan. A hash map is the list of its
  entries in the order it iterates them; the bundled catalogue is a parameter.
\<close>

record set_entry =
  se_name :: ustr
  se_parts :: "(ustr \<times> u32 option) list"

record market_data =
  md_items :: "ustr list"
  md_catalog :: "(ustr \<times> ustr) list"
  md_path_to_info :: "(ustr \<times> ustr \<times> ustr) list"
  md_sets :: "(ustr \<times> set_entry) list"

definition has_item :: "market_data \<Rightarrow> ustr \<Rightarrow> bool" where
  "has_item m slug \<longleftrightarrow> slug \<in> set (md_items m)"

definition market_tables :: "(ustr \<times> ustr \<times> ustr option) list \<Rightarrow> market_data \<Rightarrow> path_tables" where
  "market_tables bundled m =
     \<lparr> pt_path_info = (\<lambda>path. map_option (\<lambda>(name, slug). (name, slug, None)) (map_of (md_path_to_info m) path)),
       pt_catalog_entry = map_of (rev bundled), pt_slug_for = map_of (md_catalog m) \<rparr>"

definition market_resolve ::
  "(ustr \<Rightarrow> ustr) \<Rightarrow> (ustr \<times> ustr \<times> ustr option) list \<Rightarrow> market_data \<Rightarrow> ustr \<Rightarrow> (ustr \<times> ustr) option" where
  "market_resolve lower bundled m path =
     map_option (\<lambda>r. (rp_name r, rp_slug r))
       (opt_filter (\<lambda>r. rp_refinement r = None) (resolve_path lower path (market_tables bundled m)))"

section \<open>Recipes\<close>

abbreviation is_set :: "ustr \<Rightarrow> bool" where "is_set slug \<equiv> ends_with (tx ''_set'') slug"

definition add_part :: "market_data \<Rightarrow> ustr \<Rightarrow> ustr \<times> u32 option \<Rightarrow> (ustr, u32) btree \<Rightarrow> (ustr, (ustr, u32) btree) result" where
  "add_part m slug part parts =
     rbind (ok_or (opt_filter (\<lambda>q. 0 < q) (snd part)) (tx ''Recipe quantities for '' @ slug @ tx '' are unresolved.'')) (\<lambda>quantity.
       if \<not> has_item m (fst part) \<or> is_set (fst part) then Err (tx ''Recipe identity for '' @ slug @ tx '' is unresolved.'')
       else rbind (ok_or (checked_add (unwrap_or (map_of parts (fst part)) 0) quantity) (tx ''Recipe quantities exceed supported limits.''))
         (\<lambda>n. Ok (bt_insert (fst part) n parts)))"

definition set_recipe :: "market_data \<Rightarrow> ustr \<Rightarrow> (ustr, (ustr, u32) btree) result" where
  "set_recipe m slug =
     rbind (ok_or (opt_filter (\<lambda>s. se_parts s \<noteq> []) (map_of (md_sets m) slug))
              (tx ''Recipe for '' @ slug @ tx '' is unresolved; keep its protection until reviewed.'')) (\<lambda>recipe.
       fold_ok (add_part m slug) (se_parts recipe) [])"

text \<open>Recipes of at most six parts, the slots of one trade.\<close>

definition session_recipes :: "market_data \<Rightarrow> (ustr, (ustr, u32) btree) btree" where
  "session_recipes m =
     bt_of (List.map_filter (\<lambda>(slug, _).
       case set_recipe m slug of
         Err _ \<Rightarrow> None
       | Ok recipe \<Rightarrow> if sum_list (map (\<lambda>(_, n). unat n) recipe) \<le> 6 then Some (slug, recipe) else None) (md_sets m))"

definition set_was_traded :: "(ustr \<Rightarrow> ustr) \<Rightarrow> market_data \<Rightarrow> ustr set \<Rightarrow> ustr \<times> set_entry \<Rightarrow> bool" where
  "set_was_traded lower m traded entry \<longleftrightarrow>
     lower (se_name (snd entry)) \<in> traded \<or> lower (se_name (snd entry)) @ tx '' set'' \<in> traded
     \<or> (\<exists>name\<in>traded. map_of (md_catalog m) name = Some (fst entry))"

definition traded_set_parts :: "(ustr \<Rightarrow> ustr) \<Rightarrow> market_data \<Rightarrow> ustr set \<Rightarrow> (ustr, ustr set) result" where
  "traded_set_parts lower m traded =
     fold_ok (\<lambda>entry parts.
       if set_was_traded lower m traded entry
       then rbind (set_recipe m (fst entry)) (\<lambda>recipe. Ok (parts \<union> set (map fst recipe))) else Ok parts) (md_sets m) {}"

section \<open>Copies owned\<close>

text \<open>The database as these reads see it: the inventory's tables and the ledger's, each with its faults.\<close>

record desk =
  dk_inventory :: inventory_db
  dk_inventory_faults :: iv_faults
  dk_ledger :: ledger
  dk_ledger_faults :: faults

definition db_error :: "(string, 'a) result \<Rightarrow> (ustr, 'a) result" where
  "db_error r = (case r of Err e \<Rightarrow> Err (chars_of e) | Ok a \<Rightarrow> Ok a)"

definition u32_of_i64 :: "i64 \<Rightarrow> u32 option" where
  "u32_of_i64 n = (if 0 \<le> n \<and> n < 2 ^ 32 then Some (word_of_int n) else None)"

definition is_relic :: "ustr \<Rightarrow> bool" where "is_relic slug \<longleftrightarrow> ends_with (tx ''_relic'') slug"

definition quantity_limit :: ustr where "quantity_limit = tx ''Inventory quantity exceeds supported limits.''"

definition add_owned ::
  "(ustr \<Rightarrow> ustr) \<Rightarrow> (ustr \<times> ustr \<times> ustr option) list \<Rightarrow> market_data \<Rightarrow> ustr set \<Rightarrow> ustr set
   \<Rightarrow> snapshot_item \<Rightarrow> (ustr, u32 \<times> u32) btree \<Rightarrow> (ustr, (ustr, u32 \<times> u32) btree) result" where
  "add_owned lower bundled m traded traded_parts item owned =
     (case market_resolve lower bundled m (si_slug item) of
        None \<Rightarrow> Ok owned
      | Some (name, slug) \<Rightarrow>
          if \<not> has_item m slug \<or> is_set slug \<or> is_relic slug then Ok owned
          else let row = unwrap_or (map_of owned slug) (0, 0) in
            rbind (ok_or (u32_of_i64 (si_count item)) (tx ''Inventory quantity is invalid.'')) (\<lambda>count.
            rbind (ok_or (checked_add (fst row) count) quantity_limit) (\<lambda>have.
            rbind (if slug \<in> traded_parts \<or> lower name \<in> traded then Ok count
                   else ok_or (u32_of_i64 (si_leveled item)) (tx ''Untradeable quantity is invalid.'')) (\<lambda>unavailable.
            rbind (ok_or (checked_add (snd row) unavailable) quantity_limit) (\<lambda>held.
              Ok (bt_insert slug (have, held) owned))))))"

definition owned_quantities ::
  "(ustr \<Rightarrow> ustr) \<Rightarrow> (ustr \<times> ustr \<times> ustr option) list \<Rightarrow> market_data \<Rightarrow> desk \<Rightarrow> (ustr, (ustr, u32 \<times> u32) btree) result" where
  "owned_quantities lower bundled m dk =
     rbind (db_error (traded_names_since_scan lower (dk_ledger_faults dk) (dk_ledger dk))) (\<lambda>traded.
     rbind (traded_set_parts lower m traded) (\<lambda>traded_parts.
     rbind (db_error (latest_snapshot_items (dk_inventory_faults dk) (dk_inventory dk))) (\<lambda>items.
       fold_ok (add_owned lower bundled m traded traded_parts) items [])))"

section \<open>Facts\<close>

lemma db_error_Ok [simp]: "db_error r = Ok a \<longleftrightarrow> r = Ok a"
  by (cases r) (simp_all add: db_error_def)

lemma db_error_simps [simp]: "db_error (Ok a) = Ok a" "db_error (Err e) = Err (chars_of e)"
  by (simp_all add: db_error_def)

lemma add_part_ok: "add_part m slug part parts = Ok parts' \<Longrightarrow> bt_ok parts \<Longrightarrow> bt_ok parts'"
  by (auto simp: add_part_def rbind_Ok_iff guard_Ok_iff)

lemma set_recipe_ok: "set_recipe m slug = Ok recipe \<Longrightarrow> bt_ok recipe"
  unfolding set_recipe_def rbind_Ok_iff
  by (elim exE conjE, erule fold_ok_keeps) (auto intro: add_part_ok)

text \<open>A recipe that is read names market items that are no sets, with positive quantities.\<close>

definition recipe_entry :: "market_data \<Rightarrow> ustr \<times> u32 \<Rightarrow> bool" where
  "recipe_entry m p \<longleftrightarrow> has_item m (fst p) \<and> \<not> is_set (fst p) \<and> 0 < snd p"

lemma bt_upd_entries: "(k', v) \<in> set (bt_upd k f m) \<Longrightarrow> (k' = k \<and> (v = f (map_of m k) \<or> (\<exists>w. v = f w))) \<or> (k', v) \<in> set m"
  by (induction k f m rule: bt_upd.induct) (auto split: if_splits)

lemma bt_insert_entries: "(k', v') \<in> set (bt_insert k v m) \<Longrightarrow> (k' = k \<and> v' = v) \<or> (k', v') \<in> set m"
  unfolding bt_insert_def by (auto dest: bt_upd_entries)

lemma checked_add_pos: "checked_add a b = Some c \<Longrightarrow> 0 < b \<Longrightarrow> 0 < c" for a b c :: "'a::len word"
  by (drule checked_add_SomeD) (simp add: word_less_nat_alt)

lemma set_recipe_entries:
  assumes "set_recipe m slug = Ok recipe"
  shows "\<forall>p\<in>set recipe. recipe_entry m p"
proof -
  obtain parts where "fold_ok (add_part m slug) parts [] = Ok recipe"
    using assms by (auto simp: set_recipe_def rbind_Ok_iff)
  then show ?thesis
  proof (rule fold_ok_keeps [where I = "\<lambda>r. \<forall>p\<in>set r. recipe_entry m p"])
    fix part r r' assume step: "add_part m slug part r = Ok r'" and r: "\<forall>p\<in>set r. recipe_entry m p"
    from step obtain q n where q: "snd part = Some q" "0 < q" "has_item m (fst part)" "\<not> is_set (fst part)"
      and n: "checked_add (unwrap_or (map_of r (fst part)) 0) q = Some n" and r': "r' = bt_insert (fst part) n r"
      by (auto simp: add_part_def rbind_Ok_iff guard_Ok_iff)
    from checked_add_pos [OF n q(2)] q r show "\<forall>p\<in>set r'. recipe_entry m p"
      unfolding r' by (auto simp: recipe_entry_def dest: bt_insert_entries)
  qed simp
qed

lemma add_owned_ok: "add_owned lower bundled m traded parts item owned = Ok owned' \<Longrightarrow> bt_ok owned \<Longrightarrow> bt_ok owned'"
  by (auto simp: add_owned_def rbind_Ok_iff guard_Ok_iff Let_def split: option.splits prod.splits if_splits)

lemma owned_quantities_ok: "owned_quantities lower bundled m dk = Ok owned \<Longrightarrow> bt_ok owned"
  unfolding owned_quantities_def rbind_Ok_iff
  by (elim exE conjE, erule fold_ok_keeps) (auto intro: add_owned_ok)

text \<open>Every slug counted is an item of the market, and neither a set nor a relic.\<close>

lemma owned_are_items:
  assumes "owned_quantities lower bundled m dk = Ok owned" and "p \<in> set owned"
  shows "has_item m (fst p) \<and> \<not> is_set (fst p) \<and> \<not> is_relic (fst p)"
proof -
  obtain traded parts items where f: "fold_ok (add_owned lower bundled m traded parts) items [] = Ok owned"
    using assms(1) by (auto simp: owned_quantities_def rbind_Ok_iff)
  have "\<forall>p\<in>set owned. has_item m (fst p) \<and> \<not> is_set (fst p) \<and> \<not> is_relic (fst p)"
    using f
  proof (rule fold_ok_keeps)
    fix item o1 o2 assume step: "add_owned lower bundled m traded parts item o1 = Ok o2"
      and I: "\<forall>p\<in>set o1. has_item m (fst p) \<and> \<not> is_set (fst p) \<and> \<not> is_relic (fst p)"
    show "\<forall>p\<in>set o2. has_item m (fst p) \<and> \<not> is_set (fst p) \<and> \<not> is_relic (fst p)"
    proof (cases "market_resolve lower bundled m (si_slug item)")
      case None
      with step I show ?thesis by (simp add: add_owned_def)
    next
      case (Some ns)
      show ?thesis
      proof (cases "\<not> has_item m (snd ns) \<or> is_set (snd ns) \<or> is_relic (snd ns)")
        case True
        with step I Some show ?thesis by (simp add: add_owned_def split: prod.splits)
      next
        case False
        with step Some obtain v where "o2 = bt_insert (snd ns) v o1"
          by (auto simp: add_owned_def rbind_Ok_iff Let_def split: prod.splits)
        with False I show ?thesis by (auto dest: bt_insert_entries)
      qed
    qed
  qed simp
  with assms(2) show ?thesis by blast
qed

end
