(* ===== verification/Protection.thy ===== *)
theory Protection
  imports Market_Items Order_Decode
begin

text \<open>
  Protected copies (\<open>services/trading/protection.rs\<close>): the plan of reserves and its storage, what a goal requires, what
  current orders list, and the allocation of owned copies to protected, listed and available. The text of a plan is
  a printer and a parser (\<open>serde_json\<close>), and orders arrive as a decoded body or an error.
\<close>

section \<open>The plan\<close>

definition PLAN_KEY :: string where "PLAN_KEY = ''protected-selling-plan-v1''"
definition KEEP_KEY :: string where "KEEP_KEY = ''reserve-copies''"

record protection_plan =
  pl_reserves :: "(ustr, u32) btree"
  pl_goal :: "ustr option"

definition no_plan :: protection_plan where "no_plan = \<lparr> pl_reserves = [], pl_goal = None \<rparr>"

record plan_text =
  pt_print :: "protection_plan \<Rightarrow> string"
  pt_parse :: "string \<Rightarrow> protection_plan option"

definition setting :: "desk \<Rightarrow> string \<Rightarrow> (ustr, string option) result" where
  "setting dk key = db_error (get_setting (dk_inventory_faults dk) key (dk_inventory dk))"

definition parse_u32 :: "string \<Rightarrow> u32 option" where
  "parse_u32 s = Option.bind (parse_u64 (chars_of s)) u32_of_u64"

definition plan_active :: "desk \<Rightarrow> protection_plan \<Rightarrow> (ustr, bool) result" where
  "plan_active dk plan =
     (if plan \<noteq> no_plan then Ok True
      else rbind (setting dk KEEP_KEY) (\<lambda>stored. Ok (is_some_and stored (\<lambda>s. is_none_or (parse_u32 s) (\<lambda>n. 0 < n)))))"

definition load_plan :: "plan_text \<Rightarrow> desk \<Rightarrow> (ustr, protection_plan) result" where
  "load_plan tt dk =
     rbind (setting dk PLAN_KEY) (\<lambda>stored.
       case stored of
         None \<Rightarrow> Ok no_plan
       | Some raw \<Rightarrow> ok_or (pt_parse tt raw) (tx ''Protected plan could not be read. Review protection before selling.''))"

definition add_requirement :: "ustr \<times> u32 \<Rightarrow> (ustr, u32) btree \<Rightarrow> (ustr, (ustr, u32) btree) result" where
  "add_requirement p req =
     rbind (ok_or (checked_add (unwrap_or (map_of req (fst p)) 0) (snd p)) (tx ''Protected quantity exceeds supported limits.''))
       (\<lambda>n. Ok (bt_insert (fst p) n req))"

definition requirements :: "market_data \<Rightarrow> protection_plan \<Rightarrow> (ustr, (ustr, u32) btree) result" where
  "requirements m plan =
     (case pl_goal plan of
        None \<Rightarrow> Ok (pl_reserves plan)
      | Some goal \<Rightarrow> rbind (set_recipe m goal) (\<lambda>recipe. fold_ok add_requirement recipe (pl_reserves plan)))"

definition valid_slug :: "ustr \<Rightarrow> bool" where
  "valid_slug slug \<longleftrightarrow> slug \<noteq> [] \<and> byte_len slug \<le> 512 \<and> list_all (\<lambda>c. \<not> is_control c) slug"

definition reserve_ok :: "market_data \<Rightarrow> ustr \<times> u32 \<Rightarrow> bool" where
  "reserve_ok m p \<longleftrightarrow> valid_slug (fst p) \<and> snd p \<le> 1000000 \<and> has_item m (fst p)"

definition validate_and_store :: "plan_text \<Rightarrow> market_data \<Rightarrow> protection_plan \<Rightarrow> desk \<Rightarrow> (ustr, unit) result \<times> desk" where
  "validate_and_store tt m plan dk =
     (if 1000 < length (pl_reserves plan) \<or> \<not> list_all (reserve_ok m) (pl_reserves plan)
      then (Err (tx ''Choose valid market items and protection quantities from 0 to 1000000.''), dk)
      else case requirements m plan of
        Err e \<Rightarrow> (Err e, dk)
      | Ok _ \<Rightarrow>
          let (res, db) = set_setting (dk_inventory_faults dk) PLAN_KEY (pt_print tt plan) (dk_inventory dk)
          in (db_error res, dk\<lparr> dk_inventory := db \<rparr>))"

definition save_plan :: "plan_text \<Rightarrow> market_data \<Rightarrow> protection_plan \<Rightarrow> desk \<Rightarrow> (ustr, unit) result \<times> desk" where
  "save_plan tt m plan dk =
     (let stored = (case load_plan tt dk of Ok p \<Rightarrow> p | Err _ \<Rightarrow> no_plan);
          kept = filter (\<lambda>(slug, count). has_item m slug \<or> map_of (pl_reserves stored) slug \<noteq> Some count) (pl_reserves plan)
      in validate_and_store tt m (plan\<lparr> pl_reserves := kept \<rparr>) dk)"

section \<open>Allocation\<close>

record allocation =
  al_owned :: u32
  al_protected :: u32
  al_estimated :: "u32 option"
  al_listed :: "u32 option"
  al_available :: "u32 option"

definition allocate :: "u32 \<Rightarrow> u32 \<Rightarrow> u32 \<Rightarrow> u32 \<Rightarrow> u32 option \<Rightarrow> allocation" where
  "allocate owned unavailable global_keep reserved listed =
     (let protected = max global_keep (sat_add unavailable reserved)
      in \<lparr> al_owned = owned, al_protected = protected, al_estimated = Some (sat_sub owned protected), al_listed = listed,
           al_available = map_option (\<lambda>l. sat_sub (sat_sub owned protected) l) listed \<rparr>)"

section \<open>What is listed\<close>

definition order_slug :: "json \<Rightarrow> (string \<times> ustr) option" where
  "order_slug row =
     Option.bind (Option.bind (jget row ''id'') as_str) (\<lambda>ident.
     Option.bind (Option.bind (Option.bind (jget row ''item'') (\<lambda>item. jget item ''slug'')) as_str) (\<lambda>slug.
       if slug \<noteq> '''' then Some (ident, chars_of slug) else None))"

definition order_slugs :: "json \<Rightarrow> (ustr, (string, ustr) btree) result" where
  "order_slugs body =
     rbind (ok_or (Option.bind (jget body ''data'') (\<lambda>data.
                     case as_array data of Some rows \<Rightarrow> Some rows | None \<Rightarrow> Option.bind (jget data ''sell'') as_array))
              (tx ''Current sell orders are unavailable.''))
       (\<lambda>rows. Ok (bt_of (List.map_filter order_slug rows)))"

definition listed_limit :: ustr where "listed_limit = tx ''Listed quantity exceeds supported limits.''"

definition add_listed_part :: "u32 \<Rightarrow> ustr \<times> u32 \<Rightarrow> (ustr, u32) btree \<Rightarrow> (ustr, (ustr, u32) btree) result" where
  "add_listed_part quantity p listed =
     rbind (ok_or (checked_mul quantity (snd p)) listed_limit) (\<lambda>q.
     rbind (ok_or (checked_add (unwrap_or (map_of listed (fst p)) 0) q) listed_limit) (\<lambda>n.
       Ok (bt_insert (fst p) n listed)))"

text \<open>The components an order's slug stands for.\<close>

definition components :: "market_data \<Rightarrow> ustr \<Rightarrow> (ustr, (ustr, u32) btree) result" where
  "components m slug = (if is_set slug then set_recipe m slug else Ok [(slug, 1)])"

definition add_listed_order ::
  "market_data \<Rightarrow> (string, ustr) btree \<Rightarrow> order_row \<Rightarrow> (ustr, u32) btree \<Rightarrow> (ustr, (ustr, u32) btree) result" where
  "add_listed_order m slugs row listed =
     (case row of
        Supported n \<Rightarrow>
          if no_side n \<noteq> Sell then Ok listed
          else rbind (ok_or (map_of slugs (no_id n)) (tx ''An existing order has no resolved item identity.'')) (\<lambda>slug.
               rbind (ok_or (u32_of_u64 (no_quantity n)) (tx ''An existing order has an invalid quantity.'')) (\<lambda>quantity.
               rbind (components m slug) (\<lambda>parts. fold_ok (add_listed_part quantity) parts listed)))
      | _ \<Rightarrow> Err (tx ''An existing order could not be decoded.''))"

definition listed_components ::
  "(json \<Rightarrow> string) \<Rightarrow> (string \<Rightarrow> string) \<Rightarrow> json \<Rightarrow> market_data \<Rightarrow> (ustr, (ustr, u32) btree) result" where
  "listed_components to_text debug body m =
     rbind (db_error (decode_orders to_text debug (\<lambda>_ _ _. True) body)) (\<lambda>decoded.
     rbind (order_slugs body) (\<lambda>slugs. fold_ok (add_listed_order m slugs) decoded []))"

section \<open>The state shown and checked\<close>

record protection_state =
  ps_plan :: protection_plan
  ps_snapshot_id :: "i64 option"
  ps_items :: "(ustr, allocation) btree"
  ps_issues :: "ustr list"

text \<open>A result that is an issue when it fails.\<close>

definition or_issue :: "(ustr, 'a) result \<Rightarrow> ustr list \<Rightarrow> 'a option \<times> ustr list" where
  "or_issue r issues = (case r of Ok a \<Rightarrow> (Some a, issues) | Err e \<Rightarrow> (None, issues @ [e]))"

definition global_keep :: "desk \<Rightarrow> (ustr, u32) result" where
  "global_keep dk =
     rbind (setting dk KEEP_KEY) (\<lambda>stored.
       case stored of None \<Rightarrow> Ok 0 | Some raw \<Rightarrow> ok_or (parse_u32 raw) (tx ''The keep-copy setting is invalid.''))"

definition latest_of :: "desk \<Rightarrow> (ustr, snapshot_summary option) result" where
  "latest_of dk = rbind (db_error (list_snapshots (dk_inventory_faults dk) 1 (dk_inventory dk))) (\<lambda>rows. Ok (first_of rows))"

definition count_of :: "(ustr, u32) btree option \<Rightarrow> ustr \<Rightarrow> u32" where
  "count_of m slug = unwrap_or (Option.bind m (\<lambda>r. map_of r slug)) 0"

definition item_allocation ::
  "(ustr, u32) btree option \<Rightarrow> (ustr, u32) btree option \<Rightarrow> i64 option \<Rightarrow> u32 \<Rightarrow> ustr \<times> u32 \<times> u32 \<Rightarrow> allocation" where
  "item_allocation required listed snapshot_id global item =
     (case item of (slug, owned, unavailable) \<Rightarrow>
       let row = allocate owned unavailable global (count_of required slug)
                   (map_option (\<lambda>l. unwrap_or (map_of l slug) 0) listed)
       in if required = None \<or> snapshot_id = None then row\<lparr> al_available := None, al_estimated := None \<rparr> else row)"

definition exceeds :: "allocation \<Rightarrow> bool" where
  "exceeds row \<longleftrightarrow> al_owned row < sat_add (al_protected row) (unwrap_or (al_listed row) 0)"

definition missing_allocation :: "(ustr, u32) btree option \<Rightarrow> i64 option \<Rightarrow> ustr \<times> u32 \<Rightarrow> allocation" where
  "missing_allocation listed snapshot_id p =
     \<lparr> al_owned = 0, al_protected = snd p, al_estimated = map_option (\<lambda>_. 0) snapshot_id,
       al_listed = map_option (\<lambda>l. unwrap_or (map_of l (fst p)) 0) listed,
       al_available = Option.bind snapshot_id (\<lambda>_. map_option (\<lambda>_. 0) listed) \<rparr>"

definition add_missing ::
  "(ustr, u32) btree option \<Rightarrow> i64 option \<Rightarrow> ustr \<times> u32 \<Rightarrow> (ustr, allocation) btree \<times> ustr list \<Rightarrow> (ustr, allocation) btree \<times> ustr list" where
  "add_missing listed snapshot_id p acc =
     (if 0 < snd p \<and> map_of (fst acc) (fst p) = None
      then (bt_insert (fst p) (missing_allocation listed snapshot_id p) (fst acc),
            snd acc @ [fst p @ tx '': '' @ tx (show_word (snd p)) @ tx '' protected copies are not present in the confirmed inventory.''])
      else acc)"

text \<open>The oracles of the commands: case folding, the bundled catalogue and the printers of the order decoder.\<close>

record protection_env =
  pe_lower :: "ustr \<Rightarrow> ustr"
  pe_bundled :: "(ustr \<times> ustr \<times> ustr option) list"
  pe_to_text :: "json \<Rightarrow> string"
  pe_debug :: "string \<Rightarrow> string"
  pe_plan :: plan_text

definition allocated ::
  "(ustr, u32) btree option \<Rightarrow> (ustr, u32) btree option \<Rightarrow> i64 option \<Rightarrow> u32 \<Rightarrow> (ustr, u32 \<times> u32) btree \<Rightarrow> ustr list
   \<Rightarrow> (ustr, allocation) btree \<times> ustr list" where
  "allocated required listed snapshot_id global owned issues =
     (let items = map (\<lambda>(slug, q). (slug, item_allocation required listed snapshot_id global (slug, q))) owned;
          over = map (\<lambda>(slug, _). slug @ tx '': protected and listed copies exceed the current inventory; review existing orders.'')
                   (filter (\<lambda>(_, row). exceeds row) items)
      in case required of
           None \<Rightarrow> (items, issues @ over)
         | Some req \<Rightarrow> fold (add_missing listed snapshot_id) req (items, issues @ over))"

definition protection_of ::
  "protection_env \<Rightarrow> desk \<Rightarrow> market_data \<Rightarrow> (ustr, json) result \<Rightarrow> (ustr, protection_state) result" where
  "protection_of pe dk m orders =
     rbind (load_plan (pe_plan pe) dk) (\<lambda>plan.
     rbind (latest_of dk) (\<lambda>latest.
       let snapshot_id = map_option ss_id latest;
           (required, issues) = or_issue (requirements m plan) [];
           (listed, issues) = or_issue (rbind orders (\<lambda>body. listed_components (pe_to_text pe) (pe_debug pe) body m)) issues;
           issues = (if snapshot_id = None then issues @ [tx ''Scan inventory before allocating copies.''] else issues)
       in rbind (global_keep dk) (\<lambda>global.
          rbind (owned_quantities (pe_lower pe) (pe_bundled pe) m dk) (\<lambda>owned.
            let (items, issues) = allocated required listed snapshot_id global owned issues
            in Ok \<lparr> ps_plan = plan, ps_snapshot_id = snapshot_id, ps_items = items, ps_issues = issues \<rparr>))))"

definition validate_snapshot :: "desk \<Rightarrow> i64 option \<Rightarrow> (ustr, unit) result" where
  "validate_snapshot dk snapshot_id =
     rbind (latest_of dk) (\<lambda>latest.
       if is_some_and latest (\<lambda>s. ss_source s = ''memory'' \<and> Some (ss_id s) = snapshot_id) then Ok ()
       else Err (tx ''Inventory changed or is not a verified game scan. Scan again and prepare a new batch.''))"

section \<open>Advisory inventories\<close>

record guidance_owned =
  go_count :: u32
  go_leveled :: u32

record guidance_inventory =
  gi_snapshot_id :: "i64 option"
  gi_items :: "(ustr, guidance_owned) btree"

definition guidance_ok :: "guidance_inventory \<Rightarrow> bool" where
  "guidance_ok gi \<longleftrightarrow>
     length (gi_items gi) \<le> 100000 \<and> list_all (\<lambda>(slug, row). valid_slug slug \<and> go_leveled row \<le> go_count row) (gi_items gi)"

text \<open>The inventory shown is the one scanned: the same market items in the same quantities.\<close>

definition shows_scan :: "market_data \<Rightarrow> guidance_inventory \<Rightarrow> (ustr, u32 \<times> u32) btree \<Rightarrow> bool" where
  "shows_scan m gi native_owned \<longleftrightarrow>
     (let shown = filter (\<lambda>(slug, _). has_item m slug) (gi_items gi)
      in length shown = length native_owned
         \<and> list_all (\<lambda>(slug, row). is_some_and (map_of native_owned slug) (\<lambda>(count, _). count = go_count row)) shown)"

definition guidance_row ::
  "market_data \<Rightarrow> (ustr, u32) btree option \<Rightarrow> u32 \<Rightarrow> ustr \<times> guidance_owned \<Rightarrow> ustr \<times> allocation" where
  "guidance_row m required global p =
     (let row = allocate (go_count (snd p)) (go_leveled (snd p)) global (count_of required (fst p)) None
      in (fst p, if required = None \<or> \<not> has_item m (fst p) then row\<lparr> al_estimated := None \<rparr> else row))"

definition advisory_state :: "desk \<Rightarrow> market_data \<Rightarrow> protection_plan \<Rightarrow> guidance_inventory \<Rightarrow> (ustr, protection_state) result" where
  "advisory_state dk m plan gi =
     (let (required, issues) = or_issue (requirements m plan) []
      in rbind (global_keep dk) (\<lambda>global.
         Ok \<lparr> ps_plan = plan, ps_snapshot_id = None, ps_items = map (guidance_row m required global) (gi_items gi),
              ps_issues = issues \<rparr>))"

definition guidance_state ::
  "protection_env \<Rightarrow> desk \<Rightarrow> market_data \<Rightarrow> (ustr, json) result \<Rightarrow> guidance_inventory \<Rightarrow> (ustr, protection_state) result" where
  "guidance_state pe dk m orders gi =
     (if \<not> guidance_ok gi then Err (tx ''Inventory quantities are invalid. Scan again or restore a valid backup.'')
      else rbind (load_plan (pe_plan pe) dk) (\<lambda>plan.
        if is_ok (validate_snapshot dk (gi_snapshot_id gi))
        then rbind (protection_of pe dk m orders) (\<lambda>native.
             rbind (owned_quantities (pe_lower pe) (pe_bundled pe) m dk) (\<lambda>native_owned.
               if gi_snapshot_id gi = ps_snapshot_id native \<and> is_ok (validate_snapshot dk (gi_snapshot_id gi))
                  \<and> shows_scan m gi native_owned
               then Ok native else advisory_state dk m plan gi))
        else advisory_state dk m plan gi))"


section \<open>Copies to sell\<close>

definition reserve_copies :: "desk \<Rightarrow> i64" where
  "reserve_copies dk =
     (case setting dk KEEP_KEY of
        Ok stored \<Rightarrow> unwrap_or (opt_filter (\<lambda>n. 0 \<le> n) (Option.bind stored (\<lambda>s. parse_i64 (trim (chars_of s))))) 0
      | Err _ \<Rightarrow> 0)"

definition sellable_qty :: "i64 \<Rightarrow> i64 \<Rightarrow> i64 \<Rightarrow> i64" where
  "sellable_qty count reserve leveled = max (i64_wrap (count - max reserve leveled)) 0"

definition add_sellable ::
  "protection_env \<Rightarrow> market_data \<Rightarrow> ustr set \<Rightarrow> ustr set \<Rightarrow> snapshot_item \<Rightarrow> (ustr, ustr \<times> i64 \<times> i64) btree
   \<Rightarrow> (ustr, ustr \<times> i64 \<times> i64) btree" where
  "add_sellable pe m traded traded_parts item owned =
     (case market_resolve (pe_lower pe) (pe_bundled pe) m (si_slug item) of
        None \<Rightarrow> owned
      | Some (name, slug) \<Rightarrow>
          if pe_lower pe name \<in> traded \<or> slug \<in> traded_parts then owned
          else bt_upd slug (\<lambda>row. let (name, count, leveled) = unwrap_or row (name, 0, 0)
                 in (name, sat_plus count (max (si_count item) 0), sat_plus leveled (max (si_leveled item) 0))) owned)"

definition sellable_inventory :: "protection_env \<Rightarrow> market_data \<Rightarrow> desk \<Rightarrow> (ustr, (ustr, ustr \<times> u32) btree) result" where
  "sellable_inventory pe m dk =
     rbind (rbind (load_plan (pe_plan pe) dk) (requirements m)) (\<lambda>protected.
     rbind (db_error (traded_names_since_scan (pe_lower pe) (dk_ledger_faults dk) (dk_ledger dk))) (\<lambda>traded.
     rbind (traded_set_parts (pe_lower pe) m traded) (\<lambda>traded_parts.
     rbind (db_error (latest_snapshot_items (dk_inventory_faults dk) (dk_inventory dk))) (\<lambda>items.
       Ok (map (\<lambda>(slug, name, count, leveled).
            let keep = max (reserve_copies dk) (sat_plus leveled (uint (unwrap_or (map_of protected slug) 0)))
            in (slug, name, unwrap_or (u32_of_i64 (sellable_qty count keep leveled)) 0))
          (fold (add_sellable pe m traded traded_parts) items []))))))"

text \<open>Complete sets: what the scarcest part allows. A recipe's quantities are positive.\<close>

definition complete_sets :: "(ustr, u32) btree \<Rightarrow> (ustr, u32) btree \<Rightarrow> u32" where
  "complete_sets quantities recipe =
     (case map (\<lambda>(part, required). unwrap_or (map_of quantities part) 0 div required) recipe of
        [] \<Rightarrow> 0 | q # qs \<Rightarrow> Min (set (q # qs)))"

definition session_quantities :: "protection_env \<Rightarrow> market_data \<Rightarrow> desk \<Rightarrow> (ustr, (ustr, u32) btree) result" where
  "session_quantities pe m dk =
     rbind (sellable_inventory pe m dk) (\<lambda>rows.
       Ok (fold (\<lambda>(slug, recipe) quantities. bt_insert slug (complete_sets quantities recipe) quantities) (session_recipes m)
             (map (\<lambda>(slug, _, count). (slug, count)) rows)))"

end
