(* ===== verification/Protection_Facts.thy ===== *)
theory Protection_Facts
  imports Protection
begin

text \<open>
  What protection promises: the listed copies are counted exactly, a copy is offered only when it is neither protected
  nor listed, advice never authorizes, and a saved plan is the one loaded.
\<close>

section \<open>Counting the listed copies\<close>

abbreviation copies_in :: "(ustr, u32) btree \<Rightarrow> ustr \<Rightarrow> nat" where
  "copies_in m part \<equiv> unat (unwrap_or (map_of m part) 0)"

definition order_copies :: "market_data \<Rightarrow> (string, ustr) btree \<Rightarrow> ustr \<Rightarrow> order_row \<Rightarrow> nat" where
  "order_copies m slugs part row =
     (case row of
        Supported n \<Rightarrow>
          if no_side n \<noteq> Sell then 0
          else unat (no_quantity n) *
            (case Option.bind (map_of slugs (no_id n)) (\<lambda>slug. case components m slug of Ok parts \<Rightarrow> Some parts | Err _ \<Rightarrow> None) of
               Some parts \<Rightarrow> copies_in parts part | None \<Rightarrow> 0)
      | _ \<Rightarrow> 0)"

lemma components_ok: "components m slug = Ok parts \<Longrightarrow> bt_ok parts"
  by (auto simp: components_def bt_ok_def dest: set_recipe_ok [unfolded bt_ok_def] split: if_splits)

lemma add_listed_part_exact:
  assumes "add_listed_part q p listed = Ok listed'" and "bt_ok listed"
  shows "bt_ok listed' \<and> (\<forall>part. copies_in listed' part = copies_in listed part + (if part = fst p then unat q * unat (snd p) else 0))"
proof -
  obtain a n where a: "checked_mul q (snd p) = Some a" and n: "checked_add (unwrap_or (map_of listed (fst p)) 0) a = Some n"
    and l: "listed' = bt_insert (fst p) n listed"
    using assms(1) by (auto simp: add_listed_part_def rbind_Ok_iff)
  from checked_mul_SomeD [OF a] checked_add_SomeD [OF n] assms(2) show ?thesis by (simp add: l)
qed

lemma add_listed_parts_exact:
  "fold_ok (add_listed_part q) parts listed = Ok listed' \<Longrightarrow> bt_ok listed \<Longrightarrow> distinct (map fst parts) \<Longrightarrow>
     bt_ok listed' \<and> (\<forall>part. copies_in listed' part = copies_in listed part + unat q * copies_in parts part)"
proof (induction parts arbitrary: listed)
  case (Cons p parts)
  then obtain l where l: "add_listed_part q p listed = Ok l" "fold_ok (add_listed_part q) parts l = Ok listed'"
    by (auto simp: rbind_Ok_iff)
  note A = add_listed_part_exact [OF l(1) Cons.prems(2)]
  have "fst p \<notin> fst ` set parts" "distinct (map fst parts)" using Cons.prems(3) by simp_all
  then have "map_of parts (fst p) = None" by (simp add: map_of_eq_None_iff)
  with Cons.IH [OF l(2)] A \<open>distinct (map fst parts)\<close> show ?case
    by (cases p) (auto simp: algebra_simps)
qed simp

lemma add_listed_order_exact:
  assumes "add_listed_order m slugs row listed = Ok listed'" and "bt_ok listed"
  shows "bt_ok listed' \<and> (\<forall>part. copies_in listed' part = copies_in listed part + order_copies m slugs part row)
     \<and> (\<exists>n. row = Supported n \<and> (no_side n = Sell \<longrightarrow> map_of slugs (no_id n) \<noteq> None))"
proof -
  obtain n where row: "row = Supported n" using assms(1) by (cases row) (auto simp: add_listed_order_def)
  show ?thesis
  proof (cases "no_side n = Sell")
    case False
    with assms row show ?thesis by (simp add: add_listed_order_def order_copies_def)
  next
    case True
    with assms(1) row obtain slug q parts where s: "map_of slugs (no_id n) = Some slug" "u32_of_u64 (no_quantity n) = Some q"
      and parts: "components m slug = Ok parts" "fold_ok (add_listed_part q) parts listed = Ok listed'"
      by (auto simp: add_listed_order_def rbind_Ok_iff)
    have "distinct (map fst parts)" by (rule distinct_keys_bt) (rule components_ok [OF parts(1)])
    from add_listed_parts_exact [OF parts(2) assms(2) this] s u32_of_u64_SomeD [OF s(2)] True parts(1)
    show ?thesis by (simp add: row order_copies_def)
  qed
qed

lemma add_listed_orders_exact:
  "fold_ok (add_listed_order m slugs) rows listed = Ok listed' \<Longrightarrow> bt_ok listed \<Longrightarrow>
     bt_ok listed' \<and> (\<forall>part. copies_in listed' part = copies_in listed part + sum_list (map (order_copies m slugs part) rows))
     \<and> (\<forall>row\<in>set rows. \<exists>n. row = Supported n \<and> (no_side n = Sell \<longrightarrow> map_of slugs (no_id n) \<noteq> None))"
proof (induction rows arbitrary: listed)
  case (Cons row rows)
  then obtain l where l: "add_listed_order m slugs row listed = Ok l" "fold_ok (add_listed_order m slugs) rows l = Ok listed'"
    by (auto simp: rbind_Ok_iff)
  note A = add_listed_order_exact [OF l(1) Cons.prems(2)]
  from Cons.IH [OF l(2)] A show ?case by (simp add: algebra_simps)
qed simp

text \<open>The copies counted as listed are exactly those of the account's sell orders: an order for a set counts its
  quantity times each part of its recipe, any other order its quantity of its own item, with no overflow; and an answer
  is given only if every row of the response was understood and every sell order has an identity.\<close>

lemma listed_copies_are_exact:
  assumes "listed_components to_text debug body m = Ok listed"
  shows "\<exists>rows slugs. decode_orders to_text debug (\<lambda>_ _ _. True) body = Ok rows \<and> order_slugs body = Ok slugs
     \<and> (\<forall>part. copies_in listed part = sum_list (map (order_copies m slugs part) rows))
     \<and> (\<forall>row\<in>set rows. \<exists>n. row = Supported n \<and> (no_side n = Sell \<longrightarrow> map_of slugs (no_id n) \<noteq> None))"
proof -
  obtain rows slugs where r: "decode_orders to_text debug (\<lambda>_ _ _. True) body = Ok rows" "order_slugs body = Ok slugs"
    and f: "fold_ok (add_listed_order m slugs) rows [] = Ok listed"
    using assms by (auto simp: listed_components_def rbind_Ok_iff)
  from add_listed_orders_exact [OF f] r show ?thesis by auto
qed

section \<open>Allocation\<close>

lemma sat_sub_sat_add: "unat (sat_sub o1 (max g (sat_add u r))) = unat o1 - max (unat g) (unat u + unat r)" for o1 g u r :: u32
proof -
  have "unat o1 < 2 ^ 32" using unsigned_less [of o1] by simp
  moreover have "unat (max g (sat_add u r)) = max (unat g) (unat (sat_add u r))"
    by (simp add: max_def word_le_nat_alt)
  ultimately show ?thesis by (simp add: unat_sat_sub unat_sat_add)
qed

lemma allocate_available:
  "al_available (allocate o1 u g r (Some l)) = Some n \<Longrightarrow> unat n = unat o1 - max (unat g) (unat u + unat r) - unat l"
proof -
  assume "al_available (allocate o1 u g r (Some l)) = Some n"
  then have "n = sat_sub (sat_sub o1 (max g (sat_add u r))) l" by (simp add: allocate_def Let_def)
  then show ?thesis by (simp only: unat_sat_sub [of "sat_sub o1 (max g (sat_add u r))"] sat_sub_sat_add)
qed

lemma fold_add_missing_ok: "bt_ok (fst acc) \<Longrightarrow> bt_ok (fst (fold (add_missing listed snap) req acc))"
  by (induction req arbitrary: acc) (simp_all add: add_missing_def)

text \<open>An entry either was there or stands for copies that are not in the inventory.\<close>

lemma fold_add_missing:
  assumes "map_of (fst (fold (add_missing listed snap) req acc)) slug = Some row" and "bt_ok (fst acc)"
  shows "map_of (fst acc) slug = Some row
    \<or> map_of (fst acc) slug = None \<and> (\<exists>n>0. row = missing_allocation listed snap (slug, n))"
  using assms
proof (induction req arbitrary: acc)
  case (Cons p req)
  have ok: "bt_ok (fst (add_missing listed snap p acc))" using Cons.prems(2) by (simp add: add_missing_def)
  have "map_of (fst (add_missing listed snap p acc)) slug = Some row
      \<or> map_of (fst (add_missing listed snap p acc)) slug = None \<and> (\<exists>n>0. row = missing_allocation listed snap (slug, n))"
    using Cons.IH [of "add_missing listed snap p acc"] Cons.prems(1) ok by simp
  then show ?case
    using Cons.prems(2) by (cases p) (auto simp: add_missing_def split: if_splits)
qed simp

lemma map_of_map_entry: "map_of (map (\<lambda>(k, v). (k, f k v)) xs) k = map_option (f k) (map_of xs k)"
  by (induction xs) auto

text \<open>An entry of the state is the allocation of an item owned, or of one that is required and not there.\<close>

lemma protection_row:
  assumes st: "protection_of pe dk m orders = Ok st" and row: "map_of (ps_items st) slug = Some row"
  obtains latest required listed g owned where "latest_of dk = Ok latest" "ps_snapshot_id st = map_option ss_id latest"
    "required = (case requirements m (ps_plan st) of Ok r \<Rightarrow> Some r | Err _ \<Rightarrow> None)"
    "listed = (case rbind orders (\<lambda>body. listed_components (pe_to_text pe) (pe_debug pe) body m) of Ok l \<Rightarrow> Some l | Err _ \<Rightarrow> None)"
    "global_keep dk = Ok g" "owned_quantities (pe_lower pe) (pe_bundled pe) m dk = Ok owned"
    "(\<exists>q. map_of owned slug = Some q \<and> row = item_allocation required listed (map_option ss_id latest) g (slug, q))
     \<or> map_of owned slug = None \<and> required \<noteq> None
       \<and> (\<exists>k>0. row = missing_allocation listed (map_option ss_id latest) (slug, k))"
proof -
  obtain plan latest where plan: "load_plan (pe_plan pe) dk = Ok plan" and latest: "latest_of dk = Ok latest"
    using st by (auto simp: protection_of_def rbind_Ok_iff)
  let ?req = "requirements m plan" and ?lst = "rbind orders (\<lambda>body. listed_components (pe_to_text pe) (pe_debug pe) body m)"
  define required where "required = (case ?req of Ok r \<Rightarrow> Some r | Err _ \<Rightarrow> None)"
  define listed where "listed = (case ?lst of Ok l \<Rightarrow> Some l | Err _ \<Rightarrow> None)"
  define snap where "snap = map_option ss_id latest"
  obtain g owned iss items where g: "global_keep dk = Ok g"
    and owned: "owned_quantities (pe_lower pe) (pe_bundled pe) m dk = Ok owned"
    and items: "ps_items st = fst (allocated required listed snap g owned iss)" and ps: "ps_plan st = plan" "ps_snapshot_id st = snap"
    using st plan latest
    by (cases ?req; cases ?lst)
       (auto simp: protection_of_def rbind_Ok_iff or_issue_def required_def listed_def snap_def case_prod_beta Let_def)
  let ?items = "map (\<lambda>(slug, q). (slug, item_allocation required listed snap g (slug, q))) owned"
  have ok: "bt_ok ?items" using owned_quantities_ok [OF owned] by simp
  have look: "map_of ?items slug = map_option (\<lambda>q. item_allocation required listed snap g (slug, q)) (map_of owned slug)"
    by (rule map_of_map_entry)
  have shape: "(\<exists>q. map_of owned slug = Some q \<and> row = item_allocation required listed snap g (slug, q))
      \<or> map_of owned slug = None \<and> required \<noteq> None \<and> (\<exists>k>0. row = missing_allocation listed snap (slug, k))"
  proof (cases required)
    case None
    with row look show ?thesis by (cases "map_of owned slug") (auto simp: items allocated_def Let_def)
  next
    case (Some req)
    then obtain iss' where "ps_items st = fst (fold (add_missing listed snap) req (?items, iss'))"
      by (simp add: items allocated_def Let_def)
    with fold_add_missing [of listed snap req "(?items, iss')" slug row] row ok look Some
    show ?thesis by (cases "map_of owned slug") auto
  qed
  show ?thesis
    by (rule that [OF latest _ _ _ g owned])
       (use ps shape in \<open>simp_all add: snap_def required_def listed_def\<close>)
qed

text \<open>C32: A copy is offered only when it is free: what is shown available of an item is the copies owned less those
  protected (the larger of the global keep and the unavailable plus the reserved) less those already listed, never
  below zero; and nothing is available at all unless a scan was recorded, the plan's requirements could be computed
  and the current orders could be read.\<close>

theorem available_copies_are_free:
  assumes st: "protection_of pe dk m orders = Ok st"
    and row: "map_of (ps_items st) slug = Some row" and avail: "al_available row = Some n"
  shows "\<exists>req listed latest g owned. requirements m (ps_plan st) = Ok req
     \<and> rbind orders (\<lambda>body. listed_components (pe_to_text pe) (pe_debug pe) body m) = Ok listed
     \<and> latest_of dk = Ok (Some latest) \<and> ps_snapshot_id st = Some (ss_id latest)
     \<and> global_keep dk = Ok g \<and> owned_quantities (pe_lower pe) (pe_bundled pe) m dk = Ok owned
     \<and> (let (hv, un) = unwrap_or (map_of owned slug) (0, 0)
        in unat n = unat hv - max (unat g) (unat un + copies_in req slug) - copies_in listed slug)"
proof -
  obtain latest required listed g owned where f: "latest_of dk = Ok latest" "ps_snapshot_id st = map_option ss_id latest"
      "required = (case requirements m (ps_plan st) of Ok r \<Rightarrow> Some r | Err _ \<Rightarrow> None)"
      "listed = (case rbind orders (\<lambda>body. listed_components (pe_to_text pe) (pe_debug pe) body m) of Ok l \<Rightarrow> Some l | Err _ \<Rightarrow> None)"
      "global_keep dk = Ok g" "owned_quantities (pe_lower pe) (pe_bundled pe) m dk = Ok owned"
    and shape: "(\<exists>q. map_of owned slug = Some q \<and> row = item_allocation required listed (map_option ss_id latest) g (slug, q))
      \<or> map_of owned slug = None \<and> required \<noteq> None
        \<and> (\<exists>k>0. row = missing_allocation listed (map_option ss_id latest) (slug, k))"
    using st row by (rule protection_row)
  show ?thesis
  proof (cases "map_of owned slug")
    case None
    with shape avail have "latest \<noteq> None" "listed \<noteq> None" "required \<noteq> None" "n = 0"
      by (auto simp: missing_allocation_def bind_eq_Some_conv)
    then show ?thesis using f None by (auto split: sum.splits)
  next
    case (Some q)
    obtain hv un where q: "q = (hv, un)" by (cases q)
    from shape Some have r: "row = item_allocation required listed (map_option ss_id latest) g (slug, q)" by auto
    with avail q obtain req l where "required = Some req" "latest \<noteq> None" "listed = Some l"
      and "al_available (allocate hv un g (unwrap_or (map_of req slug) 0) (Some (unwrap_or (map_of l slug) 0))) = Some n"
      by (cases required; cases listed) (auto simp: item_allocation_def Let_def count_of_def allocate_def split: if_splits)
    with allocate_available show ?thesis using f Some q by (auto split: sum.splits)
  qed
qed

section \<open>Advice never authorizes\<close>

lemma same_keys:
  assumes "distinct (map fst xs)" "distinct (map fst ys)" "length xs = length ys" "\<And>k. k \<in> fst ` set xs \<Longrightarrow> k \<in> fst ` set ys"
  shows "fst ` set xs = fst ` set ys"
proof (rule card_subset_eq)
  show "card (fst ` set xs) = card (fst ` set ys)"
    using assms(1-3) distinct_card [of "map fst xs"] distinct_card [of "map fst ys"] by simp
qed (use assms(4) in auto)

lemma shows_scan_iff:
  assumes "shows_scan m gi owned" and "bt_ok (gi_items gi)" and "bt_ok owned"
  shows "(\<forall>slug row. map_of (gi_items gi) slug = Some row \<and> has_item m slug \<longrightarrow> (\<exists>u. map_of owned slug = Some (go_count row, u)))
     \<and> (\<forall>slug. map_of owned slug \<noteq> None \<longrightarrow> has_item m slug \<and> map_of (gi_items gi) slug \<noteq> None)"
proof -
  let ?shown = "filter (\<lambda>(slug, _). has_item m slug) (gi_items gi)"
  have ok: "bt_ok ?shown" using assms(2) by simp
  have all: "is_some_and (map_of owned (fst p)) (\<lambda>(count, _). count = go_count (snd p))" if "p \<in> set ?shown" for p
    using assms(1) that by (auto simp: shows_scan_def Let_def list_all_iff)
  have counts: "\<exists>u. map_of owned slug = Some (go_count row, u)" if "map_of (gi_items gi) slug = Some row" "has_item m slug" for slug row
    using all [of "(slug, row)"] that by (cases "map_of owned slug") (auto dest: map_of_SomeD)
  have keys: "fst ` set ?shown = fst ` set owned"
  proof (rule same_keys)
    show "length ?shown = length owned" using assms(1) by (simp add: shows_scan_def Let_def)
    fix k assume "k \<in> fst ` set ?shown"
    then obtain p where p: "p \<in> set ?shown" "k = fst p" by blast
    with all [OF p(1)] have "map_of owned k \<noteq> None" by (cases "map_of owned k") simp_all
    then show "k \<in> fst ` set owned" by (simp add: map_of_eq_None_iff)
  qed (use distinct_keys_bt [OF ok] distinct_keys_bt [OF assms(3)] in simp_all)
  have shown: "k \<in> fst ` set ?shown" if "map_of owned k \<noteq> None" for k
  proof -
    have "k \<in> fst ` set owned" using that by (simp add: map_of_eq_None_iff)
    then show ?thesis by (simp only: keys)
  qed
  have "has_item m k \<and> map_of (gi_items gi) k \<noteq> None" if has: "map_of owned k \<noteq> None" for k
  proof -
    obtain p where "p \<in> set ?shown" "fst p = k" using shown [OF has] by blast
    then have "has_item m k" "k \<in> fst ` set (gi_items gi)" by (auto simp: case_prod_beta)
    then show ?thesis using map_of_eq_None_iff [of "gi_items gi" k] by blast
  qed
  with counts show ?thesis by blast
qed

lemma advisory_offers_nothing:
  "advisory_state dk m plan gi = Ok st \<Longrightarrow> map_of (ps_items st) slug = Some row \<Longrightarrow> al_available row = None \<and> ps_snapshot_id st = None"
proof -
  assume a: "advisory_state dk m plan gi = Ok st" and row: "map_of (ps_items st) slug = Some row"
  let ?required = "fst (or_issue (requirements m plan) [])"
  obtain g where items: "ps_items st = map (guidance_row m ?required g) (gi_items gi)" "ps_snapshot_id st = None"
  proof -
    from a obtain g where "st = \<lparr> ps_plan = plan, ps_snapshot_id = None, ps_items = map (guidance_row m ?required g) (gi_items gi),
        ps_issues = snd (or_issue (requirements m plan) []) \<rparr>"
      by (auto simp: advisory_state_def rbind_Ok_iff case_prod_beta Let_def)
    then show ?thesis using that [of g] by simp
  qed
  with row have "(slug, row) \<in> set (map (guidance_row m ?required g) (gi_items gi))" by (metis map_of_SomeD)
  then show ?thesis by (auto simp: items guidance_row_def allocate_def Let_def)
qed

text \<open>Advice cannot authorize a sale: an inventory handed in by the webview gets available quantities only when it
  is the one just scanned from the game's memory, that is, it names the latest snapshot, that snapshot came from
  memory, and it shows exactly the market items owned in exactly the owned quantities; the answer is then the native
  state itself. In every other case nothing is available.\<close>

lemma guidance_never_authorizes:
  assumes gd: "guidance_state pe dk m orders gi = Ok st" and ok: "bt_ok (gi_items gi)"
    and row: "map_of (ps_items st) slug = Some row" and avail: "al_available row \<noteq> None"
  shows "protection_of pe dk m orders = Ok st \<and> ps_snapshot_id st = gi_snapshot_id gi
     \<and> (\<exists>latest. latest_of dk = Ok (Some latest) \<and> ss_source latest = ''memory'' \<and> gi_snapshot_id gi = Some (ss_id latest))
     \<and> (\<exists>owned. owned_quantities (pe_lower pe) (pe_bundled pe) m dk = Ok owned
          \<and> (\<forall>slug row. map_of (gi_items gi) slug = Some row \<and> has_item m slug \<longrightarrow> (\<exists>u. map_of owned slug = Some (go_count row, u)))
          \<and> (\<forall>slug. map_of owned slug \<noteq> None \<longrightarrow> has_item m slug \<and> map_of (gi_items gi) slug \<noteq> None))"
proof -
  obtain plan where plan: "load_plan (pe_plan pe) dk = Ok plan"
    using gd by (auto simp: guidance_state_def guard_Ok_iff rbind_Ok_iff)
  have no: "advisory_state dk m plan gi \<noteq> Ok st" using advisory_offers_nothing [of dk m plan gi st slug row] row avail by blast
  have valid: "is_ok (validate_snapshot dk (gi_snapshot_id gi))"
    using gd plan no by (auto simp: guidance_state_def guard_Ok_iff split: if_splits)
  obtain native owned where native: "protection_of pe dk m orders = Ok native"
    and owned: "owned_quantities (pe_lower pe) (pe_bundled pe) m dk = Ok owned"
    and pick: "(if gi_snapshot_id gi = ps_snapshot_id native \<and> shows_scan m gi owned then Ok native else advisory_state dk m plan gi) = Ok st"
    using gd plan valid by (auto simp: guidance_state_def guard_Ok_iff rbind_Ok_iff)
  have yes: "gi_snapshot_id gi = ps_snapshot_id native" "shows_scan m gi owned" "native = st"
    using pick no by (auto split: if_splits)
  obtain latest where "latest_of dk = Ok (Some latest)" "ss_source latest = ''memory''" "gi_snapshot_id gi = Some (ss_id latest)"
  proof -
    have "validate_snapshot dk (gi_snapshot_id gi) = Ok ()"
      using valid by (cases "validate_snapshot dk (gi_snapshot_id gi)") auto
    then obtain latest where "latest_of dk = Ok latest" "is_some_and latest (\<lambda>s. ss_source s = ''memory'' \<and> Some (ss_id s) = gi_snapshot_id gi)"
      by (auto simp: validate_snapshot_def rbind_Ok_iff split: if_splits)
    then show ?thesis using that by (cases latest) auto
  qed
  with native owned yes shows_scan_iff [OF yes(2) ok owned_quantities_ok [OF owned]] show ?thesis by auto
qed

section \<open>Saving the plan\<close>

lemma put_setting_lookup: "map_of (put_setting key v rows) = (map_of rows)(key \<mapsto> v)"
  by (induction key v rows rule: put_setting.induct) (auto simp: fun_eq_iff)

text \<open>A saved plan is the one in force: after a save the loaded plan has the chosen goal and, for every item of the
  market, the chosen reserve, all of its reserves are of market items and at most a million, and what it requires can
  be computed; no other setting and no snapshot has changed. A refused or failed save changes nothing.\<close>

lemma saved_plan_is_in_force:
  assumes parses: "\<And>p. pt_parse tt (pt_print tt p) = Some p"
    and read: "dk_inventory_faults dk IvRead = None"
    and save: "save_plan tt m plan dk = (res, dk')"
  shows "case res of
       Err _ \<Rightarrow> dk' = dk
     | Ok _ \<Rightarrow> \<exists>p. load_plan tt dk' = Ok p \<and> pl_goal p = pl_goal plan
         \<and> (\<forall>slug. has_item m slug \<longrightarrow> filter (\<lambda>e. fst e = slug) (pl_reserves p) = filter (\<lambda>e. fst e = slug) (pl_reserves plan))
         \<and> list_all (reserve_ok m) (pl_reserves p) \<and> is_ok (requirements m p)
         \<and> (\<forall>key. key \<noteq> PLAN_KEY \<longrightarrow> setting dk' key = setting dk key)
         \<and> iv_snapshots (dk_inventory dk') = iv_snapshots (dk_inventory dk) \<and> iv_items (dk_inventory dk') = iv_items (dk_inventory dk)"
proof -
  define stored where "stored = (case load_plan tt dk of Ok p \<Rightarrow> p | Err _ \<Rightarrow> no_plan)"
  define p where "p = plan\<lparr> pl_reserves := filter (\<lambda>(slug, count). has_item m slug \<or> map_of (pl_reserves stored) slug \<noteq> Some count) (pl_reserves plan) \<rparr>"
  have v: "validate_and_store tt m p dk = (res, dk')"
    using save by (simp add: save_plan_def p_def stored_def Let_def)
  show ?thesis
  proof (cases "(\<exists>e. res = Err e) ")
    case True
    with v show ?thesis
      by (auto simp: validate_and_store_def set_setting_def db_error_def iv_run_def Let_def split: if_splits sum.splits option.splits)
  next
    case False
    then obtain u where res: "res = Ok u" by (cases res) auto
    with v have ok: "list_all (reserve_ok m) (pl_reserves p)" "is_ok (requirements m p)"
      and dk': "dk' = dk\<lparr> dk_inventory := (dk_inventory dk)\<lparr> iv_settings := put_setting PLAN_KEY (pt_print tt p) (iv_settings (dk_inventory dk)) \<rparr> \<rparr>"
      by (auto simp: validate_and_store_def set_setting_def db_error_def Let_def split: if_splits sum.splits)
    have "load_plan tt dk' = Ok p"
      using read by (simp add: load_plan_def setting_def get_setting_def iv_run_def dk' put_setting_lookup db_error_def parses)
    moreover have "setting dk' key = setting dk key" if "key \<noteq> PLAN_KEY" for key
      using that by (simp add: setting_def get_setting_def dk' put_setting_lookup)
    moreover have "filter (\<lambda>e. fst e = slug) (pl_reserves p) = filter (\<lambda>e. fst e = slug) (pl_reserves plan)" if "has_item m slug" for slug
      using that by (auto simp: p_def intro!: filter_cong)
    moreover have "pl_goal p = pl_goal plan" by (simp add: p_def)
    ultimately show ?thesis using ok by (simp add: res dk')
  qed
qed


section \<open>Examples\<close>

definition countable_text :: plan_text where
  "countable_text =
     \<lparr> pt_print = (\<lambda>p. replicate (to_nat (pl_reserves p, pl_goal p)) CHR ''1''),
       pt_parse = (\<lambda>s. let (reserves, goal) = from_nat (length s) in Some \<lparr> pl_reserves = reserves, pl_goal = goal \<rparr>) \<rparr>"

lemma countable_text_reads: "pt_parse countable_text (pt_print countable_text p) = Some p"
  by (simp add: countable_text_def)

definition demo_market :: market_data where
  "demo_market = \<lparr> md_items = [tx ''p''], md_catalog = [], md_path_to_info = [(tx ''/P'', tx ''P'', tx ''p'')], md_sets = [] \<rparr>"

definition demo_desk :: desk where
  "demo_desk =
     \<lparr> dk_inventory =
         \<lparr> iv_snapshots = [\<lparr> sn_id = 1, sn_taken_at = ''t'', sn_source = ''memory'', sn_game_version = None \<rparr>],
           iv_items = [\<lparr> sr_snapshot_id = 1, sr_item = \<lparr> si_slug = tx ''/P'', si_count = 5, si_leveled = 1 \<rparr> \<rparr>], iv_settings = [] \<rparr>,
       dk_inventory_faults = (\<lambda>_. None),
       dk_ledger = \<lparr> lg_trades = [], lg_events = [], lg_allowance = None, lg_snapshots = [1], lg_run_id = '''' \<rparr>,
       dk_ledger_faults = (\<lambda>_. None) \<rparr>"

definition demo_env :: protection_env where
  "demo_env = \<lparr> pe_lower = lower_ascii, pe_bundled = [], pe_to_text = (\<lambda>_. ''''), pe_debug = (\<lambda>s. s), pe_plan = countable_text \<rparr>"

definition demo_sell_order :: json where
  "demo_sell_order = JObj [(''id'', JStr ''o''), (''itemId'', JStr ''i''), (''type'', JStr ''sell''), (''platinum'', JPosInt 10),
     (''quantity'', JPosInt 2), (''item'', JObj [(''slug'', JStr ''p'')])]"

definition demo_listed_order :: normalized_order where
  "demo_listed_order = \<lparr> no_id = ''o'', no_item_id = ''i'', no_side = Sell, no_platinum = 10, no_quantity = 2, no_per_trade = None,
     no_visible = None, no_rank = None, no_subtype = None \<rparr>"

definition demo_orders :: json where
  "demo_orders = JObj [(''data'', JArr [demo_sell_order])]"

lemma demo_decoded: "decode_orders to_text debug (\<lambda>_ _ _. True) demo_orders = Ok [Supported demo_listed_order]"
proof -
  have "row_means (\<lambda>_ _ _. True) demo_sell_order None demo_listed_order"
    by (simp add: row_means_def demo_sell_order_def demo_listed_order_def side_agrees_def field_means_def null_or_absent_def well_formed_order_def)
  then show ?thesis unfolding decode_orders_Ok
    by (intro exI [of _ "[(demo_sell_order, None)]"] exI [of _ "[demo_listed_order]"]) (simp add: response_rows_def demo_orders_def)
qed

lemma demo_slugs: "order_slugs demo_orders = Ok [(''o'', tx ''p'')]"
  by (simp add: order_slugs_def demo_orders_def demo_sell_order_def order_slug_def map_filter_simps chars_of_ascii bt_of_def bt_insert_def)

lemma demo_listed: "listed_components to_text debug demo_orders demo_market = Ok [(tx ''p'', 2)]"
proof -
  have "\<not> is_set (tx ''p'')" by (simp add: Text.ends_with_def tx_def)
  moreover have "u32_of_u64 2 = Some 2" by (simp add: u32_of_u64_def)
  ultimately show ?thesis
    by (simp add: listed_components_def demo_decoded demo_slugs add_listed_order_def demo_listed_order_def components_def
        add_listed_part_def checked_mul_def checked_add_def bt_insert_def)
qed

lemma listed_copies_are_exact_witness:
  "listed_components (\<lambda>_. '''') (\<lambda>s. s) demo_orders demo_market = Ok [(tx ''p'', 2)]
     \<and> copies_in [(tx ''p'', 2)] (tx ''p'') = sum_list (map (order_copies demo_market [(''o'', tx ''p'')] (tx ''p'')) [Supported demo_listed_order])"
proof -
  obtain rows slugs where r: "decode_orders (\<lambda>_. '''') (\<lambda>s. s) (\<lambda>_ _ _. True) demo_orders = Ok rows" "order_slugs demo_orders = Ok slugs"
    and all: "\<forall>part. copies_in [(tx ''p'', 2)] part = sum_list (map (order_copies demo_market slugs part) rows)"
    using listed_copies_are_exact [OF demo_listed] by blast
  have "rows = [Supported demo_listed_order]" "slugs = [(''o'', tx ''p'')]" using r by (simp_all add: demo_decoded demo_slugs)
  with spec [OF all, of "tx ''p''"] demo_listed show ?thesis by simp
qed

lemma demo_latest: "latest_of demo_desk = Ok (Some \<lparr> ss_id = 1, ss_taken_at = ''t'', ss_source = ''memory'', ss_item_count = 1 \<rparr>)"
  by (simp add: latest_of_def list_snapshots_def iv_run_def demo_desk_def sql_limit_def)

lemma demo_no_plan: "load_plan tt demo_desk = Ok no_plan"
  by (simp add: load_plan_def setting_def get_setting_def iv_run_def demo_desk_def db_error_def)

lemma demo_keep: "global_keep demo_desk = Ok 0"
  by (simp add: global_keep_def setting_def get_setting_def iv_run_def demo_desk_def db_error_def)

lemma demo_owned: "owned_quantities lower_ascii [] demo_market demo_desk = Ok [(tx ''p'', 5, 1)]"
proof -
  have "\<not> is_set (tx ''p'')" "\<not> is_relic (tx ''p'')" by (simp_all add: Text.ends_with_def tx_def is_relic_def)
  moreover have "market_resolve lower_ascii [] demo_market (tx ''/P'') = Some (tx ''P'', tx ''p'')"
    by (simp add: market_resolve_def resolve_path_def market_tables_def demo_market_def) (simp add: tx_def)
  moreover have "traded_names_since_scan lower_ascii (dk_ledger_faults demo_desk) (dk_ledger demo_desk) = Ok {}"
    by (simp add: traded_names_since_scan_def read_allowance_def run_step_def demo_desk_def)
  moreover have "latest_snapshot_items (dk_inventory_faults demo_desk) (dk_inventory demo_desk)
      = Ok [\<lparr> si_slug = tx ''/P'', si_count = 5, si_leveled = 1 \<rparr>]"
    by (simp add: latest_snapshot_items_def iv_run_def demo_desk_def latest_id_def items_of_def)
  moreover have "traded_set_parts lower_ascii demo_market {} = Ok {}" by (simp add: traded_set_parts_def demo_market_def)
  ultimately show ?thesis
    by (simp add: owned_quantities_def db_error_def add_owned_def has_item_def demo_market_def u32_of_i64_def checked_add_def bt_insert_def)
qed

definition demo_allocation :: allocation where
  "demo_allocation = \<lparr> al_owned = 5, al_protected = 1, al_estimated = Some 4, al_listed = Some 2, al_available = Some 2 \<rparr>"

definition demo_state :: protection_state where
  "demo_state = \<lparr> ps_plan = no_plan, ps_snapshot_id = Some 1, ps_items = [(tx ''p'', demo_allocation)], ps_issues = [] \<rparr>"

lemma demo_protection: "protection_of demo_env demo_desk demo_market (Ok demo_orders) = Ok demo_state"
  by (simp add: protection_of_def demo_env_def demo_no_plan demo_latest demo_keep demo_owned demo_listed requirements_def no_plan_def
      or_issue_def allocated_def item_allocation_def allocate_def count_of_def sat_add_def sat_sub_def exceeds_def demo_state_def
      demo_allocation_def)

theorem available_copies_are_free_witness:
  "map_of (ps_items demo_state) (tx ''p'') = Some demo_allocation \<and> al_available demo_allocation = Some 2
     \<and> unat (2 :: u32) = unat (5 :: u32) - max (unat (0 :: u32)) (unat (1 :: u32) + copies_in [] (tx ''p'')) - copies_in [(tx ''p'', 2)] (tx ''p'')"
proof -
  have row: "map_of (ps_items demo_state) (tx ''p'') = Some demo_allocation" and av: "al_available demo_allocation = Some 2"
    by (simp_all add: demo_state_def demo_allocation_def)
  from available_copies_are_free [OF demo_protection row av] row av show ?thesis
    by (simp add: demo_env_def demo_listed demo_keep demo_owned demo_state_def requirements_def no_plan_def)
qed

definition demo_guidance :: guidance_inventory where
  "demo_guidance = \<lparr> gi_snapshot_id = Some 1, gi_items = [(tx ''p'', \<lparr> go_count = 5, go_leveled = 1 \<rparr>)] \<rparr>"

lemma demo_guided: "guidance_state demo_env demo_desk demo_market (Ok demo_orders) demo_guidance = Ok demo_state"
proof -
  have "guidance_ok demo_guidance"
    by (simp add: guidance_ok_def demo_guidance_def valid_slug_def byte_len_def char_len_def is_control_def tx_def)
  moreover have "validate_snapshot demo_desk (gi_snapshot_id demo_guidance) = Ok ()"
    by (simp add: validate_snapshot_def demo_latest demo_guidance_def)
  moreover have "pe_lower demo_env = lower_ascii" "pe_bundled demo_env = []" by (simp_all add: demo_env_def)
  moreover have "shows_scan demo_market demo_guidance [(tx ''p'', 5, 1)]"
    by (simp add: shows_scan_def demo_guidance_def has_item_def demo_market_def)
  moreover have "gi_snapshot_id demo_guidance = ps_snapshot_id demo_state" by (simp add: demo_guidance_def demo_state_def)
  ultimately show ?thesis
    by (simp add: guidance_state_def demo_no_plan demo_protection demo_owned)
qed

lemma guidance_never_authorizes_witness:
  "guidance_state demo_env demo_desk demo_market (Ok demo_orders) demo_guidance = Ok demo_state
     \<and> al_available demo_allocation \<noteq> None \<and> ps_snapshot_id demo_state = gi_snapshot_id demo_guidance"
proof -
  have ok: "bt_ok (gi_items demo_guidance)" by (simp add: demo_guidance_def bt_ok_def)
  have row: "map_of (ps_items demo_state) (tx ''p'') = Some demo_allocation" and av: "al_available demo_allocation \<noteq> None"
    by (simp_all add: demo_state_def demo_allocation_def)
  from guidance_never_authorizes [OF demo_guided ok row av] demo_guided av show ?thesis by simp
qed

definition demo_choice :: protection_plan where
  "demo_choice = \<lparr> pl_reserves = [(tx ''p'', 2)], pl_goal = None \<rparr>"

lemma saved_plan_is_in_force_witness:
  "\<exists>p. load_plan countable_text (snd (save_plan countable_text demo_market demo_choice demo_desk)) = Ok p
     \<and> filter (\<lambda>e. fst e = tx ''p'') (pl_reserves p) = [(tx ''p'', 2)]"
proof -
  obtain res dk' where save: "save_plan countable_text demo_market demo_choice demo_desk = (res, dk')"
    by (cases "save_plan countable_text demo_market demo_choice demo_desk")
  have item: "has_item demo_market (tx ''p'')" by (simp add: has_item_def demo_market_def)
  have valid: "valid_slug (tx ''p'')" by (simp add: valid_slug_def byte_len_def char_len_def is_control_def tx_def)
  have "res = Ok ()"
    using save item valid
    by (auto simp: save_plan_def demo_no_plan validate_and_store_def demo_choice_def no_plan_def reserve_ok_def requirements_def
        set_setting_def iv_run_def demo_desk_def db_error_def)
  moreover have "dk_inventory_faults demo_desk IvRead = None" by (simp add: demo_desk_def)
  note saved_plan_is_in_force [OF countable_text_reads this save]
  ultimately obtain p where p: "load_plan countable_text dk' = Ok p"
    and same: "\<forall>slug. has_item demo_market slug \<longrightarrow>
        filter (\<lambda>e. fst e = slug) (pl_reserves p) = filter (\<lambda>e. fst e = slug) (pl_reserves demo_choice)"
    by auto
  have "filter (\<lambda>e. fst e = tx ''p'') (pl_reserves p) = [(tx ''p'', 2)]"
    using spec [OF same, of "tx ''p''"] item by (simp add: demo_choice_def)
  with p show ?thesis by (simp add: save)
qed


section \<open>Copies and sets to sell\<close>

lemma complete_sets_can_be_built:
  assumes "(part, required) \<in> set recipe"
  shows "unat (complete_sets quantities recipe) * unat required \<le> copies_in quantities part"
proof -
  let ?q = "\<lambda>(part, required). unwrap_or (map_of quantities part) 0 div required"
  have "complete_sets quantities recipe = Min (set (map ?q recipe))"
    using assms by (cases recipe) (auto simp: complete_sets_def)
  moreover have "Min (set (map ?q recipe)) \<le> ?q (part, required)"
    using assms by (intro Min_le) (auto intro: image_eqI [of _ _ "(part, required)"])
  ultimately have "unat (complete_sets quantities recipe) \<le> copies_in quantities part div unat required"
    by (simp add: word_le_nat_alt unat_div)
  then have "unat (complete_sets quantities recipe) * unat required \<le> copies_in quantities part div unat required * unat required"
    by (rule mult_le_mono1)
  also have "\<dots> \<le> copies_in quantities part" by (simp add: div_times_less_eq_dividend)
  finally show ?thesis .
qed

text \<open>What the tray offers of an item never exceeds the copies scanned less those kept back.\<close>

lemma sellable_qty_le: "i64_range count \<Longrightarrow> i64_range reserve \<Longrightarrow> 0 \<le> count \<Longrightarrow> 0 \<le> reserve \<Longrightarrow> i64_range leveled \<Longrightarrow> 0 \<le> leveled \<Longrightarrow>
  sellable_qty count reserve leveled = max (count - max reserve leveled) 0"
proof -
  assume a: "i64_range count" "i64_range reserve" "0 \<le> count" "0 \<le> reserve" "i64_range leveled" "0 \<le> leveled"
  have "i64_range (count - max reserve leveled)" using a unfolding i64_range_def by linarith
  then show ?thesis by (simp add: sellable_qty_def)
qed

end
