(* ===== verification/Batch_Review.thy ===== *)
theory Batch_Review
  imports Protection_Facts Listing_Outcomes
begin

text \<open>
  What a reviewed batch is checked for before each of its items is sent (\<open>validate_session_plan\<close> and what it calls in
  \<open>commands/listing.rs\<close>): the scan it was made from, the copies it would protect, and a Trade Session's budget.
\<close>

section \<open>Messages\<close>

text \<open>A text of the protection code as the bytes of a \<open>String\<close>.\<close>

definition utf8_of :: "int \<Rightarrow> int list" where
  "utf8_of c =
     (if c < 128 then [c]
      else if c < 2048 then [192 + c div 64, 128 + c mod 64]
      else if c < 65536 then [224 + c div 4096, 128 + c div 64 mod 64, 128 + c mod 64]
      else [240 + c div 262144, 128 + c div 4096 mod 64, 128 + c div 64 mod 64, 128 + c mod 64])"

definition bytes_of :: "ustr \<Rightarrow> string" where
  "bytes_of cs = map (\<lambda>c. char_of (nat c)) (concat (map utf8_of cs))"

definition invalid :: "(ustr, 'a) result \<Rightarrow> (plan_error, 'a) result" where
  "invalid r = (case r of Err e \<Rightarrow> Err (Invalid (bytes_of e)) | Ok a \<Rightarrow> Ok a)"

section \<open>Protected copies\<close>

definition sells :: "'a plan_item_scheme list \<Rightarrow> 'a plan_item_scheme list" where
  "sells items = filter (\<lambda>item. it_order_type item = ''sell'') items"

definition item_slug :: "'a plan_item_scheme \<Rightarrow> ustr" where
  "item_slug item = chars_of (it_slug item)"

definition rows_of_body :: "json \<Rightarrow> json list option" where
  "rows_of_body body =
     (let data = unwrap_or (jget body ''data'') body
      in case as_array data of Some rows \<Rightarrow> Some rows | None \<Rightarrow> Option.bind (jget data ''sell'') as_array)"

definition order_rows :: "json \<Rightarrow> (ustr, json list) result" where
  "order_rows body = ok_or (rows_of_body body) (tx ''Current orders are unavailable.'')"

definition unclear_rank :: "json \<Rightarrow> bool" where
  "unclear_rank row \<longleftrightarrow> is_some_and (jget row ''rank'') (\<lambda>v. \<not> is_null v \<and> as_u64 v = None)"

text \<open>The order a sell item of the batch takes the place of.\<close>

definition replaces :: "'a plan_item_scheme \<Rightarrow> json \<Rightarrow> bool" where
  "replaces item row \<longleftrightarrow>
     Option.bind (Option.bind (jget row ''item'') (\<lambda>i. jget i ''slug'')) as_str = Some (it_slug item)
     \<and> unwrap_or (Option.bind (jget row ''rank'') as_u64) 0 = 0 \<and> is_none_or (jget row ''subtype'') is_null"

definition kept_row :: "'a plan_item_scheme list \<Rightarrow> json \<Rightarrow> bool" where
  "kept_row items row \<longleftrightarrow>
     Option.bind (jget row ''type'') as_str \<noteq> Some ''buy'' \<and> \<not> list_ex (\<lambda>item. replaces item row) items"

definition projected_row :: "'a plan_item_scheme \<Rightarrow> json" where
  "projected_row item = JObj
     [(''id'', JStr (''projected-'' @ it_slug item)), (''itemId'', JStr (it_slug item)),
      (''platinum'', json_of_u32 (it_platinum item)), (''type'', JStr ''sell''),
      (''item'', JObj [(''slug'', JStr (it_slug item))]), (''quantity'', json_of_u32 (it_quantity item))]"

definition projected_body :: "json list \<Rightarrow> 'a plan_item_scheme list \<Rightarrow> json" where
  "projected_body rows items = JObj [(''data'', JObj
     [(''sell'', JArr (filter (kept_row (sells items)) rows @ map projected_row (sells items))), (''buy'', JArr [])])]"

definition check_part :: "protection_state \<Rightarrow> ustr \<Rightarrow> (ustr, unit) result" where
  "check_part st slug =
     rbind (ok_or (map_of (ps_items st) slug) (slug @ tx '': no confirmed inventory for this listing.'')) (\<lambda>row.
       if al_available row = None \<or> al_owned row < sat_add (al_protected row) (unwrap_or (al_listed row) (- 1))
       then Err (slug @ tx '': the batch would consume protected or already allocated copies. Scan and review again.'')
       else Ok ())"

definition check_item_parts :: "market_data \<Rightarrow> protection_state \<Rightarrow> 'a plan_item_scheme \<Rightarrow> (ustr, unit) result" where
  "check_item_parts m st item =
     rbind (components m (item_slug item)) (\<lambda>parts. fold_ok (\<lambda>p _. check_part st (fst p)) parts ())"

definition validate_protected_contents ::
  "protection_env \<Rightarrow> desk \<Rightarrow> market_data \<Rightarrow> json \<Rightarrow> 'a plan_item_scheme list \<Rightarrow> (ustr, unit) result" where
  "validate_protected_contents pe dk m body items =
     rbind (order_rows body) (\<lambda>rows.
       if list_ex unclear_rank rows then Err (tx ''An existing order has an unresolved rank identity.'')
       else if list_ex (\<lambda>item. unwrap_or (it_rank item) 0 \<noteq> 0 \<or> it_subtype item \<noteq> None) (sells items)
       then Err (tx ''This protected plan supports confirmed unranked, unsubtyped items only. Review the item identity before listing.'')
       else rbind (protection_of pe dk m (Ok (projected_body rows items))) (\<lambda>st.
         if ps_snapshot_id st = None then Err (tx ''Scan inventory before listing from a protected plan.'')
         else fold_ok (\<lambda>item _. check_item_parts m st item) (sells items) ()))"

section \<open>A Trade Session's contents\<close>

definition session_lot :: "catalog \<Rightarrow> 'a plan_item_scheme \<Rightarrow> (ustr, u32) result" where
  "session_lot catalog item =
     rbind (ok_or (opt_filter ci_session_supported (map_of catalog (it_slug item)))
              (item_slug item @ tx '' has an unsupported trade identity. Use the dedicated item flow instead.'')) (\<lambda>cat.
     rbind (ok_or (it_per_trade item) (tx ''Trade Session requires explicit units per trade.'')) (\<lambda>lot.
     rbind (db_error (validate_lot (it_quantity item) (Some lot) (ci_bulk_tradable cat))) (\<lambda>_.
       if MAX_PLATINUM < sat_mul (it_platinum item) lot
       then Err (tx ''Lot total exceeds 3000p; reduce price or units per trade.'') else Ok lot)))"

definition session_item ::
  "catalog \<Rightarrow> (ustr, u32) btree \<Rightarrow> (ustr, (ustr, u32) btree) btree \<Rightarrow> 'a plan_item_scheme \<Rightarrow> u32 \<times> string set
   \<Rightarrow> (ustr, u32 \<times> string set) result" where
  "session_item catalog quantities recipes item acc =
     rbind (session_lot catalog item) (\<lambda>lot.
       if it_visible item \<or> it_order_type item \<noteq> ''sell'' \<or> unwrap_or (it_rank item) 0 \<noteq> 0 \<or> it_subtype item \<noteq> None
          \<or> (is_set (item_slug item) \<and> (map_of recipes (item_slug item) = None \<or> lot \<noteq> 1))
          \<or> it_reviewed_order item = None \<or> it_slug item \<in> snd acc
       then Err (tx ''Unsupported or ambiguous Trade Session item identity.'')
       else if unwrap_or (map_of quantities (item_slug item)) 0 < it_quantity item
       then Err (item_slug item @ tx '' no longer has the reviewed sellable quantity. Scan and review again.'')
       else rbind (ok_or (checked_add (fst acc) (it_quantity item div lot)) (tx ''Trade estimate is too large.''))
         (\<lambda>trades. Ok (trades, insert (it_slug item) (snd acc))))"

definition validate_session_contents ::
  "'a plan_item_scheme list \<Rightarrow> session_constraint \<Rightarrow> u32 option \<Rightarrow> (ustr, u32) btree \<Rightarrow> catalog
   \<Rightarrow> (ustr, (ustr, u32) btree) btree \<Rightarrow> (ustr, unit) result" where
  "validate_session_contents items context remaining quantities catalog recipes =
     (if sc_budget context = 0 \<or> MAX_PLAN_ITEMS < unat (sc_budget context)
         \<or> list_ex (\<lambda>i. it_session i \<noteq> Some context) items
      then Err (tx ''Invalid or inconsistent Trade Session budget.'')
      else rbind (fold_ok (session_item catalog quantities recipes) items (0, {})) (\<lambda>(trades, _).
        if sc_budget context < trades \<or> unwrap_or remaining 0 < trades
        then Err (tx ''The batch exceeds the current trade allowance or selected budget. Review it again.'')
        else Ok ()))"

section \<open>The whole validation\<close>

text \<open>
  The command's surroundings: the database, the market snapshot, the rows of the outcome record, and everything else,
  which reading the orders moves.
\<close>

record 'n trade_rest =
  te_desk :: desk
  te_market :: market_data
  te_outcomes :: "outcome_row list"
  te_rest :: 'n

record 'n command_env =
  ce_protection :: protection_env
  ce_fmt :: fmt
  ce_now :: "'n \<Rightarrow> i64"
  ce_orders :: "'n \<Rightarrow> (string, json) result \<times> 'n"     \<comment> \<open>the governed read of the account's orders\<close>

definition hopeless :: "unlocked \<Rightarrow> 'a plan_item_scheme \<Rightarrow> bool" where
  "hopeless u item \<longleftrightarrow> it_platinum item < MIN_PLATINUM \<or> MAX_PLATINUM < it_platinum item \<or> it_quantity item = 0
     \<or> map_of (un_catalog u) (it_slug item) = None"

definition validate_protected_plan ::
  "'n command_env \<Rightarrow> unlocked option \<Rightarrow> 'a plan_item_scheme list \<Rightarrow> 'n trade_rest
   \<Rightarrow> (plan_error, unit) result \<times> 'n trade_rest" where
  "validate_protected_plan env account items w =
     (let pe = ce_protection env; dk = te_desk w in
      case invalid (rbind (load_plan (pe_plan pe) dk) (plan_active dk)) of
        Err e \<Rightarrow> (Err e, w)
      | Ok active \<Rightarrow>
          if \<not> active \<and> list_all (\<lambda>item. it_session item = None \<and> \<not> is_set (item_slug item)) items then (Ok (), w)
          else case account of
            None \<Rightarrow> (Err (Invalid ''Unlock WFM before validating protected quantities.''), w)
          | Some u \<Rightarrow>
              if list_all (hopeless u) items then (Ok (), w)
              else let (fetched, rest) = ce_orders env (te_rest w); w = w\<lparr> te_rest := rest \<rparr>
                in case list_user_orders (ce_fmt env) u fetched of
                     Err e \<Rightarrow> (Err (MarketError e), w)
                   | Ok body \<Rightarrow> (invalid (validate_protected_contents pe dk (te_market w) body items), w))"

definition snapshot_check :: "desk \<Rightarrow> 'a plan_item_scheme list \<Rightarrow> (ustr, unit) result" where
  "snapshot_check dk items =
     fold_ok (\<lambda>item _. validate_snapshot dk (map_option sint (it_inventory_snapshot_id item))) (sells items) ()"

definition session_check ::
  "'n command_env \<Rightarrow> unlocked option \<Rightarrow> 'a plan_item_scheme list \<Rightarrow> 'n trade_rest \<Rightarrow> (plan_error, unit) result" where
  "session_check env account items w =
     rbind (ok_or (Option.bind (first_of items) it_session) (Invalid ''Mixed listing and Trade Session batch.'')) (\<lambda>context.
     rbind (case session_allowance (dk_ledger_faults (te_desk w)) (sint (sc_snapshot_id context)) (sint (sc_utc_day context))
               (ce_now env (te_rest w)) (dk_ledger (te_desk w)) of
              Err e \<Rightarrow> Err (Invalid e) | Ok seen \<Rightarrow> Ok seen) (\<lambda>allowance.
     rbind (invalid (session_quantities (ce_protection env) (te_market w) (te_desk w))) (\<lambda>quantities.
     rbind (ok_or account (Invalid ''Unlock WFM before reviewing this batch.'')) (\<lambda>u.
       invalid (validate_session_contents items context (av_remaining allowance) quantities (un_catalog u)
         (session_recipes (te_market w)))))))"

definition validate_session_plan ::
  "'n command_env \<Rightarrow> unlocked option \<Rightarrow> 'a plan_item_scheme list \<Rightarrow> 'n trade_rest
   \<Rightarrow> (plan_error, unit) result \<times> 'n trade_rest" where
  "validate_session_plan env account items w =
     (case invalid (snapshot_check (te_desk w) items) of
        Err e \<Rightarrow> (Err e, w)
      | Ok _ \<Rightarrow> (case validate_protected_plan env account items w of
          (Err e, w) \<Rightarrow> (Err e, w)
        | (Ok _, w) \<Rightarrow>
            if list_all (\<lambda>i. it_session i = None) items then (Ok (), w)
            else (session_check env account items w, w)))"

end
