(* ===== verification/Batch_Facts.thy ===== *)
theory Batch_Facts
  imports Batch_Review
begin

text \<open>
  What an accepted batch is: its copies, with everything listed and protected, fit in the copies owned, and a Trade
  Session's batch fits its budget and the trades that remain.
\<close>

section \<open>Counting a batch\<close>

definition item_copies :: "market_data \<Rightarrow> ustr \<Rightarrow> 'a plan_item_scheme \<Rightarrow> nat" where
  "item_copies m part item = unat (it_quantity item) *
     (case components m (item_slug item) of Ok parts \<Rightarrow> copies_in parts part | Err _ \<Rightarrow> 0)"

definition batch_copies :: "market_data \<Rightarrow> ustr \<Rightarrow> 'a plan_item_scheme list \<Rightarrow> nat" where
  "batch_copies m part items = sum_list (map (item_copies m part) (sells items))"

text \<open>What the market promises of the identities of an account's orders: no two orders share one, and none is one that the
  projection gives to the batch's own rows.\<close>

definition row_id :: "json \<Rightarrow> string option" where
  "row_id row = Option.bind (jget row ''id'') as_str"

definition own_ids :: "json list \<Rightarrow> bool" where
  "own_ids rows \<longleftrightarrow> (\<forall>row\<in>set rows. (\<forall>i. row_id row \<noteq> Some (''projected-'' @ i))
     \<and> (\<forall>row'\<in>set rows. row_id row \<noteq> None \<longrightarrow> row_id row' = row_id row \<longrightarrow> row' = row))"

text \<open>The other orders of the account: a row stays listed unless it is a buy order, or a sell item of the batch has its slug
  and the row is unranked and without a subtype (the item then updates that very order).\<close>

definition row_slug :: "json \<Rightarrow> string option" where
  "row_slug row = (case jget row ''item'' of
     Some i \<Rightarrow> (case jget i ''slug'' of Some (JStr s) \<Rightarrow> Some s | _ \<Rightarrow> None)
   | None \<Rightarrow> None)"

definition stays_listed :: "'a plan_item_scheme list \<Rightarrow> json \<Rightarrow> bool" where
  "stays_listed items row \<longleftrightarrow> jget row ''type'' \<noteq> Some (JStr ''buy'')
     \<and> \<not> (\<exists>item\<in>set items. it_order_type item = ''sell'' \<and> row_slug row = Some (it_slug item)
          \<and> jget row ''rank'' \<in> {None, Some JNull, Some (JPosInt 0)} \<and> jget row ''subtype'' \<in> {None, Some JNull})"

definition row_copies :: "market_data \<Rightarrow> ustr \<Rightarrow> json \<Rightarrow> nat" where
  "row_copies m part row = (case (row_slug row, jget row ''quantity'') of
     (Some s, Some (JPosInt q)) \<Rightarrow>
       unat q * (case components m (chars_of s) of Ok parts \<Rightarrow> copies_in parts part | Err _ \<Rightarrow> 0)
   | _ \<Rightarrow> 0)"

definition other_copies :: "market_data \<Rightarrow> ustr \<Rightarrow> 'a plan_item_scheme list \<Rightarrow> json list \<Rightarrow> nat" where
  "other_copies m part items rows = sum_list (map (row_copies m part) (filter (stays_listed items) rows))"

lemma kept_row_stays:
  assumes "\<not> unclear_rank row"
  shows "kept_row (sells items) row \<longleftrightarrow> stays_listed items row"
proof -
  have slug: "Option.bind (Option.bind (jget row ''item'') (\<lambda>i. jget i ''slug'')) as_str = row_slug row"
    by (auto simp: row_slug_def as_str_def split: option.splits json.splits)
  have rank: "unwrap_or (Option.bind (jget row ''rank'') as_u64) 0 = 0
      \<longleftrightarrow> jget row ''rank'' \<in> {None, Some JNull, Some (JPosInt 0)}"
    using assms by (auto simp: unclear_rank_def is_some_and_def as_u64_def is_null_def unwrap_or_def split: option.splits json.splits)
  have sub: "is_none_or (jget row ''subtype'') is_null \<longleftrightarrow> jget row ''subtype'' \<in> {None, Some JNull}"
    by (auto simp: is_none_or_def is_null_def split: option.splits json.splits)
  have buy: "Option.bind (jget row ''type'') as_str = Some ''buy'' \<longleftrightarrow> jget row ''type'' = Some (JStr ''buy'')"
    by (auto simp: bind_eq_Some_conv dest: as_str_SomeD)
  show ?thesis
    unfolding kept_row_def stays_listed_def replaces_def slug rank sub buy by (auto simp: sells_def list_ex_iff)
qed

lemma bucket_side: "side_agrees t (Some b) s \<Longrightarrow> s = b"
  by (auto simp: side_agrees_def is_none_or_def split: option.splits)

lemma lookup_bt_of_mem:
  assumes "map_of (bt_of xs) k = Some v"
  shows "(k, v) \<in> set xs"
proof -
  have "fold (\<lambda>x v. Some (snd x)) ys acc = Some v \<Longrightarrow> (\<exists>y\<in>set ys. snd y = v) \<or> acc = Some v"
    for ys and acc
    by (induction ys arbitrary: acc) auto
  then show ?thesis using assms by (fastforce simp: bt_of_fold bt.lookup_fold_entries)
qed

lemma lookup_bt_of_same:
  assumes "(k, v) \<in> set xs" and "\<And>w. (k, w) \<in> set xs \<Longrightarrow> w = v"
  shows "map_of (bt_of xs) k = Some v"
proof -
  have "fold (\<lambda>x v. Some (snd x)) ys acc = Some v"
    if "\<forall>x\<in>set ys. snd x = v" "ys \<noteq> [] \<or> acc = Some v" for ys :: "('a \<times> 'b) list" and acc
    using that by (induction ys arbitrary: acc) auto
  moreover have "\<forall>x\<in>set (filter (\<lambda>x. fst x = k) xs). snd x = v" using assms(2) by auto
  moreover have "filter (\<lambda>x. fst x = k) xs \<noteq> []" using assms(1) by (force simp: filter_empty_conv)
  ultimately show ?thesis by (simp add: bt_of_fold bt.lookup_fold_entries)
qed

lemma projected_row_fields [simp]:
  "jget (projected_row item) ''id'' = Some (JStr (''projected-'' @ it_slug item))"
  "jget (projected_row item) ''itemId'' = Some (JStr (it_slug item))"
  "jget (projected_row item) ''type'' = Some (JStr ''sell'')"
  "jget (projected_row item) ''quantity'' = Some (json_of_u32 (it_quantity item))"
  "jget (projected_row item) ''item'' = Some (JObj [(''slug'', JStr (it_slug item))])"
  by (simp_all add: projected_row_def)

lemma projected_row_means:
  assumes "row_means accepts (projected_row item) (Some Sell) n"
  shows "no_id n = ''projected-'' @ it_slug item" and "no_side n = Sell"
    and "unat (no_quantity n) = unat (it_quantity item)" and "it_slug item \<noteq> ''''"
proof -
  have "no_quantity n = ucast (it_quantity item)"
    using assms by (simp add: row_means_def json_of_u32_def)
  then show "unat (no_quantity n) = unat (it_quantity item)" by (simp add: unat_u64_of_u32)
qed (use assms in \<open>auto simp: row_means_def side_agrees_def well_formed_order_def\<close>)

lemma projected_order_slug:
  "it_slug item \<noteq> '''' \<Longrightarrow> order_slug (projected_row item) = Some (''projected-'' @ it_slug item, item_slug item)"
  by (simp add: order_slug_def item_slug_def)

lemma projected_response:
  "response_rows (projected_body rows items) =
     Ok (map (\<lambda>row. (row, Some Sell)) (filter (kept_row (sells items)) rows @ map projected_row (sells items)))"
  by (simp add: response_rows_def projected_body_def is_buckets_def bucket_rows_def side_from_def)

lemma projected_slugs:
  "order_slugs (projected_body rows items) =
     Ok (bt_of (List.map_filter order_slug (filter (kept_row (sells items)) rows @ map projected_row (sells items))))"
  by (simp add: order_slugs_def projected_body_def)

lemma projected_slug_found:
  assumes "item \<in> set its" and "own_ids kept" and "it_slug item \<noteq> ''''"
  shows "map_of (bt_of (List.map_filter order_slug (kept @ map projected_row its))) (''projected-'' @ it_slug item)
    = Some (item_slug item)"
proof (rule lookup_bt_of_same)
  let ?xs = "List.map_filter order_slug (kept @ map projected_row its)"
  have mem: "p \<in> set ?xs \<longleftrightarrow> (\<exists>row\<in>set kept. order_slug row = Some p) \<or> (\<exists>it\<in>set its. order_slug (projected_row it) = Some p)" for p
    by (force simp: List.map_filter_def)
  show "(''projected-'' @ it_slug item, item_slug item) \<in> set ?xs"
    using assms(1,3) projected_order_slug unfolding mem by blast
  fix w assume "(''projected-'' @ it_slug item, w) \<in> set ?xs"
  then consider (kept) row where "row \<in> set kept" "order_slug row = Some (''projected-'' @ it_slug item, w)"
    | (own) it where "it \<in> set its" "order_slug (projected_row it) = Some (''projected-'' @ it_slug item, w)"
    unfolding mem by blast
  then show "w = item_slug item"
  proof cases
    case kept
    then have "row_id row = Some (''projected-'' @ it_slug item)"
      by (auto simp: row_id_def order_slug_def bind_eq_Some_conv split: if_splits)
    then show ?thesis using assms(2) kept(1) unfolding own_ids_def by blast
  next
    case own
    then have "it_slug it \<noteq> ''''" by (auto simp: order_slug_def)
    then have "it_slug it = it_slug item \<and> item_slug it = w" using own(2) projected_order_slug [of it] by simp
    then show ?thesis by (auto simp: item_slug_def)
  qed
qed

lemma kept_slug_found:
  assumes "row \<in> set kept" and "own_ids kept" and "jget row ''id'' = Some (JStr i)"
    and "map_of (bt_of (List.map_filter order_slug (kept @ map projected_row its))) i = Some s"
  shows "order_slug row = Some (i, s)"
proof -
  have id: "row_id row = Some i" using assms(3) by (simp add: row_id_def)
  have "(i, s) \<in> set (List.map_filter order_slug (kept @ map projected_row its))"
    using assms(4) by (rule lookup_bt_of_mem)
  then consider (kept) row' where "row' \<in> set kept" "order_slug row' = Some (i, s)"
    | (own) it where "it \<in> set its" "order_slug (projected_row it) = Some (i, s)"
    unfolding List.map_filter_def by (auto simp del: projected_row_fields)
  then show ?thesis
  proof cases
    case kept
    then have "row_id row' = Some i" by (auto simp: row_id_def order_slug_def bind_eq_Some_conv split: if_splits)
    then have "row' = row" using assms(1,2) kept(1) id unfolding own_ids_def by (metis option.discI)
    then show ?thesis using kept(2) by simp
  next
    case own
    then have "i = ''projected-'' @ it_slug it" by (auto simp: order_slug_def split: if_splits)
    then show ?thesis using assms(1,2) id unfolding own_ids_def by blast
  qed
qed

lemma kept_copies:
  assumes "row_means accepts row (Some Sell) n" and "order_slug row = Some (no_id n, s)"
    and "map_of slugs (no_id n) = Some s"
  shows "order_copies m slugs part (Supported n) = row_copies m part row"
proof -
  have "row_slug row = Some t \<and> s = chars_of t" if "Option.bind (Option.bind (jget row ''item'') (\<lambda>i. jget i ''slug'')) as_str = Some t"
      "s = chars_of t" for t
    using that by (auto simp: row_slug_def bind_eq_Some_conv dest: as_str_SomeD)
  then obtain t where "row_slug row = Some t" "s = chars_of t"
    using assms(2) by (auto simp: order_slug_def bind_eq_Some_conv split: if_splits)
  moreover have "jget row ''quantity'' = Some (JPosInt (no_quantity n))" "no_side n = Sell"
    using assms(1) bucket_side by (auto simp: row_means_def)
  ultimately show ?thesis
    using assms(3) by (auto simp: order_copies_def row_copies_def split: sum.splits)
qed

lemma list_all2_map_eq:
  assumes "list_all2 P xs ys" and "\<And>x y. x \<in> set xs \<Longrightarrow> y \<in> set ys \<Longrightarrow> P x y \<Longrightarrow> f y = g x"
  shows "map f ys = map g xs"
  using assms by (induction) auto

lemma batch_is_listed:
  assumes "listed_components to_text debug (projected_body rows items) m = Ok listed" and "own_ids rows"
    and "\<not> list_ex unclear_rank rows"
  shows "copies_in listed part = batch_copies m part items + other_copies m part items rows"
proof -
  let ?kept = "filter (kept_row (sells items)) rows" and ?its = "sells items"
  let ?slugs = "bt_of (List.map_filter order_slug (?kept @ map projected_row ?its))"
  obtain decoded where d: "decode_orders to_text debug (\<lambda>_ _ _. True) (projected_body rows items) = Ok decoded"
    and f: "fold_ok (add_listed_order m ?slugs) decoded [] = Ok listed"
    using assms(1) by (auto simp: listed_components_def rbind_Ok_iff projected_slugs)
  obtain ns where ns: "decoded = map Supported ns"
      "rows_mean (\<lambda>_ _ _. True) (map (\<lambda>row. (row, Some Sell)) (?kept @ map projected_row ?its)) ns"
    using d unfolding decode_orders_Ok projected_response by auto
  then obtain n1 n2 where split: "ns = n1 @ n2"
      and n1: "list_all2 (\<lambda>row n. row_means (\<lambda>_ _ _. True) row (Some Sell) n) ?kept n1"
      and n2: "list_all2 (\<lambda>item n. row_means (\<lambda>_ _ _. True) (projected_row item) (Some Sell) n) ?its n2"
    by (auto simp: list_all2_append1 list_all2_map1)
  have kept: "own_ids ?kept" using assms(2) by (auto simp: own_ids_def)
  have one: "order_copies m ?slugs part (Supported n) = item_copies m part item"
    if "item \<in> set ?its" "row_means (\<lambda>_ _ _. True) (projected_row item) (Some Sell) n" for item n
    using projected_row_means [OF that(2)] projected_slug_found [OF that(1) kept]
    by (simp add: order_copies_def item_copies_def split: sum.splits)
  have "map (order_copies m ?slugs part \<circ> Supported) n2 = map (item_copies m part) ?its"
    by (rule list_all2_map_eq [OF n2]) (simp only: o_apply one)
  then have batch: "sum_list (map (order_copies m ?slugs part) (map Supported n2)) = batch_copies m part items"
    by (simp add: batch_copies_def)
  note exact = add_listed_orders_exact [OF f]
  have other: "order_copies m ?slugs part (Supported n) = row_copies m part row"
    if row: "row \<in> set ?kept" and n: "n \<in> set n1" and means: "row_means (\<lambda>_ _ _. True) row (Some Sell) n" for row n
  proof -
    have "no_side n = Sell" and i: "jget row ''id'' = Some (JStr (no_id n))"
      using means bucket_side by (auto simp: row_means_def)
    then obtain s where s: "map_of ?slugs (no_id n) = Some s"
      using exact n by (fastforce simp: ns(1) split)
    show ?thesis by (rule kept_copies [OF means kept_slug_found [OF row kept i s] s])
  qed
  have "map (order_copies m ?slugs part \<circ> Supported) n1 = map (row_copies m part) ?kept"
    by (rule list_all2_map_eq [OF n1]) (simp only: o_apply other)
  moreover have "?kept = filter (stays_listed items) rows"
    using assms(3) by (intro filter_cong) (auto simp: kept_row_stays list_ex_iff)
  ultimately have "sum_list (map (order_copies m ?slugs part) (map Supported n1)) = other_copies m part items rows"
    by (simp add: other_copies_def)
  with batch show ?thesis using exact by (simp add: ns(1) split)
qed

section \<open>Protected batches\<close>

lemma fold_unit_Ok: "fold_ok (\<lambda>x _. f x) xs () = Ok () \<longleftrightarrow> (\<forall>x\<in>set xs. f x = Ok ())"
  by (induction xs) (auto simp: rbind_Ok_iff)

lemma sat_add_exact:
  fixes b p l :: u32
  assumes "\<not> b < sat_add p l" and "unat b < 2 ^ 32 - 1"
  shows "unat p + unat l \<le> unat b"
  using assms by (simp add: word_less_nat_alt unat_sat_add min_def split: if_splits)

lemma checked_part_fits:
  assumes "protection_of pe dk m (Ok body) = Ok st" and "check_part st part = Ok ()"
  shows "\<exists>req listed g owned. requirements m (ps_plan st) = Ok req
    \<and> listed_components (pe_to_text pe) (pe_debug pe) body m = Ok listed \<and> global_keep dk = Ok g
    \<and> owned_quantities (pe_lower pe) (pe_bundled pe) m dk = Ok owned
    \<and> (let (hv, un) = unwrap_or (map_of owned part) (0, 0)
       in unat hv < 2 ^ 32 - 1 \<longrightarrow> max (unat g) (unat un + copies_in req part) + copies_in listed part \<le> unat hv)"
proof -
  obtain row where row: "map_of (ps_items st) part = Some row" and avail: "al_available row \<noteq> None"
    and fits: "\<not> al_owned row < sat_add (al_protected row) (unwrap_or (al_listed row) (- 1))"
    using assms(2) by (auto simp: check_part_def rbind_Ok_iff split: if_splits)
  obtain latest required listed g owned where f: "latest_of dk = Ok latest" "ps_snapshot_id st = map_option ss_id latest"
      "required = (case requirements m (ps_plan st) of Ok r \<Rightarrow> Some r | Err _ \<Rightarrow> None)"
      "listed = (case rbind (Ok body) (\<lambda>body. listed_components (pe_to_text pe) (pe_debug pe) body m) of Ok l \<Rightarrow> Some l | Err _ \<Rightarrow> None)"
      "global_keep dk = Ok g" "owned_quantities (pe_lower pe) (pe_bundled pe) m dk = Ok owned"
    and shape: "(\<exists>q. map_of owned part = Some q \<and> row = item_allocation required listed (map_option ss_id latest) g (part, q))
      \<or> map_of owned part = None \<and> required \<noteq> None
        \<and> (\<exists>k>0. row = missing_allocation listed (map_option ss_id latest) (part, k))"
    using assms(1) row by (rule protection_row)
  from shape show ?thesis
  proof (elim disjE exE conjE)
    fix q assume q: "map_of owned part = Some q"
      and r: "row = item_allocation required listed (map_option ss_id latest) g (part, q)"
    obtain hv un where hv: "q = (hv, un)" by (cases q)
    obtain req l where some: "required = Some req" "listed = Some l" "latest \<noteq> None"
      using avail by (cases required; cases listed) (auto simp: r hv item_allocation_def Let_def allocate_def split: if_splits)
    have "max (unat g) (unat un + copies_in req part) + copies_in l part \<le> unat hv" if small: "unat hv < 2 ^ 32 - 1"
    proof -
      let ?res = "unwrap_or (map_of req part) 0"
      have "\<not> hv < sat_add (max g (sat_add un ?res)) (unwrap_or (map_of l part) 0)"
        using fits some by (simp add: r hv item_allocation_def Let_def allocate_def count_of_def)
      then have a: "unat (max g (sat_add un ?res)) + copies_in l part \<le> unat hv" using small by (rule sat_add_exact)
      have m: "unat (max g (sat_add un ?res)) = max (unat g) (unat (sat_add un ?res))"
        by (simp add: max_def word_le_nat_alt)
      then have "unat (sat_add un ?res) < 2 ^ 32 - 1" using a small by linarith
      then have "unat (sat_add un ?res) = unat un + unat ?res" by (simp add: unat_sat_add min_def split: if_splits)
      with a m show ?thesis by simp
    qed
    then show ?thesis using f some q hv by (auto split: sum.splits)
  next
    fix k :: u32 assume "0 < k" "row = missing_allocation listed (map_option ss_id latest) (part, k)"
    then have False using fits sat_add_ge [of k "unwrap_or (al_listed row) (- 1)"]
      by (auto simp: missing_allocation_def)
    then show ?thesis ..
  qed
qed

lemma protection_plan_loaded: "protection_of pe dk m orders = Ok st \<Longrightarrow> load_plan (pe_plan pe) dk = Ok (ps_plan st)"
  by (cases "requirements m (ps_plan st)")
    (auto simp: protection_of_def rbind_Ok_iff case_prod_beta Let_def)

text \<open>C7: An accepted batch leaves the protected copies alone: for every part that one of its sell items would use up (the
  item itself, or each part of a set), the copies the batch lists of it in all its items together, with those of every
  other order that stays listed (every row that is not a buy order and that no item of the batch updates), and the
  protected copies (the larger of the global keep and the unavailable plus the reserved), are no more than the copies
  owned. The count is exact short of the last value of \<open>u32\<close>; the orders of an account have distinct identities, none
  of them the projection's own.\<close>

theorem accepted_batch_leaves_protected_copies:
  assumes "validate_protected_contents pe dk m body items = Ok ()" and "order_rows body = Ok rows" and "own_ids rows"
    and "item \<in> set (sells items)" and "components m (item_slug item) = Ok parts" and "part \<in> fst ` set parts"
  shows "\<exists>plan req g owned. load_plan (pe_plan pe) dk = Ok plan \<and> requirements m plan = Ok req
    \<and> global_keep dk = Ok g \<and> owned_quantities (pe_lower pe) (pe_bundled pe) m dk = Ok owned
    \<and> (let (hv, un) = unwrap_or (map_of owned part) (0, 0)
       in unat hv < 2 ^ 32 - 1 \<longrightarrow> max (unat g) (unat un + copies_in req part)
            + (batch_copies m part items + other_copies m part items rows) \<le> unat hv)"
proof -
  have clear: "\<not> list_ex unclear_rank rows"
    using assms(1,2) by (auto simp: validate_protected_contents_def split: if_splits)
  obtain st where st: "protection_of pe dk m (Ok (projected_body rows items)) = Ok st"
    and all: "\<forall>it\<in>set (sells items). check_item_parts m st it = Ok ()"
    using assms(1,2) by (auto simp: validate_protected_contents_def rbind_Ok_iff guard_Ok_iff fold_unit_Ok)
  have "\<forall>p\<in>set parts. check_part st (fst p) = Ok ()"
    using bspec [OF all assms(4)] assms(5) by (simp add: check_item_parts_def rbind_Ok_iff fold_unit_Ok)
  then have "check_part st part = Ok ()" using assms(6) by auto
  from checked_part_fits [OF st this] obtain req listed g owned where r: "requirements m (ps_plan st) = Ok req"
    and listed: "listed_components (pe_to_text pe) (pe_debug pe) (projected_body rows items) m = Ok listed"
    and "global_keep dk = Ok g" "owned_quantities (pe_lower pe) (pe_bundled pe) m dk = Ok owned"
      "let (hv, un) = unwrap_or (map_of owned part) (0, 0)
       in unat hv < 2 ^ 32 - 1 \<longrightarrow> max (unat g) (unat un + copies_in req part) + copies_in listed part \<le> unat hv"
    by blast
  then show ?thesis
    using protection_plan_loaded [OF st] batch_is_listed [OF listed assms(3) clear, of part] by auto
qed

section \<open>Trade Sessions\<close>

definition trades_of :: "'a plan_item_scheme \<Rightarrow> nat" where
  "trades_of item = unat (it_quantity item) div unat (unwrap_or (it_per_trade item) 1)"

definition session_lot_ok :: "catalog \<Rightarrow> 'a plan_item_scheme \<Rightarrow> u32 \<Rightarrow> bool" where
  "session_lot_ok catalog item lot \<longleftrightarrow>
     is_some_and (map_of catalog (it_slug item)) ci_session_supported \<and> it_per_trade item = Some lot
     \<and> 1 \<le> unat lot \<and> unat lot \<le> unat MAX_PER_TRADE \<and> unat (it_quantity item) mod unat lot = 0
     \<and> unat (it_platinum item) * unat lot \<le> unat MAX_PLATINUM"

definition session_item_ok ::
  "catalog \<Rightarrow> (ustr, u32) btree \<Rightarrow> (ustr, (ustr, u32) btree) btree \<Rightarrow> 'a plan_item_scheme \<Rightarrow> bool" where
  "session_item_ok catalog quantities recipes item \<longleftrightarrow>
     it_order_type item = ''sell'' \<and> \<not> it_visible item \<and> it_reviewed_order item \<noteq> None
     \<and> it_quantity item \<le> unwrap_or (map_of quantities (item_slug item)) 0
     \<and> (\<exists>lot. session_lot_ok catalog item lot
         \<and> (is_set (item_slug item) \<longrightarrow> lot = 1 \<and> map_of recipes (item_slug item) \<noteq> None))"

lemma session_lot_Ok:
  assumes "session_lot catalog item = Ok lot"
  shows "session_lot_ok catalog item lot"
proof -
  obtain cat where cat: "map_of catalog (it_slug item) = Some cat" "ci_session_supported cat" "it_per_trade item = Some lot"
    and lot: "validate_lot (it_quantity item) (Some lot) (ci_bulk_tradable cat) = Ok ()"
    and price: "\<not> MAX_PLATINUM < sat_mul (it_platinum item) lot"
    using assms by (auto simp: session_lot_def rbind_Ok_iff guard_Ok_iff)
  have v: "0 < lot" "lot \<le> 6" "it_quantity item mod lot = 0" using lot by (simp_all add: validate_lot_Ok)
  have "1 \<le> unat lot" using v(1) by (simp add: word_less_nat_alt Suc_le_eq)
  moreover have "unat lot \<le> unat MAX_PER_TRADE" using v(2) by (simp add: word_le_nat_alt)
  moreover have "unat (it_quantity item) mod unat lot = 0" using v(3) by (metis unat_mod_distrib unat_0)
  moreover have "unat (it_platinum item) * unat lot \<le> unat MAX_PLATINUM"
  proof -
    have "min (unat (it_platinum item) * unat lot) (2 ^ 32 - 1) \<le> unat MAX_PLATINUM"
      using price unat_sat_mul [of "it_platinum item" lot] by (auto simp: word_less_nat_alt not_less min_le_iff_disj simp del: limits)
    moreover have "unat MAX_PLATINUM < 2 ^ 32 - 1" by simp
    ultimately show ?thesis by linarith
  qed
  ultimately show ?thesis using cat by (simp add: session_lot_ok_def del: limits)
qed

lemma session_items_Ok:
  assumes "fold_ok (session_item catalog quantities recipes) items acc = Ok (trades, seen)"
  shows "unat trades = unat (fst acc) + sum_list (map trades_of items) \<and> distinct (map it_slug items)
    \<and> it_slug ` set items \<inter> snd acc = {} \<and> seen = snd acc \<union> it_slug ` set items
    \<and> (\<forall>item\<in>set items. session_item_ok catalog quantities recipes item)"
  using assms
proof (induction items arbitrary: acc)
  case (Cons item items)
  then obtain acc' where step: "session_item catalog quantities recipes item acc = Ok acc'"
    and rest: "fold_ok (session_item catalog quantities recipes) items acc' = Ok (trades, seen)"
    by (auto simp: rbind_Ok_iff)
  obtain lot n where lot: "session_lot catalog item = Ok lot"
    and n: "checked_add (fst acc) (it_quantity item div lot) = Some n" and acc': "acc' = (n, insert (it_slug item) (snd acc))"
    and ok: "it_order_type item = ''sell''" "\<not> it_visible item" "it_reviewed_order item \<noteq> None" "it_slug item \<notin> snd acc"
      "it_quantity item \<le> unwrap_or (map_of quantities (item_slug item)) 0"
      "is_set (item_slug item) \<longrightarrow> lot = 1 \<and> map_of recipes (item_slug item) \<noteq> None"
    using step by (auto simp: session_item_def rbind_Ok_iff guard_Ok_iff not_less)
  note l = session_lot_Ok [OF lot]
  have "unat n = unat (fst acc) + trades_of item"
    using checked_add_SomeD [OF n] l by (simp add: trades_of_def session_lot_ok_def unat_div_distrib)
  moreover have "session_item_ok catalog quantities recipes item"
    unfolding session_item_ok_def using l ok by blast
  ultimately show ?case using Cons.IH [OF rest] ok(4) by (auto simp: acc')
qed simp

text \<open>C13: An accepted Trade Session batch fits: its trades together are within the chosen budget and within the trades that
  remain today (none when that is unknown), it lists each item once, hidden and reviewed, in whole lots of one to six,
  in no more copies than can be sold, at a lot price within the cap, and all items belong to the same session.\<close>

theorem trade_session_fits_allowance:
  assumes "validate_session_contents items context remaining quantities catalog recipes = Ok ()"
  shows "sum_list (map trades_of items) \<le> min (unat (sc_budget context)) (unat (unwrap_or remaining 0))
    \<and> 0 < unat (sc_budget context) \<and> unat (sc_budget context) \<le> MAX_PLAN_ITEMS \<and> distinct (map it_slug items)
    \<and> (\<forall>item\<in>set items. it_session item = Some context \<and> session_item_ok catalog quantities recipes item)"
proof -
  obtain trades seen where f: "fold_ok (session_item catalog quantities recipes) items (0, {}) = Ok (trades, seen)"
    and g: "\<not> sc_budget context < trades" "\<not> unwrap_or remaining 0 < trades"
    and b: "sc_budget context \<noteq> 0" "\<not> MAX_PLAN_ITEMS < unat (sc_budget context)" "\<forall>i\<in>set items. it_session i = Some context"
    using assms by (auto simp: validate_session_contents_def rbind_Ok_iff guard_Ok_iff list_ex_iff)
  from session_items_Ok [OF f] g b show ?thesis by (auto simp: not_less word_le_nat_alt unat_gt_0)
qed

section \<open>Witnesses\<close>

definition demo_batch_item :: plan_item where
  "demo_batch_item = \<lparr> it_inventory_snapshot_id = Some 1, it_slug = ''p'', it_platinum = 20, it_quantity = 3,
     it_per_trade = Some 3, it_session = Some \<lparr> sc_snapshot_id = 1, sc_utc_day = 0, sc_budget = 2 \<rparr>,
     it_reviewed_order = Some NewOrder, it_order_type = ''sell'', it_visible = False, it_rank = None, it_subtype = None,
     it_reference_low_sell = None \<rparr>"

definition demo_session_item :: wfm_catalog_item where
  "demo_session_item = \<lparr> ci_item_id = ''i'', ci_bulk_tradable = True, ci_session_supported = True, ci_display_name = ''P'', ci_max_rank = None,
     ci_subtypes = [] \<rparr>"

lemma demo_batch_fields [simp]:
  "it_slug demo_batch_item = ''p''" "it_quantity demo_batch_item = 3" "it_order_type demo_batch_item = ''sell''"
  "it_per_trade demo_batch_item = Some 3" "it_platinum demo_batch_item = 20" "it_rank demo_batch_item = None"
  "it_subtype demo_batch_item = None" "it_reviewed_order demo_batch_item = Some NewOrder" "it_visible demo_batch_item = False"
  "it_session demo_batch_item = Some \<lparr> sc_snapshot_id = 1, sc_utc_day = 0, sc_budget = 2 \<rparr>"
  by (simp_all add: demo_batch_item_def)

lemma demo_batch_slug [simp]: "item_slug demo_batch_item = tx ''p''"
  by (simp add: item_slug_def chars_of_ascii)

definition demo_projected_order :: normalized_order where
  "demo_projected_order = \<lparr> no_id = ''projected-p'', no_item_id = ''p'', no_side = Sell, no_platinum = 20, no_quantity = 3,
     no_per_trade = None, no_visible = None, no_rank = None, no_subtype = None \<rparr>"

lemma demo_sells: "sells [demo_batch_item] = [demo_batch_item]"
  by (simp add: sells_def)

lemma demo_not_set: "\<not> is_set (tx ''p'')"
  by (simp add: Text.ends_with_def tx_def)

lemma demo_replaced: "\<not> kept_row [demo_batch_item] demo_sell_order"
  by (simp add: kept_row_def replaces_def demo_sell_order_def)

lemma demo_projected_listed:
  "listed_components to_text debug (projected_body [demo_sell_order] [demo_batch_item]) demo_market = Ok [(tx ''p'', 3)]"
proof -
  have "row_means (\<lambda>_ _ _. True) (projected_row demo_batch_item) (Some Sell) demo_projected_order"
    by (simp add: row_means_def projected_row_def demo_projected_order_def side_agrees_def field_means_def null_or_absent_def
        well_formed_order_def json_of_u32_def)
  then have "decode_orders to_text debug (\<lambda>_ _ _. True) (projected_body [demo_sell_order] [demo_batch_item])
      = Ok [Supported demo_projected_order]"
    unfolding decode_orders_Ok projected_response demo_sells
    by (intro exI [of _ "[(projected_row demo_batch_item, Some Sell)]"] exI [of _ "[demo_projected_order]"]) (simp add: demo_replaced)
  moreover have "order_slugs (projected_body [demo_sell_order] [demo_batch_item]) = Ok [(''projected-p'', tx ''p'')]"
    by (simp add: projected_slugs demo_sells demo_replaced projected_order_slug map_filter_simps bt_of_def bt_insert_def)
  moreover have "u32_of_u64 3 = Some 3" by (simp add: u32_of_u64_def)
  ultimately show ?thesis
    by (simp add: listed_components_def add_listed_order_def demo_projected_order_def components_def demo_not_set
        add_listed_part_def checked_mul_def checked_add_def bt_insert_def)
qed

definition demo_projected_state :: protection_state where
  "demo_projected_state = demo_state\<lparr> ps_items :=
     [(tx ''p'', \<lparr> al_owned = 5, al_protected = 1, al_estimated = Some 4, al_listed = Some 3, al_available = Some 1 \<rparr>)] \<rparr>"

lemma demo_projected_protection:
  "protection_of demo_env demo_desk demo_market (Ok (projected_body [demo_sell_order] [demo_batch_item])) = Ok demo_projected_state"
  by (simp add: protection_of_def demo_env_def demo_no_plan demo_latest demo_keep demo_owned demo_projected_listed requirements_def
      no_plan_def or_issue_def allocated_def item_allocation_def allocate_def count_of_def sat_add_def sat_sub_def exceeds_def
      demo_projected_state_def demo_state_def)

lemma demo_rows: "order_rows demo_orders = Ok [demo_sell_order]"
  by (simp add: order_rows_def rows_of_body_def demo_orders_def)

lemma demo_clear_rank: "\<not> unclear_rank demo_sell_order"
  by (simp add: unclear_rank_def demo_sell_order_def)

lemma demo_batch_accepted: "validate_protected_contents demo_env demo_desk demo_market demo_orders [demo_batch_item] = Ok ()"
  by (simp add: validate_protected_contents_def demo_rows demo_clear_rank demo_sells demo_projected_protection
      check_item_parts_def components_def demo_not_set check_part_def)
    (simp add: demo_projected_state_def demo_state_def sat_add_def)

theorem accepted_batch_leaves_protected_copies_witness:
  "validate_protected_contents demo_env demo_desk demo_market demo_orders [demo_batch_item] = Ok ()
     \<and> max (unat (0 :: u32)) (unat (1 :: u32) + copies_in [] (tx ''p''))
         + (batch_copies demo_market (tx ''p'') [demo_batch_item]
            + other_copies demo_market (tx ''p'') [demo_batch_item] [demo_sell_order]) \<le> unat (5 :: u32)"
proof -
  have own: "own_ids [demo_sell_order]" by (simp add: own_ids_def row_id_def demo_sell_order_def)
  have item: "demo_batch_item \<in> set (sells [demo_batch_item])" by (simp add: demo_sells)
  have parts: "components demo_market (item_slug demo_batch_item) = Ok [(tx ''p'', 1)]"
    by (simp add: components_def demo_not_set)
  have part: "tx ''p'' \<in> fst ` set [(tx ''p'', 1 :: u32)]" by simp
  from accepted_batch_leaves_protected_copies [OF demo_batch_accepted demo_rows own item parts part] demo_batch_accepted
  show ?thesis
    by (simp add: demo_env_def demo_no_plan demo_keep demo_owned demo_projected_listed requirements_def no_plan_def)
qed

lemma demo_session_accepted:
  "validate_session_contents [demo_batch_item] \<lparr> sc_snapshot_id = 1, sc_utc_day = 0, sc_budget = 2 \<rparr> (Some 4) [(tx ''p'', 4)]
     [(''p'', demo_session_item)] [] = Ok ()"
  by (simp add: validate_session_contents_def session_item_def session_lot_def demo_not_set validate_lot_def demo_session_item_def
      db_error_def sat_mul_def checked_add_def)

theorem trade_session_fits_allowance_witness:
  "validate_session_contents [demo_batch_item] \<lparr> sc_snapshot_id = 1, sc_utc_day = 0, sc_budget = 2 \<rparr> (Some 4) [(tx ''p'', 4)]
     [(''p'', demo_session_item)] [] = Ok ()
   \<and> sum_list (map trades_of [demo_batch_item]) = 1 \<and> (1 :: nat) \<le> min (unat (2 :: u32)) (unat (4 :: u32))"
  using trade_session_fits_allowance [OF demo_session_accepted] demo_session_accepted by (simp add: trades_of_def)

end
