(* ===== verification/Batch_Commands.thy ===== *)
theory Batch_Commands
  imports Batch_Facts Plan_Run Wfm_Session
begin

text \<open>
  The listing commands (\<open>commands/listing.rs\<close>, \<open>services/trading/order_mutations.rs\<close>): a batch submitted, resumed,
  discarded, and one order changed. A command holds the session's guard from its check to its end, so it is a
  function on the desktop's state; \<open>Session_System\<close> has what other threads do meanwhile.
\<close>

section \<open>The desktop\<close>

record 'n desktop =
  dp_requests :: plan_requests
  dp_sess :: sess
  dp_world :: "'n trade_rest world"

text \<open>What the command meets: printers and parsers, the errors of the journal's file, the market.\<close>

record journal_io =
  jo_from_slice :: "string \<Rightarrow> json option"
  jo_to_vec :: "json \<Rightarrow> string"
  jo_state :: "string option"      \<comment> \<open>reading it before the batch\<close>
  jo_load :: "string option"       \<comment> \<open>reading it after the batch\<close>
  jo_reload :: "string option"     \<comment> \<open>reading it once more to clear it\<close>
  jo_remove :: "string option"

record 'n market_access =
  ma_env :: "'n command_env"
  ma_check :: "'n check"
  ma_send :: "'n send"
  ma_outcome_faults :: "oc_step \<Rightarrow> string option"

definition on_net :: "('n \<Rightarrow> 'a \<times> 'n) \<Rightarrow> 'n trade_rest \<Rightarrow> 'a \<times> 'n trade_rest" where
  "on_net f w = (let (a, n) = f (te_rest w) in (a, w\<lparr> te_rest := n \<rparr>))"

section \<open>The guard\<close>

definition busy_change :: cmd_error where
  "busy_change = CmdError ''busy'' ''Another order change is already running.''"

text \<open>\<open>OrderMutations::begin\<close>: the guard first, then the account; a refusal gives the guard back.\<close>

definition begin_only :: "sess \<Rightarrow> (cmd_error, unit) result \<times> sess" where
  "begin_only s = (case begin_plan s of (False, _) \<Rightarrow> (Err busy_change, s) | (True, s) \<Rightarrow> (Ok (), s))"

definition begin_change :: "sess \<Rightarrow> (cmd_error, unlocked) result \<times> sess" where
  "begin_change s =
     (case begin_only s of
        (Err e, s) \<Rightarrow> (Err e, s)
      | (Ok _, s) \<Rightarrow> (case require_unlocked s of Err e \<Rightarrow> (Err e, end_plan s) | Ok u \<Rightarrow> (Ok u, s)))"

section \<open>After a batch\<close>

definition finish_plan :: "journal_io \<Rightarrow> plan_response \<Rightarrow> disk \<Rightarrow> disk \<times> plan_response" where
  "finish_plan io response d =
     (if pn_durability_error response \<noteq> None then (d, response)
      else case load_pending (jo_from_slice io) (jo_load io) d of
        Ok (Some saved) \<Rightarrow>
          if pp_plan_id saved = pn_plan_id response then
            (case clear_finished_pending (jo_from_slice io) (jo_reload io) (jo_remove io) saved d of
               (d, Err e) \<Rightarrow> (d, response\<lparr> pn_durability_error :=
                 Some (''The finished batch could not be cleared from local storage: '' @ store_error_text e
                   @ ''. Check My Orders before starting another batch.'') \<rparr>)
             | (d, Ok _) \<Rightarrow> (d, response))
          else (d, response)
      | Ok None \<Rightarrow> (d, response)
      | Err e \<Rightarrow> (d, response\<lparr> pn_durability_error :=
          Some (''The saved batch could not be checked for cleanup: '' @ store_error_text e
            @ ''. Check My Orders before starting another batch.'') \<rparr>))"

definition record_batch ::
  "'n market_access \<Rightarrow> plan_item list \<Rightarrow> plan_response \<Rightarrow> 'n trade_rest \<Rightarrow> 'n trade_rest" where
  "record_batch ma items response w =
     w\<lparr> te_outcomes := record_outcomes (dk_inventory_faults (te_desk w)) (ma_outcome_faults ma) (dk_inventory (te_desk w))
          (pn_plan_id response) items (pn_results response) (ce_now (ma_env ma) (te_rest w)) (te_outcomes w) \<rparr>"

definition settle ::
  "'n market_access \<Rightarrow> journal_io \<Rightarrow> plan_item list \<Rightarrow> plan_response \<Rightarrow> 'n trade_rest world
   \<Rightarrow> plan_response \<times> 'n trade_rest world" where
  "settle ma io items response w =
     (let (d, response) = finish_plan io response (wo_disk w)
      in (response, w\<lparr> wo_disk := d, wo_rest := record_batch ma items response (wo_rest w) \<rparr>))"

definition finished_plan_response :: "pending_plan \<Rightarrow> plan_response" where
  "finished_plan_response pending = plan_results pending"

section \<open>Running a batch\<close>

text \<open>The closures of a run: the batch's validation, the governor's check, and one item.\<close>

definition batch_validate ::
  "'n market_access \<Rightarrow> unlocked option \<Rightarrow> plan_item list \<Rightarrow> 'n trade_rest validate" where
  "batch_validate ma account reviewed = validate_session_plan (ma_env ma) account reviewed"

definition batch_execute ::
  "'n market_access \<Rightarrow> unlocked \<Rightarrow> unlocked option \<Rightarrow> plan_item list \<Rightarrow> 'n trade_rest execute" where
  "batch_execute ma u account reviewed item =
     execute_one (ce_fmt (ma_env ma)) u
       (on_net (\<lambda>n. let (fetched, n) = ce_orders (ma_env ma) n in (read_current_orders (ce_fmt (ma_env ma)) u fetched, n)))
       (batch_validate ma account reviewed) (\<lambda>m. on_net (ma_send ma m)) item"

definition run_batch ::
  "'n market_access \<Rightarrow> journal_io \<Rightarrow> unlocked \<Rightarrow> unlocked option \<Rightarrow> plan_item list \<Rightarrow> pending_plan
   \<Rightarrow> 'n trade_rest world \<Rightarrow> 'n trade_rest world run" where
  "run_batch ma io u account reviewed =
     run_pending (on_rest (batch_validate ma account reviewed)) (on_rest (on_net (ma_check ma)))
       (\<lambda>item. on_rest (batch_execute ma u account reviewed item)) (persist_journal (jo_to_vec io))"

definition start_batch ::
  "'n market_access \<Rightarrow> journal_io \<Rightarrow> unlocked \<Rightarrow> unlocked option \<Rightarrow> string \<Rightarrow> string \<Rightarrow> plan_item list
   \<Rightarrow> 'n trade_rest world \<Rightarrow> plan_response \<times> 'n trade_rest world \<times> 'n trade_rest world trace" where
  "start_batch ma io u account plan_id now items =
     execute_plan (on_rest (batch_validate ma account items)) (on_rest (on_net (ma_check ma)))
       (\<lambda>item. on_rest (batch_execute ma u account items item)) (persist_journal (jo_to_vec io))
       (\<lambda>w. journal_state (jo_from_slice io) (jo_state io) (wo_disk w)) plan_id now items"

section \<open>The commands\<close>

definition drop_scope :: "string \<Rightarrow> 'n desktop \<Rightarrow> 'n desktop" where
  "drop_scope i dp = dp\<lparr> dp_requests := drop_request i (dp_requests dp) \<rparr>"

definition with_change ::
  "(unlocked \<Rightarrow> 'n desktop \<Rightarrow> (cmd_error, 'a) result \<times> 'n desktop) \<Rightarrow> 'n desktop \<Rightarrow> (cmd_error, 'a) result \<times> 'n desktop" where
  "with_change body dp =
     (case begin_change (dp_sess dp) of
        (Err e, s) \<Rightarrow> (Err e, dp\<lparr> dp_sess := s \<rparr>)
      | (Ok u, s) \<Rightarrow> let (r, dp) = body u (dp\<lparr> dp_sess := s \<rparr>) in (r, dp\<lparr> dp_sess := end_plan (dp_sess dp) \<rparr>))"

definition with_request ::
  "string \<Rightarrow> ('n desktop \<Rightarrow> (cmd_error, 'a) result \<times> 'n desktop) \<Rightarrow> 'n desktop \<Rightarrow> (cmd_error, 'a) result \<times> 'n desktop" where
  "with_request i body dp =
     (case claim_plan_request i (dp_requests dp) of
        (Err e, q) \<Rightarrow> (Err e, dp\<lparr> dp_requests := q \<rparr>)
      | (Ok _, q) \<Rightarrow> let (r, dp) = body (dp\<lparr> dp_requests := q \<rparr>) in (r, drop_scope i dp))"

definition submit_body ::
  "'n market_access \<Rightarrow> journal_io \<Rightarrow> string \<Rightarrow> string \<Rightarrow> plan_item list \<Rightarrow> unlocked \<Rightarrow> 'n desktop
   \<Rightarrow> (cmd_error, plan_response) result \<times> 'n desktop" where
  "submit_body ma io plan_id now items u dp =
     (case journal_state (jo_from_slice io) (jo_state io) (wo_disk (dp_world dp)) of
        Unfinished \<Rightarrow> (Err (CmdError ''busy'' ''An unfinished batch is saved. Resume or discard it before sending another.''), dp)
      | UnreadableJournal detail \<Rightarrow> (Err (internal_error
          (''The saved batch could not be read, so a new one cannot safely replace it. '' @ detail)), dp)
      | Finished \<Rightarrow> (Err (CmdError ''busy''
          ''A completed batch is still saved. Retry saving or discard its record before sending another.''), dp)
      | Absent \<Rightarrow>
          let (response, w, _) = start_batch ma io u (ss_unlocked (dp_sess dp)) plan_id now items (dp_world dp);
              (response, w) = settle ma io items response w
          in (Ok response, dp\<lparr> dp_world := w \<rparr>))"

definition submit_plan ::
  "'n market_access \<Rightarrow> journal_io \<Rightarrow> string \<Rightarrow> string \<Rightarrow> string \<Rightarrow> plan_item list \<Rightarrow> 'n desktop
   \<Rightarrow> (cmd_error, plan_response) result \<times> 'n desktop" where
  "submit_plan ma io request_id plan_id now items =
     with_request request_id (with_change (submit_body ma io plan_id now items))"

definition get_pending_plan :: "journal_io \<Rightarrow> 'n desktop \<Rightarrow> (cmd_error, pending_plan option) result" where
  "get_pending_plan io dp =
     (case load_pending (jo_from_slice io) (jo_load io) (wo_disk (dp_world dp)) of
        Err e \<Rightarrow> Err (internal_error (store_error_text e)) | Ok p \<Rightarrow> Ok p)"

definition discard_pending_plan :: "journal_io \<Rightarrow> 'n desktop \<Rightarrow> (cmd_error, unit) result \<times> 'n desktop" where
  "discard_pending_plan io dp =
     (case begin_plan (dp_sess dp) of
        (False, _) \<Rightarrow> (Err (CmdError ''busy'' ''A listing plan is already running - wait for it to finish.''), dp)
      | (True, _) \<Rightarrow> (case clear_pending (jo_remove io) (wo_disk (dp_world dp)) of
          (d, Err e) \<Rightarrow> (Err (internal_error (''The saved batch was not discarded. '' @ store_error_text e)),
                        dp\<lparr> dp_world := (dp_world dp)\<lparr> wo_disk := d \<rparr> \<rparr>)
        | (d, Ok _) \<Rightarrow> (Ok (), dp\<lparr> dp_world := (dp_world dp)\<lparr> wo_disk := d \<rparr> \<rparr>)))"

text \<open>
  Resuming reads the saved batch first, before it claims its request or takes the guard; what follows works on what
  was read.
\<close>

definition resume_load :: "journal_io \<Rightarrow> 'n desktop \<Rightarrow> (cmd_error, pending_plan) result" where
  "resume_load io dp =
     (case load_pending (jo_from_slice io) (jo_state io) (wo_disk (dp_world dp)) of
        Ok (Some plan) \<Rightarrow> Ok plan
      | Ok None \<Rightarrow> Err (CmdError ''no_pending'' ''No pending plan to resume.'')
      | Err e \<Rightarrow> Err (internal_error (''The saved batch could not be read, so it cannot be resumed. '' @ store_error_text e)))"

definition reviewed_items :: "pending_plan \<Rightarrow> plan_item list" where
  "reviewed_items pending = map plan_item.truncate (pp_items pending)"

definition resume_body ::
  "'n market_access \<Rightarrow> journal_io \<Rightarrow> pending_plan \<Rightarrow> unlocked \<Rightarrow> 'n desktop
   \<Rightarrow> (cmd_error, plan_response) result \<times> 'n desktop" where
  "resume_body ma io pending u dp =
     (let reviewed = reviewed_items pending;
          (response, _, w, _) = run_batch ma io u (ss_unlocked (dp_sess dp)) reviewed pending (dp_world dp);
          (response, w) = settle ma io reviewed response w
      in (Ok response, dp\<lparr> dp_world := w \<rparr>))"

definition resume_finished ::
  "'n market_access \<Rightarrow> journal_io \<Rightarrow> pending_plan \<Rightarrow> 'n desktop \<Rightarrow> (cmd_error, plan_response) result \<times> 'n desktop" where
  "resume_finished ma io pending dp =
     (case begin_only (dp_sess dp) of
        (Err e, s) \<Rightarrow> (Err e, dp\<lparr> dp_sess := s \<rparr>)
      | (Ok _, s) \<Rightarrow>
          let (response, w) = settle ma io (reviewed_items pending) (finished_plan_response pending) (dp_world dp)
          in (Ok response, dp\<lparr> dp_world := w, dp_sess := end_plan s \<rparr>))"

definition resume_rest ::
  "'n market_access \<Rightarrow> journal_io \<Rightarrow> string \<Rightarrow> pending_plan \<Rightarrow> 'n desktop
   \<Rightarrow> (cmd_error, plan_response) result \<times> 'n desktop" where
  "resume_rest ma io request_id pending =
     with_request request_id
       (if is_finished pending then resume_finished ma io pending else with_change (resume_body ma io pending))"

definition resume_pending_plan ::
  "'n market_access \<Rightarrow> journal_io \<Rightarrow> string \<Rightarrow> 'n desktop \<Rightarrow> (cmd_error, plan_response) result \<times> 'n desktop" where
  "resume_pending_plan ma io request_id dp =
     (case resume_load io dp of Err e \<Rightarrow> (Err e, dp) | Ok pending \<Rightarrow> resume_rest ma io request_id pending dp)"

definition cancel_plan :: "string \<Rightarrow> 'n desktop \<Rightarrow> (cmd_error, unit) result \<times> 'n desktop" where
  "cancel_plan i dp = (let (r, q) = cancel_request i (dp_requests dp) in (r, dp\<lparr> dp_requests := q \<rparr>))"

section \<open>One order\<close>

text \<open>The derived decoding of a plan item.\<close>

definition plan_item_fields :: "string list" where
  "plan_item_fields = [''inventory_snapshot_id'', ''slug'', ''platinum'', ''quantity'', ''per_trade'', ''session'',
     ''reviewed_order'', ''order_type'', ''visible'', ''rank'', ''subtype'', ''reference_low_sell'']"

definition plan_item_of_json :: "json \<Rightarrow> plan_item option" where
  "plan_item_of_json v = do {
     ms \<leftarrow> members v;
     snapshot \<leftarrow> opt_field i64_of_json ms ''inventory_snapshot_id'';
     slug \<leftarrow> req_field as_str ms ''slug'';
     platinum \<leftarrow> req_field u32_of_json ms ''platinum'';
     quantity \<leftarrow> req_field u32_of_json ms ''quantity'';
     per_trade \<leftarrow> opt_field u32_of_json ms ''per_trade'';
     session \<leftarrow> opt_field session_of_json ms ''session'';
     reviewed \<leftarrow> opt_field reviewed_of_json ms ''reviewed_order'';
     order_type \<leftarrow> req_field as_str ms ''order_type'';
     visible \<leftarrow> req_field as_bool ms ''visible'';
     rank \<leftarrow> opt_field u32_of_json ms ''rank'';
     subtype \<leftarrow> opt_field as_str ms ''subtype'';
     low \<leftarrow> opt_field u32_of_json ms ''reference_low_sell'';
     if fields_once plan_item_fields ms
     then Some \<lparr> it_inventory_snapshot_id = snapshot, it_slug = slug, it_platinum = platinum,
       it_quantity = quantity, it_per_trade = per_trade, it_session = session, it_reviewed_order = reviewed,
       it_order_type = order_type, it_visible = visible, it_rank = rank, it_subtype = subtype,
       it_reference_low_sell = low \<rparr>
     else None }"

definition or_null :: "json option \<Rightarrow> json" where
  "or_null v = unwrap_or v JNull"

text \<open>The order as it would be after the edit.\<close>

definition edited_json :: "update_request \<Rightarrow> json \<Rightarrow> json" where
  "edited_json patch row = JObj
     [(''slug'', or_null (Option.bind (jget row ''item'') (\<lambda>i. jget i ''slug''))),
      (''quantity'', or_null (case up_quantity patch of Some q \<Rightarrow> Some (json_of_u32 q) | None \<Rightarrow> jget row ''quantity'')),
      (''rank'', or_null (case up_rank patch of Some r \<Rightarrow> Some (json_of_u32 r) | None \<Rightarrow> jget row ''rank'')),
      (''subtype'', or_null (jget row ''subtype'')),
      (''platinum'', json_of_u32 (unwrap_or (up_platinum patch) 5)), (''visible'', JBool False), (''order_type'', JStr ''sell'')]"

definition internal_result :: "(ustr, 'a) result \<Rightarrow> (cmd_error, 'a) result" where
  "internal_result r = (case r of Err e \<Rightarrow> Err (internal_error (bytes_of e)) | Ok a \<Rightarrow> Ok a)"

text \<open>\<open>CmdError::wfm\<close>; the code of an access error is not carried by the errors of this model.\<close>

definition wfm_result :: "(string, 'a) result \<Rightarrow> (cmd_error, 'a) result" where
  "wfm_result r = (case r of Err e \<Rightarrow> Err (CmdError ''wfm'' e) | Ok a \<Rightarrow> Ok a)"

definition check_edit ::
  "'n market_access \<Rightarrow> update_request \<Rightarrow> string \<Rightarrow> desk \<Rightarrow> market_data \<Rightarrow> json \<Rightarrow> (cmd_error, unit) result" where
  "check_edit ma patch order_id dk m body =
     rbind (ok_or (rows_of_body body) (internal_error ''Current orders unavailable.'')) (\<lambda>rows.
     rbind (ok_or (find (\<lambda>row. Option.bind (jget row ''id'') as_str = Some order_id) rows)
              (internal_error ''The order changed; refresh orders.'')) (\<lambda>row.
       if Option.bind (jget row ''type'') as_str = Some ''buy'' then Ok ()
       else rbind (ok_or (plan_item_of_json (edited_json patch row)) (internal_error ''unreadable order'')) (\<lambda>item.
         internal_result (validate_protected_contents (ce_protection (ma_env ma)) dk m body [item]))))"

definition guard_edit ::
  "'n market_access \<Rightarrow> unlocked \<Rightarrow> string \<Rightarrow> update_request \<Rightarrow> 'n trade_rest \<Rightarrow> (cmd_error, unit) result \<times> 'n trade_rest" where
  "guard_edit ma u order_id patch w =
     (case internal_result (rbind (load_plan (pe_plan (ce_protection (ma_env ma))) (te_desk w)) (plan_active (te_desk w))) of
        Err e \<Rightarrow> (Err e, w)
      | Ok active \<Rightarrow>
          if active \<and> (up_quantity patch \<noteq> None \<or> up_rank patch \<noteq> None) then
            let (fetched, w) = on_net (ce_orders (ma_env ma)) w
            in (rbind (wfm_result (list_user_orders (ce_fmt (ma_env ma)) u fetched))
                  (check_edit ma patch order_id (te_desk w) (te_market w)), w)
          else (Ok (), w))"

definition update_order_command ::
  "'n market_access \<Rightarrow> string option \<Rightarrow> string \<Rightarrow> update_request \<Rightarrow> 'n desktop
   \<Rightarrow> (cmd_error, per_order_result) result \<times> 'n desktop" where
  "update_order_command ma client_error order_id patch dp =
     (case opt_filter (\<lambda>p. MAX_PLATINUM < p) (up_platinum patch) of
        Some p \<Rightarrow> (Err (CmdError ''wfm'' (''price '' @ show_word p @ ''p > max 3000p'')), dp)
      | None \<Rightarrow> with_change (\<lambda>u dp.
          let w = dp_world dp in
          case guard_edit ma u order_id patch (wo_rest w) of
            (Err e, rest) \<Rightarrow> (Err e, dp\<lparr> dp_world := w\<lparr> wo_rest := rest \<rparr> \<rparr>)
          | (Ok _, rest) \<Rightarrow>
              let (r, rest) = update_order (ce_fmt (ma_env ma)) (\<lambda>m. on_net (ma_send ma m)) client_error order_id patch rest
              in (wfm_result r, dp\<lparr> dp_world := w\<lparr> wo_rest := rest \<rparr> \<rparr>)) dp)"

definition delete_order_command ::
  "'n market_access \<Rightarrow> string option \<Rightarrow> string \<Rightarrow> 'n desktop \<Rightarrow> (cmd_error, unit) result \<times> 'n desktop" where
  "delete_order_command ma client_error order_id = with_change (\<lambda>u dp.
     let (r, rest) = delete_order (ce_fmt (ma_env ma)) (\<lambda>m. on_net (ma_send ma m)) client_error order_id (wo_rest (dp_world dp))
     in (wfm_result r, dp\<lparr> dp_world := (dp_world dp)\<lparr> wo_rest := rest \<rparr> \<rparr>))"

definition bulk_visibility_command ::
  "'n market_access \<Rightarrow> string option \<Rightarrow> string list \<Rightarrow> bool \<Rightarrow> 'n desktop
   \<Rightarrow> (cmd_error, per_order_result list) result \<times> 'n desktop" where
  "bulk_visibility_command ma client_error order_ids visible = with_change (\<lambda>u dp.
     let (rs, rest) = bulk_set_visibility (ce_fmt (ma_env ma)) (\<lambda>m. on_net (ma_send ma m)) client_error order_ids visible
                        (wo_rest (dp_world dp))
     in (Ok rs, dp\<lparr> dp_world := (dp_world dp)\<lparr> wo_rest := rest \<rparr> \<rparr>))"

section \<open>The orders shown\<close>

record own_order =
  ow_id :: string
  ow_item_id :: string
  ow_slug :: "string option"
  ow_name :: "string option"
  ow_side :: order_side
  ow_platinum :: u64
  ow_quantity :: u64
  ow_per_trade :: "u64 option"
  ow_visible :: "bool option"
  ow_rank :: "u64 option"
  ow_subtype :: "string option"

definition display_order :: "unlocked \<Rightarrow> normalized_order \<Rightarrow> own_order" where
  "display_order u n =
     (let meta = map_of (un_id_to_item u) (no_item_id n)
      in \<lparr> ow_id = no_id n, ow_item_id = no_item_id n, ow_slug = map_option im_slug meta, ow_name = map_option im_name meta,
           ow_side = no_side n, ow_platinum = no_platinum n, ow_quantity = no_quantity n, ow_per_trade = no_per_trade n,
           ow_visible = no_visible n, ow_rank = no_rank n, ow_subtype = no_subtype n \<rparr>)"

definition shown_order :: "unlocked \<Rightarrow> order_row \<Rightarrow> (cmd_error, own_order) result" where
  "shown_order u row =
     (case row of
        Supported n \<Rightarrow> Ok (display_order u n)
      | _ \<Rightarrow> Err (CmdError ''wfm''
          ''Current orders contain a row this version cannot display; refresh or resolve it on WFM.''))"

text \<open>\<open>fetched\<close>: what the shared cache or the network returns.\<close>

definition fetch_orders :: "fmt \<Rightarrow> (string, json) result \<Rightarrow> sess \<Rightarrow> (cmd_error, own_order list) result" where
  "fetch_orders fm fetched s =
     rbind (require_unlocked s) (\<lambda>u.
     rbind (wfm_result (list_user_orders fm u fetched)) (\<lambda>body.
     rbind (wfm_result (decode_user_orders (fm_json fm) (fm_debug fm) u body)) (\<lambda>decoded.
       map_ok (shown_order u) decoded)))"

end
