(* ===== verification/Batch_Command_Facts.thy ===== *)
theory Batch_Command_Facts
  imports Batch_Commands
begin

text \<open>
  The listing commands over the journal and the guard: a batch's record is cleared only when every item has its
  answer, a saved batch is not replaced, and while one change holds the guard no other command changes anything.
\<close>

section \<open>What a read of the journal finds now\<close>

definition journal_now :: "(string \<Rightarrow> json option) \<Rightarrow> 'e world \<Rightarrow> pending_plan option set" where
  "journal_now from_slice w = {Option.bind (dk_now (wo_disk w)) (plan_of_bytes from_slice)}"

lemma persist_now_store:
  assumes "\<And>v. from_slice (to_vec v) = Some v"
  shows "plan_store (persist_journal to_vec) (journal_now from_slice)"
proof
  fix p u e and w w' :: "'e world"
  have reads: "plan_of_bytes from_slice (to_vec (plan_json p)) = Some p"
    using assms by (intro plan_of_bytes_json)
  show "journal_now from_slice w' = {Some p}" if "persist_journal to_vec p w = (Ok u, w')"
    using that reads by (auto simp: persist_journal_def journal_now_def write_pending_Ok split: prod.splits)
  show "journal_now from_slice w' \<subseteq> insert (Some p) (journal_now from_slice w)" if "persist_journal to_vec p w = (Err e, w')"
    using that reads
    by (auto simp: persist_journal_def journal_now_def write_pending_atomic_def renamed_def dir_synced_def Let_def
        split: prod.splits write_fault.splits list.splits)
qed

lemma now_on_rest [simp]: "journal_now from_slice (snd (on_rest f w)) = journal_now from_slice w"
  by (simp add: on_rest_def journal_now_def split: prod.splits)

lemma persist_now_runner:
  assumes "\<And>v. from_slice (to_vec v) = Some v"
  shows "plan_runner (persist_journal to_vec) (journal_now from_slice) (on_rest validate) (on_rest check)
    (\<lambda>item. on_rest (execute item))"
  using persist_now_store [of from_slice to_vec, OF assms]
  by (intro plan_runner.intro plan_runner_axioms.intro) simp_all

interpretation now: plan_runner "persist_journal unary_print" "journal_now unary_parse"
    "on_rest validate" "on_rest check" "\<lambda>item. on_rest (execute item)"
  for validate :: "'e validate" and check :: "'e check" and execute :: "'e execute"
  by (rule persist_now_runner) (rule unary_parse_print)

section \<open>A run keeps its record and answers from it\<close>

definition answers_for :: "pending_plan \<Rightarrow> plan_response \<Rightarrow> bool" where
  "answers_for p resp \<longleftrightarrow> resp = plan_results p \<or> (\<exists>e. resp = validation_failure p e)"

context plan_runner
begin

lemma run_from_keeps:
  assumes "None \<notin> saved w" and "run_from validate check execute persist is p w = (resp, p', w', tr)"
  shows "None \<notin> saved w' \<and> (pn_durability_error resp = None \<longrightarrow> answers_for p' resp)"
  using assms
proof (induction "is" arbitrary: p w tr)
  case Nil
  then show ?case by (auto simp: answers_for_def)
next
  case (Cons k "is")
  show ?case
  proof (cases rule: run_from_Cons [of w k "is" p])
    case (item v)
    obtain s w1 where 1: "persist (set_item k mark_uncertain p) v = (s, w1)" by (cases "persist (set_item k mark_uncertain p) v")
    then have "None \<notin> saved w1" using persist_saved [OF 1] Cons.prems(1) item(1) by auto
    obtain r w2 where 2: "execute (plan_item.truncate (pp_items p ! k)) w1 = (r, w2)"
      by (cases "execute (plan_item.truncate (pp_items p ! k)) w1")
    let ?p2 = "set_item k (take_result r) (set_item k mark_uncertain p)"
    obtain t w3 where 3: "persist ?p2 w2 = (t, w3)" by (cases "persist ?p2 w2")
    have "saved w2 = saved w1" using execute_saved [of "plan_item.truncate (pp_items p ! k)" w1] 2 by simp
    with 3 \<open>None \<notin> saved w1\<close> have "None \<notin> saved w3" using persist_saved [OF 3] by auto

    show ?thesis
    proof (cases s)
      case (Inl e)
      then show ?thesis using Cons.prems(2) item(3) 1 \<open>None \<notin> saved w1\<close> by (auto simp: run_item_def durability_failure_def)
    next
      case (Inr u)
      note shape = Cons.prems(2) [unfolded item(3) run_item_def 1 Let_def 2 3 prod.case Inr sum.case]
      show ?thesis
      proof (cases t)
        case (Inl e)
        then show ?thesis using shape \<open>None \<notin> saved w3\<close> by (auto simp: durability_failure_def 2 3)
      next
        case (Inr u)
        show ?thesis
        proof (cases "ir_status r = STATUS_PENDING \<or> ir_status r = STATUS_UNCERTAIN")
          case True
          then show ?thesis using shape Inr \<open>None \<notin> saved w3\<close> by (auto simp: answers_for_def 2 3)
        next
          case False
          then obtain tr' where "run_from validate check execute persist is ?p2 w3 = (resp, p', w', tr')"
            using shape Inr by (auto simp: trace_first_def prod_eq_iff 2 3)
          then show ?thesis by (rule Cons.IH [OF \<open>None \<notin> saved w3\<close>])
        qed
      qed
    qed
  next
    case (skip v)
    then have "run_from validate check execute persist is p v = (resp, p', w', tr)" using Cons.prems(2) by simp
    then show ?thesis by (rule Cons.IH [rotated]) (use Cons.prems skip(1) in auto)
  qed (use Cons.prems in \<open>auto simp: answers_for_def\<close>)
qed

lemma run_pending_keeps:
  assumes "None \<notin> saved w" and "run_pending validate check execute persist p w = (resp, p', w', tr)"
  shows "None \<notin> saved w' \<and> (pn_durability_error resp = None \<longrightarrow> answers_for p' resp)"
proof (cases rule: run_pending_Ok [of w p])
  case (valid v)
  then have "run_from validate check execute persist [0..<length (pp_items p)] p v = (resp, p', w', tr)"
    using assms(2) by simp
  then show ?thesis by (rule run_from_keeps [rotated]) (use assms valid(1) in auto)
qed (use assms in \<open>auto simp: answers_for_def\<close>)

lemma run_from_length:
  "run_from validate check execute persist is p w = (resp, p', w', tr) \<Longrightarrow> length (pp_items p') = length (pp_items p)"
proof (induction "is" arbitrary: p w tr)
  case (Cons k "is")
  show ?case
  proof (cases rule: run_from_Cons [of w k "is" p])
    case (item v)
    show ?thesis
      using Cons.prems Cons.IH item(3)
      by (cases rule: run_item_cases [of k p v "run_from validate check execute persist is"])
        (auto simp: trace_first_def prod_eq_iff)
  next
    case (skip v)
    then have "run_from validate check execute persist is p v = (resp, p', w', tr)" using Cons.prems by simp
    then show ?thesis by (rule Cons.IH)
  qed (use Cons.prems in auto)
qed simp

lemma run_pending_length:
  "run_pending validate check execute persist p w = (resp, p', w', tr) \<Longrightarrow> length (pp_items p') = length (pp_items p)"
  by (cases rule: run_pending_Ok [of w p]) (auto dest: run_from_length)

end

section \<open>Clearing the record\<close>

text \<open>What the journal's file reads as.\<close>

definition record_of :: "journal_io \<Rightarrow> 'e world \<Rightarrow> pending_plan option" where
  "record_of io w = Option.bind (dk_now (wo_disk w)) (plan_of_bytes (jo_from_slice io))"

text \<open>A record every item of which has its answer, and the rows of a response that are those answers.\<close>

definition settled_by :: "pending_plan \<Rightarrow> plan_response \<Rightarrow> bool" where
  "settled_by saved resp \<longleftrightarrow> (\<forall>item\<in>set (pp_items saved). pi_status item = STATUS_OK \<or> pi_status item = STATUS_ERROR)
     \<and> pn_results resp = map result_of_item (pp_items saved)"

lemma seed_is_refused: "validation_failure (seed_plan plan_id now items) (Invalid e) = batch_error plan_id e"
  by (simp add: validation_failure_def seed_plan_def list_ex_iff plan_item.defs)

lemma answers_for_id: "answers_for p resp \<Longrightarrow> pn_plan_id resp = pp_plan_id p"
  by (auto simp: answers_for_def plan_results_def validation_failure_def batch_error_def Let_def)

lemma finished_answer_settled:
  assumes "answers_for p resp" and "is_finished p" and "pp_items p \<noteq> []"
  shows "settled_by p resp"
proof -
  have all: "\<forall>i\<in>set (pp_items p). pi_status i = STATUS_OK \<or> pi_status i = STATUS_ERROR"
    using assms(2) by (auto simp: is_finished_def list_all_iff)
  then have "list_ex (\<lambda>i. pi_status i = STATUS_OK \<or> pi_status i = STATUS_ERROR) (pp_items p)"
    using assms(3) by (cases "pp_items p") auto
  moreover have "\<forall>i\<in>set (pp_items p). pi_status i \<noteq> STATUS_PENDING" using all by auto
  ultimately have "pn_results resp = map result_of_item (pp_items p)"
    using assms(1) by (auto simp: answers_for_def plan_results_def validation_failure_def Let_def)
  with all show ?thesis by (simp add: settled_by_def)
qed

lemma finish_plan_clears:
  assumes "finish_plan io resp d = (d', resp')" and "dk_now d \<noteq> None" and "dk_now d' = None" and "pp_items p \<noteq> []"
    and "pn_durability_error resp = None \<Longrightarrow>
      Option.bind (dk_now d) (plan_of_bytes (jo_from_slice io)) = Some p \<and> answers_for p resp"
  shows "Option.bind (dk_now d) (plan_of_bytes (jo_from_slice io)) = Some p \<and> settled_by p resp'"
proof -
  have none: "pn_durability_error resp = None"
    using assms(1-3) by (cases "pn_durability_error resp") (auto simp: finish_plan_def)
  with assms(5) have p: "Option.bind (dk_now d) (plan_of_bytes (jo_from_slice io)) = Some p" and a: "answers_for p resp"
    by auto
  have load: "load_pending (jo_from_slice io) e d = (case e of None \<Rightarrow> Ok (Some p) | Some e \<Rightarrow> Err (Unreadable e))" for e
    using p assms(2) by (auto simp: load_pending_def split: option.splits)
  have id: "pp_plan_id p = pn_plan_id resp" using answers_for_id [OF a] by simp
  have cleared: "clear_finished_pending (jo_from_slice io) (jo_reload io) (jo_remove io) p d = (d', Ok ())" and "resp' = resp"
    and "is_finished p"
    using assms(1-3) none id by (auto simp: finish_plan_def load clear_finished_pending_def clear_pending_def
        split: option.splits sum.splits prod.splits if_splits)
  with finished_answer_settled [OF a] p assms(4) show ?thesis by simp
qed

lemma settle_clears:
  assumes "settle ma io items resp w = (resp', w')" and "dk_now (wo_disk w) \<noteq> None" and "dk_now (wo_disk w') = None"
    and "pp_items p \<noteq> []" and "pn_durability_error resp = None \<Longrightarrow> record_of io w = Some p \<and> answers_for p resp"
  shows "record_of io w = Some p \<and> settled_by p resp'"
proof -
  obtain d where "finish_plan io resp (wo_disk w) = (d, resp')" and "wo_disk w' = d"
    using assms(1) by (auto simp: settle_def split: prod.splits)
  then show ?thesis using finish_plan_clears [of io resp "wo_disk w" d resp' p] assms(2-5) by (simp add: record_of_def)
qed

lemma run_batch_clears:
  assumes "\<And>v. jo_from_slice io (jo_to_vec io v) = Some v"
    and "run_batch ma io u account reviewed p w = (resp, p', w', tr)" and "pp_items p \<noteq> []"
    and "record_of io w = Some p"
    and "settle ma io items resp w' = (resp', w'')" and "dk_now (wo_disk w'') = None"
  shows "record_of io w' = Some p' \<and> settled_by p' resp'"
proof (rule settle_clears [OF assms(5)])
  have run: "run_pending (on_rest (batch_validate ma account reviewed)) (on_rest (on_net (ma_check ma)))
      (\<lambda>item. on_rest (batch_execute ma u account reviewed item)) (persist_journal (jo_to_vec io)) p w = (resp, p', w', tr)"
    using assms(2) by (simp add: run_batch_def)
  note runner = persist_now_runner [of "jo_from_slice io" "jo_to_vec io", OF assms(1)]
  have "journal_now (jo_from_slice io) w = {Some p}" using assms(4) by (simp add: journal_now_def record_of_def)
  then have keeps: "None \<notin> journal_now (jo_from_slice io) w' \<and> (pn_durability_error resp = None \<longrightarrow> answers_for p' resp)"
    and durable: "pn_durability_error resp = None \<Longrightarrow> journal_now (jo_from_slice io) w' \<subseteq> {Some p'}"
    using plan_runner.run_pending_keeps [OF runner _ run] plan_runner.run_pending_durable [OF runner _ run] by auto
  from keeps show "dk_now (wo_disk w') \<noteq> None"
    by (cases "dk_now (wo_disk w')") (simp_all add: journal_now_def)
  show "record_of io w' = Some p' \<and> answers_for p' resp" if "pn_durability_error resp = None"
    using keeps durable that by (simp add: journal_now_def record_of_def)
  show "pp_items p' \<noteq> []" using plan_runner.run_pending_length [OF runner run] assms(3) by auto
qed (rule assms(6))

text \<open>What the clean-up may have found: nothing, when nothing had been sent; or a settled record.\<close>

definition cleared_rightly :: "journal_io \<Rightarrow> plan_response \<Rightarrow> 'e world \<Rightarrow> 'e world trace \<Rightarrow> bool" where
  "cleared_rightly io resp w tr \<longleftrightarrow>
     dk_now (wo_disk w) = None \<and> starts_of tr = [] \<or> (\<exists>saved. record_of io w = Some saved \<and> settled_by saved resp)"

lemma start_batch_clears:
  assumes "\<And>v. jo_from_slice io (jo_to_vec io v) = Some v"
    and "start_batch ma io u account plan_id now items w = (resp, w', tr)" and "dk_now (wo_disk w) = None"
    and "settle ma io items' resp w' = (resp', w'')" and "dk_now (wo_disk w'') = None"
  shows "cleared_rightly io resp' w' tr"
proof -
  let ?seed = "seed_plan plan_id now items"
  have seed: "items \<noteq> [] \<Longrightarrow> pp_items ?seed \<noteq> []" by (simp add: seed_plan_def)
  consider (refused) "w' = w" "tr = []"
    | (unsaved) e where "items \<noteq> []" "persist_journal (jo_to_vec io) ?seed w = (Err e, w')" "starts_of tr = []"
        "\<exists>m. resp = validation_failure ?seed (Invalid m)"
    | (ran) u' w1 p' tr' where "items \<noteq> []" "persist_journal (jo_to_vec io) ?seed w = (Ok u', w1)"
        "run_batch ma io u account items ?seed w1 = (resp, p', w', tr')"
  proof (cases "persist_journal (jo_to_vec io) ?seed w")
    case (Pair s w1)
    obtain r p' v tr' where run: "run_batch ma io u account items ?seed w1 = (r, p', v, tr')"
      by (cases "run_batch ma io u account items ?seed w1")
    show thesis
    proof (cases s)
      case (Inl e)
      then show thesis using that(1,2) assms(2) Pair
        by (auto simp: start_batch_def execute_plan_def Let_def split: if_splits journal_state.splits; blast)
    next
      case (Inr u)
      then show thesis using that(1,3) assms(2) Pair run
        by (auto simp: start_batch_def run_batch_def execute_plan_def Let_def split: if_splits journal_state.splits)
    qed
  qed
  then show ?thesis
  proof cases
    case refused
    then show ?thesis using assms(3) by (simp add: cleared_rightly_def)
  next
    case unsaved
    show ?thesis
    proof (cases "dk_now (wo_disk w') = None")
      case True
      then show ?thesis using unsaved(3) by (simp add: cleared_rightly_def)
    next
      case False
      have sub: "journal_now (jo_from_slice io) w' \<subseteq> insert (Some ?seed) (journal_now (jo_from_slice io) w)"
        using plan_store.persist_Err [OF persist_now_store [of "jo_from_slice io" "jo_to_vec io"]] assms(1) unsaved(2) by blast
      have "wo_disk w' = wo_disk w \<or> dk_now (wo_disk w') = Some (jo_to_vec io (plan_json ?seed))"
        using unsaved(2) by (auto simp: persist_journal_def write_pending_atomic_def renamed_def Let_def
            split: prod.splits write_fault.splits list.splits if_splits)
      then have "record_of io w' = Some ?seed"
        using False assms(1,3) by (auto simp: record_of_def plan_of_bytes_json)
      then have "record_of io w' = Some ?seed \<and> settled_by ?seed resp'"
        using False unsaved(4) by (intro settle_clears [OF assms(4) False assms(5) seed [OF unsaved(1)]]) (auto simp: answers_for_def)
      then show ?thesis by (auto simp: cleared_rightly_def)
    qed
  next
    case ran
    have "journal_now (jo_from_slice io) w1 = {Some ?seed}"
      using plan_store.persist_Ok [OF persist_now_store [of "jo_from_slice io" "jo_to_vec io"]] assms(1) ran(2) by blast
    then have "record_of io w1 = Some ?seed" by (simp add: journal_now_def record_of_def)
    from run_batch_clears [OF assms(1) ran(3) seed [OF ran(1)] this assms(4,5)] show ?thesis by (auto simp: cleared_rightly_def)
  qed
qed

lemma finished_settles:
  assumes "is_finished p" and "settle ma io items (finished_plan_response p) w = (resp, w')"
  shows "settled_by p resp"
  using assms
  by (auto simp: settle_def finish_plan_def settled_by_def finished_plan_response_def plan_results_def is_finished_def list_all_iff
      split: prod.splits sum.splits option.splits if_splits)

section \<open>The commands' scopes\<close>

lemma with_request_world:
  assumes "with_request i body dp = (r, dp')"
  obtains e where "r = Err e" "dp_world dp' = dp_world dp" "dp_sess dp' = dp_sess dp"
  | q dp2 where "body (dp\<lparr> dp_requests := q \<rparr>) = (r, dp2)" "dp_world dp' = dp_world dp2" "dp_sess dp' = dp_sess dp2"
  using assms by (auto simp: with_request_def drop_scope_def Let_def split: prod.splits sum.splits)

lemma begin_change_cases:
  obtains "ss_plan_running s" "begin_change s = (Err busy_change, s)"
  | u where "\<not> ss_plan_running s" "ss_unlocked s = Some u" "begin_change s = (Ok u, s\<lparr> ss_plan_running := True \<rparr>)"
  | e where "\<not> ss_plan_running s" "begin_change s = (Err e, s\<lparr> ss_plan_running := False \<rparr>)"
  by (cases "ss_plan_running s"; cases "ss_unlocked s"; cases "ss_jwt_file s")
    (simp_all add: begin_change_def begin_only_def begin_plan_def end_plan_def require_unlocked_def)

lemma with_change_cases:
  assumes "with_change body dp = (r, dp')"
  obtains (refused) e where "r = Err e" "dp_world dp' = dp_world dp" "ss_plan_running (dp_sess dp') = ss_plan_running (dp_sess dp)"
  | (ran) u dp2 where "\<not> ss_plan_running (dp_sess dp)" "ss_unlocked (dp_sess dp) = Some u"
      "body u (dp\<lparr> dp_sess := (dp_sess dp)\<lparr> ss_plan_running := True \<rparr> \<rparr>) = (r, dp2)"
      "dp_world dp' = dp_world dp2" "dp_sess dp' = end_plan (dp_sess dp2)"
proof (cases rule: begin_change_cases [of "dp_sess dp"])
  case 1
  show ?thesis by (rule refused) (use 1 assms in \<open>auto simp: with_change_def\<close>)
next
  case (2 u)
  obtain r2 dp2 where b: "body u (dp\<lparr> dp_sess := (dp_sess dp)\<lparr> ss_plan_running := True \<rparr> \<rparr>) = (r2, dp2)"
    by (cases "body u (dp\<lparr> dp_sess := (dp_sess dp)\<lparr> ss_plan_running := True \<rparr> \<rparr>)")
  show ?thesis by (rule ran [OF 2(1,2), of dp2]) (use 2(3) b assms in \<open>auto simp: with_change_def\<close>)
next
  case (3 e)
  show ?thesis by (rule refused) (use 3 assms in \<open>auto simp: with_change_def\<close>)
qed

lemma with_change_busy: "ss_plan_running (dp_sess dp) \<Longrightarrow> with_change body dp = (Err busy_change, dp)"
  by (simp add: with_change_def begin_change_def begin_only_def begin_plan_def)

text \<open>
  The run of a command, before its clean-up: a submission starts a batch, a resume continues the record it read, and
  does nothing when that one is finished. \<open>w1\<close> is the world the run ends in, \<open>tr\<close> what it did.
\<close>

definition submission_ran ::
  "'n market_access \<Rightarrow> journal_io \<Rightarrow> string \<Rightarrow> string \<Rightarrow> plan_item list \<Rightarrow> 'n desktop \<Rightarrow> 'n trade_rest world
   \<Rightarrow> 'n trade_rest world trace \<Rightarrow> bool" where
  "submission_ran ma io plan_id now items dp w1 tr \<longleftrightarrow>
     (\<exists>u r. ss_unlocked (dp_sess dp) = Some u \<and> start_batch ma io u (Some u) plan_id now items (dp_world dp) = (r, w1, tr))"

definition resume_ran ::
  "'n market_access \<Rightarrow> journal_io \<Rightarrow> 'n desktop \<Rightarrow> 'n trade_rest world \<Rightarrow> 'n trade_rest world trace \<Rightarrow> bool" where
  "resume_ran ma io dp w1 tr \<longleftrightarrow>
     (\<exists>pending. record_of io (dp_world dp) = Some pending
        \<and> (if is_finished pending then w1 = dp_world dp \<and> tr = []
           else \<exists>u r p'. ss_unlocked (dp_sess dp) = Some u
             \<and> run_batch ma io u (Some u) (reviewed_items pending) pending (dp_world dp) = (r, p', w1, tr)))"

lemma submission_clears:
  assumes "\<And>v. jo_from_slice io (jo_to_vec io v) = Some v"
    and "submit_plan ma io request_id plan_id now items dp = (Ok resp, dp')" and "dk_now (wo_disk (dp_world dp')) = None"
  shows "\<exists>w1 tr. submission_ran ma io plan_id now items dp w1 tr \<and> cleared_rightly io resp w1 tr"
proof -
  obtain q dp2 where "with_change (submit_body ma io plan_id now items) (dp\<lparr> dp_requests := q \<rparr>) = (Ok resp, dp2)"
    and w: "dp_world dp' = dp_world dp2"
    using assms(2) unfolding submit_plan_def by (cases rule: with_request_world) auto
  then obtain u dp3 where u: "ss_unlocked (dp_sess dp) = Some u" and w2: "dp_world dp2 = dp_world dp3"
    and body: "submit_body ma io plan_id now items u
      (dp\<lparr> dp_requests := q, dp_sess := (dp_sess dp)\<lparr> ss_plan_running := True \<rparr> \<rparr>) = (Ok resp, dp3)"
    by (cases rule: with_change_cases) auto
  obtain r w1 tr where start: "start_batch ma io u (Some u) plan_id now items (dp_world dp) = (r, w1, tr)"
    by (cases "start_batch ma io u (Some u) plan_id now items (dp_world dp)")
  obtain r' w'' where settle: "settle ma io items r w1 = (r', w'')" by (cases "settle ma io items r w1")
  have "r' = resp" "dp_world dp3 = w''" and none: "dk_now (wo_disk (dp_world dp)) = None"
    using body by (auto simp: submit_body_def u start settle journal_state_def load_pending_def
        split: journal_state.splits option.splits if_splits)
  with start_batch_clears [OF assms(1) start none settle] w w2 assms(3) u start show ?thesis
    by (auto simp: submission_ran_def)
qed

lemma resume_clears:
  assumes "\<And>v. jo_from_slice io (jo_to_vec io v) = Some v"
    and "resume_pending_plan ma io request_id dp = (Ok resp, dp')" and "dk_now (wo_disk (dp_world dp')) = None"
  shows "\<exists>w1 tr. resume_ran ma io dp w1 tr \<and> cleared_rightly io resp w1 tr"
proof -
  obtain pending where load: "resume_load io dp = Ok pending" and rest: "resume_rest ma io request_id pending dp = (Ok resp, dp')"
    using assms(2) by (auto simp: resume_pending_plan_def split: sum.splits)
  have p: "record_of io (dp_world dp) = Some pending" and there: "dk_now (wo_disk (dp_world dp)) \<noteq> None"
    using load by (auto simp: resume_load_def load_pending_def record_of_def split: sum.splits option.splits)
  let ?body = "if is_finished pending then resume_finished ma io pending else with_change (resume_body ma io pending)"
  obtain q dp2 where body: "?body (dp\<lparr> dp_requests := q \<rparr>) = (Ok resp, dp2)" and w: "dp_world dp' = dp_world dp2"
    using rest unfolding resume_rest_def by (cases rule: with_request_world) auto
  show ?thesis
  proof (cases "is_finished pending")
    case True
    obtain r w' where settle:
        "settle ma io (reviewed_items pending) (finished_plan_response pending) (dp_world dp) = (r, w')"
      by (cases "settle ma io (reviewed_items pending) (finished_plan_response pending) (dp_world dp)")
    have "r = resp" "dp_world dp2 = w'"
      using True body settle by (auto simp: resume_finished_def split: prod.splits sum.splits)
    then have "settled_by pending resp"
      using finished_settles [OF True settle] by simp
    then show ?thesis using True p by (auto simp: resume_ran_def cleared_rightly_def)
  next
    case False
    then have items: "pp_items pending \<noteq> []" by (auto simp: is_finished_def)
    have "with_change (resume_body ma io pending) (dp\<lparr> dp_requests := q \<rparr>) = (Ok resp, dp2)" using body False by simp
    then obtain u dp3 where u: "ss_unlocked (dp_sess dp) = Some u" and w2: "dp_world dp2 = dp_world dp3"
      and body: "resume_body ma io pending u
        (dp\<lparr> dp_requests := q, dp_sess := (dp_sess dp)\<lparr> ss_plan_running := True \<rparr> \<rparr>) = (Ok resp, dp3)"
      by (cases rule: with_change_cases) auto
    let ?run = "run_batch ma io u (Some u) (reviewed_items pending) pending (dp_world dp)"
    obtain r p' w1 tr where run: "?run = (r, p', w1, tr)" by (cases ?run)
    obtain r' w'' where settle: "settle ma io (reviewed_items pending) r w1 = (r', w'')"
      by (cases "settle ma io (reviewed_items pending) r w1")
    have "r' = resp" and "dp_world dp3 = w''" using body by (auto simp: resume_body_def u run settle)
    with run_batch_clears [OF assms(1) run items p settle] w w2 assms(3) False u run p show ?thesis
      by (auto simp: resume_ran_def cleared_rightly_def)
  qed
qed

text \<open>C8: The record of a batch is cleared only when every item has its answer. When a submitted or resumed batch returns and no
  journal is left, then either its run had sent nothing and had left no journal, or the record that the run left in
  the journal had no item pending or of unknown fate, and the response's rows are exactly that record's; so an item
  that is pending or uncertain on disk keeps the journal in place, whatever the market and the disk did and whatever
  the response says. (The JSON parser is assumed to read what the printer wrote.)\<close>

theorem cleared_batch_is_finished:
  assumes "\<And>v. jo_from_slice io (jo_to_vec io v) = Some v"
    and "submit_plan ma io request_id plan_id now items dp = (Ok resp, dp')
      \<or> resume_pending_plan ma io request_id dp = (Ok resp, dp')"
    and "dk_now (wo_disk (dp_world dp')) = None"
  shows "\<exists>w1 tr. (submission_ran ma io plan_id now items dp w1 tr \<or> resume_ran ma io dp w1 tr)
    \<and> (dk_now (wo_disk w1) = None \<and> starts_of tr = []
       \<or> (\<exists>saved. record_of io w1 = Some saved
            \<and> (\<forall>item\<in>set (pp_items saved). pi_status item = STATUS_OK \<or> pi_status item = STATUS_ERROR)
            \<and> pn_results resp = map result_of_item (pp_items saved)))"
  using assms(2)
proof
  assume "submit_plan ma io request_id plan_id now items dp = (Ok resp, dp')"
  from submission_clears [OF assms(1) this assms(3)] show ?thesis
    unfolding cleared_rightly_def settled_by_def by blast
next
  assume "resume_pending_plan ma io request_id dp = (Ok resp, dp')"
  from resume_clears [OF assms(1) this assms(3)] show ?thesis
    unfolding cleared_rightly_def settled_by_def by blast
qed

text \<open>What a command that could not start leaves: an error, and the world and the session as they were.\<close>

definition refused_unchanged :: "'n desktop \<Rightarrow> (cmd_error, 'a) result \<times> 'n desktop \<Rightarrow> bool" where
  "refused_unchanged dp r \<longleftrightarrow> (\<exists>e. fst r = Err e) \<and> dp_world (snd r) = dp_world dp \<and> dp_sess (snd r) = dp_sess dp"

lemma refused_in_request:
  assumes "\<And>q. refused_unchanged (dp\<lparr> dp_requests := q \<rparr>) (body (dp\<lparr> dp_requests := q \<rparr>))"
  shows "refused_unchanged dp (with_request i body dp)"
proof (cases "with_request i body dp")
  case (Pair r dp')
  show ?thesis
    using Pair
  proof (cases rule: with_request_world)
    case (2 q dp2)
    with assms [of q] Pair show ?thesis by (simp add: refused_unchanged_def)
  qed (use Pair in \<open>simp add: refused_unchanged_def\<close>)
qed

lemma refused_busy: "ss_plan_running (dp_sess dp) \<Longrightarrow> refused_unchanged dp (with_change body dp)"
  by (simp add: with_change_busy refused_unchanged_def)

text \<open>One change at a time: while the guard is held, every command that could change an order or the journal (submit, resume,
  discard, update, delete, visibility) is refused, and neither the journal, the market and the outcome record nor the
  session change.\<close>

lemma held_guard_refuses_changes:
  assumes "ss_plan_running (dp_sess dp)"
  shows "refused_unchanged dp (submit_plan ma io request_id plan_id now items dp)
    \<and> refused_unchanged dp (resume_pending_plan ma io request_id dp)
    \<and> refused_unchanged dp (discard_pending_plan io dp)
    \<and> refused_unchanged dp (update_order_command ma client_error order_id patch dp)
    \<and> refused_unchanged dp (delete_order_command ma client_error order_id dp)
    \<and> refused_unchanged dp (bulk_visibility_command ma client_error order_ids visible dp)"
proof (intro conjI)
  show "refused_unchanged dp (submit_plan ma io request_id plan_id now items dp)"
    unfolding submit_plan_def by (intro refused_in_request refused_busy) (simp add: assms)
  have "refused_unchanged dp (resume_rest ma io request_id pending dp)" for pending
    unfolding resume_rest_def
  proof (rule refused_in_request)
    fix q
    let ?dp = "dp\<lparr> dp_requests := q \<rparr>"
    have "refused_unchanged ?dp (with_change (resume_body ma io pending) ?dp)" by (rule refused_busy) (simp add: assms)
    moreover have "refused_unchanged ?dp (resume_finished ma io pending ?dp)"
      by (simp add: assms resume_finished_def begin_only_def begin_plan_def refused_unchanged_def)
    ultimately show "refused_unchanged ?dp
        ((if is_finished pending then resume_finished ma io pending else with_change (resume_body ma io pending)) ?dp)"
      by simp
  qed
  moreover have "refused_unchanged dp (Err e, dp)" for e :: cmd_error by (simp add: refused_unchanged_def)
  ultimately show "refused_unchanged dp (resume_pending_plan ma io request_id dp)"
    by (cases "resume_load io dp") (auto simp: resume_pending_plan_def)
  show "refused_unchanged dp (discard_pending_plan io dp)"
    by (simp add: discard_pending_plan_def begin_plan_def assms refused_unchanged_def)
  show "refused_unchanged dp (update_order_command ma client_error order_id patch dp)"
    by (auto simp: update_order_command_def refused_busy assms split: option.splits) (simp add: refused_unchanged_def)
  show "refused_unchanged dp (delete_order_command ma client_error order_id dp)"
    unfolding delete_order_command_def using assms by (rule refused_busy)
  show "refused_unchanged dp (bulk_visibility_command ma client_error order_ids visible dp)"
    unfolding bulk_visibility_command_def using assms by (rule refused_busy)
qed

section \<open>Witnesses\<close>

definition demo_io :: journal_io where
  "demo_io = \<lparr> jo_from_slice = unary_parse, jo_to_vec = unary_print, jo_state = None, jo_load = None, jo_reload = None,
     jo_remove = None \<rparr>"

text \<open>A market whose orders are empty and which accepts everything; its state counts what was sent.\<close>

definition demo_access :: "nat market_access" where
  "demo_access = \<lparr> ma_env = \<lparr> ce_protection = demo_env, ce_fmt = demo_fmt, ce_now = (\<lambda>_. 0),
       ce_orders = (\<lambda>n. (Ok (JObj [(''data'', JArr [])]), n)) \<rparr>,
     ma_check = (\<lambda>n. (Ok (), n)),
     ma_send = (\<lambda>_ n. (Ok \<lparr> rp_status = 200, rp_retry_after = None,
       rp_body = Some (JObj [(''data'', JObj [(''id'', JStr ''o9'')])]), rp_text = None \<rparr>, Suc n)),
     ma_outcome_faults = (\<lambda>_. None) \<rparr>"

definition demo_sent_item :: plan_item where
  "demo_sent_item = demo_plan_item\<lparr> it_inventory_snapshot_id := Some 1 \<rparr>"

definition demo_rest :: "nat trade_rest" where
  "demo_rest = \<lparr> te_desk = demo_desk, te_market = demo_market, te_outcomes = [], te_rest = 0 \<rparr>"

definition demo_desktop :: "nat desktop" where
  "demo_desktop = \<lparr> dp_requests = no_requests, dp_sess = \<lparr> ss_generation = 0, ss_unlocked = Some demo_unlocked,
       ss_plan_running = False, ss_credential = None, ss_jwt_file = None, ss_pending_file = None, ss_keyring = None \<rparr>,
     dp_world = \<lparr> wo_disk = \<lparr> dk_now = None, dk_crash = [None], dk_unix = True \<rparr>, wo_faults = [], wo_rest = demo_rest \<rparr> \<rparr>"

lemma demo_batch_valid:
  "te_desk w = demo_desk \<Longrightarrow> batch_validate demo_access account [demo_sent_item] w = (Ok (), w)"
proof -
  have s: "sells [demo_sent_item] = [demo_sent_item]" by (simp add: sells_def demo_sent_item_def demo_plan_item_def)
  have i: "it_inventory_snapshot_id demo_sent_item = Some 1" "it_session demo_sent_item = None"
      "item_slug demo_sent_item = tx ''x''"
    by (simp_all add: demo_sent_item_def demo_plan_item_def item_slug_def chars_of_ascii)
  have "\<not> is_set (tx ''x'')" by (simp add: Text.ends_with_def tx_def)
  moreover have "validate_snapshot demo_desk (Some 1) = Ok ()" by (simp add: validate_snapshot_def demo_latest)
  moreover have "plan_active demo_desk no_plan = Ok False" 
    by (simp add: plan_active_def no_plan_def setting_def get_setting_def iv_run_def demo_desk_def db_error_def)
  moreover assume "te_desk w = demo_desk"
  ultimately show ?thesis
    by (simp add: batch_validate_def validate_session_plan_def snapshot_check_def s i invalid_def validate_protected_plan_def
        demo_access_def demo_no_plan)
qed

lemma demo_sent_checked: "check_item demo_fmt demo_unlocked demo_sent_item = Ok demo_catalog_item"
  by (simp add: check_item_def demo_unlocked_def demo_sent_item_def demo_plan_item_def validate_lot_def)

lemma demo_sent_fields:
  "it_reviewed_order demo_sent_item = None" "it_platinum demo_sent_item = 20" "it_slug demo_sent_item = ''x''"
  "item_lot demo_sent_item demo_catalog_item = 6"
  by (simp_all add: item_lot_def demo_sent_item_def demo_plan_item_def demo_catalog_item_def demo_lot)

lemma demo_read_orders: "read_current_orders demo_fmt demo_unlocked (Ok (JObj [(''data'', JArr [])])) = Ok []"
  by (simp add: read_current_orders_once decode_user_orders_def decode_orders_Ok response_rows_def)

lemma demo_access_fields:
  "ce_fmt (ma_env demo_access) = demo_fmt" "ce_orders (ma_env demo_access) n = (Ok (JObj [(''data'', JArr [])]), n)"
  "ma_check demo_access n = (Ok (), n)"
  "ma_send demo_access m n = (Ok \<lparr> rp_status = 200, rp_retry_after = None,
       rp_body = Some (JObj [(''data'', JObj [(''id'', JStr ''o9'')])]), rp_text = None \<rparr>, Suc n)"
  by (simp_all add: demo_access_def)

lemma demo_sent_once:
  assumes "te_desk w = demo_desk"
  shows "\<exists>res. batch_execute demo_access demo_unlocked account [demo_sent_item] demo_sent_item w
      = (res, w\<lparr> te_rest := Suc (te_rest w) \<rparr>) \<and> ir_status res = STATUS_OK"
proof -
  have "te_desk (w\<lparr> te_rest := te_rest w \<rparr>) = demo_desk" using assms by simp
  note valid = demo_batch_valid [OF this]
  show ?thesis
    by (simp add: batch_execute_def execute_one_def demo_access_fields demo_sent_checked demo_sent_fields on_net_def
        demo_read_orders index_existing_orders_def valid demo_batch_valid [OF assms] create_order_def sat_mul_def created_answer_def Let_def is_success_def opt_or_def)
qed

definition demo_kept_batch :: pending_plan where
  "demo_kept_batch = seed_plan ''b'' ''t'' [demo_sent_item]"

lemma demo_kept_items:
  "length (pp_items demo_kept_batch) = 1" "pi_status (pp_items demo_kept_batch ! 0) = STATUS_PENDING"
  "plan_item.truncate (pp_items demo_kept_batch ! 0) = demo_sent_item" "reviewed_items demo_kept_batch = [demo_sent_item]"
  "pp_plan_id demo_kept_batch = ''b''"
  by (simp_all add: demo_kept_batch_def seed_plan_def reviewed_items_def plan_item.defs)

lemma demo_run_batch:
  assumes "te_desk (wo_rest w) = demo_desk" and "wo_faults w = []" and "dk_unix (wo_disk w)"
  shows "\<exists>r tr. let p' = set_item 0 (take_result r) (set_item 0 mark_uncertain demo_kept_batch);
       bytes = unary_print (plan_json p')
     in ir_status r = STATUS_OK
     \<and> run_batch demo_access demo_io demo_unlocked account [demo_sent_item] demo_kept_batch w
       = (plan_results p', p', w\<lparr> wo_disk := \<lparr> dk_now = Some bytes, dk_crash = [Some bytes], dk_unix = True \<rparr>, wo_faults := [],
            wo_rest := (wo_rest w)\<lparr> te_rest := Suc (te_rest (wo_rest w)) \<rparr> \<rparr>, tr)"
proof -
  obtain r where r: "batch_execute demo_access demo_unlocked account [demo_sent_item] demo_sent_item (wo_rest w)
      = (r, (wo_rest w)\<lparr> te_rest := Suc (te_rest (wo_rest w)) \<rparr>)" and ok: "ir_status r = STATUS_OK"
    using demo_sent_once [OF assms(1)] by blast
  show ?thesis
    by (rule exI [of _ r])
      (simp add: run_batch_def run_pending_def run_from.simps(2) run_item_def on_rest_def on_net_def demo_access_fields
        demo_batch_valid assms demo_kept_items r ok persist_journal_def write_pending_atomic_def renamed_def dir_synced_def
        demo_io_def trace_first_def Let_def)
qed

lemma finish_plan_finished:
  assumes "is_finished p"
  shows "finish_plan demo_io (plan_results p) \<lparr> dk_now = Some (unary_print (plan_json p)), dk_crash = c, dk_unix = x \<rparr>
    = (\<lparr> dk_now = None, dk_crash = None # c, dk_unix = x \<rparr>, plan_results p)"
proof -
  have "plan_of_bytes unary_parse (unary_print (plan_json p)) = Some p" by (intro plan_of_bytes_json unary_parse_print)
  then show ?thesis
    by (simp add: finish_plan_def plan_results_def demo_io_def load_pending_def clear_finished_pending_def clear_pending_def assms)
qed

lemma demo_answered:
  assumes "ir_status r = STATUS_OK"
  shows "is_finished (set_item 0 (take_result r) (set_item 0 mark_uncertain demo_kept_batch))"
  using assms demo_kept_items(1) by (simp add: is_finished_def set_item_def demo_kept_batch_def seed_plan_def)

lemma demo_claim: "\<exists>q. claim_plan_request ''r'' no_requests = (Ok 0, q)"
  by (simp add: claim_plan_request_def request_token_def no_requests_def request_id_ok_def request_id_char_def rbind_def ok_or_def MAX_QUEUE_def)

lemma demo_resumes:
  assumes "te_desk (wo_rest (dp_world dp)) = demo_desk" and "wo_faults (dp_world dp) = []" and "dk_unix (wo_disk (dp_world dp))"
    and "dp_sess dp = dp_sess demo_desktop" and "dp_requests dp = no_requests"
  shows "\<exists>resp dp'. resume_rest demo_access demo_io ''r'' demo_kept_batch dp = (Ok resp, dp')
    \<and> map ir_status (pn_results resp) = [STATUS_OK] \<and> dk_now (wo_disk (dp_world dp')) = None
    \<and> te_rest (wo_rest (dp_world dp')) = Suc (te_rest (wo_rest (dp_world dp)))"
proof -
  obtain q where q: "claim_plan_request ''r'' no_requests = (Ok 0, q)" using demo_claim by blast
  obtain r tr where ok: "ir_status r = STATUS_OK" and run: "let p' = set_item 0 (take_result r) (set_item 0 mark_uncertain demo_kept_batch);
       bytes = unary_print (plan_json p')
     in run_batch demo_access demo_io demo_unlocked (Some demo_unlocked) [demo_sent_item] demo_kept_batch (dp_world dp)
       = (plan_results p', p', (dp_world dp)\<lparr> wo_disk := \<lparr> dk_now = Some bytes, dk_crash = [Some bytes], dk_unix = True \<rparr>, wo_faults := [],
            wo_rest := (wo_rest (dp_world dp))\<lparr> te_rest := Suc (te_rest (wo_rest (dp_world dp))) \<rparr> \<rparr>, tr)"
    using demo_run_batch [OF assms(1,2,3), of "Some demo_unlocked"] by (auto simp: Let_def)
  let ?p = "set_item 0 (take_result r) (set_item 0 mark_uncertain demo_kept_batch)"
  have "\<not> is_finished demo_kept_batch" by (simp add: is_finished_def demo_kept_batch_def seed_plan_def plan_item.defs)
  moreover have "map ir_status (pn_results (plan_results ?p)) = [STATUS_OK]"
    using ok by (simp add: plan_results_def result_of_item_def set_item_def demo_kept_batch_def seed_plan_def)
  moreover have "begin_change (dp_sess dp) = (Ok demo_unlocked, (dp_sess dp)\<lparr> ss_plan_running := True \<rparr>)"
    "ss_unlocked (dp_sess dp) = Some demo_unlocked"
    by (simp_all add: assms(4) demo_desktop_def begin_change_def begin_only_def begin_plan_def require_unlocked_def)
  ultimately show ?thesis
    using run finish_plan_finished [OF demo_answered [OF ok]]
    by (simp add: resume_rest_def with_request_def assms(5) q with_change_def resume_body_def demo_kept_items settle_def
        drop_scope_def record_batch_def Let_def)
qed

definition demo_saved_desktop :: "nat desktop" where
  "demo_saved_desktop = demo_desktop\<lparr> dp_world := (dp_world demo_desktop)\<lparr>
     wo_disk := \<lparr> dk_now = Some (unary_print (plan_json demo_kept_batch)), dk_crash = [], dk_unix = True \<rparr> \<rparr> \<rparr>"

lemma demo_batch_loads: "resume_load demo_io demo_saved_desktop = Ok demo_kept_batch"
proof -
  have "plan_of_bytes unary_parse (unary_print (plan_json demo_kept_batch)) = Some demo_kept_batch"
    by (intro plan_of_bytes_json unary_parse_print)
  then show ?thesis by (simp add: resume_load_def load_pending_def demo_io_def demo_saved_desktop_def)
qed

theorem cleared_batch_is_finished_witness:
  "\<exists>resp dp'. resume_pending_plan demo_access demo_io ''r'' demo_saved_desktop = (Ok resp, dp')
     \<and> dk_now (wo_disk (dp_world dp')) = None \<and> map ir_status (pn_results resp) = [STATUS_OK]
     \<and> (\<exists>w1 tr. (submission_ran demo_access demo_io ''b'' ''t'' [] demo_saved_desktop w1 tr
            \<or> resume_ran demo_access demo_io demo_saved_desktop w1 tr)
          \<and> (dk_now (wo_disk w1) = None \<and> starts_of tr = []
             \<or> (\<exists>saved. record_of demo_io w1 = Some saved
                  \<and> (\<forall>item\<in>set (pp_items saved). pi_status item = STATUS_OK \<or> pi_status item = STATUS_ERROR)
                  \<and> pn_results resp = map result_of_item (pp_items saved))))"
proof -
  obtain resp dp' where r: "resume_pending_plan demo_access demo_io ''r'' demo_saved_desktop = (Ok resp, dp')"
    and d: "dk_now (wo_disk (dp_world dp')) = None" and s: "map ir_status (pn_results resp) = [STATUS_OK]"
  proof -
    have "te_desk (wo_rest (dp_world demo_saved_desktop)) = demo_desk" "wo_faults (dp_world demo_saved_desktop) = []"
      "dk_unix (wo_disk (dp_world demo_saved_desktop))" "dp_sess demo_saved_desktop = dp_sess demo_desktop" "dp_requests demo_saved_desktop = no_requests"
      by (simp_all add: demo_saved_desktop_def demo_desktop_def demo_rest_def)
    from demo_resumes [OF this] show ?thesis
      using that by (auto simp: resume_pending_plan_def demo_batch_loads)
  qed
  have "jo_from_slice demo_io (jo_to_vec demo_io v) = Some v" for v by (simp add: demo_io_def unary_parse_print)
  note all = cleared_batch_is_finished [of demo_io, OF this disjI2 [OF r] d, of "''b''" "''t''" "[]"]
  show ?thesis by (rule exI [of _ resp], rule exI [of _ dp'], intro conjI) (rule r d s all)+
qed

lemma held_guard_refuses_changes_witness:
  "refused_unchanged (demo_desktop\<lparr> dp_sess := (dp_sess demo_desktop)\<lparr> ss_plan_running := True \<rparr> \<rparr>)
     (delete_order_command demo_access None ''o'' (demo_desktop\<lparr> dp_sess := (dp_sess demo_desktop)\<lparr> ss_plan_running := True \<rparr> \<rparr>))"
  using held_guard_refuses_changes [of "demo_desktop\<lparr> dp_sess := (dp_sess demo_desktop)\<lparr> ss_plan_running := True \<rparr> \<rparr>"]
  by simp

text \<open>
  Resuming reads the saved batch before it waits for the guard. A batch that is discarded in between is sent all the
  same: the read, then the discard, then the rest of the resume.
\<close>

lemma discarded_batch_is_sent:
  "\<exists>dp resp dp'. resume_load demo_io demo_saved_desktop = Ok demo_kept_batch
     \<and> discard_pending_plan demo_io demo_saved_desktop = (Ok (), dp) \<and> dk_now (wo_disk (dp_world dp)) = None
     \<and> te_rest (wo_rest (dp_world dp)) = 0
     \<and> resume_rest demo_access demo_io ''r'' demo_kept_batch dp = (Ok resp, dp') \<and> te_rest (wo_rest (dp_world dp')) = 1"
proof -
  obtain dp where dp: "discard_pending_plan demo_io demo_saved_desktop = (Ok (), dp)" "dk_now (wo_disk (dp_world dp)) = None"
      "te_rest (wo_rest (dp_world dp)) = 0" "te_desk (wo_rest (dp_world dp)) = demo_desk" "wo_faults (dp_world dp) = []"
      "dk_unix (wo_disk (dp_world dp))" "dp_sess dp = dp_sess demo_desktop" "dp_requests dp = no_requests"
    by (simp add: discard_pending_plan_def demo_saved_desktop_def demo_desktop_def demo_rest_def begin_plan_def clear_pending_def
        demo_io_def)
  from demo_resumes [OF dp(4-8)] dp(1-3) demo_batch_loads show ?thesis by auto
qed

end
