(* ===== verification/Notifications.thy ===== *)
theory Notifications
  imports Ordered_Map Text
begin

text \<open>
  The inbox of notifications (\<open>contracts/notification.rs\<close>, \<open>persistence/notifications.rs\<close>,
  \<open>services/notifications/mod.rs\<close>): the preferences, the two tables, the transaction that lets a key be announced
  again only after its cooldown, and the delivery of a candidate.
\<close>

section \<open>Saturating arithmetic of \<open>i64\<close>\<close>

definition sat_i64 :: "int \<Rightarrow> i64" where
  "sat_i64 x = max (- (2 ^ 63)) (min (2 ^ 63 - 1) x)"

section \<open>Categories and preferences\<close>

definition CATEGORIES :: "string list" where
  "CATEGORIES = [''trades'', ''watches'', ''baro'', ''calendar'', ''digest'', ''announcements'']"

definition IN_GAME_CATEGORIES :: "string list" where "IN_GAME_CATEGORIES = [''watches'']"

record category_preference =
  cp_enabled :: bool
  cp_native :: bool
  cp_in_game :: bool

record preferences =
  pf_popups :: bool
  pf_categories :: "(string, category_preference) btree"
  pf_copy_whisper :: bool

definition default_preferences :: preferences where
  "default_preferences = \<lparr> pf_popups = True,
     pf_categories = bt_of (map (\<lambda>k. (k, \<lparr> cp_enabled = True, cp_native = True, cp_in_game = False \<rparr>)) CATEGORIES),
     pf_copy_whisper = False \<rparr>"

definition categories_match_contract :: "(string, category_preference) btree \<Rightarrow> bool" where
  "categories_match_contract cs \<longleftrightarrow> length cs = length CATEGORIES \<and> list_all (\<lambda>k. map_of cs k \<noteq> None) CATEGORIES"

definition normalize_preferences :: "preferences \<Rightarrow> preferences" where
  "normalize_preferences stored =
     stored\<lparr> pf_categories := map (\<lambda>(key, fallback). (key, unwrap_or (map_of (pf_categories stored) key) fallback))
       (pf_categories default_preferences) \<rparr>"

section \<open>Candidates and tables\<close>

text \<open>The payload of a notification is kept as the JSON it is stored as.\<close>

record candidate =
  ca_key :: string
  ca_stage :: i64
  ca_expires_at :: i64
  ca_cooldown :: i64
  ca_category :: string
  ca_title :: ustr
  ca_body :: ustr
  ca_target :: string
  ca_content :: "string option"
  ca_whisper :: "ustr option"

definition candidate_once :: "string \<Rightarrow> string \<Rightarrow> ustr \<Rightarrow> ustr \<Rightarrow> string \<Rightarrow> i64 \<Rightarrow> candidate" where
  "candidate_once key category title body target now =
     \<lparr> ca_key = key, ca_stage = 1, ca_expires_at = i64_wrap (now + 31 * 86400), ca_cooldown = 0, ca_category = category,
       ca_title = title, ca_body = body, ca_target = target, ca_content = None, ca_whisper = None \<rparr>"

record notice_row =
  nf_id :: i64
  nf_category :: string
  nf_title :: ustr
  nf_body :: ustr
  nf_target :: string
  nf_created_at :: i64
  nf_read :: bool
  nf_delivery :: string
  nf_content :: "string option"

record checkpoint =
  ck_stage :: i64
  ck_at :: i64
  ck_expires_at :: i64

text \<open>\<open>notification\<close> is \<open>AUTOINCREMENT\<close>: \<open>nd_sequence\<close> is the last identity given. Rows stay in order of identity.\<close>

record notify_db =
  nd_rows :: "notice_row list"
  nd_sequence :: i64
  nd_checkpoints :: "string \<rightharpoonup> checkpoint"   \<comment> \<open>by its primary key\<close>
  nd_setting :: "string option"      \<comment> \<open>the setting \<open>notifications-v1\<close>\<close>

datatype nd_step = SettingRead | SettingWrite | CheckpointRead | CheckpointWrite | NoticeInsert | NoticeCommit
  | DeliveryUpdate | PruneRows | PruneCategories | PruneCheckpoints | NoticeList | NoticeRead | NoticeClear

type_synonym nd_faults = "nd_step \<Rightarrow> string option"

definition nd_run :: "nd_faults \<Rightarrow> nd_step \<Rightarrow> (string, unit) result" where
  "nd_run faults st = (case faults st of Some e \<Rightarrow> Err e | None \<Rightarrow> Ok ())"

section \<open>The operations of the database\<close>

definition notification_preferences ::
  "nd_faults \<Rightarrow> (string \<Rightarrow> (string, preferences) result) \<Rightarrow> notify_db \<Rightarrow> (string, preferences) result" where
  "notification_preferences faults parse db =
     rbind (nd_run faults SettingRead) (\<lambda>_.
     rbind (case nd_setting db of None \<Rightarrow> Ok default_preferences | Some s \<Rightarrow> parse s) (\<lambda>stored.
       Ok (normalize_preferences stored)))"

definition LIST_LIMIT :: nat where "LIST_LIMIT = 1000"

definition newest :: "notify_db \<Rightarrow> notice_row list" where
  "newest db = take LIST_LIMIT (rev (nd_rows db))"

definition list_notifications :: "nd_faults \<Rightarrow> notify_db \<Rightarrow> (string, notice_row list) result" where
  "list_notifications faults db = rbind (nd_run faults NoticeList) (\<lambda>_. Ok (newest db))"

definition mark_notifications_read :: "nd_faults \<Rightarrow> i64 option \<Rightarrow> notify_db \<Rightarrow> notify_db \<times> (string, unit) result" where
  "mark_notifications_read faults which db =
     (case nd_run faults NoticeRead of
        Err e \<Rightarrow> (db, Err e)
      | Ok _ \<Rightarrow> (db\<lparr> nd_rows := map (\<lambda>r. if is_none_or which (\<lambda>i. nf_id r = i) then r\<lparr> nf_read := True \<rparr> else r) (nd_rows db) \<rparr>,
                Ok ()))"

definition clear_notifications :: "nd_faults \<Rightarrow> notify_db \<Rightarrow> notify_db \<times> (string, unit) result" where
  "clear_notifications faults db =
     (case nd_run faults NoticeClear of Err e \<Rightarrow> (db, Err e) | Ok _ \<Rightarrow> (db\<lparr> nd_rows := [] \<rparr>, Ok ()))"

definition notification_delivery :: "nd_faults \<Rightarrow> i64 \<Rightarrow> string \<Rightarrow> notify_db \<Rightarrow> notify_db \<times> (string, unit) result" where
  "notification_delivery faults i how db =
     (case nd_run faults DeliveryUpdate of
        Err e \<Rightarrow> (db, Err e)
      | Ok _ \<Rightarrow> (db\<lparr> nd_rows := map (\<lambda>r. if nf_id r = i then r\<lparr> nf_delivery := how \<rparr> else r) (nd_rows db) \<rparr>, Ok ()))"

text \<open>Three statements, each of its own.\<close>

definition prune_notifications :: "nd_faults \<Rightarrow> i64 \<Rightarrow> notify_db \<Rightarrow> notify_db \<times> (string, unit) result" where
  "prune_notifications faults now db =
     (case nd_run faults PruneRows of
        Err e \<Rightarrow> (db, Err e)
      | Ok _ \<Rightarrow>
          let kept = map nf_id (newest db);
              db = db\<lparr> nd_rows := filter (\<lambda>r. \<not> (nf_created_at r < i64_wrap (now - 30 * 86400) \<or> nf_id r \<notin> set kept)) (nd_rows db) \<rparr>
          in case nd_run faults PruneCategories of
               Err e \<Rightarrow> (db, Err e)
             | Ok _ \<Rightarrow>
                 let db = db\<lparr> nd_rows := filter (\<lambda>r. nf_category r \<in> set CATEGORIES) (nd_rows db) \<rparr>
                 in case nd_run faults PruneCheckpoints of
                      Err e \<Rightarrow> (db, Err e)
                    | Ok _ \<Rightarrow> (db\<lparr> nd_checkpoints := (\<lambda>k. opt_filter (\<lambda>c. \<not> ck_expires_at c < now) (nd_checkpoints db k)) \<rparr>, Ok ()))"

definition held_back :: "candidate \<Rightarrow> i64 \<Rightarrow> checkpoint \<Rightarrow> bool" where
  "held_back n now c \<longleftrightarrow>
     (if 0 < ca_cooldown n then sat_i64 (now - ck_at c) < ca_cooldown n else ca_stage n \<le> ck_stage c)"

definition new_notice :: "candidate \<Rightarrow> i64 \<Rightarrow> bool \<Rightarrow> notify_db \<Rightarrow> notice_row" where
  "new_notice n now native db = \<lparr> nf_id = nd_sequence db + 1, nf_category = ca_category n, nf_title = ca_title n,
     nf_body = ca_body n, nf_target = ca_target n, nf_created_at = now, nf_read = False,
     nf_delivery = (if native then ''pending'' else ''inbox_only''), nf_content = ca_content n \<rparr>"

text \<open>One transaction: it changes everything or, when a step fails, nothing.\<close>

definition insert_notification ::
  "nd_faults \<Rightarrow> candidate \<Rightarrow> i64 \<Rightarrow> bool \<Rightarrow> bool \<Rightarrow> notify_db \<Rightarrow> notify_db \<times> (string, i64 option) result" where
  "insert_notification faults n now native enabled db =
     (case nd_run faults CheckpointRead of
        Err e \<Rightarrow> (db, Err e)
      | Ok _ \<Rightarrow>
          if is_some_and (nd_checkpoints db (ca_key n)) (held_back n now) then (db, Ok None)
          else let noted = db\<lparr> nd_checkpoints := (nd_checkpoints db)(ca_key n \<mapsto>
                 \<lparr> ck_stage = ca_stage n, ck_at = now, ck_expires_at = ca_expires_at n \<rparr>) \<rparr>;
                 done_db = (if enabled then noted\<lparr> nd_rows := nd_rows db @ [new_notice n now native db],
                              nd_sequence := nd_sequence db + 1 \<rparr> else noted)
            in case rbind (nd_run faults CheckpointWrite) (\<lambda>_.
                    rbind (if enabled then nd_run faults NoticeInsert else Ok ()) (\<lambda>_. nd_run faults NoticeCommit)) of
                 Err e \<Rightarrow> (db, Err e)
               | Ok _ \<Rightarrow> (done_db, Ok (if enabled then Some (nd_sequence db + 1) else None)))"

section \<open>Delivery\<close>

record in_game_request =
  ig_id :: i64
  ig_title :: ustr
  ig_detail :: ustr
  ig_whisper :: "ustr option"
  ig_copy_whisper :: bool

text \<open>What publishing meets: the overlay's sink if one is installed, the operating system's popup, the clock twice.\<close>

record delivery_env =
  de_faults :: nd_faults
  de_parse :: "string \<Rightarrow> (string, preferences) result"
  de_sink :: "in_game_request \<Rightarrow> bool"
  de_show :: bool
  de_now :: i64
  de_later :: i64

definition wants_in_game :: "preferences \<Rightarrow> string \<Rightarrow> bool" where
  "wants_in_game prefs category \<longleftrightarrow> pf_popups prefs \<and> category \<in> set IN_GAME_CATEGORIES
     \<and> is_some_and (map_of (pf_categories prefs) category) cp_in_game"

definition deliver_notice ::
  "delivery_env \<Rightarrow> preferences \<Rightarrow> bool \<Rightarrow> i64 \<Rightarrow> candidate \<Rightarrow> notify_db \<Rightarrow> notify_db \<times> (string, unit) result" where
  "deliver_notice env prefs native i c db =
     (let request = \<lparr> ig_id = i, ig_title = ca_title c, ig_detail = ca_body c, ig_whisper = ca_whisper c,
                      ig_copy_whisper = pf_copy_whisper prefs \<rparr>
      in if wants_in_game prefs (ca_category c) \<and> de_sink env request
         then notification_delivery (de_faults env) i ''in_game'' db
         else if native then notification_delivery (de_faults env) i (if de_show env then ''sent'' else ''failed'') db
         else (db, Ok ()))"

definition publish_notice :: "delivery_env \<Rightarrow> candidate \<Rightarrow> notify_db \<Rightarrow> notify_db \<times> (string, bool) result" where
  "publish_notice env c db =
     (case rbind (notification_preferences (de_faults env) (de_parse env) db) (\<lambda>prefs.
             rbind (ok_or (map_of (pf_categories prefs) (ca_category c)) ''Unknown notification category'') (\<lambda>pref. Ok (prefs, pref))) of
        Err e \<Rightarrow> (db, Err e)
      | Ok (prefs, pref) \<Rightarrow>
          let native = pf_popups prefs \<and> cp_native pref
          in case insert_notification (de_faults env) c (de_now env) native (cp_enabled pref) db of
               (db, Err e) \<Rightarrow> (db, Err e)
             | (db, Ok None) \<Rightarrow> (db, Ok False)
             | (db, Ok (Some i)) \<Rightarrow> (case deliver_notice env prefs native i c db of
                 (db, Err e) \<Rightarrow> (db, Err e)
               | (db, Ok _) \<Rightarrow> (case prune_notifications (de_faults env) (de_later env) db of
                   (db, Err e) \<Rightarrow> (db, Err e)
                 | (db, Ok _) \<Rightarrow> (db, Ok True))))"

text \<open>The commands of the inbox.\<close>

definition list_notifications_command ::
  "nd_faults \<Rightarrow> i64 \<Rightarrow> notify_db \<Rightarrow> notify_db \<times> (string, notice_row list) result" where
  "list_notifications_command faults now db =
     (case prune_notifications faults now db of
        (db, Err e) \<Rightarrow> (db, Err e) | (db, Ok _) \<Rightarrow> (db, list_notifications faults db))"

definition set_notification_preferences ::
  "nd_faults \<Rightarrow> (preferences \<Rightarrow> string) \<Rightarrow> preferences \<Rightarrow> notify_db \<Rightarrow> notify_db \<times> (string, preferences) result" where
  "set_notification_preferences faults print prefs db =
     (if \<not> categories_match_contract (pf_categories prefs) then (db, Err ''Notification categories are incomplete'')
      else case nd_run faults SettingWrite of
        Err e \<Rightarrow> (db, Err e) | Ok _ \<Rightarrow> (db\<lparr> nd_setting := Some (print prefs) \<rparr>, Ok prefs))"

end
