(* ===== verification/Live_Top.thy ===== *)
theory Live_Top
  imports Inventory_Paths Orders
begin

text \<open>
  The live top of an item's order book (\<open>wfm-trading/src/market/live_top.rs\<close>) and the stream of new orders
  (\<open>wfm-trading/src/presence/ws.rs\<close>): reading their JSON, without the user's own orders. Prices are finite \<open>f64\<close>s, kept
  as the rationals they are; the one operation that rounds, the division of a lot's total by its size, is the
  parameter \<open>fdiv\<close>. The requests and the socket are outside.
\<close>


type_synonym f64_division = "rat \<Rightarrow> rat \<Rightarrow> rat"

section \<open>Orders of the book\<close>

text \<open>\<open>unit_price\<close> of \<open>wfm-client\<close>.\<close>

definition lot_unit_price :: "f64_division \<Rightarrow> rat \<Rightarrow> json option \<Rightarrow> rat option" where
  "lot_unit_price fdiv platinum per_trade =
     Option.bind (if is_none_or per_trade is_null then Some 1 else Option.bind per_trade as_u64) (\<lambda>lot.
       if 0 < platinum \<and> 1 \<le> unat lot \<and> unat lot \<le> 6 then Some (fdiv platinum (of_nat (unat lot))) else None)"

definition quoted_price :: "f64_division \<Rightarrow> json \<Rightarrow> rat option" where
  "quoted_price fdiv order =
     Option.bind (Option.bind (jget order ''platinum'') as_f64) (\<lambda>p. lot_unit_price fdiv p (jget order ''perTrade''))"

definition ignoring_case :: "string \<Rightarrow> string \<Rightarrow> bool" where
  "ignoring_case a b \<longleftrightarrow> lower_ascii (map of_char a) = lower_ascii (map of_char b)"

definition is_own_order :: "json \<Rightarrow> string option \<Rightarrow> bool" where
  "is_own_order order me =
     is_some_and (opt_filter (\<lambda>m. m \<noteq> '''') me) (\<lambda>me.
       let by = (\<lambda>k. Option.bind (Option.bind (jget order ''user'') (\<lambda>u. jget u k)) as_str)
       in is_some_and (by ''ingameName'') (\<lambda>n. ignoring_case n me) \<or> is_some_and (by ''slug'') (\<lambda>n. ignoring_case n me))"

record live_query =
  lq_slug :: string
  lq_rank :: "u32 option"
  lq_subtype :: "string option"

record buyer_order =
  bo_id :: string
  bo_user_id :: string
  bo_name :: string
  bo_user_slug :: string
  bo_status :: string
  bo_platform :: string
  bo_crossplay :: bool
  bo_quantity :: u32
  bo_per_trade :: u32
  bo_platinum :: u32

record buyer_book =
  bb_orders :: "buyer_order list"
  bb_own_orders_excluded :: bool
  bb_observed_at :: "string option"

record live_top =
  lv_slug :: string
  lv_rank :: "u32 option"
  lv_subtype :: "string option"
  lv_sells :: "rat list"
  lv_buys :: "rat list"
  lv_low_sell :: "rat option"
  lv_top_buy :: "rat option"
  lv_own_ask :: "rat option"
  lv_own_bid :: "rat option"
  lv_low_sell_by :: "string option"
  lv_top_buy_by :: "string option"
  lv_error :: "string option"
  lv_buyer_book :: "buyer_book option"

definition failed_top :: "live_query \<Rightarrow> string \<Rightarrow> live_top" where
  "failed_top q e = \<lparr> lv_slug = lq_slug q, lv_rank = lq_rank q, lv_subtype = lq_subtype q, lv_sells = [], lv_buys = [],
     lv_low_sell = None, lv_top_buy = None, lv_own_ask = None, lv_own_bid = None, lv_low_sell_by = None,
     lv_top_buy_by = None, lv_error = Some e, lv_buyer_book = None \<rparr>"

section \<open>The buyers\<close>

definition short_text :: "json \<Rightarrow> string \<Rightarrow> string option" where
  "short_text v key = opt_filter (\<lambda>s. s \<noteq> '''' \<and> length s \<le> 100) (Option.bind (jget v key) as_str)"

definition positive_u32 :: "json \<Rightarrow> string \<Rightarrow> u32 option" where
  "positive_u32 row key = opt_filter (\<lambda>n. 0 < n) (Option.bind (Option.bind (jget row key) as_u64) u32_of_u64)"

definition present :: "json option \<Rightarrow> json option" where
  "present = opt_filter (\<lambda>v. \<not> is_null v)"

text \<open>The row is of the tier asked for: its rank, its subtype, and nothing else that makes a tier.\<close>

definition tier_of_query :: "live_query \<Rightarrow> json \<Rightarrow> bool" where
  "tier_of_query q row \<longleftrightarrow>
     (case present (jget row ''rank'') of None \<Rightarrow> Some 0 | Some v \<Rightarrow> as_u64 v) = Some (ucast (unwrap_or (lq_rank q) 0))
     \<and> Option.bind (present (jget row ''subtype'')) as_str = opt_filter (\<lambda>s. s \<noteq> '''') (lq_subtype q)
     \<and> is_none_or (present (jget row ''subtype'')) (\<lambda>v. as_str v \<noteq> None)
     \<and> list_all (\<lambda>k. present (jget row k) = None) [''charges'', ''amberStars'', ''cyanStars'']"

definition buyer_lot :: "json \<Rightarrow> u32 option" where
  "buyer_lot row = (case present (jget row ''perTrade'') of Some _ \<Rightarrow> positive_u32 row ''perTrade'' | None \<Rightarrow> Some 1)"

definition buyer_order_of :: "live_query \<Rightarrow> string option \<Rightarrow> json \<Rightarrow> buyer_order option" where
  "buyer_order_of q me row = do {
     user \<leftarrow> jget row ''user'';
     if is_own_order row me \<or> Option.bind (jget row ''visible'') as_bool \<noteq> Some True
        \<or> Option.bind (jget row ''type'') as_str \<noteq> Some ''buy'' \<or> \<not> tier_of_query q row then None
     else do {
       status \<leftarrow> short_text user ''status'';
       if status \<notin> {''online'', ''ingame''} then None
       else do {
         quantity \<leftarrow> positive_u32 row ''quantity'';
         per_trade \<leftarrow> buyer_lot row;
         if MAX_PER_TRADE < per_trade \<or> quantity mod per_trade \<noteq> 0 then None
         else do {
           i \<leftarrow> short_text row ''id'';
           user_id \<leftarrow> short_text user ''id'';
           name \<leftarrow> short_text user ''ingameName'';
           slug \<leftarrow> short_text user ''slug'';
           platform \<leftarrow> short_text user ''platform'';
           crossplay \<leftarrow> Option.bind (jget user ''crossplay'') as_bool;
           platinum \<leftarrow> positive_u32 row ''platinum'';
           Some \<lparr> bo_id = i, bo_user_id = user_id, bo_name = name, bo_user_slug = slug, bo_status = status,
             bo_platform = platform, bo_crossplay = crossplay, bo_quantity = quantity, bo_per_trade = per_trade,
             bo_platinum = platinum \<rparr> } } } }"

text \<open>The first order of each user.\<close>

fun first_of_users :: "string set \<Rightarrow> buyer_order list \<Rightarrow> buyer_order list" where
  "first_of_users seen [] = []"
| "first_of_users seen (o' # os) =
     (if bo_user_id o' \<in> seen then first_of_users seen os else o' # first_of_users (insert (bo_user_id o') seen) os)"

definition bid_ratio :: "f64_division \<Rightarrow> buyer_order \<Rightarrow> rat" where
  "bid_ratio fdiv b = fdiv (of_nat (unat (bo_platinum b))) (of_nat (unat (bo_per_trade b)))"

definition buyer_orders :: "f64_division \<Rightarrow> live_query \<Rightarrow> json \<Rightarrow> string option \<Rightarrow> buyer_book option" where
  "buyer_orders fdiv q data me = do {
     rows \<leftarrow> Option.bind (jget data ''buy'') as_array;
     let orders = first_of_users {} (List.map_filter (buyer_order_of q me) rows);
     Some \<lparr> bb_orders = take 5 (sort_key (\<lambda>b. (- bid_ratio fdiv b, bo_id b)) orders),
       bb_own_orders_excluded = is_some_and me (\<lambda>s. s \<noteq> ''''), bb_observed_at = None \<rparr> }"

section \<open>The top of the book\<close>

text \<open>The URL of the tier: \<open>rank\<close> and \<open>subtype\<close> as parameters.\<close>

definition top_params :: "live_query \<Rightarrow> string list" where
  "top_params q = (case lq_rank q of None \<Rightarrow> [] | Some r \<Rightarrow> [''rank='' @ show_word r])
     @ (case opt_filter (\<lambda>s. s \<noteq> '''') (lq_subtype q) of None \<Rightarrow> [] | Some s \<Rightarrow> [''subtype='' @ s])"

definition top_url :: "live_query \<Rightarrow> string" where
  "top_url q = ''https://api.warframe.market/v2/orders/item/'' @ lq_slug q @ ''/top''
     @ (case top_params q of [] \<Rightarrow> '''' | [a] \<Rightarrow> ''?'' @ a | a # b # _ \<Rightarrow> ''?'' @ a @ ''&'' @ b)"

record side_acc =
  sa_others :: "rat list"
  sa_mine :: "rat option"
  sa_best :: "(rat \<times> string option) option"

definition better_price :: "bool \<Rightarrow> rat \<Rightarrow> rat \<Rightarrow> bool" where
  "better_price sell p held = (if sell then p < held else held < p)"

definition holder_of :: "json \<Rightarrow> string option" where
  "holder_of order = Option.bind (Option.bind (jget order ''user'') (\<lambda>u. jget u ''ingameName'')) as_str"

definition side_step :: "f64_division \<Rightarrow> bool \<Rightarrow> string option \<Rightarrow> json \<Rightarrow> side_acc \<Rightarrow> side_acc" where
  "side_step fdiv sell me order acc =
     (case quoted_price fdiv order of
        None \<Rightarrow> acc
      | Some p \<Rightarrow>
          if is_own_order order me
          then acc\<lparr> sa_mine := Some (case sa_mine acc of None \<Rightarrow> p | Some m \<Rightarrow> if sell then min m p else max m p) \<rparr>
          else acc\<lparr> sa_best := (if is_none_or (sa_best acc) (\<lambda>(held, _). better_price sell p held)
                                 then Some (p, holder_of order) else sa_best acc),
                    sa_others := sa_others acc @ [p] \<rparr>)"

definition book_side :: "f64_division \<Rightarrow> json \<Rightarrow> string option \<Rightarrow> string \<Rightarrow> side_acc" where
  "book_side fdiv data me name =
     fold (side_step fdiv (name = ''sell'') me) (unwrap_or (Option.bind (jget data name) as_array) [])
       \<lparr> sa_others = [], sa_mine = None, sa_best = None \<rparr>"

text \<open>\<open>unwrap_envelope\<close> of \<open>wfm-client\<close>.\<close>

definition unwrap_envelope :: "json \<Rightarrow> json" where
  "unwrap_envelope body = (case jget body ''data'' of Some d \<Rightarrow> d | None \<Rightarrow> unwrap_or (jget body ''payload'') body)"

definition parse_top :: "f64_division \<Rightarrow> live_query \<Rightarrow> json \<Rightarrow> string option \<Rightarrow> (string, live_top) result" where
  "parse_top fdiv q body me =
     (let data = unwrap_envelope body in
      if jget data ''sell'' = None \<and> jget data ''buy'' = None
      then Err (''unexpected /top shape for '' @ lq_slug q @ '': no sell/buy arrays'')
      else let asks = book_side fdiv data me ''sell''; bids = book_side fdiv data me ''buy'';
               sells = sort (sa_others asks); buys = rev (sort (sa_others bids))
        in Ok \<lparr> lv_slug = lq_slug q, lv_rank = lq_rank q, lv_subtype = lq_subtype q, lv_sells = sells, lv_buys = buys,
             lv_low_sell = first_of sells, lv_top_buy = first_of buys, lv_own_ask = sa_mine asks, lv_own_bid = sa_mine bids,
             lv_low_sell_by = Option.bind (sa_best asks) snd, lv_top_buy_by = Option.bind (sa_best bids) snd,
             lv_error = None, lv_buyer_book = buyer_orders fdiv q data me \<rparr>)"

definition stamp_observed :: "string \<Rightarrow> string \<Rightarrow> live_top \<Rightarrow> live_top" where
  "stamp_observed platform observed_at book =
     book\<lparr> lv_buyer_book := map_option (\<lambda>b'. b'\<lparr>
       bb_orders := filter (\<lambda>b. bo_platform b = platform \<or> bo_crossplay b) (bb_orders b'),
       bb_observed_at := Some observed_at \<rparr>) (lv_buyer_book book) \<rparr>"

text \<open>\<open>observe\<close>: what the governed read of a URL answers, with the instant it was observed.\<close>

definition fetch_one :: "f64_division \<Rightarrow> string \<Rightarrow> string option \<Rightarrow> (string \<Rightarrow> (string, json \<times> string) result) \<Rightarrow> live_query
    \<Rightarrow> (string, live_top) result" where
  "fetch_one fdiv platform me observe q =
     rbind (observe (top_url q)) (\<lambda>(body, observed_at).
     rbind (parse_top fdiv q body me) (\<lambda>t. Ok (stamp_observed platform observed_at t)))"

definition fetch_live_tops :: "f64_division \<Rightarrow> string \<Rightarrow> string option \<Rightarrow> (string \<Rightarrow> (string, json \<times> string) result)
    \<Rightarrow> live_query list \<Rightarrow> (string, live_top list) result" where
  "fetch_live_tops fdiv platform me observe queries =
     (if 100 < length queries then Err ''At most 100 live-price queries are allowed.''
      else Ok (map (\<lambda>q. case fetch_one fdiv platform me observe q of Ok t \<Rightarrow> t | Err e \<Rightarrow> failed_top q e) queries))"

section \<open>The stream of new orders\<close>

record streamed_order =
  nw_id :: string
  nw_side :: string
  nw_platinum :: rat
  nw_quantity :: u32
  nw_rank :: "u32 option"
  nw_subtype :: "string option"
  nw_item_id :: string
  nw_user_name :: "string option"
  nw_user_status :: "string option"
  nw_visible :: bool

datatype ws_event = StreamOrder streamed_order | SubscribeOk | OnlineCount u64 | OtherFrame

definition parse_new_order :: "f64_division \<Rightarrow> json \<Rightarrow> streamed_order option" where
  "parse_new_order fdiv p =
     (let s = (\<lambda>k. Option.bind (jget p k) as_str); user = (\<lambda>k. Option.bind (Option.bind (jget p ''user'') (\<lambda>u. jget u k)) as_str)
      in do {
       i \<leftarrow> s ''id'';
       side \<leftarrow> s ''type'';
       item_id \<leftarrow> s ''itemId'';
       platinum \<leftarrow> quoted_price fdiv p;
       Some \<lparr> nw_id = i, nw_side = side, nw_platinum = platinum,
         nw_quantity = ucast (unwrap_or (Option.bind (jget p ''quantity'') as_u64) 1),
         nw_rank = map_option ucast (Option.bind (jget p ''rank'') as_u64), nw_subtype = s ''subtype'',
         nw_item_id = item_id, nw_user_name = user ''ingameName'', nw_user_status = user ''status'',
         nw_visible = unwrap_or (Option.bind (jget p ''visible'') as_bool) True \<rparr> })"

definition parse_ws_event :: "f64_division \<Rightarrow> (string \<Rightarrow> json option) \<Rightarrow> string \<Rightarrow> ws_event" where
  "parse_ws_event fdiv from_str frame =
     (case from_str frame of
        None \<Rightarrow> OtherFrame
      | Some v \<Rightarrow>
          let route = unwrap_or (Option.bind (jget v ''route'') as_str) ''''
          in if route = ''@wfm|event/subscriptions/newOrder''
             then (case Option.bind (jget v ''payload'') (parse_new_order fdiv) of Some o' \<Rightarrow> StreamOrder o' | None \<Rightarrow> OtherFrame)
             else if route = ''@wfm|cmd/subscribe/newOrders:ok'' then SubscribeOk
             else if route = ''@wfm|event/reports/online''
             then OnlineCount (unwrap_or (Option.bind (Option.bind (jget v ''payload'') (\<lambda>p. jget p ''connections'')) as_u64) 0)
             else OtherFrame)"

end
