(* ===== verification/Watches.thy ===== *)
theory Watches
  imports Notifications Live_Top Command_Error
begin

text \<open>
  Price watches (\<open>persistence/watches.rs\<close>, \<open>commands/watches.rs\<close>, \<open>services/watches/\<close>): the table of watches, the
  polling pass over the live top of the book, the fast path over the stream of new orders, and the offer a fired
  watch hands the player. Both paths announce through \<open>Notifications\<close>.
\<close>

section \<open>The table\<close>

record price_watch =
  wt_id :: i64
  wt_slug :: string
  wt_name :: ustr
  wt_subtype :: "string option"
  wt_rank :: "i64 option"
  wt_side :: string
  wt_threshold :: i64
  wt_created_at :: string
  wt_last_price :: "i64 option"
  wt_last_checked_at :: "i64 option"
  wt_last_fired_at :: "i64 option"

record new_watch =
  nh_slug :: string
  nh_name :: ustr
  nh_subtype :: "string option"
  nh_rank :: "i64 option"
  nh_side :: string
  nh_threshold :: i64

definition MAX_WATCHES :: nat where "MAX_WATCHES = 30"

definition watch_order :: "price_watch list \<Rightarrow> price_watch list" where
  "watch_order ws = rev (sort_key (\<lambda>w. (wt_created_at w, wt_id w)) ws)"

text \<open>An \<open>INTEGER PRIMARY KEY\<close> without \<open>AUTOINCREMENT\<close>: one more than the largest in use.\<close>

definition next_rowid :: "price_watch list \<Rightarrow> i64" where
  "next_rowid ws = (if ws = [] then 1 else Max (set (map wt_id ws)) + 1)"

definition add_watch :: "string option \<Rightarrow> string \<Rightarrow> new_watch \<Rightarrow> price_watch list \<Rightarrow> price_watch list \<times> (string, i64) result" where
  "add_watch fault now_iso h ws =
     (case fault of
        Some e \<Rightarrow> (ws, Err e)
      | None \<Rightarrow> if nh_side h \<noteq> ''sell'' \<and> nh_side h \<noteq> ''buy'' then (ws, Err ''CHECK constraint failed: watch'')
          else (ws @ [\<lparr> wt_id = next_rowid ws, wt_slug = nh_slug h, wt_name = nh_name h, wt_subtype = nh_subtype h,
                  wt_rank = nh_rank h, wt_side = nh_side h, wt_threshold = nh_threshold h, wt_created_at = now_iso,
                  wt_last_price = None, wt_last_checked_at = None, wt_last_fired_at = None \<rparr>], Ok (next_rowid ws)))"

definition delete_watch :: "i64 \<Rightarrow> price_watch list \<Rightarrow> price_watch list" where
  "delete_watch i ws = filter (\<lambda>w. wt_id w \<noteq> i) ws"

definition record_watch_check :: "i64 \<Rightarrow> i64 option \<Rightarrow> i64 \<Rightarrow> i64 option \<Rightarrow> price_watch list \<Rightarrow> price_watch list" where
  "record_watch_check i last_price checked_at fired_at ws =
     map (\<lambda>w. if wt_id w = i then w\<lparr> wt_last_price := last_price, wt_last_checked_at := Some checked_at,
             wt_last_fired_at := (if fired_at = None then wt_last_fired_at w else fired_at) \<rparr> else w) ws"

text \<open>The faults of the database that the commands meet: on the first list, the write, the second list.\<close>

definition listed :: "string option \<Rightarrow> price_watch list \<Rightarrow> (cmd_error, price_watch list) result" where
  "listed fault ws = (case fault of Some e \<Rightarrow> Err (internal_error (''list watches: '' @ e)) | None \<Rightarrow> Ok (watch_order ws))"

definition quoted :: "string \<Rightarrow> string" where
  "quoted s = CHR 0x27 # s @ [CHR 0x27]"

definition add_watch_command ::
  "string option \<times> string option \<times> string option \<Rightarrow> string \<Rightarrow> new_watch \<Rightarrow> price_watch list
   \<Rightarrow> price_watch list \<times> (cmd_error, price_watch list) result" where
  "add_watch_command faults now_iso h ws =
     (if nh_side h \<noteq> ''sell'' \<and> nh_side h \<noteq> ''buy'' then (ws, Err (CmdError ''bad_request'' (''side must be '' @ quoted ''sell'' @ '' or '' @ quoted ''buy'')))
      else if nh_threshold h < 1 then (ws, Err (CmdError ''bad_request'' ''threshold must be at least 1p''))
      else if trim (chars_of (nh_slug h)) = [] \<or> trim (nh_name h) = []
      then (ws, Err (CmdError ''bad_request'' ''slug and name are required''))
      else case listed (fst faults) ws of
        Err e \<Rightarrow> (ws, Err e)
      | Ok existing \<Rightarrow>
          if MAX_WATCHES \<le> length existing
          then (ws, Err (CmdError ''too_many'' (''at most '' @ show_nat MAX_WATCHES @ '' watches - delete one first'')))
          else case add_watch (fst (snd faults)) now_iso h ws of
            (ws, Err e) \<Rightarrow> (ws, Err (internal_error (''add watch: '' @ e)))
          | (ws, Ok _) \<Rightarrow> (ws, listed (snd (snd faults)) ws))"

definition delete_watch_command ::
  "string option \<times> string option \<Rightarrow> i64 \<Rightarrow> price_watch list \<Rightarrow> price_watch list \<times> (cmd_error, price_watch list) result" where
  "delete_watch_command faults i ws =
     (case fst faults of
        Some e \<Rightarrow> (ws, Err (internal_error (''delete watch: '' @ e)))
      | None \<Rightarrow> (delete_watch i ws, listed (snd faults) (delete_watch i ws)))"

section \<open>Judging a watch\<close>

definition REARM_AFTER_SECS :: i64 where "REARM_AFTER_SECS = 6 * 60 * 60"

record watch_outcome =
  wo_id :: i64
  wo_slug :: string
  wo_name :: ustr
  wo_side :: string
  wo_threshold :: i64
  wo_price :: "i64 option"
  wo_satisfied :: bool
  wo_fire :: bool

definition price_for_watch :: "string \<Rightarrow> rat \<Rightarrow> i64 option" where
  "price_for_watch side price =
     (if price \<le> 0 then None
      else if side = ''sell'' then Some (sat_i64 \<lceil>price\<rceil>)
      else if side = ''buy'' then Some (sat_i64 \<lfloor>price\<rfloor>) else None)"

definition is_rearmed :: "i64 option \<Rightarrow> i64 \<Rightarrow> bool" where
  "is_rearmed last_fired_at now = (case last_fired_at of Some t \<Rightarrow> REARM_AFTER_SECS \<le> i64_wrap (now - t) | None \<Rightarrow> True)"

definition top_price :: "string \<Rightarrow> live_top \<Rightarrow> rat option" where
  "top_price side t = (if side = ''sell'' then lv_low_sell t else if side = ''buy'' then lv_top_buy t else None)"

definition meets :: "string \<Rightarrow> i64 \<Rightarrow> i64 \<Rightarrow> bool" where
  "meets side threshold p \<longleftrightarrow> side = ''sell'' \<and> p \<le> threshold \<or> side = ''buy'' \<and> threshold \<le> p"

definition evaluate :: "price_watch \<Rightarrow> live_top option \<Rightarrow> i64 \<Rightarrow> watch_outcome" where
  "evaluate w seen now =
     (let price = Option.bind (Option.bind (opt_filter (\<lambda>t. lv_error t = None) seen) (top_price (wt_side w))) (price_for_watch (wt_side w));
          satisfied = is_some_and price (meets (wt_side w) (wt_threshold w))
      in \<lparr> wo_id = wt_id w, wo_slug = wt_slug w, wo_name = wt_name w, wo_side = wt_side w, wo_threshold = wt_threshold w,
           wo_price = price, wo_satisfied = satisfied, wo_fire = (satisfied \<and> is_rearmed (wt_last_fired_at w) now) \<rparr>)"

text \<open>The characters U+2264 (at most) and U+2265 (at least).\<close>

definition describe :: "watch_outcome \<Rightarrow> ustr" where
  "describe o' =
     (case wo_price o' of
        Some p \<Rightarrow>
          if wo_side o' = ''sell''
          then wo_name o' @ tx '' is listed at '' @ show_i64 p @ tx ''p (you wanted '' @ [8804] @ tx '' '' @ show_i64 (wo_threshold o') @ tx ''p)''
          else if wo_side o' = ''buy''
          then tx ''Someone bids '' @ show_i64 p @ tx ''p for '' @ wo_name o' @ tx '' (you wanted '' @ [8805] @ tx '' ''
            @ show_i64 (wo_threshold o') @ tx ''p)''
          else wo_name o' @ tx '': no live data''
      | None \<Rightarrow> wo_name o' @ tx '': no live data'')"

section \<open>Offers\<close>

definition OFFER_FRESH_SECS :: i64 where "OFFER_FRESH_SECS = 15 * 60"

record watch_offer =
  of_watch_id :: i64
  of_slug :: string
  of_name :: ustr
  of_side :: string
  of_threshold :: i64
  of_price :: i64
  of_rank :: "i64 option"
  of_subtype :: "string option"
  of_player :: string
  of_whisper :: ustr
  of_seen_at :: i64
  of_rechecked_at :: "i64 option"
  of_still_listed :: "bool option"

definition name_char :: "char \<Rightarrow> bool" where
  "name_char ch \<longleftrightarrow> (let n = of_char ch :: nat in
     48 \<le> n \<and> n \<le> 57 \<or> 65 \<le> n \<and> n \<le> 90 \<or> 97 \<le> n \<and> n \<le> 122 \<or> n = 45 \<or> n = 95 \<or> n = 46)"

definition is_whisperable :: "string \<Rightarrow> bool" where
  "is_whisperable player \<longleftrightarrow> 1 \<le> length player \<and> length player \<le> 32 \<and> list_all name_char player"

text \<open>\<open>upper\<close>: \<open>char::to_uppercase\<close>.\<close>

definition item_label :: "(int \<Rightarrow> ustr) \<Rightarrow> ustr \<Rightarrow> i64 option \<Rightarrow> string option \<Rightarrow> ustr" where
  "item_label upper item rank subtype =
     (let item = filter (\<lambda>c. \<not> is_control c \<and> c \<noteq> 34) item;
          label = (case opt_filter (\<lambda>s. s \<noteq> '''') subtype of
                     Some s \<Rightarrow> (case chars_of s of [] \<Rightarrow> [] | c # cs \<Rightarrow> upper c @ cs) @ tx '' '' @ item
                   | None \<Rightarrow> item)
      in case rank of Some r \<Rightarrow> label @ tx '' (rank '' @ show_i64 r @ tx '')'' | None \<Rightarrow> label)"

definition whisper_verb :: "string \<Rightarrow> string option" where
  "whisper_verb side = (if side = ''sell'' then Some ''buy'' else if side = ''buy'' then Some ''sell'' else None)"

definition whisper ::
  "(int \<Rightarrow> ustr) \<Rightarrow> string \<Rightarrow> string \<Rightarrow> ustr \<Rightarrow> i64 option \<Rightarrow> string option \<Rightarrow> i64 \<Rightarrow> ustr option" where
  "whisper upper side player item rank subtype price =
     (if \<not> is_whisperable player \<or> price \<le> 0 then None
      else map_option (\<lambda>verb. tx ''/w '' @ chars_of player @ tx '' Hi! I want to '' @ tx verb @ tx '': '' @ [34]
             @ item_label upper item rank subtype @ [34] @ tx '' for '' @ show_i64 price
             @ tx '' platinum. (warframe.market) - TennoWorth'') (whisper_verb side))"

definition offer_for :: "(int \<Rightarrow> ustr) \<Rightarrow> price_watch \<Rightarrow> i64 \<Rightarrow> string \<Rightarrow> i64 \<Rightarrow> watch_offer option" where
  "offer_for upper w price player seen_at =
     map_option (\<lambda>text. \<lparr> of_watch_id = wt_id w, of_slug = wt_slug w, of_name = wt_name w, of_side = wt_side w,
         of_threshold = wt_threshold w, of_price = price, of_rank = wt_rank w, of_subtype = wt_subtype w,
         of_player = player, of_whisper = text, of_seen_at = seen_at, of_rechecked_at = None, of_still_listed = None \<rparr>)
       (whisper upper (wt_side w) player (wt_name w) (wt_rank w) (wt_subtype w) price)"

definition fresh_offer :: "watch_offer option \<Rightarrow> i64 \<Rightarrow> watch_offer option" where
  "fresh_offer offer now = opt_filter (\<lambda>o'. sat_i64 (now - of_seen_at o') < OFFER_FRESH_SECS) offer"

definition rechecked :: "(int \<Rightarrow> ustr) \<Rightarrow> watch_offer \<Rightarrow> (i64 \<times> string option) option \<Rightarrow> i64 \<Rightarrow> watch_offer" where
  "rechecked upper offer best now =
     (let offer = offer\<lparr> of_rechecked_at := Some now \<rparr>;
          still = Option.bind best (\<lambda>(price, player). if meets (of_side offer) (of_threshold offer) price
                    then map_option (Pair price) player else None)
      in case Option.bind still (\<lambda>(price, player). map_option (\<lambda>w. (price, player, w))
                (whisper upper (of_side offer) player (of_name offer) (of_rank offer) (of_subtype offer) price)) of
           Some (price, player, w) \<Rightarrow> offer\<lparr> of_price := price, of_player := player, of_whisper := w, of_still_listed := Some True \<rparr>
         | None \<Rightarrow> offer\<lparr> of_still_listed := Some False \<rparr>)"

section \<open>Announcing\<close>

record watch_desk =
  wd_watches :: "price_watch list"
  wd_notes :: notify_db
  wd_offer :: "watch_offer option"

text \<open>What a pass or an order meets: the delivery of each notification, the fault of each write of a check.\<close>

record announce_env =
  ae_delivery :: delivery_env
  ae_upper :: "int \<Rightarrow> ustr"
  ae_fault :: "string option"

definition watch_key :: "i64 \<Rightarrow> string" where
  "watch_key i = ''watch:'' @ (if i < 0 then ''-'' @ show_nat (nat (- i)) else show_nat (nat i))"

definition watch_candidate :: "watch_outcome \<Rightarrow> watch_offer option \<Rightarrow> i64 \<Rightarrow> candidate" where
  "watch_candidate outcome offer now =
     (candidate_once (watch_key (wo_id outcome)) ''watches'' (tx ''TennoWorth price watch'') (describe outcome) ''watches'' now)
       \<lparr> ca_cooldown := REARM_AFTER_SECS, ca_whisper := map_option of_whisper offer \<rparr>"

definition notify_watch ::
  "announce_env \<Rightarrow> watch_outcome \<Rightarrow> watch_offer option \<Rightarrow> i64 \<Rightarrow> watch_desk \<Rightarrow> bool \<times> watch_desk" where
  "notify_watch env outcome offer now d =
     (case publish_notice (ae_delivery env) (watch_candidate outcome offer now) (wd_notes d) of
        (notes, Err e) \<Rightarrow> (False, d\<lparr> wd_notes := notes \<rparr>)
      | (notes, Ok fired) \<Rightarrow>
          (fired, d\<lparr> wd_notes := notes, wd_offer := (if fired \<and> offer \<noteq> None then offer else wd_offer d) \<rparr>))"

definition record_check :: "announce_env \<Rightarrow> i64 \<Rightarrow> i64 option \<Rightarrow> i64 \<Rightarrow> bool \<Rightarrow> watch_desk \<Rightarrow> watch_desk" where
  "record_check env i price now fired d =
     (if ae_fault env \<noteq> None then d
      else d\<lparr> wd_watches := record_watch_check i price now (if fired then Some now else None) (wd_watches d) \<rparr>)"

section \<open>The polling pass\<close>

definition tier_rank :: "price_watch \<Rightarrow> u32 option" where
  "tier_rank w = map_option (\<lambda>r. word_of_int (max r 0)) (wt_rank w)"

definition watch_query :: "price_watch \<Rightarrow> live_query" where
  "watch_query w = \<lparr> lq_slug = wt_slug w, lq_rank = tier_rank w, lq_subtype = wt_subtype w \<rparr>"

definition watch_queries :: "price_watch list \<Rightarrow> live_query list" where
  "watch_queries ws = fold (\<lambda>w qs. if watch_query w \<in> set qs then qs else qs @ [watch_query w]) ws []"

definition top_for :: "live_top list \<Rightarrow> price_watch \<Rightarrow> live_top option" where
  "top_for tops w = find (\<lambda>t. lv_slug t = wt_slug w \<and> lv_rank t = tier_rank w
     \<and> unwrap_or (lv_subtype t) '''' = unwrap_or (wt_subtype w) '''') tops"

definition top_holder :: "string \<Rightarrow> live_top \<Rightarrow> string option" where
  "top_holder side t = (if side = ''sell'' then lv_low_sell_by t else lv_top_buy_by t)"

definition check_watch ::
  "(nat \<Rightarrow> announce_env) \<Rightarrow> live_top list \<Rightarrow> i64 \<Rightarrow> nat \<times> price_watch \<Rightarrow> watch_outcome list \<times> watch_desk
   \<Rightarrow> watch_outcome list \<times> watch_desk" where
  "check_watch env tops now = (\<lambda>(n, w) (out, d).
     let seen = top_for tops w; o' = evaluate w seen now;
         (fire, d) = (if wo_fire o'
            then let holder = Option.bind seen (top_holder (wt_side w));
                     offer = Option.bind (wo_price o') (\<lambda>price. Option.bind holder (\<lambda>player. offer_for (ae_upper (env n)) w price player now))
                 in notify_watch (env n) o' offer now d
            else (False, d))
     in (out @ [o'\<lparr> wo_fire := fire \<rparr>], record_check (env n) (wt_id w) (wo_price o') now fire d))"

text \<open>
  \<open>account\<close>: the platform and name of the unlocked session. \<open>fetch\<close>: the live tops. Another pass under way, a
  failed list and a failed fetch make an empty pass.
\<close>

definition watch_pass ::
  "bool \<Rightarrow> string option \<Rightarrow> (string \<times> string) option
   \<Rightarrow> (string \<Rightarrow> string option \<Rightarrow> live_query list \<Rightarrow> (string, live_top list) result)
   \<Rightarrow> (nat \<Rightarrow> announce_env) \<Rightarrow> i64 \<Rightarrow> watch_desk \<Rightarrow> watch_outcome list \<times> watch_desk" where
  "watch_pass busy list_fault account fetch env now d =
     (if busy \<or> list_fault \<noteq> None \<or> wd_watches d = [] then ([], d)
      else let ws = take MAX_WATCHES (watch_order (wd_watches d));
               platform = (case account of Some (p, _) \<Rightarrow> p | None \<Rightarrow> ''pc'')
        in case fetch platform (map_option snd account) (watch_queries ws) of
             Err e \<Rightarrow> ([], d)
           | Ok tops \<Rightarrow> fold (check_watch env tops now) (enumerate 0 ws) ([], d))"

text \<open>How long to wait after a pass (instants in milliseconds).\<close>

definition CHECK_INTERVAL_MS :: nat where "CHECK_INTERVAL_MS = 10 * 60 * 1000"
definition STREAM_CHECK_INTERVAL_MS :: nat where "STREAM_CHECK_INTERVAL_MS = 60 * 60 * 1000"

definition pass_delay :: "nat option \<Rightarrow> nat \<Rightarrow> bool \<Rightarrow> nat \<Rightarrow> nat" where
  "pass_delay stream_live_since finished unchecked policy =
     max (if is_some_and stream_live_since (\<lambda>since. since \<le> finished) \<and> \<not> unchecked
          then STREAM_CHECK_INTERVAL_MS else CHECK_INTERVAL_MS) policy"

section \<open>The stream\<close>

text \<open>\<open>threshold as f64\<close>.\<close>

definition f64_of_i64 :: "i64 \<Rightarrow> rat" where
  "f64_of_i64 i = (if i < 0 then - f64_of_nat (nat (- i)) else f64_of_nat (nat i))"

definition order_matches_watch :: "streamed_order \<Rightarrow> string \<Rightarrow> i64 \<Rightarrow> u32 option \<Rightarrow> string option \<Rightarrow> bool" where
  "order_matches_watch o' side threshold rank subtype \<longleftrightarrow>
     nw_visible o' \<and> nw_side o' = side \<and> 0 < nw_platinum o' \<and> unwrap_or (nw_rank o') 0 = unwrap_or rank 0
     \<and> unwrap_or (nw_subtype o') '''' = unwrap_or subtype ''''
     \<and> (side = ''buy'' \<and> f64_of_i64 threshold \<le> nw_platinum o' \<or> side = ''sell'' \<and> nw_platinum o' \<le> f64_of_i64 threshold)"

definition watch_matches :: "streamed_order \<Rightarrow> string \<Rightarrow> i64 \<Rightarrow> price_watch \<Rightarrow> bool" where
  "watch_matches o' slug now w \<longleftrightarrow> wt_slug w = slug
     \<and> order_matches_watch o' (wt_side w) (wt_threshold w) (tier_rank w) (wt_subtype w) \<and> is_rearmed (wt_last_fired_at w) now"

definition match_order :: "streamed_order \<Rightarrow> string \<Rightarrow> price_watch list \<Rightarrow> string option \<Rightarrow> i64 \<Rightarrow> price_watch option" where
  "match_order o' slug watches me now =
     (if is_some_and me (\<lambda>me. is_some_and (nw_user_name o') (\<lambda>by. ignoring_case by me)) then None
      else find (watch_matches o' slug now) watches)"

definition streamed_outcome :: "streamed_order \<Rightarrow> price_watch \<Rightarrow> watch_outcome" where
  "streamed_outcome o' w = \<lparr> wo_id = wt_id w, wo_slug = wt_slug w, wo_name = wt_name w, wo_side = wt_side w,
     wo_threshold = wt_threshold w, wo_price = price_for_watch (wt_side w) (nw_platinum o'), wo_satisfied = True, wo_fire = True \<rparr>"

text \<open>\<open>cached\<close>: the thread's copy of the watches, at most a minute old; \<open>slug\<close>: the item's, if the catalogue has it.\<close>

definition on_order ::
  "announce_env \<Rightarrow> string option \<Rightarrow> string option \<Rightarrow> price_watch list \<Rightarrow> i64 \<Rightarrow> streamed_order \<Rightarrow> watch_desk \<Rightarrow> watch_desk" where
  "on_order env slug me cached now o' d =
     (case Option.bind slug (\<lambda>slug. match_order o' slug cached me now) of
        None \<Rightarrow> d
      | Some w \<Rightarrow>
          let outcome = streamed_outcome o' w;
              offer = Option.bind (wo_price outcome) (\<lambda>price. Option.bind (nw_user_name o') (\<lambda>player.
                        offer_for (ae_upper env) w price player now));
              (fire, d) = notify_watch env outcome offer now d
          in record_check env (wt_id w) (wo_price outcome) now fire d)"

section \<open>The offer's commands\<close>

definition latest_watch_offer :: "i64 \<Rightarrow> watch_desk \<Rightarrow> watch_offer option" where
  "latest_watch_offer now d = fresh_offer (wd_offer d) now"

definition dismiss_watch_offer :: "watch_desk \<Rightarrow> watch_desk" where
  "dismiss_watch_offer d = d\<lparr> wd_offer := None \<rparr>"

definition copy_watch_whisper :: "bool \<Rightarrow> i64 \<Rightarrow> watch_desk \<Rightarrow> (string, ustr) result" where
  "copy_watch_whisper copied now d =
     rbind (ok_or (fresh_offer (wd_offer d) now) ''This offer has expired.'') (\<lambda>offer.
       if copied then Ok (of_whisper offer) else Err ''Could not copy the whisper. Copy it from the text instead.'')"

definition offer_query :: "watch_offer \<Rightarrow> live_query" where
  "offer_query o' = \<lparr> lq_slug = of_slug o', lq_rank = map_option (\<lambda>r. word_of_int (max r 0)) (of_rank o'), lq_subtype = of_subtype o' \<rparr>"

definition best_of :: "string \<Rightarrow> live_top \<Rightarrow> (i64 \<times> string option) option" where
  "best_of side t =
     Option.bind (if side = ''sell'' then lv_low_sell t else lv_top_buy t) (\<lambda>p.
       map_option (\<lambda>q. (q, top_holder side t)) (price_for_watch side p))"

text \<open>\<open>meanwhile\<close>: the offer there is once the request is answered.\<close>

definition recheck_watch_offer ::
  "(int \<Rightarrow> ustr) \<Rightarrow> (live_query \<Rightarrow> (string, live_top list) result) \<Rightarrow> i64 \<Rightarrow> i64 \<Rightarrow> (watch_offer option \<Rightarrow> watch_offer option)
   \<Rightarrow> watch_desk \<Rightarrow> (string, watch_offer option) result \<times> watch_desk" where
  "recheck_watch_offer upper fetch now later meanwhile d =
     (case fresh_offer (wd_offer d) now of
        None \<Rightarrow> (Ok None, d)
      | Some offer \<Rightarrow>
          if of_rechecked_at offer \<noteq> None then (Ok (Some offer), d)
          else let failed = ''Could not recheck warframe.market right now.'';
                   d' = d\<lparr> wd_offer := meanwhile (wd_offer d) \<rparr>
            in case Option.bind (case fetch (offer_query offer) of Ok ts \<Rightarrow> first_of ts | Err _ \<Rightarrow> None)
                      (\<lambda>t. if lv_error t = None then Some t else None) of
                 None \<Rightarrow> (Err failed, d')
               | Some t \<Rightarrow>
                   let updated = rechecked upper offer (best_of (of_side offer) t) later
                   in (Ok (Some updated),
                       if is_some_and (wd_offer d') (\<lambda>current. of_watch_id current = of_watch_id updated)
                       then d'\<lparr> wd_offer := Some updated \<rparr> else d'))"

end
