(* ===== verification/Watch_Facts.thy ===== *)
theory Watch_Facts
  imports Watches
begin

text \<open>
  Price watches announce a watch at most once in six hours, whichever of polling and streaming sees it; both paths judge
  a price the same way; a whisper is one message to one player; the live top leaves out the user's own orders.
\<close>

section \<open>What a publication does to the checkpoints\<close>

definition pruned :: "i64 \<Rightarrow> (string \<rightharpoonup> checkpoint) \<Rightarrow> (string \<rightharpoonup> checkpoint)" where
  "pruned now ck = (\<lambda>k. opt_filter (\<lambda>c. \<not> ck_expires_at c < now) (ck k))"

definition noted_at :: "candidate \<Rightarrow> i64 \<Rightarrow> checkpoint" where
  "noted_at c now = \<lparr> ck_stage = ca_stage c, ck_at = now, ck_expires_at = ca_expires_at c \<rparr>"

lemma prune_checkpoints:
  "prune_notifications faults now db = (db', r) \<Longrightarrow>
     nd_sequence db' = nd_sequence db \<and> nd_checkpoints db' \<in> {nd_checkpoints db, pruned now (nd_checkpoints db)}"
  by (auto simp: prune_notifications_def pruned_def Let_def split: sum.splits)

lemma delivery_checkpoints:
  "deliver_notice env prefs native i c db = (db', r) \<Longrightarrow>
     nd_sequence db' = nd_sequence db \<and> nd_checkpoints db' = nd_checkpoints db"
  by (auto simp: deliver_notice_def notification_delivery_def Let_def split: sum.splits if_splits)

lemma insert_checkpoints:
  assumes "insert_notification faults c now native enabled db = (db', r)"
  obtains (same) "nd_sequence db' = nd_sequence db" "nd_checkpoints db' = nd_checkpoints db" "r = Ok None \<or> (\<exists>e. r = Err e)"
  | (noted) "\<not> is_some_and (nd_checkpoints db (ca_key c)) (held_back c now)"
      "nd_checkpoints db' = (nd_checkpoints db)(ca_key c \<mapsto> noted_at c now)"
      "r = Ok None \<and> nd_sequence db' = nd_sequence db \<or> (\<exists>i. r = Ok (Some i))"
proof -
  let ?held = "is_some_and (nd_checkpoints db (ca_key c)) (held_back c now)"
  let ?steps = "rbind (nd_run faults CheckpointWrite) (\<lambda>_.
    rbind (if enabled then nd_run faults NoticeInsert else Ok ()) (\<lambda>_. nd_run faults NoticeCommit))"
  note shape = assms [unfolded insert_notification_def Let_def]
  show ?thesis
  proof (cases "nd_run faults CheckpointRead")
    case (Inl e)
    then show ?thesis using shape by (intro same) auto
  next
    case (Inr u)
    show ?thesis
    proof (cases ?held)
      case True
      then show ?thesis using shape Inr by (intro same) auto
    next
      case False
      note shape = shape [unfolded Inr sum.case if_not_P [OF False]]
      show ?thesis
      proof (cases ?steps)
        case (Inl e)
        then show ?thesis using shape by (intro same) auto
      next
        case (Inr u)
        then show ?thesis using shape False by (intro noted) (auto simp: noted_at_def split: if_splits)
      qed
    qed
  qed
qed

lemma publish_checkpoints:
  assumes "publish_notice env c db = (db', r)"
  obtains (same) "nd_sequence db' = nd_sequence db" "nd_checkpoints db' = nd_checkpoints db"
  | (noted) "\<not> is_some_and (nd_checkpoints db (ca_key c)) (held_back c (de_now env))"
      "nd_checkpoints db' \<in> {(nd_checkpoints db)(ca_key c \<mapsto> noted_at c (de_now env)),
         pruned (de_later env) ((nd_checkpoints db)(ca_key c \<mapsto> noted_at c (de_now env)))}"
proof (cases "rbind (notification_preferences (de_faults env) (de_parse env) db) (\<lambda>prefs.
    rbind (ok_or (map_of (pf_categories prefs) (ca_category c)) ''Unknown notification category'') (\<lambda>pref. Ok (prefs, pref)))")
  case (Inl e)
  then show ?thesis using assms same by (simp add: publish_notice_def)
next
  case (Inr pp)
  obtain prefs pref where pp: "pp = (prefs, pref)" by (cases pp)
  let ?native = "pf_popups prefs \<and> cp_native pref"
  obtain db1 r1 where ins: "insert_notification (de_faults env) c (de_now env) ?native (cp_enabled pref) db = (db1, r1)"
    by (cases "insert_notification (de_faults env) c (de_now env) ?native (cp_enabled pref) db")
  note shape = assms [unfolded publish_notice_def Inr pp sum.case prod.case Let_def ins]
  show ?thesis
  proof (cases "\<exists>i. r1 = Ok (Some i)")
    case False
    then have "db' = db1" using shape by (cases r1) (auto split: option.splits)
    with ins show ?thesis by (elim insert_checkpoints) (use same noted in auto)
  next
    case True
    then obtain i where i: "r1 = Ok (Some i)" by blast
    obtain db2 r2 where del: "deliver_notice env prefs ?native i c db1 = (db2, r2)"
      by (cases "deliver_notice env prefs ?native i c db1")
    obtain db3 r3 where pr: "prune_notifications (de_faults env) (de_later env) db2 = (db3, r3)"
      by (cases "prune_notifications (de_faults env) (de_later env) db2")
    have "nd_checkpoints db' \<in> {nd_checkpoints db1, pruned (de_later env) (nd_checkpoints db1)}"
      using shape i del pr delivery_checkpoints [OF del] prune_checkpoints [OF pr]
      by (cases r2; cases r3) auto
    moreover from ins have "\<not> is_some_and (nd_checkpoints db (ca_key c)) (held_back c (de_now env))
        \<and> nd_checkpoints db1 = (nd_checkpoints db)(ca_key c \<mapsto> noted_at c (de_now env))"
      by (cases rule: insert_checkpoints) (use i in auto)
    ultimately show ?thesis by (intro noted) auto
  qed
qed

section \<open>Runs of the inbox\<close>

datatype note_op =
    AnnounceWatch delivery_env watch_outcome "watch_offer option" i64
  | Announce delivery_env candidate
  | Tidy nd_faults i64
  | ShowInbox nd_faults i64
  | ReadNotices nd_faults "i64 option"
  | ClearNotices nd_faults
  | Prefer nd_faults "preferences \<Rightarrow> string" preferences

text \<open>The database after an operation. An announcement that gives a new identity is an alert of its key, at its time.\<close>

fun note_db :: "note_op \<Rightarrow> notify_db \<Rightarrow> notify_db" where
  "note_db (AnnounceWatch env o' offer now) db = fst (publish_notice env (watch_candidate o' offer now) db)"
| "note_db (Announce env c) db = fst (publish_notice env c db)"
| "note_db (Tidy faults now) db = fst (prune_notifications faults now db)"
| "note_db (ShowInbox faults now) db = fst (list_notifications_command faults now db)"
| "note_db (ReadNotices faults which) db = fst (mark_notifications_read faults which db)"
| "note_db (ClearNotices faults) db = fst (clear_notifications faults db)"
| "note_db (Prefer faults print prefs) db = fst (set_notification_preferences faults print prefs db)"

fun op_announces :: "note_op \<Rightarrow> (string \<times> i64) list" where
  "op_announces (AnnounceWatch env o' offer now) = [(watch_key (wo_id o'), de_now env)]"
| "op_announces (Announce env c) = [(ca_key c, de_now env)]"
| "op_announces _ = []"

definition op_alerts :: "note_op \<Rightarrow> notify_db \<Rightarrow> (string \<times> i64) list" where
  "op_alerts op db = (if nd_sequence (note_db op db) = nd_sequence db then [] else op_announces op)"

fun note_run :: "note_op list \<Rightarrow> notify_db \<Rightarrow> notify_db \<times> (string \<times> i64) list" where
  "note_run [] db = (db, [])"
| "note_run (op # ops) db = (let (db', alerts) = note_run ops (note_db op db) in (db', op_alerts op db @ alerts))"

fun op_times :: "note_op \<Rightarrow> i64 list" where
  "op_times (AnnounceWatch env _ _ _) = [de_now env, de_later env]"
| "op_times (Announce env _) = [de_now env, de_later env]"
| "op_times (Tidy _ now) = [now]"
| "op_times (ShowInbox _ now) = [now]"
| "op_times _ = []"

definition alert_times :: "string \<Rightarrow> (string \<times> i64) list \<Rightarrow> i64 list" where
  "alert_times key alerts = map snd (filter (\<lambda>a. fst a = key) alerts)"

text \<open>
  Times are sensible, a watch is announced within a day of being judged, and no other notification uses the key of a
  watch.
\<close>

definition sensible :: "i64 \<Rightarrow> bool" where "sensible t \<longleftrightarrow> 0 \<le> t \<and> t < 2 ^ 60"

fun proper_op :: "string \<Rightarrow> note_op \<Rightarrow> bool" where
  "proper_op key (AnnounceWatch env _ _ now) \<longleftrightarrow> sensible now \<and> now \<le> de_now env \<and> de_now env \<le> now + 86400"
| "proper_op key (Announce env c) \<longleftrightarrow> ca_key c \<noteq> key"
| "proper_op key _ \<longleftrightarrow> True"

section \<open>One alert in six hours\<close>

definition guarded :: "string \<Rightarrow> (string \<rightharpoonup> checkpoint) \<Rightarrow> i64 set \<Rightarrow> i64 \<Rightarrow> bool" where
  "guarded key ck ts clock \<longleftrightarrow>
     (case ck key of
        Some c \<Rightarrow> ck_at c \<le> clock \<and> (\<forall>t\<in>ts. t \<le> ck_at c) \<and> ck_at c + REARM_AFTER_SECS \<le> ck_expires_at c
      | None \<Rightarrow> \<forall>t\<in>ts. t + REARM_AFTER_SECS \<le> clock)"

lemma rearm_positive: "0 < REARM_AFTER_SECS"
  by (simp add: REARM_AFTER_SECS_def)

lemma guarded_later: "guarded key ck ts clock \<Longrightarrow> clock \<le> n \<Longrightarrow> guarded key ck ts n"
  by (auto simp: guarded_def split: option.splits)

lemma guarded_pruned: "guarded key ck ts clock \<Longrightarrow> clock \<le> n \<Longrightarrow> guarded key (pruned n ck) ts n"
  by (fastforce simp: guarded_def pruned_def opt_filter_def split: option.splits)

lemma guarded_other: "key' \<noteq> key \<Longrightarrow> guarded key (ck(key' \<mapsto> c)) ts clock = guarded key ck ts clock"
  by (simp add: guarded_def)

lemma not_held_back:
  assumes "ca_cooldown c = REARM_AFTER_SECS" and "\<not> held_back c now k"
  shows "ck_at k + REARM_AFTER_SECS \<le> now"
  using assms by (auto simp: held_back_def sat_i64_def REARM_AFTER_SECS_def max_def min_def split: if_splits)

lemma guarded_announce:
  assumes "guarded key ck ts clock" and "clock \<le> n" and "ca_cooldown c = REARM_AFTER_SECS"
    and "\<not> is_some_and (ck key) (held_back c n)" and "n + REARM_AFTER_SECS \<le> ca_expires_at c"
  shows "\<forall>t\<in>ts. t + REARM_AFTER_SECS \<le> n" and "guarded key (ck(key \<mapsto> noted_at c n)) (insert n ts) n"
proof -
  show spaced: "\<forall>t\<in>ts. t + REARM_AFTER_SECS \<le> n"
  proof (cases "ck key")
    case None
    then show ?thesis using assms(1,2) by (auto simp: guarded_def)
  next
    case (Some k)
    then have "ck_at k + REARM_AFTER_SECS \<le> n" using assms(3,4) not_held_back by simp
    then show ?thesis using assms(1) Some by (auto simp: guarded_def)
  qed
  have "\<forall>t\<in>ts. t \<le> n" proof
    fix t assume "t \<in> ts"
    then have "t + REARM_AFTER_SECS \<le> n" using spaced by blast
    then show "t \<le> n" using rearm_positive by linarith
  qed
  then show "guarded key (ck(key \<mapsto> noted_at c n)) (insert n ts) n"
    using assms(5) by (simp add: guarded_def noted_at_def)
qed

lemma watch_candidate_fields:
  "ca_key (watch_candidate o' offer now) = watch_key (wo_id o')"
  "ca_cooldown (watch_candidate o' offer now) = REARM_AFTER_SECS"
  "ca_expires_at (watch_candidate o' offer now) = i64_wrap (now + 31 * 86400)"
  by (simp_all add: watch_candidate_def candidate_once_def)

lemma watch_candidate_lasts:
  assumes "sensible now" and "n \<le> now + 86400"
  shows "n + REARM_AFTER_SECS \<le> ca_expires_at (watch_candidate o' offer now)"
proof -
  have "i64_range (now + 31 * 86400)" using assms(1) by (simp add: sensible_def i64_range_def)
  then show ?thesis using assms(2) by (simp add: watch_candidate_fields REARM_AFTER_SECS_def)
qed

text \<open>An announcement: at most one alert, of its key, at its time, only if the last one is six hours old.\<close>

lemma publish_guarded:
  assumes "guarded key (nd_checkpoints db) ts clock" and "publish_notice env c db = (db', r)"
    and "clock \<le> de_now env" and "de_now env \<le> de_later env"
    and "ca_key c = key \<longrightarrow> ca_cooldown c = REARM_AFTER_SECS \<and> de_now env + REARM_AFTER_SECS \<le> ca_expires_at c"
  defines "new \<equiv> if nd_sequence db' \<noteq> nd_sequence db \<and> ca_key c = key then {de_now env} else {}"
  shows "guarded key (nd_checkpoints db') (ts \<union> new) (de_later env)" and "new \<noteq> {} \<Longrightarrow> \<forall>t\<in>ts. t + REARM_AFTER_SECS \<le> de_now env"
proof -
  have "guarded key (nd_checkpoints db') (ts \<union> new) (de_later env) \<and> (new \<noteq> {} \<longrightarrow> (\<forall>t\<in>ts. t + REARM_AFTER_SECS \<le> de_now env))"
    using assms(2)
  proof (cases rule: publish_checkpoints)
    case same
    then show ?thesis using guarded_later [OF assms(1), of "de_later env"] assms(3,4) by (simp add: new_def)
  next
    case noted
    let ?ck = "(nd_checkpoints db)(ca_key c \<mapsto> noted_at c (de_now env))"
    have here: "guarded key ?ck (ts \<union> new) (de_now env) \<and> (new \<noteq> {} \<longrightarrow> (\<forall>t\<in>ts. t + REARM_AFTER_SECS \<le> de_now env))"
    proof (cases "ca_key c = key")
      case True
      note g = guarded_announce [OF assms(1,3), of c]
      have "guarded key ?ck (insert (de_now env) ts) (de_now env)" and s: "\<forall>t\<in>ts. t + REARM_AFTER_SECS \<le> de_now env"
        using g noted(1) assms(5) True by auto
      then have "guarded key ?ck (ts \<union> new) (de_now env)" by (auto simp: guarded_def new_def True)
      with s show ?thesis by blast
    next
      case False
      then show ?thesis using guarded_later [OF assms(1,3)] by (simp add: new_def guarded_other)
    qed
    have "nd_checkpoints db' = ?ck \<or> nd_checkpoints db' = pruned (de_later env) ?ck" using noted(2) by simp
    moreover have "guarded key ?ck (ts \<union> new) (de_later env)" using guarded_later [OF conjunct1 [OF here] assms(4)] .
    moreover have "guarded key (pruned (de_later env) ?ck) (ts \<union> new) (de_later env)"
      using guarded_pruned [OF conjunct1 [OF here] assms(4)] .
    ultimately show ?thesis using conjunct2 [OF here] by (elim disjE) (simp_all only: simp_thms)
  qed
  then show "guarded key (nd_checkpoints db') (ts \<union> new) (de_later env)" and "new \<noteq> {} \<Longrightarrow> \<forall>t\<in>ts. t + REARM_AFTER_SECS \<le> de_now env"
    by blast+
qed

text \<open>What one operation may do: it keeps the invariant, gives one alert at most, and that one in time.\<close>

definition op_safe :: "string \<Rightarrow> i64 set \<Rightarrow> i64 \<Rightarrow> notify_db \<Rightarrow> i64 list \<Rightarrow> bool" where
  "op_safe key ts clock db new \<longleftrightarrow> guarded key (nd_checkpoints db) (ts \<union> set new) clock \<and> length new \<le> 1
     \<and> (\<forall>a\<in>set new. \<forall>t\<in>ts. t + REARM_AFTER_SECS \<le> a)"

lemma publish_safe:
  assumes "guarded key (nd_checkpoints db) ts clock" and "clock \<le> de_now env" and "de_now env \<le> de_later env"
    and "ca_key c = key \<longrightarrow> ca_cooldown c = REARM_AFTER_SECS \<and> de_now env + REARM_AFTER_SECS \<le> ca_expires_at c"
  shows "op_safe key ts (de_later env) (fst (publish_notice env c db))
     (alert_times key (if nd_sequence (fst (publish_notice env c db)) = nd_sequence db then [] else [(ca_key c, de_now env)]))"
proof -
  obtain db' r where p: "publish_notice env c db = (db', r)" by (cases "publish_notice env c db")
  show ?thesis
  proof (cases "nd_sequence db' \<noteq> nd_sequence db \<and> ca_key c = key")
    case True
    with publish_guarded [OF assms(1) p assms(2-4)] p show ?thesis by (simp add: op_safe_def alert_times_def)
  next
    case False
    then have "alert_times key (if nd_sequence db' = nd_sequence db then [] else [(ca_key c, de_now env)]) = []"
      by (auto simp: alert_times_def)
    then show ?thesis using publish_guarded(1) [OF assms(1) p assms(2-4)] False p by (simp add: op_safe_def)
  qed
qed

lemma tidy_safe:
  assumes "guarded key (nd_checkpoints db) ts clock" and "clock \<le> now"
    and "nd_checkpoints db' \<in> {nd_checkpoints db, pruned now (nd_checkpoints db)}"
  shows "op_safe key ts now db' []"
  using assms guarded_later [OF assms(1,2)] guarded_pruned [OF assms(1,2)] by (auto simp: op_safe_def)

lemma note_op_safe:
  assumes g: "guarded key (nd_checkpoints db) ts clock" and t: "sorted_wrt (\<le>) (clock # op_times op)" and p: "proper_op key op"
  shows "op_safe key ts (last (clock # op_times op)) (note_db op db) (alert_times key (op_alerts op db))"
proof (cases op)
  case (AnnounceWatch env o' offer now)
  have "ca_key (watch_candidate o' offer now) = key \<longrightarrow> ca_cooldown (watch_candidate o' offer now) = REARM_AFTER_SECS
      \<and> de_now env + REARM_AFTER_SECS \<le> ca_expires_at (watch_candidate o' offer now)"
    using p watch_candidate_lasts [of now "de_now env"] by (simp add: AnnounceWatch watch_candidate_fields)
  note safe = publish_safe [OF g _ _ this]
  show ?thesis using safe [unfolded watch_candidate_fields] t by (simp add: AnnounceWatch op_alerts_def split: if_splits)
next
  case (Announce env c)
  have "ca_key c = key \<longrightarrow> ca_cooldown c = REARM_AFTER_SECS \<and> de_now env + REARM_AFTER_SECS \<le> ca_expires_at c"
    using p by (simp add: Announce)
  from publish_safe [OF g _ _ this] t show ?thesis by (simp add: Announce op_alerts_def split: if_splits)
next
  case (Tidy faults now)
  obtain db' r where d: "prune_notifications faults now db = (db', r)" by (cases "prune_notifications faults now db")
  show ?thesis using tidy_safe [OF g, of now db'] prune_checkpoints [OF d] t d
    by (simp add: Tidy op_alerts_def alert_times_def)
next
  case (ShowInbox faults now)
  obtain db' r where d: "prune_notifications faults now db = (db', r)" by (cases "prune_notifications faults now db")
  have "fst (list_notifications_command faults now db) = db'" by (simp add: list_notifications_command_def d split: sum.split)
  then show ?thesis using tidy_safe [OF g, of now db'] prune_checkpoints [OF d] t
    by (simp add: ShowInbox op_alerts_def alert_times_def)
next
  case (ReadNotices faults which)
  then show ?thesis using g
    by (auto simp: op_alerts_def op_safe_def alert_times_def mark_notifications_read_def split: sum.split)
next
  case (ClearNotices faults)
  then show ?thesis using g
    by (auto simp: op_alerts_def op_safe_def alert_times_def clear_notifications_def split: sum.split)
next
  case (Prefer faults print prefs)
  then show ?thesis using g
    by (auto simp: op_alerts_def op_safe_def alert_times_def set_notification_preferences_def split: sum.split)
qed

lemma alert_times_append: "alert_times key (a @ b) = alert_times key a @ alert_times key b"
  by (simp add: alert_times_def)

lemma run_guarded:
  assumes "guarded key (nd_checkpoints db) ts clock" and "sorted_wrt (\<le>) (clock # concat (map op_times ops))"
    and "list_all (proper_op key) ops"
  shows "sorted_wrt (\<lambda>a b. a + REARM_AFTER_SECS \<le> b) (alert_times key (snd (note_run ops db)))
     \<and> (\<forall>a\<in>set (alert_times key (snd (note_run ops db))). \<forall>t\<in>ts. t + REARM_AFTER_SECS \<le> a)"
  using assms
proof (induction ops arbitrary: db ts clock)
  case Nil
  then show ?case by (simp add: alert_times_def)
next
  case (Cons op ops)
  let ?db = "note_db op db"
  let ?new = "alert_times key (op_alerts op db)"
  let ?rest = "alert_times key (snd (note_run ops ?db))"
  let ?clock = "last (clock # op_times op)"
  have t: "sorted_wrt (\<le>) ((clock # op_times op) @ concat (map op_times ops))" using Cons.prems(2) by simp
  have here: "sorted_wrt (\<le>) (clock # op_times op)" using t unfolding sorted_wrt_append by blast
  have "?clock \<in> set (clock # op_times op)" by (rule last_in_set) simp
  then have "sorted_wrt (\<le>) (?clock # concat (map op_times ops))" using t unfolding sorted_wrt_append by auto
  moreover have safe: "op_safe key ts ?clock ?db ?new"
    using note_op_safe [OF Cons.prems(1) here] Cons.prems(3) by simp
  ultimately have ih: "sorted_wrt (\<lambda>a b. a + REARM_AFTER_SECS \<le> b) ?rest"
      and far: "\<forall>a\<in>set ?rest. \<forall>t\<in>ts \<union> set ?new. t + REARM_AFTER_SECS \<le> a"
    using Cons.IH [of ?db "ts \<union> set ?new" ?clock] Cons.prems(3) by (simp_all add: op_safe_def)
  have "sorted_wrt (\<lambda>a b. a + REARM_AFTER_SECS \<le> b) ?new"
    using safe by (cases ?new) (auto simp: op_safe_def)
  then have "sorted_wrt (\<lambda>a b. a + REARM_AFTER_SECS \<le> b) (?new @ ?rest)"
    using ih far by (simp add: sorted_wrt_append)
  then show ?case using safe far by (auto simp: op_safe_def alert_times_append split: prod.split)
qed

text \<open>Both paths announce by one of these operations, and a watch that fired was announced.\<close>

lemma watches_announce_by_note_op:
  "wd_notes (snd (notify_watch env o' offer now d)) = note_db (AnnounceWatch (ae_delivery env) o' offer now) (wd_notes d)"
  by (auto simp: notify_watch_def split: prod.split sum.split)

lemma insert_advances:
  assumes "insert_notification faults c now native enabled db = (db', Ok (Some i))"
  shows "nd_sequence db' = nd_sequence db + 1"
  using assms by (auto simp: insert_notification_def Let_def split: sum.splits if_splits)

lemma fired_is_announced:
  assumes "fst (notify_watch env o' offer now d)"
  shows "op_alerts (AnnounceWatch (ae_delivery env) o' offer now) (wd_notes d)
    = [(watch_key (wo_id o'), de_now (ae_delivery env))]"
proof -
  let ?env = "ae_delivery env" and ?c = "watch_candidate o' offer now" and ?db = "wd_notes d"
  obtain db' where p: "publish_notice ?env ?c ?db = (db', Ok True)"
    using assms by (auto simp: notify_watch_def split: prod.splits sum.splits)
  obtain prefs pref where pp: "rbind (notification_preferences (de_faults ?env) (de_parse ?env) ?db) (\<lambda>prefs.
      rbind (ok_or (map_of (pf_categories prefs) (ca_category ?c)) ''Unknown notification category'') (\<lambda>pref. Ok (prefs, pref)))
      = Ok (prefs, pref)"
    using p by (auto simp: publish_notice_def split: sum.splits)
  let ?native = "pf_popups prefs \<and> cp_native pref"
  obtain db1 r1 where ins: "insert_notification (de_faults ?env) ?c (de_now ?env) ?native (cp_enabled pref) ?db = (db1, r1)"
    by (cases "insert_notification (de_faults ?env) ?c (de_now ?env) ?native (cp_enabled pref) ?db")
  note shape = p [unfolded publish_notice_def pp sum.case prod.case Let_def ins]
  obtain i where i: "r1 = Ok (Some i)" using shape by (cases r1) (auto split: option.splits)
  obtain db2 r2 where del: "deliver_notice ?env prefs ?native i ?c db1 = (db2, r2)"
    by (cases "deliver_notice ?env prefs ?native i ?c db1")
  obtain db3 r3 where pr: "prune_notifications (de_faults ?env) (de_later ?env) db2 = (db3, r3)"
    by (cases "prune_notifications (de_faults ?env) (de_later ?env) db2")
  have "db' = db3" using shape i del pr by (cases r2; cases r3) auto
  then have "nd_sequence db' = nd_sequence ?db + 1"
    using insert_advances [OF ins [unfolded i]] delivery_checkpoints [OF del] prune_checkpoints [OF pr] by simp
  then show ?thesis using p by (simp add: op_alerts_def)
qed

text \<open>C11: A watch alerts at most once in six hours, whichever of the polling pass and the stream of orders sees its price:
  over any announcements of watches and of everything else, inbox reads, clean-ups and preference changes, with
  whatever database faults, any two alerts of one watch are at least six hours apart, provided the clock does not run
  back, a price is announced within a day of being judged and the watch starts without a checkpoint.\<close>

theorem watch_alerts_are_spaced:
  assumes "nd_checkpoints db (watch_key i) = None" and "sorted_wrt (\<le>) (concat (map op_times ops))"
    and "list_all (proper_op (watch_key i)) ops"
  shows "sorted_wrt (\<lambda>a b. a + REARM_AFTER_SECS \<le> b) (alert_times (watch_key i) (snd (note_run ops db)))"
proof -
  let ?clock = "hd (concat (map op_times ops) @ [0])"
  have clock: "sorted_wrt (\<le>) (hd (ts @ [0]) # ts)" if "sorted_wrt (\<le>) ts" for ts :: "i64 list"
    using that by (cases ts) auto
  have "guarded (watch_key i) (nd_checkpoints db) {} ?clock" using assms(1) by (simp add: guarded_def)
  moreover have "sorted_wrt (\<le>) (?clock # concat (map op_times ops))"
    using clock assms(2) by blast
  ultimately show ?thesis using run_guarded assms(3) by blast
qed

definition demo_delivery :: "i64 \<Rightarrow> delivery_env" where
  "demo_delivery t = \<lparr> de_faults = (\<lambda>_. None), de_parse = (\<lambda>_. Ok default_preferences), de_sink = (\<lambda>_. False),
     de_show = True, de_now = t, de_later = t + 1 \<rparr>"

definition demo_price_hit :: watch_outcome where
  "demo_price_hit = \<lparr> wo_id = 7, wo_slug = ''primed_flow'', wo_name = tx ''Primed Flow'', wo_side = ''sell'', wo_threshold = 15,
     wo_price = Some 12, wo_satisfied = True, wo_fire = True \<rparr>"

definition demo_inbox :: notify_db where
  "demo_inbox = \<lparr> nd_rows = [], nd_sequence = 0, nd_checkpoints = Map.empty, nd_setting = None \<rparr>"

text \<open>Seen by the poll, an hour later by the stream, and again six hours after the first alert.\<close>

definition demo_watch_ops :: "note_op list" where
  "demo_watch_ops = map (\<lambda>t. AnnounceWatch (demo_delivery t) demo_price_hit None t) [100000, 103600, 121600]"

lemma demo_publish:
  assumes "nd_setting db = None"
  shows "publish_notice (demo_delivery t) (watch_candidate demo_price_hit offer t) db =
    (case insert_notification (\<lambda>_. None) (watch_candidate demo_price_hit offer t) t True True db of
       (db, Err e) \<Rightarrow> (db, Err e)
     | (db, Ok None) \<Rightarrow> (db, Ok False)
     | (db, Ok (Some i)) \<Rightarrow>
         (fst (prune_notifications (\<lambda>_. None) (t + 1) (fst (notification_delivery (\<lambda>_. None) i ''sent'' db))), Ok True))"
  using assms by (simp add: publish_notice_def demo_delivery_def notification_preferences_def nd_run_def default_preferences_def
    normalize_preferences_def CATEGORIES_def bt_of_def bt_insert_def watch_candidate_def candidate_once_def
    deliver_notice_def wants_in_game_def notification_delivery_def prune_notifications_def Let_def
    split: prod.split sum.split option.split)

lemma demo_hit_id: "wo_id demo_price_hit = 7"
  by (simp add: demo_price_hit_def)

abbreviation demo_hit :: "i64 \<Rightarrow> note_op" where
  "demo_hit t \<equiv> AnnounceWatch (demo_delivery t) demo_price_hit None t"

lemma demo_free:
  assumes "nd_setting db = None" and "sensible t"
    and "\<not> is_some_and (nd_checkpoints db (watch_key 7)) (held_back (watch_candidate demo_price_hit None t) t)"
  shows "nd_setting (note_db (demo_hit t) db) = None"
    and "nd_sequence (note_db (demo_hit t) db) = nd_sequence db + 1"
    and "nd_checkpoints (note_db (demo_hit t) db) (watch_key 7) = Some (noted_at (watch_candidate demo_price_hit None t) t)"
proof -
  have "i64_range (t + 31 * 86400)" using assms(2) by (simp add: sensible_def i64_range_def)
  then show "nd_setting (note_db (demo_hit t) db) = None"
    and "nd_sequence (note_db (demo_hit t) db) = nd_sequence db + 1"
    and "nd_checkpoints (note_db (demo_hit t) db) (watch_key 7) = Some (noted_at (watch_candidate demo_price_hit None t) t)"
    using assms(1,3) by (simp_all add: demo_publish insert_notification_def nd_run_def watch_candidate_fields demo_hit_id
      notification_delivery_def prune_notifications_def noted_at_def opt_filter_def Let_def rbind_def)
qed

lemma demo_held:
  assumes "nd_setting db = None" and "is_some_and (nd_checkpoints db (watch_key 7)) (held_back (watch_candidate demo_price_hit None t) t)"
  shows "note_db (demo_hit t) db = db"
proof -
  have "ca_key (watch_candidate demo_price_hit None t) = watch_key 7" by (simp add: watch_candidate_fields demo_hit_id)
  then show ?thesis using assms by (simp add: demo_publish insert_notification_def nd_run_def)
qed

theorem watch_alerts_are_spaced_witness:
  "alert_times (watch_key 7) (snd (note_run demo_watch_ops demo_inbox)) = [100000, 121600]
   \<and> sorted_wrt (\<lambda>a b. a + REARM_AFTER_SECS \<le> b) (alert_times (watch_key 7) (snd (note_run demo_watch_ops demo_inbox)))"
proof
  show "sorted_wrt (\<lambda>a b. a + REARM_AFTER_SECS \<le> b) (alert_times (watch_key 7) (snd (note_run demo_watch_ops demo_inbox)))"
    by (rule watch_alerts_are_spaced)
      (simp_all add: demo_inbox_def demo_watch_ops_def demo_delivery_def sensible_def)
  let ?db1 = "note_db (demo_hit 100000) demo_inbox"
  have held: "held_back (watch_candidate demo_price_hit None t) t (noted_at (watch_candidate demo_price_hit None u) u)
      \<longleftrightarrow> sat_i64 (t - u) < 21600" for t u
    by (simp add: held_back_def watch_candidate_fields noted_at_def REARM_AFTER_SECS_def)
  have one: "nd_setting ?db1 = None" "nd_sequence ?db1 = 1"
      "nd_checkpoints ?db1 (watch_key 7) = Some (noted_at (watch_candidate demo_price_hit None 100000) 100000)"
    using demo_free [of demo_inbox 100000] by (simp_all add: demo_inbox_def sensible_def)
  have two: "note_db (demo_hit 103600) ?db1 = ?db1"
    using one by (intro demo_held) (simp_all add: held sat_i64_def)
  have "nd_sequence (note_db (demo_hit 121600) ?db1) = 2"
    using demo_free(2) [of ?db1 121600] one by (simp add: held sat_i64_def sensible_def)
  then show "alert_times (watch_key 7) (snd (note_run demo_watch_ops demo_inbox)) = [100000, 121600]"
    using one two by (simp add: demo_watch_ops_def op_alerts_def alert_times_def demo_hit_id demo_delivery_def demo_inbox_def
      del: note_db.simps)
qed

end
