(* ===== verification/Offer_Facts.thy ===== *)
theory Offer_Facts
  imports Watch_Facts "HOL-Library.Multiset"
begin

text \<open>
  Where the price of a watch comes from, and what the player is handed: the top of the book is the best order of
  others; the poll and the stream judge an order alike; a whisper is one message to one player.
\<close>

section \<open>The top of the book\<close>

text \<open>What an order counts for in the market of others.\<close>

definition others_price :: "f64_division \<Rightarrow> string option \<Rightarrow> json \<Rightarrow> rat option" where
  "others_price fdiv me order = (if is_own_order order me then None else quoted_price fdiv order)"

definition side_rows :: "json \<Rightarrow> string \<Rightarrow> json list" where
  "side_rows body name = unwrap_or (Option.bind (jget (unwrap_envelope body) name) as_array) []"

definition others_prices :: "f64_division \<Rightarrow> string option \<Rightarrow> json list \<Rightarrow> rat list" where
  "others_prices fdiv me rows = List.map_filter (others_price fdiv me) rows"

definition best_of_prices :: "bool \<Rightarrow> rat list \<Rightarrow> rat option" where
  "best_of_prices sell ps = (if ps = [] then None else Some (if sell then Min (set ps) else Max (set ps)))"

text \<open>The best price and who asks or bids it: the first order at that price.\<close>

definition side_summary :: "f64_division \<Rightarrow> bool \<Rightarrow> string option \<Rightarrow> json list \<Rightarrow> rat list \<times> (rat \<times> string option) option" where
  "side_summary fdiv sell me rows =
     (others_prices fdiv me rows,
      map_option (\<lambda>p. (p, Option.bind (find (\<lambda>o'. others_price fdiv me o' = Some p) rows) holder_of))
        (best_of_prices sell (others_prices fdiv me rows)))"

lemma others_prices_snoc:
  "others_prices fdiv me (rows @ [r]) = others_prices fdiv me rows @ (case others_price fdiv me r of None \<Rightarrow> [] | Some p \<Rightarrow> [p])"
  by (simp add: others_prices_def List.map_filter_def split: option.split)

lemma others_prices_mem: "p \<in> set (others_prices fdiv me rows) \<longleftrightarrow> (\<exists>r\<in>set rows. others_price fdiv me r = Some p)"
  by (simp add: others_prices_def List.map_filter_def image_iff) force

lemma better_price_min_max: "(if better_price sell p q then p else q) = (if sell then min p q else max p q)"
  by (simp add: better_price_def min_def max_def)

lemma best_of_prices_snoc:
  "best_of_prices sell (ps @ [p]) =
     Some (case best_of_prices sell ps of None \<Rightarrow> p | Some q \<Rightarrow> if better_price sell p q then p else q)"
  by (cases "ps = []") (simp_all add: best_of_prices_def better_price_min_max)

lemma best_of_prices_mem: "best_of_prices sell ps = Some p \<Longrightarrow> p \<in> set ps"
  by (auto simp: best_of_prices_def split: if_splits)

lemma find_best_old:
  assumes "best_of_prices sell (others_prices fdiv me rows) = Some p"
  shows "find (\<lambda>o'. others_price fdiv me o' = Some p) (rows @ [r]) = find (\<lambda>o'. others_price fdiv me o' = Some p) rows"
proof -
  have "\<exists>r\<in>set rows. others_price fdiv me r = Some p" using best_of_prices_mem [OF assms] by (simp add: others_prices_mem)
  then show ?thesis by (auto simp: find_append find_None_iff split: option.split)
qed

lemma better_is_new:
  assumes "best_of_prices sell ps = None \<or> better_price sell p (the (best_of_prices sell ps))"
  shows "p \<notin> set ps"
  using assms by (cases "ps = []") (auto simp: best_of_prices_def better_price_def split: if_splits
      dest: Min_le [OF finite_set] Max_ge [OF finite_set] leD)

lemma side_fold_summary:
  "(let acc = fold (side_step fdiv sell me) rows \<lparr> sa_others = [], sa_mine = None, sa_best = None \<rparr>
    in (sa_others acc, sa_best acc)) = side_summary fdiv sell me rows"
proof (induction rows rule: rev_induct)
  case Nil
  then show ?case by (simp add: side_summary_def others_prices_def best_of_prices_def List.map_filter_simps)
next
  case (snoc r rows)
  let ?acc = "fold (side_step fdiv sell me) rows \<lparr> sa_others = [], sa_mine = None, sa_best = None \<rparr>"
  let ?ps = "others_prices fdiv me rows" and ?find = "\<lambda>p rows. find (\<lambda>o'. others_price fdiv me o' = Some p) rows"
  let ?best = "best_of_prices sell ?ps"
  have others: "sa_others ?acc = ?ps"
    and best: "sa_best ?acc = map_option (\<lambda>p. (p, Option.bind (?find p rows) holder_of)) ?best"
    using snoc.IH by (simp_all add: side_summary_def Let_def)
  show ?case
  proof (cases "others_price fdiv me r")
    case None
    then have "sa_others (side_step fdiv sell me r ?acc) = ?ps" and "sa_best (side_step fdiv sell me r ?acc) = sa_best ?acc"
      using others by (auto simp: side_step_def others_price_def split: option.split if_splits)
    moreover have "others_prices fdiv me (rows @ [r]) = ?ps" using None by (simp add: others_prices_snoc)
    moreover have "map_option (\<lambda>p. (p, Option.bind (?find p (rows @ [r])) holder_of)) ?best
        = map_option (\<lambda>p. (p, Option.bind (?find p rows) holder_of)) ?best"
      by (cases ?best) (simp_all add: find_best_old)
    ultimately show ?thesis using best by (simp add: side_summary_def Let_def)
  next
    case (Some p)
    then have own: "\<not> is_own_order r me" and price: "quoted_price fdiv r = Some p"
      by (auto simp: others_price_def split: if_splits)
    have ps: "others_prices fdiv me (rows @ [r]) = ?ps @ [p]" using Some by (simp add: others_prices_snoc)
    have step: "sa_others (side_step fdiv sell me r ?acc) = ?ps @ [p]"
      "sa_best (side_step fdiv sell me r ?acc) = (if is_none_or (sa_best ?acc) (\<lambda>(held, _). better_price sell p held)
         then Some (p, holder_of r) else sa_best ?acc)"
      using own price others by (simp_all add: side_step_def)
    show ?thesis
    proof (cases "?best = None \<or> better_price sell p (the ?best)")
      case True
      have "?find p (rows @ [r]) = Some r"
      proof -
        have "?find p rows = None" using better_is_new [OF True] by (auto simp: find_None_iff others_prices_mem)
        then show ?thesis using Some by (simp add: find_append)
      qed
      moreover have "best_of_prices sell (?ps @ [p]) = Some p" using True by (auto simp: best_of_prices_snoc split: option.split)
      moreover have "is_none_or (sa_best ?acc) (\<lambda>(held, _). better_price sell p held)"
        using True by (cases ?best) (auto simp: best)
      ultimately show ?thesis using step ps by (simp add: side_summary_def Let_def)
    next
      case False
      then obtain q where q: "?best = Some q" "\<not> better_price sell p q" by auto
      then have "best_of_prices sell (?ps @ [p]) = Some q" by (simp add: best_of_prices_snoc)
      moreover have "\<not> is_none_or (sa_best ?acc) (\<lambda>(held, _). better_price sell p held)" using q by (simp add: best)
      ultimately show ?thesis using step ps best q find_best_old [OF q(1)] by (simp add: side_summary_def Let_def)
    qed
  qed
qed

lemma book_side_summary:
  "(sa_others (book_side fdiv (unwrap_envelope body) me name), sa_best (book_side fdiv (unwrap_envelope body) me name))
     = side_summary fdiv (name = ''sell'') me (side_rows body name)"
  using side_fold_summary [of fdiv "name = ''sell''" me "side_rows body name"] by (simp add: book_side_def side_rows_def Let_def)

lemma first_of_sort: "first_of (sort ps) = best_of_prices True ps" for ps :: "rat list"
proof (cases "sort ps")
  case Nil
  then have "ps = []" by (metis set_empty set_sort)
  then show ?thesis using Nil by (simp add: best_of_prices_def)
next
  case (Cons p qs)
  have "sorted (p # qs)" using sorted_sort [of ps] Cons by simp
  moreover have "set ps = set (p # qs)" using Cons by (metis set_sort)
  ultimately have "Min (set ps) = p" by (auto intro!: Min_eqI)
  moreover have "ps \<noteq> []" using Cons by auto
  ultimately show ?thesis using Cons by (simp add: best_of_prices_def)
qed

lemma first_of_rev_sort: "first_of (rev (sort ps)) = best_of_prices False ps" for ps :: "rat list"
proof (cases "rev (sort ps)")
  case Nil
  then have "ps = []" by (metis rev_is_Nil_conv set_empty set_sort)
  then show ?thesis using Nil by (simp add: best_of_prices_def)
next
  case (Cons p qs)
  then have eq: "sort ps = rev qs @ [p]" by (metis rev_rev_ident rev.simps(2))
  have "sorted (rev qs @ [p])" using sorted_sort [of ps] eq by simp
  moreover have "set ps = set (rev qs @ [p])" using eq by (metis set_sort)
  ultimately have "Max (set ps) = p" by (auto intro!: Max_eqI simp: sorted_append)
  moreover have "ps \<noteq> []" using Cons by auto
  ultimately show ?thesis using Cons by (simp add: best_of_prices_def)
qed

definition market_prices :: "f64_division \<Rightarrow> string option \<Rightarrow> json \<Rightarrow> string \<Rightarrow> rat list" where
  "market_prices fdiv me body name = others_prices fdiv me (side_rows body name)"

definition holder_at :: "f64_division \<Rightarrow> string option \<Rightarrow> json \<Rightarrow> string \<Rightarrow> rat \<Rightarrow> string option" where
  "holder_at fdiv me body name p = Option.bind (find (\<lambda>o'. others_price fdiv me o' = Some p) (side_rows body name)) holder_of"

lemma book_side_market:
  "sa_others (book_side fdiv (unwrap_envelope body) me name) = market_prices fdiv me body name"
  "Option.bind (sa_best (book_side fdiv (unwrap_envelope body) me name)) snd
     = Option.bind (best_of_prices (name = ''sell'') (market_prices fdiv me body name)) (holder_at fdiv me body name)"
  using book_side_summary [of fdiv body me name]
  by (cases "best_of_prices (name = ''sell'') (market_prices fdiv me body name)";
      simp add: side_summary_def market_prices_def holder_at_def)+

text \<open>C20: The live top of an item is the best order of others: the lowest price asked and the highest bid among the
  readable orders of each side that are not the user's own, none when there is none, held by the first order at that
  price; the prices listed are exactly those of the others' orders, best first.\<close>

theorem live_top_is_others_best:
  assumes "parse_top fdiv q body me = Ok t"
  shows "(let asks = market_prices fdiv me body ''sell''; bids = market_prices fdiv me body ''buy'' in
      lv_low_sell t = (if asks = [] then None else Some (Min (set asks)))
      \<and> lv_top_buy t = (if bids = [] then None else Some (Max (set bids)))
      \<and> lv_low_sell_by t = Option.bind (lv_low_sell t) (holder_at fdiv me body ''sell'')
      \<and> lv_top_buy_by t = Option.bind (lv_top_buy t) (holder_at fdiv me body ''buy'')
      \<and> mset (lv_sells t) = mset asks \<and> sorted (lv_sells t) \<and> mset (lv_buys t) = mset bids \<and> sorted (rev (lv_buys t)))"
proof -
  let ?asks = "market_prices fdiv me body ''sell''" and ?bids = "market_prices fdiv me body ''buy''"
  have "lv_sells t = sort ?asks" "lv_buys t = rev (sort ?bids)"
      "lv_low_sell t = best_of_prices True ?asks" "lv_top_buy t = best_of_prices False ?bids"
      "lv_low_sell_by t = Option.bind (best_of_prices True ?asks) (holder_at fdiv me body ''sell'')"
      "lv_top_buy_by t = Option.bind (best_of_prices False ?bids) (holder_at fdiv me body ''buy'')"
    using assms by (auto simp: parse_top_def Let_def book_side_market first_of_sort first_of_rev_sort split: if_splits)
  then show ?thesis by (simp add: Let_def best_of_prices_def)
qed

section \<open>The poll and the stream judge alike\<close>

lemma f64_of_i64_exact: "\<bar>i\<bar> \<le> 2 ^ 53 \<Longrightarrow> f64_of_i64 i = of_int i"
  by (simp only: f64_of_i64_def f64_of_nat_def) (simp add: round_f64_exact nat_le_iff)

lemma ceiling_meets: "0 < p \<Longrightarrow> \<bar>i\<bar> \<le> 2 ^ 53 \<Longrightarrow> sat_i64 \<lceil>p\<rceil> \<le> i \<longleftrightarrow> p \<le> of_int i" for p :: rat
  using ceiling_le_iff [of p i] by (auto simp: sat_i64_def min_le_iff_disj)

lemma floor_meets: "0 < p \<Longrightarrow> \<bar>i\<bar> \<le> 2 ^ 53 \<Longrightarrow> i \<le> sat_i64 \<lfloor>p\<rfloor> \<longleftrightarrow> of_int i \<le> p" for p :: rat
  using le_floor_iff [of i p] by (auto simp: sat_i64_def le_max_iff_disj)

text \<open>C17: The two paths judge a price the same way: an order that is the best of the book's side, as the poll reads it,
  satisfies a watch of the same tier exactly when the stream, shown that order, matches it to the watch (given that
  it is visible and of the watch's side), and both report the same whole price, for every threshold an f64 holds
  exactly, however the order's unit price is fractional.\<close>

theorem poll_and_stream_agree:
  assumes "\<bar>wt_threshold w\<bar> \<le> 2 ^ 53" and "lv_error t = None" and "top_price (wt_side w) t = Some (nw_platinum o')"
  shows "order_matches_watch o' (wt_side w) (wt_threshold w) (tier_rank w) (wt_subtype w)
     = (wo_satisfied (evaluate w (Some t) now) \<and> nw_visible o' \<and> nw_side o' = wt_side w
       \<and> unwrap_or (nw_rank o') 0 = unwrap_or (tier_rank w) 0 \<and> unwrap_or (nw_subtype o') [] = unwrap_or (wt_subtype w) [])
     \<and> wo_price (streamed_outcome o' w) = wo_price (evaluate w (Some t) now)"
proof -
  let ?p = "nw_platinum o'" and ?i = "wt_threshold w"
  have price: "wo_price (evaluate w (Some t) now) = price_for_watch (wt_side w) ?p"
    using assms(2,3) by (simp add: evaluate_def Let_def)
  then have same: "wo_price (streamed_outcome o' w) = wo_price (evaluate w (Some t) now)" by (simp add: streamed_outcome_def)
  have "wo_satisfied (evaluate w (Some t) now) \<longleftrightarrow> is_some_and (price_for_watch (wt_side w) ?p) (meets (wt_side w) ?i)"
    using assms(2,3) by (simp add: evaluate_def Let_def)
  also have "\<dots> \<longleftrightarrow> 0 < ?p \<and> (wt_side w = ''buy'' \<and> f64_of_i64 ?i \<le> ?p \<or> wt_side w = ''sell'' \<and> ?p \<le> f64_of_i64 ?i)"
  proof (cases "0 < ?p")
    case True
    then show ?thesis using ceiling_meets [OF True assms(1)] floor_meets [OF True assms(1)]
      by (auto simp: price_for_watch_def meets_def f64_of_i64_exact [OF assms(1)])
  next
    case False
    then show ?thesis by (simp add: price_for_watch_def not_less)
  qed
  finally show ?thesis using same by (auto simp: order_matches_watch_def)
qed

section \<open>What the player is handed\<close>

abbreviation plain :: "ustr \<Rightarrow> bool" where
  "plain cs \<equiv> list_all (\<lambda>c. \<not> is_control c) cs"

lemma code_of_char: "(of_char ch :: int) = int (of_char ch)"
  by (simp only: of_nat_of_char)

lemma plain_digit: "n < 10 \<Longrightarrow> \<not> is_control (of_char (char_of (48 + n)))" for n :: nat
  by (simp add: code_of_char is_control_def del: of_nat_of_char)

lemma plain_show_nat: "plain (tx (show_nat n))"
proof (induction n rule: show_nat.induct)
  case (1 n)
  show ?case
  proof (cases "n < 10")
    case True
    then show ?thesis using plain_digit by (subst show_nat.simps) (simp add: tx_def)
  next
    case False
    then show ?thesis using 1 plain_digit [of "n mod 10"] by (subst show_nat.simps) (simp add: tx_def)
  qed
qed

lemma plain_show_i64: "plain (show_i64 i)"
  using plain_show_nat by (simp add: show_i64_def tx_def is_control_def)

lemma name_char_code: "name_char ch \<Longrightarrow> 45 \<le> (of_char ch :: nat) \<and> (of_char ch :: nat) \<le> 122"
  by (auto simp: name_char_def Let_def)

lemma whisperable_name:
  assumes "is_whisperable player"
  shows "chars_of player = tx player" and "plain (tx player)" and "list_all (\<lambda>c. c \<noteq> 32) (tx player)"
proof -
  have code: "45 \<le> (of_char ch :: int) \<and> (of_char ch :: int) \<le> 122" if "ch \<in> set player" for ch
  proof -
    have "name_char ch" using assms that by (simp add: is_whisperable_def list_all_iff)
    from name_char_code [OF this] show ?thesis unfolding code_of_char by linarith
  qed
  show "chars_of player = tx player" using code by (intro chars_of_ascii) (force simp: list_all_iff)
  show "plain (tx player)" using code by (force simp: tx_def list_all_iff is_control_def)
  show "list_all (\<lambda>c. c \<noteq> 32) (tx player)" using code by (force simp: tx_def list_all_iff)
qed

lemma plain_label:
  assumes "\<And>c. \<not> is_control c \<Longrightarrow> plain (upper c)" and "\<And>s. subtype = Some s \<Longrightarrow> plain (chars_of s)"
  shows "plain (item_label upper item rank subtype)"
proof -
  have "plain (filter (\<lambda>c. \<not> is_control c \<and> c \<noteq> 34) item)" by (simp add: list_all_iff)
  moreover have "plain (case chars_of s of [] \<Rightarrow> [] | c # cs \<Rightarrow> upper c @ cs)" if "subtype = Some s" for s
    using assms(2) [OF that] assms(1) by (auto split: list.split)
  ultimately show ?thesis using plain_show_i64
    by (auto simp: item_label_def Let_def tx_def is_control_def opt_filter_def split: option.splits if_splits)
qed

text \<open>
  A whisper is one message to one player: it is a single line without control characters, its command is /w, and
  what is taken as the recipient, up to the first space, is the whole name of the player, which is made only of
  letters, digits, dashes, underscores and dots, whatever the item is called; given that the watch's variant has no
  control characters.
\<close>
lemma whisper_is_one_message:
  assumes "whisper upper side player item rank subtype price = Some msg"
    and "\<And>c. \<not> is_control c \<Longrightarrow> list_all (\<lambda>c. \<not> is_control c) (upper c)"
    and "\<And>s. subtype = Some s \<Longrightarrow> list_all (\<lambda>c. \<not> is_control c) (chars_of s)"
  shows "list_all (\<lambda>c. \<not> is_control c) msg
    \<and> take 3 msg = tx ''/w '' \<and> takeWhile (\<lambda>c. c \<noteq> 32) (drop 3 msg) = chars_of player
    \<and> list_all name_char player \<and> 0 < price \<and> side \<in> {''sell'', ''buy''}"
proof -
  have ok: "is_whisperable player" "0 < price" using assms(1) by (auto simp: whisper_def split: if_splits)
  note name = whisperable_name [OF ok(1)]
  obtain verb where verb: "whisper_verb side = Some verb" using assms(1) by (auto simp: whisper_def split: if_splits)
  then have verbs: "side \<in> {''sell'', ''buy''}" "verb \<in> {''buy'', ''sell''}"
    by (auto simp: whisper_verb_def split: if_splits)
  have msg: "msg = tx ''/w '' @ tx player @ tx '' Hi! I want to '' @ tx verb @ tx '': '' @ [34]
      @ item_label upper item rank subtype @ [34] @ tx '' for '' @ show_i64 price
      @ tx '' platinum. (warframe.market) - TennoWorth''"
    using assms(1) ok verb name(1) by (auto simp: whisper_def)
  have one: "plain msg" unfolding msg
    using name(2) plain_label [OF assms(2,3)] plain_show_i64 verbs(2) by (auto simp: tx_def is_control_def)
  have cmd: "take 3 msg = tx ''/w ''" unfolding msg by (simp add: tx_def)
  have "\<exists>rest. drop 3 msg = tx player @ 32 # rest" unfolding msg by (simp add: tx_def)
  then have "takeWhile (\<lambda>c. c \<noteq> 32) (drop 3 msg) = chars_of player"
    using name(1,3) by (auto simp: takeWhile_append2 list_all_iff)
  then show ?thesis using one cmd ok verbs(1) by (simp add: is_whisperable_def)
qed

section \<open>Examples\<close>

definition exact_division :: f64_division where "exact_division = (/)"

text \<open>Two lots of two and the user's own cheaper order: the top is the cheaper lot's unit price.\<close>

definition demo_ask :: "string \<Rightarrow> u64 \<Rightarrow> u64 \<Rightarrow> json" where
  "demo_ask player price lot = JObj [(''platinum'', JPosInt price), (''perTrade'', JPosInt lot),
     (''user'', JObj [(''ingameName'', JStr player)])]"

definition demo_book :: json where
  "demo_book = JObj [(''data'', JObj [(''sell'', JArr [demo_ask ''me'' 5 1, demo_ask ''ann'' 30 2, demo_ask ''bob'' 25 2]), (''buy'', JArr [])])]"

definition demo_query :: live_query where
  "demo_query = \<lparr> lq_slug = ''primed_flow'', lq_rank = None, lq_subtype = None \<rparr>"

lemma demo_price:
  assumes "unat p \<le> 2 ^ 53"
  shows "quoted_price exact_division (demo_ask player p lot) = lot_unit_price exact_division (of_nat (unat p)) (Some (JPosInt lot))"
proof -
  have "as_f64 (JPosInt p) = Some (of_nat (unat p))"
    using assms by (simp only: as_f64_def json.case f64_of_nat_def round_f64_exact)
  then show ?thesis by (simp add: quoted_price_def demo_ask_def jget_def del: of_nat_unat)
qed

lemma demo_own: "is_own_order (demo_ask player p lot) (Some ''me'') \<longleftrightarrow> ignoring_case player ''me''"
  by (simp add: is_own_order_def demo_ask_def jget_def as_str_def)

lemma demo_units:
  "others_price exact_division (Some ''me'') (demo_ask ''me'' 5 1) = None"
  "others_price exact_division (Some ''me'') (demo_ask ''ann'' 30 2) = Some 15"
  "others_price exact_division (Some ''me'') (demo_ask ''bob'' 25 2) = Some (25 / 2)"
  by (simp_all add: others_price_def demo_own ignoring_case_def lower_ascii_def demo_price)
    (simp_all add: lot_unit_price_def exact_division_def as_u64_def is_null_def)

theorem live_top_is_others_best_witness:
  "\<exists>t. parse_top exact_division demo_query demo_book (Some ''me'') = Ok t
     \<and> lv_low_sell t = Some (25 / 2) \<and> lv_low_sell_by t = Some ''bob'' \<and> lv_top_buy t = None"
proof -
  have rows: "side_rows demo_book ''sell'' = [demo_ask ''me'' 5 1, demo_ask ''ann'' 30 2, demo_ask ''bob'' 25 2]"
      "side_rows demo_book ''buy'' = []"
    by (simp_all add: side_rows_def demo_book_def unwrap_envelope_def jget_def as_array_def)
  have market: "market_prices exact_division (Some ''me'') demo_book ''sell'' = [15, 25 / 2]"
      "market_prices exact_division (Some ''me'') demo_book ''buy'' = []"
    by (simp_all add: market_prices_def others_prices_def rows demo_units List.map_filter_simps)
  have holder: "holder_at exact_division (Some ''me'') demo_book ''sell'' (25 / 2) = Some ''bob''"
    by (simp add: holder_at_def rows demo_units) (simp add: holder_of_def demo_ask_def jget_def as_str_def)
  obtain t where t: "parse_top exact_division demo_query demo_book (Some ''me'') = Ok t"
    by (simp add: parse_top_def Let_def demo_book_def unwrap_envelope_def jget_def)
  from live_top_is_others_best [OF t] t show ?thesis by (simp add: Let_def market holder)
qed

definition demo_watch :: price_watch where
  "demo_watch = \<lparr> wt_id = 7, wt_slug = ''primed_flow'', wt_name = tx ''Primed Flow'', wt_subtype = None, wt_rank = Some 0,
     wt_side = ''sell'', wt_threshold = 13, wt_created_at = '''', wt_last_price = None, wt_last_checked_at = None,
     wt_last_fired_at = None \<rparr>"

definition demo_new_order :: streamed_order where
  "demo_new_order = \<lparr> nw_id = ''o'', nw_side = ''sell'', nw_platinum = 25 / 2, nw_quantity = 2, nw_rank = None, nw_subtype = None,
     nw_item_id = ''i'', nw_user_name = Some ''bob'', nw_user_status = None, nw_visible = True \<rparr>"

definition demo_top :: live_top where
  "demo_top = (failed_top demo_query '''')\<lparr> lv_low_sell := Some (25 / 2), lv_error := None \<rparr>"

text \<open>A lot of two for 25: 12.5 a copy, reported as 13 by both, and 13 is enough.\<close>

theorem poll_and_stream_agree_witness:
  "order_matches_watch demo_new_order ''sell'' 13 (Some 0) None
   \<and> wo_price (streamed_outcome demo_new_order demo_watch) = Some 13 \<and> wo_price (evaluate demo_watch (Some demo_top) 0) = Some 13"
proof -
  have flds: "wt_threshold demo_watch = 13" "wt_side demo_watch = ''sell''" "tier_rank demo_watch = Some 0" "wt_subtype demo_watch = None"
    by (simp_all add: demo_watch_def tier_rank_def)
  have small: "\<bar>wt_threshold demo_watch\<bar> \<le> 2 ^ 53" and "lv_error demo_top = None"
      and "top_price (wt_side demo_watch) demo_top = Some (nw_platinum demo_new_order)"
    by (simp_all add: demo_top_def top_price_def flds demo_new_order_def)
  note agree = poll_and_stream_agree [OF this, of 0]
  have up: "\<lceil>25 / 2 :: rat\<rceil> = 13" by (rule ceiling_unique) simp_all
  have "wo_price (streamed_outcome demo_new_order demo_watch) = Some 13"
    by (simp add: up streamed_outcome_def flds price_for_watch_def demo_new_order_def sat_i64_def)
  moreover have "wo_satisfied (evaluate demo_watch (Some demo_top) 0)"
    by (simp add: up evaluate_def Let_def flds demo_top_def top_price_def price_for_watch_def meets_def sat_i64_def)
  ultimately show ?thesis using agree by (simp add: flds demo_new_order_def)
qed

lemma whisper_is_one_message_witness:
  "\<exists>msg. whisper (\<lambda>c. [c]) ''sell'' ''bob'' (tx ''Ash Prime Set'' @ [10]) None None 120 = Some msg
     \<and> takeWhile (\<lambda>c. c \<noteq> 32) (drop 3 msg) = tx ''bob'' \<and> 10 \<notin> set msg"
proof -
  let ?w = "whisper (\<lambda>c. [c]) ''sell'' ''bob'' (tx ''Ash Prime Set'' @ [10]) None None 120"
  have bob: "is_whisperable ''bob''" by (simp add: is_whisperable_def name_char_def)
  obtain msg where msg: "?w = Some msg" using bob by (simp add: whisper_def whisper_verb_def)
  have "list_all (\<lambda>c. \<not> is_control c) msg \<and> takeWhile (\<lambda>c. c \<noteq> 32) (drop 3 msg) = chars_of ''bob''"
    using whisper_is_one_message [OF msg] by simp
  then show ?thesis using msg whisperable_name(1) [OF bob] by (auto simp: list_all_iff is_control_def)
qed

section \<open>Watches that come back\<close>

text \<open>
  The identity of a deleted watch is given again, and its checkpoint is kept: a new watch can be refused its first
  alert for up to six hours because of one that is gone.
\<close>

lemma recreated_watch_is_silent:
  assumes "wt_id w = 1" and "wo_id outcome = 1" and "nh_side h = ''sell''"
    and "nd_checkpoints (wd_notes d) (watch_key 1) = Some k"
    and "sensible (ck_at k)" and "sensible (de_now (ae_delivery env))"
    and "de_now (ae_delivery env) < ck_at k + REARM_AFTER_SECS"
  shows "snd (add_watch None iso_now h (delete_watch 1 [w])) = Ok 1 \<and> \<not> fst (notify_watch env outcome offer now d)"
proof
  show "snd (add_watch None iso_now h (delete_watch 1 [w])) = Ok 1"
    using assms(1,3) by (simp add: add_watch_def delete_watch_def next_rowid_def)
  let ?c = "watch_candidate outcome offer now" and ?env = "ae_delivery env"
  have "held_back ?c (de_now ?env) k"
    using assms(5-7) by (auto simp: held_back_def watch_candidate_fields sat_i64_def sensible_def REARM_AFTER_SECS_def)
  then have held: "snd (insert_notification (de_faults ?env) ?c (de_now ?env) native enabled (wd_notes d)) \<noteq> Ok (Some i)"
    for native enabled i
    using assms(2,4) by (auto simp: insert_notification_def watch_candidate_fields split: sum.split)
  have "snd (publish_notice ?env ?c (wd_notes d)) \<noteq> Ok True"
    using held by (auto simp: publish_notice_def Let_def split: sum.splits prod.splits option.splits) (metis snd_conv)+
  then show "\<not> fst (notify_watch env outcome offer now d)"
    by (auto simp: notify_watch_def split: prod.split sum.split)
qed

end
