(* ===== verification/Spec2Isabelle.thy ===== *)
theory Spec2Isabelle
  imports Order_Decode Governor_System Read_Cache Policy Plan_Run Trade_Pipeline Auto_Scan Presence_Facts Publication Game_Scan_Facts Outcome_Facts Session_Facts Batch_Command_Facts Offer_Facts
begin

text \<open>
  TennoWorth, the Rust half: a desktop companion for trading Warframe items on warframe.market, and the services
  beside it. This development models its own logic under \<open>src/rust\<close>: what it asks of the market and when, what it
  sends, what it keeps on disk, and what it concludes from the game's log. The theories follow the crates; every
  operation is a function on explicit state whose failures are values, and threads are step relations or lists of
  inputs.

  \<^bold>\<open>Shared.\<close> \<open>Prelude\<close>: machine integers (words where the code's width matters, \<open>i64\<close> as an integer with its range
  and wrap-around written out), results, list helpers. \<open>Text\<close>: Rust strings as lists of characters, UTF-8, the string
  methods the code calls. \<open>Json\<close>: \<open>serde_json\<close> values. \<open>Ordered_Map\<close>: \<open>BTreeMap\<close>. \<open>Transition\<close>: reachable states and the
  locale \<open>inductive_invariant\<close>.

  \<^bold>\<open>Access to the market\<close> (\<open>wfm-client\<close>). \<open>Governor\<close> and \<open>Governor_System\<close> (\<open>governor.rs\<close>): the queue, the permits, the
  pauses, one operation at a time and as a system of threads; the budget of requests, no lost wake-up, no starvation.
  \<open>Transport\<close> (\<open>transport.rs\<close>): the retry loop; a mutation is not sent again blindly. \<open>Read_Cache\<close>: reads shared by
  threads. \<open>Policy\<close> (\<open>policy.rs\<close>): signed policies survive restarts and only advance. \<open>Outcome\<close>: what an error says of
  a mutation.

  \<^bold>\<open>Orders and plans\<close> (\<open>wfm-trading/src/orders\<close>, \<open>market-domain\<close>). \<open>Orders\<close>, \<open>Catalog\<close>, \<open>Order_Decode\<close>, \<open>Listing\<close>: orders,
  the item catalogue, reading and changing a user's orders. \<open>Pending\<close> (\<open>pending.rs\<close>): the journal of a batch, its JSON
  and its write by a temporary file, a rename and, on Unix, a sync of the directory: a crash of the process leaves what a read
  would find, and a power loss on Unix the last complete write (elsewhere nothing is claimed of one). \<open>Plan\<close>, \<open>Plan_Run\<close> (\<open>plan.rs\<close>): one item, and the loop over a batch with a save before and after
  each item. This theory joins them: an item a run leaves pending was not applied, over any network.

  \<^bold>\<open>The account and its batches\<close> (\<open>tennoworth-desktop\<close>). \<open>Command_Error\<close>: the errors of commands. \<open>Credential\<close>
  (\<open>wfm-trading/src/auth.rs\<close>): the encrypted sign-in and its file. \<open>Wfm_Session\<close>, \<open>Session_System\<close>, \<open>Session_Facts\<close>
  (\<open>services/wfm/session.rs\<close>, \<open>order_mutations.rs\<close>): unlocks, sign-ins, logouts and order changes, one stage per lock or
  input and output, interleaved by all threads; a logout is final, one order change runs at a time with its account,
  every call can end. \<open>Batch_Review\<close>, \<open>Batch_Facts\<close> (\<open>commands/listing.rs\<close>): what a batch is checked for; an accepted
  one leaves the protected copies and fits the trades left. \<open>Batch_Commands\<close>, \<open>Batch_Command_Facts\<close>: submit, resume,
  discard and the changes of one order, over session, journal, database and market.

  \<^bold>\<open>Trades from the log\<close> (\<open>tennoworth-desktop\<close>). \<open>Trade_Log\<close> and \<open>Log_Tail\<close> (\<open>game_log/eelog.rs\<close>): the text of a trade
  dialog and the tailer of a growing, rotating file. \<open>Recording\<close>: the health shown. \<open>Allowance\<close> (\<open>contracts/trading.rs\<close>)
  and \<open>Ledger\<close> (\<open>persistence/trades.rs\<close>): the trades left today and the tables behind them. \<open>Auto_Close\<close>
  (\<open>trading/trades.rs\<close>): listings adjusted after a sale. \<open>Trade_Pipeline\<close> joins tailer, ledger and listings: each trade of the
  log is recorded, adjusted for and announced once.

  \<^bold>\<open>The inventory\<close> (\<open>game-acquisition\<close>, \<open>market-domain\<close>, \<open>tennoworth-desktop\<close>). \<open>Redaction\<close>, \<open>Scan_Patterns\<close>, \<open>Game_Scan\<close>,
  \<open>Game_Scan_Facts\<close> (\<open>game-acquisition/src\<close>): errors without credentials, the patterns, and the search of the game's
  memory, whose walk of the regions (a \<open>partial_function\<close>) is proved to end. \<open>Inventory_Paths\<close>, \<open>Inventory\<close>, \<open>Market_Items\<close>
  (\<open>market-domain/src/inventory.rs\<close>, \<open>persistence\<close>, \<open>services/market/sellables\<close>): reading the game's document, recording a
  scan, the copies owned. \<open>Protection\<close>, \<open>Protection_Facts\<close> (\<open>trading/protection.rs\<close>): reserves and what stays available.
  \<open>Listing_Outcomes\<close>, \<open>Outcome_Facts\<close> (\<open>trading/outcomes.rs\<close>): what listings sold; binary64 is the record \<open>float_ops\<close>.

  \<^bold>\<open>Beside the game.\<close> \<open>Auto_Scan\<close> (\<open>inventory/auto_scan.rs\<close>): when the inventory is scanned. \<open>Presence\<close>, \<open>Presence_Loop\<close>,
  \<open>Presence_Facts\<close> (\<open>wfm-trading/src/presence/mod.rs\<close>, \<open>services/wfm/presence.rs\<close>): the status channel and the thread
  that keeps a status up. \<open>Notifications\<close> (\<open>contracts/notification.rs\<close>, \<open>persistence/notifications.rs\<close>,
  \<open>services/notifications\<close>): the inbox and the cooldown of a key. \<open>Live_Top\<close> (\<open>market/live_top.rs\<close>, \<open>presence/ws.rs\<close>): the
  best orders of an item and the stream of new ones; an \<open>f64\<close> is the rational it is, its division a parameter.
  \<open>Watches\<close> (\<open>persistence/watches.rs\<close>, \<open>commands/watches.rs\<close>, \<open>services/watches\<close>): the price watches that poll and
  stream share. \<open>Watch_Facts\<close>: alerts of a watch are six hours apart. \<open>Offer_Facts\<close>: the top is the best order of
  others, the poll and the stream judge alike, a whisper is one message to one player.

  \<^bold>\<open>The publisher\<close> (\<open>announcement-feed\<close>, \<open>tennoworth-publisher\<close>). \<open>Feed\<close>: what a valid feed is. \<open>Publisher\<close>: the store of
  announcements and events. \<open>Publication\<close>: the publisher over its life, with restarts, failing exports, backups
  restored and host recovery.

  \<^bold>\<open>Contracts.\<close> A locale states what one part relies on in another, its lemmas are proved once inside it, and its
  interpretations are on the model's definitions: \<open>inductive_invariant\<close> (\<open>gov\<close>, \<open>cache\<close>, \<open>store\<close>, \<open>session\<close>), \<open>entry_map\<close> (\<open>bt\<close>),
  \<open>item_constraints\<close> (\<open>cat\<close>), \<open>plan_store\<close> and \<open>plan_runner\<close> (\<open>journal\<close>: what a crash may leave; \<open>now\<close>: what a read finds), \<open>tail_invariant\<close> (\<open>warned\<close>, \<open>refused\<close>, \<open>in_sync\<close>,
  \<open>attending\<close>),
  \<open>thread_invariant\<close> and \<open>kept_decisions\<close> (\<open>replies\<close>, \<open>durations\<close>, \<open>silence\<close>), \<open>kept_by_store\<close> (\<open>tables\<close>, \<open>mark\<close>,
  \<open>requests\<close>).

  \<^bold>\<open>Outside.\<close> Parameters stand for code that is not under \<open>src\<close>: HTTP and sockets (scripts of answers), SQLite (which
  statement fails), signatures, digests, dates, URLs and the text of JSON (records of functions; a theorem that relies on
  one names the documented law it needs, and its witness has a concrete instance). Clocks, random numbers, process
  lists and the scheduling of threads are inputs. There is no fuel: loops run over the list of their inputs, or end by a
  measure or a proved bound.

  \<^bold>\<open>Not modelled.\<close> Windows, the sign-in webview, the overlay and its recognition, HTML scraping, the updater, the market
  cache's downloads, rivens, reminders and the HTTP routes of the services are input and output around foreign libraries. The planners,
  scores and price statistics are binary64 throughout, and the library theories have no model of its rounding. The
  collectors and the scraper are separate services whose logic is SQL, headers and offline files.
\<close>

section \<open>A plan's item over the network\<close>

text \<open>
  The market behind \<open>send_on\<close>: each mutation meets the next script of attempts, and the log keeps every
  mutation with the script it met and the events of its sending.
\<close>

record 'e net =
  nt_rest :: 'e
  nt_scripts :: "(nat \<Rightarrow> attempt) list"
  nt_log :: "(mutation \<times> (nat \<Rightarrow> attempt) \<times> net_event list) list"

definition unreachable :: "nat \<Rightarrow> attempt" where
  "unreachable i = \<lparr> at_acquire = Err Cancelled, at_reply = None, at_throttled = Ok (), at_deadline = 0, at_unix_ms = 0 \<rparr>"

definition net_send :: "'e net send" where
  "net_send m n =
     (let env = (case nt_scripts n of [] \<Rightarrow> unreachable | s # _ \<Rightarrow> s); (evs, res) = send_on Mutation True env
      in (res, n\<lparr> nt_scripts := tl (nt_scripts n), nt_log := nt_log n @ [(m, env, evs)] \<rparr>))"

definition off_net :: "('e \<Rightarrow> 'a \<times> 'e) \<Rightarrow> 'e net \<Rightarrow> 'a \<times> 'e net" where
  "off_net f n = (let (a, e) = f (nt_rest n) in (a, n\<lparr> nt_rest := e \<rparr>))"

lemma off_net_log: "nt_log (snd (off_net f n)) = nt_log n"
  by (simp add: off_net_def split: prod.splits)

text \<open>Nothing of the logged mutation can have been applied: every time it went out it was refused outright.\<close>

definition unapplied :: "mutation \<times> (nat \<Rightarrow> attempt) \<times> net_event list \<Rightarrow> bool" where
  "unapplied entry = (case entry of (m, env, evs) \<Rightarrow> \<forall>i < sends evs. refused_unapplied (env i))"

lemma send_on_unapplied:
  assumes "send_on Mutation cl env = (evs, Err e)" and "e \<noteq> UncertainMutation"
  shows "unapplied (m, env, evs)"
proof -
  let ?l = "send_loop Mutation cl env True 0 (attempts_of Mutation)"
  have err: "snd ?l = Err e" and n: "sends evs = sends (fst ?l)"
    using send_on_loop(1,2) [of Mutation cl env] assms(1) by simp_all
  have "refused_unapplied (env i)" if "i < sends evs" for i
  proof (cases "Suc i < sends evs")
    case True
    then show ?thesis using mutation_resend [of i cl env True 0 "attempts_of Mutation"] n by simp
  next
    case False
    with that have "sends (fst ?l) = Suc i" using n by simp
    from mutation_last [OF this] err assms(2) show ?thesis by simp
  qed
  then show ?thesis by (simp add: unapplied_def)
qed

lemma deferred_unapplied:
  assumes "net_send m n = (Err e, n')" and "outcome_of e = Deferred"
  shows "\<exists>x. nt_log n' = nt_log n @ [x] \<and> unapplied x"
proof -
  define env where "env = (case nt_scripts n of [] \<Rightarrow> unreachable | s # _ \<Rightarrow> s)"
  obtain evs res where s: "send_on Mutation True env = (evs, res)" by (cases "send_on Mutation True env")
  with assms(1) have "res = Err e" and "nt_log n' = nt_log n @ [(m, env, evs)]"
    by (auto simp: net_send_def env_def [symmetric] Let_def)
  moreover have "e \<noteq> UncertainMutation" using assms(2) by auto
  ultimately show ?thesis using send_on_unapplied s by blast
qed

lemma patch_unapplied:
  assumes "patch_one_order fm net_send i body n = (r, n')" and "po_status r = STATUS_PENDING"
  shows "\<exists>x. nt_log n' = nt_log n @ [x] \<and> unapplied x"
proof -
  obtain resp n1 where s: "net_send (PatchOrder i body) n = (resp, n1)" by (cases "net_send (PatchOrder i body) n")
  with assms have "n' = n1" by (simp add: patch_one_order_def)
  moreover obtain e where "resp = Err e" "outcome_of e = Deferred"
    using assms s by (cases resp) (auto simp: patch_one_order_def split: if_splits)
  ultimately show ?thesis using deferred_unapplied s by blast
qed

lemma execute_one_unapplied:
  assumes "execute_one fm u (off_net read) (off_net validate) net_send item n = (res, n')"
    and "ir_status res = STATUS_PENDING"
  shows "nt_log n' = nt_log n \<or> (\<exists>x. nt_log n' = nt_log n @ [x] \<and> unapplied x)"
proof -
  have create: "nt_log n2 = nt_log n1 \<or> (\<exists>x. nt_log n2 = nt_log n1 @ [x] \<and> unapplied x)"
    if "create_order fm net_send item cat n1 = (res, n2)" for cat n1 n2
  proof -
    obtain resp n3 where s: "net_send (PostOrder (build_order_body item cat)) n1 = (resp, n3)"
      by (cases "net_send (PostOrder (build_order_body item cat)) n1")
    show ?thesis
    proof (cases "MAX_PLATINUM < sat_mul (it_platinum item) (item_lot item cat)")
      case False
      with that s have "n2 = n3" and "res = created_answer fm item resp" by (auto simp: create_order_def)
      moreover have "\<exists>e. resp = Err e \<and> outcome_of e = Deferred"
        using assms(2) \<open>res = created_answer fm item resp\<close>
        by (cases resp) (auto simp: created_answer_def item_answer_def Let_def split: if_splits option.splits)
      ultimately show ?thesis using deferred_unapplied s by blast
    qed (use that in \<open>auto simp: create_order_def\<close>)
  qed
  have update: "nt_log n2 = nt_log n1 \<or> (\<exists>x. nt_log n2 = nt_log n1 @ [x] \<and> unapplied x)"
    if "update_existing fm net_send item cat p n1 = (res, n2)" for cat p n1 n2
    using that assms(2)
    by (auto simp: update_existing_def split: if_splits sum.splits prod.splits dest: patch_unapplied)
  show ?thesis
    using assms off_net_log [of read n] off_net_log [of validate "snd (off_net read n)"]
    by (auto simp: execute_one_def Let_def split: sum.splits prod.splits if_splits option.splits
        dest!: create update)
qed

section \<open>Properties\<close>

text \<open>C2: End to end: an item whose result is pending (the only status a later run resumes) has not touched
  the market. Whatever the network does, either no mutation was sent for it, or one was and every time
  it went out the market refused it outright.\<close>

theorem pending_item_was_not_applied:
  assumes "execute_one fm u (off_net read) (off_net validate) net_send item n = (res, n')"
    and "ir_status res = STATUS_PENDING"
  shows "nt_log n' = nt_log n \<or> (\<exists>x. nt_log n' = nt_log n @ [x] \<and> unapplied x)"
  by (rule execute_one_unapplied [OF assms])

definition demo_net :: "unit net" where
  "demo_net = \<lparr> nt_rest = (), nt_scripts = [], nt_log = [] \<rparr>"

lemma demo_net_run:
  "\<exists>res n'. execute_one demo_fmt demo_unlocked (off_net (\<lambda>w. (Ok [], w))) (off_net (\<lambda>w. (Ok (), w))) net_send
     demo_plan_item demo_net = (res, n') \<and> ir_status res = STATUS_PENDING \<and> length (nt_log n') = 1"
  by (simp add: execute_one_def demo_check off_net_def index_existing_orders_def create_order_def demo_fields
      sat_mul_def net_send_def demo_net_def unreachable_def send_on_def attempts_of_mutation created_answer_def
      item_answer_def)

theorem pending_item_was_not_applied_witness:
  "\<exists>x :: mutation \<times> (nat \<Rightarrow> attempt) \<times> net_event list. unapplied x"
proof -
  obtain res n' where run: "execute_one demo_fmt demo_unlocked (off_net (\<lambda>w. (Ok [], w))) (off_net (\<lambda>w. (Ok (), w)))
      net_send demo_plan_item demo_net = (res, n')" "ir_status res = STATUS_PENDING" and "length (nt_log n') = 1"
    using demo_net_run by blast
  with pending_item_was_not_applied [OF run] show ?thesis by (auto simp: demo_net_def)
qed

end
